(* ===== verification/VPR_Prelude.thy ===== *)
theory VPR_Prelude
  imports Main "HOL-Library.Word" "HOL-Library.Code_Target_Nat"
begin

text \<open>
  Shared vocabulary of the development: Rust results, strings and machine integers, the generic
  lemmas about them, and the collections of rewrite rules the component theories extend.

  \<^item> A Rust \<open>Result<T, E>\<close> is the sum \<open>'e + 'a\<close>, written with the constructors \<open>Ok\<close> and \<open>Err\<close>;
    the \<open>?\<close> operator is a \<open>case\<close> that passes \<open>Err\<close> on.
  \<^item> A method that takes \<open>&mut self\<close> and returns a \<open>Result\<close> is a function from the old value of
    \<open>self\<close> to the result and the new value, so that what a failing call leaves behind is part of
    the model (and ``a failing call changes nothing'' is a theorem, not a convention).
  \<^item> A Rust \<open>String\<close> is the list of its Unicode scalar values. \<open>chars().count()\<close> is the length of
    that list, \<open>len()\<close> the number of bytes of its UTF-8 encoding (\<open>utf8_len\<close>).
  \<^item> \<open>u64\<close>, \<open>u32\<close> and \<open>u16\<close> are words of that width; \<open>usize\<close> is a natural number whose checked
    operations test the 64-bit bound.
\<close>

section \<open>Collections\<close>

named_theorems op_defs \<open>definitions of the modelled operations, unfolded by the component proofs\<close>
named_theorems inv_defs \<open>definitions of the invariants\<close>
named_theorems checked_simps \<open>what a successful checked operation returns\<close>

section \<open>Results\<close>

abbreviation Ok :: "'a \<Rightarrow> 'e + 'a" where "Ok \<equiv> Inr"
abbreviation Err :: "'e \<Rightarrow> 'e + 'a" where "Err \<equiv> Inl"

type_synonym ('s, 'a, 'e) op = "'s \<Rightarrow> ('e + 'a) \<times> 's"

primrec is_ok :: "'e + 'a \<Rightarrow> bool" where
  "is_ok (Inl e) = False"
| "is_ok (Inr a) = True"

definition ok_or :: "'a option \<Rightarrow> 'e \<Rightarrow> 'e + 'a" where
  "ok_or x e = (case x of None \<Rightarrow> Err e | Some v \<Rightarrow> Ok v)"

definition map_err :: "('e \<Rightarrow> 'f) \<Rightarrow> 'e + 'a \<Rightarrow> 'f + 'a" where
  "map_err f r = (case r of Err e \<Rightarrow> Err (f e) | Ok v \<Rightarrow> Ok v)"

definition is_some_and :: "('a \<Rightarrow> bool) \<Rightarrow> 'a option \<Rightarrow> bool" where
  "is_some_and P x = (case x of None \<Rightarrow> False | Some v \<Rightarrow> P v)"

definition is_none_or :: "('a \<Rightarrow> bool) \<Rightarrow> 'a option \<Rightarrow> bool" where
  "is_none_or P x = (case x of None \<Rightarrow> True | Some v \<Rightarrow> P v)"

lemma is_ok_iff: "is_ok r \<longleftrightarrow> (\<exists>v. r = Ok v)"
  by (cases r) auto

lemma ok_or_simps [simp]:
  "ok_or None e = Err e" "ok_or (Some v) e = Ok v"
  by (simp_all add: ok_or_def)

lemma ok_or_Ok_iff [simp]: "ok_or x e = Ok v \<longleftrightarrow> x = Some v"
  by (cases x) simp_all

lemma ok_or_Err_iff [simp]: "ok_or x e = Err e' \<longleftrightarrow> x = None \<and> e' = e"
  by (cases x) auto

lemma map_err_simps [simp]:
  "map_err f (Err e) = Err (f e)" "map_err f (Ok v) = Ok v"
  by (simp_all add: map_err_def)

lemma map_err_Ok_iff [simp]: "map_err f r = Ok v \<longleftrightarrow> r = Ok v"
  by (cases r) simp_all

lemma is_ok_map_err [simp]: "is_ok (map_err f r) = is_ok r"
  by (cases r) simp_all

lemma is_some_and_simps [simp]:
  "is_some_and P None = False" "is_some_and P (Some v) = P v"
  by (simp_all add: is_some_and_def)

lemma is_none_or_simps [simp]:
  "is_none_or P None = True" "is_none_or P (Some v) = P v"
  by (simp_all add: is_none_or_def)

text \<open>
  An operation fails safely when an error leaves the state as it was. Most of the runtime's
  mutating methods promise this; the exceptions are stated where they occur.
\<close>

definition fails_safe :: "('s, 'a, 'e) op \<Rightarrow> bool" where
  "fails_safe f \<longleftrightarrow> (\<forall>s e s'. f s = (Err e, s') \<longrightarrow> s' = s)"

lemma fails_safeI [intro]: "(\<And>s e s'. f s = (Err e, s') \<Longrightarrow> s' = s) \<Longrightarrow> fails_safe f"
  by (simp add: fails_safe_def)

lemma fails_safeD: "fails_safe f \<Longrightarrow> f s = (Err e, s') \<Longrightarrow> s' = s"
  by (simp add: fails_safe_def)

section \<open>Machine integers\<close>

type_synonym u16 = "16 word"
type_synonym u32 = "32 word"
type_synonym u64 = "64 word"
type_synonym byte = "8 word"

definition checked_add :: "'w::len word \<Rightarrow> 'w word \<Rightarrow> 'w word option" where
  "checked_add a b = (if unat a + unat b < 2 ^ LENGTH('w) then Some (a + b) else None)"

definition checked_sub :: "'w::len word \<Rightarrow> 'w word \<Rightarrow> 'w word option" where
  "checked_sub a b = (if b \<le> a then Some (a - b) else None)"

definition checked_mul :: "'w::len word \<Rightarrow> 'w word \<Rightarrow> 'w word option" where
  "checked_mul a b = (if unat a * unat b < 2 ^ LENGTH('w) then Some (a * b) else None)"

definition checked_div :: "'w::len word \<Rightarrow> 'w word \<Rightarrow> 'w word option" where
  "checked_div a b = (if b = 0 then None else Some (a div b))"

definition usize_checked_add :: "nat \<Rightarrow> nat \<Rightarrow> nat option" where
  "usize_checked_add a b = (if a + b < 2 ^ 64 then Some (a + b) else None)"

definition usize_checked_mul :: "nat \<Rightarrow> nat \<Rightarrow> nat option" where
  "usize_checked_mul a b = (if a * b < 2 ^ 64 then Some (a * b) else None)"

text \<open>Code equations over \<open>int\<close>, so that the kernel evaluates them in binary.\<close>

lemma nat_bound_int: "int m < 2 ^ k \<longleftrightarrow> m < 2 ^ k"
proof -
  have "int m < 2 ^ k \<longleftrightarrow> int m < int (2 ^ k)" by simp
  also have "\<dots> \<longleftrightarrow> m < 2 ^ k" by (rule of_nat_less_iff)
  finally show ?thesis .
qed

lemma checked_add_code [code]:
  "checked_add (a::'w::len word) b = (if uint a + uint b < 2 ^ LENGTH('w) then Some (a + b) else None)"
  unfolding checked_add_def uint_nat by (simp only: nat_bound_int flip: of_nat_add)

lemma checked_mul_code [code]:
  "checked_mul (a::'w::len word) b = (if uint a * uint b < 2 ^ LENGTH('w) then Some (a * b) else None)"
  unfolding checked_mul_def uint_nat by (simp only: nat_bound_int flip: of_nat_mult)

lemma usize_checked_add_code [code]:
  "usize_checked_add a b = (if int a + int b < 2 ^ 64 then Some (a + b) else None)"
  using nat_bound_int [of "a + b" 64] by (simp add: usize_checked_add_def)

lemma usize_checked_mul_code [code]:
  "usize_checked_mul a b = (if int a * int b < 2 ^ 64 then Some (a * b) else None)"
  using nat_bound_int [of "a * b" 64] by (simp add: usize_checked_mul_def)

lemma checked_add_SomeD [checked_simps]:
  fixes a b :: "'w::len word"
  assumes "checked_add a b = Some c"
  shows "c = a + b" and "unat c = unat a + unat b"
  using assms by (auto simp: checked_add_def unat_word_ariths split: if_splits)

lemma checked_add_None_iff:
  "checked_add (a::'w::len word) b = None \<longleftrightarrow> 2 ^ LENGTH('w) \<le> unat a + unat b"
  by (simp add: checked_add_def)

lemma checked_sub_SomeD [checked_simps]:
  fixes a b :: "'w::len word"
  assumes "checked_sub a b = Some c"
  shows "c = a - b" and "unat c = unat a - unat b" and "b \<le> a"
  using assms by (auto simp: checked_sub_def unat_sub split: if_splits)

lemma checked_mul_SomeD [checked_simps]:
  fixes a b :: "'w::len word"
  assumes "checked_mul a b = Some c"
  shows "c = a * b" and "unat c = unat a * unat b"
  using assms by (auto simp: checked_mul_def unat_word_ariths split: if_splits)

lemma checked_div_SomeD [checked_simps]:
  fixes a b :: "'w::len word"
  assumes "checked_div a b = Some c"
  shows "c = a div b" and "unat c = unat a div unat b" and "b \<noteq> 0"
  using assms by (auto simp: checked_div_def unat_div split: if_splits)

lemma usize_checked_add_Some_iff [simp]:
  "usize_checked_add a b = Some c \<longleftrightarrow> c = a + b \<and> a + b < 2 ^ 64"
  by (auto simp: usize_checked_add_def)

lemma usize_checked_mul_Some_iff [simp]:
  "usize_checked_mul a b = Some c \<longleftrightarrow> c = a * b \<and> a * b < 2 ^ 64"
  by (auto simp: usize_checked_mul_def)

text \<open>The successor of a 64-bit counter: one more, or an overflow at the largest value only.\<close>

lemma checked_succ_Some_iff:
  "checked_add (a::u64) 1 = Some b \<longleftrightarrow> unat a < 2 ^ 64 - 1 \<and> b = a + 1"
  by (auto simp: checked_add_def)

lemma checked_succ_None_iff: "checked_add (a::u64) 1 = None \<longleftrightarrow> unat a = 2 ^ 64 - 1"
proof -
  have "unat a < 2 ^ 64"
    using unsigned_less [of a] by simp
  then show ?thesis
    by (auto simp: checked_add_def)
qed

lemma checked_succ_gt: "checked_add (a::u64) 1 = Some b \<Longrightarrow> a < b"
  by (simp add: checked_add_SomeD(2) word_less_nat_alt)

section \<open>Strings\<close>

type_synonym rust_string = "nat list"

definition lit :: "string \<Rightarrow> rust_string" where
  "lit s = map of_char s"

text \<open>The Unicode property \<open>White_Space\<close>, which \<open>str::trim\<close> strips.\<close>

definition is_whitespace :: "nat \<Rightarrow> bool" where
  "is_whitespace c \<longleftrightarrow>
     9 \<le> c \<and> c \<le> 13 \<or> c = 32 \<or> c = 133 \<or> c = 160 \<or> c = 5760 \<or>
     8192 \<le> c \<and> c \<le> 8202 \<or> c = 8232 \<or> c = 8233 \<or> c = 8239 \<or> c = 8287 \<or> c = 12288"

definition trim :: "rust_string \<Rightarrow> rust_string" where
  "trim s = rev (dropWhile is_whitespace (rev (dropWhile is_whitespace s)))"

definition blank :: "rust_string \<Rightarrow> bool" where
  "blank s \<longleftrightarrow> trim s = []"

definition utf8_width :: "nat \<Rightarrow> nat" where
  "utf8_width c = (if c < 128 then 1 else if c < 2048 then 2 else if c < 65536 then 3 else 4)"

definition utf8_len :: "rust_string \<Rightarrow> nat" where
  "utf8_len s = sum_list (map utf8_width s)"

text \<open>The UTF-8 encoding that \<open>as_bytes\<close> and \<open>bytes\<close> give.\<close>

definition utf8_char :: "nat \<Rightarrow> byte list" where
  "utf8_char c =
     (if c < 128 then [of_nat c]
      else if c < 2048 then [of_nat (192 + c div 64), of_nat (128 + c mod 64)]
      else if c < 65536 then
        [of_nat (224 + c div 4096), of_nat (128 + c div 64 mod 64), of_nat (128 + c mod 64)]
      else [of_nat (240 + c div 262144), of_nat (128 + c div 4096 mod 64),
            of_nat (128 + c div 64 mod 64), of_nat (128 + c mod 64)])"

definition utf8_bytes :: "rust_string \<Rightarrow> byte list" where
  "utf8_bytes s = concat (map utf8_char s)"

lemma blank_iff: "blank s \<longleftrightarrow> (\<forall>c \<in> set s. is_whitespace c)"
proof
  assume "blank s"
  then have "\<forall>c \<in> set (dropWhile is_whitespace s). is_whitespace c"
    by (simp add: blank_def trim_def dropWhile_eq_Nil_conv)
  then have "dropWhile is_whitespace s = []"
    by (metis hd_dropWhile hd_in_set)
  then show "\<forall>c \<in> set s. is_whitespace c"
    by (simp add: dropWhile_eq_Nil_conv)
next
  assume "\<forall>c \<in> set s. is_whitespace c"
  then show "blank s"
    by (auto simp: blank_def trim_def dropWhile_eq_Nil_conv dest: set_dropWhileD)
qed

lemma blank_Nil [simp]: "blank []"
  by (simp add: blank_iff)

lemma not_blank_not_Nil: "\<not> blank s \<Longrightarrow> s \<noteq> []"
  by auto

lemma utf8_len_append [simp]: "utf8_len (s @ t) = utf8_len s + utf8_len t"
  by (simp add: utf8_len_def)

lemma length_le_utf8_len: "length s \<le> utf8_len s"
  by (induction s) (auto simp: utf8_len_def utf8_width_def)

lemma utf8_bytes_simps [simp]:
  "utf8_bytes [] = []" "utf8_bytes (c # s) = utf8_char c @ utf8_bytes s"
  by (simp_all add: utf8_bytes_def)

lemma length_utf8_bytes: "length (utf8_bytes s) = utf8_len s"
  by (induction s) (simp_all add: utf8_len_def utf8_char_def utf8_width_def)

text \<open>A string whose bytes are all below 128 is a string of ASCII characters.\<close>

lemma utf8_char_continuation: "128 \<le> c \<Longrightarrow> of_nat (128 + c mod 64) \<in> set (utf8_char c)"
  by (auto simp: utf8_char_def)

lemma ascii_bytes_chars:
  assumes "\<forall>b \<in> set (utf8_bytes s). unat b < 128"
  shows "\<forall>c \<in> set s. c < 128"
proof (rule ballI, rule ccontr)
  fix c assume c: "c \<in> set s" "\<not> c < 128"
  then have "of_nat (128 + c mod 64) \<in> set (utf8_bytes s)"
    unfolding utf8_bytes_def set_concat set_map
    by (intro UN_I [of "utf8_char c"] imageI utf8_char_continuation) simp_all
  then have "unat (of_nat (128 + c mod 64) :: byte) < 128" using assms by blast
  moreover have "128 + c mod 64 < 256" using mod_less_divisor [of 64 c] by linarith
  then have "unat (of_nat (128 + c mod 64) :: byte) = 128 + c mod 64"
    by (simp only: unat_of_nat) simp
  ultimately show False by simp
qed

lemma ascii_utf8_bytes: "\<forall>c \<in> set s. c < 128 \<Longrightarrow> utf8_bytes s = map of_nat s"
  by (induction s) (simp_all add: utf8_char_def)

lemma ascii_utf8_len: "\<forall>c \<in> set s. c < 128 \<Longrightarrow> utf8_len s = length s"
  by (induction s) (simp_all add: utf8_len_def utf8_width_def)

lemma ascii_bytes_inject:
  assumes "\<forall>c \<in> set s. c < 128" and "\<forall>c \<in> set t. c < 128"
  shows "utf8_bytes s = utf8_bytes t \<longleftrightarrow> s = t"
proof
  assume "utf8_bytes s = utf8_bytes t"
  then have "map of_nat s = (map of_nat t :: byte list)" using assms by (simp add: ascii_utf8_bytes)
  then have "map unat (map of_nat s :: byte list) = map unat (map of_nat t :: byte list)" by simp
  moreover have "map unat (map of_nat r :: byte list) = r" if "\<forall>c \<in> set r. c < 128" for r
    using that by (induction r) (simp_all add: unat_of_nat)
  ultimately show "s = t" using assms by simp
qed simp

section \<open>Lists addressed by a key\<close>

text \<open>
  \<open>iter_mut().find(p)\<close> followed by an update of the element found: the first element that
  satisfies the predicate is replaced, \<open>None\<close> when there is none.
\<close>

fun update_first :: "('a \<Rightarrow> bool) \<Rightarrow> ('a \<Rightarrow> 'a) \<Rightarrow> 'a list \<Rightarrow> 'a list" where
  "update_first P f [] = []"
| "update_first P f (x # xs) = (if P x then f x # xs else x # update_first P f xs)"

fun position :: "('a \<Rightarrow> bool) \<Rightarrow> 'a list \<Rightarrow> nat option" where
  "position P [] = None"
| "position P (x # xs) = (if P x then Some 0 else map_option Suc (position P xs))"

lemma find_Some_mem: "List.find P xs = Some x \<Longrightarrow> x \<in> set xs \<and> P x"
  by (auto simp: find_Some_iff)

lemma position_find_None: "position P xs = None \<longleftrightarrow> List.find P xs = None"
  by (induction xs) auto

lemma position_SomeD: "position P xs = Some i \<Longrightarrow> i < length xs \<and> List.find P xs = Some (xs ! i)"
  by (induction xs arbitrary: i) (auto split: if_splits)

lemma update_first_nth: "position P xs = Some i \<Longrightarrow> update_first P f xs = xs[i := f (xs ! i)]"
  by (induction xs arbitrary: i) (auto split: if_splits)

lemma length_update_first [simp]: "length (update_first P f xs) = length xs"
  by (induction xs) auto

lemma map_update_first:
  "(\<And>x. P x \<Longrightarrow> g (f x) = g x) \<Longrightarrow> map g (update_first P f xs) = map g xs"
  by (induction xs) auto

lemma update_first_Nil_iff [simp]: "update_first P f xs = [] \<longleftrightarrow> xs = []"
  by (cases xs) auto

lemma set_update_first_subset: "set (update_first P f xs) \<subseteq> set xs \<union> f ` {x \<in> set xs. P x}"
  by (induction xs) auto

lemma update_first_invariant:
  assumes "\<forall>x \<in> set xs. Q x" and "\<And>x. x \<in> set xs \<Longrightarrow> P x \<Longrightarrow> Q x \<Longrightarrow> Q (f x)"
  shows "\<forall>x \<in> set (update_first P f xs). Q x"
  using assms by (induction xs) auto

lemma update_first_none: "List.find P xs = None \<Longrightarrow> update_first P f xs = xs"
  by (induction xs) (auto split: if_splits)

lemma update_first_same: "List.find P xs = Some x \<Longrightarrow> update_first P (\<lambda>_. x) xs = xs"
  by (induction xs) (auto split: if_splits)

lemma update_first_find:
  "List.find P xs = Some x \<Longrightarrow> f x = g x \<Longrightarrow> update_first P f xs = update_first P g xs"
  by (induction xs) (auto split: if_splits)

lemma find_update_first_same:
  assumes "List.find P xs = Some x" and "P (f x)"
  shows "List.find P (update_first P f xs) = Some (f x)"
  using assms by (induction xs) (auto split: if_splits)

lemma find_update_first_other:
  assumes "\<And>x. P x \<Longrightarrow> \<not> Q x" and "\<And>x. P x \<Longrightarrow> \<not> Q (f x)"
  shows "List.find Q (update_first P f xs) = List.find Q xs"
  using assms by (induction xs) auto

lemma find_distinct_key:
  assumes "distinct (map k xs)" and "x \<in> set xs"
  shows "List.find (\<lambda>y. k y = k x) xs = Some x"
  using assms by (induction xs) (auto simp: image_iff)

lemma sorted_wrt_irrefl_distinct:
  assumes "sorted_wrt P xs" and "\<And>x. \<not> P x x"
  shows "distinct xs"
  using assms(1) by (induction xs) (auto simp: assms(2))

section \<open>Taking one element out of a list\<close>

definition remove_nth :: "nat \<Rightarrow> 'a list \<Rightarrow> 'a list" where
  "remove_nth k xs = take k xs @ drop (Suc k) xs"

lemma set_remove_nth: "set (remove_nth k xs) \<subseteq> set xs"
  by (auto simp: remove_nth_def dest: in_set_takeD in_set_dropD)

lemma count_list_remove_nth:
  "k < length xs \<Longrightarrow> count_list (remove_nth k xs) b = count_list xs b - (if b = xs ! k then 1 else 0)"
  by (subst (2) id_take_nth_drop [of k xs]) (simp_all add: remove_nth_def)

lemma distinct_iff_count_list: "distinct xs \<longleftrightarrow> (\<forall>x \<in> set xs. count_list xs x = 1)"
  by (induction xs) (auto simp: count_list_0_iff)

section \<open>Runs of fallible operations\<close>

text \<open>
  A history of calls: each event is an operation on the state; its result is recorded. Failing
  calls are part of the history, as they are in the program.
\<close>

fun run_ops :: "('c \<Rightarrow> ('s, 'a, 'e) op) \<Rightarrow> 'c list \<Rightarrow> 's \<Rightarrow> ('c \<times> ('e + 'a)) list \<times> 's" where
  "run_ops step [] s = ([], s)"
| "run_ops step (c # cs) s =
     ((c, fst (step c s)) # fst (run_ops step cs (snd (step c s))), snd (run_ops step cs (snd (step c s))))"

abbreviation final :: "('c \<Rightarrow> ('s, 'a, 'e) op) \<Rightarrow> 'c list \<Rightarrow> 's \<Rightarrow> 's" where
  "final step cs s \<equiv> snd (run_ops step cs s)"

lemma run_ops_invariant:
  assumes step: "\<And>c s. I s \<Longrightarrow> I (snd (step c s))" and "I s"
  shows "I (final step cs s)"
  using assms(2) by (induction cs arbitrary: s) (simp_all add: step)

lemma run_ops_mono:
  fixes m :: "'s \<Rightarrow> 'o::preorder"
  assumes step: "\<And>c s. m s \<le> m (snd (step c s))"
  shows "m s \<le> m (final step cs s)"
proof (induction cs arbitrary: s)
  case Nil
  then show ?case by simp
next
  case (Cons c cs)
  have "m s \<le> m (snd (step c s))" by (rule step)
  also have "\<dots> \<le> m (final step cs (snd (step c s)))" by (rule Cons.IH)
  finally show ?case by simp
qed

lemma final_append: "final step (cs @ ds) s = final step ds (final step cs s)"
  by (induction cs arbitrary: s) simp_all

lemma results_append:
  "fst (run_ops step (cs @ ds) s) = fst (run_ops step cs s) @ fst (run_ops step ds (final step cs s))"
  by (induction cs arbitrary: s) simp_all

lemma length_results [simp]: "length (fst (run_ops step cs s)) = length cs"
  by (induction cs arbitrary: s) simp_all

text \<open>The calls of a history that succeeded.\<close>

definition successes :: "('c \<times> ('e + 'a)) list \<Rightarrow> 'c list" where
  "successes rs = map fst (filter (\<lambda>(c, r). is_ok r) rs)"

lemma successes_simps [simp]:
  "successes [] = []" "successes ((c, r) # rs) = (if is_ok r then c # successes rs else successes rs)"
  by (simp_all add: successes_def)

end
