(* ===== verification/VPR_Ids.thy ===== *)
theory VPR_Ids
  imports VPR_Prelude
begin

text \<open>
  Canonical identifiers and revision counters (\<^verbatim>\<open>crates/vpr-domain/src/ids.rs\<close>, and the two counters
  of \<^verbatim>\<open>persona.rs\<close> and \<^verbatim>\<open>profile.rs\<close>).

  The macro \<open>canonical_id!\<close> generates six newtypes over \<open>String\<close>; its body is the one definition
  \<open>canonical_id_new\<close>, applied to the constructor of each type. The four counters are newtypes over
  \<open>u64\<close>. What their clients rely on is stated in the locales \<open>canonical_id\<close> and
  \<open>revision_counter\<close>, interpreted below for every type the code generates or declares.
\<close>

section \<open>Canonical identifiers\<close>

definition MAX_CANONICAL_ID_CHARS :: nat where
  "MAX_CANONICAL_ID_CHARS = 256"

datatype IdError = IdError

definition canonical_id_new :: "(rust_string \<Rightarrow> 'id) \<Rightarrow> rust_string \<Rightarrow> IdError + 'id" where
  "canonical_id_new mk value =
     (if blank value \<or> length value > MAX_CANONICAL_ID_CHARS then Err IdError else Ok (mk value))"

datatype PersonaId = PersonaId (PersonaId_as_str: rust_string)
datatype ClaimId = ClaimId (ClaimId_as_str: rust_string)
datatype PreparationJobId = PreparationJobId (PreparationJobId_as_str: rust_string)
datatype SessionId = SessionId (SessionId_as_str: rust_string)
datatype TurnId = TurnId (TurnId_as_str: rust_string)
datatype CorrelationId = CorrelationId (CorrelationId_as_str: rust_string)

text \<open>What the rest of the program may assume of an identifier type made by the macro.\<close>

locale canonical_id =
  fixes mk :: "rust_string \<Rightarrow> 'id" and as_str :: "'id \<Rightarrow> rust_string"
  assumes as_str_mk: "as_str (mk s) = s"
    and mk_as_str: "mk (as_str i) = i"
begin

lemma new_Ok_iff:
  "canonical_id_new mk s = Ok i \<longleftrightarrow> \<not> blank s \<and> length s \<le> 256 \<and> as_str i = s"
  using as_str_mk mk_as_str
  by (auto simp: canonical_id_new_def MAX_CANONICAL_ID_CHARS_def)

lemma new_reads_back: "canonical_id_new mk s = Ok i \<Longrightarrow> as_str i = s"
  by (simp add: new_Ok_iff)

lemma new_injective: "canonical_id_new mk s = Ok i \<Longrightarrow> canonical_id_new mk t = Ok i \<Longrightarrow> s = t"
  by (auto simp: new_Ok_iff)

lemma new_as_str:
  "canonical_id_new mk s = Ok i \<Longrightarrow> canonical_id_new mk (as_str i) = Ok i"
  by (simp add: new_Ok_iff)

end

interpretation persona_id: canonical_id PersonaId PersonaId_as_str
  by unfold_locales simp_all

interpretation claim_id: canonical_id ClaimId ClaimId_as_str
  by unfold_locales simp_all

interpretation preparation_job_id: canonical_id PreparationJobId PreparationJobId_as_str
  by unfold_locales simp_all

interpretation session_id: canonical_id SessionId SessionId_as_str
  by unfold_locales simp_all

interpretation turn_id: canonical_id TurnId TurnId_as_str
  by unfold_locales simp_all

interpretation correlation_id: canonical_id CorrelationId CorrelationId_as_str
  by unfold_locales simp_all

section \<open>Revision counters\<close>

datatype AuthorizationEpoch = AuthorizationEpoch (AuthorizationEpoch_get: u64)
datatype AuthorizationEpochExhausted = AuthorizationEpochExhausted

definition AuthorizationEpoch_initial :: AuthorizationEpoch where
  "AuthorizationEpoch_initial = AuthorizationEpoch 1"

definition AuthorizationEpoch_from_persisted :: "u64 \<Rightarrow> AuthorizationEpoch option" where
  "AuthorizationEpoch_from_persisted value =
     (if value = 0 then None else Some (AuthorizationEpoch value))"

definition AuthorizationEpoch_next ::
  "AuthorizationEpoch \<Rightarrow> AuthorizationEpochExhausted + AuthorizationEpoch" where
  "AuthorizationEpoch_next e =
     ok_or (map_option AuthorizationEpoch (checked_add (AuthorizationEpoch_get e) 1))
       AuthorizationEpochExhausted"

datatype PolicyRevision = PolicyRevision (PolicyRevision_get: u64)
datatype PolicyRevisionExhausted = PolicyRevisionExhausted

definition PolicyRevision_initial :: PolicyRevision where
  "PolicyRevision_initial = PolicyRevision 1"

definition PolicyRevision_next :: "PolicyRevision \<Rightarrow> PolicyRevisionExhausted + PolicyRevision" where
  "PolicyRevision_next r =
     ok_or (map_option PolicyRevision (checked_add (PolicyRevision_get r) 1)) PolicyRevisionExhausted"

datatype PersonaVersion = PersonaVersion (PersonaVersion_get: u64)
datatype PersonaVersionExhausted = PersonaVersionExhausted

definition PersonaVersion_new :: "u64 \<Rightarrow> PersonaVersion option" where
  "PersonaVersion_new value = (if value > 0 then Some (PersonaVersion value) else None)"

definition PersonaVersion_next :: "PersonaVersion \<Rightarrow> PersonaVersionExhausted + PersonaVersion" where
  "PersonaVersion_next v =
     ok_or (map_option PersonaVersion (checked_add (PersonaVersion_get v) 1)) PersonaVersionExhausted"

datatype ClaimRevision = ClaimRevision (ClaimRevision_get: u64)
datatype ClaimRevisionExhausted = ClaimRevisionExhausted

definition ClaimRevision_initial :: ClaimRevision where
  "ClaimRevision_initial = ClaimRevision 1"

definition ClaimRevision_new :: "u64 \<Rightarrow> ClaimRevision option" where
  "ClaimRevision_new value = (if value > 0 then Some (ClaimRevision value) else None)"

definition ClaimRevision_next :: "ClaimRevision \<Rightarrow> ClaimRevisionExhausted + ClaimRevision" where
  "ClaimRevision_next r =
     ok_or (map_option ClaimRevision (checked_add (ClaimRevision_get r) 1)) ClaimRevisionExhausted"

text \<open>
  The contract of a counter: \<open>nxt\<close> adds one, and fails at the largest \<open>u64\<close> only. Clients use it
  to tell old revisions from the current one, so what matters is that a revision never comes back.
\<close>

locale revision_counter =
  fixes mk :: "u64 \<Rightarrow> 'r" and get :: "'r \<Rightarrow> u64" and nxt :: "'r \<Rightarrow> 'x + 'r"
  assumes get_mk: "get (mk v) = v"
    and mk_get: "mk (get r) = r"
    and next_Ok: "nxt r = Ok r' \<longleftrightarrow> unat (get r) < 2 ^ 64 - 1 \<and> r' = mk (get r + 1)"
begin

lemma get_inject: "get r = get r' \<longleftrightarrow> r = r'"
  by (metis mk_get)

lemma next_get: "nxt r = Ok r' \<Longrightarrow> unat (get r') = Suc (unat (get r))"
  by (auto simp: next_Ok get_mk unat_word_ariths)

lemma next_greater: "nxt r = Ok r' \<Longrightarrow> get r < get r'"
  by (simp add: next_get word_less_nat_alt)

lemma next_fresh: "nxt r = Ok r' \<Longrightarrow> r' \<noteq> r"
  using next_greater by fastforce

lemma next_succeeds: "unat (get r) < 2 ^ 64 - 1 \<Longrightarrow> \<exists>r'. nxt r = Ok r'"
  by (simp add: next_Ok)

lemma next_exhausted: "nxt r = Err x \<Longrightarrow> unat (get r) = 2 ^ 64 - 1"
proof -
  assume "nxt r = Err x"
  then have "\<not> unat (get r) < 2 ^ 64 - 1"
    using next_succeeds [of r] by auto
  moreover have "unat (get r) < 2 ^ 64"
    using unsigned_less [of "get r"] by simp
  ultimately show ?thesis by simp
qed

lemma next_injective: "nxt r = Ok s \<Longrightarrow> nxt r' = Ok s \<Longrightarrow> r = r'"
  by (metis Suc_inject get_inject next_get word_unat_eq_iff)

text \<open>A chain of successive revisions is strictly increasing, hence free of repetitions.\<close>

lemma chain_increasing:
  "successively (\<lambda>a b. nxt a = Ok b) rs \<Longrightarrow> sorted_wrt (\<lambda>a b. get a < get b) rs"
proof -
  assume "successively (\<lambda>a b. nxt a = Ok b) rs"
  then have "successively (\<lambda>a b. get a < get b) rs"
    by (rule successively_mono) (rule next_greater)
  moreover have "transp (\<lambda>a b. get a < get b)"
    by (rule transpI) simp
  ultimately show ?thesis
    by (simp add: successively_conv_sorted_wrt)
qed

lemma chain_distinct: "successively (\<lambda>a b. nxt a = Ok b) rs \<Longrightarrow> distinct rs"
proof -
  assume "successively (\<lambda>a b. nxt a = Ok b) rs"
  then have "sorted_wrt (\<lambda>a b. get a < get b) rs" by (rule chain_increasing)
  then show ?thesis by (rule sorted_wrt_irrefl_distinct) simp
qed

end

lemma counter_next_Ok:
  "AuthorizationEpoch_next e = Ok e' \<longleftrightarrow>
     unat (AuthorizationEpoch_get e) < 2 ^ 64 - 1 \<and> e' = AuthorizationEpoch (AuthorizationEpoch_get e + 1)"
  "PolicyRevision_next p = Ok p' \<longleftrightarrow>
     unat (PolicyRevision_get p) < 2 ^ 64 - 1 \<and> p' = PolicyRevision (PolicyRevision_get p + 1)"
  "PersonaVersion_next v = Ok v' \<longleftrightarrow>
     unat (PersonaVersion_get v) < 2 ^ 64 - 1 \<and> v' = PersonaVersion (PersonaVersion_get v + 1)"
  "ClaimRevision_next c = Ok c' \<longleftrightarrow>
     unat (ClaimRevision_get c) < 2 ^ 64 - 1 \<and> c' = ClaimRevision (ClaimRevision_get c + 1)"
  by (auto simp: AuthorizationEpoch_next_def PolicyRevision_next_def PersonaVersion_next_def
      ClaimRevision_next_def checked_succ_Some_iff)

interpretation epoch: revision_counter AuthorizationEpoch AuthorizationEpoch_get AuthorizationEpoch_next
  by unfold_locales (simp_all add: counter_next_Ok)

interpretation policy_revision: revision_counter PolicyRevision PolicyRevision_get PolicyRevision_next
  by unfold_locales (simp_all add: counter_next_Ok)

interpretation persona_version: revision_counter PersonaVersion PersonaVersion_get PersonaVersion_next
  by unfold_locales (simp_all add: counter_next_Ok)

interpretation claim_revision: revision_counter ClaimRevision ClaimRevision_get ClaimRevision_next
  by unfold_locales (simp_all add: counter_next_Ok)

section \<open>Order on the counters\<close>

text \<open>The code derives \<open>PartialOrd\<close> and \<open>Ord\<close> on the counters: the order of the numbers inside.\<close>

instantiation AuthorizationEpoch :: linorder
begin

definition less_eq_AuthorizationEpoch :: "AuthorizationEpoch \<Rightarrow> AuthorizationEpoch \<Rightarrow> bool" where
  "less_eq_AuthorizationEpoch a b \<longleftrightarrow> AuthorizationEpoch_get a \<le> AuthorizationEpoch_get b"

definition less_AuthorizationEpoch :: "AuthorizationEpoch \<Rightarrow> AuthorizationEpoch \<Rightarrow> bool" where
  "less_AuthorizationEpoch a b \<longleftrightarrow> AuthorizationEpoch_get a < AuthorizationEpoch_get b"

instance
  by standard
    (auto simp: less_eq_AuthorizationEpoch_def less_AuthorizationEpoch_def AuthorizationEpoch.expand)

end

instantiation PersonaVersion :: linorder
begin

definition less_eq_PersonaVersion :: "PersonaVersion \<Rightarrow> PersonaVersion \<Rightarrow> bool" where
  "less_eq_PersonaVersion a b \<longleftrightarrow> PersonaVersion_get a \<le> PersonaVersion_get b"

definition less_PersonaVersion :: "PersonaVersion \<Rightarrow> PersonaVersion \<Rightarrow> bool" where
  "less_PersonaVersion a b \<longleftrightarrow> PersonaVersion_get a < PersonaVersion_get b"

instance
  by standard (auto simp: less_eq_PersonaVersion_def less_PersonaVersion_def PersonaVersion.expand)

end

instantiation PolicyRevision :: linorder
begin

definition less_eq_PolicyRevision :: "PolicyRevision \<Rightarrow> PolicyRevision \<Rightarrow> bool" where
  "less_eq_PolicyRevision a b \<longleftrightarrow> PolicyRevision_get a \<le> PolicyRevision_get b"

definition less_PolicyRevision :: "PolicyRevision \<Rightarrow> PolicyRevision \<Rightarrow> bool" where
  "less_PolicyRevision a b \<longleftrightarrow> PolicyRevision_get a < PolicyRevision_get b"

instance
  by standard (auto simp: less_eq_PolicyRevision_def less_PolicyRevision_def PolicyRevision.expand)

end

lemma epoch_next_less: "AuthorizationEpoch_next e = Ok e' \<Longrightarrow> e < e'"
  by (simp add: less_AuthorizationEpoch_def epoch.next_greater)

lemma policy_revision_next_less: "PolicyRevision_next r = Ok r' \<Longrightarrow> r < r'"
  by (simp add: less_PolicyRevision_def policy_revision.next_greater)

lemma persona_version_next_less: "PersonaVersion_next v = Ok v' \<Longrightarrow> v < v'"
  by (simp add: less_PersonaVersion_def persona_version.next_greater)

end
