(* ===== verification/VPR_Identity.thy ===== *)
theory VPR_Identity
  imports VPR_Ids
begin

text \<open>
  Persona identity, owner claims and the stable reason codes
  (\<^verbatim>\<open>crates/vpr-domain/src/persona.rs\<close>, \<^verbatim>\<open>claim.rs\<close>, \<^verbatim>\<open>reason.rs\<close>).

  A claim is a statement with its provenance. Only a claim that is an opinion, comes from the
  owner, was verified by the owner and is direct evidence may be presented as the owner's opinion:
  \<open>VerifiedOwnerOpinion_try_from\<close> is the only constructor of \<open>VerifiedOwnerOpinion\<close>.
\<close>

section \<open>Persona\<close>

datatype PersonaMode = DigitalTwin | FictionalCharacter | Expert | OrganizationRepresentative

record PersonaIdentity =
  identity_id :: PersonaId
  identity_version :: PersonaVersion
  identity_mode :: PersonaMode

definition PersonaIdentity_new :: "PersonaId \<Rightarrow> PersonaVersion \<Rightarrow> PersonaMode \<Rightarrow> PersonaIdentity" where
  "PersonaIdentity_new i v m = \<lparr>identity_id = i, identity_version = v, identity_mode = m\<rparr>"

definition is_rt0_supported :: "PersonaIdentity \<Rightarrow> bool" where
  "is_rt0_supported p \<longleftrightarrow> (case identity_mode p of DigitalTwin \<Rightarrow> True | _ \<Rightarrow> False)"

definition apply_version :: "PersonaVersion \<Rightarrow> PersonaIdentity \<Rightarrow> PersonaIdentity" where
  "apply_version v p = p\<lparr>identity_version := v\<rparr>"

record ConstitutionBoundary =
  may_represent_owner :: bool
  inferred_views_must_be_labeled :: bool

definition strict_digital_twin :: ConstitutionBoundary where
  "strict_digital_twin = \<lparr>may_represent_owner = True, inferred_views_must_be_labeled = True\<rparr>"

section \<open>Claims\<close>

definition MAX_OWNER_CLAIM_CHARS :: nat where
  "MAX_OWNER_CLAIM_CHARS = 4096"

datatype ClaimKind = Factual | Opinion | Preference | Prediction | ValueJudgment

datatype SourceKind = Owner | User | Document | Web | Tool | Model

datatype VerificationState = Unverified | Corroborated | OwnerVerified | SourceVerified | Disputed

datatype DerivationKind = Direct | Remembered | Inferred | Summarized | Simulated

record OwnerClaim =
  statement :: rust_string
  kind :: ClaimKind
  claim_source :: SourceKind
  verification :: VerificationState
  derivation :: DerivationKind

datatype VerifiedOwnerOpinion = VerifiedOwnerOpinion (opinion_claim: OwnerClaim)

datatype AttributionError = NotOpinion | NotOwnerSource | NotOwnerVerified | NotDirectOwnerEvidence

definition VerifiedOwnerOpinion_try_from ::
  "OwnerClaim \<Rightarrow> AttributionError + VerifiedOwnerOpinion" where
  "VerifiedOwnerOpinion_try_from claim =
     (if kind claim \<noteq> Opinion then Err NotOpinion
      else if claim_source claim \<noteq> Owner then Err NotOwnerSource
      else if verification claim \<noteq> OwnerVerified then Err NotOwnerVerified
      else if derivation claim \<noteq> Direct then Err NotDirectOwnerEvidence
      else Ok (VerifiedOwnerOpinion claim))"

text \<open>Direct owner material: the provenance every captured, approved or corrected claim has.\<close>

definition direct_owner_material :: "OwnerClaim \<Rightarrow> bool" where
  "direct_owner_material c \<longleftrightarrow> claim_source c = Owner \<and> derivation c = Direct"

lemma try_from_Ok_iff:
  "VerifiedOwnerOpinion_try_from c = Ok v \<longleftrightarrow>
     v = VerifiedOwnerOpinion c \<and> kind c = Opinion \<and> verification c = OwnerVerified \<and>
     direct_owner_material c"
  by (auto simp: VerifiedOwnerOpinion_try_from_def direct_owner_material_def)

section \<open>Reason codes\<close>

datatype Rt0ReasonCode =
    AuthRevoked
  | AuthExpired
  | AuthScopeDenied
  | EgressDenied
  | EgressLocalOnly
  | ConsentRequired
  | ProviderUnavailable
  | ProviderAuthenticationDenied
  | ProviderRateLimited
  | ProviderTimeout
  | PreparationFailed
  | TurnCancelled
  | InvalidStateTransition
  | OwnerAttributionUnverified
  | BudgetExhausted
  | InternalError

fun Rt0ReasonCode_as_str :: "Rt0ReasonCode \<Rightarrow> rust_string" where
  "Rt0ReasonCode_as_str AuthRevoked = lit ''AUTH_REVOKED''"
| "Rt0ReasonCode_as_str AuthExpired = lit ''AUTH_EXPIRED''"
| "Rt0ReasonCode_as_str AuthScopeDenied = lit ''AUTH_SCOPE_DENIED''"
| "Rt0ReasonCode_as_str EgressDenied = lit ''EGRESS_DENIED''"
| "Rt0ReasonCode_as_str EgressLocalOnly = lit ''EGRESS_LOCAL_ONLY''"
| "Rt0ReasonCode_as_str ConsentRequired = lit ''CONSENT_REQUIRED''"
| "Rt0ReasonCode_as_str ProviderUnavailable = lit ''PROVIDER_UNAVAILABLE''"
| "Rt0ReasonCode_as_str ProviderAuthenticationDenied = lit ''PROVIDER_AUTH_DENIED''"
| "Rt0ReasonCode_as_str ProviderRateLimited = lit ''PROVIDER_RATE_LIMITED''"
| "Rt0ReasonCode_as_str ProviderTimeout = lit ''PROVIDER_TIMEOUT''"
| "Rt0ReasonCode_as_str PreparationFailed = lit ''PREPARATION_FAILED''"
| "Rt0ReasonCode_as_str TurnCancelled = lit ''TURN_CANCELLED''"
| "Rt0ReasonCode_as_str InvalidStateTransition = lit ''INVALID_STATE_TRANSITION''"
| "Rt0ReasonCode_as_str OwnerAttributionUnverified = lit ''OWNER_ATTRIBUTION_UNVERIFIED''"
| "Rt0ReasonCode_as_str BudgetExhausted = lit ''BUDGET_EXHAUSTED''"
| "Rt0ReasonCode_as_str InternalError = lit ''INTERNAL_ERROR''"

lemma lit_inject: "lit s = lit t \<longleftrightarrow> s = t"
proof -
  have "inj (of_char :: char \<Rightarrow> nat)"
    by (simp add: inj_on_def)
  then have "inj (map (of_char :: char \<Rightarrow> nat))"
    by (rule inj_mapI)
  then show ?thesis
    by (simp add: lit_def inj_eq)
qed

lemma Rt0ReasonCode_as_str_inject: "Rt0ReasonCode_as_str a = Rt0ReasonCode_as_str b \<longleftrightarrow> a = b"
  by (cases a; cases b; simp add: lit_inject)

end
