(* ===== verification/VPR_Profile.thy ===== *)
theory VPR_Profile
  imports VPR_Identity "HOL-Library.Sublist"
begin

text \<open>
  The canonical Persona profile (\<^verbatim>\<open>crates/vpr-domain/src/profile.rs\<close>): claim records with their
  revision history, and the profile that owns them through capture, review and correction.

  The inductive predicates \<open>api_record\<close> and \<open>api_profile\<close> describe the values the public interface
  can build (the fields are private in the source); the invariants \<open>record_inv\<close> and \<open>profile_inv\<close>
  are shown for all of them by rule induction.
\<close>

section \<open>Claim records\<close>

record OwnerClaimRevision =
  revision :: ClaimRevision
  revision_claim :: OwnerClaim

record OwnerClaimRecord =
  record_id :: ClaimId
  previous_revisions :: "OwnerClaimRevision list"
  current :: OwnerClaimRevision

datatype ProfileError =
    InvalidClaimProvenance
  | BlankClaimStatement
  | ClaimStatementTooLong
  | DuplicateClaimId
  | EmptyCapture
  | ClaimNotFound
  | ClaimsNotReviewed
  | InvalidCaptureState
  | InvalidClaimHistory
  | InvalidReviewedProfileVersion
  | ClaimRevisionExhausted
  | PersonaVersionExhausted

definition validate_restored_claim :: "OwnerClaim \<Rightarrow> nat \<Rightarrow> bool \<Rightarrow> ProfileError + unit" where
  "validate_restored_claim claim index starts_at_initial =
     (if blank (statement claim) \<or> length (statement claim) > MAX_OWNER_CLAIM_CHARS \<or>
         claim_source claim \<noteq> Owner \<or> derivation claim \<noteq> Direct
      then Err InvalidClaimHistory
      else let expected_verification =
                 (if starts_at_initial \<and> index = 0 then Unverified else OwnerVerified)
           in if verification claim \<noteq> expected_verification then Err InvalidClaimHistory else Ok ())"

definition validate_captured_claim :: "OwnerClaim \<Rightarrow> ProfileError + unit" where
  "validate_captured_claim claim =
     (if blank (statement claim) then Err BlankClaimStatement
      else if length (statement claim) > MAX_OWNER_CLAIM_CHARS then Err ClaimStatementTooLong
      else if claim_source claim \<noteq> Owner \<or> verification claim \<noteq> Unverified \<or>
              derivation claim \<noteq> Direct
           then Err InvalidClaimProvenance
      else Ok ())"

definition OwnerClaimRecord_capture :: "ClaimId \<Rightarrow> OwnerClaim \<Rightarrow> ProfileError + OwnerClaimRecord" where
  "OwnerClaimRecord_capture i claim =
     (case validate_captured_claim claim of
        Err e \<Rightarrow> Err e
      | Ok _ \<Rightarrow> Ok \<lparr>record_id = i, previous_revisions = [],
                   current = \<lparr>revision = ClaimRevision_initial, revision_claim = claim\<rparr>\<rparr>)"

definition is_owner_reviewed :: "OwnerClaimRecord \<Rightarrow> bool" where
  "is_owner_reviewed r \<longleftrightarrow>
     (let claim = revision_claim (current r)
      in claim_source claim = Owner \<and> verification claim = OwnerVerified \<and> derivation claim = Direct)"

definition retained_revisions :: "OwnerClaimRecord \<Rightarrow> OwnerClaimRevision list" where
  "retained_revisions r = previous_revisions r @ [current r]"

definition has_complete_history :: "OwnerClaimRecord \<Rightarrow> bool" where
  "has_complete_history r \<longleftrightarrow>
     (case retained_revisions r of [] \<Rightarrow> False | v # _ \<Rightarrow> revision v = ClaimRevision_initial)"

text \<open>The loop of \<open>restore_retained_history\<close>: \<open>index\<close> and \<open>previous_revision\<close> are its variables.\<close>

fun restore_loop ::
  "bool \<Rightarrow> nat \<Rightarrow> ClaimRevision option \<Rightarrow> (u64 \<times> OwnerClaim) list
     \<Rightarrow> ProfileError + OwnerClaimRevision list" where
  "restore_loop starts_at_initial index previous_revision [] = Ok []"
| "restore_loop starts_at_initial index previous_revision ((revision_number, claim) # rest) =
     (case ClaimRevision_new revision_number of
        None \<Rightarrow> Err InvalidClaimHistory
      | Some rv \<Rightarrow>
          (let contiguous =
             (case previous_revision of
                None \<Rightarrow> Ok ()
              | Some previous \<Rightarrow>
                  (case ClaimRevision_next previous of
                     Err _ \<Rightarrow> Err ProfileError.ClaimRevisionExhausted
                   | Ok n \<Rightarrow> if n \<noteq> rv then Err InvalidClaimHistory else Ok ()))
           in case contiguous of
                Err e \<Rightarrow> Err e
              | Ok _ \<Rightarrow>
                  (case validate_restored_claim claim index starts_at_initial of
                     Err e \<Rightarrow> Err e
                   | Ok _ \<Rightarrow>
                       (case restore_loop starts_at_initial (Suc index) (Some rv) rest of
                          Err e \<Rightarrow> Err e
                        | Ok restored \<Rightarrow> Ok (\<lparr>revision = rv, revision_claim = claim\<rparr> # restored)))))"

definition restore_retained_history ::
  "ClaimId \<Rightarrow> (u64 \<times> OwnerClaim) list \<Rightarrow> ProfileError + OwnerClaimRecord" where
  "restore_retained_history i revisions =
     (let starts_at_initial =
            (case revisions of [] \<Rightarrow> False
             | (n, _) # _ \<Rightarrow> n = ClaimRevision_get ClaimRevision_initial)
      in case restore_loop starts_at_initial 0 None revisions of
           Err e \<Rightarrow> Err e
         | Ok restored \<Rightarrow>
             (if restored = [] then Err InvalidClaimHistory
              else if verification (revision_claim (last restored)) \<noteq> OwnerVerified
                   then Err InvalidClaimHistory
              else Ok \<lparr>record_id = i, previous_revisions = butlast restored, current = last restored\<rparr>))"

definition replace_current :: "OwnerClaim \<Rightarrow> (OwnerClaimRecord, unit, ProfileError) op" where
  "replace_current claim self =
     (case ClaimRevision_next (revision (current self)) of
        Err _ \<Rightarrow> (Err ProfileError.ClaimRevisionExhausted, self)
      | Ok next_revision \<Rightarrow>
          (Ok (), self\<lparr>current := \<lparr>revision = next_revision, revision_claim = claim\<rparr>,
                      previous_revisions := previous_revisions self @ [current self]\<rparr>))"

definition approve :: "(OwnerClaimRecord, unit, ProfileError) op" where
  "approve self =
     (let claim = revision_claim (current self)
      in if claim_source claim \<noteq> Owner \<or> derivation claim \<noteq> Direct
         then (Err InvalidClaimProvenance, self)
         else if verification claim = OwnerVerified then (Ok (), self)
         else replace_current (claim\<lparr>verification := OwnerVerified\<rparr>) self)"

definition correct :: "rust_string \<Rightarrow> ClaimKind \<Rightarrow> (OwnerClaimRecord, unit, ProfileError) op" where
  "correct stmt knd self =
     (if blank stmt then (Err BlankClaimStatement, self)
      else if length stmt > MAX_OWNER_CLAIM_CHARS then (Err ClaimStatementTooLong, self)
      else replace_current
             \<lparr>statement = stmt, kind = knd, claim_source = Owner, verification = OwnerVerified,
              derivation = Direct\<rparr> self)"

section \<open>Profiles\<close>

datatype PersonaCaptureState = Draft | Captured | Reviewed

record PersonaProfile =
  identity :: PersonaIdentity
  constitution :: ConstitutionBoundary
  capture_state :: PersonaCaptureState
  claims :: "OwnerClaimRecord list"

definition PersonaProfile_new :: "PersonaIdentity \<Rightarrow> ConstitutionBoundary \<Rightarrow> PersonaProfile" where
  "PersonaProfile_new i c = \<lparr>identity = i, constitution = c, capture_state = Draft, claims = []\<rparr>"

definition profile_claim :: "PersonaProfile \<Rightarrow> ClaimId \<Rightarrow> OwnerClaimRecord option" where
  "profile_claim p i = List.find (\<lambda>record. record_id record = i) (claims p)"

text \<open>The scan of \<open>restore_reviewed\<close> for an earlier record with the same identity.\<close>

definition has_duplicate_id :: "OwnerClaimRecord list \<Rightarrow> bool" where
  "has_duplicate_id cs \<longleftrightarrow>
     list_ex (\<lambda>index. list_ex (\<lambda>existing. record_id existing = record_id (cs ! index)) (take index cs))
       [0..<length cs]"

definition restore_reviewed ::
  "PersonaIdentity \<Rightarrow> ConstitutionBoundary \<Rightarrow> OwnerClaimRecord list \<Rightarrow> ProfileError + PersonaProfile" where
  "restore_reviewed i c cs =
     (if PersonaVersion_get (identity_version i) < 2 then Err InvalidReviewedProfileVersion
      else if cs = [] then Err EmptyCapture
      else if list_ex (\<lambda>record. \<not> is_owner_reviewed record) cs then Err ClaimsNotReviewed
      else if has_duplicate_id cs then Err DuplicateClaimId
      else Ok \<lparr>identity = i, constitution = c, capture_state = Reviewed, claims = cs\<rparr>)"

definition require_state :: "PersonaCaptureState \<Rightarrow> PersonaProfile \<Rightarrow> ProfileError + unit" where
  "require_state expected p = (if capture_state p \<noteq> expected then Err InvalidCaptureState else Ok ())"

definition add_captured_claim :: "OwnerClaimRecord \<Rightarrow> (PersonaProfile, unit, ProfileError) op" where
  "add_captured_claim record self =
     (case require_state Draft self of
        Err e \<Rightarrow> (Err e, self)
      | Ok _ \<Rightarrow>
          (if profile_claim self (record_id record) \<noteq> None then (Err DuplicateClaimId, self)
           else (Ok (), self\<lparr>claims := claims self @ [record]\<rparr>)))"

definition mark_capture_complete :: "(PersonaProfile, unit, ProfileError) op" where
  "mark_capture_complete self =
     (case require_state Draft self of
        Err e \<Rightarrow> (Err e, self)
      | Ok _ \<Rightarrow>
          (if claims self = [] then (Err EmptyCapture, self)
           else (Ok (), self\<lparr>capture_state := Captured\<rparr>)))"

text \<open>\<open>claim_mut\<close> followed by an operation on the record it points to.\<close>

definition with_claim_mut ::
  "ClaimId \<Rightarrow> (OwnerClaimRecord, unit, ProfileError) op \<Rightarrow> (PersonaProfile, unit, ProfileError) op" where
  "with_claim_mut i f self =
     (case profile_claim self i of
        None \<Rightarrow> (Err ClaimNotFound, self)
      | Some record \<Rightarrow>
          (case f record of
             (r, record') \<Rightarrow>
               (r, self\<lparr>claims := update_first (\<lambda>c. record_id c = i) (\<lambda>_. record') (claims self)\<rparr>)))"

definition approve_claim :: "ClaimId \<Rightarrow> (PersonaProfile, unit, ProfileError) op" where
  "approve_claim i self =
     (case require_state Captured self of
        Err e \<Rightarrow> (Err e, self)
      | Ok _ \<Rightarrow> with_claim_mut i approve self)"

definition correct_claim ::
  "ClaimId \<Rightarrow> rust_string \<Rightarrow> ClaimKind \<Rightarrow> (PersonaProfile, unit, ProfileError) op" where
  "correct_claim i stmt knd self =
     (if \<not> (capture_state self = Captured \<or> capture_state self = Reviewed)
      then (Err InvalidCaptureState, self)
      else
        (let was_reviewed = (capture_state self = Reviewed);
             next_version =
               (if was_reviewed
                then (case PersonaVersion_next (identity_version (identity self)) of
                        Err _ \<Rightarrow> Err ProfileError.PersonaVersionExhausted
                      | Ok v \<Rightarrow> Ok (Some v))
                else Ok None)
         in case next_version of
              Err e \<Rightarrow> (Err e, self)
            | Ok nv \<Rightarrow>
                (case with_claim_mut i (correct stmt knd) self of
                   (Err e, self') \<Rightarrow> (Err e, self')
                 | (Ok _, self') \<Rightarrow>
                     (Ok (), (case nv of None \<Rightarrow> self'
                              | Some v \<Rightarrow> self'\<lparr>identity := apply_version v (identity self')\<rparr>)))))"

datatype 'e TransactionalCorrectionError = Correction ProfileError | Commit 'e

definition correct_claim_transactional ::
  "ClaimId \<Rightarrow> rust_string \<Rightarrow> ClaimKind \<Rightarrow> (PersonaProfile \<Rightarrow> 'e + unit)
     \<Rightarrow> (PersonaProfile, unit, 'e TransactionalCorrectionError) op" where
  "correct_claim_transactional i stmt knd commit self =
     (case position (\<lambda>record. record_id record = i) (claims self) of
        None \<Rightarrow> (Err (Correction ClaimNotFound), self)
      | Some record_index \<Rightarrow>
          (let previous_current = current (claims self ! record_index);
               previous_history_len = length (previous_revisions (claims self ! record_index));
               previous_version = identity_version (identity self)
           in case correct_claim i stmt knd self of
                (Err e, self') \<Rightarrow> (Err (Correction e), self')
              | (Ok _, self') \<Rightarrow>
                  (case commit self' of
                     Ok _ \<Rightarrow> (Ok (), self')
                   | Err error \<Rightarrow>
                       (let record = claims self' ! record_index;
                            restored = record\<lparr>current := previous_current,
                              previous_revisions := take previous_history_len (previous_revisions record)\<rparr>
                        in (Err (Commit error),
                            self'\<lparr>claims := (claims self')[record_index := restored],
                                  identity := apply_version previous_version (identity self')\<rparr>)))))"

definition approve_initial_review :: "(PersonaProfile, unit, ProfileError) op" where
  "approve_initial_review self =
     (case require_state Captured self of
        Err e \<Rightarrow> (Err e, self)
      | Ok _ \<Rightarrow>
          (if \<not> list_all is_owner_reviewed (claims self) then (Err ClaimsNotReviewed, self)
           else (case PersonaVersion_next (identity_version (identity self)) of
                   Err _ \<Rightarrow> (Err ProfileError.PersonaVersionExhausted, self)
                 | Ok v \<Rightarrow> (Ok (), self\<lparr>identity := apply_version v (identity self),
                                      capture_state := Reviewed\<rparr>))))"

section \<open>Records: invariant and history\<close>

definition claim_ok :: "OwnerClaim \<Rightarrow> bool" where
  "claim_ok c \<longleftrightarrow>
     \<not> blank (statement c) \<and> length (statement c) \<le> MAX_OWNER_CLAIM_CHARS \<and> direct_owner_material c"

text \<open>
  A record holds a contiguous chain of revisions of direct owner material. A chain that starts at
  revision 1 starts unverified (it was captured); every other retained revision was verified by
  the owner.
\<close>

definition expected_verification :: "bool \<Rightarrow> OwnerClaimRevision \<Rightarrow> bool" where
  "expected_verification is_first v \<longleftrightarrow>
     verification (revision_claim v) =
       (if is_first \<and> revision v = ClaimRevision_initial then Unverified else OwnerVerified)"

definition history_inv :: "OwnerClaimRevision list \<Rightarrow> bool" where
  [inv_defs]: "history_inv vs \<longleftrightarrow>
     vs \<noteq> [] \<and> ClaimRevision_get (revision (hd vs)) > 0 \<and>
     successively (\<lambda>a b. ClaimRevision_next (revision a) = Ok (revision b)) vs \<and>
     (\<forall>v \<in> set vs. claim_ok (revision_claim v)) \<and>
     expected_verification True (hd vs) \<and> (\<forall>v \<in> set (tl vs). expected_verification False v)"

definition record_inv :: "OwnerClaimRecord \<Rightarrow> bool" where
  "record_inv r \<longleftrightarrow> history_inv (retained_revisions r)"

lemma history_inv_append:
  assumes "history_inv vs" and "ClaimRevision_next (revision (last vs)) = Ok (revision v)"
    and "claim_ok (revision_claim v)" and "verification (revision_claim v) = OwnerVerified"
  shows "history_inv (vs @ [v])"
proof -
  from assms(1) have "vs \<noteq> []" by (simp add: history_inv_def)
  with assms show ?thesis
    by (auto simp: history_inv_def successively_append_iff expected_verification_def)
qed

lemma retained_not_Nil [simp]: "retained_revisions r \<noteq> []"
  by (simp add: retained_revisions_def)

lemma last_retained [simp]: "last (retained_revisions r) = current r"
  by (simp add: retained_revisions_def)

lemma record_inv_current_ok: "record_inv r \<Longrightarrow> claim_ok (revision_claim (current r))"
  by (simp add: record_inv_def history_inv_def retained_revisions_def)

lemma capture_Ok_iff:
  "OwnerClaimRecord_capture i c = Ok r \<longleftrightarrow>
     claim_ok c \<and> verification c = Unverified \<and>
     r = \<lparr>record_id = i, previous_revisions = [],
          current = \<lparr>revision = ClaimRevision_initial, revision_claim = c\<rparr>\<rparr>"
  by (auto simp: OwnerClaimRecord_capture_def validate_captured_claim_def claim_ok_def
      direct_owner_material_def)

lemma capture_inv: "OwnerClaimRecord_capture i c = Ok r \<Longrightarrow> record_inv r"
  by (auto simp: capture_Ok_iff record_inv_def history_inv_def retained_revisions_def
      expected_verification_def ClaimRevision_initial_def)

text \<open>Replacing the current revision appends to the history, and to nothing else.\<close>

lemma replace_current_cases:
  obtains (Ok) v where "replace_current c r = (Ok (), r\<lparr>current := v, previous_revisions := retained_revisions r\<rparr>)"
      "ClaimRevision_next (revision (current r)) = Ok (revision v)" "revision_claim v = c"
    | (Err) "replace_current c r = (Err ProfileError.ClaimRevisionExhausted, r)"
proof (cases "ClaimRevision_next (revision (current r))")
  case (Inl x)
  then show ?thesis by (intro Err) (simp add: replace_current_def)
next
  case (Inr n)
  then show ?thesis
    by (intro Ok [of "\<lparr>revision = n, revision_claim = c\<rparr>"])
      (simp_all add: replace_current_def retained_revisions_def)
qed

lemma replace_current_inv:
  assumes "record_inv r" "claim_ok c" "verification c = OwnerVerified"
  shows "record_inv (snd (replace_current c r))"
proof (cases rule: replace_current_cases [of c r])
  case (Ok v)
  then show ?thesis
    using assms history_inv_append [of "retained_revisions r" v]
    by (simp add: record_inv_def retained_revisions_def)
next
  case Err
  then show ?thesis using assms by simp
qed

lemma replace_current_history: "prefix (retained_revisions r) (retained_revisions (snd (replace_current c r)))"
  by (cases rule: replace_current_cases [of c r]) (simp_all add: retained_revisions_def)

lemma replace_current_id [simp]: "record_id (snd (replace_current c r)) = record_id r"
  by (simp add: replace_current_def split: sum.splits)

lemma approve_inv: "record_inv r \<Longrightarrow> record_inv (snd (approve r))"
  using record_inv_current_ok [of r]
  by (auto simp: approve_def Let_def claim_ok_def direct_owner_material_def intro!: replace_current_inv)

lemma correct_inv: "record_inv r \<Longrightarrow> record_inv (snd (correct stmt knd r))"
  by (auto simp: correct_def claim_ok_def direct_owner_material_def intro!: replace_current_inv)

lemma record_op_id [simp]:
  "record_id (snd (approve r)) = record_id r" "record_id (snd (correct stmt knd r)) = record_id r"
  by (simp_all add: approve_def correct_def Let_def)

lemma record_op_history:
  "prefix (retained_revisions r) (retained_revisions (snd (approve r)))"
  "prefix (retained_revisions r) (retained_revisions (snd (correct stmt knd r)))"
  by (simp_all add: approve_def correct_def Let_def replace_current_history)

lemma record_op_fails_safe: "fails_safe approve" "fails_safe (correct stmt knd)"
  by (auto simp: approve_def correct_def replace_current_def Let_def split: if_splits sum.splits)

lemma correct_Ok_reviewed:
  "correct stmt knd r = (Ok (), r') \<Longrightarrow> is_owner_reviewed r' \<and> statement (revision_claim (current r')) = stmt"
  by (auto simp: correct_def replace_current_def is_owner_reviewed_def split: if_splits sum.splits)

lemma approve_Ok_reviewed: "approve r = (Ok (), r') \<Longrightarrow> is_owner_reviewed r'"
  by (auto simp: approve_def replace_current_def is_owner_reviewed_def Let_def split: if_splits sum.splits)

subsection \<open>Restoring a retained history\<close>

definition persisted :: "OwnerClaimRevision list \<Rightarrow> (u64 \<times> OwnerClaim) list" where
  "persisted vs = map (\<lambda>v. (ClaimRevision_get (revision v), revision_claim v)) vs"

lemma validate_restored_eq:
  "validate_restored_claim c i s =
     (if claim_ok c \<and> verification c = (if s \<and> i = 0 then Unverified else OwnerVerified)
      then Ok () else Err InvalidClaimHistory)"
  by (auto simp: validate_restored_claim_def claim_ok_def direct_owner_material_def Let_def)

lemma ClaimRevision_new_get: "ClaimRevision_new (ClaimRevision_get r) = (if ClaimRevision_get r > 0 then Some r else None)"
  by (simp add: ClaimRevision_new_def)

lemma ClaimRevision_new_Some: "ClaimRevision_new n = Some r \<longleftrightarrow> n > 0 \<and> r = ClaimRevision n"
  by (auto simp: ClaimRevision_new_def)

lemma chain_positive:
  assumes "ClaimRevision_next r = Ok r'" shows "ClaimRevision_get r' > 0"
proof -
  have "ClaimRevision_get r < ClaimRevision_get r'" using assms by (rule claim_revision.next_greater)
  then show ?thesis by (rule le_less_trans [rotated]) simp
qed

text \<open>The loop accepts exactly the valid continuations of a history, and returns them unchanged.\<close>

lemma restore_loop_Ok_tail:
  "restore_loop s (Suc i) (Some prev) revs = Ok vs \<longleftrightarrow>
     revs = persisted vs \<and>
     successively (\<lambda>a b. ClaimRevision_next a = Ok b) (prev # map revision vs) \<and>
     (\<forall>v \<in> set vs. claim_ok (revision_claim v) \<and> verification (revision_claim v) = OwnerVerified)"
proof (induction revs arbitrary: i prev vs)
  case Nil
  then show ?case by (auto simp: persisted_def)
next
  case (Cons p revs)
  obtain n c where p: "p = (n, c)" by force
  show ?case
  proof (cases vs)
    case Nil
    then show ?thesis
      by (auto simp: p persisted_def split: option.splits sum.splits if_splits)
  next
    case (Cons v vs')
    have "ClaimRevision_new n = Some (revision v) \<and> ClaimRevision_next prev = Ok (revision v) \<longleftrightarrow>
        n = ClaimRevision_get (revision v) \<and> ClaimRevision_next prev = Ok (revision v)"
      using chain_positive [of prev "revision v"] by (auto simp: ClaimRevision_new_Some)
    then show ?thesis
      using Cons.IH [of "Suc i" "revision v" vs']
      by (cases v) (auto simp: p Cons persisted_def validate_restored_eq Let_def
          split: option.splits sum.splits if_splits)
  qed
qed

lemma restore_loop_first:
  "restore_loop s 0 None ((n, c) # revs) = Ok (v # vs) \<longleftrightarrow>
     n > 0 \<and> v = \<lparr>revision = ClaimRevision n, revision_claim = c\<rparr> \<and> claim_ok c \<and>
     verification c = (if s then Unverified else OwnerVerified) \<and>
     restore_loop s (Suc 0) (Some (ClaimRevision n)) revs = Ok vs"
  by (cases "n > 0"; cases "restore_loop s (Suc 0) (Some (ClaimRevision n)) revs")
    (auto simp: ClaimRevision_new_def validate_restored_eq)

lemma restore_loop_Ok:
  "restore_loop (n = 1) 0 None ((n, c) # revs) = Ok vs \<longleftrightarrow>
     vs \<noteq> [] \<and> (n, c) # revs = persisted vs \<and> history_inv vs"
proof (cases vs)
  case Nil
  then show ?thesis
    by (auto simp: Let_def split: option.splits sum.splits)
next
  case (Cons v vs')
  have chain: "successively (\<lambda>a b. ClaimRevision_next a = Ok b) (revision v # map revision vs') \<longleftrightarrow>
      successively (\<lambda>a b. ClaimRevision_next (revision a) = Ok (revision b)) (v # vs')"
    by (simp only: successively_map flip: list.map(2))
  have first: "(n, c) = (ClaimRevision_get (revision v), revision_claim v) \<longleftrightarrow>
      v = \<lparr>revision = ClaimRevision n, revision_claim = c\<rparr>"
    by (cases v) auto
  show ?thesis
    unfolding Cons restore_loop_first persisted_def list.map list.inject first
    using chain restore_loop_Ok_tail [of "n = 1" 0 "ClaimRevision n" revs vs']
    by (auto simp: history_inv_def persisted_def expected_verification_def ClaimRevision_initial_def)
qed

text \<open>
  Restoring accepts exactly the persisted form of a well-formed record whose current revision is
  owner-verified, and rebuilds that record.
\<close>

lemma restore_Ok_iff:
  "restore_retained_history i revs = Ok r \<longleftrightarrow>
     record_id r = i \<and> revs = persisted (retained_revisions r) \<and> record_inv r \<and>
     verification (revision_claim (current r)) = OwnerVerified"
proof (cases revs)
  case Nil
  then show ?thesis
    by (simp add: restore_retained_history_def persisted_def retained_revisions_def)
next
  case (Cons p rest)
  obtain n c where p: "p = (n, c)" by force
  have start: "(case revs of [] \<Rightarrow> False | (m, _) # _ \<Rightarrow> m = ClaimRevision_get ClaimRevision_initial) = (n = 1)"
    by (simp add: Cons p ClaimRevision_initial_def)
  have loop: "restore_loop (n = 1) 0 None revs = Ok vs \<longleftrightarrow> vs \<noteq> [] \<and> revs = persisted vs \<and> history_inv vs" for vs
    unfolding Cons p by (rule restore_loop_Ok)
  show ?thesis
  proof (cases "restore_loop (n = 1) 0 None revs")
    case (Inl e)
    then have "\<not> (revs = persisted (retained_revisions r) \<and> record_inv r)"
      using loop [of "retained_revisions r"] by (simp add: record_inv_def)
    then show ?thesis
      by (auto simp: restore_retained_history_def start Inl)
  next
    case (Inr vs)
    then have vs: "vs \<noteq> []" "revs = persisted vs" "history_inv vs" by (simp_all add: loop)
    have inj: "persisted vs = persisted ws \<longleftrightarrow> vs = ws" for ws
      unfolding persisted_def
      by (rule inj_map_eq_map) (auto intro!: injI OwnerClaimRevision.equality simp: ClaimRevision.expand)
    have val: "restore_retained_history i revs =
        (if verification (revision_claim (last vs)) \<noteq> OwnerVerified then Err InvalidClaimHistory
         else Ok \<lparr>record_id = i, previous_revisions = butlast vs, current = last vs\<rparr>)"
      unfolding restore_retained_history_def start Let_def Inr using vs(1) by simp
    have split: "vs = retained_revisions r \<longleftrightarrow> previous_revisions r = butlast vs \<and> current r = last vs"
      using vs(1) by (auto simp: retained_revisions_def)
    have "persisted vs = persisted (retained_revisions r) \<and> record_inv r \<longleftrightarrow>
        previous_revisions r = butlast vs \<and> current r = last vs"
      using vs(3) inj [of "retained_revisions r"] split by (auto simp: record_inv_def)
    then show ?thesis
      unfolding val by (cases r) (auto simp: vs(2))
  qed
qed

section \<open>What the interface can build\<close>

inductive api_record :: "OwnerClaimRecord \<Rightarrow> bool" where
  captured: "OwnerClaimRecord_capture i c = Ok r \<Longrightarrow> api_record r"
| restored: "restore_retained_history i revs = Ok r \<Longrightarrow> api_record r"
| approved: "api_record r \<Longrightarrow> api_record (snd (approve r))"
| corrected: "api_record r \<Longrightarrow> api_record (snd (correct stmt knd r))"

lemma api_record_inv: "api_record r \<Longrightarrow> record_inv r"
  by (induction rule: api_record.induct)
    (auto simp: restore_Ok_iff intro: capture_inv approve_inv correct_inv)

text \<open>The error type of the \<open>commit\<close> closure is generic in the source; the profile never looks at it.\<close>

type_synonym commit_fn = "PersonaProfile \<Rightarrow> rust_string + unit"

inductive api_profile :: "PersonaProfile \<Rightarrow> bool" where
  new: "PersonaVersion_new n = Some v \<Longrightarrow> api_profile (PersonaProfile_new (PersonaIdentity_new i v m) c)"
| restored: "\<lbrakk>PersonaVersion_new n = Some v; list_all api_record rs;
    restore_reviewed (PersonaIdentity_new i v m) c rs = Ok p\<rbrakk> \<Longrightarrow> api_profile p"
| add: "api_profile p \<Longrightarrow> api_record r \<Longrightarrow> api_profile (snd (add_captured_claim r p))"
| complete: "api_profile p \<Longrightarrow> api_profile (snd (mark_capture_complete p))"
| approve: "api_profile p \<Longrightarrow> api_profile (snd (approve_claim i p))"
| correct: "api_profile p \<Longrightarrow> api_profile (snd (correct_claim i stmt knd p))"
| transactional: "api_profile p \<Longrightarrow> api_profile (snd (correct_claim_transactional i stmt knd (commit::commit_fn) p))"
| review: "api_profile p \<Longrightarrow> api_profile (snd (approve_initial_review p))"

section \<open>Profiles: invariant, atomicity and history\<close>

definition profile_inv :: "PersonaProfile \<Rightarrow> bool" where
  [inv_defs]: "profile_inv p \<longleftrightarrow>
     distinct (map record_id (claims p)) \<and> (\<forall>r \<in> set (claims p). record_inv r) \<and>
     PersonaVersion_get (identity_version (identity p)) > 0 \<and>
     (capture_state p \<noteq> Draft \<longrightarrow> claims p \<noteq> []) \<and>
     (capture_state p = Reviewed \<longrightarrow>
        list_all is_owner_reviewed (claims p) \<and> PersonaVersion_get (identity_version (identity p)) \<ge> 2)"

lemma has_duplicate_id_iff: "has_duplicate_id cs \<longleftrightarrow> \<not> distinct (map record_id cs)"
proof -
  have set_take: "x \<in> set (take i cs) \<longleftrightarrow> (\<exists>j < i. x = cs ! j)" if "i < length cs" for x i
    using that nth_image [of i cs] by (auto simp flip: nth_image)
  have "has_duplicate_id cs \<longleftrightarrow> (\<exists>i < length cs. \<exists>j < i. record_id (cs ! j) = record_id (cs ! i))"
    by (auto simp: has_duplicate_id_def list_ex_iff Bex_def set_take)
  also have "\<dots> \<longleftrightarrow> \<not> distinct (map record_id cs)"
    by (auto simp: distinct_conv_nth) (metis less_trans less_not_refl, metis linorder_neqE_nat)
  finally show ?thesis .
qed

lemma with_claim_mut_claims:
  "claims (snd (with_claim_mut i f p)) = update_first (\<lambda>c. record_id c = i) (\<lambda>r. snd (f r)) (claims p)"
  by (auto simp: with_claim_mut_def profile_claim_def update_first_none split: option.splits prod.splits
      intro: update_first_find)

lemma with_claim_mut_frame [simp]:
  "identity (snd (with_claim_mut i f p)) = identity p"
  "constitution (snd (with_claim_mut i f p)) = constitution p"
  "capture_state (snd (with_claim_mut i f p)) = capture_state p"
  by (simp_all add: with_claim_mut_def split: option.splits prod.splits)

lemma with_claim_mut_fails_safe:
  assumes "fails_safe f" shows "fails_safe (with_claim_mut i f)"
proof
  fix p e p'
  assume "with_claim_mut i f p = (Err e, p')"
  then show "p' = p"
    by (auto simp: with_claim_mut_def profile_claim_def update_first_same split: option.splits prod.splits
        dest!: fails_safeD [OF assms])
qed

lemma correct_claim_fails_safe: "fails_safe (correct_claim i stmt knd)"
proof
  fix p e p'
  assume "correct_claim i stmt knd p = (Err e, p')"
  then show "p' = p"
    using fails_safeD [OF with_claim_mut_fails_safe [OF record_op_fails_safe(2)]]
    by (auto simp: correct_claim_def Let_def split: if_splits sum.splits prod.splits option.splits)
qed

lemma profile_op_fails_safe:
  "fails_safe (add_captured_claim r)" "fails_safe mark_capture_complete" "fails_safe (approve_claim i)"
  "fails_safe approve_initial_review"
  using fails_safeD [OF with_claim_mut_fails_safe [OF record_op_fails_safe(1)]]
  by (auto simp: add_captured_claim_def mark_capture_complete_def approve_claim_def
      approve_initial_review_def split: if_splits sum.splits)

text \<open>A successful correction changes one record, by a successful correction of that record.\<close>

lemma correct_claim_OkD:
  assumes "correct_claim i stmt knd p = (Ok (), p')"
  obtains k r r' v where "position (\<lambda>c. record_id c = i) (claims p) = Some k" "k < length (claims p)"
    "claims p ! k = r" "correct stmt knd r = (Ok (), r')"
    "p' = p\<lparr>claims := (claims p)[k := r'], identity := apply_version v (identity p)\<rparr>"
    "if capture_state p = Reviewed
     then PersonaVersion_next (identity_version (identity p)) = Ok v
     else capture_state p = Captured \<and> v = identity_version (identity p)"
proof -
  from assms obtain nv q where ok: "with_claim_mut i (correct stmt knd) p = (Ok (), q)"
      and state: "capture_state p = Captured \<and> nv = None \<or>
        capture_state p = Reviewed \<and> (\<exists>v. nv = Some v \<and> PersonaVersion_next (identity_version (identity p)) = Ok v)"
      and p': "p' = (case nv of None \<Rightarrow> q | Some v \<Rightarrow> q\<lparr>identity := apply_version v (identity q)\<rparr>)"
    by (auto simp: correct_claim_def Let_def split: if_splits sum.splits prod.splits)
  from ok obtain r r' where find: "List.find (\<lambda>c. record_id c = i) (claims p) = Some r"
      and r': "correct stmt knd r = (Ok (), r')"
      and q: "q = p\<lparr>claims := update_first (\<lambda>c. record_id c = i) (\<lambda>_. r') (claims p)\<rparr>"
    by (auto simp: with_claim_mut_def profile_claim_def split: option.splits prod.splits)
  from find obtain k where k: "position (\<lambda>c. record_id c = i) (claims p) = Some k"
    using position_find_None [of "\<lambda>c. record_id c = i" "claims p"] by fastforce
  then have rk: "k < length (claims p)" "claims p ! k = r" using position_SomeD [OF k] find by auto
  have q': "q = p\<lparr>claims := (claims p)[k := r']\<rparr>" using q update_first_nth [OF k] by simp
  define v where "v = (case nv of None \<Rightarrow> identity_version (identity p) | Some v \<Rightarrow> v)"
  have "p' = p\<lparr>claims := (claims p)[k := r'], identity := apply_version v (identity p)\<rparr>"
    using p' q' by (cases nv) (simp_all add: v_def apply_version_def)
  moreover have "if capture_state p = Reviewed
     then PersonaVersion_next (identity_version (identity p)) = Ok v
     else capture_state p = Captured \<and> v = identity_version (identity p)"
    using state by (auto simp: v_def)
  ultimately show thesis using that k rk r' by blast
qed

lemma correct_rollback:
  assumes "correct stmt knd r = (Ok (), r')"
  shows "r'\<lparr>current := current r,
            previous_revisions := take (length (previous_revisions r)) (previous_revisions r')\<rparr> = r"
  using assms by (auto simp: correct_def replace_current_def split: if_splits sum.splits)

lemma apply_version_simps [simp]:
  "identity_version (apply_version v i) = v" "identity_id (apply_version v i) = identity_id i"
  "identity_mode (apply_version v i) = identity_mode i"
  "apply_version (identity_version i) (apply_version v i) = i"
  "apply_version (identity_version i) i = i"
  by (simp_all add: apply_version_def)

text \<open>The transactional correction, as an atomic reference: all of it or nothing.\<close>

definition atomic_correction ::
  "ClaimId \<Rightarrow> rust_string \<Rightarrow> ClaimKind \<Rightarrow> (PersonaProfile \<Rightarrow> 'e + unit)
     \<Rightarrow> (PersonaProfile, unit, 'e TransactionalCorrectionError) op" where
  "atomic_correction i stmt knd commit p =
     (if profile_claim p i = None then (Err (Correction ClaimNotFound), p)
      else (case correct_claim i stmt knd p of
              (Err e, _) \<Rightarrow> (Err (Correction e), p)
            | (Ok _, p') \<Rightarrow>
                (case commit p' of Ok _ \<Rightarrow> (Ok (), p') | Err e \<Rightarrow> (Err (Commit e), p))))"

lemma transactional_is_atomic:
  "correct_claim_transactional i stmt knd commit p = atomic_correction i stmt knd commit p"
proof (cases "position (\<lambda>c. record_id c = i) (claims p)")
  case None
  then have "profile_claim p i = None" by (simp add: profile_claim_def position_find_None)
  then show ?thesis
    using None by (simp add: correct_claim_transactional_def atomic_correction_def)
next
  case (Some k)
  then have found: "profile_claim p i \<noteq> None"
    using position_SomeD by (fastforce simp: profile_claim_def)
  show ?thesis
  proof (cases "correct_claim i stmt knd p")
    case (Pair res p')
    show ?thesis
    proof (cases res)
      case (Inl e)
      with Pair have "p' = p" using fails_safeD [OF correct_claim_fails_safe] by blast
      then show ?thesis
        using found Some Pair Inl by (auto simp: correct_claim_transactional_def atomic_correction_def)
    next
      case (Inr u)
      with Pair obtain r r' v where rr: "k < length (claims p)" "claims p ! k = r"
          "correct stmt knd r = (Ok (), r')"
          "p' = p\<lparr>claims := (claims p)[k := r'], identity := apply_version v (identity p)\<rparr>"
        using Some by (auto elim!: correct_claim_OkD)
      have "(claims p)[k := r'] ! k = r'" and "(claims p)[k := r', k := r] = claims p"
        using rr(1,2) by auto
      then show ?thesis
        using found Some Pair Inr rr correct_rollback [OF rr(3)]
        by (auto simp: correct_claim_transactional_def atomic_correction_def Let_def split: sum.splits)
    qed
  qed
qed

text \<open>Every operation keeps the profile invariant.\<close>

lemma distinct_update_key:
  assumes "distinct (map k xs)" and "\<And>x. k (f x) = k x"
  shows "distinct (map k (update_first P f xs))"
  using assms map_update_first [of P k f xs] by simp

lemma with_claim_mut_inv:
  assumes inv: "profile_inv p" and rec: "\<And>r. record_inv r \<Longrightarrow> record_inv (snd (f r))"
    and key: "\<And>r. record_id (snd (f r)) = record_id r"
    and rev: "\<And>r. is_owner_reviewed r \<Longrightarrow> is_owner_reviewed (snd (f r))"
  shows "profile_inv (snd (with_claim_mut i f p))"
proof -
  let ?cs = "update_first (\<lambda>c. record_id c = i) (\<lambda>r. snd (f r)) (claims p)"
  have "distinct (map record_id ?cs)"
    using inv by (intro distinct_update_key key) (simp add: profile_inv_def)
  moreover have "\<forall>r \<in> set ?cs. record_inv r"
    by (rule update_first_invariant) (use inv rec in \<open>simp_all add: profile_inv_def\<close>)
  moreover have "capture_state p = Reviewed \<Longrightarrow> \<forall>r \<in> set ?cs. is_owner_reviewed r"
    by (rule update_first_invariant) (use inv rev in \<open>simp_all add: profile_inv_def list_all_iff\<close>)
  ultimately show ?thesis
    using inv by (simp add: profile_inv_def with_claim_mut_claims list_all_iff)
qed

lemma record_op_reviewed:
  "is_owner_reviewed r \<Longrightarrow> is_owner_reviewed (snd (approve r))"
  "is_owner_reviewed r \<Longrightarrow> is_owner_reviewed (snd (correct stmt knd r))"
  by (auto simp: approve_def correct_def replace_current_def is_owner_reviewed_def Let_def split: sum.splits)

lemma version_next_ge2:
  assumes "PersonaVersion_next v = Ok w" and "PersonaVersion_get v > 0"
  shows "PersonaVersion_get w \<ge> 2"
proof -
  have "unat (PersonaVersion_get w) = Suc (unat (PersonaVersion_get v))"
    using assms(1) by (rule persona_version.next_get)
  moreover have "unat (PersonaVersion_get v) > 0" using assms(2) by (simp add: unat_gt_0 word_gt_0)
  ultimately show ?thesis by (simp add: word_le_nat_alt)
qed

lemma profile_inv_identity:
  "profile_inv p \<Longrightarrow> PersonaVersion_get v \<ge> PersonaVersion_get (identity_version (identity p))
     \<Longrightarrow> profile_inv (p\<lparr>identity := apply_version v (identity p)\<rparr>)"
  by (auto simp: profile_inv_def)

lemma correct_claim_snd:
  obtains (same) "snd (correct_claim i stmt knd p) = p"
  | (step) v where "snd (correct_claim i stmt knd p) =
        (snd (with_claim_mut i (correct stmt knd) p))\<lparr>identity := apply_version v (identity p)\<rparr>"
      and "v = identity_version (identity p) \<or> PersonaVersion_next (identity_version (identity p)) = Ok v"
proof (cases "fst (correct_claim i stmt knd p)")
  case (Inl e)
  then have "snd (correct_claim i stmt knd p) = p"
    using fails_safeD [OF correct_claim_fails_safe] by (metis prod.collapse)
  then show ?thesis by (rule same)
next
  case (Inr u)
  then obtain p' where ok: "correct_claim i stmt knd p = (Ok (), p')" by (metis old.unit.exhaust prod.collapse)
  then obtain k r r' v where k: "position (\<lambda>c. record_id c = i) (claims p) = Some k"
      and r: "claims p ! k = r" "correct stmt knd r = (Ok (), r')"
      and p': "p' = p\<lparr>claims := (claims p)[k := r'], identity := apply_version v (identity p)\<rparr>"
      and v: "if capture_state p = Reviewed
        then PersonaVersion_next (identity_version (identity p)) = Ok v
        else capture_state p = Captured \<and> v = identity_version (identity p)"
    by (rule correct_claim_OkD)
  have "p' = (snd (with_claim_mut i (correct stmt knd) p))\<lparr>identity := apply_version v (identity p)\<rparr>"
    using p' r by (simp add: with_claim_mut_claims update_first_nth [OF k] PersonaProfile.equality)
  then show ?thesis using ok v by (intro step [of v]) (simp_all split: if_splits)
qed

lemma correct_claim_inv:
  assumes inv: "profile_inv p"
  shows "profile_inv (snd (correct_claim i stmt knd p))"
proof (cases rule: correct_claim_snd [of i stmt knd p])
  case (step v)
  let ?q = "snd (with_claim_mut i (correct stmt knd) p)"
  have "profile_inv ?q"
    by (rule with_claim_mut_inv [OF inv]) (auto intro: correct_inv record_op_reviewed)
  moreover have "PersonaVersion_get v \<ge> PersonaVersion_get (identity_version (identity ?q))"
    using step(2) by (auto dest: persona_version.next_greater)
  ultimately have "profile_inv (?q\<lparr>identity := apply_version v (identity ?q)\<rparr>)"
    by (rule profile_inv_identity)
  then show ?thesis using step(1) by simp
qed (simp add: inv)

lemma transactional_inv:
  "profile_inv p \<Longrightarrow> profile_inv (snd (correct_claim_transactional i stmt knd (commit::commit_fn) p))"
  using correct_claim_inv [of p i stmt knd]
  by (auto simp: transactional_is_atomic atomic_correction_def split: sum.splits prod.splits)

lemma add_captured_claim_inv:
  "profile_inv p \<Longrightarrow> record_inv r \<Longrightarrow> profile_inv (snd (add_captured_claim r p))"
  by (auto simp: add_captured_claim_def require_state_def profile_claim_def profile_inv_def find_None_iff)

lemma approve_initial_review_inv:
  "profile_inv p \<Longrightarrow> profile_inv (snd (approve_initial_review p))"
  by (auto simp: approve_initial_review_def require_state_def profile_inv_def
      split: sum.splits dest: version_next_ge2 persona_version.next_greater)

lemma approve_claim_inv: "profile_inv p \<Longrightarrow> profile_inv (snd (approve_claim i p))"
  by (auto simp: approve_claim_def require_state_def intro!: with_claim_mut_inv approve_inv record_op_reviewed)

lemma mark_capture_complete_inv: "profile_inv p \<Longrightarrow> profile_inv (snd (mark_capture_complete p))"
  by (auto simp: mark_capture_complete_def require_state_def profile_inv_def)

lemma restore_reviewed_inv:
  "restore_reviewed i c rs = Ok p \<Longrightarrow> \<forall>r \<in> set rs. record_inv r \<Longrightarrow> profile_inv p"
  by (auto simp: restore_reviewed_def has_duplicate_id_iff profile_inv_def list_ex_iff list_all_iff
      word_gt_0 split: if_splits)

lemmas profile_op_inv = correct_claim_inv transactional_inv add_captured_claim_inv
  approve_initial_review_inv approve_claim_inv mark_capture_complete_inv restore_reviewed_inv

lemma api_profile_inv: "api_profile p \<Longrightarrow> profile_inv p"
proof (induction rule: api_profile.induct)
  case (new n v i m c)
  then show ?case
    by (auto simp: profile_inv_def PersonaProfile_new_def PersonaIdentity_new_def PersonaVersion_new_def
        word_gt_0 split: if_splits)
next
  case (restored n v rs i m c p)
  then show ?case by (auto simp: list_all_iff intro: restore_reviewed_inv api_record_inv)
qed (auto intro: profile_op_inv api_record_inv)

subsection \<open>Histories only grow\<close>

text \<open>One call of a mutating method of the profile, successful or not.\<close>

inductive profile_step :: "PersonaProfile \<Rightarrow> PersonaProfile \<Rightarrow> bool" where
  "profile_step p (snd (add_captured_claim r p))"
| "profile_step p (snd (mark_capture_complete p))"
| "profile_step p (snd (approve_claim i p))"
| "profile_step p (snd (correct_claim i stmt knd p))"
| "profile_step p (snd (correct_claim_transactional i stmt knd (commit::commit_fn) p))"
| "profile_step p (snd (approve_initial_review p))"

primrec capture_rank :: "PersonaCaptureState \<Rightarrow> nat" where
  "capture_rank Draft = 0"
| "capture_rank Captured = 1"
| "capture_rank Reviewed = 2"

definition history_extends :: "PersonaProfile \<Rightarrow> PersonaProfile \<Rightarrow> bool" where
  "history_extends p p' \<longleftrightarrow>
     (\<forall>r \<in> set (claims p). \<exists>r' \<in> set (claims p').
        record_id r' = record_id r \<and> prefix (retained_revisions r) (retained_revisions r')) \<and>
     identity_version (identity p) \<le> identity_version (identity p') \<and>
     identity_id (identity p') = identity_id (identity p) \<and>
     constitution p' = constitution p \<and>
     capture_rank (capture_state p) \<le> capture_rank (capture_state p')"

lemma history_extends_refl [simp, intro]: "history_extends p p"
  by (auto simp: history_extends_def)

lemma history_extends_trans: "history_extends p q \<Longrightarrow> history_extends q r \<Longrightarrow> history_extends p r"
  unfolding history_extends_def by (metis order_trans prefix_order.order_trans)

lemma update_first_related:
  assumes "\<And>x. R x x" and "\<And>x. R x (f x)"
  shows "\<forall>x \<in> set xs. \<exists>y \<in> set (update_first P f xs). R x y"
  using assms by (induction xs) auto

lemma with_claim_mut_extends:
  assumes "\<And>r. prefix (retained_revisions r) (retained_revisions (snd (f r)))"
    and "\<And>r. record_id (snd (f r)) = record_id r"
  shows "history_extends p (snd (with_claim_mut i f p))"
proof -
  have "\<forall>r \<in> set (claims p). \<exists>r' \<in> set (update_first (\<lambda>c. record_id c = i) (\<lambda>r. snd (f r)) (claims p)).
      record_id r' = record_id r \<and> prefix (retained_revisions r) (retained_revisions r')"
    by (rule update_first_related) (simp_all add: assms)
  then show ?thesis by (simp add: history_extends_def with_claim_mut_claims)
qed

lemma correct_claim_extends: "history_extends p (snd (correct_claim i stmt knd p))"
proof (cases rule: correct_claim_snd [of i stmt knd p])
  case (step v)
  have "history_extends p (snd (with_claim_mut i (correct stmt knd) p))"
    by (rule with_claim_mut_extends) (simp_all add: record_op_history)
  with step show ?thesis
    by (auto simp: history_extends_def dest: persona_version_next_less)
qed simp

lemma profile_step_extends: "profile_step p p' \<Longrightarrow> history_extends p p'"
proof (induction rule: profile_step.induct)
  case (1 p r)
  then show ?case by (auto simp: add_captured_claim_def require_state_def history_extends_def)
next
  case (2 p)
  then show ?case by (auto simp: mark_capture_complete_def require_state_def history_extends_def)
next
  case (3 p i)
  then show ?case
    by (auto simp: approve_claim_def require_state_def record_op_history intro: with_claim_mut_extends)
next
  case (4 p i stmt knd)
  then show ?case by (rule correct_claim_extends)
next
  case (5 p i stmt knd commit)
  then show ?case
    using correct_claim_extends [of p i stmt knd]
    by (auto simp: transactional_is_atomic atomic_correction_def split: sum.splits prod.splits)
next
  case (6 p)
  then show ?case
    by (auto simp: approve_initial_review_def require_state_def history_extends_def
        split: sum.splits dest: persona_version_next_less)
qed

lemma profile_steps_extend: "profile_step\<^sup>*\<^sup>* p p' \<Longrightarrow> history_extends p p'"
  by (induction rule: rtranclp_induct) (auto dest: profile_step_extends intro: history_extends_trans)

section \<open>Properties\<close>

text \<open>A concrete owner opinion, its captured record, and the profile after capture and review.\<close>

definition sample_id :: ClaimId where
  "sample_id = ClaimId (lit ''opinion-1'')"

definition sample_claim :: OwnerClaim where
  "sample_claim = \<lparr>statement = lit ''I prefer plain answers'', kind = Opinion, claim_source = Owner,
     verification = Unverified, derivation = Direct\<rparr>"

definition sample_record :: OwnerClaimRecord where
  "sample_record = \<lparr>record_id = sample_id, previous_revisions = [],
     current = \<lparr>revision = ClaimRevision_initial, revision_claim = sample_claim\<rparr>\<rparr>"

definition sample_draft :: PersonaProfile where
  "sample_draft = PersonaProfile_new (PersonaIdentity_new (PersonaId (lit ''ada'')) (PersonaVersion 1) DigitalTwin)
     strict_digital_twin"

definition sample_captured :: PersonaProfile where
  "sample_captured = snd (mark_capture_complete (snd (add_captured_claim sample_record sample_draft)))"

definition sample_reviewed :: PersonaProfile where
  "sample_reviewed = snd (approve_initial_review (snd (approve_claim sample_id sample_captured)))"

lemmas sample_defs = sample_id_def sample_claim_def sample_record_def sample_draft_def
  sample_captured_def sample_reviewed_def

lemma sample_record_api: "api_record sample_record"
proof (rule api_record.captured)
  show "OwnerClaimRecord_capture sample_id sample_claim = Ok sample_record" by code_simp
qed

lemma sample_draft_api: "api_profile sample_draft"
  unfolding sample_draft_def by (rule api_profile.new [of 1]) code_simp

lemma sample_reviewed_api: "api_profile sample_reviewed"
  unfolding sample_reviewed_def sample_captured_def
  by (intro api_profile.review api_profile.approve api_profile.complete api_profile.add
      sample_draft_api sample_record_api)

text \<open>C9. Every profile that the public interface can build, by capture, review, correction,
  transactional correction or restoration, is well formed: claim identities are distinct; every
  record is a contiguous chain of revisions of non-blank, bounded, direct owner material in which
  everything but the captured first revision was verified by the owner; a profile past its draft
  has claims; and a reviewed profile has only reviewed claims and a version of at least 2.\<close>

theorem profile_invariant: "api_profile p \<Longrightarrow> profile_inv p"
  by (rule api_profile_inv)

theorem profile_invariant_witness: "profile_inv sample_reviewed \<and> capture_state sample_reviewed = Reviewed"
proof
  show "profile_inv sample_reviewed" by (rule profile_invariant) (rule sample_reviewed_api)
  show "capture_state sample_reviewed = Reviewed" by code_simp
qed

text \<open>C16. The transactional correction is atomic: whatever the durable commit answers, the
  in-memory profile ends as if the correction and the commit were one step. A failed commit puts
  back the record, its history and the Persona version (the code truncates the history and
  restores the saved revision in place), so the caller sees either everything or nothing.\<close>

theorem transactional_correction_atomic:
  "correct_claim_transactional i stmt knd commit p = atomic_correction i stmt knd commit p"
  by (rule transactional_is_atomic)

text \<open>Histories only grow: over any sequence of calls on a profile, failing ones and rolled
  back transactions included, every claim keeps its identity and all the revisions it ever had in
  their order, the Persona version never decreases, the Persona identity and constitution stay,
  and the capture state never goes back.\<close>

lemma profile_history_append_only: "profile_step\<^sup>*\<^sup>* p p' \<Longrightarrow> history_extends p p'"
  by (rule profile_steps_extend)

text \<open>Restoring a persisted history is the exact inverse of retaining it: the restore accepts a
  list of numbered revisions if and only if it is the retained history of a well-formed record
  whose current revision is owner-verified, and it rebuilds that record. Gaps, reordering, revision
  0, inferred or blank material and unverified corrections are all refused.\<close>

lemma restore_history_roundtrip:
  "restore_retained_history i revs = Ok r \<longleftrightarrow>
     record_id r = i \<and> revs = persisted (retained_revisions r) \<and> record_inv r \<and>
     verification (revision_claim (current r)) = OwnerVerified"
  by (rule restore_Ok_iff)

text \<open>A successful correction of a reviewed profile publishes exactly the next Persona version,
  changes one record only, keeps the profile reviewed, and makes the corrected statement the
  current, owner-verified revision of that record, one revision after the one it replaces.\<close>

lemma reviewed_correction:
  assumes "api_profile p" and "capture_state p = Reviewed"
    and "correct_claim i stmt knd p = (Ok (), p')"
  shows "\<exists>k r'. k < length (claims p) \<and> record_id (claims p ! k) = i \<and>
      p' = p\<lparr>claims := (claims p)[k := r'], identity := identity p'\<rparr> \<and>
      PersonaVersion_next (identity_version (identity p)) = Ok (identity_version (identity p')) \<and>
      list_all is_owner_reviewed (claims p') \<and>
      statement (revision_claim (current r')) = stmt \<and> kind (revision_claim (current r')) = knd \<and>
      previous_revisions r' = retained_revisions (claims p ! k) \<and>
      ClaimRevision_next (revision (current (claims p ! k))) = Ok (revision (current r'))"
proof -
  obtain k r r' v where k: "position (\<lambda>c. record_id c = i) (claims p) = Some k" "k < length (claims p)"
      and r: "claims p ! k = r" "correct stmt knd r = (Ok (), r')"
      and p': "p' = p\<lparr>claims := (claims p)[k := r'], identity := apply_version v (identity p)\<rparr>"
      and v: "PersonaVersion_next (identity_version (identity p)) = Ok v"
    using assms(2,3) by (auto elim: correct_claim_OkD)
  have inv': "profile_inv p'"
    using correct_claim_inv [OF api_profile_inv [OF assms(1)], of i stmt knd] assms(3) by simp
  have rev: "list_all is_owner_reviewed (claims p')"
    using inv' p' assms(2) by (simp add: profile_inv_def)
  have "record_id (claims p ! k) = i"
    using position_SomeD [OF k(1)] find_Some_mem [of "\<lambda>c. record_id c = i" "claims p"] by auto
  moreover have "statement (revision_claim (current r')) = stmt \<and> kind (revision_claim (current r')) = knd \<and>
      previous_revisions r' = retained_revisions r \<and>
      ClaimRevision_next (revision (current r)) = Ok (revision (current r'))"
    using r(2) by (auto simp: correct_def replace_current_def retained_revisions_def split: if_splits sum.splits)
  ultimately show ?thesis
    using k(2) r(1) v rev p' by (intro exI [of _ k] exI [of _ r']) simp
qed

end
