(* ===== verification/VPR_Lifecycle.thy ===== *)
theory VPR_Lifecycle
  imports VPR_Identity
begin

text \<open>
  The lifecycle machines of \<^verbatim>\<open>crates/vpr-domain/src/session.rs\<close>: realtime sessions, turns and the
  delivery evidence of one output segment.

  Sessions, turns (and the preparation jobs of \<open>VPR_Preparation\<close>) are all a state with a guarded
  \<open>transition\<close>. What their clients rely on is the locale \<open>lifecycle\<close>: an allowed step is taken and
  recorded, a forbidden one is refused without effect, and every step moves the rank of the state
  up. From these laws alone the locale shows that terminal states absorb, that no state is
  visited twice and that the number of steps is bounded.
\<close>

section \<open>The contract of a lifecycle\<close>

locale lifecycle =
  fixes allowed :: "'st \<Rightarrow> 'st \<Rightarrow> bool" and rank :: "'st \<Rightarrow> nat"
    and state_of :: "'m \<Rightarrow> 'st" and key :: "'m \<Rightarrow> 'k"
    and transition :: "'st \<Rightarrow> ('m, unit, 'err) op"
  assumes taken: "allowed (state_of m) n \<Longrightarrow>
      \<exists>m'. transition n m = (Ok (), m') \<and> state_of m' = n \<and> key m' = key m"
    and refused: "\<not> allowed (state_of m) n \<Longrightarrow> \<exists>e. transition n m = (Err e, m)"
    and rank_up: "allowed s n \<Longrightarrow> rank s < rank n"
begin

lemma transition_cases:
  obtains (moved) m' where "transition n m = (Ok (), m')" "allowed (state_of m) n" "state_of m' = n"
      "key m' = key m"
    | (kept) e where "transition n m = (Err e, m)" "\<not> allowed (state_of m) n"
  using taken refused by blast

lemma fails_safe_transition: "fails_safe (transition n)"
proof
  fix m e m'
  assume "transition n m = (Err e, m')"
  then show "m' = m" by (cases n m rule: transition_cases) auto
qed

lemma succeeds_iff: "is_ok (fst (transition n m)) \<longleftrightarrow> allowed (state_of m) n"
  by (cases n m rule: transition_cases) auto

lemma key_kept: "key (snd (transition n m)) = key m"
  by (cases n m rule: transition_cases) auto

lemma rank_step: "rank (state_of m) \<le> rank (state_of (snd (transition n m)))"
  by (cases n m rule: transition_cases) (auto dest: rank_up)

lemma rank_run: "rank (state_of m) \<le> rank (state_of (final transition ns m))"
  using rank_step by (rule run_ops_mono [where m = "\<lambda>m. rank (state_of m)"])

lemma key_run: "key (final transition ns m) = key m"
  by (induction ns arbitrary: m) (simp_all add: key_kept)

text \<open>A state without a way out is never left.\<close>

lemma terminal_run:
  assumes "\<And>n. \<not> allowed (state_of m) n"
  shows "final transition ns m = m"
proof (induction ns)
  case Nil
  then show ?case by simp
next
  case (Cons n ns)
  from refused [OF assms] have "snd (transition n m) = m" by (metis snd_conv)
  with Cons show ?case by simp
qed

text \<open>The steps that succeed in a run are fewer than the ranks it climbs.\<close>

lemma successes_bounded:
  "length (filter (\<lambda>(c, r). is_ok r) (fst (run_ops transition ns m))) + rank (state_of m)
     \<le> rank (state_of (final transition ns m))"
proof (induction ns arbitrary: m)
  case Nil
  then show ?case by simp
next
  case (Cons n ns)
  show ?case
  proof (cases n m rule: transition_cases)
    case (moved m')
    with Cons.IH [of m'] rank_up [OF moved(2)] show ?thesis by simp
  next
    case (kept e)
    with Cons.IH [of m] show ?thesis by simp
  qed
qed

lemma successes_sorted:
  "sorted_wrt (<) (map rank (state_of m # successes (fst (run_ops transition ns m))))"
proof (induction ns arbitrary: m)
  case Nil
  then show ?case by simp
next
  case (Cons n ns)
  show ?case
  proof (cases n m rule: transition_cases)
    case (moved m')
    with Cons.IH [of m'] rank_up [OF moved(2)] show ?thesis by (auto intro: less_trans)
  next
    case (kept e)
    with Cons.IH [of m] show ?thesis by simp
  qed
qed

text \<open>Once a run has left a state it never comes back to it.\<close>

lemma never_revisited:
  assumes "allowed (state_of m) n"
  shows "state_of (final transition (n # ns) m) \<noteq> state_of m"
proof -
  have "rank (state_of m) < rank n" using assms by (rule rank_up)
  also have "\<dots> \<le> rank (state_of (final transition (n # ns) m))"
    using taken [OF assms] rank_run [of "snd (transition n m)" ns] by auto
  finally show ?thesis by auto
qed

end

section \<open>Realtime sessions\<close>

datatype RealtimeSessionState = Created | Active | Draining | Revoked | Closed

record RealtimeSession =
  session_id :: SessionId
  session_persona_id :: PersonaId
  session_state :: RealtimeSessionState

record SessionTransitionError =
  session_from :: RealtimeSessionState
  session_to :: RealtimeSessionState

definition RealtimeSession_new :: "SessionId \<Rightarrow> PersonaId \<Rightarrow> RealtimeSession" where
  "RealtimeSession_new i p = \<lparr>session_id = i, session_persona_id = p, session_state = Created\<rparr>"

fun session_transition_valid :: "RealtimeSessionState \<Rightarrow> RealtimeSessionState \<Rightarrow> bool" where
  "session_transition_valid Created Active = True"
| "session_transition_valid Created Revoked = True"
| "session_transition_valid Active Draining = True"
| "session_transition_valid Active Revoked = True"
| "session_transition_valid Draining Closed = True"
| "session_transition_valid Draining Revoked = True"
| "session_transition_valid Revoked Closed = True"
| "session_transition_valid _ _ = False"

definition RealtimeSession_transition ::
  "RealtimeSessionState \<Rightarrow> (RealtimeSession, unit, SessionTransitionError) op" where
  "RealtimeSession_transition next self =
     (if \<not> session_transition_valid (session_state self) next
      then (Err \<lparr>session_from = session_state self, session_to = next\<rparr>, self)
      else (Ok (), self\<lparr>session_state := next\<rparr>))"

fun session_rank :: "RealtimeSessionState \<Rightarrow> nat" where
  "session_rank Created = 0"
| "session_rank Active = 1"
| "session_rank Draining = 2"
| "session_rank Revoked = 3"
| "session_rank Closed = 4"

interpretation session: lifecycle session_transition_valid session_rank session_state
  "\<lambda>s. (session_id s, session_persona_id s)" RealtimeSession_transition
proof unfold_locales
  show "session_rank s < session_rank n" if "session_transition_valid s n" for s n
    using that by (cases "(s, n)" rule: session_transition_valid.cases) simp_all
qed (simp_all add: RealtimeSession_transition_def)

lemma session_transition_Ok_iff:
  "RealtimeSession_transition n s = (Ok (), s') \<longleftrightarrow>
     session_transition_valid (session_state s) n \<and> s' = s\<lparr>session_state := n\<rparr>"
  by (auto simp: RealtimeSession_transition_def)

lemma session_closed_terminal: "\<not> session_transition_valid Closed n"
  by (cases n) simp_all

lemma session_revoked_only_closes: "session_transition_valid Revoked n \<longleftrightarrow> n = Closed"
  by (cases n) simp_all

lemma session_closed_from:
  "session_transition_valid s Closed \<longleftrightarrow> s = Draining \<or> s = Revoked"
  by (cases s) simp_all

section \<open>Turns\<close>

record TurnExecutionSnapshot =
  snap_turn_id :: TurnId
  snap_correlation_id :: CorrelationId
  snap_persona_id :: PersonaId
  snap_persona_version :: PersonaVersion
  snap_persona_mode :: PersonaMode
  snap_authorization_epoch :: AuthorizationEpoch
  snap_egress_policy_revision :: PolicyRevision

datatype TurnState =
  Received | Authorized | Processing | Outputting | Completed | Denied | Failed | Cancelled

record Turn =
  turn_id :: TurnId
  turn_correlation_id :: CorrelationId
  turn_state :: TurnState

record TurnTransitionError =
  turn_from :: TurnState
  turn_to :: TurnState

definition Turn_new :: "TurnId \<Rightarrow> CorrelationId \<Rightarrow> Turn" where
  "Turn_new i c = \<lparr>turn_id = i, turn_correlation_id = c, turn_state = Received\<rparr>"

fun turn_transition_valid :: "TurnState \<Rightarrow> TurnState \<Rightarrow> bool" where
  "turn_transition_valid Received n = (n \<in> {Authorized, Denied, Failed, Cancelled})"
| "turn_transition_valid Authorized n = (n \<in> {Processing, Denied, Failed, Cancelled})"
| "turn_transition_valid Processing n = (n \<in> {Outputting, Denied, Failed, Cancelled})"
| "turn_transition_valid Outputting n = (n \<in> {Completed, Denied, Failed, Cancelled})"
| "turn_transition_valid _ n = False"

definition Turn_transition :: "TurnState \<Rightarrow> (Turn, unit, TurnTransitionError) op" where
  "Turn_transition next self =
     (if \<not> turn_transition_valid (turn_state self) next
      then (Err \<lparr>turn_from = turn_state self, turn_to = next\<rparr>, self)
      else (Ok (), self\<lparr>turn_state := next\<rparr>))"

fun turn_rank :: "TurnState \<Rightarrow> nat" where
  "turn_rank Received = 0"
| "turn_rank Authorized = 1"
| "turn_rank Processing = 2"
| "turn_rank Outputting = 3"
| "turn_rank _ = 4"

definition turn_terminal :: "TurnState \<Rightarrow> bool" where
  "turn_terminal s \<longleftrightarrow> s \<in> {Completed, Denied, Failed, Cancelled}"

interpretation turn: lifecycle turn_transition_valid turn_rank turn_state
  "\<lambda>t. (turn_id t, turn_correlation_id t)" Turn_transition
proof unfold_locales
  show "turn_rank s < turn_rank n" if "turn_transition_valid s n" for s n
    using that by (cases s; cases n) simp_all
qed (simp_all add: Turn_transition_def)

lemma turn_terminal_iff: "turn_terminal s \<longleftrightarrow> (\<forall>n. \<not> turn_transition_valid s n)"
  by (cases s) (auto simp: turn_terminal_def)

lemma turn_transition_Ok_iff:
  "Turn_transition n t = (Ok (), t') \<longleftrightarrow>
     turn_transition_valid (turn_state t) n \<and> t' = t\<lparr>turn_state := n\<rparr>"
  by (auto simp: Turn_transition_def)

lemma turn_cancel_valid_iff: "turn_transition_valid s Cancelled \<longleftrightarrow> \<not> turn_terminal s"
  by (cases s) (simp_all add: turn_terminal_def)

section \<open>Output delivery evidence\<close>

datatype OutputCheckpoint = Pending | Generated | Sent | Played

datatype OutputDeliveryState =
    Pending
  | Generated
  | DeliveryUncertain
  | Sent
  | Played
  | Cancelled (reached: OutputCheckpoint)
  | CancelledDeliveryUncertain

record OutputTransitionError =
  output_from :: OutputDeliveryState
  output_to :: OutputDeliveryState

record OutputEvidence =
  evidence_state :: OutputDeliveryState

definition OutputEvidence_default :: OutputEvidence where
  "OutputEvidence_default = \<lparr>evidence_state = OutputDeliveryState.Pending\<rparr>"

fun output_transition_valid :: "OutputDeliveryState \<Rightarrow> OutputDeliveryState \<Rightarrow> bool" where
  "output_transition_valid OutputDeliveryState.Pending OutputDeliveryState.Generated = True"
| "output_transition_valid OutputDeliveryState.Generated OutputDeliveryState.Sent = True"
| "output_transition_valid OutputDeliveryState.Sent OutputDeliveryState.Played = True"
| "output_transition_valid _ _ = False"

definition OutputEvidence_transition ::
  "OutputDeliveryState \<Rightarrow> (OutputEvidence, unit, OutputTransitionError) op" where
  "OutputEvidence_transition next self =
     (if \<not> output_transition_valid (evidence_state self) next
      then (Err \<lparr>output_from = evidence_state self, output_to = next\<rparr>, self)
      else (Ok (), self\<lparr>evidence_state := next\<rparr>))"

definition mark_generated :: "(OutputEvidence, unit, OutputTransitionError) op" where
  "mark_generated self = OutputEvidence_transition OutputDeliveryState.Generated self"

definition mark_sent :: "(OutputEvidence, unit, OutputTransitionError) op" where
  "mark_sent self = OutputEvidence_transition OutputDeliveryState.Sent self"

definition mark_played :: "(OutputEvidence, unit, OutputTransitionError) op" where
  "mark_played self = OutputEvidence_transition OutputDeliveryState.Played self"

definition mark_delivery_uncertain :: "(OutputEvidence, unit, OutputTransitionError) op" where
  "mark_delivery_uncertain self =
     (case evidence_state self of
        OutputDeliveryState.Generated \<Rightarrow> (Ok (), self\<lparr>evidence_state := DeliveryUncertain\<rparr>)
      | DeliveryUncertain \<Rightarrow> (Ok (), self)
      | CancelledDeliveryUncertain \<Rightarrow> (Ok (), self)
      | OutputDeliveryState.Cancelled OutputCheckpoint.Generated \<Rightarrow>
          (Ok (), self\<lparr>evidence_state := CancelledDeliveryUncertain\<rparr>)
      | _ \<Rightarrow> (Err \<lparr>output_from = evidence_state self, output_to = DeliveryUncertain\<rparr>, self))"

definition mark_cancelled :: "(OutputEvidence, unit, OutputTransitionError) op" where
  "mark_cancelled self =
     (let cancel = (\<lambda>reached.
            (Ok (), self\<lparr>evidence_state :=
               (case reached of None \<Rightarrow> CancelledDeliveryUncertain
                | Some r \<Rightarrow> OutputDeliveryState.Cancelled r)\<rparr>));
          refuse = (Err \<lparr>output_from = evidence_state self, output_to = evidence_state self\<rparr>, self)
      in case evidence_state self of
           OutputDeliveryState.Pending \<Rightarrow> cancel (Some OutputCheckpoint.Pending)
         | OutputDeliveryState.Generated \<Rightarrow> cancel (Some OutputCheckpoint.Generated)
         | DeliveryUncertain \<Rightarrow> cancel None
         | OutputDeliveryState.Sent \<Rightarrow> cancel (Some OutputCheckpoint.Sent)
         | OutputDeliveryState.Played \<Rightarrow> cancel (Some OutputCheckpoint.Played)
         | OutputDeliveryState.Cancelled _ \<Rightarrow> refuse
         | CancelledDeliveryUncertain \<Rightarrow> refuse)"

definition reconcile_sent :: "(OutputEvidence, unit, OutputTransitionError) op" where
  "reconcile_sent self =
     (let refuse = (Err \<lparr>output_from = evidence_state self, output_to = OutputDeliveryState.Sent\<rparr>, self);
          sent_after_cancel =
            (Ok (), self\<lparr>evidence_state := OutputDeliveryState.Cancelled OutputCheckpoint.Sent\<rparr>)
      in case evidence_state self of
           OutputDeliveryState.Generated \<Rightarrow> (Ok (), self\<lparr>evidence_state := OutputDeliveryState.Sent\<rparr>)
         | DeliveryUncertain \<Rightarrow> (Ok (), self\<lparr>evidence_state := OutputDeliveryState.Sent\<rparr>)
         | OutputDeliveryState.Sent \<Rightarrow> (Ok (), self)
         | OutputDeliveryState.Played \<Rightarrow> (Ok (), self)
         | OutputDeliveryState.Cancelled OutputCheckpoint.Sent \<Rightarrow> (Ok (), self)
         | OutputDeliveryState.Cancelled OutputCheckpoint.Played \<Rightarrow> (Ok (), self)
         | OutputDeliveryState.Cancelled OutputCheckpoint.Generated \<Rightarrow> sent_after_cancel
         | CancelledDeliveryUncertain \<Rightarrow> sent_after_cancel
         | OutputDeliveryState.Pending \<Rightarrow> refuse
         | OutputDeliveryState.Cancelled OutputCheckpoint.Pending \<Rightarrow> refuse)"

definition reconcile_played :: "(OutputEvidence, unit, OutputTransitionError) op" where
  "reconcile_played self =
     (let played_after_cancel =
            (Ok (), self\<lparr>evidence_state := OutputDeliveryState.Cancelled OutputCheckpoint.Played\<rparr>)
      in case evidence_state self of
           OutputDeliveryState.Sent \<Rightarrow> (Ok (), self\<lparr>evidence_state := OutputDeliveryState.Played\<rparr>)
         | DeliveryUncertain \<Rightarrow> (Ok (), self\<lparr>evidence_state := OutputDeliveryState.Played\<rparr>)
         | OutputDeliveryState.Played \<Rightarrow> (Ok (), self)
         | OutputDeliveryState.Cancelled OutputCheckpoint.Played \<Rightarrow> (Ok (), self)
         | OutputDeliveryState.Cancelled OutputCheckpoint.Sent \<Rightarrow> played_after_cancel
         | CancelledDeliveryUncertain \<Rightarrow> played_after_cancel
         | _ \<Rightarrow> (Err \<lparr>output_from = evidence_state self, output_to = OutputDeliveryState.Played\<rparr>, self))"

definition eligible_as_spoken :: "OutputEvidence \<Rightarrow> bool" where
  "eligible_as_spoken self =
     (case evidence_state self of
        OutputDeliveryState.Played \<Rightarrow> True
      | OutputDeliveryState.Cancelled OutputCheckpoint.Played \<Rightarrow> True
      | _ \<Rightarrow> False)"

lemmas evidence_ops = mark_generated_def mark_sent_def mark_played_def mark_delivery_uncertain_def
  mark_cancelled_def reconcile_sent_def reconcile_played_def OutputEvidence_transition_def Let_def

lemmas evidence_splits = OutputDeliveryState.splits OutputCheckpoint.splits

subsection \<open>Histories of one segment\<close>

datatype evidence_event =
    MarkGenerated
  | MarkSent
  | MarkPlayed
  | MarkDeliveryUncertain
  | MarkCancelled
  | ReconcileSent
  | ReconcilePlayed

fun evidence_step :: "evidence_event \<Rightarrow> (OutputEvidence, unit, OutputTransitionError) op" where
  "evidence_step MarkGenerated = mark_generated"
| "evidence_step MarkSent = mark_sent"
| "evidence_step MarkPlayed = mark_played"
| "evidence_step MarkDeliveryUncertain = mark_delivery_uncertain"
| "evidence_step MarkCancelled = mark_cancelled"
| "evidence_step ReconcileSent = reconcile_sent"
| "evidence_step ReconcilePlayed = reconcile_played"

text \<open>
  The abstract reading of the seven-constructor state: how far the segment got, whether the
  transport lost the acknowledgement, and whether the turn was cancelled. The three are
  independent, which is what the code's case analyses implement.
\<close>

fun checkpoint_rank :: "OutputCheckpoint \<Rightarrow> nat" where
  "checkpoint_rank OutputCheckpoint.Pending = 0"
| "checkpoint_rank OutputCheckpoint.Generated = 1"
| "checkpoint_rank OutputCheckpoint.Sent = 2"
| "checkpoint_rank OutputCheckpoint.Played = 3"

fun evidence_abs :: "OutputDeliveryState \<Rightarrow> OutputCheckpoint \<times> bool \<times> bool" where
  "evidence_abs OutputDeliveryState.Pending = (OutputCheckpoint.Pending, False, False)"
| "evidence_abs OutputDeliveryState.Generated = (OutputCheckpoint.Generated, False, False)"
| "evidence_abs DeliveryUncertain = (OutputCheckpoint.Generated, True, False)"
| "evidence_abs OutputDeliveryState.Sent = (OutputCheckpoint.Sent, False, False)"
| "evidence_abs OutputDeliveryState.Played = (OutputCheckpoint.Played, False, False)"
| "evidence_abs (OutputDeliveryState.Cancelled r) = (r, False, True)"
| "evidence_abs CancelledDeliveryUncertain = (OutputCheckpoint.Generated, True, True)"

fun evidence_spec ::
  "evidence_event \<Rightarrow> OutputCheckpoint \<times> bool \<times> bool \<Rightarrow> (OutputCheckpoint \<times> bool \<times> bool) option" where
  "evidence_spec MarkGenerated (c, u, x) =
     (if c = OutputCheckpoint.Pending \<and> \<not> u \<and> \<not> x then Some (OutputCheckpoint.Generated, False, False) else None)"
| "evidence_spec MarkSent (c, u, x) =
     (if c = OutputCheckpoint.Generated \<and> \<not> u \<and> \<not> x then Some (OutputCheckpoint.Sent, False, False) else None)"
| "evidence_spec MarkPlayed (c, u, x) =
     (if c = OutputCheckpoint.Sent \<and> \<not> u \<and> \<not> x then Some (OutputCheckpoint.Played, False, False) else None)"
| "evidence_spec MarkDeliveryUncertain (c, u, x) =
     (if c = OutputCheckpoint.Generated then Some (c, True, x) else None)"
| "evidence_spec MarkCancelled (c, u, x) = (if x then None else Some (c, u, True))"
| "evidence_spec ReconcileSent (c, u, x) =
     (if c = OutputCheckpoint.Pending then None
      else Some (if c = OutputCheckpoint.Played then c else OutputCheckpoint.Sent, False, x))"
| "evidence_spec ReconcilePlayed (c, u, x) =
     (if c = OutputCheckpoint.Sent \<or> c = OutputCheckpoint.Played \<or> u
      then Some (OutputCheckpoint.Played, False, x) else None)"

text \<open>Facts about one step; each operation is a case analysis over the delivery state.\<close>

lemma evidence_step_refines:
  "evidence_step ev e = (r, e') \<Longrightarrow>
     evidence_spec ev (evidence_abs (evidence_state e)) =
       (if is_ok r then Some (evidence_abs (evidence_state e')) else None)"
  by (cases ev) (auto simp: evidence_ops split: evidence_splits if_splits elim: output_transition_valid.elims)

lemma evidence_step_fails_safe: "fails_safe (evidence_step ev)"
  by (rule fails_safeI, cases ev) (auto simp: evidence_ops split: evidence_splits if_splits)

lemma evidence_step_eligible:
  "eligible_as_spoken (snd (evidence_step ev e)) \<longleftrightarrow>
     eligible_as_spoken e \<or> ev \<in> {MarkPlayed, ReconcilePlayed} \<and> is_ok (fst (evidence_step ev e))"
  by (cases ev)
    (auto simp: evidence_ops eligible_as_spoken_def split: evidence_splits if_splits
      elim: output_transition_valid.elims)

lemma evidence_step_rank:
  "checkpoint_rank (fst (evidence_abs (evidence_state e)))
     \<le> checkpoint_rank (fst (evidence_abs (evidence_state (snd (evidence_step ev e)))))"
  by (cases ev) (auto simp: evidence_ops split: evidence_splits if_splits
      elim: output_transition_valid.elims)

lemma eligible_final:
  "eligible_as_spoken (final evidence_step evs e) \<longleftrightarrow>
     eligible_as_spoken e \<or>
     (\<exists>(ev, r) \<in> set (fst (run_ops evidence_step evs e)). ev \<in> {MarkPlayed, ReconcilePlayed} \<and> is_ok r)"
  by (induction evs arbitrary: e) (auto simp: evidence_step_eligible)

lemma mark_cancelled_Ok_iff:
  "is_ok (fst (mark_cancelled e)) \<longleftrightarrow> \<not> snd (snd (evidence_abs (evidence_state e)))"
  by (auto simp: evidence_ops split: evidence_splits)

lemma race_commutes:
  assumes "ev \<in> {MarkDeliveryUncertain, ReconcileSent, ReconcilePlayed}"
  shows "final evidence_step [MarkCancelled, ev] e = final evidence_step [ev, MarkCancelled] e"
    and "is_ok (fst (evidence_step ev (snd (mark_cancelled e)))) = is_ok (fst (evidence_step ev e))"
  using assms by (auto simp: evidence_ops split: evidence_splits)

subsection \<open>Successful transitions of a turn\<close>

fun completion_path :: "TurnState \<Rightarrow> TurnState list" where
  "completion_path Received = [Authorized, Processing, Outputting, Completed]"
| "completion_path Authorized = [Processing, Outputting, Completed]"
| "completion_path Processing = [Outputting, Completed]"
| "completion_path Outputting = [Completed]"
| "completion_path _ = []"

lemma completion_path_step:
  "turn_transition_valid s n \<Longrightarrow> n \<notin> {Denied, Failed, TurnState.Cancelled} \<Longrightarrow> completion_path s = n # completion_path n"
  by (cases s; cases n) simp_all

lemma turn_terminal_stays: "turn_terminal (turn_state t) \<Longrightarrow> final Turn_transition ns t = t"
  using turn.terminal_run [of t ns] by (simp add: turn_terminal_iff)

lemma completed_successes:
  assumes "turn_state (final Turn_transition ns t) = Completed"
  shows "successes (fst (run_ops Turn_transition ns t)) = completion_path (turn_state t)"
  using assms
proof (induction ns arbitrary: t)
  case Nil
  then show ?case by simp
next
  case (Cons n ns)
  show ?case
  proof (cases n t rule: turn.transition_cases)
    case (moved t')
    have "n \<notin> {Denied, Failed, TurnState.Cancelled}"
    proof
      assume "n \<in> {Denied, Failed, TurnState.Cancelled}"
      then have "final Turn_transition ns t' = t'"
        using moved(3) by (intro turn_terminal_stays) (auto simp: turn_terminal_def)
      then show False using Cons.prems moved \<open>n \<in> {Denied, Failed, TurnState.Cancelled}\<close> by auto
    qed
    then show ?thesis
      using Cons.IH [of t'] Cons.prems moved completion_path_step by simp
  next
    case (kept e)
    then show ?thesis using Cons by simp
  qed
qed

section \<open>Properties\<close>

text \<open>C22. The delivery evidence of a segment implements its abstract reading: on every state and for
  each of the seven operations, the code's case analysis succeeds exactly when the specification over
  (furthest checkpoint, acknowledgement lost, cancelled) allows it and moves to the state the
  specification gives, and an operation that fails leaves the evidence as it was.\<close>

theorem evidence_refinement:
  "(case evidence_step ev e of
      (Ok _, e') \<Rightarrow> evidence_spec ev (evidence_abs (evidence_state e)) = Some (evidence_abs (evidence_state e'))
    | (Err _, e') \<Rightarrow> evidence_spec ev (evidence_abs (evidence_state e)) = None \<and> e' = e)"
  using evidence_step_refines [of ev e] fails_safeD [OF evidence_step_fails_safe, of ev e]
  by (auto split: prod.splits sum.splits)

text \<open>A segment counts as spoken exactly when some playback report for it was accepted: over every
  history of generation, sending, lost acknowledgements, cancellation and reconciliation, in any
  order, eligibility at the end is the same as a successful \<open>mark_played\<close> or \<open>reconcile_played\<close>
  somewhere in the history. Cancellation never erases it and nothing else ever creates it.\<close>

lemma spoken_iff_playback_accepted:
  "eligible_as_spoken (final evidence_step evs OutputEvidence_default) \<longleftrightarrow>
     list_ex (\<lambda>(ev, r). ev \<in> {MarkPlayed, ReconcilePlayed} \<and> is_ok r)
       (fst (run_ops evidence_step evs OutputEvidence_default))"
  by (subst eligible_final)
    (simp add: OutputEvidence_default_def eligible_as_spoken_def list_ex_iff)

text \<open>Cancellation and late transport evidence may arrive in either order: a lost acknowledgement,
  a reconciled send and a reconciled playback commute with the cancellation of the segment, in the
  state they lead to and in whether the report is accepted.\<close>

lemma cancellation_commutes_with_reconciliation:
  assumes "ev \<in> {MarkDeliveryUncertain, ReconcileSent, ReconcilePlayed}"
  shows "final evidence_step [MarkCancelled, ev] e = final evidence_step [ev, MarkCancelled] e \<and>
    is_ok (fst (evidence_step ev (snd (mark_cancelled e)))) = is_ok (fst (evidence_step ev e))"
  using race_commutes [OF assms] by blast

text \<open>A turn is completed only by going through all its phases: whatever transitions are
  attempted on a new turn, if it ends completed then the transitions that succeeded are exactly
  authorization, processing, output and completion, in this order; a turn that is completed, denied,
  failed or cancelled never changes again, and its identity never changes at all.\<close>

lemma turn_completes_through_all_phases:
  "(turn_state (final Turn_transition ns (Turn_new i c)) = Completed \<longrightarrow>
      successes (fst (run_ops Turn_transition ns (Turn_new i c))) = [Authorized, Processing, Outputting, Completed]) \<and>
   (turn_terminal (turn_state (final Turn_transition ns (Turn_new i c))) \<longrightarrow>
      final Turn_transition (ns @ ms) (Turn_new i c) = final Turn_transition ns (Turn_new i c)) \<and>
   turn_id (final Turn_transition ns (Turn_new i c)) = i"
  using completed_successes [of ns "Turn_new i c"] turn_terminal_stays [of "final Turn_transition ns (Turn_new i c)" ms]
    turn.key_run [of ns "Turn_new i c"]
  by (simp add: final_append Turn_new_def)

text \<open>A session's lifecycle has no way back: over any sequence of attempted transitions a revoked
  session only ever closes, a closed one stays as it is, no state is entered twice (so at most four
  transitions succeed), and the session keeps its identity and Persona.\<close>

lemma session_lifecycle_one_way:
  "(session_state s = Revoked \<longrightarrow> session_state (final RealtimeSession_transition ns s) \<in> {Revoked, Closed}) \<and>
   (session_state s = Closed \<longrightarrow> final RealtimeSession_transition ns s = s) \<and>
   distinct (session_state s # successes (fst (run_ops RealtimeSession_transition ns s))) \<and>
   length (successes (fst (run_ops RealtimeSession_transition ns s))) \<le> 4 \<and>
   session_id (final RealtimeSession_transition ns s) = session_id s \<and>
   session_persona_id (final RealtimeSession_transition ns s) = session_persona_id s"
proof -
  have revoked: "session_state (final RealtimeSession_transition ns s) \<in> {Revoked, Closed}" if "session_state s = Revoked"
    using session.rank_run [of s ns] that
    by (cases "session_state (final RealtimeSession_transition ns s)") simp_all
  have sorted: "sorted_wrt (<) (map session_rank (session_state s # successes (fst (run_ops RealtimeSession_transition ns s))))"
    by (rule session.successes_sorted)
  have dist: "distinct (session_state s # successes (fst (run_ops RealtimeSession_transition ns s)))"
    using sorted_wrt_irrefl_distinct [OF sorted] by (auto simp: distinct_map)
  have "length (successes (fst (run_ops RealtimeSession_transition ns s))) + session_rank (session_state s)
      \<le> session_rank (session_state (final RealtimeSession_transition ns s))"
    using session.successes_bounded [of ns s] by (simp add: successes_def)
  also have "\<dots> \<le> 4" by (cases "session_state (final RealtimeSession_transition ns s)") simp_all
  finally have "length (successes (fst (run_ops RealtimeSession_transition ns s))) \<le> 4" by simp
  then show ?thesis
    using revoked dist session.terminal_run [of s ns] session_closed_terminal session.key_run [of ns s] by simp
qed

end
