(* ===== verification/VPR_Preparation.thy ===== *)
theory VPR_Preparation
  imports VPR_Profile VPR_Lifecycle
begin

text \<open>
  Modality readiness and preparation jobs (\<^verbatim>\<open>crates/vpr-domain/src/preparation.rs\<close>).

  \<open>PersonaReadiness\<close> is one reviewed Persona revision's readiness per modality; a
  \<open>PreparationJob\<close> is an attempt to prepare voice or video, a third instance of the locale
  \<open>lifecycle\<close>. Jobs are \<open>Clone\<close>, so the world of the last section keeps every value a job ever
  had: evidence of any age may be applied at any time.
\<close>

section \<open>Data\<close>

datatype Modality = Text | Voice | Video

datatype ModalityReadiness = NotReady | Preparing | Ready | Failed

record PersonaReadiness =
  readiness_persona_id :: PersonaId
  readiness_persona_version :: PersonaVersion
  text_readiness :: ModalityReadiness
  voice_readiness :: ModalityReadiness
  video_readiness :: ModalityReadiness
  active_voice_job :: "PreparationJobId option"
  active_video_job :: "PreparationJobId option"

datatype ReadinessError =
    ProfileNotReviewed
  | ForeignPersona
  | StalePersonaVersion
  | TextPreparationNotRequired
  | ModalityAlreadyReady
  | PreparationAlreadyActive
  | StalePreparationJob

datatype PreparationJobState = Queued | Preparing | Validating | Ready | Failed | Cancelled

record PreparationJob =
  job_id :: PreparationJobId
  job_persona_id :: PersonaId
  job_persona_version :: PersonaVersion
  job_modality :: Modality
  job_state :: PreparationJobState

record PreparationTransitionError =
  preparation_from :: PreparationJobState
  preparation_to :: PreparationJobState

section \<open>Readiness\<close>

definition from_reviewed_profile :: "PersonaProfile \<Rightarrow> ReadinessError + PersonaReadiness" where
  "from_reviewed_profile p =
     (if capture_state p \<noteq> Reviewed then Err ProfileNotReviewed
      else Ok \<lparr>readiness_persona_id = identity_id (identity p),
              readiness_persona_version = identity_version (identity p),
              text_readiness = ModalityReadiness.Ready,
              voice_readiness = NotReady,
              video_readiness = NotReady,
              active_voice_job = None,
              active_video_job = None\<rparr>)"

fun modality :: "PersonaReadiness \<Rightarrow> Modality \<Rightarrow> ModalityReadiness" where
  "modality self Text = text_readiness self"
| "modality self Voice = voice_readiness self"
| "modality self Video = video_readiness self"

definition is_current_for :: "PersonaReadiness \<Rightarrow> PersonaProfile \<Rightarrow> bool" where
  "is_current_for self p \<longleftrightarrow>
     readiness_persona_id self = identity_id (identity p) \<and>
     readiness_persona_version self = identity_version (identity p) \<and>
     capture_state p = Reviewed"

definition is_test_ready_for :: "PersonaReadiness \<Rightarrow> PersonaProfile \<Rightarrow> bool" where
  "is_test_ready_for self p \<longleftrightarrow> is_current_for self p \<and> text_readiness self = ModalityReadiness.Ready"

fun active_job :: "PersonaReadiness \<Rightarrow> Modality \<Rightarrow> PreparationJobId option" where
  "active_job self Text = None"
| "active_job self Voice = active_voice_job self"
| "active_job self Video = active_video_job self"

fun set_active_job :: "Modality \<Rightarrow> PreparationJobId option \<Rightarrow> PersonaReadiness \<Rightarrow> PersonaReadiness" where
  "set_active_job Text i self = self"
| "set_active_job Voice i self = self\<lparr>active_voice_job := i\<rparr>"
| "set_active_job Video i self = self\<lparr>active_video_job := i\<rparr>"

fun set_modality :: "Modality \<Rightarrow> ModalityReadiness \<Rightarrow> PersonaReadiness \<Rightarrow> PersonaReadiness" where
  "set_modality Text r self = self\<lparr>text_readiness := r\<rparr>"
| "set_modality Voice r self = self\<lparr>voice_readiness := r\<rparr>"
| "set_modality Video r self = self\<lparr>video_readiness := r\<rparr>"

definition PreparationJob_bound ::
  "PreparationJobId \<Rightarrow> PersonaReadiness \<Rightarrow> Modality \<Rightarrow> PreparationJob" where
  "PreparationJob_bound i readiness m =
     \<lparr>job_id = i, job_persona_id = readiness_persona_id readiness,
      job_persona_version = readiness_persona_version readiness, job_modality = m,
      job_state = Queued\<rparr>"

definition start_preparation ::
  "PreparationJobId \<Rightarrow> Modality \<Rightarrow> (PersonaReadiness, PreparationJob, ReadinessError) op" where
  "start_preparation i m self =
     (if m = Text then (Err TextPreparationNotRequired, self)
      else if modality self m = ModalityReadiness.Ready then (Err ModalityAlreadyReady, self)
      else if active_job self m \<noteq> None then (Err PreparationAlreadyActive, self)
      else let self' = set_modality m ModalityReadiness.Preparing (set_active_job m (Some i) self)
           in (Ok (PreparationJob_bound i self' m), self'))"

definition apply_job :: "PreparationJob \<Rightarrow> (PersonaReadiness, unit, ReadinessError) op" where
  "apply_job job self =
     (if readiness_persona_id self \<noteq> job_persona_id job then (Err ForeignPersona, self)
      else if readiness_persona_version self \<noteq> job_persona_version job
           then (Err StalePersonaVersion, self)
      else if job_modality job = Text then (Err TextPreparationNotRequired, self)
      else if active_job self (job_modality job) \<noteq> Some (job_id job) then (Err StalePreparationJob, self)
      else let (next, terminal) =
                 (case job_state job of
                    Queued \<Rightarrow> (ModalityReadiness.Preparing, False)
                  | PreparationJobState.Preparing \<Rightarrow> (ModalityReadiness.Preparing, False)
                  | Validating \<Rightarrow> (ModalityReadiness.Preparing, False)
                  | PreparationJobState.Ready \<Rightarrow> (ModalityReadiness.Ready, True)
                  | PreparationJobState.Failed \<Rightarrow> (ModalityReadiness.Failed, True)
                  | PreparationJobState.Cancelled \<Rightarrow> (NotReady, True));
               self' = set_modality (job_modality job) next self
           in (Ok (), if terminal then set_active_job (job_modality job) None self' else self'))"

section \<open>Jobs\<close>

fun preparation_transition_valid :: "PreparationJobState \<Rightarrow> PreparationJobState \<Rightarrow> bool" where
  "preparation_transition_valid Queued n =
     (n \<in> {PreparationJobState.Preparing, PreparationJobState.Cancelled})"
| "preparation_transition_valid PreparationJobState.Preparing n =
     (n \<in> {Validating, PreparationJobState.Failed, PreparationJobState.Cancelled})"
| "preparation_transition_valid Validating n =
     (n \<in> {PreparationJobState.Ready, PreparationJobState.Failed, PreparationJobState.Cancelled})"
| "preparation_transition_valid _ n = False"

definition PreparationJob_transition ::
  "PreparationJobState \<Rightarrow> (PreparationJob, unit, PreparationTransitionError) op" where
  "PreparationJob_transition next self =
     (if \<not> preparation_transition_valid (job_state self) next
      then (Err \<lparr>preparation_from = job_state self, preparation_to = next\<rparr>, self)
      else (Ok (), self\<lparr>job_state := next\<rparr>))"

definition job_begin :: "(PreparationJob, unit, PreparationTransitionError) op" where
  "job_begin self = PreparationJob_transition PreparationJobState.Preparing self"

definition job_begin_validation :: "(PreparationJob, unit, PreparationTransitionError) op" where
  "job_begin_validation self = PreparationJob_transition Validating self"

definition job_mark_ready :: "(PreparationJob, unit, PreparationTransitionError) op" where
  "job_mark_ready self = PreparationJob_transition PreparationJobState.Ready self"

definition job_fail :: "(PreparationJob, unit, PreparationTransitionError) op" where
  "job_fail self = PreparationJob_transition PreparationJobState.Failed self"

definition job_cancel :: "(PreparationJob, unit, PreparationTransitionError) op" where
  "job_cancel self = PreparationJob_transition PreparationJobState.Cancelled self"

lemmas job_op_defs = job_begin_def job_begin_validation_def job_mark_ready_def job_fail_def job_cancel_def

fun preparation_rank :: "PreparationJobState \<Rightarrow> nat" where
  "preparation_rank Queued = 0"
| "preparation_rank PreparationJobState.Preparing = 1"
| "preparation_rank Validating = 2"
| "preparation_rank _ = 3"

interpretation preparation: lifecycle preparation_transition_valid preparation_rank job_state
  "\<lambda>j. (job_id j, job_persona_id j, job_persona_version j, job_modality j)" PreparationJob_transition
proof unfold_locales
  show "preparation_rank s < preparation_rank n" if "preparation_transition_valid s n" for s n
    using that by (cases s; cases n) simp_all
qed (simp_all add: PreparationJob_transition_def)

section \<open>Readiness with the jobs in circulation\<close>

text \<open>
  The readiness value and every job value that exists beside it. A job is started by the
  readiness, or comes from elsewhere (another readiness value of the same or another Persona);
  any of them may advance, be cloned, and be applied.
\<close>

record prep_world =
  world_readiness :: PersonaReadiness
  world_jobs :: "PreparationJob set"

inductive prep_reachable :: "PersonaProfile \<Rightarrow> prep_world \<Rightarrow> bool" for p where
  init: "from_reviewed_profile p = Ok r \<Longrightarrow> prep_reachable p \<lparr>world_readiness = r, world_jobs = {}\<rparr>"
| foreign: "prep_reachable p w \<Longrightarrow> prep_reachable p (w\<lparr>world_jobs := insert (PreparationJob_bound i r m) (world_jobs w)\<rparr>)"
| start: "prep_reachable p w \<Longrightarrow> start_preparation i m (world_readiness w) = (Ok j, r') \<Longrightarrow>
    prep_reachable p (w\<lparr>world_readiness := r', world_jobs := insert j (world_jobs w)\<rparr>)"
| advance: "prep_reachable p w \<Longrightarrow> j \<in> world_jobs w \<Longrightarrow>
    prep_reachable p (w\<lparr>world_jobs := insert (snd (PreparationJob_transition n j)) (world_jobs w)\<rparr>)"
| apply_job: "prep_reachable p w \<Longrightarrow> j \<in> world_jobs w \<Longrightarrow>
    prep_reachable p (w\<lparr>world_readiness := snd (apply_job j (world_readiness w))\<rparr>)"

text \<open>
  Text is always ready; a modality is being prepared exactly while it has an active job; and a
  ready voice or video rests on a job for this Persona revision and modality that passed validation.
\<close>

definition readiness_inv :: "PersonaReadiness \<Rightarrow> bool" where
  [inv_defs]: "readiness_inv r \<longleftrightarrow>
     text_readiness r = ModalityReadiness.Ready \<and>
     (\<forall>m. m \<noteq> Text \<longrightarrow> (active_job r m \<noteq> None \<longleftrightarrow> modality r m = ModalityReadiness.Preparing))"

definition ready_evidence :: "prep_world \<Rightarrow> Modality \<Rightarrow> bool" where
  "ready_evidence w m \<longleftrightarrow>
     (\<exists>j \<in> world_jobs w. job_modality j = m \<and> job_state j = PreparationJobState.Ready \<and>
        job_persona_id j = readiness_persona_id (world_readiness w) \<and>
        job_persona_version j = readiness_persona_version (world_readiness w))"

definition prep_inv :: "PersonaProfile \<Rightarrow> prep_world \<Rightarrow> bool" where
  [inv_defs]: "prep_inv p w \<longleftrightarrow>
     readiness_inv (world_readiness w) \<and> is_current_for (world_readiness w) p \<and>
     (\<forall>m. m \<noteq> Text \<and> modality (world_readiness w) m = ModalityReadiness.Ready \<longrightarrow> ready_evidence w m)"

lemma active_set [simp]:
  "m \<noteq> Text \<Longrightarrow> active_job (set_active_job m i r) n = (if n = m then i else active_job r n)"
  "active_job (set_modality m x r) n = active_job r n"
  "modality (set_active_job m i r) n = modality r n"
  "modality (set_modality m x r) n = (if n = m then x else modality r n)"
  by (cases m; cases n; simp)+

lemma set_frame [simp]:
  "readiness_persona_id (set_active_job m i r) = readiness_persona_id r"
  "readiness_persona_version (set_active_job m i r) = readiness_persona_version r"
  "readiness_persona_id (set_modality m x r) = readiness_persona_id r"
  "readiness_persona_version (set_modality m x r) = readiness_persona_version r"
  by (cases m; simp)+

lemma text_readiness_modality: "text_readiness r = modality r Text"
  by simp

text \<open>What the two operations do, in terms of the accessors.\<close>

lemma start_preparation_OkD:
  assumes "start_preparation i m r = (Ok j, r')"
  shows "m \<noteq> Text" "modality r m \<noteq> ModalityReadiness.Ready" "active_job r m = None"
    "j = PreparationJob_bound i r m"
    "r' = set_modality m ModalityReadiness.Preparing (set_active_job m (Some i) r)"
  using assms by (auto simp: start_preparation_def Let_def PreparationJob_bound_def split: if_splits)

fun applied :: "PreparationJobState \<Rightarrow> ModalityReadiness" where
  "applied PreparationJobState.Ready = ModalityReadiness.Ready"
| "applied PreparationJobState.Failed = ModalityReadiness.Failed"
| "applied PreparationJobState.Cancelled = NotReady"
| "applied _ = ModalityReadiness.Preparing"

lemma apply_job_cases:
  obtains (refused) e where "apply_job j r = (Err e, r)"
  | (applied) r' where "apply_job j r = (Ok (), r')" "job_modality j \<noteq> Text"
      "active_job r (job_modality j) = Some (job_id j)"
      "job_persona_id j = readiness_persona_id r" "job_persona_version j = readiness_persona_version r"
      "readiness_persona_id r' = readiness_persona_id r"
      "readiness_persona_version r' = readiness_persona_version r"
      "\<And>n. modality r' n = (if n = job_modality j then applied (job_state j) else modality r n)"
      "\<And>n. active_job r' n = (if n = job_modality j \<and> applied (job_state j) \<noteq> ModalityReadiness.Preparing
         then None else active_job r n)"
proof (cases "readiness_persona_id r = job_persona_id j \<and> readiness_persona_version r = job_persona_version j \<and>
    job_modality j \<noteq> Text \<and> active_job r (job_modality j) = Some (job_id j)")
  case True
  then show ?thesis
    by (intro applied [of "snd (apply_job j r)"]) (auto simp: apply_job_def Let_def split: PreparationJobState.splits)
next
  case False
  then have "\<exists>e. apply_job j r = (Err e, r)" by (auto simp: apply_job_def)
  then show ?thesis using refused by blast
qed

lemma start_preparation_inv:
  assumes "readiness_inv r" and "start_preparation i m r = (Ok j, r')"
  shows "readiness_inv r'"
  using assms(1) start_preparation_OkD [OF assms(2)]
  by (simp add: readiness_inv_def text_readiness_modality del: modality.simps)

lemma apply_job_inv: "readiness_inv r \<Longrightarrow> readiness_inv (snd (apply_job j r))"
  by (cases j r rule: apply_job_cases)
    (auto simp: readiness_inv_def text_readiness_modality simp del: modality.simps)

lemma ready_evidence_mono:
  "ready_evidence w m \<Longrightarrow> world_jobs w \<subseteq> world_jobs w' \<Longrightarrow>
     readiness_persona_id (world_readiness w') = readiness_persona_id (world_readiness w) \<Longrightarrow>
     readiness_persona_version (world_readiness w') = readiness_persona_version (world_readiness w) \<Longrightarrow>
     ready_evidence w' m"
  unfolding ready_evidence_def by (metis subsetD)

lemma prep_inv_more_jobs:
  "prep_inv p w \<Longrightarrow> prep_inv p (w\<lparr>world_jobs := insert j (world_jobs w)\<rparr>)"
  by (auto simp: prep_inv_def intro: ready_evidence_mono)

lemma prep_reachable_inv: "prep_reachable p w \<Longrightarrow> prep_inv p w"
proof (induction rule: prep_reachable.induct)
  case (init r)
  then show ?case
    by (auto simp: from_reviewed_profile_def prep_inv_def readiness_inv_def is_current_for_def
        split: if_splits elim: active_job.elims modality.elims)
next
  case (foreign w i r m)
  then show ?case by (simp add: prep_inv_more_jobs)
next
  case (advance w j n)
  then show ?case by (simp add: prep_inv_more_jobs)
next
  case (start w i m j r')
  note d = start_preparation_OkD [OF start.hyps(2)]
  have "readiness_inv r'" using start start_preparation_inv by (auto simp: prep_inv_def)
  moreover have "ready_evidence (w\<lparr>world_readiness := r', world_jobs := insert j (world_jobs w)\<rparr>) n"
    if "n \<noteq> Text" "modality r' n = ModalityReadiness.Ready" for n
  proof (rule ready_evidence_mono)
    show "ready_evidence w n" using start.IH that d by (auto simp: prep_inv_def split: if_splits)
  qed (use d in auto)
  ultimately show ?case
    using start.IH d by (simp add: prep_inv_def is_current_for_def)
next
  case (apply_job w j)
  let ?w = "w\<lparr>world_readiness := snd (apply_job j (world_readiness w))\<rparr>"
  show ?case
  proof (cases j "world_readiness w" rule: apply_job_cases)
    case (refused e)
    then show ?thesis using apply_job.IH by simp
  next
    case (applied r')
    have "ready_evidence ?w n" if "n \<noteq> Text" "modality r' n = ModalityReadiness.Ready" for n
    proof (cases "n = job_modality j")
      case True
      then have "job_state j = PreparationJobState.Ready"
        using that(2) applied(8) [of n] by (cases "job_state j") simp_all
      then show ?thesis
        using True applied(1,4-7) apply_job.hyps(2) by (auto simp: ready_evidence_def)
    next
      case False
      then have "ready_evidence w n" using apply_job.IH that applied(8) [of n] by (simp add: prep_inv_def)
      then show ?thesis using applied(1,6,7) by (auto intro: ready_evidence_mono)
    qed
    then show ?thesis
      using apply_job.IH apply_job_inv [of "world_readiness w" j] applied
      by (simp add: prep_inv_def is_current_for_def)
  qed
qed

section \<open>Properties\<close>

text \<open>A world in which voice was prepared, validated and applied.\<close>

definition sample_job :: PreparationJob where
  "sample_job = \<lparr>job_id = PreparationJobId (lit ''voice-1''), job_persona_id = PersonaId (lit ''ada''),
     job_persona_version = PersonaVersion 2, job_modality = Voice, job_state = Queued\<rparr>"

definition sample_readiness :: PersonaReadiness where
  "sample_readiness = \<lparr>readiness_persona_id = PersonaId (lit ''ada''),
     readiness_persona_version = PersonaVersion 2, text_readiness = ModalityReadiness.Ready,
     voice_readiness = NotReady, video_readiness = NotReady, active_voice_job = None,
     active_video_job = None\<rparr>"

lemma sample_start:
  "from_reviewed_profile sample_reviewed = Ok sample_readiness"
  "start_preparation (job_id sample_job) Voice sample_readiness =
     (Ok sample_job, sample_readiness\<lparr>voice_readiness := ModalityReadiness.Preparing,
        active_voice_job := Some (job_id sample_job)\<rparr>)"
  by code_simp+

definition sample_voice_world :: prep_world where
  "sample_voice_world =
     \<lparr>world_readiness = sample_readiness\<lparr>voice_readiness := ModalityReadiness.Ready\<rparr>,
      world_jobs = {sample_job\<lparr>job_state := PreparationJobState.Ready\<rparr>, sample_job\<lparr>job_state := Validating\<rparr>,
        sample_job\<lparr>job_state := PreparationJobState.Preparing\<rparr>, sample_job}\<rparr>"

lemma sample_voice_reachable: "prep_reachable sample_reviewed sample_voice_world"
proof -
  let ?r = "sample_readiness\<lparr>voice_readiness := ModalityReadiness.Preparing,
    active_voice_job := Some (job_id sample_job)\<rparr>"
  have "prep_reachable sample_reviewed \<lparr>world_readiness = sample_readiness, world_jobs = {}\<rparr>"
    by (rule init, rule sample_start)
  from start [OF this, of "job_id sample_job" Voice] sample_start(2)
  have 1: "prep_reachable sample_reviewed \<lparr>world_readiness = ?r, world_jobs = {sample_job}\<rparr>" by simp
  from advance [OF this, of sample_job PreparationJobState.Preparing]
  have 2: "prep_reachable sample_reviewed \<lparr>world_readiness = ?r,
      world_jobs = {sample_job\<lparr>job_state := PreparationJobState.Preparing\<rparr>, sample_job}\<rparr>"
    by (simp add: PreparationJob_transition_def sample_job_def)
  from advance [OF this, of "sample_job\<lparr>job_state := PreparationJobState.Preparing\<rparr>" Validating]
  have 3: "prep_reachable sample_reviewed \<lparr>world_readiness = ?r,
      world_jobs = {sample_job\<lparr>job_state := Validating\<rparr>,
        sample_job\<lparr>job_state := PreparationJobState.Preparing\<rparr>, sample_job}\<rparr>"
    by (simp add: PreparationJob_transition_def)
  from advance [OF this, of "sample_job\<lparr>job_state := Validating\<rparr>" PreparationJobState.Ready]
  have 4: "prep_reachable sample_reviewed \<lparr>world_readiness = ?r, world_jobs = world_jobs sample_voice_world\<rparr>"
    by (simp add: PreparationJob_transition_def sample_voice_world_def)
  from apply_job [OF this, of "sample_job\<lparr>job_state := PreparationJobState.Ready\<rparr>"]
  show ?thesis
    by (simp add: sample_voice_world_def apply_job_def sample_job_def sample_readiness_def Let_def)
qed

text \<open>Readiness is evidence-based: whatever jobs are started, cloned, advanced and applied in
  any order, text stays ready, a modality is being prepared exactly while it has an active attempt,
  the readiness stays bound to the reviewed Persona revision it was made for, and voice or video is
  ready only when some job for that Persona revision and modality went through validation.\<close>

lemma readiness_needs_evidence: "prep_reachable p w \<Longrightarrow> prep_inv p w"
  by (rule prep_reachable_inv)

text \<open>C23. An attempt is identified by its job id alone: after an attempt is cancelled, the same id
  may be started again, and from then on every job value of the old attempt is accepted in place of
  the new one, which may make the modality ready while the new attempt is still queued. The
  documentation of \<open>apply_job\<close> says that evidence of a superseded job is rejected.\<close>

theorem superseded_job_accepted:
  fixes r :: PersonaReadiness
  assumes start: "start_preparation i m r = (Ok old, r\<^sub>1)"
  defines "r\<^sub>2 \<equiv> snd (apply_job (snd (job_cancel old)) r\<^sub>1)"
    and "validated \<equiv> snd (job_mark_ready (snd (job_begin_validation (snd (job_begin old)))))"
  shows "\<exists>new r\<^sub>3. start_preparation i m r\<^sub>2 = (Ok new, r\<^sub>3) \<and> job_state new = Queued \<and>
    fst (apply_job validated r\<^sub>3) = Ok () \<and>
    modality (snd (apply_job validated r\<^sub>3)) m = ModalityReadiness.Ready"
proof -
  note d = start_preparation_OkD [OF start]
  have r2: "r\<^sub>2 = set_active_job m None (set_modality m NotReady r\<^sub>1)"
    using d by (simp add: r\<^sub>2_def apply_job_def job_cancel_def PreparationJob_transition_def PreparationJob_bound_def)
  have val: "validated = old\<lparr>job_state := PreparationJobState.Ready\<rparr>"
    using d by (simp add: validated_def job_op_defs PreparationJob_transition_def PreparationJob_bound_def)
  have new: "start_preparation i m r\<^sub>2 = (Ok (PreparationJob_bound i r\<^sub>2 m),
      set_modality m ModalityReadiness.Preparing (set_active_job m (Some i) r\<^sub>2))"
    using d r2 by (simp add: start_preparation_def Let_def PreparationJob_bound_def)
  show ?thesis
    unfolding new val
    using d r2 by (auto simp: apply_job_def PreparationJob_bound_def)
qed

theorem superseded_job_accepted_witness:
  "\<exists>new r\<^sub>3. start_preparation (job_id sample_job) Voice
      (snd (apply_job (snd (job_cancel sample_job)) (sample_readiness\<lparr>
         voice_readiness := ModalityReadiness.Preparing, active_voice_job := Some (job_id sample_job)\<rparr>)))
    = (Ok new, r\<^sub>3) \<and> job_state new = Queued"
  using superseded_job_accepted [OF sample_start(2)] by blast

end
