(* ===== verification/VPR_Policy.thy ===== *)
theory VPR_Policy
  imports VPR_Ids
begin

text \<open>
  The policy layer's pure rules (\<^verbatim>\<open>crates/vpr-policy/src/lib.rs\<close>): composition of authority
  layers, the egress decision, and the authorization epoch.

  The locales \<open>lease_epochs\<close> and \<open>lease_authority\<close> are what the clients of an epoch rely on: an
  accepted lease carries the current epoch, epochs never go back, and every successful operation on an authority that
  accepts a lease moves the epoch on. It follows once and for all that a lease dies with the first
  successful operation and never comes back. It is interpreted here for \<open>AuthorizationState\<close>,
  and by the publication and the runtime for their own operations.
\<close>

section \<open>Authority layers\<close>

datatype AuthorityScope = AuthorityScope (AuthorityScope_as_str: rust_string)

definition AuthorityScope_new :: "rust_string \<Rightarrow> AuthorityScope option" where
  "AuthorityScope_new value = (if \<not> blank value then Some (AuthorityScope value) else None)"

record AuthorityLayer =
  layer_allowed :: "AuthorityScope set"
  layer_denied :: "AuthorityScope set"

definition AuthorityLayer_new :: "AuthorityScope list \<Rightarrow> AuthorityScope list \<Rightarrow> AuthorityLayer" where
  "AuthorityLayer_new allowed denied = \<lparr>layer_allowed = set allowed, layer_denied = set denied\<rparr>"

record EffectiveAuthority =
  effective_allowed :: "AuthorityScope set"

definition compose :: "AuthorityLayer list \<Rightarrow> EffectiveAuthority" where
  "compose layers =
     (case layers of
        [] \<Rightarrow> \<lparr>effective_allowed = {}\<rparr>
      | first # rest \<Rightarrow>
          (let (allowed, denied) =
                 foldl (\<lambda>(allowed, denied) layer. (allowed \<inter> layer_allowed layer, denied \<union> layer_denied layer))
                   (layer_allowed first, layer_denied first) rest
           in \<lparr>effective_allowed = Set.filter (\<lambda>scope. scope \<notin> denied) allowed\<rparr>))"

definition allows :: "EffectiveAuthority \<Rightarrow> AuthorityScope \<Rightarrow> bool" where
  "allows self scope \<longleftrightarrow> scope \<in> effective_allowed self"

lemma compose_fold:
  "foldl (\<lambda>(allowed, denied) layer. (allowed \<inter> layer_allowed layer, denied \<union> layer_denied layer)) (a, d) ls =
     (a \<inter> (\<Inter>l \<in> set ls. layer_allowed l), d \<union> (\<Union>l \<in> set ls. layer_denied l))"
  by (induction ls arbitrary: a d) auto

lemma allows_compose_iff:
  "allows (compose ls) s \<longleftrightarrow>
     ls \<noteq> [] \<and> list_all (\<lambda>l. s \<in> layer_allowed l \<and> s \<notin> layer_denied l) ls"
  by (cases ls) (auto simp: compose_def allows_def compose_fold list_all_iff)

section \<open>Egress\<close>

datatype DataClass = Public | Internal | Personal | Biometric

datatype ConsentState = Granted | Missing | Revoked

record EgressRequest =
  data_class :: DataClass
  provider_policy_allows :: bool
  consent :: ConsentState
  local_only_required :: bool

datatype EgressReason = Allowed | LocalOnlyRequired | ProviderPolicyBlocked | ConsentRequired | ConsentRevoked

datatype EgressDecision = Allow EgressReason | LocalOnly EgressReason | Deny EgressReason

definition decide_egress :: "EgressRequest \<Rightarrow> EgressDecision" where
  "decide_egress request =
     (if local_only_required request then LocalOnly LocalOnlyRequired
      else if \<not> provider_policy_allows request then Deny ProviderPolicyBlocked
      else if data_class request = Biometric then
        (case consent request of
           Granted \<Rightarrow> Allow Allowed
         | Missing \<Rightarrow> Deny ConsentRequired
         | Revoked \<Rightarrow> Deny ConsentRevoked)
      else if consent request = Revoked then Deny ConsentRevoked
      else Allow Allowed)"

lemma decide_egress_Allow_iff:
  "decide_egress r = Allow reason \<longleftrightarrow>
     reason = Allowed \<and> \<not> local_only_required r \<and> provider_policy_allows r \<and> consent r \<noteq> Revoked \<and>
     (data_class r = Biometric \<longrightarrow> consent r = Granted)"
  by (auto simp: decide_egress_def split: ConsentState.splits)

section \<open>Leases on an epoch\<close>

locale lease_epochs =
  fixes epoch_of :: "'s \<Rightarrow> AuthorizationEpoch" and step :: "'c \<Rightarrow> ('s, 'a, 'err) op"
    and lease_epoch :: "'l \<Rightarrow> AuthorizationEpoch" and accepts :: "'s \<Rightarrow> 'l \<Rightarrow> bool"
  assumes accepts_epoch: "accepts s l \<Longrightarrow> lease_epoch l = epoch_of s"
    and step_mono: "epoch_of s \<le> epoch_of (snd (step c s))"
begin

lemma epoch_mono: "epoch_of s \<le> epoch_of (final step cs s)"
  using step_mono by (rule run_ops_mono [where m = epoch_of])

lemma stale_forever:
  assumes "lease_epoch l < epoch_of s"
  shows "\<not> accepts (final step cs s) l"
  using assms epoch_mono [of s cs] accepts_epoch by fastforce

end

text \<open>An authority whose every successful operation moves the epoch on, and which fails safely.\<close>

locale lease_authority = lease_epochs epoch_of step lease_epoch accepts
  for epoch_of :: "'s \<Rightarrow> AuthorizationEpoch" and step :: "'c \<Rightarrow> ('s, unit, 'err) op"
    and lease_epoch :: "'l \<Rightarrow> AuthorizationEpoch" and accepts :: "'s \<Rightarrow> 'l \<Rightarrow> bool" +
  assumes step_moves: "accepts s l \<Longrightarrow> step c s = (Ok (), s') \<Longrightarrow> epoch_of s < epoch_of s'"
    and step_fails: "fails_safe (step c)"
begin

text \<open>The first successful operation ends every lease that was accepted before it.\<close>

lemma dies_with_success:
  assumes "accepts s l" and "step c s = (Ok (), s')"
  shows "\<not> accepts (final step cs s') l"
  using assms accepts_epoch [OF assms(1)] step_moves [OF assms] by (intro stale_forever) simp

text \<open>A lease that is still accepted has seen no successful operation at all.\<close>

lemma accepted_is_untouched:
  assumes "accepts s l" and "accepts (final step cs s) l"
  shows "final step cs s = s" and "list_all (\<lambda>(c, r). r \<noteq> Ok ()) (fst (run_ops step cs s))"
proof -
  have "final step cs s = s \<and> list_all (\<lambda>(c, r). r \<noteq> Ok ()) (fst (run_ops step cs s))"
    using assms(2)
  proof (induction cs)
    case (Cons c cs)
    show ?case
    proof (cases "step c s")
      case (Pair r s')
      then have "r \<noteq> Ok ()" using dies_with_success [OF assms(1)] Cons.prems by auto
      then have "s' = s" using Pair fails_safeD [OF step_fails] by (cases r) auto
      then show ?thesis using Pair \<open>r \<noteq> Ok ()\<close> Cons by simp
    qed
  qed simp
  then show "final step cs s = s" and "list_all (\<lambda>(c, r). r \<noteq> Ok ()) (fst (run_ops step cs s))"
    by simp_all
qed

end

section \<open>Authorization state\<close>

record AuthorizationSnapshot =
  snapshot_epoch :: AuthorizationEpoch

record AuthorizationState =
  auth_epoch :: AuthorizationEpoch
  auth_revoked :: bool
  expires_at_millis :: "u64 option"

datatype AuthorizationValidityError = StaleEpoch | Revoked | Expired

definition AuthorizationState_new :: "u64 option \<Rightarrow> AuthorizationState" where
  "AuthorizationState_new expires =
     \<lparr>auth_epoch = AuthorizationEpoch_initial, auth_revoked = False, expires_at_millis = expires\<rparr>"

definition AuthorizationState_from_persisted :: "u64 \<Rightarrow> bool \<Rightarrow> u64 option \<Rightarrow> AuthorizationState option" where
  "AuthorizationState_from_persisted ep rvk expires =
     (case AuthorizationEpoch_from_persisted ep of
        Some e \<Rightarrow> Some \<lparr>auth_epoch = e, auth_revoked = rvk, expires_at_millis = expires\<rparr>
      | None \<Rightarrow> None)"

definition snapshot :: "AuthorizationState \<Rightarrow> AuthorizationSnapshot" where
  "snapshot self = \<lparr>snapshot_epoch = auth_epoch self\<rparr>"

definition revoke :: "(AuthorizationState, unit, AuthorizationEpochExhausted) op" where
  "revoke self =
     (if \<not> auth_revoked self then
        (case AuthorizationEpoch_next (auth_epoch self) of
           Err e \<Rightarrow> (Err e, self)
         | Ok n \<Rightarrow> (Ok (), self\<lparr>auth_epoch := n, auth_revoked := True\<rparr>))
      else (Ok (), self))"

definition replace :: "u64 option \<Rightarrow> (AuthorizationState, unit, AuthorizationEpochExhausted) op" where
  "replace expires self =
     (case AuthorizationEpoch_next (auth_epoch self) of
        Err e \<Rightarrow> (Err e, self)
      | Ok n \<Rightarrow> (Ok (), self\<lparr>auth_epoch := n, auth_revoked := False, expires_at_millis := expires\<rparr>))"

definition validate ::
  "AuthorizationState \<Rightarrow> AuthorizationSnapshot \<Rightarrow> u64 \<Rightarrow> AuthorizationValidityError + unit" where
  "validate self snap now_millis =
     (if AuthorizationEpoch_get (snapshot_epoch snap) \<noteq> AuthorizationEpoch_get (auth_epoch self)
      then Err StaleEpoch
      else if auth_revoked self then Err AuthorizationValidityError.Revoked
      else (case expires_at_millis self of
              Some expires \<Rightarrow> if now_millis \<ge> expires then Err Expired else Ok ()
            | None \<Rightarrow> Ok ()))"

lemma validate_Ok_iff:
  "validate s snap now = Ok () \<longleftrightarrow>
     snapshot_epoch snap = auth_epoch s \<and> \<not> auth_revoked s \<and> is_none_or (\<lambda>x. now < x) (expires_at_millis s)"
  by (auto simp: validate_def epoch.get_inject split: option.splits)

datatype authority_event = Revoke | Replace "u64 option"

fun authority_step :: "authority_event \<Rightarrow> (AuthorizationState, unit, AuthorizationEpochExhausted) op" where
  "authority_step Revoke = revoke"
| "authority_step (Replace expires) = replace expires"

lemma authority_step_cases:
  obtains (err) e where "authority_step c s = (Err e, s)"
  | (idle) "authority_step c s = (Ok (), s)" "auth_revoked s" "c = Revoke"
  | (moved) s' where "authority_step c s = (Ok (), s')" "auth_epoch s < auth_epoch s'"
      "auth_revoked s' \<longleftrightarrow> c = Revoke"
proof (cases "AuthorizationEpoch_next (auth_epoch s)")
  case (Inl e)
  then show ?thesis
    using err [of e] idle by (cases c; cases "auth_revoked s") (auto simp: revoke_def replace_def)
next
  case (Inr n)
  then show ?thesis
    using idle moved epoch_next_less [OF Inr] by (cases c; cases "auth_revoked s") (auto simp: revoke_def replace_def)
qed

definition accepts_snapshot :: "AuthorizationState \<Rightarrow> AuthorizationSnapshot \<Rightarrow> bool" where
  "accepts_snapshot s snap \<longleftrightarrow> (\<exists>now. validate s snap now = Ok ())"

interpretation authority: lease_authority auth_epoch authority_step snapshot_epoch accepts_snapshot
proof unfold_locales
  fix s l assume "accepts_snapshot s l"
  then show "snapshot_epoch l = auth_epoch s" by (auto simp: accepts_snapshot_def validate_Ok_iff)
next
  fix s c show "auth_epoch s \<le> auth_epoch (snd (authority_step c s))"
    by (cases c s rule: authority_step_cases) auto
next
  fix c show "fails_safe (authority_step c)"
    by (rule fails_safeI, cases c) (auto simp: revoke_def replace_def split: if_splits sum.splits)
next
  fix s l c s' assume "accepts_snapshot s l" "authority_step c s = (Ok (), s')"
  then show "auth_epoch s < auth_epoch s'"
    by (cases c s rule: authority_step_cases) (auto simp: accepts_snapshot_def validate_Ok_iff)
qed

section \<open>Properties\<close>

text \<open>A composed authority allows a scope if and only if there is at least one layer, every
  layer allows it and no layer denies it: no layer widens what another withholds, an explicit deny
  wins wherever it stands, and the result does not depend on the order of the layers.\<close>

lemma compose_is_intersection:
  "allows (compose layers) scope \<longleftrightarrow>
     layers \<noteq> [] \<and> list_all (\<lambda>l. scope \<in> layer_allowed l \<and> scope \<notin> layer_denied l) layers"
  by (rule allows_compose_iff)

text \<open>A snapshot of an authorization that validated at some time stops validating, at every
  time, with the first revocation or replacement that succeeds, and no later sequence of
  revocations and replacements, successful or not, brings it back.\<close>

lemma snapshot_dies_with_revocation:
  assumes "validate s snap now = Ok ()" and "authority_step c s = (Ok (), s')"
  shows "validate (final authority_step cs s') snap later \<noteq> Ok ()"
proof -
  have "accepts_snapshot s snap" using assms(1) by (auto simp: accepts_snapshot_def)
  from authority.dies_with_success [OF this assms(2)] show ?thesis by (auto simp: accepts_snapshot_def)
qed

end
