(* ===== verification/VPR_Publication.thy ===== *)
theory VPR_Publication
  imports VPR_Policy
begin

text \<open>
  Publication of a Persona to visitors (\<^verbatim>\<open>crates/vpr-policy/src/publication_access.rs\<close> and
  \<^verbatim>\<open>publication_lifecycle.rs\<close>): the access guard, the canonical publication with its owner
  operations, its durable form, and visitor permits.

  The publication is an instance of \<open>lease_authority\<close>: the leases are the visitor permits, and a
  permit is accepted when \<open>authorize_visitor\<close> succeeds for some caller at some time.
\<close>

section \<open>The access guard\<close>

record PublicationAccess =
  publication_owner :: rust_string
  persona_owner :: rust_string
  published_persona :: rust_string
  current_persona :: rust_string
  published_persona_version :: u64
  current_persona_version :: u64
  published :: bool
  visitor_authorized :: bool
  lease :: AuthorizationSnapshot
  now_millis :: u64

datatype PublicationAccessDenial =
    Unauthenticated
  | OwnerMismatch
  | PersonaMismatch
  | NotPublished
  | StalePersonaVersion
  | StaleAuthorization
  | Revoked
  | Expired

definition authorize_public_visitor ::
  "PublicationAccess \<Rightarrow> AuthorizationState \<Rightarrow> PublicationAccessDenial + unit" where
  "authorize_public_visitor access authority =
     (if \<not> visitor_authorized access then Err Unauthenticated
      else if publication_owner access = [] \<or> persona_owner access = [] \<or>
              publication_owner access \<noteq> persona_owner access then Err OwnerMismatch
      else if published_persona access = [] \<or> current_persona access = [] \<or>
              published_persona access \<noteq> current_persona access then Err PersonaMismatch
      else if \<not> published access then Err NotPublished
      else if published_persona_version access = 0 \<or>
              published_persona_version access \<noteq> current_persona_version access
           then Err StalePersonaVersion
      else (case validate authority (lease access) (now_millis access) of
              Ok _ \<Rightarrow> Ok ()
            | Err StaleEpoch \<Rightarrow> Err StaleAuthorization
            | Err AuthorizationValidityError.Revoked \<Rightarrow> Err PublicationAccessDenial.Revoked
            | Err AuthorizationValidityError.Expired \<Rightarrow> Err PublicationAccessDenial.Expired))"

lemma authorize_public_visitor_Ok_iff:
  "authorize_public_visitor a s = Ok () \<longleftrightarrow>
     visitor_authorized a \<and> published a \<and>
     publication_owner a \<noteq> [] \<and> persona_owner a = publication_owner a \<and>
     published_persona a \<noteq> [] \<and> current_persona a = published_persona a \<and>
     published_persona_version a \<noteq> 0 \<and> current_persona_version a = published_persona_version a \<and>
     validate s (lease a) (now_millis a) = Ok ()"
  by (auto simp: authorize_public_visitor_def split: sum.splits AuthorizationValidityError.splits)

section \<open>The canonical publication\<close>

datatype PublicationStatus = Private | Published | Paused | Unpublished

datatype PublicationError =
    OwnerDenied
  | WrongPersona
  | WrongPublication
  | InvalidVersion
  | InvalidTransition
  | AuthEpochExhausted
  | VisitorDenied PublicationAccessDenial

record CanonicalPublicationSnapshot =
  snap_publication_id :: rust_string
  snap_owner_id :: rust_string
  snap_persona_id :: rust_string
  snap_persona_version :: u64
  snap_status :: PublicationStatus
  authorization_epoch :: u64
  authorization_revoked :: bool

record VisitorPermit =
  permit_publication_id :: rust_string
  permit_owner_id :: rust_string
  permit_persona_id :: rust_string
  permit_persona_version :: u64
  permit_snapshot :: AuthorizationSnapshot

definition matches_persona :: "VisitorPermit \<Rightarrow> rust_string \<Rightarrow> u64 \<Rightarrow> bool" where
  "matches_persona self pid pv \<longleftrightarrow> permit_persona_id self = pid \<and> permit_persona_version self = pv"

record CanonicalPublication =
  publication_id :: rust_string
  owner_id :: rust_string
  persona_id :: rust_string
  persona_version :: u64
  status :: PublicationStatus
  authority :: AuthorizationState

definition CanonicalPublication_new ::
  "rust_string \<Rightarrow> rust_string \<Rightarrow> rust_string \<Rightarrow> u64 \<Rightarrow> PublicationError + CanonicalPublication" where
  "CanonicalPublication_new owner persona publication version =
     (if blank owner \<or> blank persona \<or> blank publication \<or> version = 0 then Err InvalidVersion
      else Ok \<lparr>publication_id = publication, owner_id = owner, persona_id = persona,
              persona_version = version, status = Private, authority = AuthorizationState_new None\<rparr>)"

definition durable_snapshot :: "CanonicalPublication \<Rightarrow> CanonicalPublicationSnapshot" where
  "durable_snapshot self =
     \<lparr>snap_publication_id = publication_id self, snap_owner_id = owner_id self,
      snap_persona_id = persona_id self, snap_persona_version = persona_version self,
      snap_status = status self,
      authorization_epoch = AuthorizationEpoch_get (auth_epoch (authority self)),
      authorization_revoked = auth_revoked (authority self)\<rparr>"

definition from_durable_snapshot ::
  "CanonicalPublicationSnapshot \<Rightarrow> PublicationError + CanonicalPublication" where
  "from_durable_snapshot state =
     (if blank (snap_owner_id state) \<or> blank (snap_persona_id state) \<or>
         blank (snap_publication_id state) \<or> snap_persona_version state = 0 \<or>
         snap_status state = Published \<and> authorization_revoked state \<or>
         snap_status state \<in> {Paused, Unpublished} \<and> \<not> authorization_revoked state
      then Err InvalidVersion
      else (case ok_or (AuthorizationState_from_persisted (authorization_epoch state)
                   (authorization_revoked state) None) InvalidVersion of
              Err e \<Rightarrow> Err e
            | Ok auth \<Rightarrow>
                Ok \<lparr>publication_id = snap_publication_id state, owner_id = snap_owner_id state,
                    persona_id = snap_persona_id state, persona_version = snap_persona_version state,
                    status = snap_status state, authority = auth\<rparr>))"

text \<open>A call on the embedded authority, with its error mapped.\<close>

definition on_authority ::
  "(AuthorizationState, unit, AuthorizationEpochExhausted) op
     \<Rightarrow> (CanonicalPublication, unit, PublicationError) op" where
  "on_authority f self =
     (case f (authority self) of
        (r, a) \<Rightarrow> (map_err (\<lambda>_. AuthEpochExhausted) r, self\<lparr>authority := a\<rparr>))"

definition revoke_authority :: "(CanonicalPublication, unit, PublicationError) op" where
  "revoke_authority self = on_authority revoke self"

definition invalidate_restart_leases :: "(CanonicalPublication, unit, PublicationError) op" where
  "invalidate_restart_leases self =
     (if status self = Published then on_authority (replace None) self
      else on_authority revoke self)"

definition check_owner :: "CanonicalPublication \<Rightarrow> rust_string \<Rightarrow> PublicationError + unit" where
  "check_owner self owner = (if owner \<noteq> owner_id self then Err OwnerDenied else Ok ())"

definition publish :: "rust_string \<Rightarrow> u64 \<Rightarrow> bool \<Rightarrow> (CanonicalPublication, unit, PublicationError) op" where
  "publish authenticated_owner current_version readiness_authorized self =
     (case check_owner self authenticated_owner of
        Err e \<Rightarrow> (Err e, self)
      | Ok _ \<Rightarrow>
          (if \<not> readiness_authorized then (Err OwnerDenied, self)
           else if current_version \<noteq> persona_version self then (Err InvalidVersion, self)
           else if status self \<notin> {Private, Paused, Unpublished} then (Err InvalidTransition, self)
           else (case on_authority (replace None) self of
                   (Err e, self') \<Rightarrow> (Err e, self')
                 | (Ok _, self') \<Rightarrow> (Ok (), self'\<lparr>status := Published\<rparr>))))"

definition pause :: "rust_string \<Rightarrow> (CanonicalPublication, unit, PublicationError) op" where
  "pause authenticated_owner self =
     (case check_owner self authenticated_owner of
        Err e \<Rightarrow> (Err e, self)
      | Ok _ \<Rightarrow>
          (if status self \<noteq> Published then (Err InvalidTransition, self)
           else (case revoke_authority self of
                   (Err e, self') \<Rightarrow> (Err e, self')
                 | (Ok _, self') \<Rightarrow> (Ok (), self'\<lparr>status := Paused\<rparr>))))"

definition unpublish :: "rust_string \<Rightarrow> (CanonicalPublication, unit, PublicationError) op" where
  "unpublish authenticated_owner self =
     (case check_owner self authenticated_owner of
        Err e \<Rightarrow> (Err e, self)
      | Ok _ \<Rightarrow>
          (if status self \<in> {Unpublished, Private} then (Err InvalidTransition, self)
           else (case revoke_authority self of
                   (Err e, self') \<Rightarrow> (Err e, self')
                 | (Ok _, self') \<Rightarrow> (Ok (), self'\<lparr>status := Unpublished\<rparr>))))"

definition correct_persona :: "rust_string \<Rightarrow> u64 \<Rightarrow> (CanonicalPublication, unit, PublicationError) op" where
  "correct_persona authenticated_owner new_version self =
     (case check_owner self authenticated_owner of
        Err e \<Rightarrow> (Err e, self)
      | Ok _ \<Rightarrow>
          (if new_version \<le> persona_version self then (Err InvalidVersion, self)
           else (case revoke_authority self of
                   (Err e, self') \<Rightarrow> (Err e, self')
                 | (Ok _, self') \<Rightarrow>
                     (Ok (), self'\<lparr>persona_version := new_version, status := Unpublished\<rparr>))))"

definition visitor_lease :: "CanonicalPublication \<Rightarrow> bool \<Rightarrow> PublicationError + VisitorPermit" where
  "visitor_lease self visitor_authenticated =
     (if \<not> visitor_authenticated \<or> status self \<noteq> Published then Err (VisitorDenied Unauthenticated)
      else Ok \<lparr>permit_publication_id = publication_id self, permit_owner_id = owner_id self,
              permit_persona_id = persona_id self, permit_persona_version = persona_version self,
              permit_snapshot = snapshot (authority self)\<rparr>)"

definition authorize_visitor ::
  "CanonicalPublication \<Rightarrow> bool \<Rightarrow> rust_string \<Rightarrow> rust_string \<Rightarrow> u64 \<Rightarrow> VisitorPermit \<Rightarrow> u64
     \<Rightarrow> PublicationError + unit" where
  "authorize_visitor self visitor_authenticated current_owner cur_persona current_version permit now =
     (if permit_publication_id permit \<noteq> publication_id self \<or> permit_owner_id permit \<noteq> owner_id self \<or>
         permit_persona_id permit \<noteq> persona_id self \<or> permit_persona_version permit \<noteq> persona_version self
      then Err WrongPublication
      else map_err VisitorDenied
        (authorize_public_visitor
           \<lparr>publication_owner = owner_id self, persona_owner = current_owner,
            published_persona = persona_id self, current_persona = cur_persona,
            published_persona_version = persona_version self,
            current_persona_version = current_version,
            published = (status self = Published), visitor_authorized = visitor_authenticated,
            lease = permit_snapshot permit, now_millis = now\<rparr>
           (authority self)))"

section \<open>Owner operations as events\<close>

text \<open>
  A restart reads the durable snapshot back and invalidates the leases of the earlier process,
  as the documentation of \<open>from_durable_snapshot\<close> prescribes; a restart that fails leaves the
  durable state as it was.
\<close>

definition restart :: "(CanonicalPublication, unit, PublicationError) op" where
  "restart self =
     (case from_durable_snapshot (durable_snapshot self) of
        Err e \<Rightarrow> (Err e, self)
      | Ok reopened \<Rightarrow>
          (case invalidate_restart_leases reopened of
             (Err e, _) \<Rightarrow> (Err e, self)
           | (Ok _, self') \<Rightarrow> (Ok (), self')))"

datatype publication_event =
    Publish rust_string u64 bool
  | Pause rust_string
  | Unpublish rust_string
  | CorrectPersona rust_string u64
  | InvalidateRestartLeases
  | Restart

fun publication_step :: "publication_event \<Rightarrow> (CanonicalPublication, unit, PublicationError) op" where
  "publication_step (Publish owner version ready) = publish owner version ready"
| "publication_step (Pause owner) = pause owner"
| "publication_step (Unpublish owner) = unpublish owner"
| "publication_step (CorrectPersona owner version) = correct_persona owner version"
| "publication_step InvalidateRestartLeases = invalidate_restart_leases"
| "publication_step Restart = restart"

lemmas publication_op_defs [op_defs] = publish_def pause_def unpublish_def correct_persona_def
  invalidate_restart_leases_def revoke_authority_def check_owner_def

section \<open>Invariant and leases\<close>

definition publication_inv :: "CanonicalPublication \<Rightarrow> bool" where
  [inv_defs]: "publication_inv p \<longleftrightarrow>
     \<not> blank (owner_id p) \<and> \<not> blank (persona_id p) \<and> \<not> blank (publication_id p) \<and>
     persona_version p \<noteq> 0 \<and> AuthorizationEpoch_get (auth_epoch (authority p)) \<noteq> 0 \<and>
     expires_at_millis (authority p) = None \<and>
     (status p = Published \<longrightarrow> \<not> auth_revoked (authority p)) \<and>
     (status p \<in> {Paused, Unpublished} \<longrightarrow> auth_revoked (authority p))"

abbreviation publication_epoch :: "CanonicalPublication \<Rightarrow> AuthorizationEpoch" where
  "publication_epoch p \<equiv> auth_epoch (authority p)"

lemma on_authority_revoke:
  obtains (err) "on_authority revoke p = (Err AuthEpochExhausted, p)"
  | (ok) a where "on_authority revoke p = (Ok (), p\<lparr>authority := a\<rparr>)" "auth_revoked a"
      "expires_at_millis a = expires_at_millis (authority p)" "publication_epoch p \<le> auth_epoch a"
      "\<not> auth_revoked (authority p) \<Longrightarrow> publication_epoch p < auth_epoch a"
proof (cases "auth_revoked (authority p)")
  case True
  then show ?thesis by (intro ok [of "authority p"]) (simp_all add: on_authority_def revoke_def)
next
  case False
  then show ?thesis
  proof (cases "AuthorizationEpoch_next (publication_epoch p)")
    case (Inl e)
    then show ?thesis using False by (intro err) (simp add: on_authority_def revoke_def)
  next
    case (Inr n)
    then show ?thesis
      using False epoch_next_less [OF Inr]
      by (intro ok [of "authority p\<lparr>auth_epoch := n, auth_revoked := True\<rparr>"])
        (simp_all add: on_authority_def revoke_def)
  qed
qed

lemma on_authority_replace:
  obtains (err) "on_authority (replace x) p = (Err AuthEpochExhausted, p)"
  | (ok) a where "on_authority (replace x) p = (Ok (), p\<lparr>authority := a\<rparr>)" "\<not> auth_revoked a"
      "expires_at_millis a = x" "publication_epoch p < auth_epoch a"
proof (cases "AuthorizationEpoch_next (publication_epoch p)")
  case (Inl e)
  then show ?thesis by (intro err) (simp add: on_authority_def replace_def)
next
  case (Inr n)
  then show ?thesis
    using epoch_next_less [OF Inr]
    by (intro ok [of "authority p\<lparr>auth_epoch := n, auth_revoked := False, expires_at_millis := x\<rparr>"])
      (simp_all add: on_authority_def replace_def)
qed

lemma epoch_pos_mono:
  "a \<le> b \<Longrightarrow> AuthorizationEpoch_get a \<noteq> 0 \<Longrightarrow> AuthorizationEpoch_get b \<noteq> 0"
  by (auto simp: less_eq_AuthorizationEpoch_def word_le_nat_alt unat_eq_0)

text \<open>What one owner operation does to the publication: nothing, or a step of this shape.\<close>

definition publication_moves :: "CanonicalPublication \<Rightarrow> CanonicalPublication \<Rightarrow> bool" where
  "publication_moves p p' \<longleftrightarrow>
     publication_id p' = publication_id p \<and> owner_id p' = owner_id p \<and> persona_id p' = persona_id p \<and>
     persona_version p \<le> persona_version p' \<and> publication_epoch p \<le> publication_epoch p' \<and>
     (\<not> auth_revoked (authority p) \<longrightarrow> publication_epoch p < publication_epoch p') \<and>
     (publication_inv p \<longrightarrow> publication_inv p')"

lemma replace_moves:
  assumes "on_authority (replace None) p = (Ok (), q)" and "st = Published"
  shows "publication_moves p (q\<lparr>status := st\<rparr>)"
  using assms
  by (cases rule: on_authority_replace [of None p])
    (auto simp: publication_moves_def publication_inv_def dest: epoch_pos_mono [OF less_imp_le])

lemma revoke_moves:
  assumes "on_authority revoke p = (Ok (), q)" and "st \<noteq> Published" and "persona_version p \<le> v"
  shows "publication_moves p (q\<lparr>persona_version := v, status := st\<rparr>)"
  using assms
  by (cases rule: on_authority_revoke [of p])
    (auto simp: publication_moves_def publication_inv_def dest: epoch_pos_mono)

lemma on_authority_ErrD:
  assumes "on_authority f p = (Err e, q)" and "\<And>a e a'. f a = (Err e, a') \<Longrightarrow> a' = a"
  shows "q = p"
  using assms by (cases "f (authority p)"; cases "fst (f (authority p))") (auto simp: on_authority_def)

lemma authority_ErrD:
  "revoke a = (Err e, a') \<Longrightarrow> a' = a" "replace x a = (Err e, a') \<Longrightarrow> a' = a"
  using fails_safeD [OF authority.step_fails [of Revoke]] fails_safeD [OF authority.step_fails [of "Replace x"]]
  by simp_all

lemmas on_authority_fails = on_authority_ErrD [OF _ authority_ErrD(1)] on_authority_ErrD [OF _ authority_ErrD(2)]

lemma restart_is_invalidate:
  "from_durable_snapshot (durable_snapshot p) = Ok q \<Longrightarrow>
     q = p\<lparr>authority := (authority p)\<lparr>expires_at_millis := None\<rparr>\<rparr>"
  by (auto simp: from_durable_snapshot_def durable_snapshot_def AuthorizationState_from_persisted_def
      AuthorizationEpoch_from_persisted_def split: if_splits option.splits)

lemma restart_Ok_iff:
  "restart p = (Ok (), p') \<longleftrightarrow>
     (\<exists>q. from_durable_snapshot (durable_snapshot p) = Ok q \<and> invalidate_restart_leases q = (Ok (), p'))"
  by (auto simp: restart_def split: sum.splits prod.splits)

lemma publication_step_fails_safe: "fails_safe (publication_step c)"
proof
  fix p e p'
  assume "publication_step c p = (Err e, p')"
  then show "p' = p"
    by (cases c)
      (auto simp: publication_op_defs restart_def split: if_splits sum.splits prod.splits
        dest: on_authority_fails)
qed

lemma invalidate_moves:
  assumes "invalidate_restart_leases p = (Ok (), p')"
  shows "publication_moves p p'"
proof (cases "status p = Published")
  case True
  with assms show ?thesis
    by (cases rule: on_authority_replace [of None p])
      (auto simp: invalidate_restart_leases_def publication_moves_def publication_inv_def
        dest: epoch_pos_mono [OF less_imp_le])
next
  case False
  with assms show ?thesis
    using revoke_moves [of p p' "status p" "persona_version p"]
    by (cases rule: on_authority_revoke [of p]) (auto simp: invalidate_restart_leases_def)
qed

lemma publication_step_moves:
  assumes "publication_step c p = (Ok (), p')"
  shows "publication_moves p p'"
proof (cases c)
  case (Publish x v r)
  with assms show ?thesis
    by (auto simp: publication_op_defs split: if_splits sum.splits prod.splits intro: replace_moves)
next
  case (Pause x)
  with assms show ?thesis
    using revoke_moves [of p _ Paused "persona_version p"]
    by (cases rule: on_authority_revoke [of p]) (auto simp: publication_op_defs split: if_splits)
next
  case (Unpublish x)
  with assms show ?thesis
    using revoke_moves [of p _ Unpublished "persona_version p"]
    by (cases rule: on_authority_revoke [of p]) (auto simp: publication_op_defs split: if_splits)
next
  case (CorrectPersona x v)
  with assms show ?thesis
    by (auto simp: publication_op_defs split: if_splits sum.splits prod.splits intro: revoke_moves)
next
  case InvalidateRestartLeases
  with assms show ?thesis by (simp add: invalidate_moves)
next
  case Restart
  with assms obtain q where q: "from_durable_snapshot (durable_snapshot p) = Ok q"
      "invalidate_restart_leases q = (Ok (), p')"
    by (auto simp: restart_Ok_iff)
  from invalidate_moves [OF q(2)] show ?thesis
    using restart_is_invalidate [OF q(1)] by (auto simp: publication_moves_def publication_inv_def)
qed

definition accepts_permit :: "CanonicalPublication \<Rightarrow> VisitorPermit \<Rightarrow> bool" where
  "accepts_permit p permit \<longleftrightarrow>
     (\<exists>auth owner persona version now. authorize_visitor p auth owner persona version permit now = Ok ())"

lemma authorize_visitor_Ok_iff:
  "authorize_visitor p auth owner persona version permit now = Ok () \<longleftrightarrow>
     auth \<and> status p = Published \<and>
     permit_publication_id permit = publication_id p \<and>
     permit_owner_id permit = owner_id p \<and> owner = owner_id p \<and> owner \<noteq> [] \<and>
     permit_persona_id permit = persona_id p \<and> persona = persona_id p \<and> persona \<noteq> [] \<and>
     permit_persona_version permit = persona_version p \<and> version = persona_version p \<and> version \<noteq> 0 \<and>
     validate (authority p) (permit_snapshot permit) now = Ok ()"
  by (auto simp: authorize_visitor_def authorize_public_visitor_Ok_iff)

interpretation publication: lease_authority publication_epoch publication_step
  "\<lambda>permit. snapshot_epoch (permit_snapshot permit)" accepts_permit
proof unfold_locales
  fix p c
  show "publication_epoch p \<le> publication_epoch (snd (publication_step c p))"
  proof (cases "publication_step c p")
    case (Pair r p')
    then show ?thesis
      using publication_step_moves [of c p p'] fails_safeD [OF publication_step_fails_safe, of c p _ p']
      by (cases r) (auto simp: publication_moves_def)
  qed
next
  fix p l c p' assume "accepts_permit p l" "publication_step c p = (Ok (), p')"
  then show "publication_epoch p < publication_epoch p'"
    using publication_step_moves [of c p p']
    by (auto simp: accepts_permit_def authorize_visitor_Ok_iff validate_Ok_iff publication_moves_def)
qed (auto simp: accepts_permit_def authorize_visitor_Ok_iff validate_Ok_iff publication_step_fails_safe)

section \<open>Reachable publications\<close>

inductive reachable_publication :: "CanonicalPublication \<Rightarrow> bool" where
  new: "CanonicalPublication_new owner persona publication version = Ok p \<Longrightarrow> reachable_publication p"
| restored: "from_durable_snapshot state = Ok p \<Longrightarrow> reachable_publication p"
| step: "reachable_publication p \<Longrightarrow> reachable_publication (snd (publication_step c p))"

lemma epoch_get_nonzero_simps [simp]: "AuthorizationEpoch_get AuthorizationEpoch_initial = 1"
  by (simp add: AuthorizationEpoch_initial_def)

lemma reachable_publication_inv: "reachable_publication p \<Longrightarrow> publication_inv p"
proof (induction rule: reachable_publication.induct)
  case (new owner persona publication version p)
  then show ?case
    by (auto simp: CanonicalPublication_new_def publication_inv_def AuthorizationState_new_def split: if_splits)
next
  case (restored state p)
  then show ?case
    by (auto simp: from_durable_snapshot_def publication_inv_def AuthorizationState_from_persisted_def
        AuthorizationEpoch_from_persisted_def split: if_splits option.splits)
next
  case (step p c)
  then show ?case
    using publication_step_moves [of c p] fails_safeD [OF publication_step_fails_safe, of c p]
    by (cases "publication_step c p"; cases "fst (publication_step c p)") (auto simp: publication_moves_def)
qed

lemma durable_roundtrip:
  "publication_inv p \<Longrightarrow> from_durable_snapshot (durable_snapshot p) = Ok p"
  by (auto simp: from_durable_snapshot_def durable_snapshot_def publication_inv_def
      AuthorizationState_from_persisted_def AuthorizationEpoch_from_persisted_def
      split: PublicationStatus.splits)

section \<open>Properties\<close>

definition sample_publication :: CanonicalPublication where
  "sample_publication = \<lparr>publication_id = lit ''pub'', owner_id = lit ''owner'', persona_id = lit ''ada'',
     persona_version = 2, status = Published,
     authority = \<lparr>auth_epoch = AuthorizationEpoch 2, auth_revoked = False, expires_at_millis = None\<rparr>\<rparr>"

definition sample_permit :: VisitorPermit where
  "sample_permit = \<lparr>permit_publication_id = lit ''pub'', permit_owner_id = lit ''owner'',
     permit_persona_id = lit ''ada'', permit_persona_version = 2,
     permit_snapshot = \<lparr>snapshot_epoch = AuthorizationEpoch 2\<rparr>\<rparr>"

lemma sample_publication_reachable: "reachable_publication sample_publication"
proof -
  let ?p = "\<lparr>publication_id = lit ''pub'', owner_id = lit ''owner'', persona_id = lit ''ada'',
     persona_version = 2, status = Private, authority = AuthorizationState_new None\<rparr>"
  have "CanonicalPublication_new (lit ''owner'') (lit ''ada'') (lit ''pub'') 2 = Ok ?p" by code_simp
  from reachable_publication.step [OF reachable_publication.new [OF this], of "Publish (lit ''owner'') 2 True"]
  have "reachable_publication (snd (publication_step (Publish (lit ''owner'') 2 True) ?p))" .
  moreover have "snd (publication_step (Publish (lit ''owner'') 2 True) ?p) = sample_publication" by code_simp
  ultimately show ?thesis by simp
qed

text \<open>A visitor permit dies with the publication state it was issued for: once a permit has
  authorized a visitor, any pause, unpublish, correction, re-publication, lease invalidation or
  restart that succeeds ends it, and no later sequence of owner operations and restarts makes it
  authorize anyone again, whatever identity, version and time are presented with it.\<close>

lemma permit_dies_with_lifecycle_change:
  assumes "authorize_visitor p auth owner persona version permit now = Ok ()"
    and "publication_step c p = (Ok (), p')"
  shows "authorize_visitor (final publication_step cs p') auth' owner' persona' version' permit now' \<noteq> Ok ()"
proof -
  have "accepts_permit p permit" using assms(1) unfolding accepts_permit_def by blast
  from publication.dies_with_success [OF this assms(2), of cs] show ?thesis
    by (auto simp: accepts_permit_def)
qed

text \<open>Every reachable publication survives a process restart unchanged: its durable snapshot is
  accepted and read back as exactly the publication it was taken from, and that publication
  satisfies the invariant (a published one is never revoked, a paused or unpublished one always is).\<close>

lemma publication_durable_roundtrip:
  assumes "reachable_publication p"
  shows "from_durable_snapshot (durable_snapshot p) = Ok p \<and> publication_inv p"
  using reachable_publication_inv [OF assms] durable_roundtrip by blast

text \<open>A published publication serves its visitors: an authenticated visitor gets a permit, and
  that permit authorizes the visitor at every time for the current owner, Persona and version, until
  an owner operation succeeds; operations that fail in between do not disturb it.\<close>

lemma published_lease_authorizes:
  assumes "reachable_publication p" and "status p = Published"
    and "list_all (\<lambda>(c, r). r \<noteq> Ok ()) (fst (run_ops publication_step cs p))"
  shows "\<exists>permit. visitor_lease p True = Ok permit \<and> matches_persona permit (persona_id p) (persona_version p) \<and>
    authorize_visitor (final publication_step cs p) True (owner_id p) (persona_id p) (persona_version p) permit now
      = Ok ()"
proof -
  have inv: "publication_inv p" using assms(1) by (rule reachable_publication_inv)
  have same: "final publication_step cs p = p"
    using assms(3)
  proof (induction cs)
    case (Cons c cs)
    have "snd (publication_step c p) = p"
      using Cons.prems fails_safeD [OF publication_step_fails_safe, of c p]
      by (cases "publication_step c p"; cases "fst (publication_step c p)") auto
    then show ?case using Cons by simp
  qed simp
  let ?permit = "\<lparr>permit_publication_id = publication_id p, permit_owner_id = owner_id p,
      permit_persona_id = persona_id p, permit_persona_version = persona_version p,
      permit_snapshot = snapshot (authority p)\<rparr>"
  have "visitor_lease p True = Ok ?permit" using assms(2) by (simp add: visitor_lease_def)
  moreover have "authorize_visitor p True (owner_id p) (persona_id p) (persona_version p) ?permit now = Ok ()"
    using inv assms(2)
    by (auto simp: authorize_visitor_Ok_iff publication_inv_def validate_Ok_iff snapshot_def)
  ultimately show ?thesis using same by (intro exI [of _ ?permit]) (simp add: matches_persona_def)
qed

end
