(* ===== verification/VPR_Capture.thy ===== *)
theory VPR_Capture
  imports VPR_Profile
begin

text \<open>
  Guided owner capture (\<^verbatim>\<open>crates/vpr-capture/src/plan.rs\<close> and \<^verbatim>\<open>interview.rs\<close>): an interview plan
  with unique claim identities, and the interview that fills one canonical profile from it.
\<close>

section \<open>Plans\<close>

record InterviewQuestion =
  question_claim_id :: ClaimId
  prompt :: rust_string
  question_kind :: ClaimKind

datatype PlanError = EmptyPlan | BlankPrompt | DuplicateClaimId

definition InterviewQuestion_new ::
  "ClaimId \<Rightarrow> rust_string \<Rightarrow> ClaimKind \<Rightarrow> PlanError + InterviewQuestion" where
  "InterviewQuestion_new claim_id prmpt knd =
     (if blank prmpt then Err BlankPrompt
      else Ok \<lparr>question_claim_id = claim_id, prompt = prmpt, question_kind = knd\<rparr>)"

record InterviewPlan =
  questions :: "InterviewQuestion list"

text \<open>The loop of \<open>InterviewPlan::new\<close> with its \<open>HashSet\<close> of identities seen so far.\<close>

fun plan_seen_loop :: "ClaimId set \<Rightarrow> InterviewQuestion list \<Rightarrow> PlanError + unit" where
  "plan_seen_loop seen [] = Ok ()"
| "plan_seen_loop seen (question # rest) =
     (if question_claim_id question \<in> seen then Err PlanError.DuplicateClaimId
      else plan_seen_loop (insert (question_claim_id question) seen) rest)"

definition InterviewPlan_new :: "InterviewQuestion list \<Rightarrow> PlanError + InterviewPlan" where
  "InterviewPlan_new qs =
     (if qs = [] then Err EmptyPlan
      else (case plan_seen_loop {} qs of Err e \<Rightarrow> Err e | Ok _ \<Rightarrow> Ok \<lparr>questions = qs\<rparr>))"

definition plan_question_count :: "InterviewPlan \<Rightarrow> nat" where
  "plan_question_count plan = length (questions plan)"

lemma plan_seen_loop_Ok_iff:
  "plan_seen_loop seen qs = Ok () \<longleftrightarrow>
     distinct (map question_claim_id qs) \<and> question_claim_id ` set qs \<inter> seen = {}"
  by (induction qs arbitrary: seen) auto

lemma InterviewPlan_new_Ok_iff:
  "InterviewPlan_new qs = Ok plan \<longleftrightarrow>
     qs \<noteq> [] \<and> distinct (map question_claim_id qs) \<and> plan = \<lparr>questions = qs\<rparr>"
  using plan_seen_loop_Ok_iff [of "{}" qs]
  by (cases "plan_seen_loop {} qs") (auto simp: InterviewPlan_new_def)

section \<open>Interviews\<close>

record GuidedOwnerInterview =
  profile :: PersonaProfile
  plan :: InterviewPlan
  next_question :: nat

datatype CaptureError =
    UnsupportedPersonaMode
  | ProfileNotCleanDraft
  | BlankAnswer
  | InterviewAlreadyComplete
  | InterviewIncomplete
  | Profile ProfileError

definition GuidedOwnerInterview_new ::
  "PersonaProfile \<Rightarrow> InterviewPlan \<Rightarrow> CaptureError + GuidedOwnerInterview" where
  "GuidedOwnerInterview_new p pl =
     (if \<not> is_rt0_supported (identity p) then Err UnsupportedPersonaMode
      else if capture_state p \<noteq> Draft \<or> claims p \<noteq> [] then Err ProfileNotCleanDraft
      else Ok \<lparr>profile = p, plan = pl, next_question = 0\<rparr>)"

definition current_question :: "GuidedOwnerInterview \<Rightarrow> InterviewQuestion option" where
  "current_question self =
     (if next_question self < length (questions (plan self))
      then Some (questions (plan self) ! next_question self) else None)"

definition interview_question_count :: "GuidedOwnerInterview \<Rightarrow> nat" where
  "interview_question_count self = plan_question_count (plan self)"

text \<open>An operation on the owned profile, with the \<open>From<ProfileError>\<close> conversion of \<open>?\<close>.\<close>

definition on_profile ::
  "(PersonaProfile, unit, ProfileError) op \<Rightarrow> (GuidedOwnerInterview, unit, CaptureError) op" where
  "on_profile f self =
     (case f (profile self) of (r, p) \<Rightarrow> (map_err Profile r, self\<lparr>profile := p\<rparr>))"

definition submit_answer :: "rust_string \<Rightarrow> (GuidedOwnerInterview, unit, CaptureError) op" where
  "submit_answer answer self =
     (if blank answer then (Err BlankAnswer, self)
      else (case current_question self of
              None \<Rightarrow> (Err InterviewAlreadyComplete, self)
            | Some question \<Rightarrow>
                (case OwnerClaimRecord_capture (question_claim_id question)
                        \<lparr>statement = answer, kind = question_kind question, claim_source = Owner,
                         verification = Unverified, derivation = Direct\<rparr> of
                   Err e \<Rightarrow> (Err (Profile e), self)
                 | Ok record \<Rightarrow>
                     (case on_profile (add_captured_claim record) self of
                        (Err e, self') \<Rightarrow> (Err e, self')
                      | (Ok _, self') \<Rightarrow> (Ok (), self'\<lparr>next_question := next_question self' + 1\<rparr>)))))"

definition finish_capture :: "(GuidedOwnerInterview, unit, CaptureError) op" where
  "finish_capture self =
     (if next_question self \<noteq> plan_question_count (plan self) then (Err InterviewIncomplete, self)
      else on_profile mark_capture_complete self)"

definition interview_approve_claim :: "ClaimId \<Rightarrow> (GuidedOwnerInterview, unit, CaptureError) op" where
  "interview_approve_claim i self = on_profile (approve_claim i) self"

definition interview_correct_claim ::
  "ClaimId \<Rightarrow> rust_string \<Rightarrow> ClaimKind \<Rightarrow> (GuidedOwnerInterview, unit, CaptureError) op" where
  "interview_correct_claim i stmt knd self = on_profile (correct_claim i stmt knd) self"

definition complete_initial_review :: "(GuidedOwnerInterview, unit, CaptureError) op" where
  "complete_initial_review self = on_profile approve_initial_review self"

definition into_profile :: "GuidedOwnerInterview \<Rightarrow> PersonaProfile" where
  "into_profile self = profile self"

datatype interview_event =
    SubmitAnswer rust_string
  | FinishCapture
  | ApproveClaim ClaimId
  | CorrectClaim ClaimId rust_string ClaimKind
  | CompleteInitialReview

fun interview_step :: "interview_event \<Rightarrow> (GuidedOwnerInterview, unit, CaptureError) op" where
  "interview_step (SubmitAnswer s) = submit_answer s"
| "interview_step FinishCapture = finish_capture"
| "interview_step (ApproveClaim i) = interview_approve_claim i"
| "interview_step (CorrectClaim i s k) = interview_correct_claim i s k"
| "interview_step CompleteInitialReview = complete_initial_review"

section \<open>Invariant\<close>

definition interview_inv :: "GuidedOwnerInterview \<Rightarrow> bool" where
  [inv_defs]: "interview_inv v \<longleftrightarrow>
     questions (plan v) \<noteq> [] \<and> distinct (map question_claim_id (questions (plan v))) \<and>
     next_question v \<le> length (questions (plan v)) \<and>
     map record_id (claims (profile v)) = map question_claim_id (take (next_question v) (questions (plan v))) \<and>
     profile_inv (profile v) \<and> is_rt0_supported (identity (profile v)) \<and>
     (capture_state (profile v) = Draft \<longrightarrow>
        list_all (\<lambda>r. previous_revisions r = [] \<and> verification (revision_claim (current r)) = Unverified)
          (claims (profile v))) \<and>
     (capture_state (profile v) \<noteq> Draft \<longrightarrow> next_question v = length (questions (plan v)))"

lemma on_profile_simps [simp]:
  "snd (on_profile f v) = v\<lparr>profile := snd (f (profile v))\<rparr>"
  "fst (on_profile f v) = map_err Profile (fst (f (profile v)))"
  by (simp_all add: on_profile_def split: prod.splits)

text \<open>The operations of the review phase keep the claim identities, the mode and the phase.\<close>

definition review_frame :: "PersonaProfile \<Rightarrow> PersonaProfile \<Rightarrow> bool" where
  "review_frame p p' \<longleftrightarrow>
     map record_id (claims p') = map record_id (claims p) \<and>
     identity_mode (identity p') = identity_mode (identity p) \<and>
     (capture_state p = Draft \<longrightarrow> p' = p) \<and> (capture_state p \<noteq> Draft \<longrightarrow> capture_state p' \<noteq> Draft)"

lemma review_frame_refl [simp]: "review_frame p p"
  by (simp add: review_frame_def)

lemma with_claim_mut_ids:
  "(\<And>r. record_id (snd (f r)) = record_id r) \<Longrightarrow>
     map record_id (claims (snd (with_claim_mut i f p))) = map record_id (claims p)"
  by (simp add: with_claim_mut_claims map_update_first)

lemma approve_claim_frame: "review_frame p (snd (approve_claim i p))"
  by (auto simp: review_frame_def approve_claim_def require_state_def with_claim_mut_ids)

lemma approve_initial_review_frame: "review_frame p (snd (approve_initial_review p))"
  by (auto simp: review_frame_def approve_initial_review_def require_state_def split: sum.splits)

lemma correct_claim_frame: "review_frame p (snd (correct_claim i stmt knd p))"
proof (cases "capture_state p = Draft")
  case True
  then show ?thesis by (simp add: review_frame_def correct_claim_def)
next
  case False
  then show ?thesis
    by (cases rule: correct_claim_snd [of i stmt knd p]) (auto simp: review_frame_def with_claim_mut_ids)
qed

lemma review_frame_inv:
  assumes "interview_inv v" and "review_frame (profile v) p'" and "profile_inv p'"
  shows "interview_inv (v\<lparr>profile := p'\<rparr>)"
  using assms
  by (cases "capture_state (profile v) = Draft")
    (auto simp: interview_inv_def review_frame_def is_rt0_supported_def)

text \<open>The record one answer is captured as.\<close>

definition captured_record :: "InterviewQuestion \<Rightarrow> rust_string \<Rightarrow> OwnerClaimRecord" where
  "captured_record q a =
     \<lparr>record_id = question_claim_id q, previous_revisions = [],
      current = \<lparr>revision = ClaimRevision_initial,
        revision_claim = \<lparr>statement = a, kind = question_kind q, claim_source = Owner,
          verification = Unverified, derivation = Direct\<rparr>\<rparr>\<rparr>"

definition answer_ok :: "rust_string \<Rightarrow> bool" where
  "answer_ok a \<longleftrightarrow> \<not> blank a \<and> length a \<le> MAX_OWNER_CLAIM_CHARS"

lemma captured_record_simps [simp]:
  "record_id (captured_record q a) = question_claim_id q"
  "previous_revisions (captured_record q a) = []"
  "statement (revision_claim (current (captured_record q a))) = a"
  "kind (revision_claim (current (captured_record q a))) = question_kind q"
  "verification (revision_claim (current (captured_record q a))) = Unverified"
  by (simp_all add: captured_record_def)

lemma captured_record_inv: "answer_ok a \<Longrightarrow> record_inv (captured_record q a)"
  by (rule capture_inv [of "question_claim_id q" "revision_claim (current (captured_record q a))"])
    (simp add: capture_Ok_iff captured_record_def claim_ok_def direct_owner_material_def answer_ok_def)

lemma append_claim_inv:
  assumes "profile_inv p" "record_inv r" "capture_state p = Draft" "profile_claim p (record_id r) = None"
  shows "profile_inv (p\<lparr>claims := claims p @ [r]\<rparr>)"
  using add_captured_claim_inv [OF assms(1,2)] assms(3,4)
  by (simp add: add_captured_claim_def require_state_def)

lemma submit_answer_Ok_iff:
  "submit_answer a v = (Ok (), v') \<longleftrightarrow>
     (\<exists>q. current_question v = Some q \<and> answer_ok a \<and>
        capture_state (profile v) = Draft \<and> profile_claim (profile v) (question_claim_id q) = None \<and>
        v' = v\<lparr>profile := (profile v)\<lparr>claims := claims (profile v) @ [captured_record q a]\<rparr>,
               next_question := Suc (next_question v)\<rparr>)"
  by (auto simp: submit_answer_def on_profile_def add_captured_claim_def require_state_def
      OwnerClaimRecord_capture_def validate_captured_claim_def captured_record_def answer_ok_def
      split: option.splits)

lemma submit_answer_fails_safe: "fails_safe (submit_answer a)"
  by (rule fails_safeI)
    (auto simp: submit_answer_def on_profile_def add_captured_claim_def require_state_def
      split: if_splits option.splits sum.splits prod.splits)

lemma submit_answer_inv:
  assumes inv: "interview_inv v" and ok: "submit_answer a v = (Ok (), v')"
  shows "interview_inv v'"
proof -
  from ok obtain q where q: "current_question v = Some q" "answer_ok a"
      "capture_state (profile v) = Draft" "profile_claim (profile v) (question_claim_id q) = None"
      and v': "v' = v\<lparr>profile := (profile v)\<lparr>claims := claims (profile v) @ [captured_record q a]\<rparr>,
               next_question := Suc (next_question v)\<rparr>"
    by (auto simp: submit_answer_Ok_iff)
  have "profile_inv ((profile v)\<lparr>claims := claims (profile v) @ [captured_record q a]\<rparr>)"
    using inv q captured_record_inv by (intro append_claim_inv) (auto simp: interview_inv_def)
  then show ?thesis
    using inv q(1,3) by (auto simp: v' interview_inv_def current_question_def take_Suc_conv_app_nth split: if_splits)
qed

lemma interview_step_inv:
  assumes inv: "interview_inv v"
  shows "interview_inv (snd (interview_step c v))"
proof -
  have p: "profile_inv (profile v)" using inv by (simp add: interview_inv_def)
  show ?thesis
  proof (cases c)
    case (SubmitAnswer a)
    then show ?thesis
      using inv submit_answer_inv [OF inv] fails_safeD [OF submit_answer_fails_safe, of a v]
      by (cases "submit_answer a v"; cases "fst (submit_answer a v)") auto
  next
    case FinishCapture
    then show ?thesis
      using inv mark_capture_complete_inv [of "profile v"]
      by (auto simp: finish_capture_def plan_question_count_def interview_inv_def mark_capture_complete_def
          require_state_def)
  next
    case (ApproveClaim i)
    then show ?thesis
      by (simp add: interview_approve_claim_def review_frame_inv [OF inv approve_claim_frame] approve_claim_inv p)
  next
    case (CorrectClaim i s k)
    then show ?thesis
      by (simp add: interview_correct_claim_def review_frame_inv [OF inv correct_claim_frame] correct_claim_inv p)
  next
    case CompleteInitialReview
    then show ?thesis
      by (simp add: complete_initial_review_def review_frame_inv [OF inv approve_initial_review_frame]
          approve_initial_review_inv p)
  qed
qed

lemma interview_new_inv:
  assumes "GuidedOwnerInterview_new p pl = Ok v" and "api_profile p" and "InterviewPlan_new qs = Ok pl"
  shows "interview_inv v"
  using assms api_profile_inv [OF assms(2)]
  by (auto simp: GuidedOwnerInterview_new_def InterviewPlan_new_Ok_iff interview_inv_def split: if_splits)

section \<open>A complete interview\<close>

text \<open>The owner answers every question, finishes, approves every claim and completes the review.\<close>

definition full_interview :: "InterviewQuestion list \<Rightarrow> rust_string list \<Rightarrow> interview_event list" where
  "full_interview qs answers =
     map SubmitAnswer answers @ [FinishCapture] @ map (\<lambda>q. ApproveClaim (question_claim_id q)) qs @
     [CompleteInitialReview]"

abbreviation all_ok :: "('c \<times> ('e + 'a)) list \<Rightarrow> bool" where
  "all_ok rs \<equiv> list_all (\<lambda>(c, r). is_ok r) rs"

lemma submit_run:
  assumes "list_all answer_ok answers" and "interview_inv v" and "capture_state (profile v) = Draft"
    and "next_question v + length answers \<le> length (questions (plan v))"
  shows "all_ok (fst (run_ops interview_step (map SubmitAnswer answers) v)) \<and>
    final interview_step (map SubmitAnswer answers) v =
      v\<lparr>profile := (profile v)\<lparr>claims := claims (profile v) @
           map2 captured_record (drop (next_question v) (questions (plan v))) answers\<rparr>,
        next_question := next_question v + length answers\<rparr>"
  using assms
proof (induction answers arbitrary: v)
  case Nil
  then show ?case by simp
next
  case (Cons a answers)
  let ?q = "questions (plan v) ! next_question v"
  have lt: "next_question v < length (questions (plan v))" using Cons.prems by simp
  have fresh: "profile_claim (profile v) (question_claim_id ?q) = None"
  proof -
    have "question_claim_id ?q \<notin> record_id ` set (claims (profile v))"
    proof -
      have "distinct (map question_claim_id (take (Suc (next_question v)) (questions (plan v))))"
        using Cons.prems(2) distinct_take by (auto simp: interview_inv_def take_map [symmetric])
      then have "question_claim_id ?q \<notin> set (map question_claim_id (take (next_question v) (questions (plan v))))"
        using lt by (simp add: take_Suc_conv_app_nth)
      moreover have "set (map question_claim_id (take (next_question v) (questions (plan v)))) =
          record_id ` set (claims (profile v))"
        using Cons.prems(2) by (metis interview_inv_def list.set_map)
      ultimately show ?thesis by simp
    qed
    then show ?thesis by (force simp: profile_claim_def find_None_iff)
  qed
  let ?v = "v\<lparr>profile := (profile v)\<lparr>claims := claims (profile v) @ [captured_record ?q a]\<rparr>,
      next_question := Suc (next_question v)\<rparr>"
  have ok: "submit_answer a v = (Ok (), ?v)"
    using Cons.prems fresh lt by (auto simp: submit_answer_Ok_iff current_question_def)
  have inv: "interview_inv ?v" using Cons.prems(2) ok by (rule submit_answer_inv)
  have "drop (next_question v) (questions (plan v)) = ?q # drop (Suc (next_question v)) (questions (plan v))"
    using lt by (simp add: Cons_nth_drop_Suc)
  then show ?case using Cons.IH [OF _ inv] Cons.prems ok by simp
qed

text \<open>The record after its approval.\<close>

definition approved_record :: "OwnerClaimRecord \<Rightarrow> OwnerClaimRecord" where
  "approved_record r = snd (approve r)"

lemma approve_captured:
  "approve (captured_record q a) = (Ok (), approved_record (captured_record q a)) \<and>
   is_owner_reviewed (approved_record (captured_record q a)) \<and>
   revision_claim (current (approved_record (captured_record q a))) =
     (revision_claim (current (captured_record q a)))\<lparr>verification := OwnerVerified\<rparr>"
proof -
  have "ClaimRevision_next ClaimRevision_initial = Ok (ClaimRevision 2)" by code_simp
  then show ?thesis
    by (simp add: approve_def approved_record_def captured_record_def replace_current_def is_owner_reviewed_def
        Let_def)
qed

lemma update_first_middle:
  "list_all (\<lambda>x. \<not> P x) xs \<Longrightarrow> P y \<Longrightarrow> update_first P f (xs @ y # ys) = xs @ f y # ys"
  by (induction xs) auto

lemma find_middle:
  "list_all (\<lambda>x. \<not> P x) xs \<Longrightarrow> P y \<Longrightarrow> List.find P (xs @ y # ys) = Some y"
  by (induction xs) auto

lemma approve_run:
  assumes "capture_state (profile v) = Captured" and "claims (profile v) = done @ todo"
    and "distinct (map record_id (done @ todo))"
    and "list_all (\<lambda>r. \<exists>q a. r = captured_record q a) todo"
  shows "all_ok (fst (run_ops interview_step (map (\<lambda>r. ApproveClaim (record_id r)) todo) v)) \<and>
    final interview_step (map (\<lambda>r. ApproveClaim (record_id r)) todo) v =
      v\<lparr>profile := (profile v)\<lparr>claims := done @ map approved_record todo\<rparr>\<rparr>"
  using assms
proof (induction todo arbitrary: v "done")
  case Nil
  then show ?case by simp
next
  case (Cons r todo)
  obtain q a where r: "r = captured_record q a" using Cons.prems(4) by auto
  have others: "list_all (\<lambda>c. record_id c \<noteq> record_id r) done"
  proof -
    have "record_id r \<notin> record_id ` set done" using Cons.prems(3) by simp
    then show ?thesis by (auto simp: list_all_iff image_iff)
  qed
  let ?v = "v\<lparr>profile := (profile v)\<lparr>claims := done @ approved_record r # todo\<rparr>\<rparr>"
  have "approve_claim (record_id r) (profile v) = (Ok (), profile ?v)"
    using Cons.prems(1,2) others approve_captured [of q a]
    by (simp add: approve_claim_def require_state_def with_claim_mut_def profile_claim_def find_middle
        update_first_middle r)
  then have ok: "interview_step (ApproveClaim (record_id r)) v = (Ok (), ?v)"
    by (simp add: interview_approve_claim_def on_profile_def)
  have id: "record_id (approved_record r) = record_id r" by (simp add: approved_record_def)
  have "all_ok (fst (run_ops interview_step (map (\<lambda>r. ApproveClaim (record_id r)) todo) ?v)) \<and>
    final interview_step (map (\<lambda>r. ApproveClaim (record_id r)) todo) ?v =
      ?v\<lparr>profile := (profile ?v)\<lparr>claims := (done @ [approved_record r]) @ map approved_record todo\<rparr>\<rparr>"
    by (rule Cons.IH) (use Cons.prems id in simp_all)
  then show ?case using ok by simp
qed

lemma map2_ids:
  "length as = length qs \<Longrightarrow> map record_id (map2 captured_record qs as) = map question_claim_id qs"
  by (induction qs as rule: list_induct2') auto

lemma approve_events:
  "length as = length qs \<Longrightarrow>
     map (\<lambda>r. ApproveClaim (record_id r)) (map2 captured_record qs as) =
     map (\<lambda>q. ApproveClaim (question_claim_id q)) qs"
  using map2_ids [of as qs] by (metis (no_types, lifting) list.map_comp comp_apply map_eq_conv)

lemma full_interview_run:
  assumes new: "GuidedOwnerInterview_new p \<lparr>questions = qs\<rparr> = Ok v" and inv: "interview_inv v"
    and len: "length answers = length qs" and ok: "list_all answer_ok answers"
    and version: "PersonaVersion_next (identity_version (identity p)) = Ok n"
  shows "all_ok (fst (run_ops interview_step (full_interview qs answers) v)) \<and>
    profile (final interview_step (full_interview qs answers) v) =
      p\<lparr>identity := apply_version n (identity p), capture_state := Reviewed,
        claims := map approved_record (map2 captured_record qs answers)\<rparr>"
proof -
  from new have v: "v = \<lparr>profile = p, plan = \<lparr>questions = qs\<rparr>, next_question = 0\<rparr>"
      and p: "capture_state p = Draft" "claims p = []"
    by (auto simp: GuidedOwnerInterview_new_def split: if_splits)
  have qs: "qs \<noteq> []" "distinct (map question_claim_id qs)" using inv by (auto simp: v interview_inv_def)
  let ?cs = "map2 captured_record qs answers"
  let ?v1 = "\<lparr>profile = p\<lparr>claims := ?cs\<rparr>, plan = \<lparr>questions = qs\<rparr>, next_question = length qs\<rparr>"
  let ?v2 = "\<lparr>profile = p\<lparr>claims := ?cs, capture_state := Captured\<rparr>, plan = \<lparr>questions = qs\<rparr>, next_question = length qs\<rparr>"
  have 1: "all_ok (fst (run_ops interview_step (map SubmitAnswer answers) v))"
      "final interview_step (map SubmitAnswer answers) v = ?v1"
    using submit_run [OF ok inv] len p by (simp_all add: v)
  have "?cs \<noteq> []" using qs(1) len by (cases qs; cases answers) auto
  then have 2: "interview_step FinishCapture ?v1 = (Ok (), ?v2)"
    using p by (simp add: finish_capture_def on_profile_def mark_capture_complete_def require_state_def
        plan_question_count_def)
  have "list_all (\<lambda>r. \<exists>q a. r = captured_record q a) ?cs" by (auto simp: list_all_iff)
  with approve_run [of ?v2 "[]" ?cs]
  have 3: "all_ok (fst (run_ops interview_step (map (\<lambda>q. ApproveClaim (question_claim_id q)) qs) ?v2))"
      "final interview_step (map (\<lambda>q. ApproveClaim (question_claim_id q)) qs) ?v2 =
        ?v2\<lparr>profile := (profile ?v2)\<lparr>claims := map approved_record ?cs\<rparr>\<rparr>"
    using qs(2) map2_ids [OF len] unfolding approve_events [OF len] by simp_all
  have "list_all is_owner_reviewed (map approved_record ?cs)"
    using approve_captured by (auto simp: list_all_iff)
  then have 4: "interview_step CompleteInitialReview (?v2\<lparr>profile := (profile ?v2)\<lparr>claims := map approved_record ?cs\<rparr>\<rparr>) =
      (Ok (), ?v2\<lparr>profile := p\<lparr>identity := apply_version n (identity p), capture_state := Reviewed,
        claims := map approved_record ?cs\<rparr>\<rparr>)"
    using version by (simp add: complete_initial_review_def on_profile_def approve_initial_review_def require_state_def)
  show ?thesis
    unfolding full_interview_def
    using 1 2 3 4 by (simp add: final_append results_append)
qed

section \<open>Properties\<close>

definition sample_questions :: "InterviewQuestion list" where
  "sample_questions =
     [\<lparr>question_claim_id = ClaimId (lit ''self''), prompt = lit ''Who are you?'', question_kind = Factual\<rparr>,
      \<lparr>question_claim_id = ClaimId (lit ''style''), prompt = lit ''How do you work?'', question_kind = Opinion\<rparr>]"

definition sample_interview :: GuidedOwnerInterview where
  "sample_interview = \<lparr>profile = sample_draft, plan = \<lparr>questions = sample_questions\<rparr>, next_question = 0\<rparr>"

definition sample_answers :: "rust_string list" where
  "sample_answers = [lit ''Ada'', lit ''Fast iterations'']"

lemma sample_interview_new:
  "InterviewPlan_new sample_questions = Ok \<lparr>questions = sample_questions\<rparr>"
  "GuidedOwnerInterview_new sample_draft \<lparr>questions = sample_questions\<rparr> = Ok sample_interview"
  by code_simp+

text \<open>Whatever the owner submits, approves and corrects, in any order and with any failures, the
  interview stays consistent with its plan: the claims in the profile are exactly those of the
  questions answered so far, in plan order, captured material is unverified until the capture is
  finished, capture is finished only when every question has its answer, and the profile invariant
  holds.\<close>

lemma interview_follows_plan:
  assumes "api_profile p" and "InterviewPlan_new qs = Ok pl" and "GuidedOwnerInterview_new p pl = Ok v"
  shows "interview_inv (final interview_step events v)"
  using interview_step_inv interview_new_inv [OF assms(3,1,2)] by (rule run_ops_invariant)

text \<open>C17. The interview can always be brought to its end: for every accepted plan and clean draft whose
  version is not exhausted, non-blank answers of legal length to all questions, the end of capture,
  one approval per question and the completion of the review all succeed; the result is a reviewed
  profile of the next version whose claims are the questions' claims in order, each with the kind of its
  question and the answer as a direct, owner-verified statement of the owner; and the answer to every
  question that asks for an opinion is eligible as a verified owner opinion.\<close>

theorem interview_completes:
  assumes "api_profile p" and "InterviewPlan_new qs = Ok pl" and "GuidedOwnerInterview_new p pl = Ok v"
    and "length answers = length qs" and "list_all answer_ok answers"
    and "PersonaVersion_next (identity_version (identity p)) = Ok n"
  defines "done \<equiv> final interview_step (full_interview qs answers) v"
  shows "all_ok (fst (run_ops interview_step (full_interview qs answers) v)) \<and>
    capture_state (into_profile done) = Reviewed \<and> identity_version (identity (into_profile done)) = n \<and>
    map (\<lambda>r. (record_id r, revision_claim (current r))) (claims (into_profile done)) =
      map2 (\<lambda>q a. (question_claim_id q, \<lparr>statement = a, kind = question_kind q, claim_source = Owner,
        verification = OwnerVerified, derivation = Direct\<rparr>)) qs answers \<and>
    (\<forall>i < length qs. question_kind (qs ! i) = Opinion \<longrightarrow>
       is_ok (VerifiedOwnerOpinion_try_from (revision_claim (current (claims (into_profile done) ! i)))))"
proof -
  have pl: "pl = \<lparr>questions = qs\<rparr>" using assms(2) by (simp add: InterviewPlan_new_Ok_iff)
  note run = full_interview_run [OF assms(3) [unfolded pl] interview_new_inv [OF assms(3,1,2)] assms(4-6)]
  have claim: "record_id (approved_record (captured_record q a)) = question_claim_id q"
      "revision_claim (current (approved_record (captured_record q a))) =
        \<lparr>statement = a, kind = question_kind q, claim_source = Owner, verification = OwnerVerified, derivation = Direct\<rparr>"
    for q a
    using approve_captured [of q a] by (auto simp: approved_record_def captured_record_def)
  have claims: "claims (into_profile done) = map approved_record (map2 captured_record qs answers)"
    using run by (simp add: done_def into_profile_def)
  have "map (\<lambda>r. (record_id r, revision_claim (current r))) (claims (into_profile done)) =
      map2 (\<lambda>q a. (question_claim_id q, \<lparr>statement = a, kind = question_kind q, claim_source = Owner,
        verification = OwnerVerified, derivation = Direct\<rparr>)) qs answers"
    unfolding claims by (simp add: claim case_prod_beta)
  moreover have "is_ok (VerifiedOwnerOpinion_try_from (revision_claim (current (claims (into_profile done) ! i))))"
    if "i < length qs" "question_kind (qs ! i) = Opinion" for i
    using that assms(4) by (simp add: claims claim is_ok_iff try_from_Ok_iff direct_owner_material_def)
  ultimately show ?thesis using run by (auto simp: done_def into_profile_def)
qed

theorem interview_completes_witness:
  "capture_state (into_profile (final interview_step (full_interview sample_questions sample_answers) sample_interview))
     = Reviewed"
proof -
  have "length sample_answers = length sample_questions" "list_all answer_ok sample_answers"
    "PersonaVersion_next (identity_version (identity sample_draft)) = Ok (PersonaVersion 2)"
    by code_simp+
  from interview_completes [OF sample_draft_api sample_interview_new this] show ?thesis by blast
qed

end
