(* ===== verification/VPR_Integration.thy ===== *)
theory VPR_Integration
  imports VPR_Ids
begin

text \<open>
  The provider and transport contracts (\<^verbatim>\<open>crates/vpr-integration/src/lib.rs\<close>, \<^verbatim>\<open>llm.rs\<close>, \<^verbatim>\<open>stt.rs\<close>,
  \<^verbatim>\<open>transport.rs\<close>): the values that cross them, and the sinks that bound what a provider may
  hand over. Providers and transports themselves are parameters of the runtime's operations.

  A sink is an operation that accepts or refuses a chunk. The locale \<open>bounded_sink\<close> states what
  the runtime relies on: accepted chunks are appended in order, refused ones leave no trace, and
  the retained size stays within the limit.
\<close>

section \<open>Provider and transport values\<close>

record ProviderDescriptor =
  descriptor_provider :: rust_string
  descriptor_model :: rust_string
  descriptor_representation :: "rust_string option"

datatype ProviderErrorKind =
    Unavailable | RateLimited | Timeout | Cancelled | InvalidResponse | PolicyDenied
  | AuthenticationDenied | InsufficientCredits

record ProviderError =
  provider_error_kind :: ProviderErrorKind
  provider_retryable :: bool

datatype UsageUnit = Token | TextCharacter | AudioMillisecond

record UsageEvidence =
  input_units :: "u64 option"
  input_unit :: "UsageUnit option"
  output_units :: "u64 option"
  output_unit :: "UsageUnit option"
  estimated_cost_microunits :: "u64 option"
  provider_charge_microunits :: "u64 option"

definition invalid_generated_output :: ProviderError where
  "invalid_generated_output = \<lparr>provider_error_kind = InvalidResponse, provider_retryable = False\<rparr>"

datatype TransportErrorKind = Unavailable | Cancelled | DeliveryUncertain

record TransportError =
  transport_error_kind :: TransportErrorKind
  transport_retryable :: bool

record MediaTimelineStamp =
  stamp_epoch :: u64
  stamp_sequence :: u64
  presentation_time_micros :: u64

datatype PcmSampleFormat = S16Le

record RealtimeTextOutputEvent =
  text_turn_id :: TurnId
  text_correlation_id :: CorrelationId
  text_sequence :: u64
  event_text :: rust_string

record RealtimeAudioOutputEvent =
  audio_session_id :: SessionId
  audio_turn_id :: TurnId
  audio_correlation_id :: CorrelationId
  audio_timeline :: MediaTimelineStamp
  audio_pcm :: "byte list"
  audio_sample_rate_hz :: u32
  audio_channels :: u16
  audio_sample_format :: PcmSampleFormat

record RealtimeVideoOutputEvent =
  video_session_id :: SessionId
  video_turn_id :: TurnId
  video_correlation_id :: CorrelationId
  video_timeline :: MediaTimelineStamp
  video_encoded_frame :: "byte list"

record RealtimeMediaFlushEvent =
  flush_session_id :: SessionId
  flush_turn_id :: TurnId
  flush_correlation_id :: CorrelationId
  flush_epoch :: u64
  through_sequence :: "u64 option"

definition media_unavailable :: TransportError where
  "media_unavailable = \<lparr>transport_error_kind = TransportErrorKind.Unavailable, transport_retryable = False\<rparr>"

section \<open>Audio input and recognition requests\<close>

definition bytes_per_sample :: "PcmSampleFormat \<Rightarrow> nat" where
  "bytes_per_sample f = (case f of S16Le \<Rightarrow> 2)"

definition MAX_GENERATED_AUDIO_BYTES :: nat where
  "MAX_GENERATED_AUDIO_BYTES = 16 * 1024 * 1024"

definition MAX_GENERATED_AUDIO_DURATION_MILLIS :: u64 where
  "MAX_GENERATED_AUDIO_DURATION_MILLIS = 300000"

definition MAX_GENERATED_VIDEO_BYTES :: nat where
  "MAX_GENERATED_VIDEO_BYTES = 32 * 1024 * 1024"

definition MAX_GENERATED_VIDEO_FRAMES :: nat where
  "MAX_GENERATED_VIDEO_FRAMES = 9000"

definition MAX_GENERATED_VIDEO_DURATION_MICROS :: u64 where
  "MAX_GENERATED_VIDEO_DURATION_MICROS = 300000000"

definition MAX_GENERATED_TEXT_BYTES :: nat where
  "MAX_GENERATED_TEXT_BYTES = 256 * 1024"

text \<open>\<open>u64::try_from\<close> of a \<open>usize\<close>.\<close>

definition u64_try_from :: "nat \<Rightarrow> u64 option" where
  "u64_try_from n = (if n < 2 ^ 64 then Some (word_of_nat n) else None)"

record AudioInput =
  input_pcm :: "byte list"
  input_sample_rate_hz :: u32
  input_channels :: u16
  input_sample_format :: PcmSampleFormat

definition audio_is_well_formed :: "AudioInput \<Rightarrow> bool" where
  "audio_is_well_formed self \<longleftrightarrow>
     (let frame_bytes = usize_checked_mul (unat (input_channels self)) (bytes_per_sample (input_sample_format self))
      in input_sample_rate_hz self > 0 \<and> input_channels self > 0 \<and> input_pcm self \<noteq> [] \<and>
         is_some_and (\<lambda>size. size > 0 \<and> length (input_pcm self) mod size = 0) frame_bytes)"

definition audio_duration_millis :: "AudioInput \<Rightarrow> u64 option" where
  "audio_duration_millis self =
     (if \<not> audio_is_well_formed self then None
      else Option.bind (u64_try_from (unat (input_channels self) * bytes_per_sample (input_sample_format self)))
        (\<lambda>frame_bytes. Option.bind (u64_try_from (length (input_pcm self)))
        (\<lambda>pcm_len. Option.bind (checked_mul (pcm_len div frame_bytes) 1000)
        (\<lambda>millis. checked_div millis (ucast (input_sample_rate_hz self))))))"

record SttStreamRequest =
  stt_sample_rate_hz :: u32
  stt_channels :: u16
  stt_sample_format :: PcmSampleFormat
  stt_locale_hint :: "rust_string option"

definition stt_is_well_formed :: "SttStreamRequest \<Rightarrow> bool" where
  "stt_is_well_formed self \<longleftrightarrow>
     stt_sample_rate_hz self > 0 \<and> stt_channels self > 0 \<and>
     is_some_and (\<lambda>frame_bytes. frame_bytes > 0)
       (usize_checked_mul (unat (stt_channels self)) (bytes_per_sample (stt_sample_format self)))"

definition is_well_formed_chunk :: "SttStreamRequest \<Rightarrow> byte list \<Rightarrow> bool" where
  "is_well_formed_chunk self pcm \<longleftrightarrow>
     (if \<not> stt_is_well_formed self \<or> pcm = [] then False
      else is_some_and (\<lambda>frame_bytes. length pcm mod frame_bytes = 0)
        (usize_checked_mul (unat (stt_channels self)) (bytes_per_sample (stt_sample_format self))))"

record Transcript =
  transcript_text :: rust_string
  transcript_locale :: rust_string

datatype SttStreamEvent = Interim Transcript | Final Transcript

fun stt_event_transcript :: "SttStreamEvent \<Rightarrow> Transcript" where
  "stt_event_transcript (Interim t) = t"
| "stt_event_transcript (Final t) = t"

fun stt_event_is_final :: "SttStreamEvent \<Rightarrow> bool" where
  "stt_event_is_final (Interim t) = False"
| "stt_event_is_final (Final t) = True"

section \<open>Generated audio\<close>

record GeneratedAudioBuffer =
  buffer_pcm :: "byte list"
  buffer_sample_rate_hz :: "u32 option"
  buffer_channels :: "u16 option"
  buffer_sample_format :: "PcmSampleFormat option"

definition GeneratedAudioBuffer_default :: GeneratedAudioBuffer where
  "GeneratedAudioBuffer_default = \<lparr>buffer_pcm = [], buffer_sample_rate_hz = None, buffer_channels = None,
     buffer_sample_format = None\<rparr>"

definition buffer_duration_millis :: "GeneratedAudioBuffer \<Rightarrow> u64 option" where
  "buffer_duration_millis self =
     Option.bind (buffer_sample_rate_hz self) (\<lambda>sample_rate_hz.
     Option.bind (buffer_channels self) (\<lambda>channels.
     Option.bind (buffer_sample_format self) (\<lambda>sample_format.
       if buffer_pcm self = [] \<or> sample_rate_hz = 0 \<or> channels = 0 then None
       else Option.bind (checked_mul (ucast channels) (case sample_format of S16Le \<Rightarrow> 2)) (\<lambda>frame_bytes.
            Option.bind (u64_try_from (length (buffer_pcm self))) (\<lambda>pcm_len.
              if pcm_len mod frame_bytes \<noteq> 0 then None
              else Option.bind (checked_mul (pcm_len div frame_bytes) 1000)
                (\<lambda>millis. checked_div millis (ucast sample_rate_hz)))))))"

record audio_chunk =
  chunk_pcm :: "byte list"
  chunk_sample_rate_hz :: u32
  chunk_channels :: u16
  chunk_sample_format :: PcmSampleFormat

text \<open>The length and duration a sink of \<open>retained\<close> bytes would have after a chunk of \<open>pushed\<close> bytes.\<close>

definition prospective :: "nat \<Rightarrow> nat \<Rightarrow> nat \<Rightarrow> u32 \<Rightarrow> (nat \<times> u64) option" where
  "prospective frame_bytes retained pushed sample_rate_hz =
     Option.bind (usize_checked_add retained pushed) (\<lambda>prospective_len.
       map_option (Pair prospective_len)
         (Option.bind (u64_try_from prospective_len) (\<lambda>bytes.
          Option.bind (Option.bind (u64_try_from frame_bytes) (checked_div bytes)) (\<lambda>frames.
          Option.bind (checked_mul frames 1000) (\<lambda>millis.
            checked_div millis (ucast sample_rate_hz))))))"

definition push_generated_audio :: "audio_chunk \<Rightarrow> (GeneratedAudioBuffer, unit, ProviderError) op" where
  "push_generated_audio c self =
     (let same_format =
            is_none_or (\<lambda>value. value = chunk_sample_rate_hz c) (buffer_sample_rate_hz self) \<and>
            is_none_or (\<lambda>value. value = chunk_channels c) (buffer_channels self) \<and>
            is_none_or (\<lambda>value. value = chunk_sample_format c) (buffer_sample_format self);
          frame_bytes = usize_checked_mul (unat (chunk_channels c)) (case chunk_sample_format c of S16Le \<Rightarrow> 2)
      in if chunk_sample_rate_hz c = 0 \<or> chunk_channels c = 0 \<or> chunk_pcm c = [] \<or> \<not> same_format \<or>
            \<not> is_some_and (\<lambda>size. size > 0 \<and> length (chunk_pcm c) mod size = 0) frame_bytes
         then (Err invalid_generated_output, self)
         else (case frame_bytes of
                 None \<Rightarrow> (Err invalid_generated_output, self)
               | Some frame_size \<Rightarrow>
                   (case prospective frame_size (length (buffer_pcm self)) (length (chunk_pcm c)) (chunk_sample_rate_hz c) of
                      None \<Rightarrow> (Err invalid_generated_output, self)
                    | Some (prospective_len, prospective_duration_millis) \<Rightarrow>
                        (if prospective_len > MAX_GENERATED_AUDIO_BYTES \<or>
                            prospective_duration_millis > MAX_GENERATED_AUDIO_DURATION_MILLIS
                         then (Err invalid_generated_output, self)
                         else (Ok (), self\<lparr>buffer_sample_rate_hz := Some (chunk_sample_rate_hz c),
                                           buffer_channels := Some (chunk_channels c),
                                           buffer_sample_format := Some (chunk_sample_format c),
                                           buffer_pcm := buffer_pcm self @ chunk_pcm c\<rparr>)))))"

text \<open>
  The streaming sink forwards each chunk to a callback (a \<open>FnMut\<close>, here an operation on a state
  of its own) and retains only the totals.
\<close>

record 'w GeneratedAudioStreamingSink =
  emit_state :: 'w
  sink_bytes :: nat
  sink_rate :: "u32 option"
  sink_channels :: "u16 option"

type_synonym 'w pcm_receiver = "byte list \<Rightarrow> u32 \<Rightarrow> u16 \<Rightarrow> ('w, unit, ProviderError) op"

definition GeneratedAudioStreamingSink_new :: "'w \<Rightarrow> 'w GeneratedAudioStreamingSink" where
  "GeneratedAudioStreamingSink_new w = \<lparr>emit_state = w, sink_bytes = 0, sink_rate = None, sink_channels = None\<rparr>"

definition stream_generated_audio ::
  "'w pcm_receiver \<Rightarrow> audio_chunk \<Rightarrow> ('w GeneratedAudioStreamingSink, unit, ProviderError) op" where
  "stream_generated_audio emit c self =
     (let frame_bytes = usize_checked_mul (unat (chunk_channels c)) (bytes_per_sample (chunk_sample_format c))
      in if chunk_sample_rate_hz c = 0 \<or> chunk_channels c = 0 \<or> chunk_pcm c = [] \<or>
            is_some_and (\<lambda>rate. rate \<noteq> chunk_sample_rate_hz c) (sink_rate self) \<or>
            is_some_and (\<lambda>value. value \<noteq> chunk_channels c) (sink_channels self) \<or>
            \<not> is_some_and (\<lambda>size. size > 0 \<and> length (chunk_pcm c) mod size = 0) frame_bytes
         then (Err invalid_generated_output, self)
         else (case frame_bytes of
                 None \<Rightarrow> (Err invalid_generated_output, self)
               | Some frame_size \<Rightarrow>
                   (case prospective frame_size (sink_bytes self) (length (chunk_pcm c)) (chunk_sample_rate_hz c) of
                      None \<Rightarrow> (Err invalid_generated_output, self)
                    | Some (prospective_len, duration) \<Rightarrow>
                        (if prospective_len > MAX_GENERATED_AUDIO_BYTES \<or>
                            duration > MAX_GENERATED_AUDIO_DURATION_MILLIS
                         then (Err invalid_generated_output, self)
                         else (case emit (chunk_pcm c) (chunk_sample_rate_hz c) (chunk_channels c) (emit_state self) of
                                 (Err e, w) \<Rightarrow> (Err e, self\<lparr>emit_state := w\<rparr>)
                               | (Ok _, w) \<Rightarrow>
                                   (Ok (), self\<lparr>emit_state := w, sink_bytes := prospective_len,
                                               sink_rate := Some (chunk_sample_rate_hz c),
                                               sink_channels := Some (chunk_channels c)\<rparr>))))))"

section \<open>Generated video\<close>

record GeneratedVideoFrame =
  encoded_frame :: "byte list"
  timestamp_micros :: u64

record GeneratedVideoBuffer =
  frames :: "GeneratedVideoFrame list"
  encoded_bytes :: nat
  first_timestamp_micros :: "u64 option"

definition GeneratedVideoBuffer_default :: GeneratedVideoBuffer where
  "GeneratedVideoBuffer_default = \<lparr>frames = [], encoded_bytes = 0, first_timestamp_micros = None\<rparr>"

definition push_generated_frame :: "GeneratedVideoFrame \<Rightarrow> (GeneratedVideoBuffer, unit, ProviderError) op" where
  "push_generated_frame f self =
     (if encoded_frame f = [] \<or>
         is_some_and (\<lambda>frame. timestamp_micros f < timestamp_micros frame)
           (if frames self = [] then None else Some (last (frames self)))
      then (Err invalid_generated_output, self)
      else (case usize_checked_add (length (frames self)) 1 of
              None \<Rightarrow> (Err invalid_generated_output, self)
            | Some prospective_frames \<Rightarrow>
                (case usize_checked_add (encoded_bytes self) (length (encoded_frame f)) of
                   None \<Rightarrow> (Err invalid_generated_output, self)
                 | Some prospective_bytes \<Rightarrow>
                     (let first = (case first_timestamp_micros self of None \<Rightarrow> timestamp_micros f | Some t \<Rightarrow> t)
                      in case checked_sub (timestamp_micros f) first of
                           None \<Rightarrow> (Err invalid_generated_output, self)
                         | Some duration_micros \<Rightarrow>
                             (if prospective_frames > MAX_GENERATED_VIDEO_FRAMES \<or>
                                 prospective_bytes > MAX_GENERATED_VIDEO_BYTES \<or>
                                 duration_micros > MAX_GENERATED_VIDEO_DURATION_MICROS
                              then (Err invalid_generated_output, self)
                              else (Ok (), self\<lparr>encoded_bytes := prospective_bytes,
                                                first_timestamp_micros := Some first,
                                                frames := frames self @ [f]\<rparr>))))))"

section \<open>Generated text\<close>

definition append_bounded_text :: "rust_string \<Rightarrow> (rust_string, unit, ProviderError) op" where
  "append_bounded_text chunk target =
     (if is_none_or (\<lambda>len. len > MAX_GENERATED_TEXT_BYTES)
           (usize_checked_add (utf8_len target) (utf8_len chunk))
      then (Err invalid_generated_output, target)
      else (Ok (), target @ chunk))"

datatype GeneratedTextBuffer = GeneratedTextBuffer (text_buffer_as_str: rust_string)

definition push_generated_text :: "rust_string \<Rightarrow> (GeneratedTextBuffer, unit, ProviderError) op" where
  "push_generated_text chunk self =
     (case append_bounded_text chunk (text_buffer_as_str self) of (r, t) \<Rightarrow> (r, GeneratedTextBuffer t))"

record TimedGeneratedTextBuffer =
  timed_text :: rust_string
  first_meaningful_elapsed_millis :: "u64 option"

text \<open>\<open>elapsed\<close> is the reading of the monotonic clock since the buffer was started, as milliseconds
  that fit in 64 bits.\<close>

definition push_timed_text ::
  "rust_string \<times> u64 option \<Rightarrow> (TimedGeneratedTextBuffer, unit, ProviderError) op" where
  "push_timed_text = (\<lambda>(chunk, elapsed) self.
     (case append_bounded_text chunk (timed_text self) of
        (Err e, t) \<Rightarrow> (Err e, self\<lparr>timed_text := t\<rparr>)
      | (Ok _, t) \<Rightarrow>
          (let self' = self\<lparr>timed_text := t\<rparr>
           in (Ok (), if first_meaningful_elapsed_millis self' = None \<and> \<not> blank (timed_text self')
                      then self'\<lparr>first_meaningful_elapsed_millis := elapsed\<rparr> else self'))))"

section \<open>The contract of a bounded sink\<close>

locale bounded_sink =
  fixes push :: "'c \<Rightarrow> ('s, unit, ProviderError) op" and contents :: "'s \<Rightarrow> 'd list"
    and piece :: "'c \<Rightarrow> 'd list" and size_of :: "'d list \<Rightarrow> nat" and limit :: nat
    and inv :: "'s \<Rightarrow> bool" and empty :: 's
  assumes empty_contents: "contents empty = []" and empty_inv: "inv empty"
    and push_Ok: "inv s \<Longrightarrow> push c s = (Ok (), s') \<Longrightarrow> contents s' = contents s @ piece c \<and> size_of (contents s') \<le> limit \<and> inv s'"
    and push_Err: "push c s = (Err e, s') \<Longrightarrow> s' = s"
    and size_Nil: "size_of [] = 0"
begin

lemma run_contents:
  assumes "inv s" and "size_of (contents s) \<le> limit"
  shows "contents (final push cs s) = contents s @ concat (map piece (successes (fst (run_ops push cs s))))"
    and "inv (final push cs s)" and "size_of (contents (final push cs s)) \<le> limit"
proof -
  have "contents (final push cs s) = contents s @ concat (map piece (successes (fst (run_ops push cs s)))) \<and>
      inv (final push cs s) \<and> size_of (contents (final push cs s)) \<le> limit"
    using assms
  proof (induction cs arbitrary: s)
    case Nil
    then show ?case by simp
  next
    case (Cons c cs)
    show ?case
    proof (cases "push c s")
      case (Pair r s')
      show ?thesis
      proof (cases r)
        case (Inl e)
        then show ?thesis using Pair Cons.IH [OF Cons.prems] push_Err [of c s e s'] by auto
      next
        case (Inr u)
        then have "contents s' = contents s @ piece c" "size_of (contents s') \<le> limit" "inv s'"
          using Pair Cons.prems push_Ok [of s c s'] by auto
        then show ?thesis using Pair Inr Cons.IH [of s'] by auto
      qed
    qed
  qed
  then show "contents (final push cs s) = contents s @ concat (map piece (successes (fst (run_ops push cs s))))"
    and "inv (final push cs s)" and "size_of (contents (final push cs s)) \<le> limit" by blast+
qed

text \<open>From the empty sink: exactly the accepted chunks, in order, within the limit.\<close>

lemma from_empty:
  "contents (final push cs empty) = concat (map piece (successes (fst (run_ops push cs empty))))"
  "inv (final push cs empty)" "size_of (contents (final push cs empty)) \<le> limit"
  using run_contents [OF empty_inv] empty_contents size_Nil by simp_all

end

section \<open>Audio buffer: bounds\<close>

lemma u64_try_from_SomeD: "u64_try_from n = Some w \<Longrightarrow> unat w = n"
  by (auto simp: u64_try_from_def unat_of_nat split: if_splits)

lemma unat_ucast_u64 [simp]: "unat (ucast (c::u16) :: u64) = unat c" "unat (ucast (r::u32) :: u64) = unat r"
  by (transfer, simp add: take_bit_nat_eq_self)+

lemma frame_bytes_u16: "usize_checked_mul (unat (c::u16)) 2 = Some (unat c * 2)"
proof -
  have "unat c < 2 ^ 16" using unsigned_less [of c] by simp
  then show ?thesis by simp
qed

lemma prospective_SomeD:
  assumes "prospective fb n k rate = Some (len, d)"
  shows "len = n + k" and "len < 2 ^ 64" and "fb \<noteq> 0" and "unat d = len div fb * 1000 div unat rate"
proof -
  from assms obtain bytes fw frames millis where
      len: "usize_checked_add n k = Some len" and b: "u64_try_from len = Some bytes"
      and fw: "u64_try_from fb = Some fw" and fr: "checked_div bytes fw = Some frames"
      and m: "checked_mul frames 1000 = Some millis" and d: "checked_div millis (ucast rate) = Some d"
    by (auto simp: prospective_def bind_eq_Some_conv)
  show "len = n + k" "len < 2 ^ 64" using len by simp_all
  have fb: "unat fw = fb" using fw by (rule u64_try_from_SomeD)
  show "fb \<noteq> 0" using checked_div_SomeD(3) [OF fr] unfolding fb [symmetric] by (simp add: unat_gt_0)
  show "unat d = len div fb * 1000 div unat rate"
    using checked_div_SomeD(2) [OF d] checked_mul_SomeD(2) [OF m] checked_div_SomeD(2) [OF fr]
      u64_try_from_SomeD [OF b] fb by simp
qed

text \<open>What an accepted chunk is, for both audio sinks.\<close>

definition chunk_fits :: "audio_chunk \<Rightarrow> nat \<Rightarrow> bool" where
  "chunk_fits c retained \<longleftrightarrow>
     chunk_sample_rate_hz c \<noteq> 0 \<and> chunk_channels c \<noteq> 0 \<and> chunk_pcm c \<noteq> [] \<and>
     length (chunk_pcm c) mod (unat (chunk_channels c) * 2) = 0 \<and>
     is_some_and (\<lambda>(len, d). len \<le> MAX_GENERATED_AUDIO_BYTES \<and> d \<le> MAX_GENERATED_AUDIO_DURATION_MILLIS)
       (prospective (unat (chunk_channels c) * 2) retained (length (chunk_pcm c)) (chunk_sample_rate_hz c))"

lemma format_split: "(case f of S16Le \<Rightarrow> x) = x"
  by (cases f) simp

lemma push_audio_eq:
  "push_generated_audio c b =
     (if chunk_fits c (length (buffer_pcm b)) \<and>
         is_none_or (\<lambda>v. v = chunk_sample_rate_hz c) (buffer_sample_rate_hz b) \<and>
         is_none_or (\<lambda>v. v = chunk_channels c) (buffer_channels b) \<and>
         is_none_or (\<lambda>v. v = chunk_sample_format c) (buffer_sample_format b)
      then (Ok (), b\<lparr>buffer_sample_rate_hz := Some (chunk_sample_rate_hz c),
                     buffer_channels := Some (chunk_channels c),
                     buffer_sample_format := Some (chunk_sample_format c),
                     buffer_pcm := buffer_pcm b @ chunk_pcm c\<rparr>)
      else (Err invalid_generated_output, b))"
  by (cases "prospective (unat (chunk_channels c) * 2) (length (buffer_pcm b)) (length (chunk_pcm c)) (chunk_sample_rate_hz c)")
    (auto simp: push_generated_audio_def Let_def format_split frame_bytes_u16 chunk_fits_def unat_gt_0 not_le
      simp del: usize_checked_mul_Some_iff split: if_splits)

definition audio_inv :: "GeneratedAudioBuffer \<Rightarrow> bool" where
  [inv_defs]: "audio_inv b \<longleftrightarrow>
     (if buffer_pcm b = []
      then buffer_sample_rate_hz b = None \<and> buffer_channels b = None \<and> buffer_sample_format b = None
      else (\<exists>r c. buffer_sample_rate_hz b = Some r \<and> r \<noteq> 0 \<and> buffer_channels b = Some c \<and> c \<noteq> 0 \<and>
              buffer_sample_format b = Some S16Le \<and> length (buffer_pcm b) mod (unat c * 2) = 0 \<and>
              length (buffer_pcm b) \<le> MAX_GENERATED_AUDIO_BYTES \<and>
              length (buffer_pcm b) div (unat c * 2) * 1000 div unat r \<le> 300000))"

lemma push_audio_inv:
  assumes "audio_inv b" and "push_generated_audio c b = (Ok (), b')"
  shows "audio_inv b' \<and> buffer_pcm b' = buffer_pcm b @ chunk_pcm c \<and> length (buffer_pcm b') \<le> MAX_GENERATED_AUDIO_BYTES"
proof -
  have fits: "chunk_fits c (length (buffer_pcm b))" and b': "b' = b\<lparr>buffer_sample_rate_hz := Some (chunk_sample_rate_hz c),
      buffer_channels := Some (chunk_channels c), buffer_sample_format := Some (chunk_sample_format c),
      buffer_pcm := buffer_pcm b @ chunk_pcm c\<rparr>"
    and same: "is_none_or (\<lambda>v. v = chunk_channels c) (buffer_channels b)"
    using assms(2) by (auto simp: push_audio_eq split: if_splits)
  from fits obtain len d where pro: "prospective (unat (chunk_channels c) * 2) (length (buffer_pcm b))
        (length (chunk_pcm c)) (chunk_sample_rate_hz c) = Some (len, d)"
      and bounds: "len \<le> MAX_GENERATED_AUDIO_BYTES" "d \<le> MAX_GENERATED_AUDIO_DURATION_MILLIS"
    by (auto simp: chunk_fits_def is_some_and_def split: option.splits)
  note p = prospective_SomeD [OF pro]
  have "length (buffer_pcm b) mod (unat (chunk_channels c) * 2) = 0"
    using assms(1) same by (auto simp: audio_inv_def split: if_splits)
  then have "(length (buffer_pcm b) + length (chunk_pcm c)) mod (unat (chunk_channels c) * 2) = 0"
    using fits by (simp add: chunk_fits_def mod_add_eq [symmetric] del: mod_add_eq)
  moreover have "unat d \<le> 300000"
    using bounds(2) by (simp add: MAX_GENERATED_AUDIO_DURATION_MILLIS_def word_le_nat_alt)
  moreover have "chunk_sample_format c = S16Le" by (cases "chunk_sample_format c") simp
  ultimately show ?thesis
    using fits p bounds(1) by (simp add: b' audio_inv_def chunk_fits_def)
qed

interpretation audio_buffer: bounded_sink push_generated_audio buffer_pcm chunk_pcm length MAX_GENERATED_AUDIO_BYTES
  audio_inv GeneratedAudioBuffer_default
proof unfold_locales
  fix s c s' assume "audio_inv s" "push_generated_audio c s = (Ok (), s')"
  then show "buffer_pcm s' = buffer_pcm s @ chunk_pcm c \<and> length (buffer_pcm s') \<le> MAX_GENERATED_AUDIO_BYTES \<and> audio_inv s'"
    using push_audio_inv by blast
qed (auto simp: GeneratedAudioBuffer_default_def audio_inv_def push_audio_eq split: if_splits)

text \<open>The duration of whole frames, in units of \<open>1/k\<close> second, is exact and does not overflow.\<close>

lemma pcm_scaled_duration:
  fixes r :: u32 and c :: u16 and k :: u64
  assumes "r \<noteq> 0" and "c \<noteq> 0" and "n mod (unat c * 2) = 0" and "n \<le> MAX_GENERATED_AUDIO_BYTES"
    and "unat k \<le> 1000000"
  obtains m d where "checked_mul (ucast c :: u64) 2 = Some (ucast c * 2)" "u64_try_from n = Some (word_of_nat n)"
    "(word_of_nat n :: u64) mod (ucast c * 2) = 0"
    "checked_mul (word_of_nat n div (ucast c * 2) :: u64) k = Some m" "checked_div m (ucast r) = Some d"
    "unat d = n div (unat c * 2) * unat k div unat r"
proof -
  have n: "n \<le> 16777216" using assms(4) by (simp add: MAX_GENERATED_AUDIO_BYTES_def)
  have c16: "unat c < 2 ^ 16" using unsigned_less [of c] by simp
  have uc: "unat (ucast c :: u64) = unat c" "unat (ucast r :: u64) = unat r"
    by simp_all
  have fb: "checked_mul (ucast c :: u64) 2 = Some (ucast c * 2)" and ufb: "unat (ucast c * 2 :: u64) = unat c * 2"
    using c16 by (simp_all add: checked_mul_def uc unat_word_ariths)
  have len: "u64_try_from n = Some (word_of_nat n)" and ulen: "unat (word_of_nat n :: u64) = n"
    using n by (simp_all add: u64_try_from_def unat_of_nat)
  have "unat (word_of_nat n mod (ucast c * 2) :: u64) = 0" using assms(3) by (simp only: unat_mod ulen ufb)
  then have mod: "(word_of_nat n mod (ucast c * 2) :: u64) = 0" by (simp only: unat_eq_0)
  have q: "unat (word_of_nat n div (ucast c * 2) :: u64) = n div (unat c * 2)" by (simp only: unat_div ulen ufb)
  have "n div (unat c * 2) * unat k \<le> 16777216 * 1000000"
    using assms(5) by (intro mult_mono order_trans [OF div_le_dividend n]) simp_all
  then obtain m where m: "checked_mul (word_of_nat n div (ucast c * 2) :: u64) k = Some m"
    by (simp add: checked_mul_def q)
  have um: "unat m = n div (unat c * 2) * unat k" using checked_mul_SomeD(2) [OF m] q by simp
  have r0: "(ucast r :: u64) \<noteq> 0" using assms(1) uc(2) by (metis unat_0 unat_eq_0)
  have "checked_div m (ucast r) = Some (m div ucast r)" using r0 by (simp add: checked_div_def)
  moreover have "unat (m div ucast r) = n div (unat c * 2) * unat k div unat r" by (simp only: unat_div um uc)
  ultimately show thesis by (rule that [OF fb len mod m])
qed

lemma buffer_duration_bounded:
  assumes "audio_inv b" and "buffer_pcm b \<noteq> []"
  shows "\<exists>d. buffer_duration_millis b = Some d \<and> d \<le> MAX_GENERATED_AUDIO_DURATION_MILLIS"
proof -
  from assms obtain r c where b: "buffer_sample_rate_hz b = Some r" "r \<noteq> 0" "buffer_channels b = Some c" "c \<noteq> 0"
      "buffer_sample_format b = Some S16Le" "length (buffer_pcm b) mod (unat c * 2) = 0"
      "length (buffer_pcm b) \<le> MAX_GENERATED_AUDIO_BYTES"
      "length (buffer_pcm b) div (unat c * 2) * 1000 div unat r \<le> 300000"
    by (auto simp: audio_inv_def)
  obtain m d where d: "checked_mul (ucast c :: u64) 2 = Some (ucast c * 2)"
      "u64_try_from (length (buffer_pcm b)) = Some (word_of_nat (length (buffer_pcm b)))"
      "(word_of_nat (length (buffer_pcm b)) :: u64) mod (ucast c * 2) = 0"
      "checked_mul (word_of_nat (length (buffer_pcm b)) div (ucast c * 2) :: u64) 1000 = Some m"
      "checked_div m (ucast r) = Some d" "unat d = length (buffer_pcm b) div (unat c * 2) * unat (1000 :: u64) div unat r"
    by (rule pcm_scaled_duration [OF b(2,4,6,7), of 1000]) simp_all
  have "unat d \<le> 300000" using b(8) d(6) by simp
  then have "d \<le> MAX_GENERATED_AUDIO_DURATION_MILLIS"
    by (simp add: MAX_GENERATED_AUDIO_DURATION_MILLIS_def word_le_nat_alt)
  then show ?thesis
    using b assms(2) d(1-5) by (simp add: buffer_duration_millis_def)
qed

section \<open>The streaming sink and the buffer\<close>

text \<open>A receiver that keeps what it is given.\<close>

definition collecting :: "(byte list) pcm_receiver" where
  "collecting pcm rate channels w = (Ok (), w @ pcm)"

definition stream_abs :: "byte list GeneratedAudioStreamingSink \<Rightarrow> GeneratedAudioBuffer" where
  "stream_abs k = \<lparr>buffer_pcm = emit_state k, buffer_sample_rate_hz = sink_rate k, buffer_channels = sink_channels k,
     buffer_sample_format = map_option (\<lambda>_. S16Le) (sink_rate k)\<rparr>"

lemma stream_audio_eq:
  "stream_generated_audio emit c k =
     (if chunk_fits c (sink_bytes k) \<and> is_none_or (\<lambda>v. v = chunk_sample_rate_hz c) (sink_rate k) \<and>
         is_none_or (\<lambda>v. v = chunk_channels c) (sink_channels k)
      then (case emit (chunk_pcm c) (chunk_sample_rate_hz c) (chunk_channels c) (emit_state k) of
              (Err e, w) \<Rightarrow> (Err e, k\<lparr>emit_state := w\<rparr>)
            | (Ok _, w) \<Rightarrow> (Ok (), k\<lparr>emit_state := w, sink_bytes := sink_bytes k + length (chunk_pcm c),
                sink_rate := Some (chunk_sample_rate_hz c), sink_channels := Some (chunk_channels c)\<rparr>))
      else (Err invalid_generated_output, k))"
  by (cases "prospective (unat (chunk_channels c) * 2) (sink_bytes k) (length (chunk_pcm c)) (chunk_sample_rate_hz c)";
      cases "sink_rate k"; cases "sink_channels k")
    (auto simp: stream_generated_audio_def Let_def bytes_per_sample_def format_split frame_bytes_u16 chunk_fits_def
      unat_gt_0 not_le simp del: usize_checked_mul_Some_iff split: if_splits dest: prospective_SomeD(1))

lemma stream_simulates_buffer:
  assumes "sink_bytes k = length (emit_state k)"
  shows "fst (stream_generated_audio collecting c k) = fst (push_generated_audio c (stream_abs k)) \<and>
    stream_abs (snd (stream_generated_audio collecting c k)) = snd (push_generated_audio c (stream_abs k)) \<and>
    sink_bytes (snd (stream_generated_audio collecting c k)) =
      length (emit_state (snd (stream_generated_audio collecting c k)))"
proof -
  have fmt: "chunk_sample_format c = S16Le" by (cases "chunk_sample_format c") simp
  let ?ok = "chunk_fits c (length (emit_state k)) \<and> is_none_or (\<lambda>v. v = chunk_sample_rate_hz c) (sink_rate k) \<and>
      is_none_or (\<lambda>v. v = chunk_channels c) (sink_channels k)"
  have buf: "push_generated_audio c (stream_abs k) =
      (if ?ok then (Ok (), \<lparr>buffer_pcm = emit_state k @ chunk_pcm c,
         buffer_sample_rate_hz = Some (chunk_sample_rate_hz c), buffer_channels = Some (chunk_channels c),
         buffer_sample_format = Some S16Le\<rparr>) else (Err invalid_generated_output, stream_abs k))"
    unfolding push_audio_eq stream_abs_def fmt by (cases "sink_rate k") simp_all
  show ?thesis
    unfolding buf stream_audio_eq assms by (cases ?ok) (simp_all add: collecting_def stream_abs_def assms)
qed

lemma stream_run_simulates:
  assumes "sink_bytes k = length (emit_state k)"
  shows "map snd (fst (run_ops (stream_generated_audio collecting) cs k)) =
           map snd (fst (run_ops push_generated_audio cs (stream_abs k)))"
    and "stream_abs (final (stream_generated_audio collecting) cs k) = final push_generated_audio cs (stream_abs k)"
  using assms
  by (induction cs arbitrary: k) (simp_all add: stream_simulates_buffer)

section \<open>Video and text\<close>

definition video_inv :: "GeneratedVideoBuffer \<Rightarrow> bool" where
  [inv_defs]: "video_inv b \<longleftrightarrow>
     encoded_bytes b = sum_list (map (length \<circ> encoded_frame) (frames b)) \<and>
     length (frames b) \<le> MAX_GENERATED_VIDEO_FRAMES \<and> encoded_bytes b \<le> MAX_GENERATED_VIDEO_BYTES \<and>
     list_all (\<lambda>f. encoded_frame f \<noteq> []) (frames b) \<and> sorted (map timestamp_micros (frames b)) \<and>
     first_timestamp_micros b = (if frames b = [] then None else Some (timestamp_micros (hd (frames b)))) \<and>
     (frames b \<noteq> [] \<longrightarrow>
        timestamp_micros (last (frames b)) - timestamp_micros (hd (frames b)) \<le> MAX_GENERATED_VIDEO_DURATION_MICROS)"

lemma push_frame_OkD:
  assumes "push_generated_frame f b = (Ok (), b')"
  defines "first \<equiv> (case first_timestamp_micros b of None \<Rightarrow> timestamp_micros f | Some t \<Rightarrow> t)"
  shows "encoded_frame f \<noteq> []" "frames b \<noteq> [] \<Longrightarrow> timestamp_micros (last (frames b)) \<le> timestamp_micros f"
    "Suc (length (frames b)) \<le> MAX_GENERATED_VIDEO_FRAMES"
    "encoded_bytes b + length (encoded_frame f) \<le> MAX_GENERATED_VIDEO_BYTES"
    "first \<le> timestamp_micros f" "timestamp_micros f - first \<le> MAX_GENERATED_VIDEO_DURATION_MICROS"
    "b' = b\<lparr>encoded_bytes := encoded_bytes b + length (encoded_frame f), first_timestamp_micros := Some first,
           frames := frames b @ [f]\<rparr>"
  using assms
  by (auto simp: push_generated_frame_def Let_def not_less not_le checked_sub_def
      split: if_splits option.splits)

lemma push_frame_inv:
  assumes inv: "video_inv b" and ok: "push_generated_frame f b = (Ok (), b')"
  shows "video_inv b'"
proof (cases "frames b")
  case Nil
  then show ?thesis using inv push_frame_OkD [OF ok] by (simp add: video_inv_def)
next
  case (Cons g gs)
  then have "frames b \<noteq> []" by simp
  have first: "(case first_timestamp_micros b of None \<Rightarrow> timestamp_micros f | Some t \<Rightarrow> t) = timestamp_micros g"
    using inv Cons by (simp add: video_inv_def)
  have "\<forall>h \<in> set (frames b). timestamp_micros h \<le> timestamp_micros f"
  proof
    fix h assume "h \<in> set (frames b)"
    then obtain i where i: "i < length (frames b)" "h = frames b ! i" by (auto simp: in_set_conv_nth)
    have "map timestamp_micros (frames b) ! i \<le> map timestamp_micros (frames b) ! (length (frames b) - 1)"
      using inv i by (intro sorted_nth_mono) (auto simp: video_inv_def)
    then have "timestamp_micros h \<le> timestamp_micros (last (frames b))"
      using i \<open>frames b \<noteq> []\<close> by (simp add: last_conv_nth)
    also have "\<dots> \<le> timestamp_micros f" using push_frame_OkD(2) [OF ok] Cons by simp
    finally show "timestamp_micros h \<le> timestamp_micros f" .
  qed
  then have "sorted (map timestamp_micros (frames b @ [f]))"
    using inv by (simp add: sorted_append video_inv_def)
  then show ?thesis
    using inv Cons push_frame_OkD(1,3,4,6,7) [OF ok] unfolding first by (simp add: video_inv_def)
qed

interpretation video_buffer: bounded_sink push_generated_frame frames "\<lambda>f. [f]" length MAX_GENERATED_VIDEO_FRAMES
  video_inv GeneratedVideoBuffer_default
proof unfold_locales
  fix s c s' assume "video_inv s" "push_generated_frame c s = (Ok (), s')"
  then show "frames s' = frames s @ [c] \<and> length (frames s') \<le> MAX_GENERATED_VIDEO_FRAMES \<and> video_inv s'"
    using push_frame_inv [of s c s'] push_frame_OkD [of c s s'] by simp
next
  fix c s e s' assume "push_generated_frame c s = (Err e, s')"
  then show "s' = s"
    by (auto simp: push_generated_frame_def Let_def split: if_splits option.splits)
qed (simp_all add: GeneratedVideoBuffer_default_def video_inv_def MAX_GENERATED_VIDEO_FRAMES_def
      MAX_GENERATED_VIDEO_BYTES_def)

lemma append_bounded_Ok_iff:
  "append_bounded_text chunk t = (Ok (), t') \<longleftrightarrow>
     utf8_len (t @ chunk) \<le> MAX_GENERATED_TEXT_BYTES \<and> t' = t @ chunk"
  by (cases "usize_checked_add (utf8_len t) (utf8_len chunk)")
    (auto simp: append_bounded_text_def usize_checked_add_def MAX_GENERATED_TEXT_BYTES_def split: if_splits)

lemma append_bounded_Err: "append_bounded_text chunk t = (Err e, t') \<Longrightarrow> t' = t"
  by (auto simp: append_bounded_text_def split: if_splits)

interpretation text_buffer: bounded_sink push_generated_text text_buffer_as_str id utf8_len MAX_GENERATED_TEXT_BYTES
  "\<lambda>_. True" "GeneratedTextBuffer []"
  by unfold_locales
    (auto simp: push_generated_text_def append_bounded_Ok_iff utf8_len_def [of "[]"] split: prod.splits
      dest: append_bounded_Err intro: GeneratedTextBuffer.expand)

text \<open>The timed buffer stamps the first moment its text was not blank, and never moves the stamp.\<close>

interpretation timed_text_buffer: bounded_sink push_timed_text timed_text fst utf8_len MAX_GENERATED_TEXT_BYTES
  "\<lambda>b. first_meaningful_elapsed_millis b \<noteq> None \<longrightarrow> \<not> blank (timed_text b)"
  "\<lparr>timed_text = [], first_meaningful_elapsed_millis = None\<rparr>"
proof unfold_locales
  fix s :: TimedGeneratedTextBuffer and c s'
  assume "first_meaningful_elapsed_millis s \<noteq> None \<longrightarrow> \<not> blank (timed_text s)" "push_timed_text c s = (Ok (), s')"
  then show "timed_text s' = timed_text s @ fst c \<and> utf8_len (timed_text s') \<le> MAX_GENERATED_TEXT_BYTES \<and>
      (first_meaningful_elapsed_millis s' \<noteq> None \<longrightarrow> \<not> blank (timed_text s'))"
    by (auto simp: push_timed_text_def append_bounded_Ok_iff blank_iff Let_def
        split: prod.splits sum.splits if_splits)
next
  fix c s e s' assume "push_timed_text c s = (Err e, s')"
  then show "s' = s"
    by (auto simp: push_timed_text_def Let_def split: prod.splits sum.splits dest: append_bounded_Err)
qed (simp_all add: utf8_len_def)

section \<open>Properties\<close>

text \<open>Whatever a speech provider pushes, in whatever formats, the generated audio buffer holds
  exactly the accepted chunks in order, at most 16 MiB of them, in one format, frame-aligned, and its
  duration is defined and at most five minutes as soon as it holds anything; refused chunks leave
  no trace.\<close>

lemma generated_audio_bounded:
  "let b = final push_generated_audio cs GeneratedAudioBuffer_default in
     buffer_pcm b = concat (map chunk_pcm (successes (fst (run_ops push_generated_audio cs GeneratedAudioBuffer_default)))) \<and>
     length (buffer_pcm b) \<le> MAX_GENERATED_AUDIO_BYTES \<and>
     (buffer_pcm b = [] \<or>
      is_some_and (\<lambda>d. d \<le> MAX_GENERATED_AUDIO_DURATION_MILLIS) (buffer_duration_millis b))"
proof -
  let ?b = "final push_generated_audio cs GeneratedAudioBuffer_default"
  have "buffer_pcm ?b = [] \<or> is_some_and (\<lambda>d. d \<le> MAX_GENERATED_AUDIO_DURATION_MILLIS) (buffer_duration_millis ?b)"
    using buffer_duration_bounded [OF audio_buffer.from_empty(2) [of cs]] by (cases "buffer_pcm ?b = []") auto
  then show ?thesis using audio_buffer.from_empty(1,3) [of cs] unfolding Let_def by blast
qed

text \<open>Streaming is as strict as buffering: a streaming sink whose receiver accepts everything takes
  and refuses exactly the chunks that the in-memory buffer takes and refuses, for every sequence of
  chunks, and what it forwards is what the buffer would hold.\<close>

lemma streaming_equals_buffering:
  "map snd (fst (run_ops (stream_generated_audio collecting) cs (GeneratedAudioStreamingSink_new []))) =
     map snd (fst (run_ops push_generated_audio cs GeneratedAudioBuffer_default)) \<and>
   emit_state (final (stream_generated_audio collecting) cs (GeneratedAudioStreamingSink_new [])) =
     buffer_pcm (final push_generated_audio cs GeneratedAudioBuffer_default) \<and>
   sink_bytes (final (stream_generated_audio collecting) cs (GeneratedAudioStreamingSink_new [])) \<le> MAX_GENERATED_AUDIO_BYTES"
proof -
  let ?k = "GeneratedAudioStreamingSink_new [] :: byte list GeneratedAudioStreamingSink"
  have start: "sink_bytes ?k = length (emit_state ?k)" "stream_abs ?k = GeneratedAudioBuffer_default"
    by (simp_all add: GeneratedAudioStreamingSink_new_def stream_abs_def GeneratedAudioBuffer_default_def)
  note run = stream_run_simulates [OF start(1), of cs, unfolded start(2)]
  have "emit_state (final (stream_generated_audio collecting) cs ?k) =
      buffer_pcm (final push_generated_audio cs GeneratedAudioBuffer_default)"
    by (simp flip: run(2) add: stream_abs_def)
  moreover have "sink_bytes (final (stream_generated_audio collecting) cs ?k) =
      length (emit_state (final (stream_generated_audio collecting) cs ?k))"
    using start(1) stream_simulates_buffer
    by (intro run_ops_invariant [where I = "\<lambda>k. sink_bytes k = length (emit_state k)"]) blast+
  ultimately show ?thesis using run(1) audio_buffer.from_empty(3) [of cs] by simp
qed

text \<open>Whatever an avatar provider pushes, the video buffer holds exactly the accepted frames in
  order: at most 9000 frames, at most 32 MiB in total (the running total is the true sum), none of them
  empty, with timestamps that never decrease and span at most five minutes.\<close>

lemma generated_video_bounded:
  "let b = final push_generated_frame fs GeneratedVideoBuffer_default in
     frames b = successes (fst (run_ops push_generated_frame fs GeneratedVideoBuffer_default)) \<and> video_inv b"
  using video_buffer.from_empty [of fs] by (simp add: Let_def concat_map_singleton)

end
