(* ===== verification/VPR_Timeline.thy ===== *)
theory VPR_Timeline
  imports VPR_Integration
begin

text \<open>
  The session media timeline (\<^verbatim>\<open>crates/vpr-runtime/src/media_timeline.rs\<close>): one sequence and one
  presentation clock per session, shared by all its turns behind a mutex, and the per-turn cursors
  that map provider time to it.

  Every method of the timeline locks the mutex once, so each is one step on \<open>MediaTimelineState\<close>. A
  method of a turn's media state works on the pair of that state and the timeline. The first packet of
  a turn takes the lock twice, to open the turn's origin and to take the stamp; a session may
  therefore also open the origin of a turn as a step of its own, after which the packet takes the lock
  only for its stamp, so that other turns and rebases may come in between.
\<close>

section \<open>Data\<close>

record MediaTimelineState =
  timeline_epoch :: u64
  next_sequence :: u64
  epoch_floor_micros :: u64
  last_presentation_micros :: "u64 option"

record MediaTurnOrigin =
  origin_epoch :: u64
  origin_micros :: u64

datatype MediaTimelineError = StaleEpoch | TimestampRegression | Overflow

record TurnMediaState =
  bound_epoch :: u64
  media_origin :: "MediaTurnOrigin option"
  audio_cursor_micros :: u64
  video_source_base_micros :: "u64 option"
  last_video_source_micros :: "u64 option"
  last_sequence :: "u64 option"

section \<open>The timeline\<close>

definition MediaTimelineState_new :: MediaTimelineState where
  "MediaTimelineState_new = \<lparr>timeline_epoch = 1, next_sequence = 1, epoch_floor_micros = 0,
     last_presentation_micros = None\<rparr>"

definition open_turn_origin :: "u64 \<Rightarrow> MediaTimelineState \<Rightarrow> MediaTimelineError + MediaTurnOrigin" where
  "open_turn_origin now_millis state =
     (case checked_mul now_millis 1000 of
        None \<Rightarrow> Err Overflow
      | Some now_micros \<Rightarrow>
          Ok \<lparr>origin_epoch = timeline_epoch state, origin_micros = max now_micros (epoch_floor_micros state)\<rparr>)"

definition stamp :: "MediaTurnOrigin \<Rightarrow> u64 \<Rightarrow> (MediaTimelineState, MediaTimelineStamp, MediaTimelineError) op" where
  "stamp origin relative_micros state =
     (if origin_epoch origin \<noteq> timeline_epoch state then (Err StaleEpoch, state)
      else (case checked_add (origin_micros origin) relative_micros of
              None \<Rightarrow> (Err Overflow, state)
            | Some presentation \<Rightarrow>
                (if is_some_and (\<lambda>last. presentation < last) (last_presentation_micros state)
                 then (Err TimestampRegression, state)
                 else (case checked_add (next_sequence state) 1 of
                         None \<Rightarrow> (Err Overflow, state)
                       | Some following \<Rightarrow>
                           (Ok \<lparr>stamp_epoch = timeline_epoch state, stamp_sequence = next_sequence state,
                               presentation_time_micros = presentation\<rparr>,
                            state\<lparr>next_sequence := following, last_presentation_micros := Some presentation\<rparr>)))))"

definition rebase :: "u64 \<Rightarrow> (MediaTimelineState, u64, MediaTimelineError) op" where
  "rebase now_millis state =
     (case checked_mul now_millis 1000 of
        None \<Rightarrow> (Err Overflow, state)
      | Some now_micros \<Rightarrow>
          (case checked_add (timeline_epoch state) 1 of
             None \<Rightarrow> (Err Overflow, state)
           | Some epoch \<Rightarrow>
               (let after_last =
                  (case Option.bind (last_presentation_micros state) (\<lambda>last. checked_add last 1) of
                     None \<Rightarrow> 0 | Some m \<Rightarrow> m)
                in (Ok epoch, state\<lparr>timeline_epoch := epoch, epoch_floor_micros := max now_micros after_last\<rparr>))))"

section \<open>Turns on the timeline\<close>

definition TurnMediaState_new :: "u64 \<Rightarrow> TurnMediaState" where
  "TurnMediaState_new epoch = \<lparr>bound_epoch = epoch, media_origin = None, audio_cursor_micros = 0,
     video_source_base_micros = None, last_video_source_micros = None, last_sequence = None\<rparr>"

definition turn_origin :: "MediaTimelineState \<Rightarrow> u64 \<Rightarrow> (TurnMediaState, MediaTurnOrigin, MediaTimelineError) op" where
  "turn_origin timeline now_millis self =
     (case media_origin self of
        Some origin \<Rightarrow> (Ok origin, self)
      | None \<Rightarrow>
          (case open_turn_origin now_millis timeline of
             Err e \<Rightarrow> (Err e, self)
           | Ok origin \<Rightarrow>
               (if origin_epoch origin \<noteq> bound_epoch self then (Err StaleEpoch, self)
                else (Ok origin, self\<lparr>media_origin := Some origin\<rparr>))))"

type_synonym media_state = "TurnMediaState \<times> MediaTimelineState"

definition next_audio_stamp :: "u64 \<Rightarrow> u64 \<Rightarrow> (media_state, MediaTimelineStamp, MediaTimelineError) op" where
  "next_audio_stamp now_millis duration_micros = (\<lambda>(self, timeline).
     (case turn_origin timeline now_millis self of
        (Err e, self) \<Rightarrow> (Err e, (self, timeline))
      | (Ok origin, self) \<Rightarrow>
          (case stamp origin (audio_cursor_micros self) timeline of
             (Err e, timeline) \<Rightarrow> (Err e, (self, timeline))
           | (Ok st, timeline) \<Rightarrow>
               (case checked_add (audio_cursor_micros self) duration_micros of
                  None \<Rightarrow> (Err Overflow, (self, timeline))
                | Some cursor \<Rightarrow>
                    (Ok st, (self\<lparr>audio_cursor_micros := cursor, last_sequence := Some (stamp_sequence st)\<rparr>,
                             timeline))))))"

definition next_video_stamp :: "u64 \<Rightarrow> u64 \<Rightarrow> (media_state, MediaTimelineStamp, MediaTimelineError) op" where
  "next_video_stamp now_millis source_timestamp_micros = (\<lambda>(self, timeline).
     (if is_some_and (\<lambda>last. source_timestamp_micros < last) (last_video_source_micros self)
      then (Err TimestampRegression, (self, timeline))
      else (case turn_origin timeline now_millis self of
              (Err e, self) \<Rightarrow> (Err e, (self, timeline))
            | (Ok origin, self) \<Rightarrow>
                (let base = (case video_source_base_micros self of None \<Rightarrow> source_timestamp_micros | Some b \<Rightarrow> b)
                 in case checked_sub source_timestamp_micros base of
                      None \<Rightarrow> (Err TimestampRegression, (self, timeline))
                    | Some relative_micros \<Rightarrow>
                        (case stamp origin relative_micros timeline of
                           (Err e, timeline) \<Rightarrow> (Err e, (self, timeline))
                         | (Ok st, timeline) \<Rightarrow>
                             (Ok st, (self\<lparr>video_source_base_micros := Some base,
                                          last_video_source_micros := Some source_timestamp_micros,
                                          last_sequence := Some (stamp_sequence st)\<rparr>, timeline)))))))"

definition flush_context :: "TurnMediaState \<Rightarrow> u64 \<times> u64 option" where
  "flush_context self =
     ((case media_origin self of None \<Rightarrow> bound_epoch self | Some origin \<Rightarrow> origin_epoch origin),
      last_sequence self)"

section \<open>A session's media\<close>

record media_world =
  world_timeline :: MediaTimelineState
  world_turns :: "TurnMediaState list"

datatype media_event =
    OpenTurn
  | OpenOrigin nat u64
  | AudioPacket nat u64 u64
  | VideoFrame nat u64 u64
  | RebaseTimeline u64

text \<open>A call on the turn with index \<open>i\<close>; other turns share the timeline only.\<close>

definition on_turn ::
  "nat \<Rightarrow> (media_state, MediaTimelineStamp, MediaTimelineError) op
     \<Rightarrow> (media_world, MediaTimelineStamp option, MediaTimelineError) op" where
  "on_turn i f w =
     (if i < length (world_turns w) then
        (case f (world_turns w ! i, world_timeline w) of
           (r, (t, tml)) \<Rightarrow>
             ((case r of Err e \<Rightarrow> Err e | Ok st \<Rightarrow> Ok (Some st)),
              w\<lparr>world_turns := (world_turns w)[i := t], world_timeline := tml\<rparr>))
      else (Ok None, w))"

fun media_step :: "media_event \<Rightarrow> (media_world, MediaTimelineStamp option, MediaTimelineError) op" where
  "media_step OpenTurn w =
     (Ok None, w\<lparr>world_turns := world_turns w @ [TurnMediaState_new (timeline_epoch (world_timeline w))]\<rparr>)"
| "media_step (OpenOrigin i now) w =
     (if i < length (world_turns w) then
        (case turn_origin (world_timeline w) now (world_turns w ! i) of
           (r, t) \<Rightarrow> ((case r of Err e \<Rightarrow> Err e | Ok _ \<Rightarrow> Ok None), w\<lparr>world_turns := (world_turns w)[i := t]\<rparr>))
      else (Ok None, w))"
| "media_step (AudioPacket i now duration) w = on_turn i (next_audio_stamp now duration) w"
| "media_step (VideoFrame i now source) w = on_turn i (next_video_stamp now source) w"
| "media_step (RebaseTimeline now) w =
     (case rebase now (world_timeline w) of
        (r, tml) \<Rightarrow> ((case r of Err e \<Rightarrow> Err e | Ok _ \<Rightarrow> Ok None), w\<lparr>world_timeline := tml\<rparr>))"

definition stamps_of :: "(media_event \<times> (MediaTimelineError + MediaTimelineStamp option)) list \<Rightarrow> MediaTimelineStamp list" where
  "stamps_of rs = List.map_filter (\<lambda>(_, r). case r of Ok (Some st) \<Rightarrow> Some st | _ \<Rightarrow> None) rs"

definition media_start :: media_world where
  "media_start = \<lparr>world_timeline = MediaTimelineState_new, world_turns = []\<rparr>"

section \<open>Order of stamps\<close>

definition later :: "MediaTimelineStamp \<Rightarrow> MediaTimelineStamp \<Rightarrow> bool" where
  "later a b \<longleftrightarrow>
     stamp_sequence a < stamp_sequence b \<and> stamp_epoch a \<le> stamp_epoch b \<and>
     presentation_time_micros a \<le> presentation_time_micros b \<and>
     (stamp_epoch a < stamp_epoch b \<longrightarrow>
        presentation_time_micros a < presentation_time_micros b \<or> presentation_time_micros a = - 1)"

text \<open>A stamp the timeline has given out: everything it gives out next is later.\<close>

definition given_out :: "MediaTimelineState \<Rightarrow> MediaTimelineStamp \<Rightarrow> bool" where
  "given_out tml a \<longleftrightarrow>
     stamp_sequence a < next_sequence tml \<and> stamp_epoch a \<le> timeline_epoch tml \<and>
     (\<exists>p. last_presentation_micros tml = Some p \<and> presentation_time_micros a \<le> p \<and>
        (stamp_epoch a < timeline_epoch tml \<longrightarrow> presentation_time_micros a < epoch_floor_micros tml \<or> p = - 1))"

lemma stamp_Ok_iff:
  "stamp o' rel tml = (Ok st, tml') \<longleftrightarrow>
     origin_epoch o' = timeline_epoch tml \<and>
     (\<exists>p n. checked_add (origin_micros o') rel = Some p \<and> checked_add (next_sequence tml) 1 = Some n \<and>
        is_none_or (\<lambda>last. last \<le> p) (last_presentation_micros tml) \<and>
        st = \<lparr>stamp_epoch = timeline_epoch tml, stamp_sequence = next_sequence tml, presentation_time_micros = p\<rparr> \<and>
        tml' = tml\<lparr>next_sequence := n, last_presentation_micros := Some p\<rparr>)"
  by (cases "last_presentation_micros tml") (auto simp: stamp_def not_less split: if_splits option.splits)

lemma stamp_Err: "stamp o' rel tml = (Err e, tml') \<Longrightarrow> tml' = tml"
  by (auto simp: stamp_def split: if_splits option.splits)

lemma max_word_ge: "(x::'w::len word) \<le> - 1"
  by simp

lemma stamp_later:
  assumes "stamp o' rel tml = (Ok st, tml')" and "origin_micros o' \<ge> epoch_floor_micros tml"
  shows "given_out tml' st" and "given_out tml a \<Longrightarrow> later a st" and "given_out tml a \<Longrightarrow> given_out tml' a"
proof -
  from assms(1) obtain p n where ep: "origin_epoch o' = timeline_epoch tml"
      and p: "checked_add (origin_micros o') rel = Some p" and n: "checked_add (next_sequence tml) 1 = Some n"
      and mono: "is_none_or (\<lambda>last. last \<le> p) (last_presentation_micros tml)"
      and st: "st = \<lparr>stamp_epoch = timeline_epoch tml, stamp_sequence = next_sequence tml, presentation_time_micros = p\<rparr>"
      and tml': "tml' = tml\<lparr>next_sequence := n, last_presentation_micros := Some p\<rparr>"
    by (auto simp: stamp_Ok_iff)
  have lt: "next_sequence tml < n" using n by (rule checked_succ_gt)
  have "unat (origin_micros o') \<le> unat p" using checked_add_SomeD(2) [OF p] by simp
  with assms(2) have floor: "epoch_floor_micros tml \<le> p" by (simp add: word_le_nat_alt)
  show "given_out tml' st" using lt by (simp add: given_out_def st tml')
  assume a: "given_out tml a"
  show "later a st" and "given_out tml' a"
    using a lt floor mono order_trans [OF max_word_ge]
    by (auto simp: given_out_def later_def st tml' dest: order.strict_trans2 order.strict_trans order_trans
        intro: order_antisym)
qed

lemma rebase_keeps_given_out:
  assumes "given_out tml a" and "rebase now tml = (r, tml')"
  shows "given_out tml' a"
proof (cases r)
  case (Inl e)
  then show ?thesis using assms by (auto simp: rebase_def Let_def split: option.splits)
next
  case (Inr epoch)
  then obtain now' where ep: "checked_add (timeline_epoch tml) 1 = Some epoch"
      and tml': "tml' = tml\<lparr>timeline_epoch := epoch, epoch_floor_micros := max now'
        (case Option.bind (last_presentation_micros tml) (\<lambda>last. checked_add last 1) of None \<Rightarrow> 0 | Some m \<Rightarrow> m)\<rparr>"
    using assms(2) by (auto simp: rebase_def Let_def split: option.splits)
  from assms(1) obtain p where p: "last_presentation_micros tml = Some p" "presentation_time_micros a \<le> p"
      "stamp_sequence a < next_sequence tml" "stamp_epoch a \<le> timeline_epoch tml"
    by (auto simp: given_out_def)
  have "timeline_epoch tml < epoch" using ep by (rule checked_succ_gt)
  moreover have "presentation_time_micros a < epoch_floor_micros tml' \<or> p = - 1"
  proof (cases "checked_add p 1")
    case None
    then have "p = - 1"
      by (simp add: checked_succ_None_iff word_unat_eq_iff unsigned_minus_1_eq_mask mask_eq_exp_minus_1)
    then show ?thesis by simp
  next
    case (Some q)
    then have "presentation_time_micros a < q" using p(2) checked_succ_gt by (metis order.strict_trans1)
    then show ?thesis using p(1) Some by (simp add: tml' less_max_iff_disj)
  qed
  ultimately show ?thesis using p by (auto simp: given_out_def tml')
qed

section \<open>Turns\<close>

text \<open>A turn's origin was opened in the epoch the turn is bound to, not before that epoch's floor.\<close>

definition turn_media_inv :: "MediaTimelineState \<Rightarrow> TurnMediaState \<Rightarrow> bool" where
  [inv_defs]: "turn_media_inv tml t \<longleftrightarrow>
     bound_epoch t \<le> timeline_epoch tml \<and>
     (case media_origin t of None \<Rightarrow> True
      | Some o' \<Rightarrow> origin_epoch o' = bound_epoch t \<and>
          (bound_epoch t = timeline_epoch tml \<longrightarrow> epoch_floor_micros tml \<le> origin_micros o'))"

definition media_inv :: "media_world \<Rightarrow> bool" where
  [inv_defs]: "media_inv w \<longleftrightarrow> list_all (turn_media_inv (world_timeline w)) (world_turns w)"

text \<open>What a packet does to the timeline: nothing, or one stamp from an origin above the floor.\<close>

definition stamped :: "MediaTimelineState \<Rightarrow> MediaTimelineError + MediaTimelineStamp \<Rightarrow> MediaTimelineState \<Rightarrow> bool" where
  "stamped tml r tml' \<longleftrightarrow>
     tml' = tml \<and> \<not> is_ok r \<or>
     (\<exists>o' rel st. stamp o' rel tml = (Ok st, tml') \<and> epoch_floor_micros tml \<le> origin_micros o' \<and>
        (r = Ok st \<or> \<not> is_ok r))"

lemma turn_origin_cases:
  assumes "turn_media_inv tml t"
  obtains (Err) e where "turn_origin tml now t = (Err e, t)"
  | (Ok) o' where "turn_origin tml now t = (Ok o', t\<lparr>media_origin := Some o'\<rparr>)" "origin_epoch o' = bound_epoch t"
      "bound_epoch t = timeline_epoch tml \<Longrightarrow> epoch_floor_micros tml \<le> origin_micros o'"
      "turn_media_inv tml (t\<lparr>media_origin := Some o'\<rparr>)"
proof (cases "media_origin t")
  case (Some o')
  then have "t\<lparr>media_origin := Some o'\<rparr> = t" by simp
  then show ?thesis using assms Some by (intro Ok [of o']) (simp_all add: turn_origin_def turn_media_inv_def)
next
  case None
  show ?thesis
  proof (cases "open_turn_origin now tml")
    case (Inl e)
    then show ?thesis using None by (intro Err [of e]) (simp add: turn_origin_def)
  next
    case (Inr o')
    then have o': "origin_epoch o' = timeline_epoch tml" "epoch_floor_micros tml \<le> origin_micros o'"
      by (auto simp: open_turn_origin_def split: option.splits)
    show ?thesis
    proof (cases "origin_epoch o' = bound_epoch t")
      case True
      then show ?thesis using None Inr o' by (intro Ok [of o']) (simp_all add: turn_origin_def turn_media_inv_def)
    next
      case False
      then show ?thesis using None Inr by (intro Err [of StaleEpoch]) (simp add: turn_origin_def)
    qed
  qed
qed

lemma stamp_turn_inv:
  "turn_media_inv tml t \<Longrightarrow> stamp o' rel tml = (r, tml') \<Longrightarrow> turn_media_inv tml' t"
  by (cases r) (auto simp: turn_media_inv_def stamp_Ok_iff dest: stamp_Err split: option.splits)

lemma audio_stamped:
  assumes inv: "turn_media_inv tml t" and step: "next_audio_stamp now d (t, tml) = (r, (t', tml'))"
  shows "stamped tml r tml' \<and> turn_media_inv tml' t' \<and> bound_epoch t' = bound_epoch t \<and>
    (is_ok r \<longrightarrow> bound_epoch t = timeline_epoch tml)"
  using inv
proof (cases tml t rule: turn_origin_cases [where now = now])
  case (Err e)
  then show ?thesis using step inv by (auto simp: next_audio_stamp_def stamped_def)
next
  case (Ok o')
  obtain s tml2 where s: "stamp o' (audio_cursor_micros t) tml = (s, tml2)" by force
  show ?thesis
  proof (cases s)
    case (Inl e)
    then show ?thesis using step Ok s by (auto simp: next_audio_stamp_def stamped_def dest: stamp_Err)
  next
    case (Inr st)
    then have ep: "bound_epoch t = timeline_epoch tml" using s Ok(2) by (simp add: stamp_Ok_iff)
    have inv2: "turn_media_inv tml2 (t\<lparr>media_origin := Some o'\<rparr>)" using Ok(4) s by (rule stamp_turn_inv)
    have "stamped tml q tml2" if "q = Ok st \<or> \<not> is_ok q" for q
      unfolding stamped_def using s Inr Ok(3) [OF ep] that by blast
    then show ?thesis
      using step Ok(1) s Inr ep inv2
      by (auto simp: next_audio_stamp_def turn_media_inv_def split: option.splits)
  qed
qed

lemma video_stamped:
  assumes inv: "turn_media_inv tml t" and step: "next_video_stamp now src (t, tml) = (r, (t', tml'))"
  shows "stamped tml r tml' \<and> turn_media_inv tml' t' \<and> bound_epoch t' = bound_epoch t \<and>
    (is_ok r \<longrightarrow> bound_epoch t = timeline_epoch tml)"
proof (cases "is_some_and (\<lambda>last. src < last) (last_video_source_micros t)")
  case True
  then show ?thesis using step inv by (auto simp: next_video_stamp_def stamped_def)
next
  case fresh: False
  let ?base = "case video_source_base_micros t of None \<Rightarrow> src | Some b \<Rightarrow> b"
  from inv show ?thesis
  proof (cases tml t rule: turn_origin_cases [where now = now])
    case (Err e)
    then show ?thesis using step inv fresh by (auto simp: next_video_stamp_def stamped_def)
  next
    case (Ok o')
    show ?thesis
    proof (cases "checked_sub src ?base")
      case None
      then show ?thesis using step Ok fresh by (auto simp: next_video_stamp_def stamped_def Let_def)
    next
      case (Some rel)
      obtain s tml2 where s: "stamp o' rel tml = (s, tml2)" by force
      show ?thesis
      proof (cases s)
        case (Inl e)
        then show ?thesis using step Ok s Some fresh
          by (auto simp: next_video_stamp_def stamped_def Let_def dest: stamp_Err)
      next
        case (Inr st)
        then have ep: "bound_epoch t = timeline_epoch tml" using s Ok(2) by (simp add: stamp_Ok_iff)
        have inv2: "turn_media_inv tml2 (t\<lparr>media_origin := Some o'\<rparr>)" using Ok(4) s by (rule stamp_turn_inv)
        show ?thesis
          using step Ok(1) Ok(3) [OF ep] s Inr ep inv2 Some fresh
          by (auto simp: next_video_stamp_def stamped_def Let_def turn_media_inv_def)
      qed
    qed
  qed
qed

section \<open>Runs\<close>

lemma stamped_given_out:
  assumes "stamped tml r tml'"
  shows "given_out tml a \<Longrightarrow> given_out tml' a"
    and "r = Ok st \<Longrightarrow> given_out tml' st" and "r = Ok st \<Longrightarrow> given_out tml a \<Longrightarrow> later a st"
  using assms stamp_later by (auto simp: stamped_def)

lemma stamped_frame:
  assumes "stamped tml r tml'"
  shows "timeline_epoch tml' = timeline_epoch tml" "epoch_floor_micros tml' = epoch_floor_micros tml"
  using assms by (auto simp: stamped_def stamp_Ok_iff)

text \<open>The two kinds of packets, uniformly: \<open>f\<close> stamps a turn as \<open>audio_stamped\<close> and \<open>video_stamped\<close> say.\<close>

definition stamping :: "(media_state, MediaTimelineStamp, MediaTimelineError) op \<Rightarrow> bool" where
  "stamping f \<longleftrightarrow> (\<forall>tml t r t' tml'. turn_media_inv tml t \<longrightarrow> f (t, tml) = (r, (t', tml')) \<longrightarrow>
     stamped tml r tml' \<and> turn_media_inv tml' t' \<and> bound_epoch t' = bound_epoch t \<and>
     (is_ok r \<longrightarrow> bound_epoch t = timeline_epoch tml))"

lemma stamping_packets [intro]: "stamping (next_audio_stamp now d)" "stamping (next_video_stamp now src)"
  unfolding stamping_def using audio_stamped video_stamped by blast+

lemma on_turn_step:
  assumes f: "stamping f" and inv: "media_inv w" and step: "on_turn i f w = (r, w')"
  shows "media_inv w'" and "map bound_epoch (world_turns w') = map bound_epoch (world_turns w)"
    and "timeline_epoch (world_timeline w') = timeline_epoch (world_timeline w)"
    and "given_out (world_timeline w) a \<Longrightarrow> given_out (world_timeline w') a"
    and "r = Ok (Some st) \<Longrightarrow> given_out (world_timeline w') st"
    and "r = Ok (Some st) \<Longrightarrow> given_out (world_timeline w) a \<Longrightarrow> later a st"
    and "i < length (world_turns w) \<Longrightarrow> is_ok r \<Longrightarrow> bound_epoch (world_turns w ! i) = timeline_epoch (world_timeline w)"
proof -
  have "media_inv w' \<and> map bound_epoch (world_turns w') = map bound_epoch (world_turns w) \<and>
    timeline_epoch (world_timeline w') = timeline_epoch (world_timeline w) \<and>
    (given_out (world_timeline w) a \<longrightarrow> given_out (world_timeline w') a) \<and>
    (r = Ok (Some st) \<longrightarrow> given_out (world_timeline w') st) \<and>
    (r = Ok (Some st) \<longrightarrow> given_out (world_timeline w) a \<longrightarrow> later a st) \<and>
    (i < length (world_turns w) \<longrightarrow> is_ok r \<longrightarrow> bound_epoch (world_turns w ! i) = timeline_epoch (world_timeline w))"
  proof (cases "i < length (world_turns w)")
    case False
    then show ?thesis using step inv by (auto simp: on_turn_def)
  next
    case True
    obtain q t tml where q: "f (world_turns w ! i, world_timeline w) = (q, (t, tml))" by (metis prod.exhaust)
    have "turn_media_inv (world_timeline w) (world_turns w ! i)"
      using inv True by (simp add: media_inv_def list_all_length)
    with f q have p: "stamped (world_timeline w) q tml" "turn_media_inv tml t"
        "bound_epoch t = bound_epoch (world_turns w ! i)"
        "is_ok q \<longrightarrow> bound_epoch (world_turns w ! i) = timeline_epoch (world_timeline w)"
      unfolding stamping_def by blast+
    have w': "w' = w\<lparr>world_turns := (world_turns w)[i := t], world_timeline := tml\<rparr>"
        and r: "r = (case q of Err e \<Rightarrow> Err e | Ok st \<Rightarrow> Ok (Some st))"
      using step True q by (auto simp: on_turn_def)
    note fr = stamped_frame [OF p(1)]
    have "turn_media_inv tml s = turn_media_inv (world_timeline w) s" for s
      by (cases "media_origin s") (simp_all add: turn_media_inv_def fr)
    then have "media_inv w'"
      using inv p(2) True by (auto simp: w' media_inv_def list_all_length nth_list_update)
    moreover have "map bound_epoch (world_turns w') = map bound_epoch (world_turns w)"
      using p(3) by (simp add: w' map_update) (metis True length_map list_update_id nth_map)
    moreover have "r = Ok (Some st) \<longleftrightarrow> q = Ok st" and "is_ok r = is_ok q" by (cases q; simp add: r)+
    ultimately show ?thesis
      using fr stamped_given_out [OF p(1)] p(4) by (auto simp: w')
  qed
  then show "media_inv w'" and "map bound_epoch (world_turns w') = map bound_epoch (world_turns w)"
    and "timeline_epoch (world_timeline w') = timeline_epoch (world_timeline w)"
    and "given_out (world_timeline w) a \<Longrightarrow> given_out (world_timeline w') a"
    and "r = Ok (Some st) \<Longrightarrow> given_out (world_timeline w') st"
    and "r = Ok (Some st) \<Longrightarrow> given_out (world_timeline w) a \<Longrightarrow> later a st"
    and "i < length (world_turns w) \<Longrightarrow> is_ok r \<Longrightarrow> bound_epoch (world_turns w ! i) = timeline_epoch (world_timeline w)"
    by blast+
qed

text \<open>Opening an origin gives out nothing and leaves the timeline alone.\<close>

lemma open_origin_step:
  assumes inv: "media_inv w" and step: "media_step (OpenOrigin i now) w = (r, w')"
  shows "media_inv w'" and "map bound_epoch (world_turns w') = map bound_epoch (world_turns w)"
    and "world_timeline w' = world_timeline w" and "r \<noteq> Ok (Some st)"
proof -
  have "media_inv w' \<and> map bound_epoch (world_turns w') = map bound_epoch (world_turns w) \<and>
    world_timeline w' = world_timeline w \<and> r \<noteq> Ok (Some st)"
  proof (cases "i < length (world_turns w)")
    case True
    then have t: "turn_media_inv (world_timeline w) (world_turns w ! i)"
      using inv by (simp add: media_inv_def list_all_length)
    then have "turn_media_inv (world_timeline w) (snd (turn_origin (world_timeline w) now (world_turns w ! i))) \<and>
        bound_epoch (snd (turn_origin (world_timeline w) now (world_turns w ! i))) = bound_epoch (world_turns w ! i)"
      by (cases rule: turn_origin_cases [where now = now]) (use t in simp_all)
    then have "media_inv (w\<lparr>world_turns := (world_turns w)[i := snd (turn_origin (world_timeline w) now (world_turns w ! i))]\<rparr>)"
        "map bound_epoch ((world_turns w)[i := snd (turn_origin (world_timeline w) now (world_turns w ! i))]) =
          map bound_epoch (world_turns w)"
      using inv True by (auto simp: media_inv_def list_all_length nth_list_update map_update intro!: nth_equalityI)
    then show ?thesis using True step by (auto split: prod.splits sum.splits)
  qed (use inv step in auto)
  then show "media_inv w'" and "map bound_epoch (world_turns w') = map bound_epoch (world_turns w)"
    and "world_timeline w' = world_timeline w" and "r \<noteq> Ok (Some st)" by blast+
qed

lemma rebase_frame:
  assumes "rebase now tml = (r, tml')"
  shows "timeline_epoch tml \<le> timeline_epoch tml'" and "is_ok r \<Longrightarrow> timeline_epoch tml < timeline_epoch tml'"
    and "\<not> is_ok r \<Longrightarrow> tml' = tml"
  using assms by (auto simp: rebase_def Let_def split: option.splits dest: checked_succ_gt intro: less_imp_le)

lemma rebase_turn_inv:
  assumes "turn_media_inv tml t" and "rebase now tml = (r, tml')"
  shows "turn_media_inv tml' t"
proof (cases "is_ok r")
  case True
  then have "timeline_epoch tml < timeline_epoch tml'" using rebase_frame(2) [OF assms(2)] by simp
  then show ?thesis using assms(1) by (auto simp: turn_media_inv_def split: option.splits)
next
  case False
  then show ?thesis using assms rebase_frame(3) [OF assms(2)] by simp
qed

lemma media_step_inv:
  assumes inv: "media_inv w" and step: "media_step ev w = (r, w')"
  shows "media_inv w' \<and> timeline_epoch (world_timeline w) \<le> timeline_epoch (world_timeline w') \<and>
    (given_out (world_timeline w) a \<longrightarrow> given_out (world_timeline w') a) \<and>
    (r = Ok (Some st) \<longrightarrow> given_out (world_timeline w') st \<and> (given_out (world_timeline w) a \<longrightarrow> later a st)) \<and>
    (\<exists>new. map bound_epoch (world_turns w') = map bound_epoch (world_turns w) @ new)"
proof (cases ev)
  case OpenTurn
  then show ?thesis
    using inv step by (auto simp: media_inv_def turn_media_inv_def TurnMediaState_new_def)
next
  case (OpenOrigin i now)
  then have "media_step (OpenOrigin i now) w = (r, w')" using step by simp
  from open_origin_step(1-3) [OF inv this] open_origin_step(4) [OF inv this, of st] show ?thesis by simp
next
  case (AudioPacket i now d)
  then show ?thesis using on_turn_step [OF stamping_packets(1) inv, of i now d r w'] step by auto
next
  case (VideoFrame i now src)
  then show ?thesis using on_turn_step [OF stamping_packets(2) inv, of i now src r w'] step by auto
next
  case (RebaseTimeline now)
  obtain q tml where q: "rebase now (world_timeline w) = (q, tml)" by force
  then have "w' = w\<lparr>world_timeline := tml\<rparr>" "r = (case q of Err e \<Rightarrow> Err e | Ok _ \<Rightarrow> Ok None)"
    using step RebaseTimeline by auto
  moreover have "list_all (turn_media_inv tml) (world_turns w)"
    using inv rebase_turn_inv [OF _ q] by (auto simp: media_inv_def list_all_iff)
  ultimately show ?thesis
    using rebase_frame(1) [OF q] rebase_keeps_given_out [OF _ q, of a]
    by (cases q) (auto simp: media_inv_def)
qed

lemma stamps_of_simps [simp]:
  "stamps_of [] = []"
  "stamps_of ((ev, r) # rs) = (case r of Ok (Some st) \<Rightarrow> st # stamps_of rs | _ \<Rightarrow> stamps_of rs)"
  by (auto simp: stamps_of_def map_filter_simps split: sum.splits option.splits)

lemma run_stamps:
  assumes "media_inv w"
  shows "media_inv (final media_step evs w) \<and>
    sorted_wrt later (stamps_of (fst (run_ops media_step evs w))) \<and>
    (\<forall>a st. given_out (world_timeline w) a \<longrightarrow> st \<in> set (stamps_of (fst (run_ops media_step evs w))) \<longrightarrow> later a st) \<and>
    timeline_epoch (world_timeline w) \<le> timeline_epoch (world_timeline (final media_step evs w)) \<and>
    (\<exists>new. map bound_epoch (world_turns (final media_step evs w)) = map bound_epoch (world_turns w) @ new)"
  using assms
proof (induction evs arbitrary: w)
  case Nil
  then show ?case by simp
next
  case (Cons ev evs)
  obtain r w' where s: "media_step ev w = (r, w')" by force
  note step = media_step_inv [OF Cons.prems s]
  from step have "media_inv w'" by blast
  note IH = Cons.IH [OF this]
  have fin: "final media_step (ev # evs) w = final media_step evs w'" by (simp add: s)
  have epochs: "timeline_epoch (world_timeline w) \<le> timeline_epoch (world_timeline (final media_step (ev # evs) w))"
    unfolding fin using step IH order_trans by blast
  have bound: "\<exists>new. map bound_epoch (world_turns (final media_step (ev # evs) w)) = map bound_epoch (world_turns w) @ new"
    unfolding fin using step IH by (metis append.assoc)
  let ?rest = "stamps_of (fst (run_ops media_step evs w'))"
  have rest: "later a x" if "given_out (world_timeline w) a" "x \<in> set ?rest" for a x
    using that IH step by blast
  consider (st) st where "r = Ok (Some st)" "stamps_of (fst (run_ops media_step (ev # evs) w)) = st # ?rest"
    | (no) "stamps_of (fst (run_ops media_step (ev # evs) w)) = ?rest"
  proof (cases r)
    case (Inl e)
    then show thesis using no s by simp
  next
    case (Inr b)
    then show thesis using st no s by (cases b) simp_all
  qed
  then show ?case
  proof cases
    case st
    then have new: "given_out (world_timeline w') st" and old: "\<forall>a. given_out (world_timeline w) a \<longrightarrow> later a st"
      using step by blast+
    have "\<forall>x \<in> set ?rest. later st x" using new IH by blast
    then show ?thesis using IH epochs bound rest old unfolding st(2) fin by auto
  next
    case no
    show ?thesis using IH epochs bound rest unfolding no fin by blast
  qed
qed

lemma media_start_inv: "media_inv media_start"
  by (simp add: media_start_def media_inv_def)

text \<open>A turn bound to an epoch that has passed gets no stamp, now or later.\<close>

lemma stale_turn_refused:
  assumes "media_inv w" and "i < length (world_turns w)"
    and "bound_epoch (world_turns w ! i) < timeline_epoch (world_timeline w)"
    and "ev = AudioPacket i now d \<or> ev = VideoFrame i now d"
  shows "\<not> is_ok (fst (media_step ev (final media_step evs w)))"
proof -
  let ?w = "final media_step evs w"
  note run = run_stamps [OF assms(1), of evs]
  from run obtain new where new: "map bound_epoch (world_turns ?w) = map bound_epoch (world_turns w) @ new" by blast
  then have "length (world_turns w) \<le> length (world_turns ?w)" by (metis length_append length_map le_add1)
  then have i: "i < length (world_turns ?w)" using assms(2) by simp
  then have "bound_epoch (world_turns ?w ! i) = map bound_epoch (world_turns ?w) ! i" by simp
  also have "\<dots> = bound_epoch (world_turns w ! i)" unfolding new using assms(2) by (simp add: nth_append)
  finally have "bound_epoch (world_turns ?w ! i) \<noteq> timeline_epoch (world_timeline ?w)"
    using run assms(3) by auto
  then show ?thesis
    using assms(4) i run on_turn_step(7) [OF stamping_packets(1), of ?w i now d]
      on_turn_step(7) [OF stamping_packets(2), of ?w i now d]
    by (metis media_step.simps(3,4) prod.collapse)
qed

section \<open>Properties\<close>

text \<open>C19. Over the life of a session, whatever turns are opened, packets and frames are stamped and
  rebases happen (failing ones included, under any clock readings), the stamps given out form one
  order, also when other turns come between the opening of a turn's origin and its first stamp: sequence
  numbers strictly increase, epochs and presentation times never decrease, and a
  stamp of a later epoch is presented strictly after every stamp of an earlier epoch (unless that one
  already used the largest representable time).\<close>

theorem media_stamps_ordered:
  "sorted_wrt later (stamps_of (fst (run_ops media_step evs media_start)))"
  using run_stamps [OF media_start_inv, of evs] by blast

text \<open>A rebase fences off every open turn: after it succeeds, a turn opened before it can stamp
  neither audio nor video, whatever happens in between and whatever the clock says.\<close>

lemma rebase_fences_old_turns:
  assumes "w = final media_step before media_start" and "i < length (world_turns w)"
    and "is_ok (fst (media_step (RebaseTimeline now) w))"
    and "packet = AudioPacket i t x \<or> packet = VideoFrame i t x"
  shows "\<not> is_ok (fst (media_step packet (final media_step after (snd (media_step (RebaseTimeline now) w)))))"
proof (rule stale_turn_refused)
  have inv: "media_inv w" unfolding assms(1) using run_stamps [OF media_start_inv, of before] by blast
  obtain q tml where q: "rebase now (world_timeline w) = (q, tml)" by force
  then have w': "snd (media_step (RebaseTimeline now) w) = w\<lparr>world_timeline := tml\<rparr>" and "is_ok q"
    using assms(3) by (auto split: sum.splits)
  then have "timeline_epoch (world_timeline w) < timeline_epoch tml" using rebase_frame(2) [OF q] by simp
  moreover have "bound_epoch (world_turns w ! i) \<le> timeline_epoch (world_timeline w)"
    using inv assms(2) by (simp add: media_inv_def list_all_length turn_media_inv_def)
  ultimately show "bound_epoch (world_turns (snd (media_step (RebaseTimeline now) w)) ! i)
      < timeline_epoch (world_timeline (snd (media_step (RebaseTimeline now) w)))"
    unfolding w' by simp
  show "media_inv (snd (media_step (RebaseTimeline now) w))"
    using media_step_inv [OF inv, of "RebaseTimeline now"] by (metis prod.collapse)
  show "i < length (world_turns (snd (media_step (RebaseTimeline now) w)))" using assms(2) unfolding w' by simp
qed (rule assms(4))

text \<open>A rebase repairs a clock that went backwards: after a successful rebase, the first audio
  packet of a newly opened turn is stamped, in the new epoch, at any clock reading that fits in the
  timeline, however far back, unless the sequence numbers or the presentation time are exhausted.\<close>

lemma rebase_repairs_clock:
  assumes "rebase now tml = (Ok epoch, tml')" and "checked_mul later_now 1000 = Some m"
    and "next_sequence tml \<noteq> - 1" and "last_presentation_micros tml \<noteq> Some (- 1)"
  shows "\<exists>st t'' tml''. next_audio_stamp later_now 0 (TurnMediaState_new epoch, tml') = (Ok st, (t'', tml'')) \<and>
    stamp_epoch st = epoch"
proof -
  let ?after = "case Option.bind (last_presentation_micros tml) (\<lambda>last. checked_add last 1) of None \<Rightarrow> 0 | Some m \<Rightarrow> m"
  from assms(1) obtain n where tml': "tml' = tml\<lparr>timeline_epoch := epoch, epoch_floor_micros := max n ?after\<rparr>"
    by (auto simp: rebase_def Let_def split: option.splits)
  have max: "checked_add (a::u64) 1 = None \<longleftrightarrow> a = - 1" for a
    by (simp add: checked_succ_None_iff word_unat_eq_iff unsigned_minus_1_eq_mask mask_eq_exp_minus_1)
  obtain s where s: "checked_add (next_sequence tml) 1 = Some s" using assms(3) max by blast
  have floor: "is_none_or (\<lambda>last. last \<le> max m (max n ?after)) (last_presentation_micros tml)"
  proof (cases "last_presentation_micros tml")
    case (Some p)
    then obtain q where q: "checked_add p 1 = Some q" using assms(4) max by fastforce
    then have "p \<le> q" using checked_succ_gt less_imp_le by blast
    then show ?thesis using Some q by (simp add: le_max_iff_disj)
  qed simp
  have zero: "checked_add (x::u64) 0 = Some x" for x
    using unsigned_less [of x] by (simp add: checked_add_def)
  let ?o = "\<lparr>origin_epoch = epoch, origin_micros = max m (max n ?after)\<rparr>"
  have "turn_origin tml' later_now (TurnMediaState_new epoch) =
      (Ok ?o, (TurnMediaState_new epoch)\<lparr>media_origin := Some ?o\<rparr>)"
    using assms(2) by (simp add: turn_origin_def open_turn_origin_def TurnMediaState_new_def tml')
  moreover have "\<exists>st tml''. stamp ?o 0 tml' = (Ok st, tml'') \<and> stamp_epoch st = epoch"
    using s floor zero by (auto simp: stamp_Ok_iff tml')
  ultimately show ?thesis
    using zero by (auto simp: next_audio_stamp_def TurnMediaState_new_def)
qed

end
