(* ===== verification/VPR_Turn_State.thy ===== *)
theory VPR_Turn_State
  imports VPR_Lifecycle VPR_Timeline VPR_Identity
begin

text \<open>
  The mutable state of one turn (\<^verbatim>\<open>crates/vpr-runtime/src/turn_state.rs\<close> and \<^verbatim>\<open>output.rs\<close>): its
  lifecycle, its output segments with their delivery evidence, and its place on the media timeline.
  In the program this state sits behind one mutex per turn; each method below is one step under it.
\<close>

section \<open>Data\<close>

datatype OutputSegmentId = OutputSegmentId (OutputSegmentId_get: u64)

record OutputSegmentEvidence =
  segment_id :: OutputSegmentId
  segment_evidence :: OutputEvidence

definition segment_eligible_as_spoken :: "OutputSegmentEvidence \<Rightarrow> bool" where
  "segment_eligible_as_spoken self = eligible_as_spoken (segment_evidence self)"

record TurnMutableState =
  ts_turn :: Turn
  output_segments :: "OutputSegmentEvidence list"
  next_segment_id :: u64
  ts_media :: TurnMediaState

definition TurnMutableState_new :: "Turn \<Rightarrow> u64 \<Rightarrow> TurnMutableState" where
  "TurnMutableState_new turn media_epoch =
     \<lparr>ts_turn = turn, output_segments = [], next_segment_id = 1, ts_media = TurnMediaState_new media_epoch\<rparr>"

abbreviation ts_state :: "TurnMutableState \<Rightarrow> TurnState" where
  "ts_state self \<equiv> turn_state (ts_turn self)"

definition provider_execution_allowed :: "TurnMutableState \<Rightarrow> bool" where
  "provider_execution_allowed self \<longleftrightarrow> ts_state self \<in> {Authorized, Processing, Outputting}"

fun map_media_timeline_error :: "MediaTimelineError \<Rightarrow> Rt0ReasonCode" where
  "map_media_timeline_error MediaTimelineError.StaleEpoch = InvalidStateTransition"
| "map_media_timeline_error TimestampRegression = InvalidStateTransition"
| "map_media_timeline_error Overflow = InternalError"

section \<open>Operations\<close>

definition ts_transition :: "TurnState \<Rightarrow> (TurnMutableState, unit, Rt0ReasonCode) op" where
  "ts_transition next self =
     (case Turn_transition next (ts_turn self) of
        (r, t) \<Rightarrow> (map_err (\<lambda>_. InvalidStateTransition) r, self\<lparr>ts_turn := t\<rparr>))"

definition is_cancelled_evidence :: "OutputSegmentEvidence \<Rightarrow> bool" where
  "is_cancelled_evidence segment \<longleftrightarrow>
     (case evidence_state (segment_evidence segment) of
        OutputDeliveryState.Cancelled _ \<Rightarrow> True
      | CancelledDeliveryUncertain \<Rightarrow> True
      | _ \<Rightarrow> False)"

text \<open>The loop of \<open>freeze_output_segments\<close>: an error leaves the segments after it untouched.\<close>

fun freeze_loop :: "OutputSegmentEvidence list \<Rightarrow> (Rt0ReasonCode + unit) \<times> OutputSegmentEvidence list" where
  "freeze_loop [] = (Ok (), [])"
| "freeze_loop (segment # rest) =
     (if \<not> is_cancelled_evidence segment then
        (case mark_cancelled (segment_evidence segment) of
           (Err _, e) \<Rightarrow> (Err InvalidStateTransition, segment\<lparr>segment_evidence := e\<rparr> # rest)
         | (Ok _, e) \<Rightarrow>
             (case freeze_loop rest of (r, rest') \<Rightarrow> (r, segment\<lparr>segment_evidence := e\<rparr> # rest')))
      else (case freeze_loop rest of (r, rest') \<Rightarrow> (r, segment # rest')))"

definition freeze_output_segments :: "(TurnMutableState, unit, Rt0ReasonCode) op" where
  "freeze_output_segments self =
     (case freeze_loop (output_segments self) of (r, segments) \<Rightarrow> (r, self\<lparr>output_segments := segments\<rparr>))"

definition transition_and_freeze :: "TurnState \<Rightarrow> (TurnMutableState, unit, Rt0ReasonCode) op" where
  "transition_and_freeze next self =
     (case ts_transition next self of
        (Err e, self') \<Rightarrow> (Err e, self')
      | (Ok _, self') \<Rightarrow> freeze_output_segments self')"

definition ts_begin_output_segment :: "(TurnMutableState, OutputSegmentId, Rt0ReasonCode) op" where
  "ts_begin_output_segment self =
     (if ts_state self \<noteq> Outputting then (Err InvalidStateTransition, self)
      else let i = OutputSegmentId (next_segment_id self)
           in case checked_add (next_segment_id self) 1 of
                None \<Rightarrow> (Err InternalError, self)
              | Some following \<Rightarrow>
                  (let self' = self\<lparr>next_segment_id := following\<rparr>
                   in case mark_generated OutputEvidence_default of
                        (Err _, _) \<Rightarrow> (Err InvalidStateTransition, self')
                      | (Ok _, evidence) \<Rightarrow>
                          (Ok i, self'\<lparr>output_segments := output_segments self' @
                                   [\<lparr>segment_id = i, segment_evidence = evidence\<rparr>]\<rparr>)))"

text \<open>\<open>segment_mut\<close> followed by an operation on the segment's evidence.\<close>

definition with_segment_mut ::
  "OutputSegmentId \<Rightarrow> (OutputEvidence, unit, OutputTransitionError) op
     \<Rightarrow> (TurnMutableState, unit, Rt0ReasonCode) op" where
  "with_segment_mut i f self =
     (case List.find (\<lambda>segment. segment_id segment = i) (output_segments self) of
        None \<Rightarrow> (Err InvalidStateTransition, self)
      | Some segment \<Rightarrow>
          (case f (segment_evidence segment) of
             (r, e) \<Rightarrow>
               (map_err (\<lambda>_. InvalidStateTransition) r,
                self\<lparr>output_segments := update_first (\<lambda>s. segment_id s = i)
                       (\<lambda>s. s\<lparr>segment_evidence := e\<rparr>) (output_segments self)\<rparr>)))"

definition reconcile_output_delivery_uncertain :: "OutputSegmentId \<Rightarrow> (TurnMutableState, unit, Rt0ReasonCode) op" where
  "reconcile_output_delivery_uncertain i self = with_segment_mut i mark_delivery_uncertain self"

definition reconcile_output_sent :: "OutputSegmentId \<Rightarrow> (TurnMutableState, unit, Rt0ReasonCode) op" where
  "reconcile_output_sent i self = with_segment_mut i reconcile_sent self"

definition reconcile_output_played :: "OutputSegmentId \<Rightarrow> (TurnMutableState, unit, Rt0ReasonCode) op" where
  "reconcile_output_played i self = with_segment_mut i reconcile_played self"

definition next_audio_media_stamp ::
  "u64 \<Rightarrow> u64 \<Rightarrow> (TurnMutableState \<times> MediaTimelineState, MediaTimelineStamp, Rt0ReasonCode) op" where
  "next_audio_media_stamp now_millis duration_micros = (\<lambda>(self, timeline).
     (if ts_state self \<noteq> Outputting then (Err InvalidStateTransition, (self, timeline))
      else (case next_audio_stamp now_millis duration_micros (ts_media self, timeline) of
              (r, (m, timeline')) \<Rightarrow>
                (map_err map_media_timeline_error r, (self\<lparr>ts_media := m\<rparr>, timeline')))))"

definition next_video_media_stamp ::
  "u64 \<Rightarrow> u64 \<Rightarrow> (TurnMutableState \<times> MediaTimelineState, MediaTimelineStamp, Rt0ReasonCode) op" where
  "next_video_media_stamp now_millis source_timestamp_micros = (\<lambda>(self, timeline).
     (if ts_state self \<noteq> Outputting then (Err InvalidStateTransition, (self, timeline))
      else (case next_video_stamp now_millis source_timestamp_micros (ts_media self, timeline) of
              (r, (m, timeline')) \<Rightarrow>
                (map_err map_media_timeline_error r, (self\<lparr>ts_media := m\<rparr>, timeline')))))"

definition media_flush_context :: "TurnMutableState \<Rightarrow> u64 \<times> u64 option" where
  "media_flush_context self = flush_context (ts_media self)"

text \<open>The loop of \<open>interrupt\<close>.\<close>

fun cancel_loop :: "OutputSegmentEvidence list \<Rightarrow> (Rt0ReasonCode + unit) \<times> OutputSegmentEvidence list" where
  "cancel_loop [] = (Ok (), [])"
| "cancel_loop (segment # rest) =
     (case mark_cancelled (segment_evidence segment) of
        (Err _, e) \<Rightarrow> (Err InvalidStateTransition, segment\<lparr>segment_evidence := e\<rparr> # rest)
      | (Ok _, e) \<Rightarrow>
          (case cancel_loop rest of (r, rest') \<Rightarrow> (r, segment\<lparr>segment_evidence := e\<rparr> # rest')))"

definition ts_interrupt :: "(TurnMutableState, unit, Rt0ReasonCode) op" where
  "ts_interrupt self =
     (let interruptible = (ts_state self \<in> {Received, Authorized, Processing, Outputting});
          already_cancelled = list_ex is_cancelled_evidence (output_segments self)
      in if \<not> interruptible \<or> already_cancelled then (Err InvalidStateTransition, self)
         else (case ts_transition TurnState.Cancelled self of
                 (Err e, self') \<Rightarrow> (Err e, self')
               | (Ok _, self') \<Rightarrow>
                   (case cancel_loop (output_segments self') of
                      (r, segments) \<Rightarrow> (r, self'\<lparr>output_segments := segments\<rparr>))))"

section \<open>Histories of one turn\<close>

datatype turn_op =
    Advance TurnState
  | Terminate TurnState
  | BeginSegment
  | SegmentUncertain OutputSegmentId
  | SegmentSent OutputSegmentId
  | SegmentPlayed OutputSegmentId
  | OriginOpened MediaTimelineState u64
  | StampAudio MediaTimelineState u64 u64
  | StampVideo MediaTimelineState u64 u64
  | Interrupt

text \<open>
  The runtime advances a turn to \<open>Authorized\<close>, \<open>Processing\<close>, \<open>Outputting\<close> and \<open>Completed\<close> and
  terminates it as \<open>Denied\<close> or \<open>Failed\<close>; other targets are left alone here. A packet meets the
  timeline in whatever state the other turns left it, so the timeline is an argument of the step; the
  opening of the turn's origin is a step of its own as well, because the timeline may change before the
  stamp is taken. The results of the operations are reduced to success and reason.
\<close>

definition unit_result :: "'e + 'a \<Rightarrow> 'e + unit" where
  "unit_result r = (case r of Err e \<Rightarrow> Err e | Ok _ \<Rightarrow> Ok ())"

fun turn_step :: "turn_op \<Rightarrow> (TurnMutableState, unit, Rt0ReasonCode) op" where
  "turn_step (Advance next) s =
     (if next \<in> {Authorized, Processing, Outputting, Completed} then ts_transition next s
      else (Err InvalidStateTransition, s))"
| "turn_step (Terminate next) s =
     (if next \<in> {Denied, TurnState.Failed} then transition_and_freeze next s else (Err InvalidStateTransition, s))"
| "turn_step BeginSegment s = (case ts_begin_output_segment s of (r, s') \<Rightarrow> (unit_result r, s'))"
| "turn_step (SegmentUncertain i) s = reconcile_output_delivery_uncertain i s"
| "turn_step (SegmentSent i) s = reconcile_output_sent i s"
| "turn_step (SegmentPlayed i) s = reconcile_output_played i s"
| "turn_step (OriginOpened tml now) s =
     (if ts_state s \<noteq> Outputting then (Err InvalidStateTransition, s)
      else case turn_origin tml now (ts_media s) of
             (r, m) \<Rightarrow> (unit_result (map_err map_media_timeline_error r), s\<lparr>ts_media := m\<rparr>))"
| "turn_step (StampAudio tml now d) s =
     (case next_audio_media_stamp now d (s, tml) of (r, (s', _)) \<Rightarrow> (unit_result r, s'))"
| "turn_step (StampVideo tml now src) s =
     (case next_video_media_stamp now src (s, tml) of (r, (s', _)) \<Rightarrow> (unit_result r, s'))"
| "turn_step Interrupt s = ts_interrupt s"

text \<open>The stamps a turn is given over a history.\<close>

fun stamp_given :: "turn_op \<Rightarrow> TurnMutableState \<Rightarrow> MediaTimelineStamp list" where
  "stamp_given (StampAudio tml now d) s =
     (case fst (next_audio_media_stamp now d (s, tml)) of Err _ \<Rightarrow> [] | Ok st \<Rightarrow> [st])"
| "stamp_given (StampVideo tml now src) s =
     (case fst (next_video_media_stamp now src (s, tml)) of Err _ \<Rightarrow> [] | Ok st \<Rightarrow> [st])"
| "stamp_given _ s = []"

fun turn_stamps :: "turn_op list \<Rightarrow> TurnMutableState \<Rightarrow> MediaTimelineStamp list" where
  "turn_stamps [] s = []"
| "turn_stamps (c # ops) s = stamp_given c s @ turn_stamps ops (snd (turn_step c s))"

section \<open>Segments under the loops\<close>

definition cancel_segment :: "OutputSegmentEvidence \<Rightarrow> OutputSegmentEvidence" where
  "cancel_segment s = s\<lparr>segment_evidence := snd (mark_cancelled (segment_evidence s))\<rparr>"

lemma is_cancelled_iff:
  "is_cancelled_evidence s \<longleftrightarrow> snd (snd (evidence_abs (evidence_state (segment_evidence s))))"
  by (simp add: is_cancelled_evidence_def split: OutputDeliveryState.splits)

lemma mark_cancelled_live:
  "\<not> is_cancelled_evidence s \<Longrightarrow> mark_cancelled (segment_evidence s) = (Ok (), segment_evidence (cancel_segment s))"
  using mark_cancelled_Ok_iff [of "segment_evidence s"]
  by (cases "mark_cancelled (segment_evidence s)") (auto simp: is_cancelled_iff cancel_segment_def is_ok_iff)

lemma cancel_segment_simps [simp]:
  "segment_id (cancel_segment s) = segment_id s"
  "is_cancelled_evidence (cancel_segment s)"
  by (auto simp: cancel_segment_def is_cancelled_evidence_def mark_cancelled_def Let_def
      split: OutputDeliveryState.splits)

lemma segment_update_cancel [simp]:
  "s\<lparr>segment_evidence := segment_evidence (cancel_segment s)\<rparr> = cancel_segment s"
  by (simp add: cancel_segment_def)

lemma cancel_loop_all:
  "list_all (\<lambda>s. \<not> is_cancelled_evidence s) ss \<Longrightarrow> cancel_loop ss = (Ok (), map cancel_segment ss)"
  by (induction ss) (auto simp: mark_cancelled_live)

lemma freeze_loop_all:
  "freeze_loop ss = (Ok (), map (\<lambda>s. if is_cancelled_evidence s then s else cancel_segment s) ss)"
  by (induction ss) (auto simp: mark_cancelled_live)

section \<open>Invariant\<close>

definition ended_early :: "TurnState \<Rightarrow> bool" where
  "ended_early s \<longleftrightarrow> s \<in> {TurnState.Cancelled, Denied, TurnState.Failed}"

definition turn_state_inv :: "TurnMutableState \<Rightarrow> bool" where
  [inv_defs]: "turn_state_inv s \<longleftrightarrow>
     1 \<le> unat (next_segment_id s) \<and>
     map (\<lambda>g. unat (OutputSegmentId_get (segment_id g))) (output_segments s) = [1..<unat (next_segment_id s)] \<and>
     (output_segments s \<noteq> [] \<longrightarrow> ts_state s \<notin> {Received, Authorized, Processing}) \<and>
     list_all (\<lambda>g. is_cancelled_evidence g = ended_early (ts_state s)) (output_segments s)"

lemma ts_transition_cases:
  obtains (Ok) "turn_transition_valid (ts_state s) n" "ts_transition n s = (Ok (), s\<lparr>ts_turn := (ts_turn s)\<lparr>turn_state := n\<rparr>\<rparr>)"
  | (Err) "\<not> turn_transition_valid (ts_state s) n" "ts_transition n s = (Err InvalidStateTransition, s)"
  by (cases "turn_transition_valid (ts_state s) n") (auto simp: ts_transition_def Turn_transition_def)

lemma advance_inv:
  assumes "turn_state_inv s" and "n \<in> {Authorized, Processing, Outputting, Completed}"
  shows "turn_state_inv (snd (ts_transition n s))"
proof (cases rule: ts_transition_cases [of s n])
  case Ok
  then show ?thesis
    using assms by (cases "ts_state s") (auto simp: turn_state_inv_def ended_early_def)
next
  case Err
  then show ?thesis using assms by simp
qed

lemma terminate_inv:
  assumes "turn_state_inv s" and "n \<in> {Denied, TurnState.Failed}"
  shows "turn_state_inv (snd (transition_and_freeze n s))"
proof (cases rule: ts_transition_cases [of s n])
  case Ok
  then have "\<not> ended_early (ts_state s)" by (cases "ts_state s") (auto simp: ended_early_def)
  then show ?thesis
    using assms Ok by (auto simp: turn_state_inv_def transition_and_freeze_def freeze_output_segments_def
        freeze_loop_all ended_early_def list_all_iff comp_def if_distrib cong: if_cong)
next
  case Err
  then show ?thesis using assms by (simp add: transition_and_freeze_def)
qed

text \<open>In reachable states an interrupt succeeds exactly on a turn that is not terminal, and then
  freezes every segment.\<close>

lemma interrupt_live:
  assumes "turn_state_inv s" and "\<not> turn_terminal (ts_state s)"
  shows "ts_interrupt s = (Ok (), s\<lparr>ts_turn := (ts_turn s)\<lparr>turn_state := TurnState.Cancelled\<rparr>,
    output_segments := map cancel_segment (output_segments s)\<rparr>)"
proof -
  have live: "ts_state s \<in> {Received, Authorized, Processing, Outputting}" "\<not> ended_early (ts_state s)"
    using assms(2) by (cases "ts_state s"; simp add: turn_terminal_def ended_early_def)+
  then have none: "list_all (\<lambda>g. \<not> is_cancelled_evidence g) (output_segments s)"
    using assms(1) by (simp add: turn_state_inv_def)
  have "ts_transition TurnState.Cancelled s = (Ok (), s\<lparr>ts_turn := (ts_turn s)\<lparr>turn_state := TurnState.Cancelled\<rparr>\<rparr>)"
    using assms(2) by (cases rule: ts_transition_cases [of s TurnState.Cancelled]) (simp_all add: turn_cancel_valid_iff)
  moreover have "\<not> list_ex is_cancelled_evidence (output_segments s)"
    using none by (simp add: list_all_iff list_ex_iff)
  ultimately show ?thesis
    using live none by (simp add: ts_interrupt_def Let_def cancel_loop_all)
qed

lemma interrupt_terminal: "turn_terminal (ts_state s) \<Longrightarrow> ts_interrupt s = (Err InvalidStateTransition, s)"
  by (cases "ts_state s") (auto simp: ts_interrupt_def turn_terminal_def)

lemma interrupt_inv: "turn_state_inv s \<Longrightarrow> turn_state_inv (snd (ts_interrupt s))"
proof (cases "turn_terminal (ts_state s)")
  case False
  assume inv: "turn_state_inv s"
  have "\<not> ended_early (ts_state s)" using False by (cases "ts_state s") (simp_all add: turn_terminal_def ended_early_def)
  then show ?thesis
    using inv interrupt_live [OF inv False]
    by (auto simp: turn_state_inv_def ended_early_def list_all_iff comp_def)
qed (simp add: interrupt_terminal)

lemma with_segment_mut_snd:
  "snd (with_segment_mut i f s) = s\<lparr>output_segments :=
     update_first (\<lambda>g. segment_id g = i) (\<lambda>g. g\<lparr>segment_evidence := snd (f (segment_evidence g))\<rparr>) (output_segments s)\<rparr>"
  by (auto simp: with_segment_mut_def update_first_none split: option.splits prod.splits
      intro!: arg_cong [where f = "\<lambda>x. s\<lparr>output_segments := x\<rparr>"] update_first_find)

lemma evidence_step_cancelled:
  assumes "ev \<noteq> MarkCancelled"
  shows "snd (snd (evidence_abs (evidence_state (snd (evidence_step ev e))))) = snd (snd (evidence_abs (evidence_state e)))"
proof -
  obtain r e' where s: "evidence_step ev e = (r, e')" by force
  obtain c u x where a: "evidence_abs (evidence_state e) = (c, u, x)" by (cases "evidence_abs (evidence_state e)")
  show ?thesis
  proof (cases r)
    case (Inl err)
    then show ?thesis using s fails_safeD [OF evidence_step_fails_safe] by fastforce
  next
    case (Inr v)
    obtain c' u' x' where a': "evidence_abs (evidence_state e') = (c', u', x')"
      by (cases "evidence_abs (evidence_state e')")
    have "evidence_spec ev (c, u, x) = Some (c', u', x')"
      using evidence_step_refines [OF s] a a' Inr by simp
    then have "x' = x" using assms by (cases ev) (auto split: if_splits)
    then show ?thesis using s a a' by simp
  qed
qed

lemma with_segment_mut_inv:
  assumes inv: "turn_state_inv s" and ev: "ev \<noteq> MarkCancelled"
  shows "turn_state_inv (snd (with_segment_mut i (evidence_step ev) s))"
proof -
  let ?f = "\<lambda>g. g\<lparr>segment_evidence := snd (evidence_step ev (segment_evidence g))\<rparr>"
  have "map (\<lambda>g. unat (OutputSegmentId_get (segment_id g)))
      (update_first (\<lambda>g. segment_id g = i) ?f (output_segments s)) =
      map (\<lambda>g. unat (OutputSegmentId_get (segment_id g))) (output_segments s)"
    by (rule map_update_first) simp
  moreover have "\<forall>g \<in> set (update_first (\<lambda>g. segment_id g = i) ?f (output_segments s)).
      is_cancelled_evidence g = ended_early (ts_state s)"
    using inv evidence_step_cancelled [OF ev]
    by (intro update_first_invariant) (auto simp: turn_state_inv_def list_all_iff is_cancelled_iff)
  ultimately show ?thesis
    using inv by (simp add: turn_state_inv_def with_segment_mut_snd list_all_iff)
qed

lemma begin_segment_Ok_iff:
  "ts_begin_output_segment s = (Ok i, s') \<longleftrightarrow>
     ts_state s = Outputting \<and> i = OutputSegmentId (next_segment_id s) \<and>
     (\<exists>n. checked_add (next_segment_id s) 1 = Some n \<and>
        s' = s\<lparr>next_segment_id := n, output_segments := output_segments s @
               [\<lparr>segment_id = i, segment_evidence = \<lparr>evidence_state = OutputDeliveryState.Generated\<rparr>\<rparr>]\<rparr>)"
  by (auto simp: ts_begin_output_segment_def Let_def mark_generated_def OutputEvidence_transition_def
      OutputEvidence_default_def split: option.splits)

lemma begin_segment_Err: "ts_begin_output_segment s = (Err e, s') \<Longrightarrow> s' = s"
  by (auto simp: ts_begin_output_segment_def Let_def mark_generated_def OutputEvidence_transition_def
      OutputEvidence_default_def split: option.splits if_splits)

lemma begin_segment_inv:
  assumes inv: "turn_state_inv s" and ok: "ts_begin_output_segment s = (Ok i, s')"
  shows "turn_state_inv s'"
proof -
  from ok obtain n where n: "checked_add (next_segment_id s) 1 = Some n" and st: "ts_state s = Outputting"
      and s': "s' = s\<lparr>next_segment_id := n, output_segments := output_segments s @
        [\<lparr>segment_id = OutputSegmentId (next_segment_id s),
          segment_evidence = \<lparr>evidence_state = OutputDeliveryState.Generated\<rparr>\<rparr>]\<rparr>"
    by (auto simp: begin_segment_Ok_iff)
  have un: "unat n = Suc (unat (next_segment_id s))" using checked_add_SomeD(2) [OF n] by simp
  have "[1..<unat n] = [1..<unat (next_segment_id s)] @ [unat (next_segment_id s)]"
    using inv un by (simp add: turn_state_inv_def)
  then show ?thesis
    using inv st un by (simp add: s' turn_state_inv_def is_cancelled_evidence_def ended_early_def del: upt_Suc)
qed

text \<open>Segments only get further: they keep their identity and what they reached.\<close>

definition segment_progress :: "OutputSegmentEvidence \<Rightarrow> OutputSegmentEvidence \<Rightarrow> bool" where
  "segment_progress a b \<longleftrightarrow>
     segment_id b = segment_id a \<and>
     checkpoint_rank (fst (evidence_abs (evidence_state (segment_evidence a))))
       \<le> checkpoint_rank (fst (evidence_abs (evidence_state (segment_evidence b)))) \<and>
     (segment_eligible_as_spoken a \<longrightarrow> segment_eligible_as_spoken b)"

definition segments_progress :: "TurnMutableState \<Rightarrow> TurnMutableState \<Rightarrow> bool" where
  "segments_progress s s' \<longleftrightarrow>
     (\<exists>old new. output_segments s' = old @ new \<and> list_all2 segment_progress (output_segments s) old)"

lemma segment_progress_refl [simp]: "segment_progress a a"
  by (simp add: segment_progress_def)

lemma segment_progress_trans: "segment_progress a b \<Longrightarrow> segment_progress b c \<Longrightarrow> segment_progress a c"
  by (auto simp: segment_progress_def)

lemma segment_progress_step:
  "segment_progress g (g\<lparr>segment_evidence := snd (evidence_step ev (segment_evidence g))\<rparr>)"
  using evidence_step_rank [of "segment_evidence g" ev] evidence_step_eligible [of ev "segment_evidence g"]
  by (simp add: segment_progress_def segment_eligible_as_spoken_def)

lemma cancel_segment_progress: "segment_progress g (cancel_segment g)"
  using segment_progress_step [of g MarkCancelled] by (simp add: cancel_segment_def)

lemma segments_progress_same: "output_segments s' = output_segments s \<Longrightarrow> segments_progress s s'"
  unfolding segments_progress_def
  by (intro exI [of _ "output_segments s"] exI [of _ "[]"]) (simp add: list_all2_refl)

lemma segments_progress_map:
  "output_segments s' = map f (output_segments s) \<Longrightarrow> (\<And>g. segment_progress g (f g)) \<Longrightarrow> segments_progress s s'"
  unfolding segments_progress_def
  by (intro exI [of _ "map f (output_segments s)"] exI [of _ "[]"]) (simp add: list_all2_conv_all_nth)

lemma update_first_progress:
  "(\<And>g. segment_progress g (f g)) \<Longrightarrow> list_all2 segment_progress gs (update_first P f gs)"
  by (induction gs) (auto intro: list_all2_refl)

lemma segments_progress_nth:
  assumes "segments_progress s s'" and "k < length (output_segments s)"
  shows "k < length (output_segments s') \<and> segment_progress (output_segments s ! k) (output_segments s' ! k)"
  using assms by (auto simp: segments_progress_def list_all2_conv_all_nth nth_append)

lemma segments_progress_trans:
  assumes "segments_progress s s'" and "segments_progress s' s''"
  shows "segments_progress s s''"
proof -
  from assms obtain old new old' new' where
      1: "output_segments s' = old @ new" "list_all2 segment_progress (output_segments s) old" and
      2: "output_segments s'' = old' @ new'" "list_all2 segment_progress (old @ new) old'"
    unfolding segments_progress_def by metis
  from 2(2) obtain a b where ab: "old' = a @ b" "list_all2 segment_progress old a"
    by (auto simp: list_all2_append1)
  have "list_all2 segment_progress (output_segments s) a"
    using list_all2_trans [of segment_progress segment_progress segment_progress] segment_progress_trans 1(2) ab(2) by blast
  then show ?thesis using 2(1) ab(1) by (auto simp: segments_progress_def)
qed

lemma with_segment_mut_progress: "segments_progress s (snd (with_segment_mut i (evidence_step ev) s))"
proof -
  let ?f = "\<lambda>g. g\<lparr>segment_evidence := snd (evidence_step ev (segment_evidence g))\<rparr>"
  have "list_all2 segment_progress (output_segments s) (update_first (\<lambda>g. segment_id g = i) ?f (output_segments s))"
    by (rule update_first_progress) (rule segment_progress_step)
  then show ?thesis
    by (auto simp: segments_progress_def with_segment_mut_snd intro: exI [of _ "[]"])
qed

lemma media_stamp_frame:
  "snd (turn_step (StampAudio tml now d) s) = s\<lparr>ts_media := ts_media (snd (turn_step (StampAudio tml now d) s))\<rparr>"
  "snd (turn_step (StampVideo tml now d) s) = s\<lparr>ts_media := ts_media (snd (turn_step (StampVideo tml now d) s))\<rparr>"
  "snd (turn_step (OriginOpened tml now) s) = s\<lparr>ts_media := ts_media (snd (turn_step (OriginOpened tml now) s))\<rparr>"
  by (auto simp: next_audio_media_stamp_def next_video_media_stamp_def split: prod.splits if_splits)

lemma turn_step_segment_ops:
  "turn_step (SegmentUncertain i) = with_segment_mut i (evidence_step MarkDeliveryUncertain)"
  "turn_step (SegmentSent i) = with_segment_mut i (evidence_step ReconcileSent)"
  "turn_step (SegmentPlayed i) = with_segment_mut i (evidence_step ReconcilePlayed)"
  by (auto simp: reconcile_output_delivery_uncertain_def reconcile_output_sent_def reconcile_output_played_def)

lemma turn_step_inv:
  assumes inv: "turn_state_inv s"
  shows "turn_state_inv (snd (turn_step c s))"
proof (cases c)
  case (StampAudio tml now d)
  show ?thesis unfolding StampAudio by (subst media_stamp_frame) (use inv in \<open>simp add: turn_state_inv_def\<close>)
next
  case (StampVideo tml now d)
  show ?thesis unfolding StampVideo by (subst media_stamp_frame) (use inv in \<open>simp add: turn_state_inv_def\<close>)
next
  case (OriginOpened tml now)
  show ?thesis unfolding OriginOpened by (subst media_stamp_frame) (use inv in \<open>simp add: turn_state_inv_def\<close>)
next
  case BeginSegment
  obtain r s' where r: "ts_begin_output_segment s = (r, s')" by force
  then show ?thesis
    using BeginSegment inv begin_segment_inv [OF inv] begin_segment_Err [of s] by (cases r) auto
next
  case (SegmentUncertain i)
  show ?thesis unfolding SegmentUncertain turn_step_segment_ops by (rule with_segment_mut_inv [OF inv]) simp
next
  case (SegmentSent i)
  show ?thesis unfolding SegmentSent turn_step_segment_ops by (rule with_segment_mut_inv [OF inv]) simp
next
  case (SegmentPlayed i)
  show ?thesis unfolding SegmentPlayed turn_step_segment_ops by (rule with_segment_mut_inv [OF inv]) simp
qed (use inv in \<open>auto simp: advance_inv terminate_inv interrupt_inv\<close>)

lemma turn_step_progress:
  assumes inv: "turn_state_inv s"
  shows "segments_progress s (snd (turn_step c s))"
proof (cases c)
  case (Advance n)
  then show ?thesis
    by (cases rule: ts_transition_cases [of s n]) (auto intro: segments_progress_same)
next
  case (Terminate n)
  have "segments_progress s (snd (transition_and_freeze n s))"
  proof (cases rule: ts_transition_cases [of s n])
    case Ok
    then show ?thesis
      by (intro segments_progress_map [where f = "\<lambda>g. if is_cancelled_evidence g then g else cancel_segment g"])
        (simp_all add: transition_and_freeze_def freeze_output_segments_def freeze_loop_all cancel_segment_progress)
  qed (simp add: transition_and_freeze_def segments_progress_same)
  then show ?thesis using Terminate by (simp add: segments_progress_same)
next
  case (StampAudio tml now d)
  show ?thesis unfolding StampAudio by (subst media_stamp_frame) (simp add: segments_progress_same)
next
  case (StampVideo tml now d)
  show ?thesis unfolding StampVideo by (subst media_stamp_frame) (simp add: segments_progress_same)
next
  case (OriginOpened tml now)
  show ?thesis unfolding OriginOpened by (subst media_stamp_frame) (simp add: segments_progress_same)
next
  case BeginSegment
  obtain r s' where r: "ts_begin_output_segment s = (r, s')" by force
  have "segments_progress s s'"
  proof (cases r)
    case (Inl e)
    then show ?thesis using begin_segment_Err [of s] r by (auto intro: segments_progress_same)
  next
    case (Inr i)
    then obtain g where "output_segments s' = output_segments s @ [g]"
      using r by (auto simp: begin_segment_Ok_iff)
    then show ?thesis
      unfolding segments_progress_def by (intro exI [of _ "output_segments s"] exI [of _ "[g]"]) (simp add: list_all2_refl)
  qed
  then show ?thesis using BeginSegment r by simp
next
  case Interrupt
  then show ?thesis
  proof (cases "turn_terminal (ts_state s)")
    case True
    then show ?thesis using Interrupt by (simp add: interrupt_terminal segments_progress_same)
  next
    case False
    from interrupt_live [OF inv this] Interrupt show ?thesis
      by (auto intro!: segments_progress_map [where f = cancel_segment] cancel_segment_progress)
  qed
qed (simp_all only: turn_step_segment_ops with_segment_mut_progress)

lemma turn_new_inv: "turn_state_inv (TurnMutableState_new (Turn_new i c) epoch)"
  by (simp add: TurnMutableState_new_def turn_state_inv_def Turn_new_def)

lemma turn_run:
  assumes "turn_state_inv s"
  shows "turn_state_inv (final turn_step ops s) \<and> segments_progress s (final turn_step ops s)"
  using assms
proof (induction ops arbitrary: s)
  case Nil
  then show ?case by (simp add: segments_progress_same)
next
  case (Cons c ops)
  then show ?case
    using turn_step_inv [of s c] turn_step_progress [of s c] segments_progress_trans by (simp; blast)
qed

section \<open>The media of a turn\<close>

text \<open>A turn is bound to one epoch: its origin is opened in it, every stamp it is given carries it, and the
  turn remembers the sequence number of the last stamp.\<close>

definition origin_bound :: "TurnMediaState \<Rightarrow> bool" where
  [inv_defs]: "origin_bound m \<longleftrightarrow> is_none_or (\<lambda>o'. origin_epoch o' = bound_epoch m) (media_origin m)"

definition media_given :: "TurnMediaState \<Rightarrow> MediaTimelineStamp list \<Rightarrow> TurnMediaState \<Rightarrow> bool" where
  "media_given m sts m' \<longleftrightarrow>
     origin_bound m' \<and> bound_epoch m' = bound_epoch m \<and> (\<forall>st \<in> set sts. stamp_epoch st = bound_epoch m) \<and>
     last_sequence m' = (if sts = [] then last_sequence m else Some (stamp_sequence (last sts)))"

lemma media_given_refl: "origin_bound m \<Longrightarrow> media_given m [] m"
  by (simp add: media_given_def)

lemma media_given_trans: "media_given m xs m' \<Longrightarrow> media_given m' ys m'' \<Longrightarrow> media_given m (xs @ ys) m''"
  by (auto simp: media_given_def)

lemma turn_origin_bound:
  assumes "origin_bound m" "turn_origin tml now m = (r, m')"
  shows "media_given m [] m'" "r = Ok o' \<Longrightarrow> origin_epoch o' = bound_epoch m"
    "audio_cursor_micros m' = audio_cursor_micros m" "video_source_base_micros m' = video_source_base_micros m"
  using assms by (auto simp: turn_origin_def media_given_def origin_bound_def split: option.splits sum.splits if_splits)

lemma stamp_epoch_of_origin: "stamp o' rel tml = (Ok st, tml') \<Longrightarrow> stamp_epoch st = origin_epoch o'"
  by (auto simp: stamp_Ok_iff)

lemma audio_given:
  assumes "origin_bound m" "next_audio_stamp now d (m, tml) = (r, (m', tml'))"
  shows "media_given m (case r of Err _ \<Rightarrow> [] | Ok st \<Rightarrow> [st]) m'"
proof -
  obtain q m1 where q: "turn_origin tml now m = (q, m1)" by force
  note opened = turn_origin_bound [OF assms(1) q]
  show ?thesis
    using assms(2) opened q
    by (auto simp: next_audio_stamp_def media_given_def origin_bound_def stamp_epoch_of_origin
        split: sum.splits prod.splits option.splits)
qed

lemma video_given:
  assumes "origin_bound m" "next_video_stamp now src (m, tml) = (r, (m', tml'))"
  shows "media_given m (case r of Err _ \<Rightarrow> [] | Ok st \<Rightarrow> [st]) m'"
proof -
  obtain q m1 where q: "turn_origin tml now m = (q, m1)" by force
  note opened = turn_origin_bound [OF assms(1) q]
  show ?thesis
    using assms opened q
    by (auto simp: next_video_stamp_def Let_def media_given_def origin_bound_def stamp_epoch_of_origin
        split: sum.splits prod.splits option.splits if_splits)
qed

text \<open>Every other step leaves the media state alone.\<close>

lemma turn_step_media_same:
  assumes "\<And>tml now d. c \<noteq> StampAudio tml now d" "\<And>tml now d. c \<noteq> StampVideo tml now d" "\<And>tml now. c \<noteq> OriginOpened tml now"
  shows "ts_media (snd (turn_step c s)) = ts_media s" "stamp_given c s = []"
proof -
  have seg: "ts_media (snd (with_segment_mut i f s)) = ts_media s" for i f by (simp add: with_segment_mut_snd)
  have trans: "ts_media (snd (ts_transition n s)) = ts_media s" for n
    by (cases rule: ts_transition_cases [of s n]) simp_all
  show "ts_media (snd (turn_step c s)) = ts_media s"
  proof (cases c)
    case BeginSegment
    then show ?thesis by (auto simp: ts_begin_output_segment_def Let_def split: option.splits prod.splits sum.splits)
  next
    case Interrupt
    then show ?thesis
      using trans [of TurnState.Cancelled] by (auto simp: ts_interrupt_def Let_def split: prod.splits sum.splits)
  next
    case (Terminate n)
    then show ?thesis
      using trans [of n]
      by (auto simp: transition_and_freeze_def freeze_output_segments_def split: prod.splits sum.splits)
  qed (use assms seg trans in \<open>auto simp: turn_step_segment_ops simp del: turn_step.simps(4-6)\<close>)
  show "stamp_given c s = []" using assms by (cases c) auto
qed

lemma turn_step_given:
  assumes "origin_bound (ts_media s)"
  shows "media_given (ts_media s) (stamp_given c s) (ts_media (snd (turn_step c s)))"
proof (cases c)
  case (StampAudio tml now d)
  then show ?thesis
    using assms audio_given [OF assms, of now d tml] media_given_refl
    by (cases "next_audio_stamp now d (ts_media s, tml)"; cases "fst (next_audio_stamp now d (ts_media s, tml))")
      (auto simp: next_audio_media_stamp_def)
next
  case (StampVideo tml now src)
  then show ?thesis
    using assms video_given [OF assms, of now src tml] media_given_refl
    by (cases "next_video_stamp now src (ts_media s, tml)"; cases "fst (next_video_stamp now src (ts_media s, tml))")
      (auto simp: next_video_media_stamp_def)
next
  case (OriginOpened tml now)
  then show ?thesis
    using turn_origin_bound(1) [OF assms, of tml now] media_given_refl [OF assms]
    by (cases "turn_origin tml now (ts_media s)") auto
qed (subst turn_step_media_same; simp add: media_given_refl assms)+

lemma turn_run_given:
  "origin_bound (ts_media s) \<Longrightarrow> media_given (ts_media s) (turn_stamps ops s) (ts_media (final turn_step ops s))"
proof (induction ops arbitrary: s)
  case (Cons c ops)
  have step: "media_given (ts_media s) (stamp_given c s) (ts_media (snd (turn_step c s)))"
    using Cons.prems by (rule turn_step_given)
  then have "origin_bound (ts_media (snd (turn_step c s)))" by (simp add: media_given_def)
  from media_given_trans [OF step Cons.IH [OF this]] show ?case by simp
qed (simp add: media_given_refl)

lemma turn_new_media: "origin_bound (ts_media (TurnMutableState_new t epoch))"
  "bound_epoch (ts_media (TurnMutableState_new t epoch)) = epoch"
  "last_sequence (ts_media (TurnMutableState_new t epoch)) = None"
  by (simp_all add: TurnMutableState_new_def TurnMediaState_new_def origin_bound_def)

text \<open>What a flush of a turn asks for: the turn's epoch and the last stamp it was given.\<close>

lemma turn_flush_context:
  fixes t epoch hist
  defines "given \<equiv> turn_stamps hist (TurnMutableState_new t epoch)"
  shows "media_flush_context (final turn_step hist (TurnMutableState_new t epoch)) =
      (epoch, if given = [] then None else Some (stamp_sequence (last given)))"
    and "\<forall>st \<in> set given. stamp_epoch st = epoch"
  using turn_run_given [OF turn_new_media(1), of t epoch hist]
  by (auto simp: given_def media_given_def turn_new_media origin_bound_def media_flush_context_def flush_context_def
      split: option.splits)

section \<open>Properties\<close>

text \<open>Whatever sequence of operations a turn goes through, successful or refused: its segments
  are numbered 1, 2, 3, ... without gap or repetition and the next number is the one after the last;
  and its segments are frozen at a cancelled checkpoint exactly when the turn was cancelled, denied
  or failed, so that no segment escapes an early end and none is frozen by an orderly one.\<close>

lemma turn_segments_consistent:
  "let s = final turn_step ops (TurnMutableState_new (Turn_new i c) epoch)
   in map (\<lambda>g. unat (OutputSegmentId_get (segment_id g))) (output_segments s) =
        [1..<unat (next_segment_id s)] \<and>
      list_all (\<lambda>g. is_cancelled_evidence g =
        (ts_state s \<in> {TurnState.Cancelled, Denied, TurnState.Failed})) (output_segments s)"
  using turn_run [OF turn_new_inv, of ops i c epoch] by (simp add: Let_def turn_state_inv_def ended_early_def)

text \<open>C20. Evidence is never taken back. Between any two moments of a turn's life every segment keeps
  its identity and position, never falls behind the delivery checkpoint it had reached, and once its
  text counts as spoken it counts as spoken for ever; in particular interrupting, denying or failing
  the turn does not erase what was heard.\<close>

theorem turn_evidence_never_lost:
  assumes s_def: "s = final turn_step before (TurnMutableState_new (Turn_new i c) epoch)"
    and s'_def: "s' = final turn_step after s"
    and "k < length (output_segments s)"
  shows "k < length (output_segments s') \<and>
         segment_id (output_segments s' ! k) = segment_id (output_segments s ! k) \<and>
         checkpoint_rank (fst (evidence_abs (evidence_state (segment_evidence (output_segments s ! k)))))
           \<le> checkpoint_rank (fst (evidence_abs (evidence_state (segment_evidence (output_segments s' ! k))))) \<and>
         (segment_eligible_as_spoken (output_segments s ! k) \<longrightarrow> segment_eligible_as_spoken (output_segments s' ! k))"
proof -
  have "segments_progress s s'"
    using turn_run [OF conjunct1 [OF turn_run [OF turn_new_inv, of before i c epoch]], of after] by (simp add: s_def s'_def)
  then have "k < length (output_segments s') \<and> segment_progress (output_segments s ! k) (output_segments s' ! k)"
    using assms(3) by (rule segments_progress_nth)
  then show ?thesis by (simp add: segment_progress_def)
qed

definition spoken_start :: "turn_op list" where
  "spoken_start = [Advance Authorized, Advance Processing, Advance Outputting, BeginSegment,
     SegmentSent (OutputSegmentId 1), SegmentPlayed (OutputSegmentId 1)]"

theorem turn_evidence_never_lost_witness:
  "let s = final turn_step spoken_start (TurnMutableState_new (Turn_new (TurnId []) (CorrelationId [])) 0);
       s' = final turn_step [BeginSegment, Interrupt] s
   in segment_eligible_as_spoken (output_segments s ! 0) \<and> segment_eligible_as_spoken (output_segments s' ! 0) \<and>
      ts_state s' = TurnState.Cancelled"
proof -
  let ?s = "final turn_step spoken_start (TurnMutableState_new (Turn_new (TurnId []) (CorrelationId [])) 0)"
  have l: "0 < length (output_segments ?s)" by code_simp
  have e: "segment_eligible_as_spoken (output_segments ?s ! 0)" by code_simp
  have c: "ts_state (final turn_step [BeginSegment, Interrupt] ?s) = TurnState.Cancelled" by code_simp
  show ?thesis
    using turn_evidence_never_lost [OF refl refl l, of "[BeginSegment, Interrupt]"] e c
    by (simp only: Let_def simp_thms)
qed

text \<open>Interruption never half-happens. On a turn that has not ended it always succeeds, cancels
  the turn and freezes every one of its segments at the checkpoint it had reached, keeping the
  others' order and identity; on a turn that has ended it is refused and changes nothing. So two
  racing interruptions cannot both succeed.\<close>

lemma interrupt_all_or_nothing:
  "let s = final turn_step ops (TurnMutableState_new (Turn_new i c) epoch)
   in if turn_terminal (ts_state s) then ts_interrupt s = (Err InvalidStateTransition, s)
      else \<exists>s'. ts_interrupt s = (Ok (), s') \<and> ts_state s' = TurnState.Cancelled \<and>
           map segment_id (output_segments s') = map segment_id (output_segments s) \<and>
           list_all is_cancelled_evidence (output_segments s') \<and> ts_interrupt s' = (Err InvalidStateTransition, s')"
proof -
  let ?s = "final turn_step ops (TurnMutableState_new (Turn_new i c) epoch)"
  have "turn_state_inv ?s" using turn_run [OF turn_new_inv, of ops i c epoch] by simp
  then show ?thesis
    using interrupt_live [of ?s] by (auto simp: Let_def list_all_iff interrupt_terminal turn_terminal_def)
qed

end
