(* ===== verification/VPR_Authority.thy ===== *)
theory VPR_Authority
  imports VPR_Policy VPR_Integration VPR_Turn_State
begin

text \<open>
  The shared state of one realtime session and its two controllers
  (\<^verbatim>\<open>crates/vpr-runtime/src\<close>: \<^verbatim>\<open>authority.rs\<close>, \<^verbatim>\<open>execution_gate.rs\<close>, \<^verbatim>\<open>cancellation.rs\<close>,
  \<^verbatim>\<open>provider.rs\<close>, \<^verbatim>\<open>error.rs\<close>).

  The program shares this state between threads through \<open>Arc\<close>s. Here it is one record \<open>runtime\<close>:
  what the locks protect, whether each lock is poisoned, the cancellation flags by address (an address
  without a flag is one whose last strong reference is gone, so that a \<open>Weak\<close> no longer upgrades), the
  turn states by address, and what the clock would answer now. Each function below is one critical
  section: it runs from the acquisition of the session gate to its release.

  The locale \<open>bound_turn_registry\<close> states what the authorization controller and the egress policy
  controller have in common: turns are bound to the current key under the same lock that changes the
  key, and a change sweeps the bound turns. Its lemmas say that a turn that is still running is bound
  to the current key.
\<close>

section \<open>Denial reasons\<close>

datatype RuntimeDenyReason =
    AuthorizationRevoked
  | AuthorizationExpired
  | AuthorizationStale
  | AuthorityDenied
  | EgressDenied
  | EgressPolicyStale
  | ConsentRequired
  | LocalOnlyRequired
  | InvalidTurnState
  | TurnCancelled
  | InternalError

fun reason_code :: "RuntimeDenyReason \<Rightarrow> Rt0ReasonCode" where
  "reason_code AuthorizationRevoked = AuthRevoked"
| "reason_code AuthorizationStale = AuthRevoked"
| "reason_code AuthorizationExpired = AuthExpired"
| "reason_code AuthorityDenied = AuthScopeDenied"
| "reason_code EgressDenied = Rt0ReasonCode.EgressDenied"
| "reason_code EgressPolicyStale = Rt0ReasonCode.EgressDenied"
| "reason_code ConsentRequired = Rt0ReasonCode.ConsentRequired"
| "reason_code LocalOnlyRequired = EgressLocalOnly"
| "reason_code InvalidTurnState = InvalidStateTransition"
| "reason_code TurnCancelled = Rt0ReasonCode.TurnCancelled"
| "reason_code InternalError = Rt0ReasonCode.InternalError"

datatype ProviderExecutionError = Denied RuntimeDenyReason | Provider ProviderError

fun provider_reason_code :: "ProviderErrorKind \<Rightarrow> Rt0ReasonCode" where
  "provider_reason_code ProviderErrorKind.Unavailable = ProviderUnavailable"
| "provider_reason_code RateLimited = ProviderRateLimited"
| "provider_reason_code Timeout = ProviderTimeout"
| "provider_reason_code ProviderErrorKind.Cancelled = Rt0ReasonCode.TurnCancelled"
| "provider_reason_code PolicyDenied = Rt0ReasonCode.EgressDenied"
| "provider_reason_code AuthenticationDenied = ProviderAuthenticationDenied"
| "provider_reason_code InsufficientCredits = BudgetExhausted"
| "provider_reason_code InvalidResponse = Rt0ReasonCode.InternalError"

fun execution_reason_code :: "ProviderExecutionError \<Rightarrow> Rt0ReasonCode" where
  "execution_reason_code (Denied reason) = reason_code reason"
| "execution_reason_code (Provider error) = provider_reason_code (provider_error_kind error)"

fun deny_of_validity :: "AuthorizationValidityError \<Rightarrow> RuntimeDenyReason" where
  "deny_of_validity AuthorizationValidityError.StaleEpoch = AuthorizationStale"
| "deny_of_validity AuthorizationValidityError.Revoked = AuthorizationRevoked"
| "deny_of_validity Expired = AuthorizationExpired"

section \<open>Shared state\<close>

record BoundTurnCancellation =
  bt_epoch :: AuthorizationEpoch
  bt_cancellation :: nat

record AuthorizationRuntimeState =
  authorization :: AuthorizationState
  effective_authority :: EffectiveAuthority
  auth_bound_turns :: "BoundTurnCancellation list"

record EgressPolicySnapshot =
  policy_snapshot_revision :: PolicyRevision

record EgressPolicyRuntimeState =
  ep_revision :: PolicyRevision
  ep_provider_policy_allows :: bool
  ep_consent :: ConsentState
  ep_local_only_required :: bool
  ep_bound_turns :: "(PolicyRevision \<times> nat) list"

record runtime =
  rt_session :: RealtimeSession
  gate_poisoned :: bool
  pending_active :: nat
  pending_poisoned :: bool
  auth_state :: AuthorizationRuntimeState
  auth_poisoned :: bool
  policy_state :: EgressPolicyRuntimeState
  policy_poisoned :: bool
  media_timeline :: MediaTimelineState
  flags :: "nat \<Rightarrow> bool option"
  cells :: "nat \<Rightarrow> TurnMutableState"
  next_addr :: nat
  clock_now_millis :: "u64 option"

section \<open>Cancellation\<close>

definition TurnCancellation_cancel :: "nat \<Rightarrow> runtime \<Rightarrow> runtime" where
  "TurnCancellation_cancel a s = s\<lparr>flags := (flags s)(a \<mapsto> True)\<rparr>"

definition TurnCancellation_is_cancelled :: "nat \<Rightarrow> runtime \<Rightarrow> bool" where
  "TurnCancellation_is_cancelled a s \<longleftrightarrow> flags s a = Some True"

record ProviderCancellation =
  pc_turn :: nat
  pc_expires_at_millis :: "u64 option"

definition ProviderCancellation_is_cancelled :: "ProviderCancellation \<Rightarrow> runtime \<Rightarrow> bool" where
  "ProviderCancellation_is_cancelled self s \<longleftrightarrow>
     (if TurnCancellation_is_cancelled (pc_turn self) s then True
      else (case pc_expires_at_millis self of
              None \<Rightarrow> False
            | Some expires \<Rightarrow>
                (case clock_now_millis s of None \<Rightarrow> True | Some now_millis \<Rightarrow> now_millis \<ge> expires)))"

section \<open>Execution gate\<close>

definition begin_provider_egress :: "ProviderCancellation \<Rightarrow> (runtime, unit, unit) op" where
  "begin_provider_egress cancellation s =
     (if gate_poisoned s then (Err (), s)
      else if ProviderCancellation_is_cancelled cancellation s then (Err (), s)
      else if pending_poisoned s then (Err (), s)
      else (case usize_checked_add (pending_active s) 1 of
              None \<Rightarrow> (Err (), s)
            | Some n \<Rightarrow> (Ok (), s\<lparr>pending_active := n\<rparr>)))"

definition ProviderEgressGuard_drop :: "runtime \<Rightarrow> runtime" where
  "ProviderEgressGuard_drop s = (if pending_poisoned s then s else s\<lparr>pending_active := pending_active s - 1\<rparr>)"

text \<open>
  The wait releases the counter's lock until it is woken or times out; \<open>waited\<close> is the state at that
  moment, whatever other threads did meanwhile.
\<close>

definition await_provider_quiescence :: "(runtime \<Rightarrow> runtime) \<Rightarrow> runtime \<Rightarrow> bool \<times> runtime" where
  "await_provider_quiescence waited s =
     (if pending_poisoned s then (False, s)
      else let s' = (if pending_active s \<noteq> 0 then waited s else s)
           in (\<not> pending_poisoned s' \<and> pending_active s' = 0, s'))"

section \<open>Bound turns\<close>

text \<open>The closure both controllers give to \<open>retain\<close>: entries whose flag is gone are dropped, entries
  with another key than the current one are cancelled.\<close>

fun retain_and_cancel ::
  "('b \<Rightarrow> 'k) \<Rightarrow> ('b \<Rightarrow> nat) \<Rightarrow> 'k \<Rightarrow> 'b list \<Rightarrow> (nat \<Rightarrow> bool option) \<Rightarrow> 'b list \<times> (nat \<Rightarrow> bool option)" where
  "retain_and_cancel key addr current [] fl = ([], fl)"
| "retain_and_cancel key addr current (b # bs) fl =
     (case fl (addr b) of
        None \<Rightarrow> retain_and_cancel key addr current bs fl
      | Some _ \<Rightarrow>
          (case retain_and_cancel key addr current bs (if key b \<noteq> current then fl(addr b \<mapsto> True) else fl) of
             (kept, fl') \<Rightarrow> (b # kept, fl')))"

section \<open>Authorization controller\<close>

definition AuthorizationRuntimeState_new :: "u64 option \<Rightarrow> EffectiveAuthority \<Rightarrow> AuthorizationRuntimeState" where
  "AuthorizationRuntimeState_new expires effective =
     \<lparr>authorization = AuthorizationState_new expires, effective_authority = effective, auth_bound_turns = []\<rparr>"

definition auth_bind_turn :: "nat \<Rightarrow> (runtime, AuthorizationSnapshot, RuntimeDenyReason) op" where
  "auth_bind_turn cancellation s =
     (if auth_poisoned s then (Err InternalError, s)
      else let state = auth_state s;
               kept = filter (\<lambda>bound. flags s (bt_cancellation bound) \<noteq> None) (auth_bound_turns state);
               snap = snapshot (authorization state)
           in (Ok snap, s\<lparr>auth_state := state\<lparr>auth_bound_turns :=
                 kept @ [\<lparr>bt_epoch = snapshot_epoch snap, bt_cancellation = cancellation\<rparr>]\<rparr>\<rparr>))"

definition cancel_stale_bound_turns :: "runtime \<Rightarrow> runtime" where
  "cancel_stale_bound_turns s =
     (case retain_and_cancel bt_epoch bt_cancellation (auth_epoch (authorization (auth_state s)))
        (auth_bound_turns (auth_state s)) (flags s) of
        (kept, fl) \<Rightarrow> s\<lparr>auth_state := (auth_state s)\<lparr>auth_bound_turns := kept\<rparr>, flags := fl\<rparr>)"

definition auth_revoke :: "(runtime, unit, RuntimeDenyReason) op" where
  "auth_revoke s =
     (if gate_poisoned s then (Err InternalError, s)
      else if auth_poisoned s then (Err InternalError, s)
      else (case revoke (authorization (auth_state s)) of
              (Err _, _) \<Rightarrow> (Err InternalError, s)
            | (Ok _, a) \<Rightarrow>
                (Ok (), cancel_stale_bound_turns (s\<lparr>auth_state := (auth_state s)\<lparr>authorization := a\<rparr>\<rparr>))))"

definition auth_replace :: "u64 option \<Rightarrow> (runtime, unit, RuntimeDenyReason) op" where
  "auth_replace expires s =
     (if gate_poisoned s then (Err InternalError, s)
      else if auth_poisoned s then (Err InternalError, s)
      else (case replace expires (authorization (auth_state s)) of
              (Err _, _) \<Rightarrow> (Err InternalError, s)
            | (Ok _, a) \<Rightarrow>
                (Ok (), cancel_stale_bound_turns (s\<lparr>auth_state := (auth_state s)\<lparr>authorization := a\<rparr>\<rparr>))))"

definition auth_replace_authority :: "EffectiveAuthority \<Rightarrow> u64 option \<Rightarrow> (runtime, unit, RuntimeDenyReason) op" where
  "auth_replace_authority effective expires s =
     (if gate_poisoned s then (Err InternalError, s)
      else if auth_poisoned s then (Err InternalError, s)
      else (case replace expires (authorization (auth_state s)) of
              (Err _, _) \<Rightarrow> (Err InternalError, s)
            | (Ok _, a) \<Rightarrow>
                (Ok (), cancel_stale_bound_turns
                   (s\<lparr>auth_state := (auth_state s)\<lparr>authorization := a, effective_authority := effective\<rparr>\<rparr>))))"

definition validate_bound :: "runtime \<Rightarrow> AuthorizationSnapshot \<Rightarrow> u64 \<Rightarrow> RuntimeDenyReason + unit" where
  "validate_bound s snap now_millis =
     (if auth_poisoned s then Err InternalError
      else map_err deny_of_validity (validate (authorization (auth_state s)) snap now_millis))"

record ProviderCallContext =
  ctx_egress_snapshot :: EgressPolicySnapshot
  ctx_cancellation :: nat
  ctx_required_scope :: AuthorityScope
  ctx_data_class :: DataClass

definition auth_issue_provider_permit ::
  "runtime \<Rightarrow> AuthorizationSnapshot \<Rightarrow> u64 \<Rightarrow> ProviderCallContext \<Rightarrow> RuntimeDenyReason + ProviderCancellation" where
  "auth_issue_provider_permit s snap now_millis context =
     (if auth_poisoned s then Err InternalError
      else if policy_poisoned s then Err InternalError
      else (case validate (authorization (auth_state s)) snap now_millis of
              Err e \<Rightarrow> Err (deny_of_validity e)
            | Ok _ \<Rightarrow>
                (if ep_revision (policy_state s) \<noteq> policy_snapshot_revision (ctx_egress_snapshot context)
                 then Err EgressPolicyStale
                 else if TurnCancellation_is_cancelled (ctx_cancellation context) s then Err TurnCancelled
                 else if \<not> allows (effective_authority (auth_state s)) (ctx_required_scope context)
                 then Err AuthorityDenied
                 else (case decide_egress
                         \<lparr>data_class = ctx_data_class context,
                          provider_policy_allows = ep_provider_policy_allows (policy_state s),
                          consent = ep_consent (policy_state s),
                          local_only_required = ep_local_only_required (policy_state s)\<rparr> of
                         Allow _ \<Rightarrow> Ok \<lparr>pc_turn = ctx_cancellation context,
                                       pc_expires_at_millis = expires_at_millis (authorization (auth_state s))\<rparr>
                       | LocalOnly _ \<Rightarrow> Err LocalOnlyRequired
                       | Deny EgressReason.ConsentRequired \<Rightarrow> Err ConsentRequired
                       | Deny _ \<Rightarrow> Err EgressDenied))))"

section \<open>Egress policy controller\<close>

definition EgressPolicyRuntimeState_new :: "bool \<Rightarrow> ConsentState \<Rightarrow> bool \<Rightarrow> EgressPolicyRuntimeState" where
  "EgressPolicyRuntimeState_new provider_allows con local_only =
     \<lparr>ep_revision = PolicyRevision_initial, ep_provider_policy_allows = provider_allows, ep_consent = con,
      ep_local_only_required = local_only, ep_bound_turns = []\<rparr>"

definition policy_bind_turn :: "nat \<Rightarrow> (runtime, EgressPolicySnapshot, RuntimeDenyReason) op" where
  "policy_bind_turn cancellation s =
     (if policy_poisoned s then (Err InternalError, s)
      else let state = policy_state s;
               kept = filter (\<lambda>(_, weak). flags s weak \<noteq> None) (ep_bound_turns state);
               snap = \<lparr>policy_snapshot_revision = ep_revision state\<rparr>
           in (Ok snap, s\<lparr>policy_state := state\<lparr>ep_bound_turns :=
                 kept @ [(policy_snapshot_revision snap, cancellation)]\<rparr>\<rparr>))"

definition validate_snapshot :: "runtime \<Rightarrow> EgressPolicySnapshot \<Rightarrow> RuntimeDenyReason + unit" where
  "validate_snapshot s snap =
     (if policy_poisoned s then Err InternalError
      else if ep_revision (policy_state s) = policy_snapshot_revision snap then Ok ()
      else Err EgressPolicyStale)"

definition advance_and_cancel :: "(runtime, unit, RuntimeDenyReason) op" where
  "advance_and_cancel s =
     (case PolicyRevision_next (ep_revision (policy_state s)) of
        Err _ \<Rightarrow> (Err InternalError, s)
      | Ok current \<Rightarrow>
          (case retain_and_cancel fst snd current (ep_bound_turns (policy_state s)) (flags s) of
             (kept, fl) \<Rightarrow>
               (Ok (), s\<lparr>policy_state := (policy_state s)\<lparr>ep_revision := current, ep_bound_turns := kept\<rparr>,
                         flags := fl\<rparr>)))"

text \<open>The three setters differ in the field they compare and write.\<close>

definition policy_set ::
  "(EgressPolicyRuntimeState \<Rightarrow> bool) \<Rightarrow> (EgressPolicyRuntimeState \<Rightarrow> EgressPolicyRuntimeState)
     \<Rightarrow> (runtime, unit, RuntimeDenyReason) op" where
  "policy_set differs upd s =
     (if gate_poisoned s then (Err InternalError, s)
      else if policy_poisoned s then (Err InternalError, s)
      else if differs (policy_state s) then
        (case advance_and_cancel s of
           (Err e, s') \<Rightarrow> (Err e, s')
         | (Ok _, s') \<Rightarrow> (Ok (), s'\<lparr>policy_state := upd (policy_state s')\<rparr>))
      else (Ok (), s))"

definition policy_set_provider_policy_allows :: "bool \<Rightarrow> (runtime, unit, RuntimeDenyReason) op" where
  "policy_set_provider_policy_allows v s =
     policy_set (\<lambda>p. ep_provider_policy_allows p \<noteq> v) (\<lambda>p. p\<lparr>ep_provider_policy_allows := v\<rparr>) s"

definition policy_set_consent :: "ConsentState \<Rightarrow> (runtime, unit, RuntimeDenyReason) op" where
  "policy_set_consent v s = policy_set (\<lambda>p. ep_consent p \<noteq> v) (\<lambda>p. p\<lparr>ep_consent := v\<rparr>) s"

definition policy_set_local_only_required :: "bool \<Rightarrow> (runtime, unit, RuntimeDenyReason) op" where
  "policy_set_local_only_required v s =
     policy_set (\<lambda>p. ep_local_only_required p \<noteq> v) (\<lambda>p. p\<lparr>ep_local_only_required := v\<rparr>) s"

section \<open>Provider permits\<close>

record ProviderExecutionPermit =
  permit_cancellation :: ProviderCancellation
  active_egress :: bool

text \<open>
  The provider is code outside the repository: \<open>operation\<close> stands for the closure that calls it. It is
  given the cancellation and runs with no lock held, so it answers with its result and the state
  other threads have left the session in by then. \<open>'x\<close> is what the closure captures by mutable
  reference: the sink the provider writes to, or its stream.
\<close>

type_synonym ('x, 'a) provider_operation = "ProviderCancellation \<Rightarrow> ('x \<times> runtime, 'a, ProviderError) op"

definition dispatch ::
  "ProviderExecutionPermit \<Rightarrow> ('x, 'a) provider_operation \<Rightarrow> ('x \<times> runtime, 'a, ProviderExecutionError) op" where
  "dispatch self operation s =
     (if ProviderCancellation_is_cancelled (permit_cancellation self) (snd s) then (Err (Denied TurnCancelled), s)
      else (case operation (permit_cancellation self) s of
              (result, s') \<Rightarrow>
                (if ProviderCancellation_is_cancelled (permit_cancellation self) (snd s') then
                   (case result of
                      Err error \<Rightarrow>
                        (if provider_error_kind error = ProviderErrorKind.Cancelled then (Err (Provider error), s')
                         else (Err (Denied TurnCancelled), s'))
                    | Ok _ \<Rightarrow> (Err (Denied TurnCancelled), s'))
                 else (map_err Provider result, s'))))"

definition permit_drop :: "ProviderExecutionPermit \<Rightarrow> runtime \<Rightarrow> runtime" where
  "permit_drop p s = (if active_egress p then ProviderEgressGuard_drop s else s)"

datatype ProviderOperation = Llm | Stt | Tts | Avatar

definition ProviderOperation_data_class :: "ProviderOperation \<Rightarrow> DataClass" where
  "ProviderOperation_data_class self =
     (case self of Llm \<Rightarrow> Biometric | Stt \<Rightarrow> Biometric | Tts \<Rightarrow> Biometric | Avatar \<Rightarrow> Biometric)"

definition ProviderOperation_required_scope :: "ProviderOperation \<Rightarrow> AuthorityScope" where
  "ProviderOperation_required_scope self =
     (let scope = (case self of
          Llm \<Rightarrow> lit ''provider.egress'' | Stt \<Rightarrow> lit ''provider.egress''
        | Tts \<Rightarrow> lit ''provider.egress'' | Avatar \<Rightarrow> lit ''provider.egress'')
      in the (AuthorityScope_new scope))"

section \<open>Registries of bound turns\<close>

definition sweep :: "'k \<Rightarrow> ('k \<times> nat) list \<Rightarrow> (nat \<Rightarrow> bool option) \<Rightarrow> nat \<Rightarrow> bool option" where
  "sweep cur bs fl = (\<lambda>a. if fl a \<noteq> None \<and> (\<exists>k. (k, a) \<in> set bs \<and> k \<noteq> cur) then Some True else fl a)"

lemma retain_and_cancel_eq:
  "retain_and_cancel key addr cur bs fl =
     (filter (\<lambda>b. fl (addr b) \<noteq> None) bs, sweep cur (map (\<lambda>b. (key b, addr b)) bs) fl)"
proof (induction bs arbitrary: fl)
  case (Cons b bs)
  have "(\<lambda>c. (if key b \<noteq> cur then fl(addr b \<mapsto> True) else fl) (addr c) \<noteq> None) =
      (\<lambda>c. fl (addr c) \<noteq> None)" if "fl (addr b) \<noteq> None"
    using that by auto
  with Cons show ?case by (auto simp: sweep_def fun_eq_iff intro!: filter_cong split: option.splits)
qed (simp add: sweep_def fun_eq_iff)

text \<open>Every bound turn carries a key that was current once, and is cancelled or gone when it no longer is.\<close>

definition registry_ok :: "'k::linorder \<Rightarrow> ('k \<times> nat) list \<Rightarrow> (nat \<Rightarrow> bool option) \<Rightarrow> bool" where
  [inv_defs]: "registry_ok cur bs fl \<longleftrightarrow> (\<forall>(k, a) \<in> set bs. k \<le> cur \<and> (k < cur \<longrightarrow> fl a \<noteq> Some False))"

text \<open>Flags only ever go from running to cancelled, and from there to gone.\<close>

definition flags_progress :: "(nat \<Rightarrow> bool option) \<Rightarrow> (nat \<Rightarrow> bool option) \<Rightarrow> bool" where
  "flags_progress fl fl' \<longleftrightarrow> (\<forall>a. fl' a = Some False \<longrightarrow> fl a = Some False)"

lemma flags_progress_refl [simp]: "flags_progress fl fl"
  by (simp add: flags_progress_def)

lemma flags_progress_trans: "flags_progress f g \<Longrightarrow> flags_progress g h \<Longrightarrow> flags_progress f h"
  by (simp add: flags_progress_def)

lemma flags_progress_sweep [simp]: "flags_progress fl (sweep cur bs fl)"
  by (simp add: flags_progress_def sweep_def)

lemma sweep_None_iff [simp]: "sweep cur bs fl a = None \<longleftrightarrow> fl a = None"
  by (simp add: sweep_def)

lemma registry_ok_progress: "registry_ok cur bs fl \<Longrightarrow> flags_progress fl fl' \<Longrightarrow> registry_ok cur bs fl'"
  by (fastforce simp: registry_ok_def flags_progress_def)

locale bound_turn_registry =
  fixes current :: "runtime \<Rightarrow> 'k::linorder" and bound :: "runtime \<Rightarrow> ('k \<times> nat) list"
    and bind :: "nat \<Rightarrow> (runtime, 'snap, RuntimeDenyReason) op" and key_of :: "'snap \<Rightarrow> 'k"
    and change :: "'c \<Rightarrow> (runtime, unit, RuntimeDenyReason) op"
  assumes bind_Ok: "bind a s = (Ok snap, s') \<Longrightarrow>
        key_of snap = current s \<and> current s' = current s \<and> flags s' = flags s \<and>
        bound s' = filter (\<lambda>(k, b). flags s b \<noteq> None) (bound s) @ [(current s, a)]"
    and bind_Err: "bind a s = (Err e, s') \<Longrightarrow> s' = s"
    and change_cases: "change c s = (r, s') \<Longrightarrow>
        (current s' = current s \<and> bound s' = bound s \<and> flags s' = flags s) \<or>
        (current s \<le> current s' \<and> bound s' = filter (\<lambda>(k, b). flags s b \<noteq> None) (bound s) \<and>
         flags s' = sweep (current s') (bound s) (flags s))"
begin

abbreviation ok :: "runtime \<Rightarrow> bool" where
  "ok s \<equiv> registry_ok (current s) (bound s) (flags s)"

lemma bind_ok: "ok s \<Longrightarrow> bind a s = (r, s') \<Longrightarrow> ok s'"
  using bind_Ok [of a s _ s'] bind_Err [of a s _ s'] by (cases r) (auto simp: registry_ok_def)

lemma change_ok:
  assumes "ok s" and "change c s = (r, s')"
  shows "ok s'"
  using change_cases [OF assms(2)]
proof
  assume "current s \<le> current s' \<and> bound s' = filter (\<lambda>(k, b). flags s b \<noteq> None) (bound s) \<and>
      flags s' = sweep (current s') (bound s) (flags s)"
  with assms(1) show ?thesis by (auto simp: registry_ok_def sweep_def)
qed (use assms(1) in simp)

lemma change_current: "change c s = (r, s') \<Longrightarrow> current s \<le> current s'"
  using change_cases [of c s r s'] by auto

lemma change_flags: "change c s = (r, s') \<Longrightarrow> flags_progress (flags s) (flags s')"
  using change_cases [of c s r s'] by auto

lemma change_live: "change c s = (r, s') \<Longrightarrow> flags s' a = None \<longleftrightarrow> flags s a = None"
  using change_cases [of c s r s'] by auto

text \<open>A turn is in the registry as long as it lives.\<close>

lemma bind_keeps: "bind a s = (r, s') \<Longrightarrow> (k, b) \<in> set (bound s) \<Longrightarrow> flags s b \<noteq> None \<Longrightarrow> (k, b) \<in> set (bound s')"
  using bind_Ok [of a s _ s'] bind_Err [of a s _ s'] by (cases r) auto

lemma change_keeps: "change c s = (r, s') \<Longrightarrow> (k, b) \<in> set (bound s) \<Longrightarrow> flags s b \<noteq> None \<Longrightarrow> (k, b) \<in> set (bound s')"
  using change_cases [of c s r s'] by auto

text \<open>A turn that still runs is bound to the current key.\<close>

lemma running_is_current: "ok s \<Longrightarrow> (k, a) \<in> set (bound s) \<Longrightarrow> flags s a = Some False \<Longrightarrow> k = current s"
  by (fastforce simp: registry_ok_def)

text \<open>A change of the key cancels every turn that is bound.\<close>

lemma change_cancels:
  assumes "ok s" and "change c s = (r, s')" and "current s < current s'"
    and "(k, a) \<in> set (bound s)" and "flags s a \<noteq> None"
  shows "flags s' a = Some True"
proof -
  have "k < current s'" using assms(1,3,4) by (fastforce simp: registry_ok_def)
  then show ?thesis
    using change_cases [OF assms(2)] assms(3-5) by (auto simp: sweep_def)
qed

end

subsection \<open>The two controllers\<close>

datatype auth_event = RevokeAuth | ReplaceAuth "u64 option" | ReplaceAuthority EffectiveAuthority "u64 option"

fun auth_change :: "auth_event \<Rightarrow> (runtime, unit, RuntimeDenyReason) op" where
  "auth_change RevokeAuth = auth_revoke"
| "auth_change (ReplaceAuth expires) = auth_replace expires"
| "auth_change (ReplaceAuthority effective expires) = auth_replace_authority effective expires"

datatype policy_event = SetProviderPolicyAllows bool | SetConsent ConsentState | SetLocalOnlyRequired bool

fun policy_change :: "policy_event \<Rightarrow> (runtime, unit, RuntimeDenyReason) op" where
  "policy_change (SetProviderPolicyAllows v) = policy_set_provider_policy_allows v"
| "policy_change (SetConsent v) = policy_set_consent v"
| "policy_change (SetLocalOnlyRequired v) = policy_set_local_only_required v"

abbreviation current_epoch :: "runtime \<Rightarrow> AuthorizationEpoch" where
  "current_epoch s \<equiv> auth_epoch (authorization (auth_state s))"

definition epoch_bound :: "runtime \<Rightarrow> (AuthorizationEpoch \<times> nat) list" where
  "epoch_bound s = map (\<lambda>b. (bt_epoch b, bt_cancellation b)) (auth_bound_turns (auth_state s))"

abbreviation current_revision :: "runtime \<Rightarrow> PolicyRevision" where
  "current_revision s \<equiv> ep_revision (policy_state s)"

abbreviation revision_bound :: "runtime \<Rightarrow> (PolicyRevision \<times> nat) list" where
  "revision_bound s \<equiv> ep_bound_turns (policy_state s)"

lemma cancel_stale_bound_turns_eq:
  "cancel_stale_bound_turns s =
     s\<lparr>auth_state := (auth_state s)\<lparr>auth_bound_turns :=
          filter (\<lambda>b. flags s (bt_cancellation b) \<noteq> None) (auth_bound_turns (auth_state s))\<rparr>,
       flags := sweep (current_epoch s) (epoch_bound s) (flags s)\<rparr>"
  by (simp add: cancel_stale_bound_turns_def retain_and_cancel_eq epoch_bound_def)

lemma revoke_Ok: "revoke a = (Ok (), b) \<Longrightarrow> auth_epoch a \<le> auth_epoch b \<and> auth_revoked b"
  by (auto simp: revoke_def dest: epoch_next_less split: if_splits sum.splits)

lemma replace_Ok: "replace x a = (Ok (), b) \<Longrightarrow>
    auth_epoch a < auth_epoch b \<and> \<not> auth_revoked b \<and> expires_at_millis b = x"
  by (auto simp: replace_def dest: epoch_next_less split: sum.splits)

text \<open>A successful change of the authorization moves the epoch, except that revoking again changes
  nothing but the registry.\<close>

fun authority_event_of :: "auth_event \<Rightarrow> authority_event" where
  "authority_event_of RevokeAuth = Revoke"
| "authority_event_of (ReplaceAuth expires) = Replace expires"
| "authority_event_of (ReplaceAuthority _ expires) = Replace expires"

fun effective_after :: "auth_event \<Rightarrow> EffectiveAuthority \<Rightarrow> EffectiveAuthority" where
  "effective_after (ReplaceAuthority effective _) _ = effective"
| "effective_after _ old = old"

lemma auth_change_eq:
  "auth_change c s =
     (if gate_poisoned s \<or> auth_poisoned s then (Err InternalError, s)
      else case authority_step (authority_event_of c) (authorization (auth_state s)) of
        (Err _, _) \<Rightarrow> (Err InternalError, s)
      | (Ok _, a) \<Rightarrow> (Ok (), cancel_stale_bound_turns (s\<lparr>auth_state := (auth_state s)
          \<lparr>authorization := a, effective_authority := effective_after c (effective_authority (auth_state s))\<rparr>\<rparr>)))"
  by (cases c) (auto simp: auth_revoke_def auth_replace_def auth_replace_authority_def split: prod.splits sum.splits)

lemma auth_change_cases:
  obtains (err) "auth_change c s = (Err InternalError, s)"
  | (ok) a eff where
      "auth_change c s = (Ok (), cancel_stale_bound_turns
         (s\<lparr>auth_state := (auth_state s)\<lparr>authorization := a, effective_authority := eff\<rparr>\<rparr>))"
      "current_epoch s < auth_epoch a \<or> a = authorization (auth_state s) \<and> eff = effective_authority (auth_state s)"
      "c = RevokeAuth \<Longrightarrow> auth_revoked a"
proof (cases "gate_poisoned s \<or> auth_poisoned s")
  case False
  show ?thesis
  proof (cases "authority_event_of c" "authorization (auth_state s)" rule: authority_step_cases)
    case (err e)
    then show ?thesis using that(1) False by (simp add: auth_change_eq)
  next
    case idle
    then show ?thesis
      using ok [where a = "authorization (auth_state s)" and eff = "effective_authority (auth_state s)"] False
      by (cases c) (simp_all add: auth_change_eq del: auth_change.simps)
  next
    case (moved a)
    then show ?thesis
      using ok [where a = a and eff = "effective_after c (effective_authority (auth_state s))"] False
      by (simp add: auth_change_eq)
  qed
qed (use err in \<open>simp add: auth_change_eq\<close>)

lemma policy_change_cases:
  obtains (err) "policy_change c s = (Err InternalError, s)"
  | (same) "policy_change c s = (Ok (), s)"
  | (ok) p where
      "policy_change c s = (Ok (), s\<lparr>policy_state := p, flags := sweep (ep_revision p) (revision_bound s) (flags s)\<rparr>)"
      "current_revision s < ep_revision p"
      "ep_bound_turns p = filter (\<lambda>(k, b). flags s b \<noteq> None) (revision_bound s)"
proof -
  have set: "\<exists>p. policy_set d u s = (Ok (), s\<lparr>policy_state := p, flags := sweep (ep_revision p) (revision_bound s) (flags s)\<rparr>)
      \<and> current_revision s < ep_revision p \<and> ep_bound_turns p = filter (\<lambda>(k, b). flags s b \<noteq> None) (revision_bound s)"
    if differs: "policy_set d u s \<noteq> (Err InternalError, s)" "policy_set d u s \<noteq> (Ok (), s)"
      and upd: "\<And>p. ep_revision (u p) = ep_revision p \<and> ep_bound_turns (u p) = ep_bound_turns p" for d u
  proof -
    obtain n where n: "PolicyRevision_next (current_revision s) = Ok n" "\<not> gate_poisoned s" "\<not> policy_poisoned s"
        "d (policy_state s)"
      using differs by (auto simp: policy_set_def advance_and_cancel_def split: if_splits sum.splits)
    let ?p = "u (policy_state s\<lparr>ep_revision := n, ep_bound_turns := filter (\<lambda>(k, b). flags s b \<noteq> None) (revision_bound s)\<rparr>)"
    show ?thesis
      using n upd policy_revision_next_less [OF n(1)]
      by (intro exI [of _ ?p]) (simp add: policy_set_def advance_and_cancel_def retain_and_cancel_eq case_prod_unfold)
  qed
  show ?thesis
    using err same ok set
    by (cases c) (fastforce simp: policy_set_provider_policy_allows_def policy_set_consent_def
        policy_set_local_only_required_def)+
qed

interpretation auth_registry: bound_turn_registry current_epoch epoch_bound auth_bind_turn snapshot_epoch auth_change
proof unfold_locales
  fix a s s' snap assume "auth_bind_turn a s = (Ok snap, s')"
  then show "snapshot_epoch snap = current_epoch s \<and> current_epoch s' = current_epoch s \<and> flags s' = flags s \<and>
      epoch_bound s' = filter (\<lambda>(k, b). flags s b \<noteq> None) (epoch_bound s) @ [(current_epoch s, a)]"
    by (auto simp: auth_bind_turn_def Let_def epoch_bound_def filter_map comp_def snapshot_def split: if_splits)
next
  fix a s s' e assume "auth_bind_turn a s = (Err e, s')"
  then show "s' = s" by (auto simp: auth_bind_turn_def Let_def split: if_splits)
next
  fix c s r s' assume "auth_change c s = (r, s')"
  then show "(current_epoch s' = current_epoch s \<and> epoch_bound s' = epoch_bound s \<and> flags s' = flags s) \<or>
      (current_epoch s \<le> current_epoch s' \<and> epoch_bound s' = filter (\<lambda>(k, b). flags s b \<noteq> None) (epoch_bound s) \<and>
       flags s' = sweep (current_epoch s') (epoch_bound s) (flags s))"
    by (cases rule: auth_change_cases [of c s])
      (auto simp: cancel_stale_bound_turns_eq epoch_bound_def filter_map comp_def)
qed

interpretation policy_registry: bound_turn_registry current_revision revision_bound policy_bind_turn
  policy_snapshot_revision policy_change
proof unfold_locales
  fix a s s' snap assume "policy_bind_turn a s = (Ok snap, s')"
  then show "policy_snapshot_revision snap = current_revision s \<and> current_revision s' = current_revision s \<and>
      flags s' = flags s \<and>
      revision_bound s' = filter (\<lambda>(k, b). flags s b \<noteq> None) (revision_bound s) @ [(current_revision s, a)]"
    by (auto simp: policy_bind_turn_def Let_def split: if_splits)
next
  fix a s s' e assume "policy_bind_turn a s = (Err e, s')"
  then show "s' = s" by (auto simp: policy_bind_turn_def Let_def split: if_splits)
next
  fix c s r s' assume "policy_change c s = (r, s')"
  then show "(current_revision s' = current_revision s \<and> revision_bound s' = revision_bound s \<and> flags s' = flags s) \<or>
      (current_revision s \<le> current_revision s' \<and>
       revision_bound s' = filter (\<lambda>(k, b). flags s b \<noteq> None) (revision_bound s) \<and>
       flags s' = sweep (current_revision s') (revision_bound s) (flags s))"
    by (cases rule: policy_change_cases [of c s]) auto
qed

end
