(* ===== verification/VPR_Runtime.thy ===== *)
theory VPR_Runtime
  imports VPR_Authority
begin

text \<open>
  Sessions and turns (\<^verbatim>\<open>crates/vpr-runtime/src/session.rs\<close> and \<^verbatim>\<open>turn.rs\<close>): the session's methods, the
  binding of a turn, the methods of a turn, and provider operations.

  A method that holds the session gate is one step on the shared state. Where the code releases the
  gate, other threads run: in the pause of \<open>issue_provider_permit\<close> between its checks and its
  admission, and during a provider call. These are arguments of the definitions; the theory
  \<open>VPR_World\<close> takes them to be any interleaving of the methods of the session.
\<close>

section \<open>Sessions\<close>

record SessionSecurityConfig =
  sec_effective_authority :: EffectiveAuthority
  sec_expires_at_millis :: "u64 option"
  sec_provider_policy_allows :: bool
  sec_consent :: ConsentState
  sec_local_only_required :: bool

text \<open>No turn refers to the initial contents of a cell: \<open>ActiveTurn::new\<close> writes it first.\<close>

definition unused_cell :: TurnMutableState where
  "unused_cell = TurnMutableState_new (Turn_new (TurnId []) (CorrelationId [])) 0"

definition ActiveSession_with_clock ::
  "SessionId \<Rightarrow> PersonaId \<Rightarrow> SessionSecurityConfig \<Rightarrow> u64 option \<Rightarrow> runtime" where
  "ActiveSession_with_clock i persona_id security clock =
     \<lparr>rt_session = RealtimeSession_new i persona_id, gate_poisoned = False,
      pending_active = 0, pending_poisoned = False,
      auth_state = AuthorizationRuntimeState_new (sec_expires_at_millis security) (sec_effective_authority security),
      auth_poisoned = False,
      policy_state = EgressPolicyRuntimeState_new (sec_provider_policy_allows security) (sec_consent security)
        (sec_local_only_required security),
      policy_poisoned = False, media_timeline = MediaTimelineState_new, flags = (\<lambda>_. None),
      cells = (\<lambda>_. unused_cell), next_addr = 0, clock_now_millis = clock\<rparr>"

abbreviation api_result :: "(RuntimeDenyReason + 'a) \<times> 's \<Rightarrow> (Rt0ReasonCode + 'a) \<times> 's" where
  "api_result \<equiv> map_prod (map_err reason_code) id"

definition session_transition :: "RealtimeSessionState \<Rightarrow> (runtime, unit, Rt0ReasonCode) op" where
  "session_transition next s =
     (case RealtimeSession_transition next (rt_session s) of
        (r, x) \<Rightarrow> (map_err (\<lambda>_. InvalidStateTransition) r, s\<lparr>rt_session := x\<rparr>))"

definition activate :: "(runtime, unit, Rt0ReasonCode) op" where
  "activate s = session_transition RealtimeSessionState.Active s"

definition begin_draining :: "(runtime, unit, Rt0ReasonCode) op" where
  "begin_draining s = session_transition Draining s"

text \<open>\<open>revoke\<close> and \<open>close\<close>: the candidate state is published only after the authority is revoked.\<close>

definition revoke_and_publish :: "RealtimeSessionState \<Rightarrow> (runtime, unit, Rt0ReasonCode) op" where
  "revoke_and_publish next s =
     (case RealtimeSession_transition next (rt_session s) of
        (Err _, _) \<Rightarrow> (Err InvalidStateTransition, s)
      | (Ok _, candidate) \<Rightarrow>
          (case auth_revoke s of
             (Err e, s') \<Rightarrow> (Err (reason_code e), s')
           | (Ok _, s') \<Rightarrow> (Ok (), s'\<lparr>rt_session := candidate\<rparr>)))"

definition session_revoke :: "(runtime, unit, Rt0ReasonCode) op" where
  "session_revoke s = revoke_and_publish RealtimeSessionState.Revoked s"

definition session_close :: "(runtime, unit, Rt0ReasonCode) op" where
  "session_close s = revoke_and_publish Closed s"

definition session_set_consent :: "ConsentState \<Rightarrow> (runtime, unit, Rt0ReasonCode) op" where
  "session_set_consent v s = api_result (policy_set_consent v s)"

definition session_set_provider_policy_allows :: "bool \<Rightarrow> (runtime, unit, Rt0ReasonCode) op" where
  "session_set_provider_policy_allows v s = api_result (policy_set_provider_policy_allows v s)"

definition session_set_local_only_required :: "bool \<Rightarrow> (runtime, unit, Rt0ReasonCode) op" where
  "session_set_local_only_required v s = api_result (policy_set_local_only_required v s)"

definition session_replace_authority :: "EffectiveAuthority \<Rightarrow> u64 option \<Rightarrow> (runtime, unit, Rt0ReasonCode) op" where
  "session_replace_authority effective expires s =
     (if session_state (rt_session s) \<noteq> RealtimeSessionState.Active then (Err InvalidStateTransition, s)
      else api_result (auth_replace_authority effective expires s))"

definition rebase_media_timeline :: "(runtime, u64, Rt0ReasonCode) op" where
  "rebase_media_timeline s =
     (if session_state (rt_session s) \<noteq> RealtimeSessionState.Active then (Err InvalidStateTransition, s)
      else if gate_poisoned s then (Err Rt0ReasonCode.InternalError, s)
      else (case clock_now_millis s of
              None \<Rightarrow> (Err Rt0ReasonCode.InternalError, s)
            | Some now_millis \<Rightarrow>
                (case rebase now_millis (media_timeline s) of
                   (r, m) \<Rightarrow> (map_err (\<lambda>_. Rt0ReasonCode.InternalError) r, s\<lparr>media_timeline := m\<rparr>))))"

definition refresh_authorization :: "u64 option \<Rightarrow> (runtime, unit, Rt0ReasonCode) op" where
  "refresh_authorization expires s =
     (if session_state (rt_session s) \<noteq> RealtimeSessionState.Active then (Err InvalidStateTransition, s)
      else api_result (auth_replace expires s))"

definition revoke_authority :: "(runtime, unit, Rt0ReasonCode) op" where
  "revoke_authority s = api_result (auth_revoke s)"

section \<open>Turns\<close>

record ActiveTurn =
  at_state :: nat
  at_snapshot :: TurnExecutionSnapshot
  at_authorization_snapshot :: AuthorizationSnapshot
  at_egress_policy_snapshot :: EgressPolicySnapshot
  at_cancellation :: nat
  at_session_id :: SessionId

text \<open>The last strong reference to a cancellation flag goes away.\<close>

definition drop_flag :: "nat \<Rightarrow> runtime \<Rightarrow> runtime" where
  "drop_flag a s = s\<lparr>flags := (flags s)(a := None)\<rparr>"

definition ActiveTurn_new ::
  "TurnId \<Rightarrow> CorrelationId \<Rightarrow> PersonaIdentity \<Rightarrow> (runtime, ActiveTurn, RuntimeDenyReason) op" where
  "ActiveTurn_new i correlation_id persona s =
     (let a = next_addr s;
          s1 = s\<lparr>flags := (flags s)(a \<mapsto> False), next_addr := Suc a\<rparr>
      in if gate_poisoned s then (Err InternalError, drop_flag a s1)
         else if session_state (rt_session s) \<noteq> RealtimeSessionState.Active
         then (Err InvalidTurnState, drop_flag a s1)
         else if session_persona_id (rt_session s) \<noteq> identity_id persona then (Err AuthorityDenied, drop_flag a s1)
         else (case auth_bind_turn a s1 of
                 (Err e, s2) \<Rightarrow> (Err e, drop_flag a s2)
               | (Ok authorization_snapshot, s2) \<Rightarrow>
                   (case policy_bind_turn a s2 of
                      (Err e, s3) \<Rightarrow> (Err e, drop_flag a s3)
                    | (Ok egress_policy_snapshot, s3) \<Rightarrow>
                        (let turn = Turn_new i correlation_id;
                             media_epoch = timeline_epoch (media_timeline s3)
                         in (Ok \<lparr>at_state = a,
                                 at_snapshot = \<lparr>snap_turn_id = turn_id turn,
                                   snap_correlation_id = turn_correlation_id turn,
                                   snap_persona_id = identity_id persona,
                                   snap_persona_version = identity_version persona,
                                   snap_persona_mode = identity_mode persona,
                                   snap_authorization_epoch = snapshot_epoch authorization_snapshot,
                                   snap_egress_policy_revision = policy_snapshot_revision egress_policy_snapshot\<rparr>,
                                 at_authorization_snapshot = authorization_snapshot,
                                 at_egress_policy_snapshot = egress_policy_snapshot,
                                 at_cancellation = a,
                                 at_session_id = session_id (rt_session s)\<rparr>,
                             s3\<lparr>cells := (cells s3)(a := TurnMutableState_new turn media_epoch)\<rparr>)))))"

definition on_turn_state ::
  "ActiveTurn \<Rightarrow> (TurnMutableState, 'a, Rt0ReasonCode) op \<Rightarrow> (runtime, 'a, Rt0ReasonCode) op" where
  "on_turn_state self f s =
     (case f (cells s (at_state self)) of (r, x) \<Rightarrow> (r, s\<lparr>cells := (cells s)(at_state self := x)\<rparr>))"

definition require_not_cancelled :: "ActiveTurn \<Rightarrow> runtime \<Rightarrow> Rt0ReasonCode + unit" where
  "require_not_cancelled self s =
     (if TurnCancellation_is_cancelled (at_cancellation self) s then Err Rt0ReasonCode.TurnCancelled else Ok ())"

definition require_executionactive_egress :: "ActiveTurn \<Rightarrow> runtime \<Rightarrow> Rt0ReasonCode + unit" where
  "require_executionactive_egress self s =
     (case require_not_cancelled self s of
        Err e \<Rightarrow> Err e
      | Ok _ \<Rightarrow>
          (case clock_now_millis s of
             None \<Rightarrow> Err Rt0ReasonCode.InternalError
           | Some now_millis \<Rightarrow>
               (case validate_bound s (at_authorization_snapshot self) now_millis of
                  Err e \<Rightarrow> Err (reason_code e)
                | Ok _ \<Rightarrow> map_err reason_code (validate_snapshot s (at_egress_policy_snapshot self)))))"

definition authorize :: "ActiveTurn \<Rightarrow> (runtime, unit, Rt0ReasonCode) op" where
  "authorize self s =
     (if gate_poisoned s then (Err Rt0ReasonCode.InternalError, s)
      else (case clock_now_millis s of
              None \<Rightarrow> (Err Rt0ReasonCode.InternalError, s)
            | Some now_millis \<Rightarrow>
                (case validate_bound s (at_authorization_snapshot self) now_millis of
                   Err e \<Rightarrow> (Err (reason_code e), s)
                 | Ok _ \<Rightarrow>
                     (case validate_snapshot s (at_egress_policy_snapshot self) of
                        Err e \<Rightarrow> (Err (reason_code e), s)
                      | Ok _ \<Rightarrow>
                          (if TurnCancellation_is_cancelled (at_cancellation self) s
                           then (Err Rt0ReasonCode.TurnCancelled, s)
                           else on_turn_state self (ts_transition Authorized) s)))))"

text \<open>The methods that take the gate for reading, require an active execution and then act on the turn.\<close>

definition while_executing ::
  "ActiveTurn \<Rightarrow> (TurnMutableState, 'a, Rt0ReasonCode) op \<Rightarrow> (runtime, 'a, Rt0ReasonCode) op" where
  "while_executing self f s =
     (if gate_poisoned s then (Err Rt0ReasonCode.InternalError, s)
      else (case require_executionactive_egress self s of
              Err e \<Rightarrow> (Err e, s)
            | Ok _ \<Rightarrow> on_turn_state self f s))"

definition begin_processing :: "ActiveTurn \<Rightarrow> (runtime, unit, Rt0ReasonCode) op" where
  "begin_processing self s = while_executing self (ts_transition Processing) s"

definition begin_output :: "ActiveTurn \<Rightarrow> (runtime, unit, Rt0ReasonCode) op" where
  "begin_output self s = while_executing self (ts_transition Outputting) s"

definition complete :: "ActiveTurn \<Rightarrow> (runtime, unit, Rt0ReasonCode) op" where
  "complete self s = while_executing self (ts_transition Completed) s"

definition begin_output_segment :: "ActiveTurn \<Rightarrow> (runtime, OutputSegmentId, Rt0ReasonCode) op" where
  "begin_output_segment self s = while_executing self ts_begin_output_segment s"

definition terminate_uncancelled :: "TurnState \<Rightarrow> ActiveTurn \<Rightarrow> (runtime, unit, Rt0ReasonCode) op" where
  "terminate_uncancelled next self s =
     (if gate_poisoned s then (Err Rt0ReasonCode.InternalError, s)
      else (case require_not_cancelled self s of
              Err e \<Rightarrow> (Err e, s)
            | Ok _ \<Rightarrow> on_turn_state self (transition_and_freeze next) s))"

definition deny :: "ActiveTurn \<Rightarrow> (runtime, unit, Rt0ReasonCode) op" where
  "deny self s = terminate_uncancelled TurnState.Denied self s"

definition turn_fail :: "ActiveTurn \<Rightarrow> (runtime, unit, Rt0ReasonCode) op" where
  "turn_fail self s = terminate_uncancelled TurnState.Failed self s"

text \<open>\<open>TurnInterruptHandle::interrupt\<close>, through a handle on the turn's state and flag.\<close>

definition interrupt :: "ActiveTurn \<Rightarrow> (runtime, unit, Rt0ReasonCode) op" where
  "interrupt self s =
     (if gate_poisoned s then (Err Rt0ReasonCode.InternalError, s)
      else (case on_turn_state self ts_interrupt s of
              (Err e, s') \<Rightarrow> (Err e, s')
            | (Ok _, s') \<Rightarrow> (Ok (), TurnCancellation_cancel (at_cancellation self) s')))"

section \<open>Provider operations\<close>

definition issue_checks ::
  "ActiveTurn \<Rightarrow> AuthorityScope \<Rightarrow> DataClass \<Rightarrow> runtime \<Rightarrow> RuntimeDenyReason + ProviderCancellation" where
  "issue_checks self scope class s =
     (if gate_poisoned s then Err InternalError
      else if \<not> provider_execution_allowed (cells s (at_state self)) then Err InvalidTurnState
      else (case clock_now_millis s of
              None \<Rightarrow> Err InternalError
            | Some now_millis \<Rightarrow>
                auth_issue_provider_permit s (at_authorization_snapshot self) now_millis
                  \<lparr>ctx_egress_snapshot = at_egress_policy_snapshot self, ctx_cancellation = at_cancellation self,
                   ctx_required_scope = scope, ctx_data_class = class\<rparr>))"

text \<open>The checks run under one read lock and the admission under another; \<open>between\<close> is what other
  threads do after the first is released.\<close>

definition issue_provider_permit ::
  "(runtime \<Rightarrow> runtime) \<Rightarrow> ActiveTurn \<Rightarrow> AuthorityScope \<Rightarrow> DataClass
     \<Rightarrow> (runtime, ProviderExecutionPermit, RuntimeDenyReason) op" where
  "issue_provider_permit between self scope class s =
     (case issue_checks self scope class s of
        Err e \<Rightarrow> (Err e, s)
      | Ok c \<Rightarrow>
          (case begin_provider_egress c (between s) of
             (Err _, s') \<Rightarrow> (Err TurnCancelled, s')
           | (Ok _, s') \<Rightarrow> (Ok \<lparr>permit_cancellation = c, active_egress = True\<rparr>, s')))"

definition issue_provider_operation ::
  "(runtime \<Rightarrow> runtime) \<Rightarrow> ActiveTurn \<Rightarrow> ProviderOperation \<Rightarrow> (runtime, ProviderExecutionPermit, RuntimeDenyReason) op" where
  "issue_provider_operation between self operation s =
     issue_provider_permit between self (ProviderOperation_required_scope operation)
       (ProviderOperation_data_class operation) s"

text \<open>A call that consumes its permit, and one whose stream keeps it.\<close>

definition provider_call ::
  "(runtime \<Rightarrow> runtime) \<Rightarrow> ActiveTurn \<Rightarrow> ProviderOperation \<Rightarrow> ('x, 'a) provider_operation
     \<Rightarrow> ('x \<times> runtime, 'a, ProviderExecutionError) op" where
  "provider_call between self operation call = (\<lambda>(x, s).
     (case issue_provider_operation between self operation s of
        (Err e, s') \<Rightarrow> (Err (Denied e), (x, s'))
      | (Ok permit, s') \<Rightarrow>
          (case dispatch permit call (x, s') of (r, (x', s'')) \<Rightarrow> (r, (x', permit_drop permit s'')))))"

record 'st AuthorizedStream =
  stream :: 'st
  stream_permit :: ProviderExecutionPermit

definition provider_open ::
  "(runtime \<Rightarrow> runtime) \<Rightarrow> ActiveTurn \<Rightarrow> ProviderOperation \<Rightarrow> (unit, 'st) provider_operation
     \<Rightarrow> (runtime, 'st AuthorizedStream, ProviderExecutionError) op" where
  "provider_open between self operation call s =
     (case issue_provider_operation between self operation s of
        (Err e, s') \<Rightarrow> (Err (Denied e), s')
      | (Ok permit, s') \<Rightarrow>
          (case dispatch permit call ((), s') of
             (Err e, (_, s'')) \<Rightarrow> (Err e, permit_drop permit s'')
           | (Ok st, (_, s'')) \<Rightarrow> (Ok \<lparr>stream = st, stream_permit = permit\<rparr>, s'')))"

definition open_llm_stream ::
  "('req \<Rightarrow> (unit, 'st) provider_operation) \<Rightarrow> 'req \<Rightarrow> (runtime \<Rightarrow> runtime) \<Rightarrow> ActiveTurn
     \<Rightarrow> (runtime, 'st AuthorizedStream, ProviderExecutionError) op" where
  "open_llm_stream port_open_stream request between self s =
     provider_open between self Llm (port_open_stream request) s"

definition execute_llm ::
  "('req \<Rightarrow> ('sink, UsageEvidence) provider_operation) \<Rightarrow> 'req \<Rightarrow> (runtime \<Rightarrow> runtime) \<Rightarrow> ActiveTurn
     \<Rightarrow> ('sink \<times> runtime, UsageEvidence, ProviderExecutionError) op" where
  "execute_llm port_stream request between self s = provider_call between self Llm (port_stream request) s"

definition open_stt_stream ::
  "(SttStreamRequest \<Rightarrow> (unit, 'st) provider_operation) \<Rightarrow> SttStreamRequest \<Rightarrow> (runtime \<Rightarrow> runtime) \<Rightarrow> ActiveTurn
     \<Rightarrow> (runtime, 'st AuthorizedStream, ProviderExecutionError) op" where
  "open_stt_stream port_open_stream request between self s =
     provider_open between self Stt (port_open_stream request) s"

definition execute_stt ::
  "('req \<Rightarrow> (unit, Transcript \<times> UsageEvidence) provider_operation) \<Rightarrow> 'req \<Rightarrow> (runtime \<Rightarrow> runtime) \<Rightarrow> ActiveTurn
     \<Rightarrow> (unit \<times> runtime, Transcript \<times> UsageEvidence, ProviderExecutionError) op" where
  "execute_stt port_transcribe request between self s = provider_call between self Stt (port_transcribe request) s"

definition execute_tts ::
  "('req \<Rightarrow> ('sink, UsageEvidence) provider_operation) \<Rightarrow> 'req \<Rightarrow> (runtime \<Rightarrow> runtime) \<Rightarrow> ActiveTurn
     \<Rightarrow> ('sink \<times> runtime, UsageEvidence, ProviderExecutionError) op" where
  "execute_tts port_synthesize request between self s = provider_call between self Tts (port_synthesize request) s"

definition execute_avatar ::
  "(AudioInput \<Rightarrow> ('sink, UsageEvidence) provider_operation) \<Rightarrow> AudioInput \<Rightarrow> (runtime \<Rightarrow> runtime) \<Rightarrow> ActiveTurn
     \<Rightarrow> ('sink \<times> runtime, UsageEvidence, ProviderExecutionError) op" where
  "execute_avatar port_render audio between self s = provider_call between self Avatar (port_render audio) s"

text \<open>The methods of an open stream dispatch under the permit the stream holds.\<close>

definition on_stream ::
  "('st, 'a) provider_operation \<Rightarrow> ('st AuthorizedStream \<times> runtime, 'a, ProviderExecutionError) op" where
  "on_stream call = (\<lambda>(self, s).
     (case dispatch (stream_permit self) call (stream self, s) of
        (r, (st, s')) \<Rightarrow> (r, (self\<lparr>stream := st\<rparr>, s'))))"

definition next_chunk ::
  "('st, rust_string option) provider_operation
     \<Rightarrow> ('st AuthorizedStream \<times> runtime, rust_string option, ProviderExecutionError) op" where
  "next_chunk stream_next_chunk s = on_stream stream_next_chunk s"

definition push_audio ::
  "(byte list \<Rightarrow> ('st, unit) provider_operation) \<Rightarrow> byte list
     \<Rightarrow> ('st AuthorizedStream \<times> runtime, unit, ProviderExecutionError) op" where
  "push_audio stream_push_audio pcm s = on_stream (stream_push_audio pcm) s"

definition finish_input ::
  "('st, unit) provider_operation \<Rightarrow> ('st AuthorizedStream \<times> runtime, unit, ProviderExecutionError) op" where
  "finish_input stream_finish_input s = on_stream stream_finish_input s"

definition next_event ::
  "('st, SttStreamEvent option) provider_operation
     \<Rightarrow> ('st AuthorizedStream \<times> runtime, SttStreamEvent option, ProviderExecutionError) op" where
  "next_event stream_next_event s = on_stream stream_next_event s"

section \<open>A sample session\<close>

text \<open>A session with one turn that is producing output, for concrete instances of the theorems.\<close>

definition sample_config :: SessionSecurityConfig where
  "sample_config = \<lparr>sec_effective_authority = \<lparr>effective_allowed = {ProviderOperation_required_scope Llm}\<rparr>,
     sec_expires_at_millis = Some 100, sec_provider_policy_allows = True, sec_consent = Granted,
     sec_local_only_required = False\<rparr>"

definition sample_active :: runtime where
  "sample_active = snd (activate (ActiveSession_with_clock (SessionId []) (PersonaId []) sample_config (Some 5)))"

definition sample_turn :: ActiveTurn where
  "sample_turn = \<lparr>at_state = 0,
     at_snapshot = \<lparr>snap_turn_id = TurnId [], snap_correlation_id = CorrelationId [], snap_persona_id = PersonaId [],
       snap_persona_version = PersonaVersion 1, snap_persona_mode = DigitalTwin,
       snap_authorization_epoch = AuthorizationEpoch_initial, snap_egress_policy_revision = PolicyRevision_initial\<rparr>,
     at_authorization_snapshot = \<lparr>snapshot_epoch = AuthorizationEpoch_initial\<rparr>,
     at_egress_policy_snapshot = \<lparr>policy_snapshot_revision = PolicyRevision_initial\<rparr>,
     at_cancellation = 0, at_session_id = SessionId []\<rparr>"

definition sample_bound :: runtime where
  "sample_bound = snd (ActiveTurn_new (TurnId []) (CorrelationId [])
     (PersonaIdentity_new (PersonaId []) (PersonaVersion 1) DigitalTwin) sample_active)"

definition sample_outputting :: runtime where
  "sample_outputting =
     snd (begin_output sample_turn (snd (begin_processing sample_turn (snd (authorize sample_turn sample_bound)))))"

lemma sample_turn_new:
  "fst (ActiveTurn_new (TurnId []) (CorrelationId [])
     (PersonaIdentity_new (PersonaId []) (PersonaVersion 1) DigitalTwin) sample_active) = Ok sample_turn"
  by code_simp

lemma sample_outputting_state:
  "turn_state_inv (cells sample_outputting 0)" "ts_state (cells sample_outputting 0) = Outputting"
  "\<not> gate_poisoned sample_outputting" "at_state sample_turn = 0" "at_cancellation sample_turn = 0"
  by code_simp+

end
