(* ===== verification/VPR_Delivery.thy ===== *)
theory VPR_Delivery
  imports VPR_Runtime
begin

text \<open>
  Delivery of output through the realtime transport (\<^verbatim>\<open>crates/vpr-runtime/src/delivery.rs\<close> and
  \<^verbatim>\<open>media_delivery.rs\<close>). The transport is code behind the \<open>RealtimeOutputPort\<close> trait: its methods are
  arguments. They run with no lock held, so each answers with its result and the state other threads
  have left the session in by then.
\<close>

section \<open>Handles and errors\<close>

record OutputDeliveryHandle =
  handle_turn_id :: TurnId
  handle_segment_id :: OutputSegmentId

datatype OutputDeliveryError =
    Runtime Rt0ReasonCode
  | Transport TransportError
  | DeliveryUncertain TransportError OutputDeliveryHandle

fun transport_reason_code :: "TransportErrorKind \<Rightarrow> Rt0ReasonCode" where
  "transport_reason_code TransportErrorKind.Cancelled = Rt0ReasonCode.TurnCancelled"
| "transport_reason_code TransportErrorKind.Unavailable = Rt0ReasonCode.InternalError"
| "transport_reason_code TransportErrorKind.DeliveryUncertain = Rt0ReasonCode.InternalError"

fun delivery_reason_code :: "OutputDeliveryError \<Rightarrow> Rt0ReasonCode" where
  "delivery_reason_code (Runtime reason) = reason"
| "delivery_reason_code (Transport error) = transport_reason_code (transport_error_kind error)"
| "delivery_reason_code (DeliveryUncertain error _) = transport_reason_code (transport_error_kind error)"

fun uncertain_handle :: "OutputDeliveryError \<Rightarrow> OutputDeliveryHandle option" where
  "uncertain_handle (DeliveryUncertain _ handle) = Some handle"
| "uncertain_handle _ = None"

section \<open>Sending\<close>

definition reconcile_transport_send ::
  "ActiveTurn \<Rightarrow> OutputSegmentId \<Rightarrow> TransportError + unit \<Rightarrow> (runtime, OutputDeliveryHandle, OutputDeliveryError) op" where
  "reconcile_transport_send self i result s =
     (let handle = \<lparr>handle_turn_id = snap_turn_id (at_snapshot self), handle_segment_id = i\<rparr>
      in case result of
           Ok _ \<Rightarrow>
             (case on_turn_state self (reconcile_output_sent i) s of
                (Err e, s') \<Rightarrow> (Err (Runtime e), s')
              | (Ok _, s') \<Rightarrow> (Ok handle, s'))
         | Err error \<Rightarrow>
             (if transport_error_kind error = TransportErrorKind.DeliveryUncertain then
                (case on_turn_state self (reconcile_output_delivery_uncertain i) s of
                   (Err e, s') \<Rightarrow> (Err (Runtime e), s')
                 | (Ok _, s') \<Rightarrow> (Err (DeliveryUncertain error handle), s'))
              else (Err (Transport error), s)))"

type_synonym 'ev port_send = "'ev \<Rightarrow> nat \<Rightarrow> (runtime, unit, TransportError) op"

definition deliver_text ::
  "RealtimeTextOutputEvent port_send \<Rightarrow> rust_string \<Rightarrow> ActiveTurn
     \<Rightarrow> (runtime, OutputDeliveryHandle, OutputDeliveryError) op" where
  "deliver_text port_send_text text self s =
     (case begin_output_segment self s of
        (Err e, s') \<Rightarrow> (Err (Runtime e), s')
      | (Ok i, s') \<Rightarrow>
          (let event = \<lparr>text_turn_id = snap_turn_id (at_snapshot self),
                        text_correlation_id = snap_correlation_id (at_snapshot self),
                        text_sequence = OutputSegmentId_get i, event_text = text\<rparr>
           in case port_send_text event (at_cancellation self) s' of
                (r, s'') \<Rightarrow> reconcile_transport_send self i r s''))"

definition validate_delivery_handle :: "ActiveTurn \<Rightarrow> OutputDeliveryHandle \<Rightarrow> Rt0ReasonCode + unit" where
  "validate_delivery_handle self handle =
     (if handle_turn_id handle = snap_turn_id (at_snapshot self) then Ok () else Err InvalidStateTransition)"

definition acknowledge_output_sent :: "ActiveTurn \<Rightarrow> OutputDeliveryHandle \<Rightarrow> (runtime, unit, Rt0ReasonCode) op" where
  "acknowledge_output_sent self handle s =
     (case validate_delivery_handle self handle of
        Err e \<Rightarrow> (Err e, s)
      | Ok _ \<Rightarrow> on_turn_state self (reconcile_output_sent (handle_segment_id handle)) s)"

definition acknowledge_output_played :: "ActiveTurn \<Rightarrow> OutputDeliveryHandle \<Rightarrow> (runtime, unit, Rt0ReasonCode) op" where
  "acknowledge_output_played self handle s =
     (case validate_delivery_handle self handle of
        Err e \<Rightarrow> (Err e, s)
      | Ok _ \<Rightarrow> on_turn_state self (reconcile_output_played (handle_segment_id handle)) s)"

section \<open>Media\<close>

definition audio_contract :: "GeneratedAudioBuffer \<Rightarrow> (u32 \<times> u16 \<times> PcmSampleFormat \<times> u64) option" where
  "audio_contract audio =
     Option.bind (buffer_sample_rate_hz audio) (\<lambda>sample_rate_hz.
     Option.bind (buffer_channels audio) (\<lambda>channels.
     Option.bind (buffer_sample_format audio) (\<lambda>sample_format.
       if buffer_pcm audio = [] \<or> sample_rate_hz = 0 \<or> channels = 0 then None
       else Option.bind (checked_mul (ucast channels) (case sample_format of S16Le \<Rightarrow> 2)) (\<lambda>frame_bytes.
            Option.bind (u64_try_from (length (buffer_pcm audio))) (\<lambda>pcm_len.
              if pcm_len mod frame_bytes \<noteq> 0 then None
              else Option.bind (checked_mul (pcm_len div frame_bytes) 1000000) (\<lambda>scaled.
                   Option.bind (checked_div scaled (ucast sample_rate_hz)) (\<lambda>duration_micros.
                     Some (sample_rate_hz, channels, sample_format, duration_micros))))))))"

definition on_turn_media ::
  "ActiveTurn \<Rightarrow> (TurnMutableState \<times> MediaTimelineState, 'a, Rt0ReasonCode) op \<Rightarrow> (runtime, 'a, Rt0ReasonCode) op" where
  "on_turn_media self f s =
     (case f (cells s (at_state self), media_timeline s) of
        (r, (x, m)) \<Rightarrow> (r, s\<lparr>cells := (cells s)(at_state self := x), media_timeline := m\<rparr>))"

text \<open>The stamp is taken under the turn's own lock and the segment is opened under the gate; \<open>between\<close>
  is what other threads do in the pause.\<close>

definition deliver_audio ::
  "RealtimeAudioOutputEvent port_send \<Rightarrow> GeneratedAudioBuffer \<Rightarrow> (runtime \<Rightarrow> runtime) \<Rightarrow> ActiveTurn
     \<Rightarrow> (runtime, OutputDeliveryHandle, OutputDeliveryError) op" where
  "deliver_audio port_send_audio audio between self s =
     (case audio_contract audio of
        None \<Rightarrow> (Err (Runtime Rt0ReasonCode.InternalError), s)
      | Some (sample_rate_hz, channels, sample_format, duration_micros) \<Rightarrow>
          (case clock_now_millis s of
             None \<Rightarrow> (Err (Runtime Rt0ReasonCode.InternalError), s)
           | Some now_millis \<Rightarrow>
               (case on_turn_media self (next_audio_media_stamp now_millis duration_micros) s of
                  (Err e, s1) \<Rightarrow> (Err (Runtime e), s1)
                | (Ok timeline, s1) \<Rightarrow>
                    (case begin_output_segment self (between s1) of
                       (Err e, s2) \<Rightarrow> (Err (Runtime e), s2)
                     | (Ok i, s2) \<Rightarrow>
                         (let event = \<lparr>audio_session_id = session_id (rt_session s2),
                                       audio_turn_id = snap_turn_id (at_snapshot self),
                                       audio_correlation_id = snap_correlation_id (at_snapshot self),
                                       audio_timeline = timeline, audio_pcm = buffer_pcm audio,
                                       audio_sample_rate_hz = sample_rate_hz, audio_channels = channels,
                                       audio_sample_format = sample_format\<rparr>
                          in case port_send_audio event (at_cancellation self) s2 of
                               (r, s3) \<Rightarrow> reconcile_transport_send self i r s3)))))"

definition deliver_video_frame ::
  "RealtimeVideoOutputEvent port_send \<Rightarrow> GeneratedVideoFrame \<Rightarrow> (runtime \<Rightarrow> runtime) \<Rightarrow> ActiveTurn
     \<Rightarrow> (runtime, OutputDeliveryHandle, OutputDeliveryError) op" where
  "deliver_video_frame port_send_video frame between self s =
     (if encoded_frame frame = [] then (Err (Runtime Rt0ReasonCode.InternalError), s)
      else (case clock_now_millis s of
              None \<Rightarrow> (Err (Runtime Rt0ReasonCode.InternalError), s)
            | Some now_millis \<Rightarrow>
                (case on_turn_media self (next_video_media_stamp now_millis (timestamp_micros frame)) s of
                   (Err e, s1) \<Rightarrow> (Err (Runtime e), s1)
                 | (Ok timeline, s1) \<Rightarrow>
                     (case begin_output_segment self (between s1) of
                        (Err e, s2) \<Rightarrow> (Err (Runtime e), s2)
                      | (Ok i, s2) \<Rightarrow>
                          (let event = \<lparr>video_session_id = session_id (rt_session s2),
                                        video_turn_id = snap_turn_id (at_snapshot self),
                                        video_correlation_id = snap_correlation_id (at_snapshot self),
                                        video_timeline = timeline, video_encoded_frame = encoded_frame frame\<rparr>
                           in case port_send_video event (at_cancellation self) s2 of
                                (r, s3) \<Rightarrow> reconcile_transport_send self i r s3)))))"

definition interrupt_and_flush_media ::
  "(RealtimeMediaFlushEvent \<Rightarrow> (runtime, unit, TransportError) op) \<Rightarrow> (runtime \<Rightarrow> runtime) \<Rightarrow> ActiveTurn
     \<Rightarrow> (runtime, unit, OutputDeliveryError) op" where
  "interrupt_and_flush_media port_flush_media between self s =
     (case interrupt self s of
        (Err e, s1) \<Rightarrow> (Err (Runtime e), s1)
      | (Ok _, s1) \<Rightarrow>
          (let s2 = between s1;
               (epoch, through) = media_flush_context (cells s2 (at_state self));
               event = \<lparr>flush_session_id = session_id (rt_session s2),
                        flush_turn_id = snap_turn_id (at_snapshot self),
                        flush_correlation_id = snap_correlation_id (at_snapshot self),
                        flush_epoch = epoch, through_sequence = through\<rparr>
           in case port_flush_media event s2 of (r, s3) \<Rightarrow> (map_err Transport r, s3)))"

section \<open>Segments of a delivery\<close>

definition reached_checkpoint :: "OutputSegmentId \<Rightarrow> TurnMutableState \<Rightarrow> OutputCheckpoint option" where
  "reached_checkpoint i s =
     map_option (\<lambda>g. fst (evidence_abs (evidence_state (segment_evidence g))))
       (List.find (\<lambda>g. segment_id g = i) (output_segments s))"

abbreviation segment_ids :: "TurnMutableState \<Rightarrow> OutputSegmentId list" where
  "segment_ids s \<equiv> map segment_id (output_segments s)"

lemma segment_ids_distinct: "turn_state_inv s \<Longrightarrow> distinct (segment_ids s)"
proof -
  assume "turn_state_inv s"
  then have "distinct (map (\<lambda>i. unat (OutputSegmentId_get i)) (segment_ids s))"
    by (simp add: turn_state_inv_def comp_def)
  then show ?thesis unfolding distinct_map by simp
qed

lemma find_segment:
  assumes "turn_state_inv s" and "k < length (output_segments s)" and "segment_id (output_segments s ! k) = i"
  shows "List.find (\<lambda>g. segment_id g = i) (output_segments s) = Some (output_segments s ! k)"
  using find_distinct_key [OF segment_ids_distinct [OF assms(1)], of "output_segments s ! k"] assms(2,3) by simp

text \<open>A segment that was opened keeps being found, at least generated, whatever happens to its turn.\<close>

lemma opened_segment_found:
  assumes inv: "turn_state_inv s" and ok: "ts_begin_output_segment s = (Ok i, s1)"
  shows "\<exists>g. List.find (\<lambda>g. segment_id g = i) (output_segments (final turn_step ops s1)) = Some g \<and>
    1 \<le> checkpoint_rank (fst (evidence_abs (evidence_state (segment_evidence g))))"
proof -
  have inv1: "turn_state_inv s1" using begin_segment_inv [OF inv ok] .
  let ?k = "length (output_segments s)" and ?s2 = "final turn_step ops s1"
  have g: "?k < length (output_segments s1)" "segment_id (output_segments s1 ! ?k) = i"
      "evidence_state (segment_evidence (output_segments s1 ! ?k)) = OutputDeliveryState.Generated"
    using ok by (auto simp: begin_segment_Ok_iff)
  have inv2: "turn_state_inv ?s2" and "segments_progress s1 ?s2" using turn_run [OF inv1] by blast+
  then have k: "?k < length (output_segments ?s2)"
    and p: "segment_progress (output_segments s1 ! ?k) (output_segments ?s2 ! ?k)"
    using segments_progress_nth g(1) by blast+
  then have "List.find (\<lambda>g. segment_id g = i) (output_segments ?s2) = Some (output_segments ?s2 ! ?k)"
    using find_segment [OF inv2 k] g(2) by (simp add: segment_progress_def)
  then show ?thesis using p g(3) by (simp add: segment_progress_def)
qed

lemma reconcile_sent_generated:
  "1 \<le> checkpoint_rank (fst (evidence_abs (evidence_state e))) \<Longrightarrow>
     \<exists>e'. reconcile_sent e = (Ok (), e') \<and>
       fst (evidence_abs (evidence_state e')) \<in> {OutputCheckpoint.Sent, OutputCheckpoint.Played}"
  by (auto simp: reconcile_sent_def Let_def split: evidence_splits)

lemma uncertain_keeps_checkpoint:
  "fst (evidence_abs (evidence_state (snd (mark_delivery_uncertain e)))) = fst (evidence_abs (evidence_state e))"
  by (auto simp: mark_delivery_uncertain_def split: evidence_splits)

lemma sent_recorded:
  assumes "List.find (\<lambda>g. segment_id g = i) (output_segments s) = Some g"
    and "1 \<le> checkpoint_rank (fst (evidence_abs (evidence_state (segment_evidence g))))"
  shows "\<exists>s'. reconcile_output_sent i s = (Ok (), s') \<and>
    reached_checkpoint i s' \<in> {Some OutputCheckpoint.Sent, Some OutputCheckpoint.Played}"
proof -
  obtain e' where e': "reconcile_sent (segment_evidence g) = (Ok (), e')"
      "fst (evidence_abs (evidence_state e')) \<in> {OutputCheckpoint.Sent, OutputCheckpoint.Played}"
    using reconcile_sent_generated [OF assms(2)] by blast
  have "segment_id g = i" using find_Some_mem [OF assms(1)] by simp
  then show ?thesis
    using assms(1) e' find_update_first_same [OF assms(1), of "\<lambda>g. g\<lparr>segment_evidence := e'\<rparr>"]
    by (auto simp: reconcile_output_sent_def with_segment_mut_def reached_checkpoint_def)
qed

lemma uncertain_recorded:
  "map (\<lambda>g. fst (evidence_abs (evidence_state (segment_evidence g))))
     (output_segments (snd (reconcile_output_delivery_uncertain i s))) =
   map (\<lambda>g. fst (evidence_abs (evidence_state (segment_evidence g)))) (output_segments s)"
  unfolding reconcile_output_delivery_uncertain_def with_segment_mut_snd
  by (simp add: map_update_first uncertain_keeps_checkpoint)

lemma begin_output_segment_Ok:
  "begin_output_segment t s = (Ok i, s') \<Longrightarrow>
     \<exists>x. ts_begin_output_segment (cells s (at_state t)) = (Ok i, x) \<and> s' = s\<lparr>cells := (cells s)(at_state t := x)\<rparr>"
  by (auto simp: begin_output_segment_def while_executing_def on_turn_state_def split: if_splits sum.splits prod.splits)

section \<open>Interrupted media\<close>

lemma terminal_turn_step:
  assumes "turn_terminal (ts_state s)"
  shows "ts_state (snd (turn_step c s)) = ts_state s \<and> ts_media (snd (turn_step c s)) = ts_media s"
proof (cases c)
  case (Advance n)
  then show ?thesis
    using assms by (cases rule: ts_transition_cases [of s n]) (auto simp: turn_terminal_def)
next
  case (Terminate n)
  then show ?thesis
    using assms by (cases rule: ts_transition_cases [of s n]) (auto simp: turn_terminal_def transition_and_freeze_def)
next
  case BeginSegment
  then show ?thesis using assms by (auto simp: ts_begin_output_segment_def turn_terminal_def)
next
  case Interrupt
  then show ?thesis using interrupt_terminal [OF assms] by simp
next
  case (StampAudio tml now d)
  then show ?thesis using assms by (auto simp: next_audio_media_stamp_def turn_terminal_def)
next
  case (StampVideo tml now d)
  then show ?thesis using assms by (auto simp: next_video_media_stamp_def turn_terminal_def)
next
  case (OriginOpened tml now)
  then show ?thesis using assms by (auto simp: turn_terminal_def)
qed (simp_all only: turn_step_segment_ops with_segment_mut_snd, simp_all)

lemma terminal_turn_run:
  "turn_terminal (ts_state s) \<Longrightarrow>
     ts_state (final turn_step ops s) = ts_state s \<and> ts_media (final turn_step ops s) = ts_media s"
  by (induction ops arbitrary: s) (auto simp: terminal_turn_step)

lemma terminal_no_stamp:
  assumes "turn_terminal (ts_state x)"
  shows "fst (next_audio_media_stamp now d (x, m)) = Err InvalidStateTransition"
    and "fst (next_video_media_stamp now d (x, m)) = Err InvalidStateTransition"
  using assms by (auto simp: next_audio_media_stamp_def next_video_media_stamp_def turn_terminal_def)

lemma terminal_no_stamps: "turn_terminal (ts_state s) \<Longrightarrow> turn_stamps ops s = []"
proof (induction ops arbitrary: s)
  case (Cons c ops)
  have "stamp_given c s = []" using Cons.prems by (cases c) (simp_all add: terminal_no_stamp)
  then show ?case using Cons by (simp add: terminal_turn_step)
qed simp

section \<open>Audio packets\<close>

lemma audio_contract_buffer:
  assumes "audio_inv b" and "buffer_pcm b \<noteq> []"
  shows "\<exists>r c d. audio_contract b = Some (r, c, S16Le, d) \<and>
    length (buffer_pcm b) mod (unat c * 2) = 0 \<and>
    unat d = length (buffer_pcm b) div (unat c * 2) * 1000000 div unat r \<and> unat d < 300001000"
proof -
  from assms obtain r c where b: "buffer_sample_rate_hz b = Some r" "r \<noteq> 0" "buffer_channels b = Some c" "c \<noteq> 0"
      "buffer_sample_format b = Some S16Le" "length (buffer_pcm b) mod (unat c * 2) = 0"
      "length (buffer_pcm b) \<le> MAX_GENERATED_AUDIO_BYTES"
      "length (buffer_pcm b) div (unat c * 2) * 1000 div unat r \<le> 300000"
    by (auto simp: audio_inv_def)
  obtain m d where d: "checked_mul (ucast c :: u64) 2 = Some (ucast c * 2)"
      "u64_try_from (length (buffer_pcm b)) = Some (word_of_nat (length (buffer_pcm b)))"
      "(word_of_nat (length (buffer_pcm b)) :: u64) mod (ucast c * 2) = 0"
      "checked_mul (word_of_nat (length (buffer_pcm b)) div (ucast c * 2) :: u64) 1000000 = Some m"
      "checked_div m (ucast r) = Some d"
      "unat d = length (buffer_pcm b) div (unat c * 2) * unat (1000000 :: u64) div unat r"
    by (rule pcm_scaled_duration [OF b(2,4,6,7), of 1000000]) simp_all
  let ?n = "length (buffer_pcm b) div (unat c * 2)"
  have r: "0 < unat r" using b(2) by (simp add: unat_gt_0)
  have "?n * 1000 div unat r < 300001" using b(8) by simp
  then have "?n * 1000 < 300001 * unat r" using r by (simp add: div_less_iff_less_mult)
  then have "?n * 1000000 < 300001000 * unat r" by simp
  then have "?n * 1000000 div unat r < 300001000" using r by (simp add: div_less_iff_less_mult)
  then show ?thesis using b assms(2) d by (simp add: audio_contract_def)
qed

section \<open>Properties\<close>

text \<open>C8. Delivery tells the truth about the transport. Once a segment is open, whatever other threads
  do to the turn while the transport is sending: if the transport acknowledges, the caller always gets
  the segment's handle and the segment is recorded as sent (or played, if the receipt came first), also
  when the turn was interrupted meanwhile; if the transport fails or does not know, the caller gets an
  error and not a single segment of the turn is recorded further than it was.\<close>

theorem delivery_follows_transport:
  assumes inv: "turn_state_inv (cells s (at_state t))"
    and opened: "begin_output_segment t s = (Ok i, s1)"
    and sent: "send \<lparr>text_turn_id = snap_turn_id (at_snapshot t), text_correlation_id = snap_correlation_id (at_snapshot t),
                 text_sequence = OutputSegmentId_get i, event_text = msg\<rparr> (at_cancellation t) s1 = (r, s2)"
    and others: "cells s2 (at_state t) = final turn_step ops (cells s1 (at_state t))"
  shows "case r of
      Ok _ \<Rightarrow> \<exists>s3. deliver_text send msg t s =
          (Ok \<lparr>handle_turn_id = snap_turn_id (at_snapshot t), handle_segment_id = i\<rparr>, s3) \<and>
        reached_checkpoint i (cells s3 (at_state t)) \<in> {Some OutputCheckpoint.Sent, Some OutputCheckpoint.Played}
    | Err _ \<Rightarrow> \<exists>e s3. deliver_text send msg t s = (Err e, s3) \<and>
        map (\<lambda>g. fst (evidence_abs (evidence_state (segment_evidence g)))) (output_segments (cells s3 (at_state t))) =
        map (\<lambda>g. fst (evidence_abs (evidence_state (segment_evidence g)))) (output_segments (cells s2 (at_state t)))"
proof -
  obtain x where x: "ts_begin_output_segment (cells s (at_state t)) = (Ok i, x)"
      and s1: "s1 = s\<lparr>cells := (cells s)(at_state t := x)\<rparr>"
    using begin_output_segment_Ok [OF opened] by blast
  have step: "deliver_text send msg t s = reconcile_transport_send t i r s2"
    using opened sent by (simp add: deliver_text_def Let_def)
  show ?thesis
  proof (cases r)
    case (Inl e)
    show ?thesis
    proof (cases "reconcile_output_delivery_uncertain i (cells s2 (at_state t))")
      case (Pair r' y)
      then have "map (\<lambda>g. fst (evidence_abs (evidence_state (segment_evidence g)))) (output_segments y) =
          map (\<lambda>g. fst (evidence_abs (evidence_state (segment_evidence g)))) (output_segments (cells s2 (at_state t)))"
        using uncertain_recorded [of i "cells s2 (at_state t)"] by simp
      then show ?thesis
        using Inl Pair step by (auto simp: reconcile_transport_send_def Let_def on_turn_state_def split: sum.splits)
    qed
  next
    case (Inr u)
    have "\<exists>g. List.find (\<lambda>g. segment_id g = i) (output_segments (cells s2 (at_state t))) = Some g \<and>
        1 \<le> checkpoint_rank (fst (evidence_abs (evidence_state (segment_evidence g))))"
      using opened_segment_found [OF inv x] others s1 by simp
    then obtain y where "reconcile_output_sent i (cells s2 (at_state t)) = (Ok (), y)"
        "reached_checkpoint i y \<in> {Some OutputCheckpoint.Sent, Some OutputCheckpoint.Played}"
      using sent_recorded by blast
    then show ?thesis
      using Inr step by (auto simp: reconcile_transport_send_def Let_def on_turn_state_def)
  qed
qed

theorem delivery_follows_transport_witness:
  "\<exists>s3. deliver_text (\<lambda>_ _ s. (Ok (), s)) [] sample_turn sample_outputting =
      (Ok \<lparr>handle_turn_id = snap_turn_id (at_snapshot sample_turn), handle_segment_id = OutputSegmentId 1\<rparr>, s3) \<and>
    reached_checkpoint (OutputSegmentId 1) (cells s3 (at_state sample_turn)) \<in>
      {Some OutputCheckpoint.Sent, Some OutputCheckpoint.Played}"
proof -
  have "fst (begin_output_segment sample_turn sample_outputting) = Ok (OutputSegmentId 1)" by code_simp
  then have opened: "begin_output_segment sample_turn sample_outputting =
      (Ok (OutputSegmentId 1), snd (begin_output_segment sample_turn sample_outputting))"
    by (simp add: prod_eq_iff)
  show ?thesis
    using delivery_follows_transport [OF _ opened, where send = "\<lambda>_ _ s. (Ok (), s)" and r = "Ok ()" and ops = "[]" and msg = "[]"]
    by (simp add: sample_outputting_state)
qed

text \<open>C21. Interrupting with a flush leaves no media behind. Take a turn that has not ended, with any history
  since it was opened in its epoch. The flush always reaches the transport and asks for exactly that epoch
  and the sequence number of the last stamp the turn was given (none if it was given none), whatever other
  threads do between the interruption and the flush; every stamp of the turn carries that epoch; and neither
  between the interruption and the flush nor ever afterwards is the turn given another audio or video stamp.\<close>

theorem interrupt_flush_covers_turn:
  assumes hist: "cells s (at_state t) = final turn_step hist (TurnMutableState_new (Turn_new i c) epoch)"
    and live: "\<not> turn_terminal (ts_state (cells s (at_state t)))"
    and gate: "\<not> gate_poisoned s"
    and others: "cells (between (snd (interrupt t s))) (at_state t) =
      final turn_step ops (cells (snd (interrupt t s)) (at_state t))"
  shows "let s2 = between (snd (interrupt t s));
             given = turn_stamps hist (TurnMutableState_new (Turn_new i c) epoch)
         in interrupt_and_flush_media flush between t s =
              map_prod (map_err Transport) id
                (flush \<lparr>flush_session_id = session_id (rt_session s2), flush_turn_id = snap_turn_id (at_snapshot t),
                        flush_correlation_id = snap_correlation_id (at_snapshot t), flush_epoch = epoch,
                        through_sequence = (if given = [] then None else Some (stamp_sequence (last given)))\<rparr> s2) \<and>
            (\<forall>st \<in> set given. stamp_epoch st = epoch) \<and>
            (\<forall>afterwards. turn_stamps (ops @ afterwards) (cells (snd (interrupt t s)) (at_state t)) = [])"
proof -
  let ?x = "cells s (at_state t)" and ?s1 = "snd (interrupt t s)"
  let ?s2 = "between ?s1" and ?given = "turn_stamps hist (TurnMutableState_new (Turn_new i c) epoch)"
  have inv: "turn_state_inv ?x" using turn_run [OF turn_new_inv] by (simp add: hist)
  note flushed = turn_flush_context [of hist "Turn_new i c" epoch, folded hist]
  have ok: "fst (interrupt t s) = Ok ()" and st: "ts_state (cells ?s1 (at_state t)) = TurnState.Cancelled"
    and md: "ts_media (cells ?s1 (at_state t)) = ts_media ?x"
    using interrupt_live [OF inv live] gate
    by (simp_all add: interrupt_def on_turn_state_def TurnCancellation_cancel_def)
  have ended: "turn_terminal (ts_state (cells ?s1 (at_state t)))" using st by (simp add: turn_terminal_def)
  then have "ts_media (cells ?s2 (at_state t)) = ts_media ?x"
    using terminal_turn_run [of "cells ?s1 (at_state t)" ops] others md by simp
  then have "media_flush_context (cells ?s2 (at_state t)) =
      (epoch, if ?given = [] then None else Some (stamp_sequence (last ?given)))"
    using flushed(1) by (simp add: media_flush_context_def)
  then show ?thesis
    using ok flushed(2) terminal_no_stamps [OF ended]
    by (cases "interrupt t s") (auto simp: interrupt_and_flush_media_def Let_def map_prod_def split: prod.splits)
qed

text \<open>A turn of epoch 1 that was given one audio stamp: the flush asks for epoch 1 through sequence 1.\<close>

definition stamped_history :: "turn_op list" where
  "stamped_history = [Advance Authorized, Advance Processing, Advance Outputting, StampAudio MediaTimelineState_new 5 20]"

definition sample_stamped :: runtime where
  "sample_stamped = sample_outputting\<lparr>cells := (cells sample_outputting)(0 :=
     final turn_step stamped_history (TurnMutableState_new (Turn_new (TurnId []) (CorrelationId [])) 1))\<rparr>"

text \<open>A transport that accepts nothing but this flush.\<close>

definition flush_of_first :: "RealtimeMediaFlushEvent \<Rightarrow> (runtime, unit, TransportError) op" where
  "flush_of_first event s =
     (if flush_epoch event = 1 \<and> through_sequence event = Some 1 then Ok ()
      else Err \<lparr>transport_error_kind = TransportErrorKind.Unavailable, transport_retryable = False\<rparr>, s)"

theorem interrupt_flush_covers_turn_witness:
  "interrupt_and_flush_media flush_of_first id sample_turn sample_stamped = (Ok (), snd (interrupt sample_turn sample_stamped))"
proof -
  let ?new = "TurnMutableState_new (Turn_new (TurnId []) (CorrelationId [])) 1"
  have turn: "at_state sample_turn = 0" by (simp add: sample_turn_def)
  have hist: "cells sample_stamped (at_state sample_turn) = final turn_step stamped_history ?new"
    by (simp add: sample_stamped_def turn)
  note eval = TurnMutableState_new_def Turn_new_def TurnMediaState_new_def ts_transition_def Turn_transition_def
    next_audio_media_stamp_def next_audio_stamp_def turn_origin_def open_turn_origin_def stamp_def
    MediaTimelineState_new_def checked_mul_def checked_add_def
  have "ts_state (final turn_step stamped_history ?new) = Outputting" by (simp add: stamped_history_def eval)
  then have live: "\<not> turn_terminal (ts_state (cells sample_stamped (at_state sample_turn)))"
    by (simp add: hist turn_terminal_def)
  have "map stamp_sequence (turn_stamps stamped_history ?new) = [1]" by (simp add: stamped_history_def eval)
  then obtain st where "turn_stamps stamped_history ?new = [st]" "stamp_sequence st = 1" by auto
  moreover have "\<not> gate_poisoned sample_stamped" by (simp add: sample_stamped_def sample_outputting_state)
  ultimately show ?thesis
    using interrupt_flush_covers_turn [OF hist live, where between = id and ops = "[]"
        and flush = flush_of_first]
    by (simp add: Let_def flush_of_first_def)
qed

text \<open>Every buffer of generated audio that the sink lets a provider build can be delivered: the
  delivery contract accepts it, it consists of whole frames, and the duration by which the turn's
  audio cursor advances is the exact duration of those frames rounded down to microseconds, with no
  overflow and below 300.001 seconds.\<close>

lemma generated_audio_deliverable:
  assumes "buffer_pcm (final push_generated_audio chunks GeneratedAudioBuffer_default) \<noteq> []"
  shows "\<exists>r c d. let b = final push_generated_audio chunks GeneratedAudioBuffer_default in
    audio_contract b = Some (r, c, S16Le, d) \<and> length (buffer_pcm b) mod (unat c * 2) = 0 \<and>
    unat d = length (buffer_pcm b) div (unat c * 2) * 1000000 div unat r \<and> unat d < 300001000"
  using audio_contract_buffer [OF audio_buffer.from_empty(2) assms] by (simp add: Let_def)

end
