(* ===== verification/VPR_World.thy ===== *)
theory VPR_World
  imports VPR_Delivery
begin

text \<open>
  Everything that can happen in one session, interleaved: the methods of the session and of its
  turns, provider permits between their check, their admission and their end, turns going out of
  scope, the passage of time and the poisoning of locks. The theorems hold in every state such an
  interleaving can reach; they are what the comments of \<^verbatim>\<open>authority.rs\<close>, \<^verbatim>\<open>execution_gate.rs\<close>,
  \<^verbatim>\<open>provider.rs\<close> and \<^verbatim>\<open>turn.rs\<close> promise about revocation and late provider results.
\<close>

section \<open>Commands\<close>

datatype session_command =
    Activate
  | BeginDraining
  | RevokeSession
  | CloseSession
  | ChangePolicy policy_event
  | ReplaceSessionAuthority EffectiveAuthority "u64 option"
  | RefreshAuthorization "u64 option"
  | RebaseTimeline
  | RevokeThroughHandle

fun session_step :: "session_command \<Rightarrow> (runtime, unit, Rt0ReasonCode) op" where
  "session_step Activate = activate"
| "session_step BeginDraining = begin_draining"
| "session_step RevokeSession = session_revoke"
| "session_step CloseSession = session_close"
| "session_step (ChangePolicy (SetConsent v)) = session_set_consent v"
| "session_step (ChangePolicy (SetProviderPolicyAllows v)) = session_set_provider_policy_allows v"
| "session_step (ChangePolicy (SetLocalOnlyRequired v)) = session_set_local_only_required v"
| "session_step (ReplaceSessionAuthority effective expires) = session_replace_authority effective expires"
| "session_step (RefreshAuthorization expires) = refresh_authorization expires"
| "session_step RebaseTimeline = (\<lambda>s. map_prod unit_result id (rebase_media_timeline s))"
| "session_step RevokeThroughHandle = revoke_authority"

datatype turn_command =
    AuthorizeTurn
  | BeginProcessing
  | BeginOutput
  | CompleteTurn
  | DenyTurn
  | FailTurn
  | OpenSegment
  | InterruptTurn
  | AcknowledgeSent OutputDeliveryHandle
  | AcknowledgePlayed OutputDeliveryHandle
  | TransportAnswer OutputSegmentId "TransportError + unit"
  | TakeAudioStamp u64 u64
  | TakeVideoStamp u64 u64

fun run_turn_command :: "ActiveTurn \<Rightarrow> turn_command \<Rightarrow> runtime \<Rightarrow> runtime" where
  "run_turn_command t AuthorizeTurn s = snd (authorize t s)"
| "run_turn_command t BeginProcessing s = snd (begin_processing t s)"
| "run_turn_command t BeginOutput s = snd (begin_output t s)"
| "run_turn_command t CompleteTurn s = snd (complete t s)"
| "run_turn_command t DenyTurn s = snd (deny t s)"
| "run_turn_command t FailTurn s = snd (turn_fail t s)"
| "run_turn_command t OpenSegment s = snd (begin_output_segment t s)"
| "run_turn_command t InterruptTurn s = snd (interrupt t s)"
| "run_turn_command t (AcknowledgeSent h) s = snd (acknowledge_output_sent t h s)"
| "run_turn_command t (AcknowledgePlayed h) s = snd (acknowledge_output_played t h s)"
| "run_turn_command t (TransportAnswer i r) s = snd (reconcile_transport_send t i r s)"
| "run_turn_command t (TakeAudioStamp now d) s = snd (on_turn_media t (next_audio_media_stamp now d) s)"
| "run_turn_command t (TakeVideoStamp now d) s = snd (on_turn_media t (next_video_media_stamp now d) s)"

section \<open>The world\<close>

text \<open>A provider operation on its way: for which turn and what, and the cancellation it carries.\<close>

record grant =
  g_turn :: ActiveTurn
  g_scope :: AuthorityScope
  g_class :: DataClass
  g_cancellation :: ProviderCancellation

record world =
  rt :: runtime
  turns :: "ActiveTurn list"
  checked :: "grant list"
  in_flight :: "grant list"

inductive world_step :: "world \<Rightarrow> world \<Rightarrow> bool" where
  session: "session_step c (rt w) = (r, s) \<Longrightarrow> world_step w (w\<lparr>rt := s\<rparr>)"
| open_turn: "ActiveTurn_new i c p (rt w) = (Ok t, s) \<Longrightarrow> world_step w (w\<lparr>rt := s, turns := t # turns w\<rparr>)"
| refuse_turn: "ActiveTurn_new i c p (rt w) = (Err e, s) \<Longrightarrow> world_step w (w\<lparr>rt := s\<rparr>)"
| turn: "t \<in> set (turns w) \<Longrightarrow> world_step w (w\<lparr>rt := run_turn_command t c (rt w)\<rparr>)"
| check: "t \<in> set (turns w) \<Longrightarrow> issue_checks t scope cls (rt w) = Ok c \<Longrightarrow>
    world_step w (w\<lparr>checked := \<lparr>g_turn = t, g_scope = scope, g_class = cls, g_cancellation = c\<rparr> # checked w\<rparr>)"
| admit: "g \<in> set (checked w) \<Longrightarrow> begin_provider_egress (g_cancellation g) (rt w) = (Ok (), s) \<Longrightarrow>
    world_step w (w\<lparr>rt := s, checked := remove1 g (checked w), in_flight := g # in_flight w\<rparr>)"
| turn_away: "g \<in> set (checked w) \<Longrightarrow> begin_provider_egress (g_cancellation g) (rt w) = (Err (), s) \<Longrightarrow>
    world_step w (w\<lparr>rt := s, checked := remove1 g (checked w)\<rparr>)"
| finish: "g \<in> set (in_flight w) \<Longrightarrow>
    world_step w (w\<lparr>rt := ProviderEgressGuard_drop (rt w), in_flight := remove1 g (in_flight w)\<rparr>)"
| drop_turn: "t \<in> set (turns w) \<Longrightarrow> list_all (\<lambda>g. g_turn g \<noteq> t) (checked w @ in_flight w) \<Longrightarrow>
    world_step w (w\<lparr>rt := drop_flag (at_cancellation t) (rt w), turns := removeAll t (turns w)\<rparr>)"
| tick: "world_step w (w\<lparr>rt := (rt w)\<lparr>clock_now_millis := now\<rparr>\<rparr>)"
| poison: "world_step w (w\<lparr>rt := (rt w)\<lparr>gate_poisoned := gate_poisoned (rt w) \<or> a, auth_poisoned := auth_poisoned (rt w) \<or> b,
     policy_poisoned := policy_poisoned (rt w) \<or> c, pending_poisoned := pending_poisoned (rt w) \<or> d\<rparr>\<rparr>)"

abbreviation world_steps :: "world \<Rightarrow> world \<Rightarrow> bool" where
  "world_steps \<equiv> world_step\<^sup>*\<^sup>*"

definition world_start :: "SessionId \<Rightarrow> PersonaId \<Rightarrow> SessionSecurityConfig \<Rightarrow> u64 option \<Rightarrow> world" where
  "world_start i p security clock =
     \<lparr>rt = ActiveSession_with_clock i p security clock, turns = [], checked = [], in_flight = []\<rparr>"

definition reachable :: "world \<Rightarrow> bool" where
  "reachable w \<longleftrightarrow> (\<exists>i p security clock. world_steps (world_start i p security clock) w)"

section \<open>What is kept\<close>

text \<open>What the session currently allows, without the registries of bound turns.\<close>

definition laws :: "runtime \<Rightarrow> AuthorizationState \<times> EffectiveAuthority \<times> PolicyRevision \<times> bool \<times> ConsentState \<times> bool" where
  "laws s = (authorization (auth_state s), effective_authority (auth_state s), ep_revision (policy_state s),
     ep_provider_policy_allows (policy_state s), ep_consent (policy_state s), ep_local_only_required (policy_state s))"

definition permitted :: "runtime \<Rightarrow> grant \<Rightarrow> bool" where
  "permitted s g \<longleftrightarrow>
     snapshot_epoch (at_authorization_snapshot (g_turn g)) = current_epoch s \<and>
     \<not> auth_revoked (authorization (auth_state s)) \<and>
     pc_expires_at_millis (g_cancellation g) = expires_at_millis (authorization (auth_state s)) \<and>
     allows (effective_authority (auth_state s)) (g_scope g) \<and>
     policy_snapshot_revision (at_egress_policy_snapshot (g_turn g)) = current_revision s \<and>
     decide_egress \<lparr>data_class = g_class g, provider_policy_allows = ep_provider_policy_allows (policy_state s),
       consent = ep_consent (policy_state s), local_only_required = ep_local_only_required (policy_state s)\<rparr> = Allow Allowed"

definition registries_ok :: "runtime \<Rightarrow> bool" where
  [inv_defs]: "registries_ok s \<longleftrightarrow>
     registry_ok (current_epoch s) (epoch_bound s) (flags s) \<and>
     registry_ok (current_revision s) (revision_bound s) (flags s) \<and>
     (\<forall>(k, a) \<in> set (epoch_bound s). a < next_addr s) \<and> (\<forall>(k, a) \<in> set (revision_bound s). a < next_addr s)"

definition turn_bound :: "runtime \<Rightarrow> ActiveTurn \<Rightarrow> bool" where
  [inv_defs]: "turn_bound s t \<longleftrightarrow>
     (snapshot_epoch (at_authorization_snapshot t), at_cancellation t) \<in> set (epoch_bound s) \<and>
     (policy_snapshot_revision (at_egress_policy_snapshot t), at_cancellation t) \<in> set (revision_bound s) \<and>
     flags s (at_cancellation t) \<noteq> None \<and> at_cancellation t < next_addr s"

definition grant_ok :: "runtime \<Rightarrow> grant \<Rightarrow> bool" where
  [inv_defs]: "grant_ok s g \<longleftrightarrow>
     pc_turn (g_cancellation g) = at_cancellation (g_turn g) \<and>
     (flags s (at_cancellation (g_turn g)) = Some False \<longrightarrow> permitted s g)"

definition ended_ok :: "runtime \<Rightarrow> bool" where
  [inv_defs]: "ended_ok s \<longleftrightarrow>
     (session_state (rt_session s) \<in> {RealtimeSessionState.Revoked, Closed} \<longrightarrow> auth_revoked (authorization (auth_state s)))"

definition world_inv :: "world \<Rightarrow> bool" where
  "world_inv w \<longleftrightarrow>
     registries_ok (rt w) \<and> (\<forall>t \<in> set (turns w). turn_bound (rt w) t) \<and> distinct (map at_cancellation (turns w)) \<and>
     (\<forall>g \<in> set (checked w) \<union> set (in_flight w). g_turn g \<in> set (turns w) \<and> grant_ok (rt w) g) \<and>
     (pending_poisoned (rt w) \<or> pending_active (rt w) = length (in_flight w)) \<and> ended_ok (rt w)"

text \<open>
  What every step does to the turns that are bound: they stay bound, their flags only go from running
  to cancelled, and unless what the session allows stays as it is they are all cancelled.
\<close>

definition keeps :: "runtime \<Rightarrow> runtime \<Rightarrow> bool" where
  "keeps s s' \<longleftrightarrow>
     (registries_ok s \<longrightarrow> registries_ok s') \<and> next_addr s \<le> next_addr s' \<and>
     (\<forall>a < next_addr s. (flags s' a = None \<longleftrightarrow> flags s a = None) \<and> (flags s' a = Some False \<longrightarrow> flags s a = Some False)) \<and>
     (\<forall>(k, a) \<in> set (epoch_bound s). flags s a \<noteq> None \<longrightarrow> (k, a) \<in> set (epoch_bound s')) \<and>
     (\<forall>(k, a) \<in> set (revision_bound s). flags s a \<noteq> None \<longrightarrow> (k, a) \<in> set (revision_bound s')) \<and>
     (laws s' = laws s \<or> (\<forall>t. registries_ok s \<and> turn_bound s t \<longrightarrow> flags s' (at_cancellation t) = Some True)) \<and>
     pending_active s' = pending_active s \<and> pending_poisoned s' = pending_poisoned s \<and> (ended_ok s \<longrightarrow> ended_ok s')"

lemma keeps_registries: "keeps s s' \<Longrightarrow> registries_ok s \<Longrightarrow> registries_ok s'"
  by (simp add: keeps_def)

lemma keeps_turn_bound: "keeps s s' \<Longrightarrow> turn_bound s t \<Longrightarrow> turn_bound s' t"
  by (fastforce simp: keeps_def turn_bound_def)

lemma permitted_laws: "laws s' = laws s \<Longrightarrow> permitted s' g = permitted s g"
  by (simp add: laws_def permitted_def)

lemma keeps_grant:
  assumes "keeps s s'" and "registries_ok s" and "turn_bound s (g_turn g)" and "grant_ok s g"
  shows "grant_ok s' g"
proof (cases "laws s' = laws s")
  case True
  then show ?thesis
    using assms permitted_laws [OF True] by (auto simp: keeps_def grant_ok_def turn_bound_def)
next
  case False
  then have "flags s' (at_cancellation (g_turn g)) = Some True" using assms by (auto simp: keeps_def)
  then show ?thesis using assms(4) by (simp add: grant_ok_def)
qed

lemma keeps_world:
  assumes k: "keeps (rt w) s" and inv: "world_inv w"
  shows "world_inv (w\<lparr>rt := s\<rparr>)"
proof -
  have "registries_ok s" using keeps_registries [OF k] inv by (simp add: world_inv_def)
  moreover have "\<forall>t \<in> set (turns w). turn_bound s t" using keeps_turn_bound [OF k] inv by (simp add: world_inv_def)
  moreover have "\<forall>g \<in> set (checked w) \<union> set (in_flight w). g_turn g \<in> set (turns w) \<and> grant_ok s g"
    using keeps_grant [OF k] inv by (simp add: world_inv_def)
  moreover have "pending_poisoned s \<or> pending_active s = length (in_flight w)" "ended_ok s"
    using k inv by (simp_all add: world_inv_def keeps_def)
  ultimately show ?thesis using inv by (simp add: world_inv_def)
qed

subsection \<open>Session methods\<close>

lemma keeps_frame:
  assumes "auth_state s' = auth_state s" "policy_state s' = policy_state s" "next_addr s' = next_addr s"
    and "pending_active s' = pending_active s" "pending_poisoned s' = pending_poisoned s"
    and "\<And>a. (flags s' a = None \<longleftrightarrow> flags s a = None) \<and> (flags s' a = Some False \<longrightarrow> flags s a = Some False)"
    and "ended_ok s \<Longrightarrow> ended_ok s'"
  shows "keeps s s'"
proof -
  have "flags_progress (flags s) (flags s')" using assms(6) by (simp add: flags_progress_def)
  moreover have "epoch_bound s' = epoch_bound s" using assms(1) by (simp add: epoch_bound_def)
  ultimately have "registries_ok s \<longrightarrow> registries_ok s'"
    using assms(1-3) by (auto simp: registries_ok_def intro: registry_ok_progress)
  then show ?thesis
    using assms \<open>epoch_bound s' = epoch_bound s\<close> by (auto simp: keeps_def laws_def)
qed

lemma keeps_trans_session:
  assumes "keeps s s'" and "ended_ok (s'\<lparr>rt_session := x\<rparr>)"
  shows "keeps s (s'\<lparr>rt_session := x\<rparr>)"
  using assms by (simp add: keeps_def registries_ok_def epoch_bound_def laws_def turn_bound_def)

lemma auth_change_frame:
  assumes "auth_change c s = (r, s')"
  shows "policy_state s' = policy_state s" "next_addr s' = next_addr s" "rt_session s' = rt_session s"
    "pending_active s' = pending_active s" "pending_poisoned s' = pending_poisoned s"
    "current_epoch s < current_epoch s' \<or> laws s' = laws s"
    "c = RevokeAuth \<Longrightarrow> r = Ok () \<Longrightarrow> auth_revoked (authorization (auth_state s'))"
    "r \<noteq> Ok () \<Longrightarrow> s' = s"
  using assms by (cases rule: auth_change_cases [of c s]; auto simp: cancel_stale_bound_turns_eq laws_def)+

lemma keeps_auth_change:
  assumes ch: "auth_change c s = (r, s')" and e: "ended_ok s \<Longrightarrow> ended_ok s'"
  shows "keeps s s'"
proof -
  note fr = auth_change_frame [OF ch]
  have sub: "set (epoch_bound s') \<subseteq> set (epoch_bound s)"
    using auth_registry.change_cases [OF ch] by auto
  have "registries_ok s'" if ok: "registries_ok s"
  proof -
    have "registry_ok (current_epoch s') (epoch_bound s') (flags s')"
      using auth_registry.change_ok [OF _ ch] ok by (simp add: registries_ok_def)
    moreover have "registry_ok (current_revision s') (revision_bound s') (flags s')"
      using ok fr(1) by (auto simp: registries_ok_def intro: registry_ok_progress [OF _ auth_registry.change_flags [OF ch]])
    ultimately show ?thesis using ok sub fr(1,2) by (auto simp: registries_ok_def)
  qed
  moreover have "flags s' (at_cancellation t) = Some True"
    if "laws s' \<noteq> laws s" "registries_ok s" "turn_bound s t" for t
    using that fr(6) auth_registry.change_cancels [OF _ ch] by (auto simp: registries_ok_def turn_bound_def)
  moreover have "flags_progress (flags s) (flags s')" by (rule auth_registry.change_flags [OF ch])
  ultimately show ?thesis
    using fr(1-5) e auth_registry.change_live [OF ch] auth_registry.change_keeps [OF ch]
    by (auto simp: keeps_def flags_progress_def)
qed

lemma policy_change_frame:
  assumes "policy_change c s = (r, s')"
  shows "auth_state s' = auth_state s" "next_addr s' = next_addr s" "rt_session s' = rt_session s"
    "pending_active s' = pending_active s" "pending_poisoned s' = pending_poisoned s"
    "current_revision s < current_revision s' \<or> s' = s"
  using assms by (cases rule: policy_change_cases [of c s]; auto)+

lemma keeps_policy_change:
  assumes ch: "policy_change c s = (r, s')"
  shows "keeps s s'"
proof -
  note fr = policy_change_frame [OF ch]
  have eb: "epoch_bound s' = epoch_bound s" using fr(1) by (simp add: epoch_bound_def)
  have sub: "set (revision_bound s') \<subseteq> set (revision_bound s)"
    using policy_registry.change_cases [OF ch] by auto
  have "registries_ok s'" if ok: "registries_ok s"
  proof -
    have "registry_ok (current_revision s') (revision_bound s') (flags s')"
      using policy_registry.change_ok [OF _ ch] ok by (simp add: registries_ok_def)
    moreover have "registry_ok (current_epoch s') (epoch_bound s') (flags s')"
      using ok fr(1) eb
      by (auto simp: registries_ok_def intro: registry_ok_progress [OF _ policy_registry.change_flags [OF ch]])
    ultimately show ?thesis using ok sub fr(1,2) eb by (auto simp: registries_ok_def)
  qed
  moreover have "flags s' (at_cancellation t) = Some True"
    if "laws s' \<noteq> laws s" "registries_ok s" "turn_bound s t" for t
    using that fr(6) policy_registry.change_cancels [OF _ ch] by (auto simp: registries_ok_def turn_bound_def)
  moreover have "flags_progress (flags s) (flags s')" by (rule policy_registry.change_flags [OF ch])
  moreover have "ended_ok s \<longrightarrow> ended_ok s'" using fr(1,3) by (simp add: ended_ok_def)
  ultimately show ?thesis
    using fr(1-5) eb policy_registry.change_live [OF ch] policy_registry.change_keeps [OF ch]
    by (auto simp: keeps_def flags_progress_def)
qed

lemma keeps_refl: "keeps s s"
  by (rule keeps_frame) simp_all

lemma keeps_session_transition:
  assumes "next \<notin> {RealtimeSessionState.Revoked, Closed}"
  shows "keeps s (snd (session_transition next s))"
  using assms
  by (intro keeps_frame) (auto simp: session_transition_def RealtimeSession_transition_def ended_ok_def split: if_splits)

lemma keeps_revoke: "keeps s (snd (auth_revoke s))"
proof (cases "auth_revoke s")
  case (Pair r s')
  then have ch: "auth_change RevokeAuth s = (r, s')" by simp
  have "ended_ok s \<longrightarrow> ended_ok s'"
    using auth_change_frame(7,8) [OF ch] by (cases "r = Ok ()") (auto simp: ended_ok_def)
  then show ?thesis using keeps_auth_change [OF ch] Pair by simp
qed

lemma revoke_and_publish_cases:
  obtains (refused) e where "revoke_and_publish next s = (Err e, s)"
  | (published) s1 where "auth_revoke s = (Ok (), s1)"
      "revoke_and_publish next s = (Ok (), s1\<lparr>rt_session := (rt_session s)\<lparr>session_state := next\<rparr>\<rparr>)"
      "auth_revoked (authorization (auth_state s1))"
proof (cases "auth_revoke s")
  case (Pair r s1)
  then have ch: "auth_change RevokeAuth s = (r, s1)" by simp
  show ?thesis
  proof (cases "r = Ok () \<and> session_transition_valid (session_state (rt_session s)) next")
    case True
    then show ?thesis
      using published [of s1] Pair auth_change_frame(7) [OF ch]
      by (auto simp: revoke_and_publish_def RealtimeSession_transition_def)
  next
    case False
    then show ?thesis
      using refused Pair auth_change_frame(8) [OF ch]
      by (cases r; cases "session_transition_valid (session_state (rt_session s)) next")
        (auto simp: revoke_and_publish_def RealtimeSession_transition_def)
  qed
qed

lemma keeps_revoke_and_publish: "keeps s (snd (revoke_and_publish next s))"
proof (cases rule: revoke_and_publish_cases [of "next" s])
  case (refused e)
  then show ?thesis by (simp add: keeps_refl)
next
  case (published s1)
  then show ?thesis using keeps_revoke [of s] by (auto intro: keeps_trans_session simp: ended_ok_def)
qed

lemma keeps_replace:
  assumes "session_state (rt_session s) = RealtimeSessionState.Active" and "c \<noteq> RevokeAuth"
  shows "keeps s (snd (auth_change c s))"
proof (cases "auth_change c s")
  case (Pair r s')
  then show ?thesis
    using keeps_auth_change [OF Pair] auth_change_frame(3) [OF Pair] assms by (simp add: ended_ok_def)
qed

lemma keeps_policy: "keeps s (snd (policy_change c s))"
  by (cases "policy_change c s") (auto intro: keeps_policy_change)

lemma session_step_keeps: "keeps s (snd (session_step c s))"
proof (cases c)
  case (ChangePolicy p)
  then show ?thesis
    using keeps_policy [of s p]
    by (cases p) (simp_all add: session_set_consent_def session_set_provider_policy_allows_def session_set_local_only_required_def)
next
  case (ReplaceSessionAuthority eff x)
  then show ?thesis
    using keeps_replace [of s "ReplaceAuthority eff x"] by (simp add: session_replace_authority_def keeps_refl)
next
  case (RefreshAuthorization x)
  then show ?thesis
    using keeps_replace [of s "ReplaceAuth x"] by (simp add: refresh_authorization_def keeps_refl)
next
  case RebaseTimeline
  have "keeps s (snd (rebase_media_timeline s))"
    by (rule keeps_frame) (auto simp: rebase_media_timeline_def ended_ok_def split: option.splits prod.splits)
  then show ?thesis using RebaseTimeline by simp
qed (simp_all add: activate_def begin_draining_def session_revoke_def session_close_def revoke_authority_def
    keeps_session_transition keeps_revoke keeps_revoke_and_publish)

subsection \<open>Turn methods\<close>

text \<open>A turn method touches cells, the timeline, and at most the turn's own flag, which it cancels.\<close>

definition turn_frame :: "ActiveTurn \<Rightarrow> runtime \<Rightarrow> runtime \<Rightarrow> bool" where
  "turn_frame t s s' \<longleftrightarrow>
     rt_session s' = rt_session s \<and> auth_state s' = auth_state s \<and> policy_state s' = policy_state s \<and>
     pending_active s' = pending_active s \<and> pending_poisoned s' = pending_poisoned s \<and> next_addr s' = next_addr s \<and>
     (flags s' = flags s \<or> flags s' = (flags s)(at_cancellation t \<mapsto> True))"

lemma turn_frame_refl [simp]: "turn_frame t s s"
  by (simp add: turn_frame_def)

lemma on_turn_state_frame [simp]: "turn_frame t s (snd (on_turn_state t f s))"
  by (simp add: turn_frame_def on_turn_state_def split: prod.splits)

lemma on_turn_media_frame [simp]: "turn_frame t s (snd (on_turn_media t f s))"
  by (simp add: turn_frame_def on_turn_media_def split: prod.splits)

lemma while_executing_frame [simp]: "turn_frame t s (snd (while_executing t f s))"
  by (simp add: while_executing_def split: sum.splits)

lemma terminate_frame [simp]: "turn_frame t s (snd (terminate_uncancelled n t s))"
  by (simp add: terminate_uncancelled_def split: sum.splits)

lemma authorize_frame [simp]: "turn_frame t s (snd (authorize t s))"
  by (simp add: authorize_def split: sum.splits option.splits)

lemma acknowledge_frame [simp]:
  "turn_frame t s (snd (acknowledge_output_sent t h s))" "turn_frame t s (snd (acknowledge_output_played t h s))"
  by (simp_all add: acknowledge_output_sent_def acknowledge_output_played_def split: sum.splits)

lemma reconcile_transport_send_frame [simp]: "turn_frame t s (snd (reconcile_transport_send t i r s))"
  by (auto simp: reconcile_transport_send_def on_turn_state_def turn_frame_def Let_def split: sum.splits prod.splits)

lemma interrupt_frame [simp]: "turn_frame t s (snd (interrupt t s))"
  by (auto simp: interrupt_def on_turn_state_def turn_frame_def TurnCancellation_cancel_def split: sum.splits prod.splits)

lemma run_turn_command_frame: "turn_frame t s (run_turn_command t k s)"
  by (cases k) (simp_all add: begin_processing_def begin_output_def complete_def begin_output_segment_def
      deny_def turn_fail_def)

lemma run_turn_command_keeps:
  assumes "turn_bound s t"
  shows "keeps s (run_turn_command t k s)"
  using run_turn_command_frame [of t s k] assms
  by (intro keeps_frame) (auto simp: turn_frame_def turn_bound_def ended_ok_def split: if_splits)

subsection \<open>Binding a turn\<close>

definition binding_frame :: "runtime \<Rightarrow> runtime \<Rightarrow> bool" where
  "binding_frame s s' \<longleftrightarrow>
     rt_session s' = rt_session s \<and> laws s' = laws s \<and> next_addr s' = Suc (next_addr s) \<and>
     pending_active s' = pending_active s \<and> pending_poisoned s' = pending_poisoned s \<and>
     (\<forall>b. b \<noteq> next_addr s \<longrightarrow> flags s' b = flags s b) \<and>
     set (epoch_bound s') \<subseteq> insert (current_epoch s, next_addr s) (set (epoch_bound s)) \<and>
     (\<forall>(k, b) \<in> set (epoch_bound s). flags s b \<noteq> None \<longrightarrow> (k, b) \<in> set (epoch_bound s')) \<and>
     set (revision_bound s') \<subseteq> insert (current_revision s, next_addr s) (set (revision_bound s)) \<and>
     (\<forall>(k, b) \<in> set (revision_bound s). flags s b \<noteq> None \<longrightarrow> (k, b) \<in> set (revision_bound s'))"

lemma auth_bind_turn_frame:
  assumes "auth_bind_turn a s = (r, s')"
  shows "\<exists>bs. s' = s\<lparr>auth_state := (auth_state s)\<lparr>auth_bound_turns := bs\<rparr>\<rparr>"
proof (cases "auth_poisoned s")
  case True
  then show ?thesis using assms
    by (intro exI [of _ "auth_bound_turns (auth_state s)"]) (simp add: auth_bind_turn_def)
qed (use assms in \<open>auto simp: auth_bind_turn_def Let_def\<close>)

lemma policy_bind_turn_frame:
  assumes "policy_bind_turn a s = (r, s')"
  shows "\<exists>bs. s' = s\<lparr>policy_state := (policy_state s)\<lparr>ep_bound_turns := bs\<rparr>\<rparr>"
proof (cases "policy_poisoned s")
  case True
  then show ?thesis using assms
    by (intro exI [of _ "ep_bound_turns (policy_state s)"]) (simp add: policy_bind_turn_def)
qed (use assms in \<open>auto simp: policy_bind_turn_def Let_def\<close>)

lemma epoch_bound_frames [simp]:
  "epoch_bound (s\<lparr>flags := fl\<rparr>) = epoch_bound s" "epoch_bound (s\<lparr>next_addr := n\<rparr>) = epoch_bound s"
  "epoch_bound (s\<lparr>policy_state := p\<rparr>) = epoch_bound s" "epoch_bound (s\<lparr>cells := c\<rparr>) = epoch_bound s"
  "epoch_bound (s\<lparr>rt_session := x\<rparr>) = epoch_bound s" "epoch_bound (s\<lparr>clock_now_millis := now\<rparr>) = epoch_bound s"
  "epoch_bound (s\<lparr>pending_active := k\<rparr>) = epoch_bound s"
  by (simp_all add: epoch_bound_def)

text \<open>Binding in two steps under the gate, from the state in which the flag was allocated.\<close>

lemma bind_both:
  assumes s1: "s1 = s\<lparr>flags := (flags s)(next_addr s \<mapsto> False), next_addr := Suc (next_addr s)\<rparr>"
    and b1: "auth_bind_turn (next_addr s) s1 = (r1, s2)" and b2: "policy_bind_turn (next_addr s) s2 = (r2, s3)"
  shows "binding_frame s s2" "binding_frame s s3"
proof -
  have f2: "\<exists>bs. s2 = s1\<lparr>auth_state := (auth_state s1)\<lparr>auth_bound_turns := bs\<rparr>\<rparr>"
    by (rule auth_bind_turn_frame [OF b1])
  have f3: "\<exists>bs. s3 = s2\<lparr>policy_state := (policy_state s2)\<lparr>ep_bound_turns := bs\<rparr>\<rparr>"
    by (rule policy_bind_turn_frame [OF b2])
  have e2: "set (epoch_bound s2) \<subseteq> insert (current_epoch s, next_addr s) (set (epoch_bound s))"
    using auth_registry.bind_Ok [of _ s1 _ s2] auth_registry.bind_Err [of _ s1 _ s2] b1
    by (cases r1) (fastforce simp: s1)+
  have k2: "\<forall>(k, b) \<in> set (epoch_bound s). flags s b \<noteq> None \<longrightarrow> (k, b) \<in> set (epoch_bound s2)"
    by (auto simp: s1 intro!: auth_registry.bind_keeps [OF b1])
  have e3: "set (revision_bound s3) \<subseteq> insert (current_revision s, next_addr s) (set (revision_bound s))"
    using policy_registry.bind_Ok [of _ s2 _ s3] policy_registry.bind_Err [of _ s2 _ s3] b2 f2
    by (cases r2) (fastforce simp: s1)+
  have k3: "\<forall>(k, b) \<in> set (revision_bound s). flags s b \<noteq> None \<longrightarrow> (k, b) \<in> set (revision_bound s3)"
    using f2 by (auto simp: s1 intro!: policy_registry.bind_keeps [OF b2])
  show "binding_frame s s2" using f2 e2 k2 by (auto simp: binding_frame_def s1 laws_def)
  show "binding_frame s s3" using f2 f3 e2 k2 e3 k3 by (auto simp: binding_frame_def s1 laws_def)
qed

lemma binding_frame_drop: "binding_frame s s' \<Longrightarrow> binding_frame s (drop_flag (next_addr s) s')"
  by (simp add: binding_frame_def drop_flag_def laws_def)

lemma binding_frame_cells: "binding_frame s s' \<Longrightarrow> binding_frame s (s'\<lparr>cells := c\<rparr>)"
  by (simp add: binding_frame_def laws_def)

lemma ActiveTurn_new_frame:
  assumes "ActiveTurn_new i c p s = (r, s')"
  shows "binding_frame s s'"
    and "r = Ok t \<Longrightarrow> at_cancellation t = next_addr s \<and> at_state t = next_addr s \<and>
      flags s' (at_cancellation t) = Some False \<and>
      (snapshot_epoch (at_authorization_snapshot t), at_cancellation t) \<in> set (epoch_bound s') \<and>
      (policy_snapshot_revision (at_egress_policy_snapshot t), at_cancellation t) \<in> set (revision_bound s')"
proof -
  define s1 where s1: "s1 = s\<lparr>flags := (flags s)(next_addr s \<mapsto> False), next_addr := Suc (next_addr s)\<rparr>"
  have f1: "binding_frame s s1" by (auto simp: binding_frame_def s1 laws_def)
  obtain r1 s2 where b1: "auth_bind_turn (next_addr s) s1 = (r1, s2)" by force
  obtain r2 s3 where b2: "policy_bind_turn (next_addr s) s2 = (r2, s3)" by force
  note both = bind_both [OF s1 b1 b2]
  show "binding_frame s s'"
    using assms b1 b2 both f1
    by (auto simp: ActiveTurn_new_def Let_def s1 [symmetric] binding_frame_drop binding_frame_cells
        split: if_splits sum.splits)
  show "at_cancellation t = next_addr s \<and> at_state t = next_addr s \<and>
      flags s' (at_cancellation t) = Some False \<and>
      (snapshot_epoch (at_authorization_snapshot t), at_cancellation t) \<in> set (epoch_bound s') \<and>
      (policy_snapshot_revision (at_egress_policy_snapshot t), at_cancellation t) \<in> set (revision_bound s')"
    if ok: "r = Ok t"
  proof -
    have guards: "\<not> gate_poisoned s" "session_state (rt_session s) = RealtimeSessionState.Active"
        "session_persona_id (rt_session s) = identity_id p"
      using assms ok by (auto simp: ActiveTurn_new_def Let_def split: if_splits)
    have "\<exists>x. r1 = Ok x"
      using assms ok b1 guards by (cases r1) (simp_all add: ActiveTurn_new_def Let_def s1)
    moreover have "\<exists>y. r2 = Ok y"
      using assms ok b1 b2 guards calculation by (cases r2) (auto simp add: ActiveTurn_new_def Let_def s1)
    ultimately obtain x y where xy: "r1 = Ok x" "r2 = Ok y" by blast
    have at: "at_authorization_snapshot t = x" "at_egress_policy_snapshot t = y" "at_cancellation t = next_addr s"
        "at_state t = next_addr s" "\<exists>c. s' = s3\<lparr>cells := c\<rparr>"
      using assms ok b1 b2 guards unfolding xy by (auto simp: ActiveTurn_new_def Let_def s1)
    have a: "snapshot_epoch x = current_epoch s1" "flags s2 = flags s1" "(current_epoch s1, next_addr s) \<in> set (epoch_bound s2)"
      using auth_registry.bind_Ok [of "next_addr s" s1 x s2] b1 xy by simp_all
    have p: "policy_snapshot_revision y = current_revision s2" "flags s3 = flags s2"
        "(current_revision s2, next_addr s) \<in> set (revision_bound s3)"
      using policy_registry.bind_Ok [of "next_addr s" s2 y s3] b2 xy by simp_all
    have "epoch_bound s3 = epoch_bound s2"
      using policy_bind_turn_frame [OF b2] by auto
    then show ?thesis using a p at by (auto simp: s1)
  qed
qed

lemma registry_ok_insert:
  assumes "registry_ok cur bs fl" and "set bs' \<subseteq> insert (cur, n) (set bs)" and "\<forall>(k, a) \<in> set bs. a < n"
    and "\<forall>b. b \<noteq> n \<longrightarrow> fl' b = fl b"
  shows "registry_ok cur bs' fl'"
  unfolding registry_ok_def
proof clarify
  fix k a assume "(k, a) \<in> set bs'"
  then consider "k = cur" | "(k, a) \<in> set bs" "a \<noteq> n" using assms(2,3) by blast
  then show "k \<le> cur \<and> (k < cur \<longrightarrow> fl' a \<noteq> Some False)"
    using assms(1,4) by cases (auto simp: registry_ok_def)
qed

lemma binding_frame_keeps:
  assumes "binding_frame s s'"
  shows "keeps s s'"
proof -
  have cur: "current_epoch s' = current_epoch s" "current_revision s' = current_revision s"
    using assms by (simp_all add: binding_frame_def laws_def)
  have fl: "\<forall>b. b \<noteq> next_addr s \<longrightarrow> flags s' b = flags s b"
    and eb: "set (epoch_bound s') \<subseteq> insert (current_epoch s, next_addr s) (set (epoch_bound s))"
    and rb: "set (revision_bound s') \<subseteq> insert (current_revision s, next_addr s) (set (revision_bound s))"
    and n: "next_addr s' = Suc (next_addr s)"
    using assms by (simp_all add: binding_frame_def)
  have "registries_ok s'" if ok: "registries_ok s"
  proof -
    have old: "auth_registry.ok s" "policy_registry.ok s" "\<forall>(k, a) \<in> set (epoch_bound s). a < next_addr s"
        "\<forall>(k, a) \<in> set (revision_bound s). a < next_addr s"
      using ok by (simp_all add: registries_ok_def)
    have "auth_registry.ok s'" "policy_registry.ok s'"
      unfolding cur by (rule registry_ok_insert [OF old(1) eb old(3) fl], rule registry_ok_insert [OF old(2) rb old(4) fl])
    moreover have "\<forall>(k, a) \<in> set (epoch_bound s'). a < next_addr s'" using eb old(3) n by fastforce
    moreover have "\<forall>(k, a) \<in> set (revision_bound s'). a < next_addr s'" using rb old(4) n by fastforce
    ultimately show ?thesis by (simp add: registries_ok_def)
  qed
  moreover have "ended_ok s \<longrightarrow> ended_ok s'" using assms by (simp add: binding_frame_def ended_ok_def laws_def)
  ultimately show ?thesis using assms by (auto simp: keeps_def binding_frame_def)
qed

subsection \<open>Permits\<close>

lemma issue_checks_Ok:
  assumes "issue_checks t scope cls s = Ok c"
  shows "grant_ok s \<lparr>g_turn = t, g_scope = scope, g_class = cls, g_cancellation = c\<rparr>"
    and "flags s (at_cancellation t) \<noteq> Some True"
proof -
  let ?ctx = "\<lparr>ctx_egress_snapshot = at_egress_policy_snapshot t, ctx_cancellation = at_cancellation t,
    ctx_required_scope = scope, ctx_data_class = cls\<rparr>"
  let ?rq = "\<lparr>data_class = cls, provider_policy_allows = ep_provider_policy_allows (policy_state s),
    consent = ep_consent (policy_state s), local_only_required = ep_local_only_required (policy_state s)\<rparr>"
  obtain now where ok: "auth_issue_provider_permit s (at_authorization_snapshot t) now ?ctx = Ok c"
    using assms by (auto simp: issue_checks_def split: if_splits option.splits)
  then have v: "validate (authorization (auth_state s)) (at_authorization_snapshot t) now = Ok ()"
    by (auto simp: auth_issue_provider_permit_def split: if_splits sum.splits)
  then have rest: "current_revision s = policy_snapshot_revision (at_egress_policy_snapshot t)"
      "flags s (at_cancellation t) \<noteq> Some True" "allows (effective_authority (auth_state s)) scope"
      "\<exists>x. decide_egress ?rq = Allow x" "c = \<lparr>pc_turn = at_cancellation t,
        pc_expires_at_millis = expires_at_millis (authorization (auth_state s))\<rparr>"
    using ok by (auto simp: auth_issue_provider_permit_def TurnCancellation_is_cancelled_def
        split: if_splits EgressDecision.splits EgressReason.splits)
  then show "grant_ok s \<lparr>g_turn = t, g_scope = scope, g_class = cls, g_cancellation = c\<rparr>"
    using v by (auto simp: grant_ok_def permitted_def validate_Ok_iff decide_egress_Allow_iff)
  show "flags s (at_cancellation t) \<noteq> Some True" by (rule rest(2))
qed

lemma begin_provider_egress_Ok_iff:
  "begin_provider_egress c s = (Ok (), s') \<longleftrightarrow>
     \<not> gate_poisoned s \<and> \<not> ProviderCancellation_is_cancelled c s \<and> \<not> pending_poisoned s \<and>
     pending_active s + 1 < 2 ^ 64 \<and> s' = s\<lparr>pending_active := pending_active s + 1\<rparr>"
  by (auto simp: begin_provider_egress_def usize_checked_add_def)

lemma begin_provider_egress_Err: "begin_provider_egress c s = (Err e, s') \<Longrightarrow> s' = s"
  by (auto simp: begin_provider_egress_def split: if_splits option.splits)

lemma inv_pending [simp]:
  "registries_ok (s\<lparr>pending_active := n\<rparr>) = registries_ok s" "turn_bound (s\<lparr>pending_active := n\<rparr>) t = turn_bound s t"
  "grant_ok (s\<lparr>pending_active := n\<rparr>) g = grant_ok s g" "ended_ok (s\<lparr>pending_active := n\<rparr>) = ended_ok s"
  by (simp_all add: registries_ok_def turn_bound_def grant_ok_def permitted_def ended_ok_def)

section \<open>The invariant\<close>

lemma start_inv: "world_inv (world_start i p security clock)"
  by (simp add: world_inv_def world_start_def registries_ok_def registry_ok_def epoch_bound_def ended_ok_def
      ActiveSession_with_clock_def AuthorizationRuntimeState_new_def EgressPolicyRuntimeState_new_def RealtimeSession_new_def)

lemma open_turn_inv:
  assumes new: "ActiveTurn_new i c p (rt w) = (Ok t, s)" and inv: "world_inv w"
  shows "world_inv (w\<lparr>rt := s, turns := t # turns w\<rparr>)"
proof -
  have fr: "binding_frame (rt w) s" by (rule ActiveTurn_new_frame(1) [OF new])
  have "world_inv (w\<lparr>rt := s\<rparr>)" by (rule keeps_world [OF binding_frame_keeps [OF fr] inv])
  moreover have "turn_bound s t" "at_cancellation t = next_addr (rt w)"
    using ActiveTurn_new_frame(2) [OF new refl] fr by (auto simp: turn_bound_def binding_frame_def)
  moreover have "\<forall>u \<in> set (turns w). at_cancellation u < next_addr (rt w)"
    using inv by (simp add: world_inv_def turn_bound_def)
  ultimately show ?thesis by (auto simp: world_inv_def)
qed

lemma drop_turn_inv:
  assumes t: "t \<in> set (turns w)" and free: "list_all (\<lambda>g. g_turn g \<noteq> t) (checked w @ in_flight w)" and inv: "world_inv w"
  shows "world_inv (w\<lparr>rt := drop_flag (at_cancellation t) (rt w), turns := removeAll t (turns w)\<rparr>)"
proof -
  let ?s = "drop_flag (at_cancellation t) (rt w)"
  have fl: "flags ?s = (flags (rt w))(at_cancellation t := None)" by (simp add: drop_flag_def)
  have same: "auth_state ?s = auth_state (rt w)" "policy_state ?s = policy_state (rt w)" "next_addr ?s = next_addr (rt w)"
      "epoch_bound ?s = epoch_bound (rt w)"
    by (simp_all add: drop_flag_def)
  have "flags_progress (flags (rt w)) (flags ?s)" by (simp add: flags_progress_def fl)
  then have "registries_ok ?s"
    using inv same by (auto simp: world_inv_def registries_ok_def intro: registry_ok_progress)
  moreover have other: "at_cancellation u \<noteq> at_cancellation t" if "u \<in> set (turns w)" "u \<noteq> t" for u
    using inv t that by (auto simp: world_inv_def distinct_map inj_on_def)
  moreover have "\<forall>u \<in> set (removeAll t (turns w)). turn_bound ?s u"
    using inv other by (auto simp: world_inv_def turn_bound_def same fl)
  moreover have "\<forall>g \<in> set (checked w) \<union> set (in_flight w). g_turn g \<in> set (removeAll t (turns w)) \<and> grant_ok ?s g"
    using inv other free by (auto simp: world_inv_def grant_ok_def permitted_def same fl list_all_iff)
  moreover have "distinct (map at_cancellation (removeAll t (turns w)))"
    using inv by (auto simp: world_inv_def distinct_map intro: inj_on_subset distinct_removeAll)
  ultimately show ?thesis
    using inv by (simp add: world_inv_def) (simp add: drop_flag_def ended_ok_def)
qed

lemma world_step_inv: "world_step w w' \<Longrightarrow> world_inv w \<Longrightarrow> world_inv w'"
proof (induction rule: world_step.induct)
  case (session c w r s)
  then show ?case using keeps_world [of w s] session_step_keeps [of "rt w" c] by simp
next
  case (open_turn i c p w t s)
  then show ?case by (rule open_turn_inv)
next
  case (refuse_turn i c p w e s)
  then show ?case using keeps_world [OF binding_frame_keeps] ActiveTurn_new_frame(1) by blast
next
  case (turn t w c)
  then have "keeps (rt w) (run_turn_command t c (rt w))" by (intro run_turn_command_keeps) (simp add: world_inv_def)
  then show ?case using turn.prems by (rule keeps_world)
next
  case (check t w scope cls c)
  then show ?case using issue_checks_Ok(1) by (auto simp: world_inv_def)
next
  case (admit g w s)
  then show ?case by (auto simp: world_inv_def begin_provider_egress_Ok_iff dest: subsetD [OF set_remove1_subset])
next
  case (turn_away g w s)
  then have "s = rt w" using begin_provider_egress_Err by blast
  then show ?case using turn_away by (auto simp: world_inv_def dest: subsetD [OF set_remove1_subset])
next
  case (finish g w)
  then show ?case
    by (auto simp: world_inv_def ProviderEgressGuard_drop_def length_remove1 dest: subsetD [OF set_remove1_subset])
next
  case (drop_turn t w)
  then show ?case by (rule drop_turn_inv)
next
  case (tick w now)
  have "keeps (rt w) (rt w\<lparr>clock_now_millis := now\<rparr>)" by (rule keeps_frame) (simp_all add: ended_ok_def)
  then show ?case using tick by (rule keeps_world)
next
  case (poison w a b c d)
  then show ?case
    by (auto simp: world_inv_def registries_ok_def turn_bound_def grant_ok_def permitted_def ended_ok_def epoch_bound_def)
qed

lemma world_steps_inv: "world_steps w w' \<Longrightarrow> world_inv w \<Longrightarrow> world_inv w'"
  by (induction rule: rtranclp_induct) (auto intro: world_step_inv)

lemma reachable_inv: "reachable w \<Longrightarrow> world_inv w"
  using world_steps_inv start_inv by (auto simp: reachable_def)

section \<open>Authority over a turn\<close>

text \<open>What it means that the operation of a grant is authorized at this moment, in the terms of the
  policy layer. An authority that expires needs a clock that answers.\<close>

definition authorized_now :: "runtime \<Rightarrow> grant \<Rightarrow> bool" where
  "authorized_now s g \<longleftrightarrow>
     flags s (at_cancellation (g_turn g)) = Some False \<and>
     (case clock_now_millis s of
        Some now \<Rightarrow> validate (authorization (auth_state s)) (at_authorization_snapshot (g_turn g)) now = Ok ()
      | None \<Rightarrow> expires_at_millis (authorization (auth_state s)) = None \<and>
          validate (authorization (auth_state s)) (at_authorization_snapshot (g_turn g)) 0 = Ok ()) \<and>
     validate_snapshot (s\<lparr>policy_poisoned := False\<rparr>) (at_egress_policy_snapshot (g_turn g)) = Ok () \<and>
     allows (effective_authority (auth_state s)) (g_scope g) \<and>
     decide_egress \<lparr>data_class = g_class g, provider_policy_allows = ep_provider_policy_allows (policy_state s),
       consent = ep_consent (policy_state s), local_only_required = ep_local_only_required (policy_state s)\<rparr> = Allow Allowed"

lemma uncancelled_authorized:
  assumes "turn_bound s (g_turn g)" and "grant_ok s g" and "\<not> ProviderCancellation_is_cancelled (g_cancellation g) s"
  shows "authorized_now s g"
proof -
  have fl: "flags s (at_cancellation (g_turn g)) = Some False"
    using assms by (auto simp: turn_bound_def grant_ok_def ProviderCancellation_is_cancelled_def
        TurnCancellation_is_cancelled_def)
  then have "permitted s g" using assms(2) by (simp add: grant_ok_def)
  then show ?thesis
    using assms(2,3) fl
    by (auto simp: authorized_now_def permitted_def grant_ok_def validate_Ok_iff validate_snapshot_def
        ProviderCancellation_is_cancelled_def TurnCancellation_is_cancelled_def is_none_or_def not_le
        split: option.splits)
qed

lemma authorized_now_pending [simp]: "authorized_now (s\<lparr>pending_active := n\<rparr>) g = authorized_now s g"
  by (auto simp: authorized_now_def validate_snapshot_def split: option.splits)

lemma grant_turn_bound: "world_inv w \<Longrightarrow> g \<in> set (checked w) \<union> set (in_flight w) \<Longrightarrow> turn_bound (rt w) (g_turn g) \<and> grant_ok (rt w) g"
  by (auto simp: world_inv_def)

text \<open>A turn whose authority is gone: cancelled, or bound to the epoch in which authority was revoked.\<close>

definition outlawed :: "runtime \<Rightarrow> ActiveTurn \<Rightarrow> bool" where
  "outlawed s t \<longleftrightarrow> flags s (at_cancellation t) = Some True \<or> auth_revoked (authorization (auth_state s))"

lemma outlawed_keeps:
  assumes k: "keeps s s'" and t: "registries_ok s" "turn_bound s t" and o: "outlawed s t"
  shows "outlawed s' t"
proof (cases "laws s' = laws s")
  case True
  have "flags s' (at_cancellation t) = Some True" if "flags s (at_cancellation t) = Some True"
    using k t(2) that by (auto simp: keeps_def turn_bound_def)
  then show ?thesis using o True by (auto simp: outlawed_def laws_def)
next
  case False
  then show ?thesis using k t by (auto simp: keeps_def outlawed_def)
qed

lemma outlawed_step:
  assumes "world_step w w'" and inv: "world_inv w" and t: "t \<in> set (turns w)" "t \<in> set (turns w')"
    and o: "outlawed (rt w) t"
  shows "outlawed (rt w') t"
proof -
  have b: "registries_ok (rt w)" "turn_bound (rt w) t" using inv t(1) by (simp_all add: world_inv_def)
  have keep: "outlawed s t" if "keeps (rt w) s" for s using outlawed_keeps [OF that b o] .
  from assms(1) show ?thesis
  proof cases
    case (session c r s)
    then show ?thesis using keep session_step_keeps [of "rt w" c] by simp
  next
    case (open_turn i c p u s)
    then show ?thesis using keep [OF binding_frame_keeps [OF ActiveTurn_new_frame(1)]] by simp
  next
    case (refuse_turn i c p e s)
    then show ?thesis using keep [OF binding_frame_keeps [OF ActiveTurn_new_frame(1)]] by simp
  next
    case (turn u c)
    then have "turn_bound (rt w) u" using inv by (simp add: world_inv_def)
    then show ?thesis using keep [OF run_turn_command_keeps] turn by simp
  next
    case (turn_away g s)
    then have "s = rt w" using begin_provider_egress_Err by blast
    then show ?thesis using turn_away o by simp
  next
    case (drop_turn u)
    have "at_cancellation t \<noteq> at_cancellation u"
      using inv drop_turn t by (auto simp: world_inv_def distinct_map inj_on_def)
    then show ?thesis using drop_turn o by (simp add: outlawed_def drop_flag_def)
  qed (use o in \<open>auto simp: outlawed_def begin_provider_egress_Ok_iff ProviderEgressGuard_drop_def\<close>)
qed

text \<open>Addresses are never reused, so a turn that is gone does not come back.\<close>

lemma world_step_addr:
  assumes "world_step w w'" and inv: "world_inv w"
  shows "next_addr (rt w) \<le> next_addr (rt w')"
    and "t \<in> set (turns w') \<Longrightarrow> t \<in> set (turns w) \<or> next_addr (rt w) \<le> at_cancellation t"
proof -
  have "next_addr (rt w) \<le> next_addr (rt w') \<and>
      (t \<in> set (turns w') \<longrightarrow> t \<in> set (turns w) \<or> next_addr (rt w) \<le> at_cancellation t)"
    using assms(1)
  proof cases
    case (session c r s)
    then show ?thesis using session_step_keeps [of "rt w" c] by (simp add: keeps_def)
  next
    case (open_turn i c p u s)
    then show ?thesis
      using ActiveTurn_new_frame(1) [OF open_turn(2)] ActiveTurn_new_frame(2) [OF open_turn(2) refl]
      by (auto simp: binding_frame_def)
  next
    case (refuse_turn i c p e s)
    then show ?thesis using ActiveTurn_new_frame(1) [OF refuse_turn(2)] by (simp add: binding_frame_def)
  next
    case (turn u c)
    then show ?thesis using run_turn_command_frame [of u "rt w" c] by (simp add: turn_frame_def)
  next
    case (turn_away g s)
    then have "s = rt w" using begin_provider_egress_Err by blast
    then show ?thesis using turn_away by simp
  qed (auto simp: begin_provider_egress_Ok_iff ProviderEgressGuard_drop_def drop_flag_def)
  then show "next_addr (rt w) \<le> next_addr (rt w')"
    and "t \<in> set (turns w') \<Longrightarrow> t \<in> set (turns w) \<or> next_addr (rt w) \<le> at_cancellation t" by blast+
qed

lemma outlawed_steps:
  assumes "world_steps w w'" and "world_inv w" and "t \<in> set (turns w)" and "outlawed (rt w) t"
  shows "t \<in> set (turns w') \<Longrightarrow> outlawed (rt w') t"
proof -
  have "world_inv w' \<and> at_cancellation t < next_addr (rt w') \<and> (t \<in> set (turns w') \<longrightarrow> outlawed (rt w') t)"
    using assms(1)
  proof (induction rule: rtranclp_induct)
    case base
    then show ?case using assms by (auto simp: world_inv_def turn_bound_def)
  next
    case (step y z)
    then show ?case
      using world_step_inv [OF step(2)] world_step_addr(1) [OF step(2)] world_step_addr(2) [OF step(2), of t] outlawed_step [OF step(2), of t] by fastforce
  qed
  then show "t \<in> set (turns w') \<Longrightarrow> outlawed (rt w') t" by blast
qed

text \<open>Nothing is permitted to a turn whose authority is gone.\<close>

lemma outlawed_refused:
  assumes inv: "world_inv w" and t: "t \<in> set (turns w)" and o: "outlawed (rt w) t"
  shows "\<not> is_ok (issue_checks t scope cls (rt w))" and "\<not> is_ok (require_executionactive_egress t (rt w))"
    and "\<not> is_ok (fst (authorize t (rt w)))"
    and "g \<in> set (checked w) \<union> set (in_flight w) \<Longrightarrow> g_turn g = t \<Longrightarrow> ProviderCancellation_is_cancelled (g_cancellation g) (rt w)"
proof -
  let ?s = "rt w"
  have bound: "turn_bound ?s t" using inv t by (simp add: world_inv_def)
  have "flags ?s (at_cancellation t) = Some True \<or> validate (authorization (auth_state ?s)) (at_authorization_snapshot t) now \<noteq> Ok ()"
    for now using o by (auto simp: outlawed_def validate_Ok_iff)
  then have no: "flags ?s (at_cancellation t) = Some True \<or> validate_bound ?s (at_authorization_snapshot t) now \<noteq> Ok ()" for now
    by (auto simp: validate_bound_def)
  show "\<not> is_ok (require_executionactive_egress t ?s)"
    using no by (auto simp: require_executionactive_egress_def require_not_cancelled_def TurnCancellation_is_cancelled_def
        split: option.splits sum.splits)
  show "\<not> is_ok (fst (authorize t ?s))"
    using no by (auto simp: authorize_def TurnCancellation_is_cancelled_def split: option.splits sum.splits)
  show "\<not> is_ok (issue_checks t scope cls ?s)"
  proof
    assume "is_ok (issue_checks t scope cls ?s)"
    then obtain c where c: "issue_checks t scope cls ?s = Ok c" by (auto simp: is_ok_iff)
    have "flags ?s (at_cancellation t) = Some False" using issue_checks_Ok(2) [OF c] bound by (auto simp: turn_bound_def)
    then show False using issue_checks_Ok(1) [OF c] o by (simp add: grant_ok_def permitted_def outlawed_def)
  qed
  show "ProviderCancellation_is_cancelled (g_cancellation g) ?s"
    if g: "g \<in> set (checked w) \<union> set (in_flight w)" "g_turn g = t"
  proof -
    have "grant_ok ?s g" using grant_turn_bound [OF inv g(1)] by simp
    then have "flags ?s (at_cancellation t) = Some True"
      using bound o g(2) by (auto simp: grant_ok_def permitted_def outlawed_def turn_bound_def)
    then show ?thesis
      using \<open>grant_ok ?s g\<close> g(2)
      by (simp add: grant_ok_def ProviderCancellation_is_cancelled_def TurnCancellation_is_cancelled_def)
  qed
qed

lemma while_executing_refused:
  "\<not> is_ok (require_executionactive_egress t s) \<Longrightarrow> \<not> is_ok (fst (while_executing t f s))"
  by (auto simp: while_executing_def split: sum.splits)

text \<open>Revocation.\<close>

lemma revocation_outlaws:
  assumes "c \<in> {RevokeSession, CloseSession, RevokeThroughHandle}" and "session_step c s = (Ok (), s')"
  shows "auth_revoked (authorization (auth_state s'))"
proof -
  have handle: "auth_revoked (authorization (auth_state s1))" if "auth_revoke s = (Ok (), s1)" for s1
    using auth_change_frame(7) [of RevokeAuth s "Ok ()" s1] that by simp
  have publish: "auth_revoked (authorization (auth_state s1))" if "revoke_and_publish n s = (Ok (), s1)" for n s1
    using that by (cases rule: revoke_and_publish_cases [of n s]) auto
  from assms(1) consider "c = RevokeSession" | "c = CloseSession" | "c = RevokeThroughHandle" by blast
  then show ?thesis
  proof cases
    case 1
    then show ?thesis using assms(2) publish by (simp add: session_revoke_def)
  next
    case 2
    then show ?thesis using assms(2) publish by (simp add: session_close_def)
  next
    case 3
    then show ?thesis using assms(2) handle by (cases "auth_revoke s") (auto simp: revoke_authority_def)
  qed
qed

lemma session_state_ended:
  assumes "world_step w w'" and "session_state (rt_session (rt w)) \<in> {RealtimeSessionState.Revoked, Closed}"
  shows "session_state (rt_session (rt w')) \<in> {RealtimeSessionState.Revoked, Closed}"
  using assms(1)
proof cases
  case (session c r s)
  have "session_state (rt_session (snd (session_step c (rt w)))) \<in> {RealtimeSessionState.Revoked, Closed}"
  proof (cases c)
    case (ChangePolicy p)
    have "rt_session (snd (policy_change p (rt w))) = rt_session (rt w)"
      by (rule policy_change_frame(3) [of p "rt w" "fst (policy_change p (rt w))"]) simp
    then show ?thesis
      using ChangePolicy assms(2) by (cases p) (simp_all add: session_set_consent_def
          session_set_provider_policy_allows_def session_set_local_only_required_def)
  next
    case RevokeThroughHandle
    have "rt_session (snd (auth_revoke (rt w))) = rt_session (rt w)"
      by (rule auth_change_frame(3) [of RevokeAuth "rt w" "fst (auth_revoke (rt w))"]) simp
    then show ?thesis using RevokeThroughHandle assms(2) by (simp add: revoke_authority_def)
  next
    case RevokeSession
    then show ?thesis using assms(2) by (cases rule: revoke_and_publish_cases [of RealtimeSessionState.Revoked "rt w"]) (auto simp: session_revoke_def)
  next
    case CloseSession
    then show ?thesis using assms(2) by (cases rule: revoke_and_publish_cases [of Closed "rt w"]) (auto simp: session_close_def)
  qed (use assms(2) in \<open>auto simp: activate_def begin_draining_def session_transition_def RealtimeSession_transition_def
      session_replace_authority_def refresh_authorization_def rebase_media_timeline_def\<close>)
  then show ?thesis using session by simp
next
  case (open_turn i c p u s)
  then show ?thesis using ActiveTurn_new_frame(1) [OF open_turn(2)] assms(2) by (simp add: binding_frame_def)
next
  case (refuse_turn i c p e s)
  then show ?thesis using ActiveTurn_new_frame(1) [OF refuse_turn(2)] assms(2) by (simp add: binding_frame_def)
next
  case (turn u c)
  then show ?thesis using run_turn_command_frame [of u "rt w" c] assms(2) by (simp add: turn_frame_def)
next
  case (turn_away g s)
  then have "s = rt w" using begin_provider_egress_Err by blast
  then show ?thesis using turn_away assms(2) by simp
qed (use assms(2) in \<open>auto simp: begin_provider_egress_Ok_iff ProviderEgressGuard_drop_def drop_flag_def\<close>)

section \<open>A sample run\<close>

definition sample_world :: world where
  "sample_world = \<lparr>rt = sample_outputting, turns = [sample_turn], checked = [], in_flight = []\<rparr>"

lemma sample_world_reachable: "reachable sample_world"
proof -
  let ?w0 = "world_start (SessionId []) (PersonaId []) sample_config (Some 5)"
  let ?w1 = "?w0\<lparr>rt := sample_active\<rparr>"
  let ?w2 = "?w1\<lparr>rt := sample_bound, turns := [sample_turn]\<rparr>"
  have s1: "world_step ?w0 ?w1"
    by (rule world_step.session [of Activate _ "fst (activate (rt ?w0))"]) (simp add: sample_active_def world_start_def prod_eq_iff)
  have "ActiveTurn_new (TurnId []) (CorrelationId []) (PersonaIdentity_new (PersonaId []) (PersonaVersion 1) DigitalTwin)
      sample_active = (Ok sample_turn, sample_bound)"
    using sample_turn_new by (simp add: sample_bound_def prod_eq_iff)
  then have s2: "world_step ?w1 ?w2"
    using world_step.open_turn [of "TurnId []" "CorrelationId []" "PersonaIdentity_new (PersonaId []) (PersonaVersion 1) DigitalTwin" ?w1]
    by (simp add: world_start_def)
  have run: "world_steps w (w\<lparr>rt := run_turn_command sample_turn c (rt w)\<rparr>)" if "turns w = [sample_turn]" for w c
    using that by (intro r_into_rtranclp world_step.turn) simp
  have "world_steps ?w2 sample_world"
    using run [of ?w2 AuthorizeTurn] run [of "?w2\<lparr>rt := snd (authorize sample_turn sample_bound)\<rparr>" BeginProcessing]
      run [of "?w2\<lparr>rt := snd (begin_processing sample_turn (snd (authorize sample_turn sample_bound)))\<rparr>" BeginOutput]
    by (simp add: sample_world_def sample_outputting_def world_start_def)
  then have "world_steps ?w0 sample_world"
    using s1 s2 by (meson converse_rtranclp_into_rtranclp)
  then show ?thesis by (auto simp: reachable_def)
qed

definition sample_grant :: grant where
  "sample_grant = \<lparr>g_turn = sample_turn, g_scope = ProviderOperation_required_scope Llm, g_class = Biometric,
     g_cancellation = \<lparr>pc_turn = 0, pc_expires_at_millis = Some 100\<rparr>\<rparr>"

lemma sample_check: "issue_checks sample_turn (ProviderOperation_required_scope Llm) Biometric sample_outputting =
    Ok \<lparr>pc_turn = 0, pc_expires_at_millis = Some 100\<rparr>"
  by code_simp

lemma sample_admit:
  "begin_provider_egress \<lparr>pc_turn = 0, pc_expires_at_millis = Some 100\<rparr> sample_outputting =
     (Ok (), sample_outputting\<lparr>pending_active := 1\<rparr>)"
proof -
  have "\<not> gate_poisoned sample_outputting" "\<not> pending_poisoned sample_outputting" "pending_active sample_outputting = 0"
      "\<not> ProviderCancellation_is_cancelled \<lparr>pc_turn = 0, pc_expires_at_millis = Some 100\<rparr> sample_outputting"
    by code_simp+
  then show ?thesis by (simp add: begin_provider_egress_Ok_iff)
qed

definition sample_checked :: world where
  "sample_checked = sample_world\<lparr>checked := [sample_grant]\<rparr>"

definition sample_calling :: world where
  "sample_calling = sample_world\<lparr>rt := sample_outputting\<lparr>pending_active := 1\<rparr>, in_flight := [sample_grant]\<rparr>"

lemma sample_calling_reachable: "reachable sample_calling"
proof -
  have "world_step sample_world sample_checked"
    using world_step.check [of sample_turn sample_world "ProviderOperation_required_scope Llm" Biometric
        "\<lparr>pc_turn = 0, pc_expires_at_millis = Some 100\<rparr>"] sample_check
    by (simp add: sample_world_def sample_checked_def sample_grant_def)
  moreover have "world_step sample_checked sample_calling"
    using world_step.admit [of sample_grant sample_checked "sample_outputting\<lparr>pending_active := 1\<rparr>"] sample_admit
    by (simp add: sample_world_def sample_checked_def sample_calling_def sample_grant_def)
  ultimately show ?thesis
    using sample_world_reachable unfolding reachable_def by (meson rtranclp.rtrancl_into_rtrancl)
qed

lemma reachable_steps: "reachable w \<Longrightarrow> world_steps w w' \<Longrightarrow> reachable w'"
  unfolding reachable_def by (meson rtranclp_trans)

section \<open>Properties\<close>

text \<open>C7. Revocation cannot miss a turn. In every reachable state of a session, a turn whose
  cancellation flag is not set is bound to the authorization epoch and to the policy revision that
  are current now: a turn created concurrently with a revocation, a replacement of authority or a
  change of consent, provider policy or locality either carries the new state or is cancelled.\<close>

theorem running_turns_are_current:
  assumes "reachable w" and "t \<in> set (turns w)" and "\<not> TurnCancellation_is_cancelled (at_cancellation t) (rt w)"
  shows "snapshot_epoch (at_authorization_snapshot t) = auth_epoch (authorization (auth_state (rt w))) \<and>
         policy_snapshot_revision (at_egress_policy_snapshot t) = ep_revision (policy_state (rt w))"
proof -
  have inv: "registries_ok (rt w)" "turn_bound (rt w) t" using reachable_inv [OF assms(1)] assms(2) by (simp_all add: world_inv_def)
  then have "flags (rt w) (at_cancellation t) = Some False"
    using assms(3) by (auto simp: turn_bound_def TurnCancellation_is_cancelled_def)
  then show ?thesis
    using inv auth_registry.running_is_current policy_registry.running_is_current
    by (auto simp: registries_ok_def turn_bound_def)
qed

theorem running_turns_are_current_witness:
  "snapshot_epoch (at_authorization_snapshot sample_turn) = auth_epoch (authorization (auth_state (rt sample_world))) \<and>
   policy_snapshot_revision (at_egress_policy_snapshot sample_turn) = ep_revision (policy_state (rt sample_world))"
proof (rule running_turns_are_current [OF sample_world_reachable])
  show "sample_turn \<in> set (turns sample_world)" by (simp add: sample_world_def)
  show "\<not> TurnCancellation_is_cancelled (at_cancellation sample_turn) (rt sample_world)" by code_simp
qed

text \<open>C1. Admission of a provider operation is linearizable with revocation. A permit is checked under one
  lock and admitted under another; whatever the other threads do in between (revoke, replace the
  authority, change the policy, interrupt the turn, let time pass), a permit that is issued belongs to an
  operation that is authorized in the state of its admission: the turn is not cancelled, its snapshot
  validates at the time the clock shows, its policy revision is the current one, the current authority
  allows the scope, and the current policy allows the egress.\<close>

theorem issued_permit_is_authorized:
  assumes "reachable w" and "t \<in> set (turns w)"
    and checks: "issue_checks t scope cls (rt w) = Ok c"
    and pause: "world_steps (w\<lparr>checked := \<lparr>g_turn = t, g_scope = scope, g_class = cls, g_cancellation = c\<rparr> # checked w\<rparr>) w'"
    and waiting: "\<lparr>g_turn = t, g_scope = scope, g_class = cls, g_cancellation = c\<rparr> \<in> set (checked w')"
    and issued: "issue_provider_permit (\<lambda>_. rt w') t scope cls (rt w) = (Ok permit, s)"
  shows "authorized_now s \<lparr>g_turn = t, g_scope = scope, g_class = cls, g_cancellation = c\<rparr> \<and>
         permit = \<lparr>permit_cancellation = c, active_egress = True\<rparr> \<and> pending_active s = pending_active (rt w') + 1"
proof -
  let ?g = "\<lparr>g_turn = t, g_scope = scope, g_class = cls, g_cancellation = c\<rparr>"
  have "world_step w (w\<lparr>checked := ?g # checked w\<rparr>)" by (rule world_step.check [OF assms(2) checks])
  then have "reachable w'" using reachable_steps [OF assms(1)] pause by (meson converse_rtranclp_into_rtranclp)
  then have g: "turn_bound (rt w') t" "grant_ok (rt w') ?g"
    using grant_turn_bound [OF reachable_inv, of w' ?g] waiting by simp_all
  have admitted: "begin_provider_egress c (rt w') = (Ok (), s)" and p: "permit = \<lparr>permit_cancellation = c, active_egress = True\<rparr>"
    using issued checks by (auto simp: issue_provider_permit_def split: sum.splits prod.splits)
  have s: "\<not> ProviderCancellation_is_cancelled c (rt w')" "s = rt w'\<lparr>pending_active := pending_active (rt w') + 1\<rparr>"
    using admitted by (simp_all add: begin_provider_egress_Ok_iff)
  have "authorized_now (rt w') ?g" using uncancelled_authorized [of "rt w'" ?g] g s(1) by simp
  then show ?thesis using p s(2) by simp
qed

theorem issued_permit_is_authorized_witness:
  "authorized_now (sample_outputting\<lparr>pending_active := 1\<rparr>) sample_grant"
proof -
  have issued: "issue_provider_permit (\<lambda>_. rt sample_checked) sample_turn (ProviderOperation_required_scope Llm) Biometric
      (rt sample_world) = (Ok \<lparr>permit_cancellation = \<lparr>pc_turn = 0, pc_expires_at_millis = Some 100\<rparr>, active_egress = True\<rparr>,
        sample_outputting\<lparr>pending_active := 1\<rparr>)"
    using sample_check sample_admit by (simp add: issue_provider_permit_def sample_checked_def sample_world_def)
  show ?thesis
    using issued_permit_is_authorized [OF sample_world_reachable _ _ _ _ issued, of "\<lparr>pc_turn = 0, pc_expires_at_millis = Some 100\<rparr>"]
      sample_check
    by (simp add: sample_checked_def sample_world_def sample_grant_def)
qed

text \<open>C2. No late success. A provider call runs without any lock; other threads may revoke, interrupt or
  change the policy while it does. If the runtime hands the provider's result to the caller as a success,
  then the operation was authorized when the provider was called and is authorized now, when it
  returned; and the result is the provider's own.\<close>

theorem success_only_while_authorized:
  assumes "reachable w" and "g \<in> set (in_flight w)"
    and call: "call (g_cancellation g) (x, rt w) = (answer, (x', rt w'))"
    and meanwhile: "world_steps w w'" "g \<in> set (in_flight w')"
    and returned: "dispatch \<lparr>permit_cancellation = g_cancellation g, active_egress = True\<rparr> call (x, rt w) = (Ok v, y)"
  shows "authorized_now (rt w) g \<and> authorized_now (rt w') g \<and> answer = Ok v \<and> y = (x', rt w')"
proof -
  have before: "\<not> ProviderCancellation_is_cancelled (g_cancellation g) (rt w)"
    and after: "\<not> ProviderCancellation_is_cancelled (g_cancellation g) (rt w')" and "answer = Ok v" "y = (x', rt w')"
    using returned call by (auto simp: dispatch_def split: if_splits sum.splits)
  moreover have "authorized_now (rt w) g"
    using uncancelled_authorized [OF _ _ before] grant_turn_bound [OF reachable_inv [OF assms(1)], of g] assms(2) by simp
  moreover have "authorized_now (rt w') g"
    using uncancelled_authorized [OF _ _ after] grant_turn_bound [OF reachable_inv [OF reachable_steps [OF assms(1) meanwhile(1)]], of g]
      meanwhile(2) by simp
  ultimately show ?thesis by blast
qed

theorem success_only_while_authorized_witness:
  "authorized_now (rt sample_calling) sample_grant"
proof -
  have live: "\<not> ProviderCancellation_is_cancelled (g_cancellation sample_grant) (rt sample_calling)" by code_simp
  have flying: "sample_grant \<in> set (in_flight sample_calling)" by (simp add: sample_calling_def)
  have ok: "dispatch \<lparr>permit_cancellation = g_cancellation sample_grant, active_egress = True\<rparr>
      (\<lambda>_ s. (Ok (), s)) ((), rt sample_calling) = (Ok (), ((), rt sample_calling))"
    using live by (simp add: dispatch_def)
  show ?thesis
    by (rule conjunct1 [OF success_only_while_authorized [OF sample_calling_reachable flying refl rtranclp.rtrancl_refl flying ok]])
qed

text \<open>C3. Revocation is final for the turns it meets. After a session was revoked or closed, or its authority
  revoked through a handle, no turn that existed at that moment ever gets another provider permit, opens an
  output segment, moves forward in its lifecycle or completes, whatever happens later in the session
  (even if the owner grants a new authority), and every provider operation it still has in flight sees
  itself cancelled.\<close>

theorem revoked_turns_never_proceed:
  assumes "reachable w" and "t \<in> set (turns w)"
    and "c \<in> {RevokeSession, CloseSession, RevokeThroughHandle}" and ok: "session_step c (rt w) = (Ok (), s)"
    and later: "world_steps (w\<lparr>rt := s\<rparr>) w'" "t \<in> set (turns w')"
  shows "\<not> is_ok (fst (issue_provider_permit between t scope cls (rt w'))) \<and>
         \<not> is_ok (fst (authorize t (rt w'))) \<and> \<not> is_ok (fst (begin_processing t (rt w'))) \<and>
         \<not> is_ok (fst (begin_output t (rt w'))) \<and> \<not> is_ok (fst (complete t (rt w'))) \<and>
         \<not> is_ok (fst (begin_output_segment t (rt w'))) \<and>
         list_all (\<lambda>g. g_turn g = t \<longrightarrow> ProviderCancellation_is_cancelled (g_cancellation g) (rt w')) (in_flight w')"
proof -
  have step: "world_step w (w\<lparr>rt := s\<rparr>)" by (rule world_step.session [OF ok])
  have inv1: "world_inv (w\<lparr>rt := s\<rparr>)" by (rule world_step_inv [OF step reachable_inv [OF assms(1)]])
  have "outlawed s t" using revocation_outlaws [OF assms(3) ok] by (simp add: outlawed_def)
  then have o: "outlawed (rt w') t" using outlawed_steps [OF later(1) inv1, of t] assms(2) later(2) by simp
  have inv: "world_inv w'" by (rule world_steps_inv [OF later(1) inv1])
  note no = outlawed_refused [OF inv later(2) o]
  have "\<not> is_ok (fst (issue_provider_permit between t scope cls (rt w')))"
    using no(1) [of scope cls] by (auto simp: issue_provider_permit_def split: sum.splits)
  then show ?thesis
    using no(3,4)
    by (simp add: while_executing_refused [OF no(2)] begin_processing_def begin_output_def complete_def begin_output_segment_def list_all_iff)
qed

theorem revoked_turns_never_proceed_witness:
  "\<not> is_ok (fst (issue_provider_permit id sample_turn (ProviderOperation_required_scope Llm) Biometric
     (snd (session_revoke sample_outputting))))"
proof -
  have "fst (session_revoke sample_outputting) = Ok ()" by code_simp
  then have "session_step RevokeSession (rt sample_world) = (Ok (), snd (session_revoke sample_outputting))"
    by (simp add: sample_world_def prod_eq_iff)
  then show ?thesis
    using revoked_turns_never_proceed [OF sample_world_reachable, of sample_turn RevokeSession "snd (session_revoke sample_outputting)"
        "sample_world\<lparr>rt := snd (session_revoke sample_outputting)\<rparr>" id "ProviderOperation_required_scope Llm" Biometric]
    by (simp add: sample_world_def)
qed

text \<open>A session that has ended stays without authority. Once a session is revoked or closed it is so in
  every later state, its authorization is revoked, and no new turn can be bound to it.\<close>

lemma ended_session_stays_powerless:
  assumes "reachable w" and "session_state (rt_session (rt w)) \<in> {RealtimeSessionState.Revoked, Closed}"
    and "world_steps w w'"
  shows "session_state (rt_session (rt w')) \<in> {RealtimeSessionState.Revoked, Closed} \<and>
         auth_revoked (authorization (auth_state (rt w'))) \<and> \<not> is_ok (fst (ActiveTurn_new i c p (rt w')))"
proof -
  have st: "session_state (rt_session (rt w')) \<in> {RealtimeSessionState.Revoked, Closed}"
    using assms(3,2) by (induction rule: rtranclp_induct) (auto dest: session_state_ended)
  have "ended_ok (rt w')" using reachable_inv [OF reachable_steps [OF assms(1,3)]] by (simp add: world_inv_def)
  then have "auth_revoked (authorization (auth_state (rt w')))" using st by (auto simp: ended_ok_def)
  moreover have "session_state (rt_session (rt w')) \<noteq> RealtimeSessionState.Active" using st by auto
  then have "\<not> is_ok (fst (ActiveTurn_new i c p (rt w')))" by (simp add: ActiveTurn_new_def Let_def)
  ultimately show ?thesis using st by blast
qed

text \<open>C18. The quiescence receipt is truthful. When waiting for provider quiescence answers yes, no provider
  operation is in flight at the moment the answer is given, whatever was started and finished while
  waiting; and the number of operations in flight is always the counter, which can neither underflow
  nor be passed by an operation that was not counted, unless its lock is poisoned, and then the answer
  is never yes.\<close>

theorem quiescence_receipt_truthful:
  assumes "reachable w" and "world_steps w w'"
    and "await_provider_quiescence (\<lambda>_. rt w') (rt w) = (True, s)"
  shows "(s = rt w \<and> in_flight w = []) \<or> (s = rt w' \<and> in_flight w' = [])"
proof -
  have "pending_poisoned (rt v) \<or> pending_active (rt v) = length (in_flight v)" if "reachable v" for v
    using reachable_inv [OF that] by (simp add: world_inv_def)
  then have "pending_poisoned (rt w) \<or> pending_active (rt w) = length (in_flight w)"
      "pending_poisoned (rt w') \<or> pending_active (rt w') = length (in_flight w')"
    using assms(1) reachable_steps [OF assms(1,2)] by blast+
  then show ?thesis
    using assms(3) by (auto simp: await_provider_quiescence_def Let_def split: if_splits)
qed

theorem quiescence_receipt_truthful_witness:
  "fst (await_provider_quiescence (\<lambda>_. rt sample_world) (rt sample_world)) \<and> in_flight sample_world = []"
proof -
  have "fst (await_provider_quiescence (\<lambda>_. rt sample_world) (rt sample_world))" by code_simp
  then show ?thesis
    using quiescence_receipt_truthful [OF sample_world_reachable, of sample_world
        "snd (await_provider_quiescence (\<lambda>_. rt sample_world) (rt sample_world))"]
    by (simp add: prod_eq_iff)
qed

end
