(* ===== verification/VPR_Workspace.thy ===== *)
theory VPR_Workspace
  imports VPR_Publication
begin

text \<open>
  The owner workspace record of the owner lab (\<^verbatim>\<open>crates/vpr-owner-lab/src/rt1_workspace.rs\<close>): the
  owner's credential, the durable publication and the visitor token of one Persona.

  SHA-256 and the operating system's random generator are third-party code. A digest is a function
  from the message to its 32 bytes, \<open>sha m i\<close> being byte \<open>i\<close>; one call of the random generator is a
  value of type \<open>entropy\<close>, the bytes it delivers or \<open>None\<close> when it fails. Every operation takes the
  calls it may make as arguments. Errors are the messages of the source.

  The record is an instance of \<open>lease_authority\<close>, by way of the publication it holds.
\<close>

section \<open>Tokens\<close>

unbundle bit_operations_syntax

type_synonym sha256 = "byte list \<Rightarrow> nat \<Rightarrow> byte"
type_synonym entropy = "(nat \<Rightarrow> byte) option"

definition hex_digit :: "nat \<Rightarrow> nat" where
  "hex_digit n = (if n < 10 then 48 + n else 87 + n)"

text \<open>The format \<open>{byte:02x}\<close>, for every byte in turn.\<close>

definition hex_byte :: "byte \<Rightarrow> rust_string" where
  "hex_byte b = [hex_digit (unat b div 16), hex_digit (unat b mod 16)]"

definition hex_encode :: "byte list \<Rightarrow> rust_string" where
  "hex_encode bs = concat (map hex_byte bs)"

definition generate_token :: "entropy \<Rightarrow> nat \<Rightarrow> rust_string + rust_string" where
  "generate_token fill bytes =
     (case fill of
        None \<Rightarrow> Err (lit ''secure random generator unavailable'')
      | Some random \<Rightarrow> Ok (hex_encode (map random [0..<bytes])))"

definition hash_secret :: "sha256 \<Rightarrow> rust_string \<Rightarrow> rust_string" where
  "hash_secret sha token = hex_encode (map (sha (utf8_bytes token)) [0..<32])"

definition is_ascii_hexdigit :: "byte \<Rightarrow> bool" where
  "is_ascii_hexdigit b \<longleftrightarrow> 48 \<le> b \<and> b \<le> 57 \<or> 65 \<le> b \<and> b \<le> 70 \<or> 97 \<le> b \<and> b \<le> 102"

definition valid_sha256 :: "rust_string \<Rightarrow> bool" where
  "valid_sha256 value \<longleftrightarrow> utf8_len value = 64 \<and> list_all is_ascii_hexdigit (utf8_bytes value)"

text \<open>The loop accumulates the differences of all bytes, without an early exit.\<close>

fun accumulate_difference :: "(byte \<times> byte) list \<Rightarrow> byte \<Rightarrow> byte" where
  "accumulate_difference [] difference = difference"
| "accumulate_difference ((expected, received) # rest) difference =
     accumulate_difference rest (difference OR (expected XOR received))"

definition token_matches :: "sha256 \<Rightarrow> rust_string \<Rightarrow> rust_string \<Rightarrow> bool" where
  "token_matches sha stored_hash candidate =
     (if \<not> valid_sha256 stored_hash \<or> utf8_len candidate \<noteq> 64 then False
      else let actual = hash_secret sha candidate
           in accumulate_difference (zip (utf8_bytes stored_hash) (utf8_bytes actual)) 0 = 0)"

section \<open>The record\<close>

record OwnerWorkspaceRecord =
  ws_owner_id :: rust_string
  owner_token_sha256 :: rust_string
  ws_publication :: "CanonicalPublicationSnapshot option"
  visitor_token_sha256 :: "rust_string option"

definition provision ::
  "sha256 \<Rightarrow> entropy \<Rightarrow> entropy \<Rightarrow> rust_string + (OwnerWorkspaceRecord \<times> rust_string)" where
  "provision sha fill_id fill_token =
     (case generate_token fill_id 16 of
        Err e \<Rightarrow> Err e
      | Ok new_owner \<Rightarrow>
     (case generate_token fill_token 32 of
        Err e \<Rightarrow> Err e
      | Ok token \<Rightarrow>
          Ok (\<lparr>ws_owner_id = new_owner, owner_token_sha256 = hash_secret sha token,
               ws_publication = None, visitor_token_sha256 = None\<rparr>, token)))"

definition authenticate_owner :: "sha256 \<Rightarrow> OwnerWorkspaceRecord \<Rightarrow> rust_string \<Rightarrow> bool" where
  "authenticate_owner sha self token = token_matches sha (owner_token_sha256 self) token"

definition ws_publish ::
  "sha256 \<Rightarrow> entropy \<Rightarrow> entropy \<Rightarrow> rust_string \<Rightarrow> rust_string \<Rightarrow> u64 \<Rightarrow> bool
     \<Rightarrow> (OwnerWorkspaceRecord, rust_string, rust_string) op" where
  "ws_publish sha fill_id fill_token owner_token pid version readiness_authorized self =
     (if \<not> authenticate_owner sha self owner_token then (Err (lit ''owner authorization denied''), self)
      else case (case ws_publication self of
                   Some state \<Rightarrow>
                     map_err (\<lambda>_. lit ''invalid canonical publication'') (from_durable_snapshot state)
                 | None \<Rightarrow>
                     (case generate_token fill_id 16 of
                        Err e \<Rightarrow> Err e
                      | Ok new_publication \<Rightarrow>
                          map_err (\<lambda>_. lit ''invalid canonical publication'')
                            (CanonicalPublication_new (ws_owner_id self) pid new_publication version))) of
        Err e \<Rightarrow> (Err e, self)
      | Ok publication \<Rightarrow>
     (if is_some_and (\<lambda>state. snap_persona_id state \<noteq> pid) (ws_publication self)
      then (Err (lit ''publication Persona mismatch''), self)
      else case publish (ws_owner_id self) version readiness_authorized publication of
        (Err _, _) \<Rightarrow> (Err (lit ''publication denied''), self)
      | (Ok _, publication') \<Rightarrow>
     (case generate_token fill_token 32 of
        Err e \<Rightarrow> (Err e, self)
      | Ok visitor_token \<Rightarrow>
          (Ok visitor_token,
           self\<lparr>visitor_token_sha256 := Some (hash_secret sha visitor_token),
                ws_publication := Some (durable_snapshot publication')\<rparr>))))"

definition ws_change_publication ::
  "sha256 \<Rightarrow> rust_string \<Rightarrow> (rust_string \<Rightarrow> (CanonicalPublication, unit, PublicationError) op)
     \<Rightarrow> (OwnerWorkspaceRecord, unit, rust_string) op" where
  "ws_change_publication sha owner_token operation self =
     (if \<not> authenticate_owner sha self owner_token then (Err (lit ''owner authorization denied''), self)
      else case ok_or (ws_publication self) (lit ''publication missing'') of
        Err e \<Rightarrow> (Err e, self)
      | Ok state \<Rightarrow>
     (case map_err (\<lambda>_. lit ''invalid canonical publication'') (from_durable_snapshot state) of
        Err e \<Rightarrow> (Err e, self)
      | Ok publication \<Rightarrow>
     (case operation (ws_owner_id self) publication of
        (Err _, _) \<Rightarrow> (Err (lit ''publication mutation denied''), self)
      | (Ok _, publication') \<Rightarrow>
          (Ok (), self\<lparr>ws_publication := Some (durable_snapshot publication'),
                      visitor_token_sha256 := None\<rparr>))))"

definition ws_pause :: "sha256 \<Rightarrow> rust_string \<Rightarrow> (OwnerWorkspaceRecord, unit, rust_string) op" where
  "ws_pause sha owner_token = ws_change_publication sha owner_token pause"

definition ws_unpublish :: "sha256 \<Rightarrow> rust_string \<Rightarrow> (OwnerWorkspaceRecord, unit, rust_string) op" where
  "ws_unpublish sha owner_token = ws_change_publication sha owner_token unpublish"

definition on_persona_correction :: "u64 \<Rightarrow> (OwnerWorkspaceRecord, unit, rust_string) op" where
  "on_persona_correction new_persona_version self =
     (case ws_publication self of
        None \<Rightarrow> (Ok (), self)
      | Some snap \<Rightarrow>
     (case map_err (\<lambda>_. lit ''invalid canonical publication'') (from_durable_snapshot snap) of
        Err e \<Rightarrow> (Err e, self)
      | Ok publication \<Rightarrow>
     (case correct_persona (ws_owner_id self) new_persona_version publication of
        (Err _, _) \<Rightarrow> (Err (lit ''publication correction failed''), self)
      | (Ok _, publication') \<Rightarrow>
          (Ok (), self\<lparr>ws_publication := Some (durable_snapshot publication'),
                      visitor_token_sha256 := None\<rparr>))))"

definition ws_invalidate_restart_leases :: "(OwnerWorkspaceRecord, unit, rust_string) op" where
  "ws_invalidate_restart_leases self =
     (case ws_publication self of
        None \<Rightarrow> (Ok (), self)
      | Some snap \<Rightarrow>
     (case map_err (\<lambda>_. lit ''invalid canonical publication'') (from_durable_snapshot snap) of
        Err e \<Rightarrow> (Err e, self)
      | Ok publication \<Rightarrow>
     (case invalidate_restart_leases publication of
        (Err _, _) \<Rightarrow> (Err (lit ''publication epoch exhausted''), self)
      | (Ok _, publication') \<Rightarrow>
          (Ok (), self\<lparr>ws_publication := Some (durable_snapshot publication')\<rparr>))))"

definition ws_status :: "OwnerWorkspaceRecord \<Rightarrow> PublicationStatus option" where
  "ws_status self = map_option snap_status (ws_publication self)"

definition ws_visitor_permit ::
  "sha256 \<Rightarrow> OwnerWorkspaceRecord \<Rightarrow> rust_string \<Rightarrow> rust_string + VisitorPermit" where
  "ws_visitor_permit sha self token =
     (case ok_or (visitor_token_sha256 self) (lit ''visitor access unavailable'') of
        Err e \<Rightarrow> Err e
      | Ok stored \<Rightarrow>
     (if \<not> token_matches sha stored token then Err (lit ''visitor authorization denied'')
      else case ok_or (ws_publication self) (lit ''publication missing'') of
        Err e \<Rightarrow> Err e
      | Ok state \<Rightarrow>
     (case map_err (\<lambda>_. lit ''invalid canonical publication'') (from_durable_snapshot state) of
        Err e \<Rightarrow> Err e
      | Ok publication \<Rightarrow>
          map_err (\<lambda>_. lit ''visitor access denied'') (visitor_lease publication True))))"

definition ws_authorize_visitor ::
  "sha256 \<Rightarrow> OwnerWorkspaceRecord \<Rightarrow> rust_string \<Rightarrow> VisitorPermit \<Rightarrow> rust_string \<Rightarrow> u64 \<Rightarrow> u64
     \<Rightarrow> rust_string + unit" where
  "ws_authorize_visitor sha self token permit cur_persona cur_version now =
     (case ok_or (visitor_token_sha256 self) (lit ''visitor access unavailable'') of
        Err e \<Rightarrow> Err e
      | Ok stored \<Rightarrow>
     (if \<not> token_matches sha stored token then Err (lit ''visitor authorization denied'')
      else case ok_or (ws_publication self) (lit ''publication missing'') of
        Err e \<Rightarrow> Err e
      | Ok state \<Rightarrow>
     (case map_err (\<lambda>_. lit ''invalid canonical publication'') (from_durable_snapshot state) of
        Err e \<Rightarrow> Err e
      | Ok publication \<Rightarrow>
          map_err (\<lambda>_. lit ''visitor access denied'')
            (authorize_visitor publication True (ws_owner_id self) cur_persona cur_version permit now))))"

definition ws_validate :: "OwnerWorkspaceRecord \<Rightarrow> rust_string \<Rightarrow> u64 \<Rightarrow> rust_string + unit" where
  "ws_validate self pid version =
     (if utf8_len (ws_owner_id self) \<noteq> 32 \<or> \<not> valid_sha256 (owner_token_sha256 self)
      then Err (lit ''invalid owner identity'')
      else case (case ws_publication self of
                   None \<Rightarrow> Ok ()
                 | Some publication \<Rightarrow>
                     (if snap_owner_id publication \<noteq> ws_owner_id self \<or>
                         snap_persona_id publication \<noteq> pid \<or>
                         snap_persona_version publication > version
                      then Err (lit ''publication does not match canonical Persona'')
                      else case map_err (\<lambda>_. lit ''invalid publication snapshot'')
                                  (from_durable_snapshot publication) of
                             Err e \<Rightarrow> Err e
                           | Ok _ \<Rightarrow>
                               (if snap_status publication = Published \<and>
                                   snap_persona_version publication \<noteq> version
                                then Err (lit ''stale publication must be revoked'')
                                else if snap_status publication = Published \<and>
                                        visitor_token_sha256 self = None
                                then Err (lit ''published visitor authority missing'')
                                else Ok ()))) of
        Err e \<Rightarrow> Err e
      | Ok _ \<Rightarrow>
          (case visitor_token_sha256 self of
             None \<Rightarrow> Ok ()
           | Some hash \<Rightarrow>
               (if \<not> valid_sha256 hash \<or>
                   is_none_or (\<lambda>p. snap_status p \<noteq> Published) (ws_publication self)
                then Err (lit ''invalid visitor authority state'')
                else Ok ())))"

section \<open>Tokens and their digests\<close>

lemma hex_digit_range: "n < 16 \<Longrightarrow> hex_digit n < 128 \<and> is_ascii_hexdigit (of_nat (hex_digit n))"
proof -
  assume "n < 16"
  then have "n \<in> {0..<16}" by simp
  then show ?thesis
    by (simp add: atLeastLessThan_nat_numeral) (auto simp: hex_digit_def is_ascii_hexdigit_def)
qed

lemma byte_high_digit: "unat (b::byte) div 16 < 16"
proof -
  have "unat b < 256" using unsigned_less [of b] by simp
  then show ?thesis by linarith
qed

lemma hex_byte_range: "c \<in> set (hex_byte b) \<Longrightarrow> c < 128 \<and> is_ascii_hexdigit (of_nat c)"
  using hex_digit_range [OF byte_high_digit [of b]] hex_digit_range [of "unat b mod 16"]
  by (auto simp: hex_byte_def)

lemma hex_encode_ascii: "\<forall>c \<in> set (hex_encode bs). c < 128"
  and hex_encode_digits: "list_all is_ascii_hexdigit (utf8_bytes (hex_encode bs))"
proof -
  show ascii: "\<forall>c \<in> set (hex_encode bs). c < 128" by (auto simp: hex_encode_def dest: hex_byte_range)
  have "list_all is_ascii_hexdigit (map of_nat (hex_encode bs))"
    by (auto simp: hex_encode_def list_all_iff dest: hex_byte_range)
  then show "list_all is_ascii_hexdigit (utf8_bytes (hex_encode bs))"
    using ascii by (simp add: ascii_utf8_bytes)
qed

lemma length_hex_encode [simp]: "length (hex_encode bs) = 2 * length bs"
  by (induction bs) (simp_all add: hex_encode_def hex_byte_def)

lemma utf8_len_hex_encode [simp]: "utf8_len (hex_encode bs) = 2 * length bs"
  by (simp add: ascii_utf8_len [OF hex_encode_ascii])

lemma hash_secret_valid [simp]: "valid_sha256 (hash_secret sha token)"
  using hex_encode_digits by (simp add: valid_sha256_def hash_secret_def)

lemma hexdigit_ascii: "is_ascii_hexdigit b \<Longrightarrow> unat b < 128"
  by (auto simp: is_ascii_hexdigit_def word_le_nat_alt)

lemma valid_sha256_ascii: "valid_sha256 h \<Longrightarrow> \<forall>c \<in> set h. c < 128"
  by (rule ascii_bytes_chars) (auto simp: valid_sha256_def list_all_iff hexdigit_ascii)

lemma xor_eq_0: "(a::byte) XOR b = 0 \<longleftrightarrow> a = b"
  by (auto simp: bit_eq_iff bit_simps)

lemma accumulate_difference_0:
  "accumulate_difference zs d = 0 \<longleftrightarrow> d = 0 \<and> (\<forall>(e, r) \<in> set zs. e = r)"
  by (induction zs arbitrary: d) (auto simp: or_eq_0_iff xor_eq_0)

lemma zip_all_equal: "length xs = length ys \<Longrightarrow> (\<forall>(e, r) \<in> set (zip xs ys). e = r) \<longleftrightarrow> xs = ys"
  by (induction xs ys rule: list_induct2) auto

text \<open>The comparison that never exits early decides equality of the digests.\<close>

lemma token_matches_iff:
  "token_matches sha stored candidate \<longleftrightarrow> utf8_len candidate = 64 \<and> hash_secret sha candidate = stored"
proof (cases "valid_sha256 stored \<and> utf8_len candidate = 64")
  case True
  let ?actual = "hash_secret sha candidate"
  have "length (utf8_bytes stored) = length (utf8_bytes ?actual)"
    using True hash_secret_valid [of sha candidate] by (simp add: length_utf8_bytes valid_sha256_def)
  moreover have "utf8_bytes stored = utf8_bytes ?actual \<longleftrightarrow> stored = ?actual"
    using True by (intro ascii_bytes_inject valid_sha256_ascii) simp_all
  ultimately show ?thesis
    using True by (auto simp: token_matches_def accumulate_difference_0 zip_all_equal)
next
  case False
  then show ?thesis by (auto simp: token_matches_def)
qed

lemma generate_token_Ok_iff:
  "generate_token fill n = Ok t \<longleftrightarrow> (\<exists>random. fill = Some random \<and> t = hex_encode (map random [0..<n]))"
  by (auto simp: generate_token_def split: option.splits)

lemma generate_token_len: "generate_token fill n = Ok t \<Longrightarrow> utf8_len t = 2 * n"
  by (auto simp: generate_token_Ok_iff)

lemma hex_digit_not_space: "n < 16 \<Longrightarrow> \<not> is_whitespace (hex_digit n)"
  by (auto simp: hex_digit_def is_whitespace_def)

lemma generate_token_not_blank: "generate_token fill n = Ok t \<Longrightarrow> 0 < n \<Longrightarrow> \<not> blank t"
proof -
  assume "generate_token fill n = Ok t" and "0 < n"
  then obtain random where t: "t = hex_encode (random 0 # map random [1..<n])"
    by (auto simp: generate_token_Ok_iff upt_conv_Cons)
  show "\<not> blank t"
    unfolding t hex_encode_def hex_byte_def
    by (simp add: blank_iff hex_digit_not_space [OF byte_high_digit])
qed

section \<open>The record as an authority\<close>

text \<open>An operation of which only success and the new state matter.\<close>

definition drop_value :: "('s, 'a, 'e) op \<Rightarrow> ('s, unit, 'e) op" where
  "drop_value f s = (case f s of (Err e, s') \<Rightarrow> (Err e, s') | (Ok _, s') \<Rightarrow> (Ok (), s'))"

datatype workspace_event =
    WsPublish entropy entropy rust_string rust_string u64 bool
  | WsPause rust_string
  | WsUnpublish rust_string
  | WsCorrection u64
  | WsRestart

fun workspace_step :: "sha256 \<Rightarrow> workspace_event \<Rightarrow> (OwnerWorkspaceRecord, unit, rust_string) op" where
  "workspace_step sha (WsPublish fill_id fill_token owner_token pid version ready) =
     drop_value (ws_publish sha fill_id fill_token owner_token pid version ready)"
| "workspace_step sha (WsPause owner_token) = ws_pause sha owner_token"
| "workspace_step sha (WsUnpublish owner_token) = ws_unpublish sha owner_token"
| "workspace_step sha (WsCorrection version) = on_persona_correction version"
| "workspace_step sha WsRestart = ws_invalidate_restart_leases"

lemma drop_value_Ok_iff: "drop_value f s = (Ok (), s') \<longleftrightarrow> (\<exists>a. f s = (Ok a, s'))"
  by (auto simp: drop_value_def split: sum.splits prod.splits)

lemma drop_value_Err_iff: "drop_value f s = (Err e, s') \<longleftrightarrow> f s = (Err e, s')"
  by (auto simp: drop_value_def split: sum.splits prod.splits)

lemmas ws_op_defs = ws_publish_def ws_pause_def ws_unpublish_def ws_change_publication_def
  on_persona_correction_def ws_invalidate_restart_leases_def

lemma workspace_step_fails_safe: "fails_safe (workspace_step sha ev)"
proof
  fix w e w' assume "workspace_step sha ev w = (Err e, w')"
  then show "w' = w"
    by (cases ev) (auto simp: ws_op_defs drop_value_Err_iff split: if_splits sum.splits prod.splits option.splits)
qed

text \<open>What the durable form says of the publication it was read as.\<close>

lemma from_durable_OkD:
  assumes "from_durable_snapshot s = Ok p"
  shows "publication_inv p" "durable_snapshot p = s"
  using assms reachable_publication_inv [OF reachable_publication.restored [OF assms]]
  by (auto simp: from_durable_snapshot_def durable_snapshot_def AuthorizationState_from_persisted_def
      AuthorizationEpoch_from_persisted_def split: if_splits option.splits)

lemma from_durable_fields:
  assumes "from_durable_snapshot s = Ok p"
  shows "publication_id p = snap_publication_id s" "owner_id p = snap_owner_id s"
    "persona_id p = snap_persona_id s" "persona_version p = snap_persona_version s"
    "status p = snap_status s" "publication_epoch p = AuthorizationEpoch (authorization_epoch s)"
  using from_durable_OkD(2) [OF assms] by (auto simp: durable_snapshot_def)

lemma durable_snapshot_fields [simp]:
  "snap_publication_id (durable_snapshot p) = publication_id p"
  "snap_owner_id (durable_snapshot p) = owner_id p" "snap_persona_id (durable_snapshot p) = persona_id p"
  "snap_persona_version (durable_snapshot p) = persona_version p" "snap_status (durable_snapshot p) = status p"
  "AuthorizationEpoch (authorization_epoch (durable_snapshot p)) = publication_epoch p"
  by (simp_all add: durable_snapshot_def)

text \<open>The publication operation behind an event, and the visitor token it leaves.\<close>

definition publication_event_of :: "rust_string \<Rightarrow> workspace_event \<Rightarrow> publication_event" where
  "publication_event_of owner ev =
     (case ev of
        WsPublish _ _ _ _ version ready \<Rightarrow> Publish owner version ready
      | WsPause _ \<Rightarrow> Pause owner
      | WsUnpublish _ \<Rightarrow> Unpublish owner
      | WsCorrection version \<Rightarrow> CorrectPersona owner version
      | WsRestart \<Rightarrow> InvalidateRestartLeases)"

text \<open>
  A successful event does one of three things: nothing, when there is no publication to correct or
  to recover; publish for the first time; or apply one publication operation to the publication
  held in the record.
\<close>

lemma workspace_step_Ok_cases:
  assumes "workspace_step sha ev w = (Ok (), w')"
  obtains (nothing) "ws_publication w = None" "w' = w" "ev = WsRestart \<or> (\<exists>v. ev = WsCorrection v)"
  | (first) fill_id fill_token tok pid v ready new p p' where
      "ev = WsPublish fill_id fill_token tok pid v ready" "ws_publication w = None"
      "generate_token fill_id 16 = Ok new"
      "CanonicalPublication_new (ws_owner_id w) pid new v = Ok p"
      "publication_step (Publish (ws_owner_id w) v ready) p = (Ok (), p')"
      "ws_publication w' = Some (durable_snapshot p')"
      "ws_owner_id w' = ws_owner_id w" "owner_token_sha256 w' = owner_token_sha256 w"
      "\<exists>t. visitor_token_sha256 w' = Some (hash_secret sha t)"
  | (moved) s p p' where
      "ws_publication w = Some s" "from_durable_snapshot s = Ok p"
      "publication_step (publication_event_of (ws_owner_id w) ev) p = (Ok (), p')"
      "ws_publication w' = Some (durable_snapshot p')"
      "ws_owner_id w' = ws_owner_id w" "owner_token_sha256 w' = owner_token_sha256 w"
      "case ev of WsPublish _ _ _ pid _ _ \<Rightarrow>
           snap_persona_id s = pid \<and> (\<exists>t. visitor_token_sha256 w' = Some (hash_secret sha t))
         | WsRestart \<Rightarrow> visitor_token_sha256 w' = visitor_token_sha256 w
         | _ \<Rightarrow> visitor_token_sha256 w' = None"
proof (cases ev)
  case (WsPublish fi ft tok pid v ready)
  show thesis
  proof (cases "ws_publication w")
    case None
    with assms WsPublish obtain new p p' t where parts: "generate_token fi 16 = Ok new"
        "CanonicalPublication_new (ws_owner_id w) pid new v = Ok p"
        "publish (ws_owner_id w) v ready p = (Ok (), p')"
        "w' = w\<lparr>visitor_token_sha256 := Some (hash_secret sha t),
                 ws_publication := Some (durable_snapshot p')\<rparr>"
      by (auto simp: ws_publish_def drop_value_Ok_iff split: if_splits sum.splits prod.splits)
    show thesis by (rule first [OF WsPublish None parts(1,2)]) (use parts(3,4) in auto)
  next
    case (Some s)
    with assms WsPublish obtain p p' t where parts: "from_durable_snapshot s = Ok p"
        "publish (ws_owner_id w) v ready p = (Ok (), p')" "snap_persona_id s = pid"
        "w' = w\<lparr>visitor_token_sha256 := Some (hash_secret sha t),
                 ws_publication := Some (durable_snapshot p')\<rparr>"
      by (auto simp: ws_publish_def drop_value_Ok_iff split: if_splits sum.splits prod.splits)
    show thesis
      by (rule moved [OF Some parts(1)]) (use parts(2-4) WsPublish in \<open>auto simp: publication_event_of_def\<close>)
  qed
next
  case (WsPause tok)
  with assms moved show thesis
    by (auto simp: ws_op_defs publication_event_of_def split: if_splits sum.splits prod.splits)
next
  case (WsUnpublish tok)
  with assms moved show thesis
    by (auto simp: ws_op_defs publication_event_of_def split: if_splits sum.splits prod.splits)
next
  case (WsCorrection v)
  show thesis
  proof (cases "ws_publication w")
    case None
    show thesis by (rule nothing) (use assms WsCorrection None in \<open>auto simp: ws_op_defs\<close>)
  next
    case (Some s)
    with assms WsCorrection moved show thesis
      by (auto simp: ws_op_defs publication_event_of_def split: sum.splits prod.splits)
  qed
next
  case WsRestart
  show thesis
  proof (cases "ws_publication w")
    case None
    show thesis by (rule nothing) (use assms WsRestart None in \<open>auto simp: ws_op_defs\<close>)
  next
    case (Some s)
    with assms WsRestart moved show thesis
      by (auto simp: ws_op_defs publication_event_of_def split: sum.splits prod.splits)
  qed
qed

definition workspace_epoch :: "OwnerWorkspaceRecord \<Rightarrow> AuthorizationEpoch" where
  "workspace_epoch w =
     (case ws_publication w of None \<Rightarrow> AuthorizationEpoch 0
      | Some s \<Rightarrow> AuthorizationEpoch (authorization_epoch s))"

definition workspace_accepts :: "sha256 \<Rightarrow> OwnerWorkspaceRecord \<Rightarrow> VisitorPermit \<Rightarrow> bool" where
  "workspace_accepts sha w permit \<longleftrightarrow>
     (\<exists>token pid version now. ws_authorize_visitor sha w token permit pid version now = Ok ())"

lemma ws_authorize_visitor_Ok_iff:
  "ws_authorize_visitor sha w token permit pid version now = Ok () \<longleftrightarrow>
     (\<exists>h s p. visitor_token_sha256 w = Some h \<and> token_matches sha h token \<and>
        ws_publication w = Some s \<and> from_durable_snapshot s = Ok p \<and>
        authorize_visitor p True (ws_owner_id w) pid version permit now = Ok ())"
  by (auto simp: ws_authorize_visitor_def split: option.splits sum.splits)

lemma workspace_acceptsD:
  assumes "workspace_accepts sha w permit"
  obtains s p where "ws_publication w = Some s" "from_durable_snapshot s = Ok p" "accepts_permit p permit"
proof -
  from assms obtain pid version now s p where "ws_publication w = Some s" "from_durable_snapshot s = Ok p"
      "authorize_visitor p True (ws_owner_id w) pid version permit now = Ok ()"
    by (auto simp: workspace_accepts_def ws_authorize_visitor_Ok_iff)
  moreover from this(3) have "accepts_permit p permit" unfolding accepts_permit_def by blast
  ultimately show thesis using that by blast
qed

lemma workspace_step_epoch:
  assumes "workspace_step sha ev w = (Ok (), w')"
  shows "workspace_epoch w \<le> workspace_epoch w'"
    and "workspace_accepts sha w permit \<Longrightarrow> workspace_epoch w < workspace_epoch w'"
proof -
  have "workspace_epoch w \<le> workspace_epoch w' \<and>
      (workspace_accepts sha w permit \<longrightarrow> workspace_epoch w < workspace_epoch w')"
    using assms
  proof (cases rule: workspace_step_Ok_cases)
    case nothing
    then show ?thesis by (auto elim: workspace_acceptsD)
  next
    case first
    then show ?thesis by (auto simp: workspace_epoch_def less_eq_AuthorizationEpoch_def elim: workspace_acceptsD)
  next
    case (moved s p p')
    have "publication_epoch p \<le> publication_epoch p'"
      using publication.step_mono [of p "publication_event_of (ws_owner_id w) ev"] moved(3) by simp
    moreover have "publication_epoch p < publication_epoch p'" if acc: "workspace_accepts sha w permit"
    proof -
      from acc have "accepts_permit p permit"
        by (rule workspace_acceptsD) (use moved(1,2) in simp)
      then show ?thesis using publication.step_moves moved(3) by blast
    qed
    ultimately show ?thesis
      using moved(1,4) from_durable_fields(6) [OF moved(2)] by (simp add: workspace_epoch_def)
  qed
  then show "workspace_epoch w \<le> workspace_epoch w'"
    and "workspace_accepts sha w permit \<Longrightarrow> workspace_epoch w < workspace_epoch w'" by simp_all
qed

interpretation workspace: lease_authority workspace_epoch "workspace_step sha"
  "\<lambda>permit. snapshot_epoch (permit_snapshot permit)" "workspace_accepts sha" for sha
proof unfold_locales
  fix w l assume "workspace_accepts sha w l"
  then show "snapshot_epoch (permit_snapshot l) = workspace_epoch w"
    using publication.accepts_epoch from_durable_fields(6)
    by (fastforce simp: workspace_epoch_def elim: workspace_acceptsD)
next
  fix w ev
  show "workspace_epoch w \<le> workspace_epoch (snd (workspace_step sha ev w))"
    using workspace_step_epoch(1) [of sha ev w] fails_safeD [OF workspace_step_fails_safe, of sha ev w]
    by (cases "workspace_step sha ev w"; cases "fst (workspace_step sha ev w)") auto
next
  fix w l ev w'
  assume "workspace_accepts sha w l" "workspace_step sha ev w = (Ok (), w')"
  then show "workspace_epoch w < workspace_epoch w'" using workspace_step_epoch(2) [of sha ev w w' l] by simp
next
  fix ev show "fails_safe (workspace_step sha ev)" by (rule workspace_step_fails_safe)
qed

section \<open>Validity of the durable record\<close>

lemma ws_validate_Ok_iff:
  "ws_validate w pid v = Ok () \<longleftrightarrow>
     utf8_len (ws_owner_id w) = 32 \<and> valid_sha256 (owner_token_sha256 w) \<and>
     (case ws_publication w of
        None \<Rightarrow> visitor_token_sha256 w = None
      | Some s \<Rightarrow>
          snap_owner_id s = ws_owner_id w \<and> snap_persona_id s = pid \<and> snap_persona_version s \<le> v \<and>
          is_ok (from_durable_snapshot s) \<and>
          (if snap_status s = Published
           then snap_persona_version s = v \<and> (\<exists>h. visitor_token_sha256 w = Some h \<and> valid_sha256 h)
           else visitor_token_sha256 w = None))"
  by (auto simp: ws_validate_def is_ok_iff linorder_not_le split: option.splits sum.splits)

text \<open>Status and version after a successful publication operation.\<close>

lemma publication_step_outcome:
  assumes "publication_step ev p = (Ok (), p')"
  shows "status p' =
      (case ev of Publish _ _ _ \<Rightarrow> Published | Pause _ \<Rightarrow> Paused | Unpublish _ \<Rightarrow> Unpublished
       | CorrectPersona _ _ \<Rightarrow> Unpublished | _ \<Rightarrow> status p)"
    and "persona_version p' = (case ev of CorrectPersona _ v \<Rightarrow> v | _ \<Rightarrow> persona_version p)"
    and "case ev of Publish _ v _ \<Rightarrow> v = persona_version p | CorrectPersona _ v \<Rightarrow> persona_version p < v | _ \<Rightarrow> True"
proof -
  have frame: "status q = status p \<and> persona_version q = persona_version p"
    if "on_authority f p = (r, q)" for f :: "(AuthorizationState, unit, AuthorizationEpochExhausted) op" and r p q
    using that by (auto simp: on_authority_def split: prod.splits)
  have inv: "status q = status p \<and> persona_version q = persona_version p"
    if "invalidate_restart_leases p = (r, q)" for r p q
    using that frame by (auto simp: invalidate_restart_leases_def split: if_splits)
  have "status p' =
      (case ev of Publish _ _ _ \<Rightarrow> Published | Pause _ \<Rightarrow> Paused | Unpublish _ \<Rightarrow> Unpublished
       | CorrectPersona _ _ \<Rightarrow> Unpublished | _ \<Rightarrow> status p) \<and>
     persona_version p' = (case ev of CorrectPersona _ v \<Rightarrow> v | _ \<Rightarrow> persona_version p)"
  proof (cases ev)
    case InvalidateRestartLeases
    then show ?thesis using assms inv by simp
  next
    case Restart
    with assms obtain q where "from_durable_snapshot (durable_snapshot p) = Ok q"
        "invalidate_restart_leases q = (Ok (), p')"
      by (auto simp: restart_Ok_iff)
    then show ?thesis using inv [of q] restart_is_invalidate [of p q] Restart by simp
  qed (use assms in \<open>auto simp: publication_op_defs split: if_splits sum.splits prod.splits dest: frame\<close>)
  then show "status p' =
      (case ev of Publish _ _ _ \<Rightarrow> Published | Pause _ \<Rightarrow> Paused | Unpublish _ \<Rightarrow> Unpublished
       | CorrectPersona _ _ \<Rightarrow> Unpublished | _ \<Rightarrow> status p)"
    and "persona_version p' = (case ev of CorrectPersona _ v \<Rightarrow> v | _ \<Rightarrow> persona_version p)"
    by simp_all
  show "case ev of Publish _ v _ \<Rightarrow> v = persona_version p | CorrectPersona _ v \<Rightarrow> persona_version p < v | _ \<Rightarrow> True"
    using assms by (cases ev) (auto simp: publication_op_defs split: if_splits sum.splits prod.splits)
qed

text \<open>The events the workspace service and the Persona store issue for a record that is valid for
  Persona \<open>pid\<close> at version \<open>v\<close>, and the version they lead to.\<close>

fun event_fits :: "rust_string \<Rightarrow> u64 \<Rightarrow> workspace_event \<Rightarrow> bool" where
  "event_fits pid v (WsPublish _ _ _ pid' v' _) \<longleftrightarrow> pid' = pid \<and> v' = v"
| "event_fits pid v (WsCorrection v') \<longleftrightarrow> v < v'"
| "event_fits pid v ev \<longleftrightarrow> True"

fun version_after :: "u64 \<Rightarrow> workspace_event \<Rightarrow> u64" where
  "version_after v (WsCorrection v') = v'"
| "version_after v ev = v"

lemma publication_step_frame:
  assumes "publication_step ev p = (Ok (), p')" "publication_inv p"
  shows "publication_inv p'" "owner_id p' = owner_id p" "persona_id p' = persona_id p"
    "publication_id p' = publication_id p"
  using publication_step_moves [OF assms(1)] assms(2) by (simp_all add: publication_moves_def)

lemma workspace_step_valid:
  assumes valid: "ws_validate w pid v = Ok ()" and fits: "event_fits pid v ev"
    and step: "workspace_step sha ev w = (Ok (), w')"
  shows "ws_validate w' pid (version_after v ev) = Ok ()"
  using step
proof (cases rule: workspace_step_Ok_cases)
  case nothing
  then show ?thesis using valid by (auto simp: ws_validate_Ok_iff)
next
  case (first fill_id fill_token tok pid' v' ready new p p')
  have inv: "publication_inv p"
    using first(4) by (intro reachable_publication_inv reachable_publication.new)
  have p: "owner_id p = ws_owner_id w" "persona_id p = pid'" "persona_version p = v'"
    using first(4) by (auto simp: CanonicalPublication_new_def split: if_splits)
  note frame = publication_step_frame [OF first(5) inv]
  have "status p' = Published" "persona_version p' = v'"
    using publication_step_outcome(1,2) [OF first(5)] p(3) by simp_all
  then show ?thesis
    using first p frame durable_roundtrip [OF frame(1)] valid fits by (auto simp: ws_validate_Ok_iff)
next
  case (moved s p p')
  note frame = publication_step_frame [OF moved(3) from_durable_OkD(1) [OF moved(2)]]
  note out = publication_step_outcome [OF moved(3)]
  have s: "snap_owner_id s = ws_owner_id w" "snap_persona_id s = pid" "snap_persona_version s \<le> v"
      "snap_status s = Published \<Longrightarrow> snap_persona_version s = v \<and> (\<exists>h. visitor_token_sha256 w = Some h \<and> valid_sha256 h)"
      "snap_status s \<noteq> Published \<Longrightarrow> visitor_token_sha256 w = None"
    using valid moved(1) by (auto simp: ws_validate_Ok_iff split: if_splits)
  have "is_ok (from_durable_snapshot (durable_snapshot p'))"
    using durable_roundtrip [OF frame(1)] by simp
  then show ?thesis
    using moved frame out s fits valid from_durable_fields [OF moved(2)]
    by (cases ev) (auto simp: ws_validate_Ok_iff publication_event_of_def split: if_splits)
qed

lemma provision_Ok:
  assumes "provision sha fill_id fill_token = Ok (w, token)"
  shows "ws_validate w pid v = Ok ()" and "authenticate_owner sha w token"
proof -
  obtain new where "generate_token fill_id 16 = Ok new" "generate_token fill_token 32 = Ok token"
      and w: "w = \<lparr>ws_owner_id = new, owner_token_sha256 = hash_secret sha token,
        ws_publication = None, visitor_token_sha256 = None\<rparr>"
    using assms by (auto simp: provision_def split: sum.splits)
  then have "utf8_len new = 32" "utf8_len token = 64" by (auto dest: generate_token_len)
  then show "ws_validate w pid v = Ok ()" and "authenticate_owner sha w token"
    by (simp_all add: w ws_validate_Ok_iff authenticate_owner_def token_matches_iff)
qed

lemma ws_publish_Ok:
  assumes "ws_validate w pid v = Ok ()"
    and "ws_publish sha fill_id fill_token owner_token pid v ready w = (Ok token, w')"
  obtains p where "publication_inv p" "ws_publication w' = Some (durable_snapshot p)" "status p = Published"
    "persona_id p = pid" "persona_version p = v" "owner_id p = ws_owner_id w'"
    "visitor_token_sha256 w' = Some (hash_secret sha token)" "utf8_len token = 64"
    "authenticate_owner sha w owner_token" "ready"
proof -
  let ?ev = "WsPublish fill_id fill_token owner_token pid v ready"
  have step: "workspace_step sha ?ev w = (Ok (), w')" using assms(2) by (simp add: drop_value_def)
  have valid: "ws_validate w' pid v = Ok ()" using workspace_step_valid [OF assms(1) _ step] by simp
  have token: "visitor_token_sha256 w' = Some (hash_secret sha token)" "utf8_len token = 64"
      "authenticate_owner sha w owner_token" "ready"
    using assms(2)
    by (auto simp: ws_publish_def publication_op_defs dest: generate_token_len
        split: if_splits sum.splits prod.splits option.splits)
  obtain s where s: "ws_publication w' = Some s" "is_ok (from_durable_snapshot s)" "snap_persona_id s = pid"
      "snap_status s = Published" "snap_persona_version s = v" "snap_owner_id s = ws_owner_id w'"
    using valid token(1) by (auto simp: ws_validate_Ok_iff split: option.splits if_splits)
  then obtain p where p: "from_durable_snapshot s = Ok p" by (auto simp: is_ok_iff)
  show thesis
    by (rule that) (use s token from_durable_OkD [OF p] from_durable_fields [OF p] in simp_all)
qed

section \<open>Properties\<close>

text \<open>C13. The constant-time comparison of tokens is correct: whatever digest function is plugged in
  and whatever is stored, a candidate is accepted exactly when it is 64 bytes long and its digest is
  the stored string. The loop over all byte pairs, which never exits early, accepts nothing else
  and refuses nothing else, and a stored value that is not a digest is matched by no token.\<close>

theorem token_check_is_digest_equality:
  "token_matches sha stored candidate \<longleftrightarrow> utf8_len candidate = 64 \<and> hash_secret sha candidate = stored"
  by (rule token_matches_iff)

text \<open>Publishing opens the Persona to the holders of the returned token and to nobody else: only
  the owner with proven readiness can do it; afterwards a visitor gets a permit exactly with a
  token of the same digest, any other token is refused, and with that token and permit the visitor
  is authorized for the published Persona and version at every time.\<close>

lemma published_token_opens_persona:
  assumes "ws_validate w pid v = Ok ()"
    and "ws_publish sha fill_id fill_token owner_token pid v ready w = (Ok token, w')"
  shows "authenticate_owner sha w owner_token \<and> ready \<and> utf8_len token = 64 \<and>
    (\<exists>permit.
       (\<forall>t. ws_visitor_permit sha w' t =
          (if utf8_len t = 64 \<and> hash_secret sha t = hash_secret sha token then Ok permit
           else Err (lit ''visitor authorization denied''))) \<and>
       (\<forall>now. ws_authorize_visitor sha w' token permit pid v now = Ok ()))"
proof -
  from assms obtain p where p: "publication_inv p" "ws_publication w' = Some (durable_snapshot p)"
      "status p = Published" "persona_id p = pid" "persona_version p = v" "owner_id p = ws_owner_id w'"
      "visitor_token_sha256 w' = Some (hash_secret sha token)" "utf8_len token = 64"
      "authenticate_owner sha w owner_token" "ready"
    by (rule ws_publish_Ok)
  let ?permit = "\<lparr>permit_publication_id = publication_id p, permit_owner_id = owner_id p,
      permit_persona_id = persona_id p, permit_persona_version = persona_version p,
      permit_snapshot = snapshot (authority p)\<rparr>"
  have "visitor_lease p True = Ok ?permit" using p(3) by (simp add: visitor_lease_def)
  then have permit: "ws_visitor_permit sha w' t =
      (if utf8_len t = 64 \<and> hash_secret sha t = hash_secret sha token then Ok ?permit
       else Err (lit ''visitor authorization denied''))" for t
    using p by (auto simp: ws_visitor_permit_def token_matches_iff durable_roundtrip)
  have "authorize_visitor p True (owner_id p) (persona_id p) (persona_version p) ?permit now = Ok ()" for now
    using p(1,3) by (auto simp: authorize_visitor_Ok_iff publication_inv_def validate_Ok_iff snapshot_def)
  then have "ws_authorize_visitor sha w' token ?permit pid v now = Ok ()" for now
    unfolding ws_authorize_visitor_Ok_iff
    using p by (intro exI [of _ "hash_secret sha token"] exI [of _ "durable_snapshot p"] exI [of _ p])
      (simp add: token_matches_iff durable_roundtrip)
  then show ?thesis using p permit by blast
qed

text \<open>A concrete digest, and the record of an owner who was just provisioned.\<close>

definition sample_sha :: sha256 where
  "sample_sha m i = (if m = [] then 0 else hd m + of_nat i)"

definition sample_owner_token :: rust_string where
  "sample_owner_token = hex_encode (replicate 32 7)"

definition sample_workspace :: OwnerWorkspaceRecord where
  "sample_workspace = \<lparr>ws_owner_id = hex_encode (replicate 16 3),
     owner_token_sha256 = hash_secret sample_sha sample_owner_token,
     ws_publication = None, visitor_token_sha256 = None\<rparr>"

definition sample_fill :: entropy where
  "sample_fill = Some (\<lambda>i. of_nat i + 1)"

lemma sample_workspace_provisioned:
  "provision sample_sha (Some (\<lambda>_. 3)) (Some (\<lambda>_. 7)) = Ok (sample_workspace, sample_owner_token)"
  by code_simp

end
