(* ===== verification/VPR_Persona_Store.thy ===== *)
theory VPR_Persona_Store
  imports VPR_Owner_Context VPR_Workspace
begin

text \<open>
  The durable Persona envelope and the workspace service on it
  (\<^verbatim>\<open>crates/vpr-owner-lab/src/persona_file_io.rs\<close>, \<^verbatim>\<open>persona_persistence.rs\<close> and
  \<^verbatim>\<open>rt1_workspace_service.rs\<close>), on a system other than Windows, where the store is a file.

  The state is the directory of the store file: the contents of its files by name. What the
  operating system answers to the calls of one operation is the record \<open>store_io\<close>: every step can
  fail. The JSON encoder and decoder are third-party code, the record \<open>persona_codec\<close>; what the
  store relies on is \<open>codec_ok\<close>. The operations of the service are transactions under one lock;
  \<open>save_reviewed_persona\<close> is called by the engine, without that lock. In the histories of this theory
  every operation, also a save, runs from its read to its commit before the next begins; the theory
  \<open>VPR_Store_Races\<close> separates the reads from the commits.
\<close>

section \<open>Files\<close>

type_synonym directory = "rust_string \<Rightarrow> rust_string option"

record store_io =
  read_ok :: bool
  mkdir_ok :: bool
  temp_entropy :: "nat \<Rightarrow> entropy"
  open_ok :: "nat \<Rightarrow> bool"
  write_fault :: "rust_string option"
  sync_ok :: bool
  rename_ok :: bool
  dir_sync_ok :: bool
  remove_ok :: bool

text \<open>A missing file is \<open>None\<close>; any other failure to read is an error, whether the file is there or not.\<close>

definition read_raw :: "store_io \<Rightarrow> rust_string \<Rightarrow> directory \<Rightarrow> rust_string + rust_string option" where
  "read_raw io path dir =
     (if read_ok io then Ok (dir path) else Err (lit ''reviewed Persona file store read failed''))"

definition temp_name :: "byte list \<Rightarrow> rust_string" where
  "temp_name random = lit ''.vpr-persona-'' @ hex_encode random @ lit ''.tmp''"

text \<open>The loop over 16 attempts to create a temporary file of a fresh name.\<close>

fun stage_loop :: "store_io \<Rightarrow> directory \<Rightarrow> nat \<Rightarrow> nat \<Rightarrow> rust_string + rust_string option" where
  "stage_loop io dir attempt 0 = Ok None"
| "stage_loop io dir attempt (Suc left) =
     (case temp_entropy io attempt of
        None \<Rightarrow> Err (lit ''reviewed Persona file store temporary name failed'')
      | Some random \<Rightarrow>
          (let temp = temp_name (map random [0..<16])
           in if dir temp \<noteq> None then stage_loop io dir (Suc attempt) left
              else if open_ok io attempt then Ok (Some temp)
              else Err (lit ''reviewed Persona file store staging failed'')))"

text \<open>The closure that writes, flushes and renames; the flag says that the file was renamed.\<close>

definition write_and_rename ::
  "store_io \<Rightarrow> rust_string \<Rightarrow> rust_string \<Rightarrow> rust_string \<Rightarrow> (directory, unit, rust_string) op" where
  "write_and_rename io temp path raw dir =
     (case write_fault io of
        Some partial \<Rightarrow> (Err (lit ''reviewed Persona file store write failed''), dir(temp \<mapsto> partial))
      | None \<Rightarrow>
          (let written = dir(temp \<mapsto> raw)
           in if \<not> sync_ok io then (Err (lit ''reviewed Persona file store sync failed''), written)
              else if \<not> rename_ok io then (Err (lit ''reviewed Persona file store commit failed''), written)
              else let renamed = (written(temp := None))(path \<mapsto> raw)
                   in if \<not> dir_sync_ok io then (Err (lit ''reviewed Persona directory sync failed''), renamed)
                      else (Ok (), renamed)))"

definition commit_raw ::
  "store_io \<Rightarrow> rust_string \<Rightarrow> rust_string \<Rightarrow> (directory, unit, rust_string) op" where
  "commit_raw io path raw dir =
     (if \<not> mkdir_ok io then (Err (lit ''reviewed Persona file store directory creation failed''), dir)
      else case stage_loop io dir 0 16 of
        Err e \<Rightarrow> (Err e, dir)
      | Ok None \<Rightarrow> (Err (lit ''reviewed Persona file store staging exhausted''), dir)
      | Ok (Some temp) \<Rightarrow>
          (case write_and_rename io temp path raw (dir(temp \<mapsto> [])) of
             (Ok _, dir') \<Rightarrow> (Ok (), dir')
           | (Err e, dir') \<Rightarrow> (Err e, if remove_ok io then dir'(temp := None) else dir')))"

section \<open>The envelope\<close>

definition STORE_SCHEMA_V1 :: rust_string where
  "STORE_SCHEMA_V1 = lit ''vpr-reviewed-owner-persona-1''"

definition STORE_SCHEMA_V2 :: rust_string where
  "STORE_SCHEMA_V2 = lit ''vpr-reviewed-owner-persona-2''"

record PersistedPersonaV1 =
  v1_schema_version :: rust_string
  v1_snapshot :: ReviewedOwnerContextSnapshot

record PersistedPersonaV2 =
  schema_version :: rust_string
  persona_snapshot :: DurableReviewedOwnerContextSnapshot
  workspace :: "OwnerWorkspaceRecord option"

record DecodedPersona =
  decoded_snapshot :: DurableReviewedOwnerContextSnapshot
  migrated_legacy :: bool

text \<open>
  The JSON library: the schema probe, the two readers and the writer. A written record is read
  back, and the probe sees the schema version of every record the reader accepts.
\<close>

record persona_codec =
  schema_probe :: "rust_string \<Rightarrow> rust_string option"
  decode_v1 :: "rust_string \<Rightarrow> PersistedPersonaV1 option"
  decode_v2 :: "rust_string \<Rightarrow> PersistedPersonaV2 option"
  encode_v2 :: "PersistedPersonaV2 \<Rightarrow> rust_string option"

definition codec_ok :: "persona_codec \<Rightarrow> bool" where
  "codec_ok codec \<longleftrightarrow>
     (\<forall>record raw. encode_v2 codec record = Some raw \<longrightarrow> decode_v2 codec raw = Some record) \<and>
     (\<forall>record raw. decode_v2 codec raw = Some record \<longrightarrow>
        schema_probe codec raw = Some (schema_version record))"

definition PersistedPersonaV2_new :: "DurableReviewedOwnerContextSnapshot \<Rightarrow> PersistedPersonaV2" where
  "PersistedPersonaV2_new snap =
     \<lparr>schema_version = STORE_SCHEMA_V2, persona_snapshot = snap, workspace = None\<rparr>"

definition PersistedPersonaV2_validate ::
  "PersistedPersonaV2 \<Rightarrow> rust_string + DurableReviewedOwnerContextSnapshot" where
  "PersistedPersonaV2_validate self =
     (if schema_version self \<noteq> STORE_SCHEMA_V2
      then Err (lit ''reviewed Persona store schema is unsupported'')
      else case (case workspace self of
                   None \<Rightarrow> Ok ()
                 | Some w \<Rightarrow>
                     ws_validate w (dur_persona_id (persona_snapshot self))
                       (dur_persona_version (persona_snapshot self))) of
             Err e \<Rightarrow> Err e
           | Ok _ \<Rightarrow> Ok (persona_snapshot self))"

definition reconciled ::
  "persona_codec \<Rightarrow> DurableReviewedOwnerContextSnapshot \<Rightarrow> rust_string option
     \<Rightarrow> rust_string + PersistedPersonaV2" where
  "reconciled codec snap previous =
     (let fresh = PersistedPersonaV2_new snap;
          prepared =
            (case previous of
               None \<Rightarrow> Ok fresh
             | Some raw \<Rightarrow>
            (case ok_or (schema_probe codec raw) (lit ''existing Persona record is invalid'') of
               Err e \<Rightarrow> Err e
             | Ok version \<Rightarrow>
            (if version = STORE_SCHEMA_V2 then
               (case ok_or (decode_v2 codec raw) (lit ''existing Persona v2 record is invalid'') of
                  Err e \<Rightarrow> Err e
                | Ok old \<Rightarrow>
               (case PersistedPersonaV2_validate old of
                  Err e \<Rightarrow> Err e
                | Ok _ \<Rightarrow>
               (if dur_persona_id (persona_snapshot old) \<noteq> dur_persona_id snap \<or>
                   dur_persona_version (persona_snapshot old) > dur_persona_version snap
                then Err (lit ''canonical Persona identity or version mismatch'')
                else if dur_persona_version (persona_snapshot old) < dur_persona_version snap
                then (case workspace old of
                        None \<Rightarrow> Ok fresh
                      | Some w \<Rightarrow>
                          (case on_persona_correction (dur_persona_version snap) w of
                             (Err e, _) \<Rightarrow> Err e
                           | (Ok _, w') \<Rightarrow> Ok (fresh\<lparr>workspace := Some w'\<rparr>)))
                else Ok (fresh\<lparr>workspace := workspace old\<rparr>))))
             else if version \<noteq> STORE_SCHEMA_V1 then Err (lit ''existing Persona schema is unsupported'')
             else Ok fresh)))
      in case prepared of
           Err e \<Rightarrow> Err e
         | Ok record \<Rightarrow>
             (case PersistedPersonaV2_validate record of Err e \<Rightarrow> Err e | Ok _ \<Rightarrow> Ok record))"

text \<open>Migration of the first schema, which kept only the current revision of every claim.\<close>

definition migrate_claim ::
  "ReviewedOwnerClaimSnapshot \<Rightarrow> rust_string + DurableReviewedOwnerClaimSnapshot" where
  "migrate_claim claim =
     (if view_revision claim < 2 \<or> view_revision claim > 10000
      then Err (lit ''legacy reviewed Persona claim revision is invalid'')
      else Ok \<lparr>dur_claim_id = view_claim_id claim, dur_history_complete = False,
               dur_revisions = [\<lparr>dur_revision = view_revision claim, dur_statement = view_statement claim,
                 dur_kind = view_kind claim, dur_source = lit ''owner'',
                 dur_verification = lit ''owner_verified'', dur_derivation = lit ''direct''\<rparr>]\<rparr>)"

definition migrate_v1_snapshot ::
  "ReviewedOwnerContextSnapshot \<Rightarrow> rust_string + DurableReviewedOwnerContextSnapshot" where
  "migrate_v1_snapshot snap =
     (if view_persona_version snap < 2 \<or> view_claims snap = []
      then Err (lit ''legacy reviewed Persona snapshot is invalid'')
      else case collect_results migrate_claim (view_claims snap) of
        Err e \<Rightarrow> Err e
      | Ok migrated \<Rightarrow>
          (case map_err (\<lambda>_. lit ''legacy reviewed Persona snapshot is invalid'')
                  (ctx_from_durable_snapshot
                     \<lparr>dur_persona_id = view_persona_id snap,
                      dur_persona_version = view_persona_version snap, dur_claims = migrated\<rparr>) of
             Err e \<Rightarrow> Err e
           | Ok validated \<Rightarrow> Ok (ctx_durable_snapshot validated)))"

definition decode_persisted :: "persona_codec \<Rightarrow> rust_string \<Rightarrow> rust_string + DecodedPersona" where
  "decode_persisted codec raw =
     (case ok_or (schema_probe codec raw) (lit ''reviewed Persona store contains invalid data'') of
        Err e \<Rightarrow> Err e
      | Ok version \<Rightarrow>
     (if version = STORE_SCHEMA_V2 then
        (case ok_or (decode_v2 codec raw) (lit ''reviewed Persona store contains invalid v2 data'') of
           Err e \<Rightarrow> Err e
         | Ok stored \<Rightarrow>
             (case PersistedPersonaV2_validate stored of
                Err e \<Rightarrow> Err e
              | Ok snap \<Rightarrow> Ok \<lparr>decoded_snapshot = snap, migrated_legacy = False\<rparr>))
      else if version = STORE_SCHEMA_V1 then
        (case ok_or (decode_v1 codec raw) (lit ''reviewed Persona store contains invalid v1 data'') of
           Err e \<Rightarrow> Err e
         | Ok stored \<Rightarrow>
             (if v1_schema_version stored \<noteq> STORE_SCHEMA_V1
              then Err (lit ''reviewed Persona store schema is unsupported'')
              else case migrate_v1_snapshot (v1_snapshot stored) of
                Err e \<Rightarrow> Err e
              | Ok snap \<Rightarrow> Ok \<lparr>decoded_snapshot = snap, migrated_legacy = True\<rparr>))
      else Err (lit ''reviewed Persona store schema is unsupported'')))"

section \<open>Loading and saving\<close>

text \<open>The configuration of one lab process: its third-party code and its store path.\<close>

record lab_config =
  cfg_sha :: sha256
  cfg_codec :: persona_codec
  cfg_store_path :: "rust_string option"

definition save_file ::
  "lab_config \<Rightarrow> store_io \<Rightarrow> rust_string \<Rightarrow> DurableReviewedOwnerContextSnapshot
     \<Rightarrow> (directory, unit, rust_string) op" where
  "save_file cfg io path snap dir =
     (case read_raw io path dir of
        Err e \<Rightarrow> (Err e, dir)
      | Ok previous \<Rightarrow>
     (case reconciled (cfg_codec cfg) snap previous of
        Err e \<Rightarrow> (Err e, dir)
      | Ok record \<Rightarrow>
     (case ok_or (encode_v2 (cfg_codec cfg) record) (lit ''reviewed Persona serialization failed'') of
        Err e \<Rightarrow> (Err e, dir)
      | Ok raw \<Rightarrow> commit_raw io path raw dir)))"

definition load_file ::
  "lab_config \<Rightarrow> store_io \<Rightarrow> store_io \<Rightarrow> rust_string
     \<Rightarrow> (directory, DurableReviewedOwnerContextSnapshot option, rust_string) op" where
  "load_file cfg io save_io path dir =
     (case read_raw io path dir of
        Err e \<Rightarrow> (Err e, dir)
      | Ok None \<Rightarrow> (Ok None, dir)
      | Ok (Some raw) \<Rightarrow>
     (case decode_persisted (cfg_codec cfg) raw of
        Err e \<Rightarrow> (Err e, dir)
      | Ok decoded \<Rightarrow>
          (if migrated_legacy decoded then
             (case save_file cfg save_io path (decoded_snapshot decoded) dir of
                (Err e, dir') \<Rightarrow> (Err e, dir')
              | (Ok _, dir') \<Rightarrow> (Ok (Some (decoded_snapshot decoded)), dir'))
           else (Ok (Some (decoded_snapshot decoded)), dir))))"

definition load_reviewed_persona ::
  "lab_config \<Rightarrow> store_io \<Rightarrow> store_io
     \<Rightarrow> (directory, DurableReviewedOwnerContextSnapshot option, rust_string) op" where
  "load_reviewed_persona cfg io save_io dir =
     (case cfg_store_path cfg of
        Some path \<Rightarrow> load_file cfg io save_io path dir
      | None \<Rightarrow> (Ok None, dir))"

definition store_unconfigured :: rust_string where
  "store_unconfigured = lit ''reviewed Persona durable store path must be configured''"

definition save_reviewed_persona ::
  "lab_config \<Rightarrow> store_io \<Rightarrow> DurableReviewedOwnerContextSnapshot \<Rightarrow> (directory, unit, rust_string) op" where
  "save_reviewed_persona cfg io snap dir =
     (case cfg_store_path cfg of
        Some path \<Rightarrow> save_file cfg io path snap dir
      | None \<Rightarrow> (Err store_unconfigured, dir))"

definition persist_reviewed_capture ::
  "lab_config \<Rightarrow> store_io \<Rightarrow> PersonaProfile \<Rightarrow> (directory, unit, rust_string) op" where
  "persist_reviewed_capture cfg io profile dir =
     (case map_err (\<lambda>_. lit ''reviewed Persona capture is invalid'')
             (durable_snapshot_from_reviewed_profile profile) of
        Err e \<Rightarrow> (Err e, dir)
      | Ok snap \<Rightarrow> save_reviewed_persona cfg io snap dir)"

definition load_current_record ::
  "lab_config \<Rightarrow> store_io \<Rightarrow> directory \<Rightarrow> rust_string + PersistedPersonaV2 option" where
  "load_current_record cfg io dir =
     (case cfg_store_path cfg of
        None \<Rightarrow> Err store_unconfigured
      | Some path \<Rightarrow>
     (case read_raw io path dir of
        Err e \<Rightarrow> Err e
      | Ok None \<Rightarrow> Ok None
      | Ok (Some raw) \<Rightarrow>
     (case ok_or (decode_v2 (cfg_codec cfg) raw) (lit ''canonical Persona v2 record required'') of
        Err e \<Rightarrow> Err e
      | Ok record \<Rightarrow>
          (case PersistedPersonaV2_validate record of Err e \<Rightarrow> Err e | Ok _ \<Rightarrow> Ok (Some record)))))"

definition commit_current_record ::
  "lab_config \<Rightarrow> store_io \<Rightarrow> PersistedPersonaV2 \<Rightarrow> (directory, unit, rust_string) op" where
  "commit_current_record cfg io record dir =
     (case PersistedPersonaV2_validate record of
        Err e \<Rightarrow> (Err e, dir)
      | Ok _ \<Rightarrow>
     (case ok_or (encode_v2 (cfg_codec cfg) record) (lit ''reviewed Persona serialization failed'') of
        Err e \<Rightarrow> (Err e, dir)
      | Ok raw \<Rightarrow>
          (case cfg_store_path cfg of
             Some path \<Rightarrow> commit_raw io path raw dir
           | None \<Rightarrow> (Err store_unconfigured, dir))))"

definition required_persona :: "lab_config \<Rightarrow> store_io \<Rightarrow> directory \<Rightarrow> rust_string + PersistedPersonaV2" where
  "required_persona cfg io dir =
     (case load_current_record cfg io dir of
        Err e \<Rightarrow> Err e
      | Ok record \<Rightarrow> ok_or record (lit ''reviewed Persona required''))"

section \<open>The workspace service\<close>

text \<open>
  The shape of every mutating method of the service: under the lock, read the record, change it,
  commit it. A method that fails before the commit has written nothing.
\<close>

definition svc_transaction ::
  "lab_config \<Rightarrow> store_io \<Rightarrow> (PersistedPersonaV2 \<Rightarrow> rust_string + ('a \<times> PersistedPersonaV2))
     \<Rightarrow> (directory, 'a, rust_string) op" where
  "svc_transaction cfg io change dir =
     (case required_persona cfg io dir of
        Err e \<Rightarrow> (Err e, dir)
      | Ok record \<Rightarrow>
     (case change record of
        Err e \<Rightarrow> (Err e, dir)
      | Ok (a, record') \<Rightarrow>
     (case commit_current_record cfg io record' dir of
        (Err e, dir') \<Rightarrow> (Err e, dir')
      | (Ok _, dir') \<Rightarrow> (Ok a, dir'))))"

text \<open>An operation on the workspace of the record; without one it is refused.\<close>

definition on_workspace ::
  "(OwnerWorkspaceRecord, 'a, rust_string) op
     \<Rightarrow> PersistedPersonaV2 \<Rightarrow> rust_string + ('a \<times> PersistedPersonaV2)" where
  "on_workspace operation record =
     (case ok_or (workspace record) (lit ''owner workspace missing'') of
        Err e \<Rightarrow> Err e
      | Ok w \<Rightarrow>
          (case operation w of
             (Err e, _) \<Rightarrow> Err e
           | (Ok a, w') \<Rightarrow> Ok (a, record\<lparr>workspace := Some w'\<rparr>)))"

definition provision_record ::
  "sha256 \<Rightarrow> entropy \<Rightarrow> entropy \<Rightarrow> PersistedPersonaV2
     \<Rightarrow> rust_string + ((rust_string \<times> rust_string) \<times> PersistedPersonaV2)" where
  "provision_record sha fill_id fill_token record =
     (if workspace record \<noteq> None then Err (lit ''owner workspace already provisioned'')
      else case provision sha fill_id fill_token of
        Err e \<Rightarrow> Err e
      | Ok (w, owner_token) \<Rightarrow> Ok ((ws_owner_id w, owner_token), record\<lparr>workspace := Some w\<rparr>))"

definition svc_provision_owner ::
  "lab_config \<Rightarrow> store_io \<Rightarrow> entropy \<Rightarrow> entropy \<Rightarrow> (directory, rust_string \<times> rust_string, rust_string) op" where
  "svc_provision_owner cfg io fill_id fill_token =
     svc_transaction cfg io (provision_record (cfg_sha cfg) fill_id fill_token)"

record WorkspaceStatus =
  st_owner_id :: rust_string
  st_persona_id :: rust_string
  st_persona_version :: u64
  st_publication_status :: "rust_string option"

fun publication_status_label :: "PublicationStatus \<Rightarrow> rust_string" where
  "publication_status_label Private = lit ''private''"
| "publication_status_label Published = lit ''published''"
| "publication_status_label Paused = lit ''paused''"
| "publication_status_label Unpublished = lit ''unpublished''"

definition svc_owner_status ::
  "lab_config \<Rightarrow> store_io \<Rightarrow> rust_string \<Rightarrow> directory \<Rightarrow> rust_string + WorkspaceStatus" where
  "svc_owner_status cfg io owner_token dir =
     (case required_persona cfg io dir of
        Err e \<Rightarrow> Err e
      | Ok record \<Rightarrow>
     (case ok_or (workspace record) (lit ''owner workspace missing'') of
        Err e \<Rightarrow> Err e
      | Ok w \<Rightarrow>
          (if \<not> authenticate_owner (cfg_sha cfg) w owner_token then Err (lit ''owner authorization denied'')
           else Ok \<lparr>st_owner_id = ws_owner_id w,
                    st_persona_id = dur_persona_id (persona_snapshot record),
                    st_persona_version = dur_persona_version (persona_snapshot record),
                    st_publication_status = map_option publication_status_label (ws_status w)\<rparr>)))"

definition publish_record ::
  "sha256 \<Rightarrow> entropy \<Rightarrow> entropy \<Rightarrow> rust_string \<Rightarrow> u64 \<Rightarrow> bool \<Rightarrow> PersistedPersonaV2
     \<Rightarrow> rust_string + (rust_string \<times> PersistedPersonaV2)" where
  "publish_record sha fill_id fill_token owner_token expected_version readiness_verified record =
     (if dur_persona_version (persona_snapshot record) \<noteq> expected_version
      then Err (lit ''stale Persona version'')
      else on_workspace
             (ws_publish sha fill_id fill_token owner_token (dur_persona_id (persona_snapshot record))
                expected_version readiness_verified) record)"

definition svc_publish ::
  "lab_config \<Rightarrow> store_io \<Rightarrow> entropy \<Rightarrow> entropy \<Rightarrow> rust_string \<Rightarrow> u64 \<Rightarrow> bool
     \<Rightarrow> (directory, rust_string, rust_string) op" where
  "svc_publish cfg io fill_id fill_token owner_token expected_version readiness_verified =
     svc_transaction cfg io
       (publish_record (cfg_sha cfg) fill_id fill_token owner_token expected_version readiness_verified)"

definition svc_change_publication ::
  "lab_config \<Rightarrow> store_io \<Rightarrow> (OwnerWorkspaceRecord, unit, rust_string) op \<Rightarrow> (directory, unit, rust_string) op" where
  "svc_change_publication cfg io operation = svc_transaction cfg io (on_workspace operation)"

definition svc_pause :: "lab_config \<Rightarrow> store_io \<Rightarrow> rust_string \<Rightarrow> (directory, unit, rust_string) op" where
  "svc_pause cfg io owner_token = svc_change_publication cfg io (ws_pause (cfg_sha cfg) owner_token)"

definition svc_unpublish :: "lab_config \<Rightarrow> store_io \<Rightarrow> rust_string \<Rightarrow> (directory, unit, rust_string) op" where
  "svc_unpublish cfg io owner_token = svc_change_publication cfg io (ws_unpublish (cfg_sha cfg) owner_token)"

definition svc_recover_before_listener :: "lab_config \<Rightarrow> store_io \<Rightarrow> (directory, unit, rust_string) op" where
  "svc_recover_before_listener cfg io dir =
     (case load_current_record cfg io dir of
        Err e \<Rightarrow> (Err e, dir)
      | Ok None \<Rightarrow> (Ok (), dir)
      | Ok (Some record) \<Rightarrow>
          (case workspace record of
             None \<Rightarrow> (Ok (), dir)
           | Some w \<Rightarrow>
               (case ws_invalidate_restart_leases w of
                  (Err e, _) \<Rightarrow> (Err e, dir)
                | (Ok _, w') \<Rightarrow> commit_current_record cfg io (record\<lparr>workspace := Some w'\<rparr>) dir)))"

text \<open>A read-only use of the workspace with the current Persona.\<close>

definition with_workspace ::
  "lab_config \<Rightarrow> store_io \<Rightarrow> (OwnerWorkspaceRecord \<Rightarrow> rust_string \<Rightarrow> u64 \<Rightarrow> rust_string + 'a)
     \<Rightarrow> directory \<Rightarrow> rust_string + 'a" where
  "with_workspace cfg io f dir =
     (case required_persona cfg io dir of
        Err e \<Rightarrow> Err e
      | Ok record \<Rightarrow>
     (case ok_or (workspace record) (lit ''owner workspace missing'') of
        Err e \<Rightarrow> Err e
      | Ok w \<Rightarrow>
          f w (dur_persona_id (persona_snapshot record)) (dur_persona_version (persona_snapshot record))))"

definition svc_visitor_permit ::
  "lab_config \<Rightarrow> store_io \<Rightarrow> rust_string \<Rightarrow> directory \<Rightarrow> rust_string + VisitorPermit" where
  "svc_visitor_permit cfg io bearer_token =
     with_workspace cfg io (\<lambda>w _ _. ws_visitor_permit (cfg_sha cfg) w bearer_token)"

definition admit_from_workspace ::
  "sha256 \<Rightarrow> OwnerWorkspaceRecord \<Rightarrow> rust_string \<Rightarrow> rust_string \<Rightarrow> u64 \<Rightarrow> u64 \<Rightarrow> rust_string + VisitorPermit" where
  "admit_from_workspace sha w bearer_token pid version now =
     (case ws_visitor_permit sha w bearer_token of
        Err e \<Rightarrow> Err e
      | Ok permit \<Rightarrow>
          (case ws_authorize_visitor sha w bearer_token permit pid version now of
             Err e \<Rightarrow> Err e
           | Ok _ \<Rightarrow> Ok permit))"

definition svc_admit_visitor_turn ::
  "lab_config \<Rightarrow> store_io \<Rightarrow> rust_string \<Rightarrow> u64 \<Rightarrow> directory \<Rightarrow> rust_string + VisitorPermit" where
  "svc_admit_visitor_turn cfg io bearer_token now =
     with_workspace cfg io (\<lambda>w pid version. admit_from_workspace (cfg_sha cfg) w bearer_token pid version now)"

definition svc_authorize_visitor ::
  "lab_config \<Rightarrow> store_io \<Rightarrow> rust_string \<Rightarrow> VisitorPermit \<Rightarrow> u64 \<Rightarrow> directory \<Rightarrow> rust_string + unit" where
  "svc_authorize_visitor cfg io bearer_token permit now =
     with_workspace cfg io (\<lambda>w pid version.
       ws_authorize_visitor (cfg_sha cfg) w bearer_token permit pid version now)"

text \<open>The server clock: milliseconds since the epoch, \<open>None\<close> before it.\<close>

definition server_now_millis :: "nat option \<Rightarrow> rust_string + u64" where
  "server_now_millis clock =
     (case clock of
        None \<Rightarrow> Err (lit ''server clock precedes Unix epoch'')
      | Some millis \<Rightarrow>
          (if millis < 2 ^ 64 then Ok (of_nat millis) else Err (lit ''server clock out of range'')))"

text \<open>The closures read and change an arbitrary outer state \<open>'w\<close>.\<close>

definition guard_buffered_output ::
  "(u64 \<Rightarrow> ('w, unit, rust_string) op) \<Rightarrow> ('w, u64, rust_string) op \<Rightarrow> ('w, 't, rust_string) op
     \<Rightarrow> ('w, 't, rust_string) op" where
  "guard_buffered_output authorize clock compute w =
     (case clock w of
        (Err e, w1) \<Rightarrow> (Err e, w1)
      | (Ok started_at, w1) \<Rightarrow>
     (case authorize started_at w1 of
        (Err e, w2) \<Rightarrow> (Err e, w2)
      | (Ok _, w2) \<Rightarrow>
     (case compute w2 of
        (Err e, w3) \<Rightarrow> (Err e, w3)
      | (Ok result, w3) \<Rightarrow>
     (case clock w3 of
        (Err e, w4) \<Rightarrow> (Err e, w4)
      | (Ok now, w4) \<Rightarrow>
     (case authorize (max now started_at) w4 of
        (Err e, w5) \<Rightarrow> (Err e, w5)
      | (Ok _, w5) \<Rightarrow> (Ok result, w5))))))"

definition enqueue_from_workspace ::
  "sha256 \<Rightarrow> OwnerWorkspaceRecord \<Rightarrow> rust_string \<Rightarrow> VisitorPermit \<Rightarrow> rust_string \<Rightarrow> u64 \<Rightarrow> u64
     \<Rightarrow> ('q \<Rightarrow> bool \<times> 'q) \<Rightarrow> ('q, unit, rust_string) op" where
  "enqueue_from_workspace sha w bearer_token permit pid version now try_send queue =
     (case ws_authorize_visitor sha w bearer_token permit pid version now of
        Err e \<Rightarrow> (Err e, queue)
      | Ok _ \<Rightarrow>
          (case try_send queue of
             (sent, queue') \<Rightarrow>
               (if sent then Ok () else Err (lit ''visitor local queue unavailable''), queue')))"

definition svc_enqueue_authorized_visitor_fragment ::
  "lab_config \<Rightarrow> store_io \<Rightarrow> nat option \<Rightarrow> rust_string \<Rightarrow> VisitorPermit \<Rightarrow> ('q \<Rightarrow> bool \<times> 'q)
     \<Rightarrow> directory \<Rightarrow> ('q, unit, rust_string) op" where
  "svc_enqueue_authorized_visitor_fragment cfg io clock bearer_token permit try_send dir queue =
     (case with_workspace cfg io (\<lambda>w pid version. Ok (w, pid, version)) dir of
        Err e \<Rightarrow> (Err e, queue)
      | Ok (w, pid, version) \<Rightarrow>
          (case server_now_millis clock of
             Err e \<Rightarrow> (Err e, queue)
           | Ok now \<Rightarrow>
               enqueue_from_workspace (cfg_sha cfg) w bearer_token permit pid version now try_send queue))"

text \<open>The callback \<open>register\<close> runs while the lock is held, on the state of the caller.\<close>

definition svc_admit_visitor_provider_egress ::
  "lab_config \<Rightarrow> store_io \<Rightarrow> nat option \<Rightarrow> rust_string \<Rightarrow> VisitorPermit \<Rightarrow> directory
     \<Rightarrow> ('w, 't, rust_string) op \<Rightarrow> ('w, 't, rust_string) op" where
  "svc_admit_visitor_provider_egress cfg io clock bearer_token permit dir register w =
     (case with_workspace cfg io (\<lambda>ws pid version.
             case server_now_millis clock of
               Err e \<Rightarrow> Err e
             | Ok now \<Rightarrow> ws_authorize_visitor (cfg_sha cfg) ws bearer_token permit pid version now) dir of
        Err e \<Rightarrow> (Err e, w)
      | Ok _ \<Rightarrow> register w)"

section \<open>Atomic replacement of the file\<close>

lemma stage_loop_fresh:
  "stage_loop io dir i n = Ok (Some temp) \<Longrightarrow> dir temp = None \<and> (\<exists>bs. temp = temp_name bs)"
proof (induction n arbitrary: i)
  case (Suc n)
  then obtain random where random: "temp_entropy io i = Some random"
    by (cases "temp_entropy io i") simp_all
  define name where "name = temp_name (map random [0..<16])"
  have "stage_loop io dir i (Suc n) =
      (if dir name \<noteq> None then stage_loop io dir (Suc i) n
       else if open_ok io i then Ok (Some name) else Err (lit ''reviewed Persona file store staging failed''))"
    unfolding stage_loop.simps random option.case Let_def name_def ..
  with Suc show ?case by (cases "dir name = None"; cases "open_ok io i") (auto simp: name_def)
qed simp

text \<open>
  What a commit leaves behind: the new directory, or the old one, in which at most one stray
  temporary file may remain when it could not be removed.
\<close>

lemma commit_raw_cases:
  assumes "commit_raw io path raw dir = (r, dir')" and "\<And>bs. path \<noteq> temp_name bs"
  obtains (committed) "dir' = dir(path \<mapsto> raw)" "r = Ok () \<or> \<not> dir_sync_ok io"
  | (kept) "r \<noteq> Ok ()" "dir' = dir"
  | (stray) temp bs partial where "r \<noteq> Ok ()" "temp = temp_name bs" "dir temp = None" "\<not> remove_ok io"
      "dir' = dir(temp \<mapsto> partial)"
proof (cases "mkdir_ok io \<and> (\<exists>temp. stage_loop io dir 0 16 = Ok (Some temp))")
  case True
  then obtain temp where temp: "mkdir_ok io" "stage_loop io dir 0 16 = Ok (Some temp)" by blast
  then obtain bs where bs: "dir temp = None" "temp = temp_name bs" using stage_loop_fresh by blast
  with assms(2) have neq: "path \<noteq> temp" by blast
  have cleaned: "dir(temp := None) = dir" using bs(1) by (simp add: fun_upd_idem)
  have upd: "(dir(path \<mapsto> raw))(temp := None) = dir(path \<mapsto> raw)"
    using bs(1) neq by (simp add: fun_eq_iff)
  show thesis
  proof (cases "write_fault io = None \<and> sync_ok io \<and> rename_ok io")
    case True
    then have "dir' = dir(path \<mapsto> raw)" "r = Ok () \<or> \<not> dir_sync_ok io"
      using assms(1) temp cleaned upd neq
      by (auto simp: commit_raw_def write_and_rename_def Let_def split: if_splits)
    then show thesis by (rule committed)
  next
    case False
    then obtain partial where part: "r \<noteq> Ok ()" "dir' = (if remove_ok io then dir else dir(temp \<mapsto> partial))"
      using assms(1) temp cleaned
      by (auto simp: commit_raw_def write_and_rename_def Let_def split: option.splits if_splits)
    show thesis
    proof (cases "remove_ok io")
      case True
      with part show thesis by (intro kept) simp_all
    next
      case False
      with part bs show thesis by (intro stray [of temp bs partial]) simp_all
    qed
  qed
next
  case False
  with assms(1) show thesis
    by (intro kept) (auto simp: commit_raw_def split: if_splits sum.splits option.splits)
qed

section \<open>The record on disk\<close>

definition cfg_ok :: "lab_config \<Rightarrow> bool" where
  "cfg_ok cfg \<longleftrightarrow> codec_ok (cfg_codec cfg) \<and> (\<forall>bs. cfg_store_path cfg \<noteq> Some (temp_name bs))"

lemma cfg_okD:
  assumes "cfg_ok cfg"
  shows "encode_v2 (cfg_codec cfg) record = Some raw \<Longrightarrow> decode_v2 (cfg_codec cfg) raw = Some record"
    and "decode_v2 (cfg_codec cfg) raw = Some record \<Longrightarrow>
      schema_probe (cfg_codec cfg) raw = Some (schema_version record)"
    and "cfg_store_path cfg = Some path \<Longrightarrow> path \<noteq> temp_name bs"
  using assms by (auto simp: cfg_ok_def codec_ok_def)

text \<open>The content of the store file, and the valid record it holds, if it does.\<close>

definition store_file :: "lab_config \<Rightarrow> directory \<Rightarrow> rust_string option" where
  "store_file cfg dir = (case cfg_store_path cfg of None \<Rightarrow> None | Some path \<Rightarrow> dir path)"

definition current_record :: "lab_config \<Rightarrow> directory \<Rightarrow> PersistedPersonaV2 option" where
  "current_record cfg dir =
     (case store_file cfg dir of
        None \<Rightarrow> None
      | Some raw \<Rightarrow>
     (case decode_v2 (cfg_codec cfg) raw of
        None \<Rightarrow> None
      | Some record \<Rightarrow> (if is_ok (PersistedPersonaV2_validate record) then Some record else None)))"

lemma validate_Ok_iff_V2:
  "is_ok (PersistedPersonaV2_validate record) \<longleftrightarrow>
     schema_version record = STORE_SCHEMA_V2 \<and>
     (\<forall>w. workspace record = Some w \<longrightarrow>
        ws_validate w (dur_persona_id (persona_snapshot record)) (dur_persona_version (persona_snapshot record)) = Ok ())"
  by (auto simp: PersistedPersonaV2_validate_def is_ok_iff split: option.splits sum.splits)

lemma current_record_SomeD:
  assumes "current_record cfg dir = Some record"
  obtains path raw where "cfg_store_path cfg = Some path" "dir path = Some raw"
    "decode_v2 (cfg_codec cfg) raw = Some record" "is_ok (PersistedPersonaV2_validate record)"
  using assms by (auto simp: current_record_def store_file_def split: option.splits if_splits)

lemma load_current_record_Some:
  "load_current_record cfg io dir = Ok (Some record) \<longleftrightarrow> current_record cfg dir = Some record \<and> read_ok io"
  by (auto simp: load_current_record_def current_record_def store_file_def read_raw_def is_ok_iff
      split: option.splits sum.splits if_splits)

lemma required_persona_Ok_iff:
  "required_persona cfg io dir = Ok record \<longleftrightarrow> current_record cfg dir = Some record \<and> read_ok io"
proof (cases "load_current_record cfg io dir")
  case (Inl e)
  then show ?thesis using load_current_record_Some [of cfg io dir "record"] by (simp add: required_persona_def)
next
  case (Inr r)
  then show ?thesis
    using load_current_record_Some [of cfg io dir "record"] by (simp add: required_persona_def)
qed

lemma same_file_same_record:
  "store_file cfg dir' = store_file cfg dir \<Longrightarrow> current_record cfg dir' = current_record cfg dir"
  by (simp add: current_record_def)

text \<open>A commit of a valid record replaces the record on disk by it, or leaves the file as it was.\<close>

lemma commit_raw_store:
  assumes "cfg_ok cfg" "cfg_store_path cfg = Some path" "encode_v2 (cfg_codec cfg) record = Some raw"
    "is_ok (PersistedPersonaV2_validate record)" "commit_raw io path raw dir = (r, dir')"
  shows "current_record cfg dir' = Some record \<or> r \<noteq> Ok () \<and> store_file cfg dir' = store_file cfg dir"
proof -
  have fresh: "path \<noteq> temp_name bs" for bs using cfg_okD(3) [OF assms(1,2)] .
  have "decode_v2 (cfg_codec cfg) raw = Some record" using cfg_okD(1) [OF assms(1,3)] .
  then show ?thesis
    using assms(2,4) fresh by (cases rule: commit_raw_cases [OF assms(5) fresh])
      (auto simp: current_record_def store_file_def)
qed

lemma commit_current_record_store:
  assumes "cfg_ok cfg" "commit_current_record cfg io record dir = (r, dir')"
  shows "current_record cfg dir' = Some record \<and> is_ok (PersistedPersonaV2_validate record) \<or>
    r \<noteq> Ok () \<and> store_file cfg dir' = store_file cfg dir"
proof (cases "is_ok (PersistedPersonaV2_validate record)")
  case True
  with assms(2) commit_raw_store [OF assms(1)] show ?thesis
    by (fastforce simp: commit_current_record_def is_ok_iff split: sum.splits option.splits)
next
  case False
  with assms(2) show ?thesis by (auto simp: commit_current_record_def is_ok_iff split: sum.splits)
qed

section \<open>Histories of the store\<close>

datatype store_event =
    ProvisionOwner store_io entropy entropy
  | PublishPersona store_io entropy entropy rust_string u64 bool
  | PausePersona store_io rust_string
  | UnpublishPersona store_io rust_string
  | RecoverStore store_io
  | SavePersona store_io DurableReviewedOwnerContextSnapshot
  | LoadPersona store_io store_io

fun store_step :: "lab_config \<Rightarrow> store_event \<Rightarrow> (directory, unit, rust_string) op" where
  "store_step cfg (ProvisionOwner io fill_id fill_token) =
     drop_value (svc_provision_owner cfg io fill_id fill_token)"
| "store_step cfg (PublishPersona io fill_id fill_token owner_token version ready) =
     drop_value (svc_publish cfg io fill_id fill_token owner_token version ready)"
| "store_step cfg (PausePersona io owner_token) = svc_pause cfg io owner_token"
| "store_step cfg (UnpublishPersona io owner_token) = svc_unpublish cfg io owner_token"
| "store_step cfg (RecoverStore io) = svc_recover_before_listener cfg io"
| "store_step cfg (SavePersona io snap) = save_reviewed_persona cfg io snap"
| "store_step cfg (LoadPersona io save_io) = drop_value (load_reviewed_persona cfg io save_io)"

text \<open>
  How the record on disk may change: the Persona stays the same, its version never goes back, and
  its workspace is kept, provisioned once, or changed by one event of the workspace.
\<close>

definition record_moves :: "sha256 \<Rightarrow> PersistedPersonaV2 \<Rightarrow> PersistedPersonaV2 \<Rightarrow> bool" where
  "record_moves sha old new \<longleftrightarrow>
     dur_persona_id (persona_snapshot new) = dur_persona_id (persona_snapshot old) \<and>
     dur_persona_version (persona_snapshot old) \<le> dur_persona_version (persona_snapshot new) \<and>
     (case workspace old of
        None \<Rightarrow> True
      | Some w \<Rightarrow> \<exists>w'. workspace new = Some w' \<and>
          (w' = w \<and> dur_persona_version (persona_snapshot new) = dur_persona_version (persona_snapshot old) \<or>
           (\<exists>ev. workspace_step sha ev w = (Ok (), w'))))"

lemma record_movesI:
  assumes "workspace old = Some w" "workspace new = Some w'" "workspace_step sha ev w = (Ok (), w')"
    "dur_persona_id (persona_snapshot new) = dur_persona_id (persona_snapshot old)"
    "dur_persona_version (persona_snapshot old) \<le> dur_persona_version (persona_snapshot new)"
  shows "record_moves sha old new"
  unfolding record_moves_def assms(1) option.case using assms(2-5) by blast

text \<open>The effect of one step with result \<open>r\<close>: the file is untouched, or holds a valid record reached
  by such a change.\<close>

definition store_effect :: "lab_config \<Rightarrow> directory \<Rightarrow> directory \<Rightarrow> bool" where
  "store_effect cfg dir dir' \<longleftrightarrow>
     store_file cfg dir' = store_file cfg dir \<or>
     (\<exists>new. current_record cfg dir' = Some new \<and>
        (\<forall>old. current_record cfg dir = Some old \<longrightarrow> record_moves (cfg_sha cfg) old new))"

lemma store_effect_refl [simp]: "store_effect cfg dir dir"
  by (simp add: store_effect_def)

lemma svc_transaction_effect:
  assumes "cfg_ok cfg" and "svc_transaction cfg io change dir = (r, dir')"
    and "\<And>old a new. current_record cfg dir = Some old \<Longrightarrow> change old = Ok (a, new)
      \<Longrightarrow> record_moves (cfg_sha cfg) old new"
  shows "store_effect cfg dir dir'"
proof (cases "\<exists>old a new. required_persona cfg io dir = Ok old \<and> change old = Ok (a, new)")
  case True
  then obtain old a new where parts: "required_persona cfg io dir = Ok old" "change old = Ok (a, new)" by blast
  obtain r' where commit: "commit_current_record cfg io new dir = (r', dir')"
    using assms(2) parts by (auto simp: svc_transaction_def split: prod.splits sum.splits)
  have old: "current_record cfg dir = Some old" using parts(1) by (simp add: required_persona_Ok_iff)
  show ?thesis
    using commit_current_record_store [OF assms(1) commit] old assms(3) [OF old parts(2)]
    by (auto simp: store_effect_def)
next
  case False
  with assms(2) show ?thesis by (auto simp: svc_transaction_def store_effect_def split: sum.splits prod.splits)
qed

lemma on_workspace_moves:
  assumes "on_workspace operation old = Ok (a, new)"
    and "\<And>w w'. operation w = (Ok a, w') \<Longrightarrow> workspace_step sha ev w = (Ok (), w')"
  shows "record_moves sha old new"
proof -
  obtain w w' where "workspace old = Some w" "operation w = (Ok a, w')" "new = old\<lparr>workspace := Some w'\<rparr>"
    using assms(1) by (auto simp: on_workspace_def split: option.splits sum.splits prod.splits)
  then show ?thesis by (intro record_movesI [OF _ _ assms(2)]) simp_all
qed

lemma provision_record_moves: "provision_record sha fi ft old = Ok (a, new) \<Longrightarrow> record_moves sha old new"
  by (auto simp: provision_record_def record_moves_def split: if_splits sum.splits)

lemma publish_record_moves:
  "publish_record sha fi ft tok v ready old = Ok (a, new) \<Longrightarrow> record_moves sha old new"
  by (auto simp: publish_record_def drop_value_def split: if_splits
      intro!: on_workspace_moves [where ev = "WsPublish fi ft tok (dur_persona_id (persona_snapshot old)) v ready"])

lemma reconciled_moves:
  assumes "cfg_ok cfg" "reconciled (cfg_codec cfg) snap (Some raw) = Ok new"
    "decode_v2 (cfg_codec cfg) raw = Some old" "is_ok (PersistedPersonaV2_validate old)"
  shows "record_moves sha old new"
proof -
  have "schema_probe (cfg_codec cfg) raw = Some STORE_SCHEMA_V2"
    using cfg_okD(2) [OF assms(1,3)] assms(4) by (simp add: validate_Ok_iff_V2)
  with assms(2,3,4) obtain new' where new: "new = new'" "persona_snapshot new' = snap"
      "dur_persona_id (persona_snapshot old) = dur_persona_id snap"
      "dur_persona_version (persona_snapshot old) \<le> dur_persona_version snap"
      "if dur_persona_version (persona_snapshot old) < dur_persona_version snap
       then (\<forall>w. workspace old = Some w \<longrightarrow>
         (\<exists>w'. workspace new' = Some w' \<and> on_persona_correction (dur_persona_version snap) w = (Ok (), w')))
       else workspace new' = workspace old"
    by (auto simp: reconciled_def PersistedPersonaV2_new_def Let_def is_ok_iff linorder_not_less
        split: if_splits sum.splits option.splits prod.splits)
  show ?thesis
  proof (cases "workspace old")
    case None
    then show ?thesis using new by (simp add: record_moves_def)
  next
    case (Some w)
    show ?thesis
    proof (cases "dur_persona_version (persona_snapshot old) < dur_persona_version snap")
      case True
      with new(5) Some obtain w' where w': "workspace new' = Some w'"
          "workspace_step sha (WsCorrection (dur_persona_version snap)) w = (Ok (), w')"
        by auto
      show ?thesis by (rule record_movesI [OF Some _ w'(2)]) (use w'(1) new(1-4) in simp_all)
    next
      case False
      then show ?thesis using new Some by (auto simp: record_moves_def)
    qed
  qed
qed

lemma reconciled_valid: "reconciled codec snap previous = Ok new \<Longrightarrow> is_ok (PersistedPersonaV2_validate new)"
  by (auto simp: reconciled_def Let_def split: sum.splits)

lemma save_file_effect:
  assumes "cfg_ok cfg" "cfg_store_path cfg = Some path" "save_file cfg io path snap dir = (r, dir')"
  shows "store_effect cfg dir dir'"
    and "r = Ok () \<Longrightarrow> \<exists>new. current_record cfg dir' = Some new \<and> persona_snapshot new = snap \<and>
      (\<forall>old. current_record cfg dir = Some old \<longrightarrow> record_moves (cfg_sha cfg) old new)"
proof -
  have "store_file cfg dir' = store_file cfg dir \<and> r \<noteq> Ok () \<or>
      (\<exists>new. current_record cfg dir' = Some new \<and> persona_snapshot new = snap \<and>
        (\<forall>old. current_record cfg dir = Some old \<longrightarrow> record_moves (cfg_sha cfg) old new))"
  proof (cases "\<exists>previous new raw. read_raw io path dir = Ok previous \<and>
      reconciled (cfg_codec cfg) snap previous = Ok new \<and> encode_v2 (cfg_codec cfg) new = Some raw")
    case True
    then obtain previous new raw where parts: "read_raw io path dir = Ok previous"
        "reconciled (cfg_codec cfg) snap previous = Ok new" "encode_v2 (cfg_codec cfg) new = Some raw"
      by blast
    then have "commit_raw io path raw dir = (r, dir')" using assms(3) by (simp add: save_file_def)
    note store = commit_raw_store [OF assms(1,2) parts(3) reconciled_valid [OF parts(2)] this]
    have moves: "record_moves (cfg_sha cfg) old new" if cur: "current_record cfg dir = Some old" for old
    proof -
      from cur obtain raw' where raw': "dir path = Some raw'"
          "decode_v2 (cfg_codec cfg) raw' = Some old" "is_ok (PersistedPersonaV2_validate old)"
        using assms(2) by (auto elim: current_record_SomeD)
      then have "previous = Some raw'" using parts(1) by (auto simp: read_raw_def split: if_splits)
      then show ?thesis using reconciled_moves [OF assms(1) _ raw'(2,3)] parts(2) by simp
    qed
    have snap: "persona_snapshot new = snap"
      using parts(2) by (auto simp: reconciled_def PersistedPersonaV2_new_def Let_def
          split: if_splits sum.splits option.splits prod.splits)
    show ?thesis using store moves snap by blast
  next
    case False
    then show ?thesis using assms(3) by (auto simp: save_file_def split: sum.splits option.splits)
  qed
  then show "store_effect cfg dir dir'"
    and "r = Ok () \<Longrightarrow> \<exists>new. current_record cfg dir' = Some new \<and> persona_snapshot new = snap \<and>
      (\<forall>old. current_record cfg dir = Some old \<longrightarrow> record_moves (cfg_sha cfg) old new)"
    by (auto simp: store_effect_def)
qed

lemma recover_effect:
  assumes "cfg_ok cfg" "svc_recover_before_listener cfg io dir = (r, dir')"
  shows "store_effect cfg dir dir'"
proof (cases "\<exists>old w w'. load_current_record cfg io dir = Ok (Some old) \<and> workspace old = Some w \<and>
    ws_invalidate_restart_leases w = (Ok (), w')")
  case True
  then obtain old w w' where parts: "load_current_record cfg io dir = Ok (Some old)"
      "workspace old = Some w" "ws_invalidate_restart_leases w = (Ok (), w')" by blast
  then have "commit_current_record cfg io (old\<lparr>workspace := Some w'\<rparr>) dir = (r, dir')"
    using assms(2) by (simp add: svc_recover_before_listener_def)
  note store = commit_current_record_store [OF assms(1) this]
  have "record_moves (cfg_sha cfg) old (old\<lparr>workspace := Some w'\<rparr>)"
    by (rule record_movesI [OF parts(2), of _ w' _ WsRestart]) (use parts(3) in simp_all)
  then show ?thesis
    using store parts(1) by (auto simp: store_effect_def load_current_record_Some)
next
  case False
  then show ?thesis
    using assms(2) by (auto simp: svc_recover_before_listener_def store_effect_def
        split: sum.splits option.splits prod.splits)
qed

lemma store_step_effect:
  assumes "cfg_ok cfg" "store_step cfg ev dir = (r, dir')"
  shows "store_effect cfg dir dir'"
proof (cases ev)
  case (ProvisionOwner io fi ft)
  obtain r' where "svc_provision_owner cfg io fi ft dir = (r', dir')"
    using assms(2) ProvisionOwner by (auto simp: drop_value_def split: prod.splits sum.splits)
  then show ?thesis
    unfolding svc_provision_owner_def
    by (rule svc_transaction_effect [OF assms(1)]) (rule provision_record_moves)
next
  case (PublishPersona io fi ft tok v ready)
  obtain r' where "svc_publish cfg io fi ft tok v ready dir = (r', dir')"
    using assms(2) PublishPersona by (auto simp: drop_value_def split: prod.splits sum.splits)
  then show ?thesis
    unfolding svc_publish_def by (rule svc_transaction_effect [OF assms(1)]) (rule publish_record_moves)
next
  case (PausePersona io tok)
  with assms(2) have "svc_transaction cfg io (on_workspace (ws_pause (cfg_sha cfg) tok)) dir = (r, dir')"
    by (simp add: svc_pause_def svc_change_publication_def)
  then show ?thesis
    by (rule svc_transaction_effect [OF assms(1)]) (auto intro: on_workspace_moves [where ev = "WsPause tok"])
next
  case (UnpublishPersona io tok)
  with assms(2) have "svc_transaction cfg io (on_workspace (ws_unpublish (cfg_sha cfg) tok)) dir = (r, dir')"
    by (simp add: svc_unpublish_def svc_change_publication_def)
  then show ?thesis
    by (rule svc_transaction_effect [OF assms(1)]) (auto intro: on_workspace_moves [where ev = "WsUnpublish tok"])
next
  case (RecoverStore io)
  with assms show ?thesis by (auto intro: recover_effect)
next
  case (SavePersona io snap)
  with assms show ?thesis
    by (cases "cfg_store_path cfg")
      (auto simp: save_reviewed_persona_def intro: save_file_effect(1))
next
  case (LoadPersona io save_io)
  then obtain r' where load: "load_reviewed_persona cfg io save_io dir = (r', dir')"
    using assms(2) by (auto simp: drop_value_def split: prod.splits sum.splits)
  show ?thesis
  proof (cases "dir' = dir")
    case False
    with load obtain path snap r'' where "cfg_store_path cfg = Some path"
        "save_file cfg save_io path snap dir = (r'', dir')"
      by (auto simp: load_reviewed_persona_def load_file_def
          split: option.splits sum.splits if_splits prod.splits)
    then show ?thesis by (rule save_file_effect(1) [OF assms(1)])
  qed simp
qed

section \<open>The store as an authority\<close>

definition store_epoch :: "lab_config \<Rightarrow> directory \<Rightarrow> AuthorizationEpoch" where
  "store_epoch cfg dir =
     (case Option.bind (current_record cfg dir) workspace of
        None \<Rightarrow> AuthorizationEpoch 0
      | Some w \<Rightarrow> workspace_epoch w)"

definition store_accepts :: "lab_config \<Rightarrow> directory \<Rightarrow> VisitorPermit \<Rightarrow> bool" where
  "store_accepts cfg dir permit \<longleftrightarrow>
     (\<exists>io token now. svc_authorize_visitor cfg io token permit now dir = Ok ())"

lemma with_workspace_Ok_iff:
  "with_workspace cfg io f dir = Ok a \<longleftrightarrow>
     (\<exists>old w. required_persona cfg io dir = Ok old \<and> workspace old = Some w \<and>
        f w (dur_persona_id (persona_snapshot old)) (dur_persona_version (persona_snapshot old)) = Ok a)"
  by (auto simp: with_workspace_def split: sum.splits option.splits)

lemma svc_authorize_visitor_Ok_iff:
  "svc_authorize_visitor cfg io token permit now dir = Ok () \<longleftrightarrow>
     (\<exists>old w. current_record cfg dir = Some old \<and> read_ok io \<and> workspace old = Some w \<and>
        ws_authorize_visitor (cfg_sha cfg) w token permit (dur_persona_id (persona_snapshot old))
          (dur_persona_version (persona_snapshot old)) now = Ok ())"
  unfolding svc_authorize_visitor_def with_workspace_Ok_iff required_persona_Ok_iff by blast

lemma store_acceptsD:
  assumes "store_accepts cfg dir permit"
  obtains old w where "current_record cfg dir = Some old" "workspace old = Some w"
    "workspace_accepts (cfg_sha cfg) w permit"
proof -
  from assms obtain io token now old w where "current_record cfg dir = Some old" "workspace old = Some w"
      "ws_authorize_visitor (cfg_sha cfg) w token permit (dur_persona_id (persona_snapshot old))
          (dur_persona_version (persona_snapshot old)) now = Ok ()"
    by (auto simp: store_accepts_def svc_authorize_visitor_Ok_iff)
  then show thesis by (intro that [of old w]) (auto simp: workspace_accepts_def)
qed

lemma record_moves_epoch:
  assumes "record_moves sha old new" "workspace old = Some w"
  obtains w' where "workspace new = Some w'" "workspace_epoch w \<le> workspace_epoch w'"
proof -
  from assms obtain w' where w': "workspace new = Some w'" "w' = w \<or> (\<exists>ev. workspace_step sha ev w = (Ok (), w'))"
    by (auto simp: record_moves_def)
  then have "workspace_epoch w \<le> workspace_epoch w'"
    using workspace_step_epoch(1) by auto
  with w'(1) show thesis by (rule that)
qed

lemma epoch_zero_le [simp]: "AuthorizationEpoch 0 \<le> e"
  by (cases e) (simp add: less_eq_AuthorizationEpoch_def)

lemma store_effect_epoch: "store_effect cfg dir dir' \<Longrightarrow> store_epoch cfg dir \<le> store_epoch cfg dir'"
proof (cases "Option.bind (current_record cfg dir) workspace")
  case (Some w)
  then obtain old where old: "current_record cfg dir = Some old" "workspace old = Some w"
    by (auto simp: bind_eq_Some_conv)
  assume "store_effect cfg dir dir'"
  then consider "store_file cfg dir' = store_file cfg dir"
    | new where "current_record cfg dir' = Some new" "record_moves (cfg_sha cfg) old new"
    using old(1) by (auto simp: store_effect_def)
  then show ?thesis
  proof cases
    case 1
    then show ?thesis using same_file_same_record [OF 1] by (simp add: store_epoch_def)
  next
    case (2 new)
    then show ?thesis using old by (auto simp: store_epoch_def elim: record_moves_epoch)
  qed
qed (simp add: store_epoch_def)

lemma store_lease_epochs:
  assumes "cfg_ok cfg"
  shows "lease_epochs (store_epoch cfg) (store_step cfg) (\<lambda>permit. snapshot_epoch (permit_snapshot permit))
    (store_accepts cfg)"
proof unfold_locales
  fix dir permit assume "store_accepts cfg dir permit"
  then show "snapshot_epoch (permit_snapshot permit) = store_epoch cfg dir"
    by (rule store_acceptsD) (simp add: store_epoch_def workspace.accepts_epoch)
next
  fix dir ev
  show "store_epoch cfg dir \<le> store_epoch cfg (snd (store_step cfg ev dir))"
    using store_step_effect [OF assms, of ev dir] by (metis prod.collapse store_effect_epoch)
qed

text \<open>
  The events that end the visitors' authority when they succeed: every owner operation, the
  recovery at process start, and saving a Persona of a later version.
\<close>

fun ends_visitor_authority :: "lab_config \<Rightarrow> directory \<Rightarrow> store_event \<Rightarrow> bool" where
  "ends_visitor_authority cfg dir (SavePersona io snap) \<longleftrightarrow>
     is_some_and (\<lambda>old. dur_persona_version (persona_snapshot old) < dur_persona_version snap)
       (current_record cfg dir)"
| "ends_visitor_authority cfg dir (LoadPersona io save_io) \<longleftrightarrow> False"
| "ends_visitor_authority cfg dir ev \<longleftrightarrow> True"

lemma svc_transaction_Ok:
  assumes "cfg_ok cfg" "svc_transaction cfg io change dir = (Ok a, dir')"
  obtains old new where "current_record cfg dir = Some old" "change old = Ok (a, new)"
    "current_record cfg dir' = Some new"
proof -
  obtain old new where parts: "required_persona cfg io dir = Ok old" "change old = Ok (a, new)"
      "commit_current_record cfg io new dir = (Ok (), dir')"
    using assms(2) by (auto simp: svc_transaction_def split: sum.splits prod.splits)
  then show thesis
    using commit_current_record_store [OF assms(1) parts(3)]
    by (intro that [of old new]) (auto simp: required_persona_Ok_iff)
qed

lemma on_workspace_Ok:
  assumes "on_workspace operation old = Ok (a, new)"
  obtains w w' where "workspace old = Some w" "operation w = (Ok a, w')" "workspace new = Some w'"
  using assms by (auto simp: on_workspace_def split: option.splits sum.splits prod.splits)

lemma ends_visitor_step:
  assumes ok: "cfg_ok cfg" and step: "store_step cfg ev dir = (Ok (), dir')"
    and ends: "ends_visitor_authority cfg dir ev"
    and old: "current_record cfg dir = Some old" "workspace old = Some w"
  obtains new ev' w' where "current_record cfg dir' = Some new" "workspace new = Some w'"
    "workspace_step (cfg_sha cfg) ev' w = (Ok (), w')"
proof (cases ev)
  case (ProvisionOwner io fi ft)
  then obtain a where "svc_transaction cfg io (provision_record (cfg_sha cfg) fi ft) dir = (Ok a, dir')"
    using step by (auto simp: drop_value_Ok_iff svc_provision_owner_def)
  then show thesis
    by (rule svc_transaction_Ok [OF ok]) (use old in \<open>simp add: provision_record_def\<close>)
next
  case (PublishPersona io fi ft tok v ready)
  then obtain a where "svc_transaction cfg io (publish_record (cfg_sha cfg) fi ft tok v ready) dir = (Ok a, dir')"
    using step by (auto simp: drop_value_Ok_iff svc_publish_def)
  then obtain new where new: "publish_record (cfg_sha cfg) fi ft tok v ready old = Ok (a, new)"
      "current_record cfg dir' = Some new"
    by (rule svc_transaction_Ok [OF ok]) (use old in simp)
  then obtain w' where "workspace new = Some w'"
      "ws_publish (cfg_sha cfg) fi ft tok (dur_persona_id (persona_snapshot old)) v ready w = (Ok a, w')"
    using old(2) by (auto simp: publish_record_def split: if_splits elim: on_workspace_Ok)
  then show thesis
    using new by (intro that [of new w' "WsPublish fi ft tok (dur_persona_id (persona_snapshot old)) v ready"])
      (simp_all add: drop_value_def)
next
  case (PausePersona io tok)
  with step have "svc_transaction cfg io (on_workspace (ws_pause (cfg_sha cfg) tok)) dir = (Ok (), dir')"
    by (simp add: svc_pause_def svc_change_publication_def)
  then obtain new where new: "on_workspace (ws_pause (cfg_sha cfg) tok) old = Ok ((), new)"
      "current_record cfg dir' = Some new"
    by (rule svc_transaction_Ok [OF ok]) (use old in simp)
  then show thesis
    using old(2) that [of new _ "WsPause tok"] by (auto elim: on_workspace_Ok)
next
  case (UnpublishPersona io tok)
  with step have "svc_transaction cfg io (on_workspace (ws_unpublish (cfg_sha cfg) tok)) dir = (Ok (), dir')"
    by (simp add: svc_unpublish_def svc_change_publication_def)
  then obtain new where new: "on_workspace (ws_unpublish (cfg_sha cfg) tok) old = Ok ((), new)"
      "current_record cfg dir' = Some new"
    by (rule svc_transaction_Ok [OF ok]) (use old in simp)
  then show thesis
    using old(2) that [of new _ "WsUnpublish tok"] by (auto elim: on_workspace_Ok)
next
  case (RecoverStore io)
  have "load_current_record cfg io dir = Ok (Some old)"
    using step RecoverStore old load_current_record_Some [of cfg io dir old]
    by (cases "dir (the (cfg_store_path cfg))")
      (auto simp: svc_recover_before_listener_def load_current_record_def current_record_def store_file_def
        read_raw_def split: option.splits sum.splits if_splits)
  with step RecoverStore old obtain w' where w': "ws_invalidate_restart_leases w = (Ok (), w')"
      "commit_current_record cfg io (old\<lparr>workspace := Some w'\<rparr>) dir = (Ok (), dir')"
    by (auto simp: svc_recover_before_listener_def split: sum.splits prod.splits)
  then show thesis
    using commit_current_record_store [OF ok w'(2)]
    by (intro that [of "old\<lparr>workspace := Some w'\<rparr>" w' WsRestart]) auto
next
  case (SavePersona io snap)
  then obtain path where "cfg_store_path cfg = Some path" "save_file cfg io path snap dir = (Ok (), dir')"
    using step by (auto simp: save_reviewed_persona_def split: option.splits)
  from save_file_effect(2) [OF ok this] obtain new where new: "current_record cfg dir' = Some new"
      "persona_snapshot new = snap" "record_moves (cfg_sha cfg) old new"
    using old(1) by auto
  then show thesis
    using that ends old SavePersona by (auto simp: record_moves_def)
next
  case (LoadPersona io save_io)
  then show thesis using ends by simp
qed

definition record_advances :: "PersistedPersonaV2 \<Rightarrow> PersistedPersonaV2 \<Rightarrow> bool" where
  "record_advances old new \<longleftrightarrow>
     dur_persona_id (persona_snapshot new) = dur_persona_id (persona_snapshot old) \<and>
     dur_persona_version (persona_snapshot old) \<le> dur_persona_version (persona_snapshot new) \<and>
     (\<forall>w. workspace old = Some w \<longrightarrow>
        (\<exists>w'. workspace new = Some w' \<and> workspace_epoch w \<le> workspace_epoch w'))"

lemma record_advances_refl: "record_advances r r"
  by (simp add: record_advances_def)

lemma record_advances_trans: "record_advances a b \<Longrightarrow> record_advances b c \<Longrightarrow> record_advances a c"
  by (fastforce simp: record_advances_def)

lemma record_moves_advances: "record_moves sha old new \<Longrightarrow> record_advances old new"
  unfolding record_advances_def by (metis record_moves_def record_moves_epoch)

lemma permit_stale_forever:
  assumes "cfg_ok cfg" and "store_accepts cfg dir permit"
    and "store_step cfg ev dir = (Ok (), dir')" and "ends_visitor_authority cfg dir ev"
  shows "\<not> store_accepts cfg (final (store_step cfg) evs dir') permit"
proof -
  from assms(2) obtain old w where old: "current_record cfg dir = Some old" "workspace old = Some w"
      "workspace_accepts (cfg_sha cfg) w permit"
    by (rule store_acceptsD)
  obtain new ev' w' where new: "current_record cfg dir' = Some new" "workspace new = Some w'"
      "workspace_step (cfg_sha cfg) ev' w = (Ok (), w')"
    by (rule ends_visitor_step [OF assms(1,3,4) old(1,2)])
  have "workspace_epoch w < workspace_epoch w'" using workspace.step_moves [OF old(3) new(3)] .
  then have "snapshot_epoch (permit_snapshot permit) < store_epoch cfg dir'"
    using new(1,2) workspace.accepts_epoch [OF old(3)] by (simp add: store_epoch_def)
  then show ?thesis by (rule lease_epochs.stale_forever [OF store_lease_epochs [OF assms(1)]])
qed

section \<open>Properties\<close>

subsection \<open>A concrete store\<close>

text \<open>A codec that knows the records of a list by their position, and a lab that uses it.\<close>

definition list_lookup :: "PersistedPersonaV2 list \<Rightarrow> rust_string \<Rightarrow> PersistedPersonaV2 option" where
  "list_lookup rs raw = (case raw of [i] \<Rightarrow> if i < length rs then Some (rs ! i) else None | _ \<Rightarrow> None)"

definition list_codec :: "PersistedPersonaV2 list \<Rightarrow> persona_codec" where
  "list_codec rs = \<lparr>schema_probe = (\<lambda>raw. map_option schema_version (list_lookup rs raw)),
     decode_v1 = (\<lambda>_. None), decode_v2 = list_lookup rs,
     encode_v2 = (\<lambda>r. map_option (\<lambda>i. [i]) (position (\<lambda>x. x = r) rs))\<rparr>"

lemma list_codec_ok: "codec_ok (list_codec rs)"
  by (auto simp: codec_ok_def list_codec_def list_lookup_def find_Some_iff dest!: position_SomeD)

definition sample_io :: store_io where
  "sample_io = \<lparr>read_ok = True, mkdir_ok = True, temp_entropy = (\<lambda>_. Some (\<lambda>_. 5)), open_ok = (\<lambda>_. True),
     write_fault = None, sync_ok = True, rename_ok = True, dir_sync_ok = True, remove_ok = True\<rparr>"

definition sample_corrected_context :: ReviewedOwnerContext where
  "sample_corrected_context = snd (correct_claim_with_persistence sample_id (lit ''I prefer short answers'')
     Preference (\<lambda>_. Ok ()) sample_context)"

definition sample_published_workspace :: OwnerWorkspaceRecord where
  "sample_published_workspace = snd (ws_publish sample_sha sample_fill sample_fill sample_owner_token
     (lit ''ada'') 2 True sample_workspace)"

definition sample_visitor_token :: rust_string where
  "sample_visitor_token = hex_encode (map (\<lambda>i. of_nat i + 1) [0..<32])"

definition sample_record_with :: "ReviewedOwnerContext \<Rightarrow> OwnerWorkspaceRecord \<Rightarrow> PersistedPersonaV2" where
  "sample_record_with c w = \<lparr>schema_version = STORE_SCHEMA_V2, persona_snapshot = ctx_durable_snapshot c,
     workspace = Some w\<rparr>"

definition sample_paused_workspace :: OwnerWorkspaceRecord where
  "sample_paused_workspace = snd (ws_pause sample_sha sample_owner_token sample_published_workspace)"

definition sample_records :: "PersistedPersonaV2 list" where
  "sample_records =
     [sample_record_with sample_context sample_workspace,
      sample_record_with sample_context sample_published_workspace,
      sample_record_with sample_context sample_paused_workspace,
      sample_record_with sample_corrected_context sample_workspace]"

definition sample_cfg :: lab_config where
  "sample_cfg = \<lparr>cfg_sha = sample_sha, cfg_codec = list_codec sample_records,
     cfg_store_path = Some (lit ''persona.json'')\<rparr>"

lemma sample_cfg_sha: "cfg_sha sample_cfg = sample_sha"
  by (simp add: sample_cfg_def)

lemma persona_json_not_temp: "lit ''persona.json'' \<noteq> temp_name bs"
  by (simp add: temp_name_def lit_def)

lemma sample_cfg_ok: "cfg_ok sample_cfg"
  by (simp add: cfg_ok_def sample_cfg_def list_codec_ok persona_json_not_temp)

definition sample_dir :: "nat \<Rightarrow> directory" where
  "sample_dir i = (\<lambda>_. None)(lit ''persona.json'' \<mapsto> [i])"

definition sample_visitor_permit :: VisitorPermit where
  "sample_visitor_permit =
     (case ws_visitor_permit sample_sha sample_published_workspace sample_visitor_token of
        Ok permit \<Rightarrow> permit | Err _ \<Rightarrow> sample_permit)"

lemma sample_published:
  "ws_publish sample_sha sample_fill sample_fill sample_owner_token (lit ''ada'') 2 True sample_workspace =
     (Ok sample_visitor_token, sample_published_workspace)"
proof -
  have "fst (ws_publish sample_sha sample_fill sample_fill sample_owner_token (lit ''ada'') 2 True sample_workspace)
      = Ok sample_visitor_token"
    by code_simp
  then show ?thesis unfolding sample_published_workspace_def by (metis prod.collapse)
qed

lemma sample_paused: "ws_pause sample_sha sample_owner_token sample_published_workspace = (Ok (), sample_paused_workspace)"
proof -
  have "fst (ws_pause sample_sha sample_owner_token sample_published_workspace) = Ok ()" by code_simp
  then show ?thesis unfolding sample_paused_workspace_def by (metis prod.collapse)
qed

lemma sample_visitor_authorized:
  "ws_authorize_visitor sample_sha sample_published_workspace sample_visitor_token sample_visitor_permit
     (lit ''ada'') 2 5 = Ok ()"
  by code_simp

lemma sample_workspace_valid:
  "ws_validate sample_workspace pid v = Ok ()"
  "ws_validate sample_published_workspace (lit ''ada'') 2 = Ok ()"
  "ws_validate sample_paused_workspace (lit ''ada'') 2 = Ok ()"
proof -
  show v0: "ws_validate sample_workspace pid v = Ok ()" for pid v
    using sample_workspace_provisioned by (rule provision_Ok)
  show v1: "ws_validate sample_published_workspace (lit ''ada'') 2 = Ok ()"
    using workspace_step_valid [OF v0, of "lit ''ada''" 2
        "WsPublish sample_fill sample_fill sample_owner_token (lit ''ada'') 2 True" sample_sha]
    by (simp add: drop_value_def sample_published)
  show "ws_validate sample_paused_workspace (lit ''ada'') 2 = Ok ()"
    using workspace_step_valid [OF v1, of "WsPause sample_owner_token" sample_sha] by (simp add: sample_paused)
qed

lemma sample_context_persona:
  "dur_persona_id (ctx_durable_snapshot sample_context) = lit ''ada''"
  "dur_persona_version (ctx_durable_snapshot sample_context) = 2"
  "dur_persona_id (ctx_durable_snapshot sample_corrected_context) = lit ''ada''"
  "dur_persona_version (ctx_durable_snapshot sample_corrected_context) = 3"
  by code_simp+

lemma sample_records_valid: "r \<in> set sample_records \<Longrightarrow> is_ok (PersistedPersonaV2_validate r)"
  by (auto simp: sample_records_def sample_record_with_def validate_Ok_iff_V2 sample_workspace_valid
      sample_context_persona)

lemma sample_current: "i < length sample_records \<Longrightarrow> current_record sample_cfg (sample_dir i) = Some (sample_records ! i)"
  using sample_records_valid
  by (auto simp: current_record_def store_file_def sample_cfg_def sample_dir_def list_codec_def list_lookup_def)

lemma sample_commit_raw:
  assumes "dir (temp_name (replicate 16 5)) = None"
  shows "commit_raw sample_io path raw dir = (Ok (), dir(path \<mapsto> raw))"
proof -
  define temp where "temp = temp_name (replicate 16 5)"
  have stage: "stage_loop sample_io dir 0 16 = Ok (Some temp)"
    using assms by (simp add: eval_nat_numeral sample_io_def temp_def)
  have "dir(temp := None) = dir" using assms by (simp add: fun_upd_idem temp_def)
  then show ?thesis
    using stage by (simp add: commit_raw_def write_and_rename_def sample_io_def)
qed

lemma list_codec_encodes: "r \<in> set rs \<Longrightarrow> \<exists>i. encode_v2 (list_codec rs) r = Some [i] \<and> i < length rs \<and> rs ! i = r"
  by (induction rs) (auto simp: list_codec_def)

lemma sample_commit:
  assumes "r \<in> set sample_records" "dir (temp_name (replicate 16 5)) = None"
  obtains i where "i < length sample_records" "sample_records ! i = r"
    "encode_v2 (list_codec sample_records) r = Some [i]"
    "commit_current_record sample_cfg sample_io r dir = (Ok (), dir(lit ''persona.json'' \<mapsto> [i]))"
proof -
  obtain i where i: "encode_v2 (list_codec sample_records) r = Some [i]" "i < length sample_records"
      "sample_records ! i = r"
    using list_codec_encodes [OF assms(1)] by blast
  obtain snap where "PersistedPersonaV2_validate r = Ok snap"
    using sample_records_valid [OF assms(1)] by (auto simp: is_ok_iff)
  then show thesis
    using i sample_commit_raw [of dir] assms(2)
    by (intro that [of i]) (simp_all add: commit_current_record_def sample_cfg_def)
qed

lemma sample_dir_fresh: "sample_dir i (temp_name bs) = None"
  using persona_json_not_temp [of bs] by (auto simp: sample_dir_def)

lemma sample_save:
  obtains i where "i < length sample_records"
    "sample_records ! i = sample_record_with sample_corrected_context sample_workspace"
    "save_reviewed_persona sample_cfg sample_io (ctx_durable_snapshot sample_corrected_context) (sample_dir 0) =
      (Ok (), (sample_dir 0)(lit ''persona.json'' \<mapsto> [i]))"
proof -
  let ?r = "sample_record_with sample_corrected_context sample_workspace"
  obtain i where i: "i < length sample_records" "sample_records ! i = ?r"
      "encode_v2 (list_codec sample_records) ?r = Some [i]"
    using list_codec_encodes [of ?r sample_records] by (auto simp: sample_records_def)
  have old: "list_lookup sample_records [0] = Some (sample_record_with sample_context sample_workspace)"
    by (simp add: list_lookup_def sample_records_def)
  have valid: "is_ok (PersistedPersonaV2_validate (sample_record_with sample_context sample_workspace))"
    "is_ok (PersistedPersonaV2_validate ?r)"
    using sample_records_valid by (simp_all add: sample_records_def)
  have pub: "on_persona_correction 3 sample_workspace = (Ok (), sample_workspace)"
    by (simp add: on_persona_correction_def sample_workspace_def)
  have "reconciled (list_codec sample_records) (ctx_durable_snapshot sample_corrected_context) (Some [0]) = Ok ?r"
    using valid
    by (auto simp: reconciled_def list_codec_def old sample_record_with_def PersistedPersonaV2_new_def
        sample_context_persona pub is_ok_iff STORE_SCHEMA_V2_def)
  then have "save_reviewed_persona sample_cfg sample_io (ctx_durable_snapshot sample_corrected_context) (sample_dir 0) =
      (Ok (), (sample_dir 0)(lit ''persona.json'' \<mapsto> [i]))"
    using i(3) sample_commit_raw [of "sample_dir 0", OF sample_dir_fresh]
    by (simp add: save_reviewed_persona_def sample_cfg_def save_file_def read_raw_def sample_dir_def sample_io_def)
  then show thesis using i(1,2) that by blast
qed

lemma sample_authorized:
  "svc_authorize_visitor sample_cfg sample_io sample_visitor_token sample_visitor_permit 5 (sample_dir 1) = Ok ()"
  using sample_current [of 1] sample_visitor_authorized
  by (simp add: svc_authorize_visitor_Ok_iff sample_records_def sample_record_with_def sample_context_persona
      sample_io_def sample_cfg_sha)

lemma sample_store_accepts: "store_accepts sample_cfg (sample_dir 1) sample_visitor_permit"
  unfolding store_accepts_def using sample_authorized by blast

lemma sample_pause_step:
  "store_step sample_cfg (PausePersona sample_io sample_owner_token) (sample_dir 1) =
     (Ok (), snd (store_step sample_cfg (PausePersona sample_io sample_owner_token) (sample_dir 1)))"
proof -
  let ?r = "sample_record_with sample_context sample_published_workspace"
  have "required_persona sample_cfg sample_io (sample_dir 1) = Ok ?r"
    using sample_current [of 1] by (simp add: required_persona_Ok_iff sample_io_def sample_records_def)
  moreover obtain dir' where "commit_current_record sample_cfg sample_io
      (sample_record_with sample_context sample_paused_workspace) (sample_dir 1) = (Ok (), dir')"
    by (rule sample_commit [of "sample_record_with sample_context sample_paused_workspace" "sample_dir 1",
          OF _ sample_dir_fresh]) (simp_all add: sample_records_def)
  ultimately have "fst (store_step sample_cfg (PausePersona sample_io sample_owner_token) (sample_dir 1)) = Ok ()"
    using sample_paused
    by (simp add: svc_pause_def svc_change_publication_def svc_transaction_def on_workspace_def sample_cfg_sha
        sample_record_with_def)
  then show ?thesis by (metis prod.collapse)
qed

text \<open>C5. Visitor authority dies on disk and stays dead: once a permit has been accepted, the first
  successful publication, pause, unpublication, restart recovery or correction of the Persona ends
  it, and no later sequence of operations, each running to its end before the next begins, makes the
  durable state accept it again, whatever the file system answers to any of the calls and whatever
  token and time are presented with the permit.\<close>

theorem visitor_authority_dies_on_disk:
  assumes "cfg_ok cfg" and "store_accepts cfg dir permit"
    and "store_step cfg ev dir = (Ok (), dir')" and "ends_visitor_authority cfg dir ev"
  shows "svc_authorize_visitor cfg io token permit now (final (store_step cfg) evs dir') \<noteq> Ok ()"
  using permit_stale_forever [OF assms, of evs] unfolding store_accepts_def by blast

theorem visitor_authority_dies_on_disk_witness:
  "svc_authorize_visitor sample_cfg sample_io sample_visitor_token sample_visitor_permit 7
     (final (store_step sample_cfg) [LoadPersona sample_io sample_io]
       (snd (store_step sample_cfg (PausePersona sample_io sample_owner_token) (sample_dir 1)))) \<noteq> Ok ()"
  by (rule visitor_authority_dies_on_disk [OF sample_cfg_ok sample_store_accepts sample_pause_step]) simp

text \<open>C15. The store file is never torn: whatever step of writing, flushing, renaming or cleaning up
  fails, the file holds its old content or exactly the new one, a success means the new one, no
  other file changes, and the only thing a failure can leave is a fresh temporary file that could
  not be removed.\<close>

theorem commit_never_tears_file:
  assumes "\<And>bs. path \<noteq> temp_name bs" and "commit_raw io path raw dir = (r, dir')"
  shows "dir' path \<in> {dir path, Some raw} \<and> (r = Ok () \<longrightarrow> dir' = dir(path \<mapsto> raw)) \<and>
    (\<forall>name. name \<noteq> path \<and> dir' name \<noteq> dir name \<longrightarrow>
       dir name = None \<and> (\<exists>bs. name = temp_name bs) \<and> r \<noteq> Ok () \<and> \<not> remove_ok io)"
  using assms(1) by (cases rule: commit_raw_cases [OF assms(2,1)]) auto

theorem commit_never_tears_file_witness:
  "snd (commit_raw (sample_io\<lparr>rename_ok := False\<rparr>) (lit ''persona.json'') [9] (sample_dir 0)) (lit ''persona.json'')
     \<in> {sample_dir 0 (lit ''persona.json''), Some [9]}"
proof -
  let ?op = "commit_raw (sample_io\<lparr>rename_ok := False\<rparr>) (lit ''persona.json'') [9] (sample_dir 0)"
  have "?op = (fst ?op, snd ?op)" by simp
  from commit_never_tears_file [OF persona_json_not_temp this] show ?thesis by blast
qed

text \<open>C12. A correction that is saved while a publication is between its read and its commit is lost:
  saving does not take the lock of the workspace service, so the publication then commits the record
  it has read before, the corrected Persona disappears from disk, and the visitor token opens the
  superseded version.\<close>

theorem unlocked_save_is_lost:
  assumes "cfg_ok cfg" and "required_persona cfg io dir = Ok old"
    and "publish_record (cfg_sha cfg) fill_id fill_token owner_token version ready old = Ok (token, new)"
    and "save_reviewed_persona cfg io' snap dir = (Ok (), dir1)"
    and "dur_persona_version (persona_snapshot old) < dur_persona_version snap"
    and "commit_current_record cfg io'' new dir1 = (Ok (), dir2)"
  shows "(\<exists>corrected. current_record cfg dir1 = Some corrected \<and> persona_snapshot corrected = snap) \<and>
    current_record cfg dir2 = Some new \<and>
    dur_persona_version (persona_snapshot new) < dur_persona_version snap \<and>
    (\<exists>permit. svc_visitor_permit cfg io token dir2 = Ok permit)"
proof -
  obtain path where "cfg_store_path cfg = Some path" "save_file cfg io' path snap dir = (Ok (), dir1)"
    using assms(4) by (auto simp: save_reviewed_persona_def split: option.splits)
  from save_file_effect(2) [OF assms(1) this]
  have saved: "\<exists>corrected. current_record cfg dir1 = Some corrected \<and> persona_snapshot corrected = snap" by auto
  have cur: "current_record cfg dir2 = Some new"
    using commit_current_record_store [OF assms(1,6)] by simp
  have old: "current_record cfg dir = Some old" "read_ok io"
    using assms(2) by (simp_all add: required_persona_Ok_iff)
  obtain w w' where w: "workspace old = Some w" "workspace new = Some w'" "persona_snapshot new = persona_snapshot old"
      "dur_persona_version (persona_snapshot old) = version"
      "ws_publish (cfg_sha cfg) fill_id fill_token owner_token (dur_persona_id (persona_snapshot old)) version ready w
        = (Ok token, w')"
    using assms(3) by (auto simp: publish_record_def on_workspace_def
        split: if_splits option.splits sum.splits prod.splits)
  have "ws_validate w (dur_persona_id (persona_snapshot old)) version = Ok ()"
    using old(1) w(1,4) by (auto elim: current_record_SomeD simp: validate_Ok_iff_V2)
  then obtain p where p: "publication_inv p" "ws_publication w' = Some (durable_snapshot p)" "status p = Published"
      "visitor_token_sha256 w' = Some (hash_secret (cfg_sha cfg) token)" "utf8_len token = 64"
    using w(5) by (rule ws_publish_Ok)
  have "\<exists>permit. ws_visitor_permit (cfg_sha cfg) w' token = Ok permit"
    using p by (simp add: ws_visitor_permit_def token_matches_iff durable_roundtrip visitor_lease_def)
  then have "\<exists>permit. svc_visitor_permit cfg io token dir2 = Ok permit"
    using cur old(2) w(2) by (auto simp: svc_visitor_permit_def with_workspace_Ok_iff required_persona_Ok_iff)
  then show ?thesis using saved cur assms(5) w(3) by simp
qed

theorem unlocked_save_is_lost_witness:
  "\<exists>dir1 dir2 new permit.
     save_reviewed_persona sample_cfg sample_io (ctx_durable_snapshot sample_corrected_context) (sample_dir 0)
       = (Ok (), dir1) \<and>
     commit_current_record sample_cfg sample_io new dir1 = (Ok (), dir2) \<and>
     dur_persona_version (persona_snapshot new) < dur_persona_version (ctx_durable_snapshot sample_corrected_context) \<and>
     svc_visitor_permit sample_cfg sample_io sample_visitor_token dir2 = Ok permit"
proof -
  let ?old = "sample_record_with sample_context sample_workspace"
  let ?new = "sample_record_with sample_context sample_published_workspace"
  have r: "required_persona sample_cfg sample_io (sample_dir 0) = Ok ?old"
    using sample_current [of 0] by (simp add: required_persona_Ok_iff sample_io_def sample_records_def)
  have p: "publish_record (cfg_sha sample_cfg) sample_fill sample_fill sample_owner_token 2 True ?old
      = Ok (sample_visitor_token, ?new)"
    by (simp add: publish_record_def on_workspace_def sample_record_with_def sample_context_persona sample_cfg_def
        sample_published)
  obtain i where s: "save_reviewed_persona sample_cfg sample_io (ctx_durable_snapshot sample_corrected_context)
      (sample_dir 0) = (Ok (), (sample_dir 0)(lit ''persona.json'' \<mapsto> [i]))"
    by (rule sample_save)
  have v: "dur_persona_version (persona_snapshot ?old) < dur_persona_version (ctx_durable_snapshot sample_corrected_context)"
    by (simp add: sample_record_with_def sample_context_persona)
  have "?new \<in> set sample_records" by (simp add: sample_records_def)
  moreover have "((sample_dir 0)(lit ''persona.json'' \<mapsto> [i])) (temp_name (replicate 16 5)) = None"
    using persona_json_not_temp [of "replicate 16 5"] sample_dir_fresh by auto
  ultimately obtain dir2 where c: "commit_current_record sample_cfg sample_io ?new
      ((sample_dir 0)(lit ''persona.json'' \<mapsto> [i])) = (Ok (), dir2)"
    by (rule sample_commit)
  show ?thesis using unlocked_save_is_lost [OF sample_cfg_ok r p s v c] s c by blast
qed

end
