(* ===== verification/VPR_Store_Races.thy ===== *)
theory VPR_Store_Races
  imports VPR_Persona_Store
begin

text \<open>
  The Persona store under interleaving (\<^verbatim>\<open>crates/vpr-owner-lab/src/persona_persistence.rs\<close> and
  \<^verbatim>\<open>rt1_workspace_service.rs\<close>). Every writer of the store reads the file, computes a new record and
  commits it. The transactions of the workspace service hold one lock from the read to the commit, so
  at most one of them is in between; saving a reviewed Persona takes no lock, so any number of saves
  may be in between, and the file may change under them.

  A step of a schedule is one read with the computation of the new record, or one commit. The loading
  of a legacy file reads, decodes and then saves what it decoded, so that it is a save here. The
  process may stop at any moment; what its writers had computed is then lost.
\<close>

section \<open>Reading\<close>

text \<open>The part of a transaction of the service before the commit: the record it will commit, if it
  comes that far.\<close>

definition staged_change ::
  "lab_config \<Rightarrow> store_io \<Rightarrow> (PersistedPersonaV2 \<Rightarrow> rust_string + ('a \<times> PersistedPersonaV2))
     \<Rightarrow> directory \<Rightarrow> PersistedPersonaV2 option" where
  "staged_change cfg io change dir =
     (case required_persona cfg io dir of
        Err _ \<Rightarrow> None
      | Ok record \<Rightarrow> (case change record of Err _ \<Rightarrow> None | Ok (_, record') \<Rightarrow> Some record'))"

definition staged_recovery :: "lab_config \<Rightarrow> store_io \<Rightarrow> directory \<Rightarrow> PersistedPersonaV2 option" where
  "staged_recovery cfg io dir =
     (case load_current_record cfg io dir of
        Ok (Some record) \<Rightarrow>
          (case workspace record of
             None \<Rightarrow> None
           | Some w \<Rightarrow>
               (case ws_invalidate_restart_leases w of
                  (Err _, _) \<Rightarrow> None
                | (Ok _, w') \<Rightarrow> Some (record\<lparr>workspace := Some w'\<rparr>)))
      | _ \<Rightarrow> None)"

fun staged_service :: "lab_config \<Rightarrow> store_event \<Rightarrow> directory \<Rightarrow> PersistedPersonaV2 option" where
  "staged_service cfg (ProvisionOwner io fill_id fill_token) dir =
     staged_change cfg io (provision_record (cfg_sha cfg) fill_id fill_token) dir"
| "staged_service cfg (PublishPersona io fill_id fill_token owner_token version ready) dir =
     staged_change cfg io (publish_record (cfg_sha cfg) fill_id fill_token owner_token version ready) dir"
| "staged_service cfg (PausePersona io owner_token) dir =
     staged_change cfg io (on_workspace (ws_pause (cfg_sha cfg) owner_token)) dir"
| "staged_service cfg (UnpublishPersona io owner_token) dir =
     staged_change cfg io (on_workspace (ws_unpublish (cfg_sha cfg) owner_token)) dir"
| "staged_service cfg (RecoverStore io) dir = staged_recovery cfg io dir"
| "staged_service cfg _ dir = None"

definition staged_save ::
  "lab_config \<Rightarrow> store_io \<Rightarrow> DurableReviewedOwnerContextSnapshot \<Rightarrow> directory \<Rightarrow> PersistedPersonaV2 option" where
  "staged_save cfg io snap dir =
     (case cfg_store_path cfg of
        None \<Rightarrow> None
      | Some path \<Rightarrow>
     (case read_raw io path dir of
        Err _ \<Rightarrow> None
      | Ok previous \<Rightarrow>
          (case reconciled (cfg_codec cfg) snap previous of Err _ \<Rightarrow> None | Ok record \<Rightarrow> Some record)))"

section \<open>Committing\<close>

text \<open>A save encodes and commits the record that was validated when it was computed.\<close>

definition commit_save :: "lab_config \<Rightarrow> store_io \<Rightarrow> PersistedPersonaV2 \<Rightarrow> (directory, unit, rust_string) op" where
  "commit_save cfg io record dir =
     (case ok_or (encode_v2 (cfg_codec cfg) record) (lit ''reviewed Persona serialization failed'') of
        Err e \<Rightarrow> (Err e, dir)
      | Ok raw \<Rightarrow>
          (case cfg_store_path cfg of
             Some path \<Rightarrow> commit_raw io path raw dir
           | None \<Rightarrow> (Err store_unconfigured, dir)))"

section \<open>Schedules\<close>

text \<open>A writer between its read and its commit: the content of the file it has read and its new record.
  Whether a commit has ever replaced a content its writer had not read is remembered.\<close>

type_synonym writer = "rust_string option \<times> PersistedPersonaV2"

record race =
  race_dir :: directory
  service_writer :: "writer option"
  save_writers :: "writer list"
  unread_overwritten :: bool

datatype race_event =
    ServiceRead store_event
  | ServiceCommit store_io
  | SaveRead store_io DurableReviewedOwnerContextSnapshot
  | SaveCommit nat store_io
  | ProcessStopped

definition committed :: "lab_config \<Rightarrow> writer \<Rightarrow> directory \<Rightarrow> race \<Rightarrow> race" where
  "committed cfg wr dir' r =
     r\<lparr>race_dir := dir',
       unread_overwritten := unread_overwritten r \<or>
         store_file cfg dir' \<noteq> store_file cfg (race_dir r) \<and> fst wr \<noteq> store_file cfg (race_dir r)\<rparr>"

fun race_step :: "lab_config \<Rightarrow> race_event \<Rightarrow> race \<Rightarrow> race" where
  "race_step cfg (ServiceRead ev) r =
     (case service_writer r of
        Some _ \<Rightarrow> r
      | None \<Rightarrow> r\<lparr>service_writer :=
          map_option (Pair (store_file cfg (race_dir r))) (staged_service cfg ev (race_dir r))\<rparr>)"
| "race_step cfg (ServiceCommit io) r =
     (case service_writer r of
        None \<Rightarrow> r
      | Some wr \<Rightarrow> (committed cfg wr (snd (commit_current_record cfg io (snd wr) (race_dir r))) r)\<lparr>service_writer := None\<rparr>)"
| "race_step cfg (SaveRead io snap) r =
     (case staged_save cfg io snap (race_dir r) of
        None \<Rightarrow> r
      | Some record \<Rightarrow> r\<lparr>save_writers := (store_file cfg (race_dir r), record) # save_writers r\<rparr>)"
| "race_step cfg (SaveCommit k io) r =
     (if k < length (save_writers r)
      then (committed cfg (save_writers r ! k) (snd (commit_save cfg io (snd (save_writers r ! k)) (race_dir r))) r)
             \<lparr>save_writers := remove_nth k (save_writers r)\<rparr>
      else r)"
| "race_step cfg ProcessStopped r = r\<lparr>service_writer := None, save_writers := []\<rparr>"

abbreviation race_steps :: "lab_config \<Rightarrow> race_event list \<Rightarrow> race \<Rightarrow> race" where
  "race_steps cfg evs r \<equiv> fold (race_step cfg) evs r"

definition race_start :: "directory \<Rightarrow> race" where
  "race_start dir = \<lparr>race_dir = dir, service_writer = None, save_writers = [], unread_overwritten = False\<rparr>"

fun saves :: "race_event \<Rightarrow> bool" where
  "saves (SaveRead _ _) \<longleftrightarrow> True"
| "saves _ \<longleftrightarrow> False"

section \<open>A writer that is not interrupted\<close>

text \<open>A read followed at once by its commit is the operation as a whole.\<close>

lemma staged_transaction:
  "snd (svc_transaction cfg io change dir) =
     (case staged_change cfg io change dir of None \<Rightarrow> dir | Some new \<Rightarrow> snd (commit_current_record cfg io new dir))"
  by (auto simp: svc_transaction_def staged_change_def split: sum.splits prod.splits)

lemma staged_recovery_whole:
  "snd (svc_recover_before_listener cfg io dir) =
     (case staged_recovery cfg io dir of None \<Rightarrow> dir | Some new \<Rightarrow> snd (commit_current_record cfg io new dir))"
  by (auto simp: svc_recover_before_listener_def staged_recovery_def split: sum.splits prod.splits option.splits)

lemma staged_save_whole:
  "snd (save_reviewed_persona cfg io snap dir) =
     (case staged_save cfg io snap dir of None \<Rightarrow> dir | Some new \<Rightarrow> snd (commit_save cfg io new dir))"
  by (auto simp: save_reviewed_persona_def save_file_def staged_save_def commit_save_def split: sum.splits option.splits)

fun event_io :: "store_event \<Rightarrow> store_io" where
  "event_io (ProvisionOwner io _ _) = io"
| "event_io (PublishPersona io _ _ _ _ _) = io"
| "event_io (PausePersona io _) = io"
| "event_io (UnpublishPersona io _) = io"
| "event_io (RecoverStore io) = io"
| "event_io (SavePersona io _) = io"
| "event_io (LoadPersona io _) = io"

lemma snd_drop_value: "snd (drop_value f s) = snd (f s)"
  by (simp add: drop_value_def split: prod.splits sum.splits)

lemma service_step_whole:
  assumes "\<And>io snap. ev \<noteq> SavePersona io snap" "\<And>io io'. ev \<noteq> LoadPersona io io'"
  shows "snd (store_step cfg ev dir) =
     (case staged_service cfg ev dir of None \<Rightarrow> dir | Some new \<Rightarrow> snd (commit_current_record cfg (event_io ev) new dir))"
  using assms
  by (cases ev) (auto simp: snd_drop_value svc_provision_owner_def svc_publish_def svc_pause_def svc_unpublish_def
      svc_change_publication_def staged_transaction staged_recovery_whole cong: option.case_cong)

lemma uninterrupted_writer_is_store_step:
  shows "(\<And>io snap. ev \<noteq> SavePersona io snap) \<Longrightarrow> (\<And>io io'. ev \<noteq> LoadPersona io io') \<Longrightarrow>
      race_dir (race_steps cfg [ServiceRead ev, ServiceCommit (event_io ev)] (race_start dir)) = snd (store_step cfg ev dir)"
    and "race_dir (race_steps cfg [SaveRead io snap, SaveCommit 0 io] (race_start dir)) =
      snd (store_step cfg (SavePersona io snap) dir)"
  by (simp_all add: service_step_whole staged_save_whole race_start_def committed_def split: option.splits)

section \<open>Records that are computed from what was read\<close>

lemma staged_change_moves:
  assumes "staged_change cfg io change dir = Some new" "current_record cfg dir = Some old"
    and "\<And>a. change old = Ok (a, new) \<Longrightarrow> record_moves sha old new"
  shows "record_moves sha old new"
  using assms by (auto simp: staged_change_def required_persona_Ok_iff split: sum.splits prod.splits)

lemma staged_service_moves:
  assumes "staged_service cfg ev dir = Some new" and old: "current_record cfg dir = Some old"
  shows "record_moves (cfg_sha cfg) old new"
proof (cases ev)
  case (RecoverStore io)
  then obtain w w' where w: "workspace old = Some w" "ws_invalidate_restart_leases w = (Ok (), w')"
      "new = old\<lparr>workspace := Some w'\<rparr>"
    using assms by (auto simp: staged_recovery_def load_current_record_Some split: sum.splits prod.splits option.splits)
  show ?thesis by (rule record_movesI [OF w(1), of _ w' _ WsRestart]) (use w in simp_all)
next
  case (PausePersona io tok)
  then have staged: "staged_change cfg io (on_workspace (ws_pause (cfg_sha cfg) tok)) dir = Some new" using assms(1) by simp
  show ?thesis
    by (rule staged_change_moves [OF staged old]) (auto intro: on_workspace_moves [where ev = "WsPause tok"])
next
  case (UnpublishPersona io tok)
  then have staged: "staged_change cfg io (on_workspace (ws_unpublish (cfg_sha cfg) tok)) dir = Some new" using assms(1) by simp
  show ?thesis
    by (rule staged_change_moves [OF staged old]) (auto intro: on_workspace_moves [where ev = "WsUnpublish tok"])
qed (use assms in \<open>auto intro: staged_change_moves provision_record_moves publish_record_moves\<close>)

lemma staged_save_moves:
  assumes "cfg_ok cfg" "staged_save cfg io snap dir = Some new"
  shows "is_ok (PersistedPersonaV2_validate new)"
    and "current_record cfg dir = Some old \<Longrightarrow> record_moves (cfg_sha cfg) old new"
proof -
  obtain path previous where path: "cfg_store_path cfg = Some path" "read_raw io path dir = Ok previous"
      "reconciled (cfg_codec cfg) snap previous = Ok new"
    using assms(2) by (auto simp: staged_save_def split: option.splits sum.splits)
  show "is_ok (PersistedPersonaV2_validate new)" by (rule reconciled_valid [OF path(3)])
  assume "current_record cfg dir = Some old"
  then obtain raw where raw: "dir path = Some raw" "decode_v2 (cfg_codec cfg) raw = Some old"
      "is_ok (PersistedPersonaV2_validate old)"
    using path(1) by (auto elim: current_record_SomeD)
  then have "previous = Some raw" using path(2) by (auto simp: read_raw_def split: if_splits)
  then show "record_moves (cfg_sha cfg) old new" using reconciled_moves [OF assms(1) _ raw(2,3)] path(3) by simp
qed

text \<open>A commit puts the record of its writer on disk or leaves the file alone.\<close>

definition commits :: "lab_config \<Rightarrow> PersistedPersonaV2 \<Rightarrow> directory \<Rightarrow> directory \<Rightarrow> bool" where
  "commits cfg new dir dir' \<longleftrightarrow> current_record cfg dir' = Some new \<or> store_file cfg dir' = store_file cfg dir"

lemma commit_current_record_commits: "cfg_ok cfg \<Longrightarrow> commits cfg new dir (snd (commit_current_record cfg io new dir))"
  using commit_current_record_store [of cfg io new dir] unfolding commits_def by (metis prod.collapse)

lemma commit_save_commits:
  assumes "cfg_ok cfg" "is_ok (PersistedPersonaV2_validate new)"
  shows "commits cfg new dir (snd (commit_save cfg io new dir))"
proof -
  obtain r dir' where commit: "commit_save cfg io new dir = (r, dir')" by force
  then have "dir' = dir \<or> (\<exists>path raw. cfg_store_path cfg = Some path \<and> encode_v2 (cfg_codec cfg) new = Some raw \<and>
      commit_raw io path raw dir = (r, dir'))"
    by (cases "encode_v2 (cfg_codec cfg) new"; cases "cfg_store_path cfg") (auto simp: commit_save_def)
  then have "current_record cfg dir' = Some new \<or> store_file cfg dir' = store_file cfg dir"
    using commit_raw_store [OF assms(1) _ _ assms(2)] by blast
  then show ?thesis by (simp add: commits_def commit)
qed

section \<open>What every schedule keeps\<close>

definition writers :: "race \<Rightarrow> writer set" where
  "writers r = set_option (service_writer r) \<union> set (save_writers r)"

text \<open>A property of records that no change of a record loses holds on disk and of every writer.\<close>

definition stable :: "(PersistedPersonaV2 \<Rightarrow> bool) \<Rightarrow> bool" where
  "stable Q \<longleftrightarrow> (\<forall>a b. Q a \<longrightarrow> record_advances a b \<longrightarrow> Q b)"

lemma stableD: "stable Q \<Longrightarrow> Q a \<Longrightarrow> record_advances a b \<Longrightarrow> Q b"
  by (auto simp: stable_def)

definition kept :: "lab_config \<Rightarrow> (PersistedPersonaV2 \<Rightarrow> bool) \<Rightarrow> race \<Rightarrow> bool" where
  "kept cfg Q r \<longleftrightarrow>
     (\<exists>cur. current_record cfg (race_dir r) = Some cur \<and> Q cur) \<and> (\<forall>wr \<in> writers r. Q (snd wr)) \<and>
     (\<forall>wr \<in> set (save_writers r). is_ok (PersistedPersonaV2_validate (snd wr)))"

lemma race_dir_committed [simp]:
  "race_dir (committed cfg wr dir' r) = dir'" "save_writers (committed cfg wr dir' r) = save_writers r"
  "service_writer (committed cfg wr dir' r) = service_writer r"
  by (simp_all add: committed_def)

lemma committed_keeps:
  assumes "kept cfg Q r" "wr \<in> writers r" "commits cfg (snd wr) (race_dir r) dir'"
  shows "\<exists>cur. current_record cfg dir' = Some cur \<and> Q cur"
  using assms same_file_same_record [of cfg dir' "race_dir r"] by (auto simp: kept_def commits_def)

lemma race_step_keeps:
  assumes cfg: "cfg_ok cfg" and stable: "stable Q" and kept: "kept cfg Q r"
  shows "kept cfg Q (race_step cfg ev r)"
proof -
  obtain cur where cur: "current_record cfg (race_dir r) = Some cur" "Q cur" using kept by (auto simp: kept_def)
  note keep = committed_keeps [OF kept]
  show ?thesis
  proof (cases ev)
    case (ServiceRead sev)
    then show ?thesis
      using kept cur stableD [OF stable cur(2)] record_moves_advances [OF staged_service_moves [OF _ cur(1)], of sev]
      by (auto simp: kept_def writers_def split: option.splits)
  next
    case (ServiceCommit io)
    show ?thesis
    proof (cases "service_writer r")
      case (Some wr)
      then have "wr \<in> writers r" by (simp add: writers_def)
      from keep [OF this commit_current_record_commits [OF cfg, of _ _ io]] show ?thesis
        using kept Some ServiceCommit by (auto simp: kept_def writers_def)
    qed (use kept ServiceCommit in simp)
  next
    case (SaveRead io snap)
    then show ?thesis
      using kept cur stableD [OF stable cur(2)] staged_save_moves(1) [OF cfg, of io snap "race_dir r"]
        record_moves_advances [OF staged_save_moves(2) [OF cfg _ cur(1)], of io snap]
      by (auto simp: kept_def writers_def split: option.splits)
  next
    case (SaveCommit k io)
    show ?thesis
    proof (cases "k < length (save_writers r)")
      case True
      then have "save_writers r ! k \<in> writers r" "is_ok (PersistedPersonaV2_validate (snd (save_writers r ! k)))"
        using kept by (auto simp: writers_def kept_def)
      from keep [OF this(1) commit_save_commits [OF cfg this(2), of _ io]] show ?thesis
        using kept True SaveCommit set_remove_nth [of k "save_writers r"] by (auto simp: kept_def writers_def)
    qed (use kept SaveCommit in simp)
  next
    case ProcessStopped
    then show ?thesis using kept by (simp add: kept_def writers_def)
  qed
qed

lemma race_steps_keep:
  assumes "cfg_ok cfg" "stable Q"
  shows "kept cfg Q r \<Longrightarrow> kept cfg Q (race_steps cfg evs r)"
  by (induction evs arbitrary: r) (simp_all add: race_step_keeps [OF assms])

lemma race_start_kept: "current_record cfg dir = Some cur \<Longrightarrow> Q cur \<Longrightarrow> kept cfg Q (race_start dir)"
  by (simp add: kept_def race_start_def writers_def)

text \<open>The record each writer is about to commit follows the one it has read, and as long as no commit has
  replaced a content that its writer had not read, the record on disk follows the first one.\<close>

definition follows_read :: "lab_config \<Rightarrow> writer \<Rightarrow> bool" where
  "follows_read cfg wr \<longleftrightarrow>
     (\<forall>dir cur. store_file cfg dir = fst wr \<longrightarrow> current_record cfg dir = Some cur \<longrightarrow> record_advances cur (snd wr))"

definition follows :: "lab_config \<Rightarrow> PersistedPersonaV2 \<Rightarrow> race \<Rightarrow> bool" where
  "follows cfg old r \<longleftrightarrow>
     (\<forall>wr \<in> writers r. follows_read cfg wr) \<and>
     (unread_overwritten r \<or> (\<exists>cur. current_record cfg (race_dir r) = Some cur \<and> record_advances old cur))"

lemma follows_readI:
  assumes "\<And>cur. current_record cfg dir = Some cur \<Longrightarrow> record_moves (cfg_sha cfg) cur new"
  shows "follows_read cfg (store_file cfg dir, new)"
  unfolding follows_read_def
proof (intro allI impI)
  fix dir' cur
  assume "store_file cfg dir' = fst (store_file cfg dir, new)" "current_record cfg dir' = Some cur"
  then have "current_record cfg dir = Some cur" using same_file_same_record [of cfg dir' dir] by simp
  from record_moves_advances [OF assms [OF this]] show "record_advances cur (snd (store_file cfg dir, new))" by simp
qed

lemma committed_follows:
  assumes "follows cfg old r" "wr \<in> writers r" "commits cfg (snd wr) (race_dir r) dir'"
    "current_record cfg (race_dir r) = Some cur"
  shows "unread_overwritten (committed cfg wr dir' r) \<or> (\<exists>new. current_record cfg dir' = Some new \<and> record_advances old new)"
proof (cases "store_file cfg dir' = store_file cfg (race_dir r)")
  case True
  then show ?thesis
    using assms(1) same_file_same_record [OF True] by (auto simp: follows_def committed_def)
next
  case False
  then have new: "current_record cfg dir' = Some (snd wr)" using assms(3) by (simp add: commits_def)
  show ?thesis
  proof (cases "fst wr = store_file cfg (race_dir r)")
    case True
    then have "record_advances cur (snd wr)" using assms(1,2,4) by (auto simp: follows_def follows_read_def)
    then show ?thesis
      using assms(1,4) new record_advances_trans by (auto simp: follows_def committed_def)
  qed (use False in \<open>simp add: committed_def\<close>)
qed

lemma race_step_follows:
  assumes cfg: "cfg_ok cfg" and kept: "kept cfg Q r" and follows: "follows cfg old r"
  shows "follows cfg old (race_step cfg ev r)"
proof -
  obtain cur where cur: "current_record cfg (race_dir r) = Some cur" using kept by (auto simp: kept_def)
  show ?thesis
  proof (cases ev)
    case (ServiceRead sev)
    have "follows_read cfg (store_file cfg (race_dir r), new)" if "staged_service cfg sev (race_dir r) = Some new" for new
      by (rule follows_readI) (rule staged_service_moves [OF that])
    then show ?thesis using follows ServiceRead by (auto simp: follows_def writers_def split: option.splits)
  next
    case (ServiceCommit io)
    show ?thesis
    proof (cases "service_writer r")
      case (Some wr)
      then have "wr \<in> writers r" by (simp add: writers_def)
      from committed_follows [OF follows this commit_current_record_commits [OF cfg, of _ _ io] cur] show ?thesis
        using follows Some ServiceCommit by (auto simp: follows_def writers_def)
    qed (use follows ServiceCommit in simp)
  next
    case (SaveRead io snap)
    have "follows_read cfg (store_file cfg (race_dir r), new)" if "staged_save cfg io snap (race_dir r) = Some new" for new
      by (rule follows_readI) (rule staged_save_moves(2) [OF cfg that])
    then show ?thesis using follows SaveRead by (auto simp: follows_def writers_def split: option.splits)
  next
    case (SaveCommit k io)
    show ?thesis
    proof (cases "k < length (save_writers r)")
      case True
      then have "save_writers r ! k \<in> writers r" "is_ok (PersistedPersonaV2_validate (snd (save_writers r ! k)))"
        using kept by (auto simp: writers_def kept_def)
      from committed_follows [OF follows this(1) commit_save_commits [OF cfg this(2), of _ io] cur] show ?thesis
        using follows True SaveCommit set_remove_nth [of k "save_writers r"] by (auto simp: follows_def writers_def)
    qed (use follows SaveCommit in simp)
  next
    case ProcessStopped
    then show ?thesis using follows by (auto simp: follows_def writers_def)
  qed
qed

text \<open>The lock of the service alone: without saves, the file is what the one writer has read.\<close>

lemma service_alone:
  assumes "cfg_ok cfg" and "\<not> saves ev" and "save_writers r = []" "\<not> unread_overwritten r"
    and "\<forall>wr \<in> set_option (service_writer r). fst wr = store_file cfg (race_dir r)"
  shows "save_writers (race_step cfg ev r) = [] \<and> \<not> unread_overwritten (race_step cfg ev r) \<and>
    (\<forall>wr \<in> set_option (service_writer (race_step cfg ev r)). fst wr = store_file cfg (race_dir (race_step cfg ev r)))"
  using assms by (cases ev) (auto simp: committed_def split: option.splits)

section \<open>Properties\<close>

lemma race_start_follows: "current_record cfg dir = Some old \<Longrightarrow> follows cfg old (race_start dir)"
  by (simp add: follows_def race_start_def writers_def record_advances_refl)

lemma race_steps_follow:
  assumes "cfg_ok cfg" "stable Q"
  shows "kept cfg Q r \<Longrightarrow> follows cfg old r \<Longrightarrow> follows cfg old (race_steps cfg evs r)"
  by (induction evs arbitrary: r) (simp_all add: race_step_keeps [OF assms] race_step_follows [OF assms(1)])

lemma service_steps_alone:
  assumes "cfg_ok cfg"
  shows "\<forall>ev \<in> set evs. \<not> saves ev \<Longrightarrow> save_writers r = [] \<Longrightarrow> \<not> unread_overwritten r \<Longrightarrow>
    \<forall>wr \<in> set_option (service_writer r). fst wr = store_file cfg (race_dir r) \<Longrightarrow>
    \<not> unread_overwritten (race_steps cfg evs r)"
proof (induction evs arbitrary: r)
  case (Cons ev evs)
  then have "\<not> saves ev" by simp
  note step = service_alone [OF assms this Cons.prems(2-4)]
  show ?case using Cons.IH [of "race_step cfg ev r"] Cons.prems(1) step by simp
qed simp

text \<open>C6. The durable Persona under every schedule of reads and commits of all writers, with any failures of the
  file system and stops of the process in between: once the store holds a valid record, it always holds a
  valid record of the same Persona. The version and the publication epoch go back, or the owner workspace is
  lost, only after a commit has replaced a record that its writer had not read; and no such commit happens in
  a schedule without saves, because the service holds its lock from the read to the commit.\<close>

theorem durable_persona_never_goes_back:
  assumes "cfg_ok cfg" and "current_record cfg dir = Some old"
  shows "\<exists>new. current_record cfg (race_dir (race_steps cfg evs (race_start dir))) = Some new \<and>
    is_ok (PersistedPersonaV2_validate new) \<and>
    dur_persona_id (persona_snapshot new) = dur_persona_id (persona_snapshot old) \<and>
    (unread_overwritten (race_steps cfg evs (race_start dir)) \<or> record_advances old new) \<and>
    (unread_overwritten (race_steps cfg evs (race_start dir)) \<longrightarrow> (\<exists>ev \<in> set evs. saves ev))"
proof -
  let ?r = "race_steps cfg evs (race_start dir)"
  define Q where "Q x \<longleftrightarrow> dur_persona_id (persona_snapshot x) = dur_persona_id (persona_snapshot old)" for x :: PersistedPersonaV2
  have stable: "stable Q" by (simp add: stable_def Q_def record_advances_def)
  have start: "kept cfg Q (race_start dir)" by (rule race_start_kept [OF assms(2)]) (simp add: Q_def)
  obtain new where new: "current_record cfg (race_dir ?r) = Some new" "Q new"
    using race_steps_keep [OF assms(1) stable start, of evs] by (auto simp: kept_def)
  have "follows cfg old ?r"
    using race_steps_follow [OF assms(1) stable start race_start_follows [OF assms(2)]] .
  moreover have "\<not> unread_overwritten ?r" if "\<forall>ev \<in> set evs. \<not> saves ev"
    using service_steps_alone [OF assms(1) that, of "race_start dir"] by (simp add: race_start_def)
  ultimately show ?thesis using new by (auto simp: follows_def Q_def elim: current_record_SomeD)
qed

text \<open>A save of the Persona in the version that is published reads before a pause and commits after it: the pause was
  reported as done and is undone on disk.\<close>

definition undone_pause :: "race_event list" where
  "undone_pause =
     [SaveRead sample_io (ctx_durable_snapshot sample_context),
      ServiceRead (PausePersona sample_io sample_owner_token), ServiceCommit sample_io, SaveCommit 0 sample_io]"

lemma sample_staged_save:
  "staged_save sample_cfg sample_io (ctx_durable_snapshot sample_context) (sample_dir 1) =
     Some (sample_record_with sample_context sample_published_workspace)"
proof -
  let ?r = "sample_record_with sample_context sample_published_workspace"
  have "list_lookup sample_records [1] = Some ?r" by (simp add: list_lookup_def sample_records_def)
  moreover have "is_ok (PersistedPersonaV2_validate ?r)" using sample_records_valid by (simp add: sample_records_def)
  ultimately have "reconciled (list_codec sample_records) (ctx_durable_snapshot sample_context) (Some [1]) = Ok ?r"
    by (auto simp: reconciled_def list_codec_def sample_record_with_def PersistedPersonaV2_new_def
        sample_context_persona is_ok_iff STORE_SCHEMA_V2_def)
  then show ?thesis by (simp add: staged_save_def sample_cfg_def read_raw_def sample_dir_def sample_io_def)
qed

lemma sample_staged_pause:
  "staged_service sample_cfg (PausePersona sample_io sample_owner_token) (sample_dir 1) =
     Some (sample_record_with sample_context sample_paused_workspace)"
proof -
  have "required_persona sample_cfg sample_io (sample_dir 1) = Ok (sample_record_with sample_context sample_published_workspace)"
    using sample_current [of 1] by (simp add: required_persona_Ok_iff sample_io_def sample_records_def)
  then show ?thesis
    using sample_paused by (simp add: staged_change_def on_workspace_def sample_cfg_sha sample_record_with_def)
qed

lemma undone_pause_restores:
  "current_record sample_cfg (race_dir (race_steps sample_cfg undone_pause (race_start (sample_dir 1)))) =
     Some (sample_record_with sample_context sample_published_workspace)"
proof -
  let ?old = "sample_record_with sample_context sample_published_workspace"
  let ?paused = "sample_record_with sample_context sample_paused_workspace"
  obtain j where j: "commit_current_record sample_cfg sample_io ?paused (sample_dir 1) =
      (Ok (), (sample_dir 1)(lit ''persona.json'' \<mapsto> [j]))"
    by (rule sample_commit [of ?paused "sample_dir 1", OF _ sample_dir_fresh]) (simp_all add: sample_records_def)
  let ?dir = "(sample_dir 1)(lit ''persona.json'' \<mapsto> [j])"
  have fresh: "?dir (temp_name (replicate 16 5)) = None"
    using persona_json_not_temp [of "replicate 16 5"] sample_dir_fresh by auto
  obtain i where i: "i < length sample_records" "sample_records ! i = ?old" "encode_v2 (list_codec sample_records) ?old = Some [i]"
    using list_codec_encodes [of ?old sample_records] by (auto simp: sample_records_def)
  have "commit_save sample_cfg sample_io ?old ?dir = (Ok (), ?dir(lit ''persona.json'' \<mapsto> [i]))"
    using i(3) sample_commit_raw [of ?dir, OF fresh] by (simp add: commit_save_def sample_cfg_def)
  moreover have "?dir(lit ''persona.json'' \<mapsto> [i]) = sample_dir i"
    by (simp add: sample_dir_def)
  ultimately have "race_dir (race_steps sample_cfg undone_pause (race_start (sample_dir 1))) = sample_dir i"
    using j by (simp add: undone_pause_def race_start_def sample_staged_save sample_staged_pause committed_def
        del: staged_service.simps One_nat_def)
  then show ?thesis using sample_current [OF i(1)] i(2) by simp
qed

lemma save_undoes_pause:
  "fst (store_step sample_cfg (PausePersona sample_io sample_owner_token) (sample_dir 1)) = Ok () \<and>
   store_accepts sample_cfg (race_dir (race_steps sample_cfg undone_pause (race_start (sample_dir 1)))) sample_visitor_permit"
proof -
  let ?dir = "race_dir (race_steps sample_cfg undone_pause (race_start (sample_dir 1)))"
  have "svc_authorize_visitor sample_cfg sample_io sample_visitor_token sample_visitor_permit 5 ?dir = Ok ()"
    using undone_pause_restores sample_visitor_authorized
    by (simp add: svc_authorize_visitor_Ok_iff sample_record_with_def sample_context_persona sample_io_def sample_cfg_sha)
  then have "store_accepts sample_cfg ?dir sample_visitor_permit" unfolding store_accepts_def by blast
  then show ?thesis using sample_pause_step by (metis fst_conv)
qed

theorem durable_persona_never_goes_back_witness:
  "\<exists>new. current_record sample_cfg (race_dir (race_steps sample_cfg undone_pause (race_start (sample_dir 1)))) = Some new \<and>
     dur_persona_id (persona_snapshot new) =
       dur_persona_id (persona_snapshot (sample_record_with sample_context sample_published_workspace)) \<and>
     (unread_overwritten (race_steps sample_cfg undone_pause (race_start (sample_dir 1))) \<or>
        record_advances (sample_record_with sample_context sample_published_workspace) new)"
proof -
  have "current_record sample_cfg (sample_dir 1) = Some (sample_record_with sample_context sample_published_workspace)"
    using sample_current [of 1] by (simp add: sample_records_def)
  from durable_persona_never_goes_back [OF sample_cfg_ok this, of undone_pause] show ?thesis by blast
qed

text \<open>Visitor authority that was ended on disk while no writer was between its read and its commit stays ended
  under every later schedule: whatever is read and committed from then on has a later publication epoch.\<close>

lemma ended_authority_stays_ended:
  assumes "cfg_ok cfg" and "store_accepts cfg dir permit"
    and "store_step cfg ev dir = (Ok (), dir')" and "ends_visitor_authority cfg dir ev"
  shows "\<not> store_accepts cfg (race_dir (race_steps cfg evs (race_start dir'))) permit"
proof -
  from assms(2) obtain old w where old: "current_record cfg dir = Some old" "workspace old = Some w"
      "workspace_accepts (cfg_sha cfg) w permit"
    by (rule store_acceptsD)
  obtain new ev' w' where new: "current_record cfg dir' = Some new" "workspace new = Some w'"
      "workspace_step (cfg_sha cfg) ev' w = (Ok (), w')"
    by (rule ends_visitor_step [OF assms(1,3,4) old(1,2)])
  define Q where "Q x \<longleftrightarrow> (\<exists>v. workspace x = Some v \<and> snapshot_epoch (permit_snapshot permit) < workspace_epoch v)"
    for x :: PersistedPersonaV2
  have stable: "stable Q" unfolding stable_def Q_def record_advances_def by (meson order_less_le_trans)
  have "Q new"
    using new(2) workspace.step_moves [OF old(3) new(3)] workspace.accepts_epoch [OF old(3)] by (simp add: Q_def)
  then have start: "kept cfg Q (race_start dir')" by (rule race_start_kept [OF new(1)])
  obtain cur v where cur: "current_record cfg (race_dir (race_steps cfg evs (race_start dir'))) = Some cur"
      "workspace cur = Some v" "snapshot_epoch (permit_snapshot permit) < workspace_epoch v"
    using race_steps_keep [OF assms(1) stable start, of evs] by (auto simp: kept_def Q_def)
  show ?thesis
  proof
    assume "store_accepts cfg (race_dir (race_steps cfg evs (race_start dir'))) permit"
    then obtain old2 w2 where "current_record cfg (race_dir (race_steps cfg evs (race_start dir'))) = Some old2"
        "workspace old2 = Some w2" "workspace_accepts (cfg_sha cfg) w2 permit"
      by (rule store_acceptsD)
    then show False using cur workspace.accepts_epoch by fastforce
  qed
qed

end
