(* ===== verification/VPR_Visitor.thy ===== *)
theory VPR_Visitor
  imports VPR_Persona_Store
begin

text \<open>
  Visitor sessions of the owner lab (\<^verbatim>\<open>crates/vpr-owner-lab/src/rt1_visitor_session.rs\<close>,
  \<^verbatim>\<open>rt1_visitor_session_manager.rs\<close>, \<^verbatim>\<open>rt1_visitor_egress.rs\<close>, \<^verbatim>\<open>rt1_owner_controller.rs\<close> and
  \<^verbatim>\<open>rt1_startup.rs\<close>).

  A managed visitor is shared by reference: the registry, an operation in flight and an owner
  command that revokes it may all hold it. The state therefore keeps all visitors ever registered,
  addressed by their index, and the registry maps session handles to addresses. The two callbacks
  of a visitor are opaque; their calls are recorded in the order they happen.

  The steps of a history are the critical sections of the code: the admission of a visitor, its
  entry in the registry and its first authorization are separate steps, and so are the lookup of a
  session and every use of the reference it returns, the removal of a session and its revocation,
  and the two halves of an owner's pause, the durable change with the collection of the visitors,
  and the later stopping of their transports. A method is also a step as a whole, for the schedules
  in which nothing comes between its critical sections.
\<close>

section \<open>State\<close>

record Rt1VisitorSession =
  bearer_token :: rust_string
  visitor_permit :: VisitorPermit

record ManagedVisitor =
  visitor_authority :: Rt1VisitorSession
  visitor_revoked :: bool
  visitor_stopped :: bool
  egress_active :: nat

datatype visitor_effect = FastRevoke nat | StopTransport nat

record lab =
  lab_dir :: directory
  visitors :: "ManagedVisitor list"
  sessions :: "(rust_string \<times> nat) list"
  effects :: "visitor_effect list"

text \<open>What one call reads from the outside: the file system's answers and the clock.\<close>

type_synonym call = "store_io \<times> nat option"

definition MAX_ACTIVE_VISITORS :: nat where
  "MAX_ACTIVE_VISITORS = 8"

section \<open>The authorization handle\<close>

definition session_admit ::
  "lab_config \<Rightarrow> call \<Rightarrow> rust_string \<Rightarrow> directory \<Rightarrow> rust_string + Rt1VisitorSession" where
  "session_admit cfg c token dir =
     (case server_now_millis (snd c) of
        Err e \<Rightarrow> Err e
      | Ok now \<Rightarrow>
     (case svc_admit_visitor_turn cfg (fst c) token now dir of
        Err e \<Rightarrow> Err e
      | Ok permit \<Rightarrow> Ok \<lparr>bearer_token = token, visitor_permit = permit\<rparr>))"

definition session_authorize ::
  "lab_config \<Rightarrow> call \<Rightarrow> Rt1VisitorSession \<Rightarrow> directory \<Rightarrow> rust_string + unit" where
  "session_authorize cfg c self dir =
     (case server_now_millis (snd c) of
        Err e \<Rightarrow> Err e
      | Ok now \<Rightarrow> svc_authorize_visitor cfg (fst c) (bearer_token self) (visitor_permit self) now dir)"

definition session_authorize_persona ::
  "lab_config \<Rightarrow> call \<Rightarrow> Rt1VisitorSession \<Rightarrow> rust_string \<Rightarrow> u64 \<Rightarrow> directory \<Rightarrow> rust_string + unit" where
  "session_authorize_persona cfg c self pid version dir =
     (if \<not> matches_persona (visitor_permit self) pid version
      then Err (lit ''visitor engine Persona revision mismatch'')
      else session_authorize cfg c self dir)"

definition session_compute_buffered ::
  "lab_config \<Rightarrow> store_io \<Rightarrow> (lab \<Rightarrow> nat option) \<Rightarrow> Rt1VisitorSession \<Rightarrow> (lab, 't, rust_string) op
     \<Rightarrow> (lab, 't, rust_string) op" where
  "session_compute_buffered cfg io clock self compute =
     guard_buffered_output
       (\<lambda>now l. (svc_authorize_visitor cfg io (bearer_token self) (visitor_permit self) now (lab_dir l), l))
       (\<lambda>l. (server_now_millis (clock l), l)) compute"

section \<open>Managed visitors\<close>

definition update_visitor :: "nat \<Rightarrow> (ManagedVisitor \<Rightarrow> ManagedVisitor) \<Rightarrow> lab \<Rightarrow> lab" where
  "update_visitor a f l = l\<lparr>visitors := (visitors l)[a := f (visitors l ! a)]\<rparr>"

definition emit :: "visitor_effect \<Rightarrow> lab \<Rightarrow> lab" where
  "emit x l = l\<lparr>effects := effects l @ [x]\<rparr>"

definition mark_revoked :: "nat \<Rightarrow> lab \<Rightarrow> lab" where
  "mark_revoked a l =
     (if visitor_revoked (visitors l ! a) then l
      else emit (FastRevoke a) (update_visitor a (\<lambda>v. v\<lparr>visitor_revoked := True\<rparr>) l))"

definition visitor_revoke :: "nat \<Rightarrow> lab \<Rightarrow> lab" where
  "visitor_revoke a l =
     (let l' = mark_revoked a l
      in if visitor_stopped (visitors l' ! a) then l'
         else emit (StopTransport a) (update_visitor a (\<lambda>v. v\<lparr>visitor_stopped := True\<rparr>) l'))"

definition visitor_authorize :: "lab_config \<Rightarrow> call \<Rightarrow> nat \<Rightarrow> (lab, unit, rust_string) op" where
  "visitor_authorize cfg c a l =
     (if visitor_revoked (visitors l ! a) then (Err (lit ''visitor session revoked''), l)
      else case session_authorize cfg c (visitor_authority (visitors l ! a)) (lab_dir l) of
        Err e \<Rightarrow> (Err e, visitor_revoke a l)
      | Ok _ \<Rightarrow>
          (if visitor_revoked (visitors l ! a) then (Err (lit ''visitor session revoked''), l)
           else (Ok (), l)))"

section \<open>Egress leases\<close>

text \<open>The lease is the address of the visitor whose turn it counts.\<close>

definition egress_admit :: "nat \<Rightarrow> (lab, nat, rust_string) op" where
  "egress_admit a l =
     (if visitor_revoked (visitors l ! a) then (Err (lit ''visitor session revoked''), l)
      else if egress_active (visitors l ! a) \<noteq> 0 then (Err (lit ''visitor provider turn already active''), l)
      else (Ok a, update_visitor a (\<lambda>v. v\<lparr>egress_active := 1\<rparr>) l))"

definition egress_drop :: "nat \<Rightarrow> lab \<Rightarrow> lab" where
  "egress_drop a l = update_visitor a (\<lambda>v. v\<lparr>egress_active := egress_active v - 1\<rparr>) l"

text \<open>The answer of a wait depends only on the count when it ends.\<close>

definition egress_quiescent :: "nat \<Rightarrow> lab \<Rightarrow> bool" where
  "egress_quiescent a l \<longleftrightarrow> egress_active (visitors l ! a) = 0"

section \<open>The session manager\<close>

definition lookup :: "rust_string \<Rightarrow> lab \<Rightarrow> rust_string + nat" where
  "lookup i l = ok_or (map_of (sessions l) i) (lit ''visitor session not found'')"

text \<open>A session is removed under the registry lock and revoked after it is released.\<close>

definition unregister :: "rust_string \<Rightarrow> (lab, nat, rust_string) op" where
  "unregister i l =
     (case map_of (sessions l) i of
        None \<Rightarrow> (Err (lit ''visitor session not found''), l)
      | Some a \<Rightarrow> (Ok a, l\<lparr>sessions := filter (\<lambda>(k, _). k \<noteq> i) (sessions l)\<rparr>))"

definition close :: "rust_string \<Rightarrow> (lab, unit, rust_string) op" where
  "close i l =
     (case unregister i l of
        (Err e, l') \<Rightarrow> (Err e, l')
      | (Ok a, l') \<Rightarrow> (Ok (), visitor_revoke a l'))"

definition new_visitor :: "Rt1VisitorSession \<Rightarrow> ManagedVisitor" where
  "new_visitor s = \<lparr>visitor_authority = s, visitor_revoked = False, visitor_stopped = False, egress_active = 0\<rparr>"

text \<open>The part of \<open>open_with_fast_revoke\<close> after the admission: the handle, the entry made under the
  registry lock, and the authorization that follows once the lock is released.\<close>

definition enter_registry :: "entropy \<Rightarrow> Rt1VisitorSession \<Rightarrow> (lab, rust_string \<times> nat, rust_string) op" where
  "enter_registry fill session l =
     (case fill of
        None \<Rightarrow> (Err (lit ''visitor session entropy unavailable''), l)
      | Some secret \<Rightarrow>
          (let i = hex_encode (map secret [0..<32])
           in if length (sessions l) \<ge> MAX_ACTIVE_VISITORS
              then (Err (lit ''visitor session capacity reached''), l)
              else if map_of (sessions l) i \<noteq> None then (Err (lit ''visitor session collision''), l)
              else (Ok (i, length (visitors l)),
                    l\<lparr>visitors := visitors l @ [new_visitor session],
                      sessions := (i, length (visitors l)) # sessions l\<rparr>)))"

definition register_visitor ::
  "lab_config \<Rightarrow> call \<Rightarrow> entropy \<Rightarrow> Rt1VisitorSession \<Rightarrow> (lab, rust_string, rust_string) op" where
  "register_visitor cfg c fill session l =
     (case enter_registry fill session l of
        (Err e, l') \<Rightarrow> (Err e, l')
      | (Ok (i, a), l') \<Rightarrow>
          (case visitor_authorize cfg c a l' of
             (Err e, l'') \<Rightarrow> (Err e, snd (close i l''))
           | (Ok _, l'') \<Rightarrow> (Ok i, l'')))"

definition open_with_fast_revoke ::
  "lab_config \<Rightarrow> call \<Rightarrow> call \<Rightarrow> entropy \<Rightarrow> rust_string \<Rightarrow> (lab, rust_string, rust_string) op" where
  "open_with_fast_revoke cfg c c' fill token l =
     (case session_admit cfg c token (lab_dir l) of
        Err e \<Rightarrow> (Err e, l)
      | Ok session \<Rightarrow> register_visitor cfg c' fill session l)"

definition finish_buffered :: "'e + 't \<Rightarrow> ('s, unit, 'e) op \<Rightarrow> ('s, 't, 'e) op" where
  "finish_buffered result reauthorize s =
     (case reauthorize s of (Err e, s') \<Rightarrow> (Err e, s') | (Ok _, s') \<Rightarrow> (result, s'))"

definition compute_buffered ::
  "lab_config \<Rightarrow> call \<Rightarrow> call \<Rightarrow> store_io \<Rightarrow> (lab \<Rightarrow> nat option) \<Rightarrow> rust_string \<Rightarrow> (lab, 't, rust_string) op
     \<Rightarrow> (lab, 't, rust_string) op" where
  "compute_buffered cfg c c' io clock i compute l =
     (case lookup i l of
        Err e \<Rightarrow> (Err e, l)
      | Ok a \<Rightarrow>
     (case visitor_authorize cfg c a l of
        (Err e, l1) \<Rightarrow> (Err e, l1)
      | (Ok _, l1) \<Rightarrow>
     (case session_compute_buffered cfg io clock (visitor_authority (visitors l1 ! a)) compute l1 of
        (result, l2) \<Rightarrow> finish_buffered result (visitor_authorize cfg c' a) l2)))"

definition enqueue_media_fragment ::
  "lab_config \<Rightarrow> call \<Rightarrow> rust_string \<Rightarrow> ('q \<Rightarrow> bool \<times> 'q) \<Rightarrow> lab \<Rightarrow> ('q, unit, rust_string) op" where
  "enqueue_media_fragment cfg c i try_send l queue =
     (case lookup i l of
        Err e \<Rightarrow> (Err e, queue)
      | Ok a \<Rightarrow>
          (if visitor_revoked (visitors l ! a) then (Err (lit ''visitor session revoked''), queue)
           else let s = visitor_authority (visitors l ! a)
                in svc_enqueue_authorized_visitor_fragment cfg (fst c) (snd c) (bearer_token s)
                     (visitor_permit s) try_send (lab_dir l) queue))"

text \<open>The admission, one critical section of the workspace, for a visitor that was looked up before.\<close>

definition admit_held :: "lab_config \<Rightarrow> call \<Rightarrow> nat \<Rightarrow> (lab, nat, rust_string) op" where
  "admit_held cfg c a l =
     (let s = visitor_authority (visitors l ! a)
      in svc_admit_visitor_provider_egress cfg (fst c) (snd c) (bearer_token s) (visitor_permit s)
           (lab_dir l) (egress_admit a) l)"

definition begin_visitor_egress :: "lab_config \<Rightarrow> call \<Rightarrow> call \<Rightarrow> rust_string \<Rightarrow> (lab, nat, rust_string) op" where
  "begin_visitor_egress cfg c c' i l =
     (case lookup i l of
        Err e \<Rightarrow> (Err e, l)
      | Ok a \<Rightarrow>
          (case admit_held cfg c a l of
             (Err e, l') \<Rightarrow> (Err e, snd (visitor_authorize cfg c' a l'))
           | (Ok admitted, l') \<Rightarrow> (Ok admitted, l')))"

definition await_visitor_quiescence :: "rust_string \<Rightarrow> lab \<Rightarrow> bool" where
  "await_visitor_quiescence i l =
     (case lookup i l of Err _ \<Rightarrow> False | Ok a \<Rightarrow> egress_quiescent a l)"

definition manager_authorize :: "lab_config \<Rightarrow> call \<Rightarrow> rust_string \<Rightarrow> (lab, unit, rust_string) op" where
  "manager_authorize cfg c i l =
     (case lookup i l of Err e \<Rightarrow> (Err e, l) | Ok a \<Rightarrow> visitor_authorize cfg c a l)"

definition manager_authorize_persona ::
  "lab_config \<Rightarrow> call \<Rightarrow> call \<Rightarrow> rust_string \<Rightarrow> rust_string \<Rightarrow> u64 \<Rightarrow> (lab, unit, rust_string) op" where
  "manager_authorize_persona cfg c c' i pid version l =
     (case lookup i l of
        Err e \<Rightarrow> (Err e, l)
      | Ok a \<Rightarrow>
     (case visitor_authorize cfg c a l of
        (Err e, l1) \<Rightarrow> (Err e, l1)
      | (Ok _, l1) \<Rightarrow>
          (session_authorize_persona cfg c' (visitor_authority (visitors l1 ! a)) pid version (lab_dir l1), l1)))"

definition take_for_revocation :: "lab \<Rightarrow> nat list \<times> lab" where
  "take_for_revocation l =
     (let pending = map snd (sessions l)
      in (pending, fold mark_revoked pending (l\<lparr>sessions := []\<rparr>)))"

definition pending_revoke :: "nat list \<Rightarrow> lab \<Rightarrow> lab" where
  "pending_revoke pending l = fold visitor_revoke pending l"

definition revoke_all :: "lab \<Rightarrow> lab" where
  "revoke_all l = (case take_for_revocation l of (pending, l') \<Rightarrow> pending_revoke pending l')"

definition active_count :: "lab \<Rightarrow> nat" where
  "active_count l = length (sessions l)"

section \<open>Owner commands\<close>

definition change_publication_and_collect ::
  "lab_config \<Rightarrow> store_io \<Rightarrow> (OwnerWorkspaceRecord, unit, rust_string) op \<Rightarrow> (lab, nat list, rust_string) op" where
  "change_publication_and_collect cfg io operation l =
     (case svc_transaction cfg io (on_workspace operation) (lab_dir l) of
        (Err e, dir') \<Rightarrow> (Err e, l\<lparr>lab_dir := dir'\<rparr>)
      | (Ok _, dir') \<Rightarrow>
          (case take_for_revocation (l\<lparr>lab_dir := dir'\<rparr>) of (pending, l') \<Rightarrow> (Ok pending, l')))"

definition pause_and_collect_revocations ::
  "lab_config \<Rightarrow> store_io \<Rightarrow> rust_string \<Rightarrow> (lab, nat list, rust_string) op" where
  "pause_and_collect_revocations cfg io owner_token =
     change_publication_and_collect cfg io (ws_pause (cfg_sha cfg) owner_token)"

definition unpublish_and_collect_revocations ::
  "lab_config \<Rightarrow> store_io \<Rightarrow> rust_string \<Rightarrow> (lab, nat list, rust_string) op" where
  "unpublish_and_collect_revocations cfg io owner_token =
     change_publication_and_collect cfg io (ws_unpublish (cfg_sha cfg) owner_token)"

definition controller_pause :: "lab_config \<Rightarrow> store_io \<Rightarrow> rust_string \<Rightarrow> (lab, unit, rust_string) op" where
  "controller_pause cfg io owner_token l =
     (case pause_and_collect_revocations cfg io owner_token l of
        (Err e, l') \<Rightarrow> (Err e, l')
      | (Ok pending, l') \<Rightarrow> (Ok (), pending_revoke pending l'))"

definition controller_unpublish :: "lab_config \<Rightarrow> store_io \<Rightarrow> rust_string \<Rightarrow> (lab, unit, rust_string) op" where
  "controller_unpublish cfg io owner_token l =
     (case unpublish_and_collect_revocations cfg io owner_token l of
        (Err e, l') \<Rightarrow> (Err e, l')
      | (Ok pending, l') \<Rightarrow> (Ok (), pending_revoke pending l'))"

text \<open>The readiness check is a closure of the caller; it runs between two transactions.\<close>

definition controller_publish ::
  "lab_config \<Rightarrow> store_io \<Rightarrow> store_io \<Rightarrow> entropy \<Rightarrow> entropy \<Rightarrow> rust_string \<Rightarrow> u64
     \<Rightarrow> (lab, unit, rust_string) op \<Rightarrow> (lab, rust_string, rust_string) op" where
  "controller_publish cfg io io' fill_id fill_token owner_token expected_version verify_readiness l =
     (case svc_owner_status cfg io owner_token (lab_dir l) of
        Err e \<Rightarrow> (Err e, l)
      | Ok st \<Rightarrow>
     (if st_persona_version st \<noteq> expected_version then (Err (lit ''STALE_PERSONA_VERSION''), l)
      else case verify_readiness l of
        (Err e, l') \<Rightarrow> (Err e, l')
      | (Ok _, l') \<Rightarrow>
          (case svc_publish cfg io' fill_id fill_token owner_token expected_version True (lab_dir l') of
             (r, dir') \<Rightarrow> (r, l'\<lparr>lab_dir := dir'\<rparr>))))"

definition recovery_required :: "bool \<Rightarrow> rust_string option \<Rightarrow> bool" where
  "recovery_required on_windows store_path \<longleftrightarrow> on_windows \<or> is_some_and (\<lambda>path. path \<noteq> []) store_path"

definition startup_recover ::
  "lab_config \<Rightarrow> store_io \<Rightarrow> bool \<Rightarrow> rust_string option \<Rightarrow> (directory, unit, rust_string) op" where
  "startup_recover cfg io on_windows store_path dir =
     (if recovery_required on_windows store_path then
        (case svc_recover_before_listener cfg io dir of
           (r, dir') \<Rightarrow>
             (map_err (\<lambda>_. lit ''RT1 publication recovery failed before listener startup'') r, dir'))
      else (Ok (), dir))"

section \<open>Histories\<close>

text \<open>
  A run adds to the lab what its threads hold: visitors that were admitted and not yet registered,
  collections of visitors whose transports are still to be stopped, references to visitors that were
  looked up, and the leases of provider turns. A reference, once taken, may be used any number of
  times and at any later moment.
\<close>

record lab_run =
  run_lab :: lab
  run_opening :: "Rt1VisitorSession list"
  run_pending :: "nat list list"
  run_refs :: "nat list"
  run_leases :: "nat list"

datatype lab_event =
    DurableOp store_event
  | CollectPause store_io rust_string
  | CollectUnpublish store_io rust_string
  | RevokeCollected nat
  | AdmitVisitor call rust_string
  | RegisterVisitor nat call entropy
  | AuthorizeSession call rust_string
  | AuthorizePersona call call rust_string rust_string u64
  | BeginEgress call call rust_string
  | EndEgress nat
  | EnterRegistry nat entropy
  | LookupSession rust_string
  | UnregisterSession rust_string
  | AuthorizeHeld nat call
  | AdmitHeld nat call
  | RevokeHeld nat
  | CloseSession rust_string
  | RevokeAllSessions

definition collected :: "(rust_string + nat list) \<times> lab \<Rightarrow> lab_run \<Rightarrow> lab_run" where
  "collected result r =
     (case result of
        (Err _, l) \<Rightarrow> r\<lparr>run_lab := l\<rparr>
      | (Ok pending, l) \<Rightarrow> r\<lparr>run_lab := l, run_pending := pending # run_pending r\<rparr>)"

text \<open>A lease is held by the thread that was granted it, a reference by the thread that took it.\<close>

definition granted :: "(rust_string + nat) \<times> lab \<Rightarrow> lab_run \<Rightarrow> lab_run" where
  "granted result r =
     (case result of
        (Err _, l) \<Rightarrow> r\<lparr>run_lab := l\<rparr>
      | (Ok a, l) \<Rightarrow> r\<lparr>run_lab := l, run_leases := a # run_leases r\<rparr>)"

definition referenced :: "(rust_string + nat) \<times> lab \<Rightarrow> lab_run \<Rightarrow> lab_run" where
  "referenced result r =
     (case result of
        (Err _, l) \<Rightarrow> r\<lparr>run_lab := l\<rparr>
      | (Ok a, l) \<Rightarrow> r\<lparr>run_lab := l, run_refs := a # run_refs r\<rparr>)"

fun lab_step :: "lab_config \<Rightarrow> lab_event \<Rightarrow> lab_run \<Rightarrow> lab_run" where
  "lab_step cfg (DurableOp ev) r =
     r\<lparr>run_lab := (run_lab r)\<lparr>lab_dir := snd (store_step cfg ev (lab_dir (run_lab r)))\<rparr>\<rparr>"
| "lab_step cfg (CollectPause io tok) r = collected (pause_and_collect_revocations cfg io tok (run_lab r)) r"
| "lab_step cfg (CollectUnpublish io tok) r =
     collected (unpublish_and_collect_revocations cfg io tok (run_lab r)) r"
| "lab_step cfg (RevokeCollected k) r =
     (if k < length (run_pending r)
      then r\<lparr>run_lab := pending_revoke (run_pending r ! k) (run_lab r),
             run_pending := remove_nth k (run_pending r)\<rparr>
      else r)"
| "lab_step cfg (AdmitVisitor c token) r =
     (case session_admit cfg c token (lab_dir (run_lab r)) of
        Err _ \<Rightarrow> r
      | Ok session \<Rightarrow> r\<lparr>run_opening := session # run_opening r\<rparr>)"
| "lab_step cfg (RegisterVisitor k c fill) r =
     (if k < length (run_opening r)
      then r\<lparr>run_lab := snd (register_visitor cfg c fill (run_opening r ! k) (run_lab r)),
             run_opening := remove_nth k (run_opening r)\<rparr>
      else r)"
| "lab_step cfg (AuthorizeSession c i) r = r\<lparr>run_lab := snd (manager_authorize cfg c i (run_lab r))\<rparr>"
| "lab_step cfg (AuthorizePersona c c' i pid version) r =
     r\<lparr>run_lab := snd (manager_authorize_persona cfg c c' i pid version (run_lab r))\<rparr>"
| "lab_step cfg (BeginEgress c c' i) r = granted (begin_visitor_egress cfg c c' i (run_lab r)) r"
| "lab_step cfg (EndEgress k) r =
     (if k < length (run_leases r)
      then r\<lparr>run_lab := egress_drop (run_leases r ! k) (run_lab r),
             run_leases := remove_nth k (run_leases r)\<rparr>
      else r)"
| "lab_step cfg (EnterRegistry k fill) r =
     (if k < length (run_opening r)
      then referenced (apfst (map_sum id snd) (enter_registry fill (run_opening r ! k) (run_lab r)))
             (r\<lparr>run_opening := remove_nth k (run_opening r)\<rparr>)
      else r)"
| "lab_step cfg (LookupSession i) r = referenced (lookup i (run_lab r), run_lab r) r"
| "lab_step cfg (UnregisterSession i) r = referenced (unregister i (run_lab r)) r"
| "lab_step cfg (AuthorizeHeld k c) r =
     (if k < length (run_refs r)
      then r\<lparr>run_lab := snd (visitor_authorize cfg c (run_refs r ! k) (run_lab r))\<rparr> else r)"
| "lab_step cfg (AdmitHeld k c) r =
     (if k < length (run_refs r) then granted (admit_held cfg c (run_refs r ! k) (run_lab r)) r else r)"
| "lab_step cfg (RevokeHeld k) r =
     (if k < length (run_refs r)
      then r\<lparr>run_lab := visitor_revoke (run_refs r ! k) (run_lab r)\<rparr> else r)"
| "lab_step cfg (CloseSession i) r = r\<lparr>run_lab := snd (close i (run_lab r))\<rparr>"
| "lab_step cfg RevokeAllSessions r = r\<lparr>run_lab := revoke_all (run_lab r)\<rparr>"

abbreviation lab_steps :: "lab_config \<Rightarrow> lab_event list \<Rightarrow> lab_run \<Rightarrow> lab_run" where
  "lab_steps cfg evs r \<equiv> fold (lab_step cfg) evs r"

definition empty_run :: "directory \<Rightarrow> lab_run" where
  "empty_run dir = \<lparr>run_lab = \<lparr>lab_dir = dir, visitors = [], sessions = [], effects = []\<rparr>,
     run_opening = [], run_pending = [], run_refs = [], run_leases = []\<rparr>"

section \<open>Invariant\<close>

fun effect_visitor :: "visitor_effect \<Rightarrow> nat" where
  "effect_visitor (FastRevoke a) = a"
| "effect_visitor (StopTransport a) = a"

text \<open>The flags of a visitor say exactly which of its callbacks have run, each at most once.\<close>

definition visitor_inv :: "lab \<Rightarrow> nat \<Rightarrow> bool" where
  [inv_defs]: "visitor_inv l a \<longleftrightarrow>
     (visitor_stopped (visitors l ! a) \<longrightarrow> visitor_revoked (visitors l ! a)) \<and>
     egress_active (visitors l ! a) \<le> 1 \<and>
     count_list (effects l) (FastRevoke a) = (if visitor_revoked (visitors l ! a) then 1 else 0) \<and>
     count_list (effects l) (StopTransport a) = (if visitor_stopped (visitors l ! a) then 1 else 0)"

definition lab_inv :: "lab \<Rightarrow> bool" where
  [inv_defs]: "lab_inv l \<longleftrightarrow>
     length (sessions l) \<le> MAX_ACTIVE_VISITORS \<and>
     distinct (map fst (sessions l)) \<and> distinct (map snd (sessions l)) \<and>
     (\<forall>a \<in> set (map snd (sessions l)). a < length (visitors l)) \<and>
     (\<forall>a < length (visitors l). visitor_inv l a) \<and>
     (\<forall>x \<in> set (effects l). effect_visitor x < length (visitors l))"

text \<open>What no step ever undoes: visitors keep their address, their authority and their flags.\<close>

definition lab_grows :: "lab \<Rightarrow> lab \<Rightarrow> bool" where
  "lab_grows l l' \<longleftrightarrow>
     length (visitors l) \<le> length (visitors l') \<and>
     (\<forall>a < length (visitors l).
        visitor_authority (visitors l' ! a) = visitor_authority (visitors l ! a) \<and>
        (visitor_revoked (visitors l ! a) \<longrightarrow> visitor_revoked (visitors l' ! a)) \<and>
        (visitor_stopped (visitors l ! a) \<longrightarrow> visitor_stopped (visitors l' ! a)))"

text \<open>Only the two egress operations touch the count of provider turns.\<close>

definition egress_kept :: "lab \<Rightarrow> lab \<Rightarrow> bool" where
  "egress_kept l l' \<longleftrightarrow>
     (\<forall>a < length (visitors l').
        egress_active (visitors l' ! a) = (if a < length (visitors l) then egress_active (visitors l ! a) else 0))"

definition lab_ok :: "lab \<Rightarrow> lab \<Rightarrow> bool" where
  "lab_ok l l' \<longleftrightarrow> lab_inv l' \<and> lab_grows l l' \<and> egress_kept l l' \<and> lab_dir l' = lab_dir l"

lemma lab_grows_refl [simp]: "lab_grows l l"
  by (simp add: lab_grows_def)

lemma lab_grows_trans: "lab_grows a b \<Longrightarrow> lab_grows b c \<Longrightarrow> lab_grows a c"
  by (auto simp: lab_grows_def)

lemma egress_kept_refl [simp]: "egress_kept l l"
  by (simp add: egress_kept_def)

lemma egress_kept_trans: "lab_grows a b \<Longrightarrow> lab_grows b c \<Longrightarrow> egress_kept a b \<Longrightarrow> egress_kept b c \<Longrightarrow> egress_kept a c"
  by (auto simp: lab_grows_def egress_kept_def)

lemma lab_ok_refl: "lab_inv l \<Longrightarrow> lab_ok l l"
  by (simp add: lab_ok_def)

lemma lab_ok_trans: "lab_ok a b \<Longrightarrow> lab_ok b c \<Longrightarrow> lab_ok a c"
  by (auto simp: lab_ok_def intro: lab_grows_trans egress_kept_trans)

lemma update_visitor_simps [simp]:
  "length (visitors (update_visitor a f l)) = length (visitors l)"
  "sessions (update_visitor a f l) = sessions l" "effects (update_visitor a f l) = effects l"
  "lab_dir (update_visitor a f l) = lab_dir l"
  "visitors (emit x l) = visitors l" "sessions (emit x l) = sessions l" "lab_dir (emit x l) = lab_dir l"
  "effects (emit x l) = effects l @ [x]"
  by (simp_all add: update_visitor_def emit_def)

lemma update_visitor_nth [simp]:
  "b < length (visitors l) \<Longrightarrow>
     visitors (update_visitor a f l) ! b = (if b = a then f (visitors l ! a) else visitors l ! b)"
  by (simp add: update_visitor_def nth_list_update)

lemma mark_revoked_frame [simp]:
  "sessions (mark_revoked a l) = sessions l" "length (visitors (mark_revoked a l)) = length (visitors l)"
  "lab_dir (mark_revoked a l) = lab_dir l"
  by (simp_all add: mark_revoked_def)

lemma visitor_revoke_frame [simp]:
  "sessions (visitor_revoke a l) = sessions l" "length (visitors (visitor_revoke a l)) = length (visitors l)"
  "lab_dir (visitor_revoke a l) = lab_dir l"
  by (simp_all add: visitor_revoke_def Let_def)

lemma mark_revoked_ok:
  assumes "lab_inv l" "a < length (visitors l)"
  shows "lab_ok l (mark_revoked a l)" and "visitor_revoked (visitors (mark_revoked a l) ! a)"
  using assms
  by (auto simp: mark_revoked_def lab_ok_def lab_inv_def lab_grows_def visitor_inv_def egress_kept_def)

lemma set_stopped_ok:
  assumes "lab_inv l" "a < length (visitors l)" "visitor_revoked (visitors l ! a)" "\<not> visitor_stopped (visitors l ! a)"
  shows "lab_ok l (emit (StopTransport a) (update_visitor a (\<lambda>v. v\<lparr>visitor_stopped := True\<rparr>) l))"
  using assms by (auto simp: lab_ok_def lab_inv_def lab_grows_def visitor_inv_def egress_kept_def)

lemma visitor_revoke_ok:
  assumes "lab_inv l" "a < length (visitors l)"
  shows "lab_ok l (visitor_revoke a l)" and "visitor_stopped (visitors (visitor_revoke a l) ! a)"
proof -
  note m = mark_revoked_ok [OF assms]
  have "lab_inv (mark_revoked a l)" using m(1) by (simp add: lab_ok_def)
  from set_stopped_ok [OF this _ m(2)] show "lab_ok l (visitor_revoke a l)"
    using m(1) assms(2) by (auto simp: visitor_revoke_def Let_def intro: lab_ok_trans)
  show "visitor_stopped (visitors (visitor_revoke a l) ! a)"
    using assms(2) by (simp add: visitor_revoke_def Let_def)
qed

lemma fold_ok:
  assumes "\<And>l a. lab_inv l \<Longrightarrow> a < length (visitors l) \<Longrightarrow> lab_ok l (f a l)"
    and "\<And>l a. length (visitors (f a l)) = length (visitors l)"
    and "lab_inv l" "\<forall>a \<in> set as. a < length (visitors l)"
  shows "lab_ok l (fold f as l)"
  using assms(3,4)
proof (induction as arbitrary: l)
  case (Cons a as)
  then have "lab_ok l (f a l)" using assms(1) by simp
  moreover from this have "lab_ok (f a l) (fold f as (f a l))"
    using Cons by (intro Cons.IH) (simp_all add: assms(2) lab_ok_def)
  ultimately show ?case by (auto intro: lab_ok_trans)
qed (simp add: lab_ok_refl)

text \<open>A property that only grows and that \<open>f\<close> establishes holds for every visitor of the list.\<close>

lemma fold_establishes:
  assumes step: "\<And>l a. lab_inv l \<Longrightarrow> a < length (visitors l) \<Longrightarrow> lab_ok l (f a l) \<and> Q (visitors (f a l) ! a)"
    and len: "\<And>l a. length (visitors (f a l)) = length (visitors l)"
    and keep: "\<And>l l' a. lab_grows l l' \<Longrightarrow> a < length (visitors l) \<Longrightarrow> Q (visitors l ! a) \<Longrightarrow> Q (visitors l' ! a)"
    and "lab_inv l" "\<forall>a \<in> set as. a < length (visitors l)"
  shows "\<forall>a \<in> set as. Q (visitors (fold f as l) ! a)"
  using assms(4,5)
proof (induction as arbitrary: l)
  case (Cons a as)
  have ok: "lab_ok l (f a l)" "Q (visitors (f a l) ! a)" using step Cons.prems by auto
  have inv: "lab_inv (f a l)" using ok(1) by (simp add: lab_ok_def)
  have rest: "lab_ok (f a l) (fold f as (f a l))"
    by (rule fold_ok) (use step len inv Cons.prems in auto)
  have "Q (visitors (fold f as (f a l)) ! a)"
    by (rule keep [of "f a l"]) (use ok(2) rest len Cons.prems in \<open>auto simp: lab_ok_def\<close>)
  moreover have "\<forall>b \<in> set as. Q (visitors (fold f as (f a l)) ! b)"
    by (rule Cons.IH) (use inv len Cons.prems in auto)
  ultimately show ?case by simp
qed simp

lemma pending_revoke_ok:
  assumes "lab_inv l" "\<forall>a \<in> set as. a < length (visitors l)"
  shows "lab_ok l (pending_revoke as l)"
    and "\<forall>a \<in> set as. visitor_stopped (visitors (pending_revoke as l) ! a)"
proof -
  show "lab_ok l (pending_revoke as l)"
    unfolding pending_revoke_def by (rule fold_ok [OF _ _ assms]) (simp_all add: visitor_revoke_ok)
  show "\<forall>a \<in> set as. visitor_stopped (visitors (pending_revoke as l) ! a)"
    unfolding pending_revoke_def
    by (rule fold_establishes [OF _ _ _ assms]) (auto simp: visitor_revoke_ok lab_grows_def)
qed

lemma lab_inv_unregister:
  "lab_inv l \<Longrightarrow> lab_inv (l\<lparr>sessions := filter P (sessions l)\<rparr>)"
  by (auto simp: lab_inv_def visitor_inv_def distinct_map inj_on_def intro: le_trans [OF length_filter_le])

lemma take_for_revocation_ok:
  assumes "lab_inv l" "take_for_revocation l = (as, l')"
  shows "lab_ok l l'" "sessions l' = []" "as = map snd (sessions l)"
    "\<forall>a \<in> set as. a < length (visitors l) \<and> visitor_revoked (visitors l' ! a)"
proof -
  let ?l = "l\<lparr>sessions := []\<rparr>"
  have inv: "lab_inv ?l" using lab_inv_unregister [OF assms(1), of "\<lambda>_. False"] by simp
  have as: "as = map snd (sessions l)" "l' = fold mark_revoked as ?l"
    using assms(2) by (auto simp: take_for_revocation_def Let_def)
  have range: "\<forall>a \<in> set as. a < length (visitors ?l)" using assms(1) as(1) by (simp add: lab_inv_def)
  have "lab_ok ?l l'" unfolding as(2) by (rule fold_ok [OF _ _ inv range]) (simp_all add: mark_revoked_ok)
  then show "lab_ok l l'" by (simp add: lab_ok_def lab_grows_def egress_kept_def)
  have "sessions (fold mark_revoked xs ?l) = []" for xs
    using fold_invariant [of xs "\<lambda>_. True" "\<lambda>l. sessions l = []" ?l mark_revoked] by simp
  then show "sessions l' = []" using as(2) by simp
  show "as = map snd (sessions l)" by (rule as(1))
  have "\<forall>a \<in> set as. visitor_revoked (visitors l' ! a)"
    unfolding as(2)
    by (rule fold_establishes [OF _ _ _ inv range]) (auto simp: mark_revoked_ok lab_grows_def)
  then show "\<forall>a \<in> set as. a < length (visitors l) \<and> visitor_revoked (visitors l' ! a)"
    using range by simp
qed

lemma revoke_all_ok: "lab_inv l \<Longrightarrow> lab_ok l (revoke_all l)"
proof -
  assume inv: "lab_inv l"
  obtain as l' where take: "take_for_revocation l = (as, l')" by force
  note ok = take_for_revocation_ok [OF inv take]
  have "lab_ok l' (pending_revoke as l')"
    by (rule pending_revoke_ok) (use ok in \<open>auto simp: lab_ok_def lab_grows_def\<close>)
  then show ?thesis using ok(1) take by (auto simp: revoke_all_def intro: lab_ok_trans)
qed

lemma visitor_authorize_ok:
  assumes "lab_inv l" "a < length (visitors l)"
  shows "lab_ok l (snd (visitor_authorize cfg c a l))"
  using visitor_revoke_ok [OF assms] lab_ok_refl [OF assms(1)]
  by (auto simp: visitor_authorize_def split: sum.splits)

lemma visitor_authorize_frame [simp]: "sessions (snd (visitor_authorize cfg c a l)) = sessions l"
  by (auto simp: visitor_authorize_def split: sum.splits)

lemma session_in_range: "lab_inv l \<Longrightarrow> map_of (sessions l) i = Some a \<Longrightarrow> a < length (visitors l)"
  by (force simp: lab_inv_def dest: map_of_SomeD)

lemma lookup_Ok_iff: "lookup i l = Ok a \<longleftrightarrow> map_of (sessions l) i = Some a"
  by (simp add: lookup_def)

lemma unregister_ok:
  assumes "lab_inv l"
  shows "lab_ok l (snd (unregister i l))" "fst (unregister i l) = Ok a \<Longrightarrow> a < length (visitors l)"
  using assms session_in_range [OF assms, of i]
  by (auto simp: unregister_def lab_ok_refl split: option.splits)
    (simp add: lab_ok_def lab_inv_unregister, simp add: lab_grows_def egress_kept_def)

lemma close_ok:
  assumes inv: "lab_inv l"
  shows "lab_ok l (snd (close i l))"
proof -
  obtain r l' where un: "unregister i l = (r, l')" by force
  then have ok: "lab_ok l l'" "r = Ok a \<Longrightarrow> a < length (visitors l)" for a
    using unregister_ok [OF inv, of i] by simp_all
  have "lab_ok l' (visitor_revoke a l')" if "r = Ok a" for a
    by (rule visitor_revoke_ok) (use ok that in \<open>auto simp: lab_ok_def lab_grows_def\<close>)
  then show ?thesis using ok(1) un by (cases r) (auto simp: close_def intro: lab_ok_trans)
qed

lemma register_entry_ok:
  assumes inv: "lab_inv l" and room: "length (sessions l) < MAX_ACTIVE_VISITORS" and new: "map_of (sessions l) i = None"
  shows "lab_ok l (l\<lparr>visitors := visitors l @ [new_visitor s], sessions := (i, length (visitors l)) # sessions l\<rparr>)"
proof -
  let ?n = "length (visitors l)"
  have "count_list (effects l) (FastRevoke ?n) = 0" "count_list (effects l) (StopTransport ?n) = 0"
    using inv by (auto simp: lab_inv_def count_list_0_iff)
  moreover have "i \<notin> fst ` set (sessions l)" using new by (simp add: map_of_eq_None_iff)
  ultimately show ?thesis
    using inv room
    by (auto simp: lab_ok_def lab_inv_def lab_grows_def visitor_inv_def egress_kept_def new_visitor_def nth_append
        less_Suc_eq)
qed

lemma enter_registry_ok:
  assumes "lab_inv l" "enter_registry fill s l = (r, l')"
  shows "lab_ok l l'" "r = Ok (i, a) \<Longrightarrow> a < length (visitors l')"
  using assms(2) register_entry_ok [OF assms(1)] lab_ok_refl [OF assms(1)]
  by (auto simp: enter_registry_def Let_def linorder_not_le split: option.splits if_splits)

lemma register_visitor_ok:
  assumes inv: "lab_inv l"
  shows "lab_ok l (snd (register_visitor cfg c fill s l))"
proof -
  obtain r l1 where enter: "enter_registry fill s l = (r, l1)" by force
  note entered = enter_registry_ok [OF inv enter]
  have inv1: "lab_inv l1" using entered(1) by (simp add: lab_ok_def)
  have auth: "lab_ok l l2" "lab_ok l (snd (close i l2))"
    if "r = Ok (i, a)" "visitor_authorize cfg c a l1 = (q, l2)" for i a q l2
  proof -
    show l2: "lab_ok l l2"
      using visitor_authorize_ok [OF inv1 entered(2) [OF that(1)], of cfg c] that(2) entered(1) by (auto intro: lab_ok_trans)
    show "lab_ok l (snd (close i l2))"
      by (rule lab_ok_trans [OF l2]) (use l2 close_ok in \<open>simp add: lab_ok_def\<close>)
  qed
  show ?thesis
    using entered(1) auth enter by (auto simp: register_visitor_def split: prod.splits sum.splits)
qed

abbreviation count_turns :: "nat \<Rightarrow> nat \<Rightarrow> lab \<Rightarrow> lab" where
  "count_turns n a l \<equiv> update_visitor a (\<lambda>v. v\<lparr>egress_active := n\<rparr>) l"

lemma count_turns_ok:
  assumes "lab_inv l" "a < length (visitors l)" "n \<le> 1"
  shows "lab_inv (count_turns n a l)" "lab_grows l (count_turns n a l)"
  using assms by (auto simp: lab_inv_def lab_grows_def visitor_inv_def)

text \<open>A grant counts one turn for a visitor that had none; a refusal changes nothing.\<close>

lemma egress_admit_cases:
  obtains (refused) e where "egress_admit a l = (Err e, l)"
  | (admitted) "egress_admit a l = (Ok a, count_turns 1 a l)"
      "\<not> visitor_revoked (visitors l ! a)" "egress_active (visitors l ! a) = 0"
  by (cases "visitor_revoked (visitors l ! a)"; cases "egress_active (visitors l ! a) = 0") (auto simp: egress_admit_def)

lemma admit_egress_cases:
  obtains (denied) e where "svc_admit_visitor_provider_egress cfg io clock token permit dir register w = (Err e, w)"
  | (registered) now where "server_now_millis clock = Ok now"
      "svc_authorize_visitor cfg io token permit now dir = Ok ()"
      "svc_admit_visitor_provider_egress cfg io clock token permit dir register w = register w"
proof (cases "with_workspace cfg io (\<lambda>ws pid version.
    case server_now_millis clock of
      Err e \<Rightarrow> Err e
    | Ok now \<Rightarrow> ws_authorize_visitor (cfg_sha cfg) ws token permit pid version now) dir")
  case (Inl e)
  then show thesis by (intro denied) (simp add: svc_admit_visitor_provider_egress_def)
next
  case (Inr u)
  then obtain now where now: "server_now_millis clock = Ok now"
    by (cases "server_now_millis clock") (auto simp: with_workspace_Ok_iff)
  with Inr have "svc_authorize_visitor cfg io token permit now dir = Ok ()"
    by (simp add: svc_authorize_visitor_def)
  with now show thesis using Inr by (intro registered) (simp_all add: svc_admit_visitor_provider_egress_def)
qed

text \<open>An admission through a held reference, and through a lookup: a grant counts one turn for a visitor
  that had none, is not revoked and whose permit the store accepts; a refusal may only revoke.\<close>

lemma admit_held_cases:
  obtains (refused) e where "admit_held cfg c a l = (Err e, l)"
  | (admitted) "admit_held cfg c a l = (Ok a, count_turns 1 a l)" "\<not> visitor_revoked (visitors l ! a)"
      "egress_active (visitors l ! a) = 0" "store_accepts cfg (lab_dir l) (visitor_permit (visitor_authority (visitors l ! a)))"
proof -
  let ?s = "visitor_authority (visitors l ! a)"
  show thesis
  proof (cases rule: admit_egress_cases [of cfg "fst c" "snd c" "bearer_token ?s" "visitor_permit ?s" "lab_dir l"
        "egress_admit a" l])
    case (denied e)
    then show thesis by (intro refused) (simp add: admit_held_def)
  next
    case (registered now)
    then have "admit_held cfg c a l = egress_admit a l" "store_accepts cfg (lab_dir l) (visitor_permit ?s)"
      unfolding store_accepts_def by (auto simp: admit_held_def)
    then show thesis using refused admitted by (cases rule: egress_admit_cases [of a l]) simp_all
  qed
qed

lemma admit_held_Ok:
  assumes "fst (admit_held cfg c a l) = Ok b"
  shows "\<not> visitor_revoked (visitors l ! a)"
    "store_accepts cfg (lab_dir l) (visitor_permit (visitor_authority (visitors l ! a)))"
  using assms by (cases rule: admit_held_cases [of cfg c a l]; simp)+

lemma begin_visitor_egress_cases:
  assumes inv: "lab_inv l"
  obtains (refused) e l' where "begin_visitor_egress cfg c c' i l = (Err e, l')" "lab_ok l l'"
  | (admitted) a where "begin_visitor_egress cfg c c' i l = (Ok a, count_turns 1 a l)" "map_of (sessions l) i = Some a"
      "fst (admit_held cfg c a l) = Ok a"
proof (cases "map_of (sessions l) i")
  case None
  then show thesis using lab_ok_refl [OF inv] by (intro refused) (auto simp: begin_visitor_egress_def lookup_def)
next
  case (Some a)
  have a: "a < length (visitors l)" using inv Some by (rule session_in_range)
  show thesis
  proof (cases rule: admit_held_cases [of cfg c a l])
    case (refused e)
    then show thesis
      using that(1) visitor_authorize_ok [OF inv a, of cfg c'] Some by (auto simp: begin_visitor_egress_def lookup_def)
  next
    case admitted
    then show thesis using that(2) Some by (auto simp: begin_visitor_egress_def lookup_def)
  qed
qed

lemma manager_authorize_ok: "lab_inv l \<Longrightarrow> lab_ok l (snd (manager_authorize cfg c i l))"
  by (auto simp: manager_authorize_def lookup_def lab_ok_refl split: option.splits sum.splits
      intro: visitor_authorize_ok session_in_range)

lemma manager_authorize_persona_ok: "lab_inv l \<Longrightarrow> lab_ok l (snd (manager_authorize_persona cfg c c' i pid v l))"
  using visitor_authorize_ok [of l _ cfg c] session_in_range [of l i]
  by (auto simp: manager_authorize_persona_def lookup_Ok_iff lab_ok_refl split: sum.splits prod.splits)
    (metis snd_conv)+

lemma lab_dir_inv [simp]: "lab_inv (l\<lparr>lab_dir := d\<rparr>) = lab_inv l" "lab_grows l (l'\<lparr>lab_dir := d\<rparr>) = lab_grows l l'"
  "lab_grows (l\<lparr>lab_dir := d\<rparr>) l' = lab_grows l l'" "egress_kept (l\<lparr>lab_dir := d\<rparr>) l' = egress_kept l l'"
  by (simp_all add: lab_inv_def visitor_inv_def lab_grows_def egress_kept_def)

section \<open>Runs\<close>

text \<open>Collected visitors are revoked, references lead to visitors, and the count of provider turns of every
  visitor is the number of leases that are held for it.\<close>

definition run_inv :: "lab_run \<Rightarrow> bool" where
  [inv_defs]: "run_inv r \<longleftrightarrow>
     lab_inv (run_lab r) \<and>
     (\<forall>p \<in> set (run_pending r). \<forall>a \<in> set p.
        a < length (visitors (run_lab r)) \<and> visitor_revoked (visitors (run_lab r) ! a)) \<and>
     (\<forall>a \<in> set (run_refs r). a < length (visitors (run_lab r))) \<and>
     (\<forall>a. count_list (run_leases r) a =
        (if a < length (visitors (run_lab r)) then egress_active (visitors (run_lab r) ! a) else 0))"

text \<open>What a step does to a run: the lab grows, and its directory changes by at most one store event.\<close>

definition run_moves :: "lab_config \<Rightarrow> lab_run \<Rightarrow> lab_run \<Rightarrow> bool" where
  "run_moves cfg r r' \<longleftrightarrow>
     run_inv r' \<and> lab_grows (run_lab r) (run_lab r') \<and>
     (\<exists>evs. lab_dir (run_lab r') = final (store_step cfg) evs (lab_dir (run_lab r)))"

lemma run_moves_lab:
  assumes inv: "run_inv r" and ok: "lab_ok (run_lab r) (run_lab r')" and pend: "set (run_pending r') \<subseteq> set (run_pending r)"
    and refs: "\<forall>a \<in> set (run_refs r'). a \<in> set (run_refs r) \<or> a < length (visitors (run_lab r'))"
    and leases: "run_leases r' = run_leases r"
  shows "run_moves cfg r r'"
proof -
  have "\<exists>evs. lab_dir (run_lab r') = final (store_step cfg) evs (lab_dir (run_lab r))"
    using ok by (intro exI [of _ "[]"]) (simp add: lab_ok_def)
  moreover have grows: "lab_grows (run_lab r) (run_lab r')" "egress_kept (run_lab r) (run_lab r')" "lab_inv (run_lab r')"
    using ok by (simp_all add: lab_ok_def)
  have "\<forall>p \<in> set (run_pending r'). \<forall>a \<in> set p. a < length (visitors (run_lab r')) \<and> visitor_revoked (visitors (run_lab r') ! a)"
    using inv pend grows(1) unfolding run_inv_def lab_grows_def by (meson order_less_le_trans subsetD)
  moreover have "\<forall>a \<in> set (run_refs r'). a < length (visitors (run_lab r'))"
    using inv refs grows(1) unfolding run_inv_def lab_grows_def by (meson order_less_le_trans)
  moreover have "count_list (run_leases r') a =
      (if a < length (visitors (run_lab r')) then egress_active (visitors (run_lab r') ! a) else 0)" for a
    using inv grows leases by (auto simp: run_inv_def lab_grows_def egress_kept_def)
  ultimately show ?thesis using grows by (simp add: run_moves_def run_inv_def)
qed

lemma referenced_moves:
  assumes "run_inv r" "lab_ok (run_lab r) l'" "\<And>a. q = Ok a \<Longrightarrow> a < length (visitors l')"
  shows "run_moves cfg r (referenced (q, l') r)"
  by (rule run_moves_lab [OF assms(1)]) (use assms(2,3) in \<open>cases q; auto simp: referenced_def\<close>)+

text \<open>A change of the count of turns together with the leases.\<close>

lemma count_turns_moves:
  assumes inv: "run_inv r" and a: "a < length (visitors (run_lab r))" and n: "n \<le> 1"
    and leases: "\<And>b. count_list leases b = (if b = a then n else count_list (run_leases r) b)"
  shows "run_moves cfg r (r\<lparr>run_lab := count_turns n a (run_lab r), run_leases := leases\<rparr>)"
proof -
  have "lab_inv (run_lab r)" using inv by (simp add: run_inv_def)
  note ok = count_turns_ok [OF this a n]
  have "\<exists>evs. lab_dir (run_lab r) = final (store_step cfg) evs (lab_dir (run_lab r))"
    by (rule exI [of _ "[]"]) simp
  then show ?thesis
    using inv ok a leases by (auto simp: run_moves_def run_inv_def)
qed

lemma granted_moves:
  assumes inv: "run_inv r" and "a < length (visitors (run_lab r))" and "egress_active (visitors (run_lab r) ! a) = 0"
  shows "run_moves cfg r (granted (Ok a, count_turns 1 a (run_lab r)) r)"
proof -
  have "count_list (run_leases r) a = 0" using assms by (simp add: run_inv_def)
  then show ?thesis using count_turns_moves [OF assms(1,2), of 1 "a # run_leases r"] by (simp add: granted_def)
qed

lemma refused_moves: "run_inv r \<Longrightarrow> lab_ok (run_lab r) l' \<Longrightarrow> run_moves cfg r (granted (Err e, l') r)"
  by (rule run_moves_lab) (simp_all add: granted_def)

text \<open>A held lease counts exactly one turn, so ending it never takes the count below zero.\<close>

lemma held_lease_counts_one:
  assumes inv: "run_inv r" and "a \<in> set (run_leases r)"
  shows "a < length (visitors (run_lab r))" "egress_active (visitors (run_lab r) ! a) = 1" "count_list (run_leases r) a = 1"
proof -
  have "count_list (run_leases r) a \<noteq> 0" using assms(2) by (simp add: count_list_0_iff)
  moreover have counts: "count_list (run_leases r) a =
      (if a < length (visitors (run_lab r)) then egress_active (visitors (run_lab r) ! a) else 0)"
    using inv by (simp add: run_inv_def)
  ultimately show range: "a < length (visitors (run_lab r))" by (simp split: if_splits)
  then have "egress_active (visitors (run_lab r) ! a) \<le> 1" using inv by (simp add: run_inv_def lab_inv_def visitor_inv_def)
  then show "egress_active (visitors (run_lab r) ! a) = 1" "count_list (run_leases r) a = 1"
    using \<open>count_list (run_leases r) a \<noteq> 0\<close> counts range by simp_all
qed

lemma end_egress_moves:
  assumes "run_inv r" "k < length (run_leases r)"
  shows "run_moves cfg r (lab_step cfg (EndEgress k) r)"
proof -
  let ?a = "run_leases r ! k"
  have "?a \<in> set (run_leases r)" using assms(2) by simp
  note held = held_lease_counts_one [OF assms(1) this]
  have "egress_drop ?a (run_lab r) = count_turns 0 ?a (run_lab r)"
    using held(2) by (simp add: egress_drop_def update_visitor_def)
  moreover have "count_list (remove_nth k (run_leases r)) b = (if b = ?a then 0 else count_list (run_leases r) b)" for b
    using count_list_remove_nth [OF assms(2), of b] held(3) by simp
  ultimately show ?thesis using assms(2) count_turns_moves [OF assms(1) held(1), of 0] by simp
qed

lemma collect_is_store_step:
  assumes "change_publication_and_collect cfg io operation l = (r, l')"
    and "\<And>dir. store_step cfg ev dir = svc_transaction cfg io (on_workspace operation) dir"
  shows "case r of
      Err e \<Rightarrow> l' = l\<lparr>lab_dir := snd (store_step cfg ev (lab_dir l))\<rparr>
    | Ok as \<Rightarrow> take_for_revocation (l\<lparr>lab_dir := snd (store_step cfg ev (lab_dir l))\<rparr>) = (as, l') \<and>
        fst (store_step cfg ev (lab_dir l)) = Ok ()"
  using assms(1) unfolding assms(2)
  by (auto simp: change_publication_and_collect_def split: prod.splits sum.splits)

lemma pause_is_store_step:
  "store_step cfg (PausePersona io tok) dir = svc_transaction cfg io (on_workspace (ws_pause (cfg_sha cfg) tok)) dir"
  "store_step cfg (UnpublishPersona io tok) dir = svc_transaction cfg io (on_workspace (ws_unpublish (cfg_sha cfg) tok)) dir"
  by (simp_all add: svc_pause_def svc_unpublish_def svc_change_publication_def)

lemma run_moves_dir:
  assumes "run_inv r"
  shows "run_moves cfg r (r\<lparr>run_lab := (run_lab r)\<lparr>lab_dir := snd (store_step cfg ev (lab_dir (run_lab r)))\<rparr>\<rparr>)"
proof -
  have "\<exists>evs. snd (store_step cfg ev (lab_dir (run_lab r))) = final (store_step cfg) evs (lab_dir (run_lab r))"
    by (rule exI [of _ "[ev]"]) simp
  then show ?thesis using assms by (simp add: run_moves_def run_inv_def)
qed

lemma collected_inv:
  assumes inv: "run_inv r" and grows: "lab_grows (run_lab r) l'" "egress_kept (run_lab r) l'" "lab_inv l'"
    and as: "\<forall>a \<in> set as. a < length (visitors (run_lab r)) \<and> visitor_revoked (visitors l' ! a)"
  shows "run_inv (collected (Ok as, l') r)"
proof -
  have "lab_ok (run_lab r) (l'\<lparr>lab_dir := lab_dir (run_lab r)\<rparr>)"
    using grows by (simp add: lab_ok_def egress_kept_def)
  then have "run_moves undefined r (r\<lparr>run_lab := l'\<lparr>lab_dir := lab_dir (run_lab r)\<rparr>\<rparr>)"
    by (intro run_moves_lab [OF inv]) simp_all
  then have "run_inv (r\<lparr>run_lab := l'\<lparr>lab_dir := lab_dir (run_lab r)\<rparr>\<rparr>)" by (simp add: run_moves_def)
  then show ?thesis using as grows(1) by (auto simp: run_inv_def collected_def lab_grows_def)
qed

lemma collected_moves:
  assumes inv: "run_inv r" and coll: "change_publication_and_collect cfg io operation (run_lab r) = (res, l')"
    and ev: "\<And>dir. store_step cfg ev dir = svc_transaction cfg io (on_workspace operation) dir"
  shows "run_moves cfg r (collected (res, l') r)"
proof (cases res)
  case (Inl e)
  then show ?thesis
    using collect_is_store_step [OF coll ev] run_moves_dir [OF inv, of cfg ev] by (simp add: collected_def)
next
  case (Inr as)
  let ?l = "(run_lab r)\<lparr>lab_dir := snd (store_step cfg ev (lab_dir (run_lab r)))\<rparr>"
  have take: "take_for_revocation ?l = (as, l')" using collect_is_store_step [OF coll ev] Inr by simp
  have "lab_inv ?l" using inv by (simp add: run_inv_def)
  note ok = take_for_revocation_ok [OF this take]
  have grows: "lab_grows (run_lab r) l'" "lab_inv l'" "lab_dir l' = final (store_step cfg) [ev] (lab_dir (run_lab r))"
    using ok(1) by (simp_all add: lab_ok_def)
  have "run_inv (collected (res, l') r)"
    unfolding Inr by (rule collected_inv) (use inv grows ok(1,4) in \<open>simp_all add: lab_ok_def\<close>)
  moreover have "\<exists>evs. lab_dir l' = final (store_step cfg) evs (lab_dir (run_lab r))"
    using grows(3) by (rule exI [of "\<lambda>evs. lab_dir l' = final (store_step cfg) evs (lab_dir (run_lab r))"])
  ultimately show ?thesis
    using grows(1) Inr by (simp add: run_moves_def collected_def)
qed

lemma lab_step_moves:
  assumes inv: "run_inv r"
  shows "run_moves cfg r (lab_step cfg ev r)"
proof -
  have lab: "lab_inv (run_lab r)" and refs: "\<forall>a \<in> set (run_refs r). a < length (visitors (run_lab r))"
    using inv by (simp_all add: run_inv_def)
  note lift = run_moves_lab [OF inv]
  have same: "run_moves cfg r r" by (rule lift) (simp_all add: lab_ok_refl lab)
  show ?thesis
  proof (cases ev)
    case (DurableOp sev)
    then show ?thesis using run_moves_dir [OF inv] by simp
  next
    case (CollectPause io tok)
    then show ?thesis
      using collected_moves [OF inv _ pause_is_store_step(1), of cfg io tok]
      by (cases "pause_and_collect_revocations cfg io tok (run_lab r)")
        (simp add: pause_and_collect_revocations_def)
  next
    case (CollectUnpublish io tok)
    then show ?thesis
      using collected_moves [OF inv _ pause_is_store_step(2), of cfg io tok]
      by (cases "unpublish_and_collect_revocations cfg io tok (run_lab r)")
        (simp add: unpublish_and_collect_revocations_def)
  next
    case (RevokeCollected k)
    show ?thesis
    proof (cases "k < length (run_pending r)")
      case True
      then have "\<forall>a \<in> set (run_pending r ! k). a < length (visitors (run_lab r))"
        using inv by (auto simp: run_inv_def)
      from pending_revoke_ok(1) [OF lab this] show ?thesis
        using True RevokeCollected by (intro lift) (simp_all add: set_remove_nth)
    qed (use RevokeCollected same in simp)
  next
    case (AdmitVisitor c token)
    then show ?thesis by (intro lift) (auto simp: lab_ok_refl lab split: sum.splits)
  next
    case (RegisterVisitor k c fill)
    then show ?thesis
      using lift [of "lab_step cfg ev r"] register_visitor_ok [OF lab] same by (cases "k < length (run_opening r)") simp_all
  next
    case (BeginEgress c c' i)
    show ?thesis using lab
    proof (cases rule: begin_visitor_egress_cases [of "run_lab r" cfg c c' i])
      case (refused e l')
      then show ?thesis using BeginEgress refused_moves [OF inv] by simp
    next
      case (admitted a)
      then have "egress_active (visitors (run_lab r) ! a) = 0"
        by (cases rule: admit_held_cases [of cfg c a "run_lab r"]) simp_all
      then show ?thesis
        using BeginEgress admitted granted_moves [OF inv] session_in_range [OF lab] by simp
    qed
  next
    case (EndEgress k)
    then show ?thesis using end_egress_moves [OF inv] same by (cases "k < length (run_leases r)") simp_all
  next
    case (EnterRegistry k fill)
    show ?thesis
    proof (cases "k < length (run_opening r)")
      case True
      obtain q l' where enter: "enter_registry fill (run_opening r ! k) (run_lab r) = (q, l')" by force
      note entered = enter_registry_ok [OF lab enter]
      have "run_moves cfg (r\<lparr>run_opening := remove_nth k (run_opening r)\<rparr>)
          (referenced (map_sum id snd q, l') (r\<lparr>run_opening := remove_nth k (run_opening r)\<rparr>))"
        by (rule referenced_moves) (use inv entered in \<open>cases q; auto simp: run_inv_def\<close>)+
      then show ?thesis using True EnterRegistry enter by (simp add: run_moves_def)
    qed (use EnterRegistry same in simp)
  next
    case (LookupSession i)
    have "run_moves cfg r (referenced (lookup i (run_lab r), run_lab r) r)"
      by (rule referenced_moves [OF inv lab_ok_refl [OF lab]]) (use session_in_range [OF lab] in \<open>simp add: lookup_Ok_iff\<close>)
    then show ?thesis using LookupSession by simp
  next
    case (UnregisterSession i)
    obtain q l' where "unregister i (run_lab r) = (q, l')" by force
    then show ?thesis
      using unregister_ok [OF lab, of i] UnregisterSession referenced_moves [OF inv, of l' q cfg]
      by (fastforce simp: lab_ok_def lab_grows_def)
  next
    case (AdmitHeld k c)
    show ?thesis
    proof (cases "k < length (run_refs r)")
      case True
      then have "run_refs r ! k < length (visitors (run_lab r))" using refs by simp
      then show ?thesis
        using True AdmitHeld refused_moves [OF inv lab_ok_refl [OF lab]] granted_moves [OF inv]
        by (cases rule: admit_held_cases [of cfg c "run_refs r ! k" "run_lab r"]) simp_all
    qed (use AdmitHeld same in simp)
  next
    case (AuthorizeHeld k c)
    then show ?thesis using same refs visitor_authorize_ok [OF lab, of _ cfg c] by (auto intro!: lift)
  next
    case (RevokeHeld k)
    then show ?thesis using same refs visitor_revoke_ok(1) [OF lab] by (auto intro!: lift)
  qed (use lab in \<open>auto intro!: lift manager_authorize_ok manager_authorize_persona_ok close_ok revoke_all_ok\<close>)
qed

lemma run_moves_trans:
  assumes "run_moves cfg a b" "run_moves cfg b c"
  shows "run_moves cfg a c"
proof -
  obtain e1 e2 where "lab_dir (run_lab b) = final (store_step cfg) e1 (lab_dir (run_lab a))"
      "lab_dir (run_lab c) = final (store_step cfg) e2 (lab_dir (run_lab b))"
    using assms by (auto simp: run_moves_def)
  then have "lab_dir (run_lab c) = final (store_step cfg) (e1 @ e2) (lab_dir (run_lab a))"
    by (simp add: final_append)
  then show ?thesis using assms by (auto simp: run_moves_def intro: lab_grows_trans)
qed

lemma lab_steps_moves: "run_inv r \<Longrightarrow> run_moves cfg r (lab_steps cfg evs r)"
proof (induction evs arbitrary: r)
  case Nil
  then show ?case by (auto intro: run_moves_lab lab_ok_refl simp: run_inv_def)
next
  case (Cons ev evs)
  have "run_moves cfg r (lab_step cfg ev r)" using Cons.prems by (rule lab_step_moves)
  moreover from this have "run_moves cfg (lab_step cfg ev r) (lab_steps cfg evs (lab_step cfg ev r))"
    by (intro Cons.IH) (simp add: run_moves_def)
  ultimately show ?case by (auto intro: run_moves_trans)
qed

lemma empty_run_inv: "run_inv (empty_run dir)"
  by (simp add: run_inv_def lab_inv_def empty_run_def)

section \<open>Properties\<close>

text \<open>C14. The visitor registry keeps its bounds over every interleaving of admissions, registrations,
  lookups, authorizations, provider turns, closures, owner commands and durable changes: at most
  eight sessions, each handle and each visitor registered once; no two leases for provider turns are
  ever held for one visitor, and the visitors with a lease are exactly those whose count is one; the two
  callbacks of a visitor have run exactly as often as its flags say, so at most once each, the
  transport never being stopped before its runtime authority was revoked.\<close>

theorem visitor_registry_invariant:
  "let r = lab_steps cfg evs (empty_run dir) in
     lab_inv (run_lab r) \<and> distinct (run_leases r) \<and>
     set (run_leases r) = {a. a < length (visitors (run_lab r)) \<and> egress_active (visitors (run_lab r) ! a) = 1}"
proof -
  define r where "r = lab_steps cfg evs (empty_run dir)"
  have inv: "run_inv r"
    using lab_steps_moves [OF empty_run_inv [of dir], of cfg evs] by (simp add: run_moves_def r_def)
  have "a \<in> set (run_leases r)" if "a < length (visitors (run_lab r))" "egress_active (visitors (run_lab r) ! a) = 1" for a
  proof (rule ccontr)
    assume "a \<notin> set (run_leases r)"
    then have "count_list (run_leases r) a = 0" by (simp add: count_list_0_iff)
    then show False using inv that by (simp add: run_inv_def)
  qed
  then have "set (run_leases r) = {a. a < length (visitors (run_lab r)) \<and> egress_active (visitors (run_lab r) ! a) = 1}"
    using held_lease_counts_one [OF inv] by auto
  moreover have "distinct (run_leases r)"
    using held_lease_counts_one(3) [OF inv] by (simp add: distinct_iff_count_list)
  ultimately show ?thesis using inv by (simp add: run_inv_def Let_def flip: r_def)
qed

text \<open>C4. Once the owner's pause is committed no visitor proceeds: from the moment the durable change
  has been made and the visitors collected, and before any transport is stopped, whatever happens
  later, a provider turn is granted neither to a visitor that was registered then nor to any visitor,
  registered before or after, whose permit was accepted before the pause; a reference to the visitor
  that some thread looked up at any time, also before the pause, gives it no turn either. The durable
  operations of the history run whole, one after the other.\<close>

theorem paused_visitors_never_proceed:
  assumes "cfg_ok cfg" and "run_inv r"
    and "pause_and_collect_revocations cfg io tok (run_lab r) = (Ok pending, l)"
    and "r' = lab_steps cfg evs (collected (Ok pending, l) r)"
    and "fst (begin_visitor_egress cfg c c' i (run_lab r')) = Ok b \<or>
      b \<in> set (run_refs r') \<and> fst (admit_held cfg c b (run_lab r')) = Ok b"
  shows "b \<notin> snd ` set (sessions (run_lab r)) \<and>
    \<not> store_accepts cfg (lab_dir (run_lab r)) (visitor_permit (visitor_authority (visitors (run_lab r') ! b)))"
proof -
  let ?ev = "PausePersona io tok"
  let ?l = "(run_lab r)\<lparr>lab_dir := snd (store_step cfg ?ev (lab_dir (run_lab r)))\<rparr>"
  have coll: "change_publication_and_collect cfg io (ws_pause (cfg_sha cfg) tok) (run_lab r) = (Ok pending, l)"
    using assms(3) by (simp add: pause_and_collect_revocations_def)
  have take: "take_for_revocation ?l = (pending, l)" and "fst (store_step cfg ?ev (lab_dir (run_lab r))) = Ok ()"
    using collect_is_store_step [OF coll pause_is_store_step(1)] by simp_all
  then have step: "store_step cfg ?ev (lab_dir (run_lab r)) = (Ok (), snd (store_step cfg ?ev (lab_dir (run_lab r))))"
    by (metis prod.collapse)
  have "lab_inv ?l" using assms(2) by (simp add: run_inv_def)
  note took = take_for_revocation_ok [OF this take]
  have "run_moves cfg r (collected (Ok pending, l) r)"
    by (rule collected_moves [OF assms(2) coll pause_is_store_step(1)])
  then have "run_inv (collected (Ok pending, l) r)" by (simp add: run_moves_def)
  from lab_steps_moves [OF this, of cfg evs]
  have later: "run_inv r'" "lab_grows l (run_lab r')" "\<exists>evs. lab_dir (run_lab r') = final (store_step cfg) evs (lab_dir l)"
    by (simp_all add: assms(4) run_moves_def collected_def)
  from assms(5) have begun: "fst (admit_held cfg c b (run_lab r')) = Ok b"
    using begin_visitor_egress_cases [of "run_lab r'" cfg c c' i] later(1) by (force simp: run_inv_def)
  note begun = admit_held_Ok [OF begun]
  have "b \<notin> snd ` set (sessions (run_lab r))"
  proof
    assume "b \<in> snd ` set (sessions (run_lab r))"
    then have "b < length (visitors l)" "visitor_revoked (visitors l ! b)"
      using took by (auto simp: lab_ok_def lab_grows_def)
    with later(2) begun(1) show False by (simp add: lab_grows_def)
  qed
  moreover have "\<not> store_accepts cfg (lab_dir (run_lab r)) (visitor_permit (visitor_authority (visitors (run_lab r') ! b)))"
  proof
    assume "store_accepts cfg (lab_dir (run_lab r)) (visitor_permit (visitor_authority (visitors (run_lab r') ! b)))"
    from permit_stale_forever [OF assms(1) this step] later(3) begun(2) took(1) show False
      by (auto simp: lab_ok_def)
  qed
  ultimately show ?thesis ..
qed

text \<open>A pause stops every visitor, once: when the owner's pause succeeds, the registry is empty
  and for every visitor that was registered the runtime authority was revoked exactly once and the
  transport stopped exactly once, counting everything that ever happened to it.\<close>

lemma pause_stops_every_visitor_once:
  assumes "lab_inv l" and "controller_pause cfg io tok l = (Ok (), l')" and "(i, a) \<in> set (sessions l)"
  shows "sessions l' = [] \<and> lab_inv l' \<and>
    count_list (effects l') (FastRevoke a) = 1 \<and> count_list (effects l') (StopTransport a) = 1"
proof -
  obtain pending l1 where coll: "change_publication_and_collect cfg io (ws_pause (cfg_sha cfg) tok) l = (Ok pending, l1)"
      and l': "l' = pending_revoke pending l1"
    using assms(2) by (auto simp: controller_pause_def pause_and_collect_revocations_def split: prod.splits sum.splits)
  let ?l = "l\<lparr>lab_dir := snd (store_step cfg (PausePersona io tok) (lab_dir l))\<rparr>"
  have take: "take_for_revocation ?l = (pending, l1)"
    using collect_is_store_step [OF coll pause_is_store_step(1)] by simp
  have "lab_inv ?l" using assms(1) by simp
  note took = take_for_revocation_ok [OF this take]
  have l1: "lab_inv l1" "\<forall>a \<in> set pending. a < length (visitors l1)"
    using took by (auto simp: lab_ok_def lab_grows_def)
  note stop = pending_revoke_ok [OF l1]
  have "sessions (fold visitor_revoke xs l1) = []" for xs
    using fold_invariant [of xs "\<lambda>_. True" "\<lambda>l. sessions l = []" l1 visitor_revoke] took(2) by simp
  then have "sessions l' = []" by (simp add: l' pending_revoke_def)
  moreover have "lab_inv l'" using stop(1) by (simp add: l' lab_ok_def)
  moreover have a: "a \<in> set pending" using assms(3) took(3) by force
  then have "visitor_inv l' a" "visitor_stopped (visitors l' ! a)"
    using \<open>lab_inv l'\<close> stop l1(2) by (auto simp: lab_inv_def l' lab_ok_def lab_grows_def)
  ultimately show ?thesis by (simp add: visitor_inv_def)
qed

definition sample_lab :: lab where
  "sample_lab = \<lparr>lab_dir = sample_dir 1,
     visitors = [new_visitor \<lparr>bearer_token = sample_visitor_token, visitor_permit = sample_visitor_permit\<rparr>],
     sessions = [(lit ''handle'', 0)], effects = []\<rparr>"

lemma sample_lab_inv: "lab_inv sample_lab"
  by (simp add: lab_inv_def visitor_inv_def sample_lab_def new_visitor_def MAX_ACTIVE_VISITORS_def)

lemma sample_collect:
  obtains pending l where
    "pause_and_collect_revocations sample_cfg sample_io sample_owner_token sample_lab = (Ok pending, l)"
proof -
  have "svc_transaction sample_cfg sample_io (on_workspace (ws_pause (cfg_sha sample_cfg) sample_owner_token)) (sample_dir 1) =
      (Ok (), snd (store_step sample_cfg (PausePersona sample_io sample_owner_token) (sample_dir 1)))"
    using sample_pause_step unfolding pause_is_store_step .
  then show thesis
    using that by (cases "take_for_revocation (sample_lab\<lparr>lab_dir :=
        snd (store_step sample_cfg (PausePersona sample_io sample_owner_token) (sample_dir 1))\<rparr>)")
      (auto simp: pause_and_collect_revocations_def change_publication_and_collect_def sample_lab_def)
qed

lemma sample_begin:
  "fst (begin_visitor_egress sample_cfg (sample_io, Some 5) (sample_io, Some 7) (lit ''handle'') sample_lab) = Ok 0"
proof -
  have "with_workspace sample_cfg sample_io (\<lambda>ws pid version. case server_now_millis (Some 5) of Err e \<Rightarrow> Err e
      | Ok now \<Rightarrow> ws_authorize_visitor (cfg_sha sample_cfg) ws sample_visitor_token sample_visitor_permit pid version now)
      (sample_dir 1) = Ok ()"
    using sample_current [of 1] sample_visitor_authorized
    by (simp add: with_workspace_Ok_iff required_persona_Ok_iff sample_records_def sample_record_with_def
        sample_context_persona sample_io_def sample_cfg_sha server_now_millis_def)
  then have "svc_admit_visitor_provider_egress sample_cfg sample_io (Some 5) sample_visitor_token
      sample_visitor_permit (sample_dir 1) register w = register w"
    for register :: "(lab, nat, rust_string) op" and w
    by (simp add: svc_admit_visitor_provider_egress_def)
  then show ?thesis
    by (simp add: begin_visitor_egress_def admit_held_def lookup_def sample_lab_def new_visitor_def egress_admit_def Let_def)
qed

theorem paused_visitors_never_proceed_witness:
  "\<exists>pending l. pause_and_collect_revocations sample_cfg sample_io sample_owner_token sample_lab = (Ok pending, l) \<and>
     fst (begin_visitor_egress sample_cfg (sample_io, Some 5) (sample_io, Some 7) (lit ''handle'') sample_lab) = Ok 0 \<and>
     fst (begin_visitor_egress sample_cfg (sample_io, Some 5) (sample_io, Some 7) (lit ''handle'') l) \<noteq> Ok 0 \<and>
     fst (admit_held sample_cfg (sample_io, Some 5) 0 l) \<noteq> Ok 0"
proof -
  obtain pending l where coll:
    "pause_and_collect_revocations sample_cfg sample_io sample_owner_token sample_lab = (Ok pending, l)"
    by (rule sample_collect)
  let ?r = "\<lparr>run_lab = sample_lab, run_opening = [], run_pending = [], run_refs = [0], run_leases = []\<rparr>"
  have inv: "run_inv ?r"
    using sample_lab_inv by (simp add: run_inv_def) (simp add: sample_lab_def new_visitor_def)
  have mem: "0 \<in> snd ` set (sessions (run_lab ?r))" by (simp add: sample_lab_def)
  have coll': "pause_and_collect_revocations sample_cfg sample_io sample_owner_token (run_lab ?r) = (Ok pending, l)"
    using coll by simp
  have "fst (begin_visitor_egress sample_cfg (sample_io, Some 5) (sample_io, Some 7) (lit ''handle'') l) \<noteq> Ok 0 \<and>
      fst (admit_held sample_cfg (sample_io, Some 5) 0 l) \<noteq> Ok 0"
    using paused_visitors_never_proceed [OF sample_cfg_ok inv coll', of "lab_steps sample_cfg [] (collected (Ok pending, l) ?r)" "[]"
        "(sample_io, Some 5)" "(sample_io, Some 7)" "lit ''handle''" 0] mem
    by (auto simp: collected_def)
  moreover have "fst (begin_visitor_egress sample_cfg (sample_io, Some 5) (sample_io, Some 7) (lit ''handle'') sample_lab) = Ok 0"
    by (rule sample_begin)
  ultimately show ?thesis using coll by blast
qed

end
