(* ===== verification/VPR_Provider_Http.thy ===== *)
theory VPR_Provider_Http
  imports VPR_Integration
begin

text \<open>
  The bounded readers between the provider adapters and the network
  (\<^verbatim>\<open>crates/vpr-integration/src/provider_http.rs\<close>, \<^verbatim>\<open>provider_http_async.rs\<close>).

  The response, the socket behind it and the cancellation flags other threads set are the world \<open>'w\<close>:
  reading changes it arbitrarily, and a cancellation probe observes it. What the code relies on is
  stated where it is used: \<open>reads_bytes\<close> and \<open>buffers_bytes\<close> are the documented contracts of \<open>Read::read\<close> and of
  \<open>BufRead\<close>. The synchronous loops are total functions: they return after at most as many rounds as
  the limit allows bytes, whatever the network does. The asynchronous ones poll a future, which may never
  be ready; they are partial and \<open>None\<close> means that the call does not return.
\<close>

section \<open>UTF-8\<close>

text \<open>\<open>String::from_utf8\<close>: the shortest encodings of Unicode scalar values, nothing else.\<close>

definition is_scalar :: "nat \<Rightarrow> bool" where
  "is_scalar c \<longleftrightarrow> c < 55296 \<or> 57344 \<le> c \<and> c < 1114112"

definition lead_width :: "nat \<Rightarrow> nat" where
  "lead_width b = (if b < 128 then 1 else if b < 224 then 2 else if b < 240 then 3 else 4)"

definition decode_scalar :: "byte list \<Rightarrow> nat" where
  "decode_scalar bs =
     (case map unat bs of
        [a] \<Rightarrow> a
      | [a, b] \<Rightarrow> (a - 192) * 64 + (b - 128)
      | [a, b, c] \<Rightarrow> (a - 224) * 4096 + (b - 128) * 64 + (c - 128)
      | [a, b, c, d] \<Rightarrow> (a - 240) * 262144 + (b - 128) * 4096 + (c - 128) * 64 + (d - 128)
      | _ \<Rightarrow> 0)"

function from_utf8 :: "byte list \<Rightarrow> rust_string option" where
  "from_utf8 [] = Some []"
| "from_utf8 (b # bs) =
     (let n = lead_width (unat b); c = decode_scalar (take n (b # bs))
      in if is_scalar c \<and> utf8_char c = take n (b # bs)
         then map_option ((#) c) (from_utf8 (drop n (b # bs))) else None)"
  by pat_completeness auto
termination by (relation "measure length") (auto simp: lead_width_def)

section \<open>Bodies\<close>

lemma limit_shrinks: "b \<noteq> [] \<Longrightarrow> length b \<le> limit - n \<Longrightarrow> limit - (n + length b) < limit - n"
  by (cases b) auto

definition invalid_response :: ProviderError where
  "invalid_response = \<lparr>provider_error_kind = InvalidResponse, provider_retryable = False\<rparr>"

definition unavailable :: ProviderError where
  "unavailable = \<lparr>provider_error_kind = ProviderErrorKind.Unavailable, provider_retryable = True\<rparr>"

definition cancelled :: ProviderError where
  "cancelled = \<lparr>provider_error_kind = ProviderErrorKind.Cancelled, provider_retryable = False\<rparr>"

definition MAX_PROVIDER_JSON_BODY_BYTES :: nat where
  "MAX_PROVIDER_JSON_BODY_BYTES = 2 * 1024 * 1024"

definition MAX_PROVIDER_BINARY_BODY_BYTES :: nat where
  "MAX_PROVIDER_BINARY_BODY_BYTES = 16 * 1024 * 1024"

definition MAX_PROVIDER_STREAM_LINE_BYTES :: nat where
  "MAX_PROVIDER_STREAM_LINE_BYTES = 256 * 1024"

definition usize_saturating_add :: "nat \<Rightarrow> nat \<Rightarrow> nat" where
  "usize_saturating_add a b = min (a + b) (2 ^ 64 - 1)"

type_synonym 'w probe = "'w \<Rightarrow> bool"
type_synonym 'w read_fn = "nat \<Rightarrow> ('w, byte list, unit) op"
type_synonym 'w chunk_consumer = "byte list \<Rightarrow> ('w, unit, ProviderError) op"

function stream_loop :: "nat \<Rightarrow> 'w probe option \<Rightarrow> 'w read_fn \<Rightarrow> 'w chunk_consumer \<Rightarrow> nat
    \<Rightarrow> ('w, nat, ProviderError) op" where
  "stream_loop max_bytes cancellation read consume received w =
     (if is_some_and (\<lambda>p. p w) cancellation then (Err cancelled, w)
      else
        let remaining = max_bytes - received;
            probe_len = min (usize_saturating_add remaining 1) 8192
        in case read probe_len w of
             (Err _, w') \<Rightarrow>
               (Err (if is_some_and (\<lambda>p. p w') cancellation then cancelled else unavailable), w')
           | (Ok buffer, w') \<Rightarrow>
               if is_some_and (\<lambda>p. p w') cancellation then (Err cancelled, w')
               else if length buffer = 0 then (Ok received, w')
               else if length buffer > remaining then (Err invalid_response, w')
               else (case consume buffer w' of
                       (Err e, w'') \<Rightarrow> (Err e, w'')
                     | (Ok _, w'') \<Rightarrow>
                         stream_loop max_bytes cancellation read consume (received + length buffer) w''))"
  by pat_completeness auto
termination
  by (relation "measure (\<lambda>(max_bytes, _, _, _, received, _). max_bytes - received)")
    (auto intro: limit_shrinks)

declare stream_loop.simps [simp del]

definition read_bounded_provider_stream :: "u64 option \<Rightarrow> nat \<Rightarrow> 'w probe option \<Rightarrow> 'w read_fn
    \<Rightarrow> 'w chunk_consumer \<Rightarrow> ('w, nat, ProviderError) op" where
  "read_bounded_provider_stream content_length max_bytes cancellation read consume w =
     (if max_bytes = 0 then (Err invalid_response, w)
      else if is_some_and (\<lambda>l. unat l > max_bytes) content_length then (Err invalid_response, w)
      else stream_loop max_bytes cancellation read consume 0 w)"

text \<open>The buffered reader runs the same loop with a closure that owns the output vector.\<close>

definition beside_output :: "('w, 'a, 'e) op \<Rightarrow> ('w \<times> 'b, 'a, 'e) op" where
  "beside_output f wo = (case f (fst wo) of (r, w') \<Rightarrow> (r, (w', snd wo)))"

definition read_bounded_provider_body :: "u64 option \<Rightarrow> nat \<Rightarrow> 'w probe option \<Rightarrow> 'w read_fn
    \<Rightarrow> ('w, byte list, ProviderError) op" where
  "read_bounded_provider_body content_length max_bytes cancellation read w =
     (case read_bounded_provider_stream content_length max_bytes
             (map_option (\<lambda>p wo. p (fst wo)) cancellation) (\<lambda>n. beside_output (read n))
             (\<lambda>chunk wo. (Ok (), (fst wo, snd wo @ chunk))) (w, []) of
        (Err e, wo) \<Rightarrow> (Err e, fst wo)
      | (Ok _, wo) \<Rightarrow> (Ok (snd wo), fst wo))"

section \<open>Lines\<close>

record 'w BoundedProviderLineReader =
  reader :: 'w
  max_line_bytes :: nat
  line_pending :: "byte list"

definition BoundedProviderLineReader_new :: "'w \<Rightarrow> nat \<Rightarrow> 'w BoundedProviderLineReader" where
  "BoundedProviderLineReader_new r m = \<lparr>reader = r, max_line_bytes = m, line_pending = []\<rparr>"

definition finish_line :: "('w BoundedProviderLineReader, rust_string, ProviderError) op" where
  "finish_line self =
     (let p = line_pending self;
          p' = (if p \<noteq> [] \<and> last p = 13 then butlast p else p)
      in (ok_or (from_utf8 p') invalid_response, self\<lparr>line_pending := []\<rparr>))"

type_synonym 'w fill_fn = "('w, byte list, unit) op"
type_synonym 'w consume_fn = "nat \<Rightarrow> 'w \<Rightarrow> 'w"

function line_loop :: "'w fill_fn \<Rightarrow> 'w consume_fn \<Rightarrow> 'w probe
    \<Rightarrow> ('w BoundedProviderLineReader, rust_string option, ProviderError) op" where
  "line_loop fill_buf consume cancellation self =
     (if cancellation (reader self) then (Err cancelled, self)
      else case fill_buf (reader self) of
        (Err _, w) \<Rightarrow> (Err unavailable, self\<lparr>reader := w\<rparr>)
      | (Ok available, w) \<Rightarrow>
          let self = self\<lparr>reader := w\<rparr> in
          if available = [] then
            (if line_pending self = [] then (Ok None, self)
             else case finish_line self of (r, self) \<Rightarrow> (map_sum id Some r, self))
          else case position (\<lambda>b. b = 10) available of
            Some newline \<Rightarrow>
              if is_none_or (\<lambda>n. n > max_line_bytes self) (usize_checked_add (length (line_pending self)) newline)
              then (Err invalid_response, self)
              else (case finish_line (self\<lparr>line_pending := line_pending self @ take newline available,
                                            reader := consume (newline + 1) w\<rparr>) of
                      (r, self) \<Rightarrow> (map_sum id Some r, self))
          | None \<Rightarrow>
              if is_none_or (\<lambda>n. n > max_line_bytes self)
                   (usize_checked_add (length (line_pending self)) (length available))
              then (Err invalid_response, self)
              else line_loop fill_buf consume cancellation
                     (self\<lparr>line_pending := line_pending self @ available,
                           reader := consume (length available) w\<rparr>))"
  by pat_completeness auto
termination
  by (relation "measure (\<lambda>(_, _, _, self). max_line_bytes self - length (line_pending self))")
    (auto simp: is_none_or_def usize_checked_add_def split: if_splits intro!: limit_shrinks)

declare line_loop.simps [simp del]

definition next_line :: "'w fill_fn \<Rightarrow> 'w consume_fn \<Rightarrow> 'w probe
    \<Rightarrow> ('w BoundedProviderLineReader, rust_string option, ProviderError) op" where
  "next_line fill_buf consume cancellation self =
     (if max_line_bytes self = 0 then (Err invalid_response, self)
      else line_loop fill_buf consume cancellation (self\<lparr>line_pending := []\<rparr>))"

section \<open>The asynchronous client\<close>

text \<open>
  One round of \<open>tokio::time::timeout\<close> answers with the future's result or, after 20 ms, with nothing.
  Cancellation is looked at in every round without an answer.
\<close>

text \<open>A transport error says whether it was a timeout.\<close>

type_synonym ('w, 'r) poll_fn = "'w \<Rightarrow> (bool + 'r) option \<times> 'w"

definition async_transport_error :: "bool \<Rightarrow> ProviderError" where
  "async_transport_error is_timeout =
     (if is_timeout then \<lparr>provider_error_kind = Timeout, provider_retryable = True\<rparr> else unavailable)"

partial_function (option) poll_until ::
    "('w, 'r) poll_fn \<Rightarrow> 'w probe \<Rightarrow> 'w \<Rightarrow> ((ProviderError + 'r) \<times> 'w) option" where
  "poll_until poll cancellation w =
     (case poll w of
        (Some r, w') \<Rightarrow> Some (map_err async_transport_error r, w')
      | (None, w') \<Rightarrow>
          if cancellation w' then Some (Err cancelled, w') else poll_until poll cancellation w')"

text \<open>A ready answer is dropped when the turn was revoked by then.\<close>

definition async_send ::
    "('w, 'r) poll_fn \<Rightarrow> 'w probe \<Rightarrow> 'w \<Rightarrow> ((ProviderError + 'r) \<times> 'w) option" where
  "async_send poll cancellation w =
     (if cancellation w then Some (Err cancelled, w)
      else case poll_until poll cancellation w of
             None \<Rightarrow> None
           | Some (result, w') \<Rightarrow>
               Some (if cancellation w' then Err cancelled else result, w'))"

definition async_chunk :: "('w, byte list option) poll_fn \<Rightarrow> 'w probe \<Rightarrow> nat \<Rightarrow> 'w
    \<Rightarrow> ((ProviderError + byte list option) \<times> 'w) option" where
  "async_chunk poll cancellation max_chunk_bytes w =
     (if max_chunk_bytes = 0 then Some (Err invalid_response, w)
      else if cancellation w then Some (Err cancelled, w)
      else case poll_until poll cancellation w of
             None \<Rightarrow> None
           | Some (result, w') \<Rightarrow>
               if cancellation w' then Some (Err cancelled, w')
               else (case result of
                       Err e \<Rightarrow> Some (Err e, w')
                     | Ok None \<Rightarrow> Some (Ok None, w')
                     | Ok (Some bytes) \<Rightarrow>
                         Some (if length bytes > max_chunk_bytes then Err invalid_response
                               else Ok (Some bytes), w')))"

partial_function (option) async_body_loop :: "('w, byte list option) poll_fn \<Rightarrow> 'w probe \<Rightarrow> nat
    \<Rightarrow> byte list \<Rightarrow> 'w \<Rightarrow> ((ProviderError + byte list) \<times> 'w) option" where
  "async_body_loop poll cancellation max_bytes body w =
     (case async_chunk poll cancellation
             (usize_saturating_add (max_bytes - length body) 1) w of
        None \<Rightarrow> None
      | Some (Err e, w') \<Rightarrow> Some (Err e, w')
      | Some (Ok None, w') \<Rightarrow> Some (Ok body, w')
      | Some (Ok (Some chunk), w') \<Rightarrow>
          if length chunk > max_bytes - length body then Some (Err invalid_response, w')
          else async_body_loop poll cancellation max_bytes (body @ chunk) w')"

definition read_bounded_body :: "u64 option \<Rightarrow> ('w, byte list option) poll_fn \<Rightarrow> nat \<Rightarrow> 'w probe \<Rightarrow> 'w
    \<Rightarrow> ((ProviderError + byte list) \<times> 'w) option" where
  "read_bounded_body content_length poll max_bytes cancellation w =
     (if max_bytes = 0 \<or> is_some_and (\<lambda>l. unat l > max_bytes) content_length
      then Some (Err invalid_response, w)
      else async_body_loop poll cancellation max_bytes [] w)"

section \<open>What the body readers guarantee\<close>

lemma usize_saturating_add_pos: "0 < usize_saturating_add a 1"
  by (simp add: usize_saturating_add_def)

text \<open>
  The contract of \<open>Read::read\<close> without a transport failure: at most as many bytes as asked for, taken
  from the front of what is still to come, and none only at the end.
\<close>

definition reads_bytes :: "'w read_fn \<Rightarrow> ('w \<Rightarrow> byte list) \<Rightarrow> bool" where
  "reads_bytes read rest \<longleftrightarrow>
     (\<forall>n w. 0 < n \<longrightarrow> (\<exists>bs w'. read n w = (Ok bs, w') \<and> length bs \<le> n \<and> rest w = bs @ rest w' \<and>
        (bs = [] \<longrightarrow> rest w = [])))"

lemma reads_bytesE:
  assumes "reads_bytes read rest" and "0 < n"
  obtains bs w' where "read n w = (Ok bs, w')" and "length bs \<le> n" and "rest w = bs @ rest w'"
    and "bs = [] \<Longrightarrow> rest w = []"
  using assms unfolding reads_bytes_def by metis

abbreviation append_output :: "('w \<times> byte list) chunk_consumer" where
  "append_output \<equiv> \<lambda>chunk wo. (Ok (), (fst wo, snd wo @ chunk))"

lemma stream_loop_collects:
  assumes reads: "reads_bytes read rest" and quiet: "\<And>wo. \<not> is_some_and (\<lambda>p. p wo) cancellation"
    and "received \<le> max_bytes"
  shows "\<exists>wo. stream_loop max_bytes cancellation (\<lambda>n. beside_output (read n)) append_output received (w, out) =
            ((if length (rest w) > max_bytes - received then Err invalid_response
              else Ok (received + length (rest w))), wo) \<and>
          (length (rest w) \<le> max_bytes - received \<longrightarrow> snd wo = out @ rest w)"
  using assms(3)
proof (induction "max_bytes - received" arbitrary: received w out rule: less_induct)
  case less
  let ?n = "min (usize_saturating_add (max_bytes - received) 1) 8192"
  have "0 < ?n" using usize_saturating_add_pos by simp
  then obtain bs w' where rd: "read ?n w = (Ok bs, w')" and len: "length bs \<le> ?n"
    and rest: "rest w = bs @ rest w'" and eof: "bs = [] \<Longrightarrow> rest w = []"
    by (rule reads_bytesE [OF reads, of _ w]) blast
  show ?case
  proof (cases "bs = [] \<or> length bs > max_bytes - received")
    case True
    then show ?thesis
      using rd rest eof quiet by (subst stream_loop.simps) (auto simp: beside_output_def Let_def)
  next
    case False
    then have "max_bytes - (received + length bs) < max_bytes - received"
      by (auto intro: limit_shrinks)
    moreover have "received + length bs \<le> max_bytes" using False less.prems by auto
    ultimately obtain wo where
      "stream_loop max_bytes cancellation (\<lambda>n. beside_output (read n)) append_output (received + length bs)
         (w', out @ bs) =
       ((if length (rest w') > max_bytes - (received + length bs) then Err invalid_response
         else Ok (received + length bs + length (rest w'))), wo)"
      "length (rest w') \<le> max_bytes - (received + length bs) \<longrightarrow> snd wo = (out @ bs) @ rest w'"
      using less.hyps by blast
    then show ?thesis
      using rd rest False quiet less.prems
      by (subst stream_loop.simps) (auto simp: beside_output_def Let_def)
  qed
qed

text \<open>An observer of the loop: it counts the reads and keeps the chunks handed to the consumer.\<close>

definition counted_read :: "'w read_fn \<Rightarrow> ('w \<times> nat \<times> byte list list) read_fn" where
  "counted_read read n = (\<lambda>(w, reads, chunks). case read n w of (r, w') \<Rightarrow> (r, (w', reads + 1, chunks)))"

definition logged_consume :: "'w chunk_consumer \<Rightarrow> ('w \<times> nat \<times> byte list list) chunk_consumer" where
  "logged_consume consume chunk =
     (\<lambda>(w, reads, chunks). case consume chunk w of (r, w') \<Rightarrow> (r, (w', reads, chunks @ [chunk])))"

definition observed_probe :: "'w probe option \<Rightarrow> ('w \<times> nat \<times> byte list list) probe option" where
  "observed_probe cancellation = map_option (\<lambda>p. p \<circ> fst) cancellation"

lemma observed_probe_holds:
  "is_some_and (\<lambda>p. p x) (observed_probe cancellation) \<longleftrightarrow> is_some_and (\<lambda>p. p (fst x)) cancellation"
  by (cases cancellation) (simp_all add: observed_probe_def)

lemma stream_loop_observed:
  assumes "stream_loop max_bytes (observed_probe cancellation) (counted_read read) (logged_consume consume)
             (length (concat chunks)) (w, reads, chunks) = (r, (w', reads', chunks'))"
    and "length (concat chunks) \<le> max_bytes"
  shows "length (concat chunks') \<le> max_bytes \<and> reads' \<le> reads + (max_bytes - length (concat chunks)) + 1 \<and>
         (\<forall>n. r = Ok n \<longrightarrow> n = length (concat chunks') \<and> \<not> is_some_and (\<lambda>p. p w') cancellation)"
  using assms
proof (induction "max_bytes - length (concat chunks)" arbitrary: chunks w reads rule: less_induct)
  case less
  let ?rem = "max_bytes - length (concat chunks)"
  let ?n = "min (usize_saturating_add ?rem 1) 8192"
  obtain ans w1 where rd: "read ?n w = (ans, w1)" by (cases "read ?n w")
  show ?case
  proof (cases "\<exists>bs u w2. ans = Ok bs \<and> bs \<noteq> [] \<and> length bs \<le> ?rem \<and> consume bs w1 = (Ok u, w2) \<and>
       \<not> is_some_and (\<lambda>p. p w) cancellation \<and> \<not> is_some_and (\<lambda>p. p w1) cancellation")
    case True
    then obtain bs u w2 where more: "ans = Ok bs" "bs \<noteq> []" "length bs \<le> ?rem" "consume bs w1 = (Ok u, w2)"
      "\<not> is_some_and (\<lambda>p. p w) cancellation" "\<not> is_some_and (\<lambda>p. p w1) cancellation" by blast
    have step: "stream_loop max_bytes (observed_probe cancellation) (counted_read read) (logged_consume consume)
             (length (concat (chunks @ [bs]))) (w2, reads + 1, chunks @ [bs]) = (r, (w', reads', chunks'))"
      using less.prems(1) rd more
      by (subst (asm) stream_loop.simps)
        (simp add: counted_read_def logged_consume_def observed_probe_holds Let_def)
    have lim: "max_bytes - length (concat (chunks @ [bs])) < ?rem"
      using limit_shrinks [OF more(2,3)] by simp
    have le: "length (concat (chunks @ [bs])) \<le> max_bytes" using more(3) less.prems(2) by simp
    show ?thesis using less.hyps [OF lim step le] lim by auto
  next
    case False
    then show ?thesis
      using less.prems rd
      by (subst (asm) stream_loop.simps)
        (auto simp: counted_read_def logged_consume_def observed_probe_holds Let_def
          split: sum.splits prod.splits if_splits)
  qed
qed

text \<open>C35. Reading a provider response always ends, with at most one read more than the limit has bytes, and
  hands the consumer at most the limit, whatever the response, its declared length, the consumer and a
  concurrent cancellation do. A successful call reports exactly the bytes the consumer was given, and it
  succeeds only if the turn is not cancelled when it returns.\<close>

theorem bounded_stream_terminates:
  "case read_bounded_provider_stream content_length max_bytes (observed_probe cancellation)
          (counted_read read) (logged_consume consume) (w, 0, []) of
     (r, (w', reads, chunks)) \<Rightarrow>
       reads \<le> max_bytes + 1 \<and> length (concat chunks) \<le> max_bytes \<and>
       (case r of Err _ \<Rightarrow> True
        | Ok n \<Rightarrow> n = length (concat chunks) \<and> \<not> is_some_and (\<lambda>p. p w') cancellation)"
proof (cases "stream_loop max_bytes (observed_probe cancellation) (counted_read read) (logged_consume consume) 0
         (w, 0, [])")
  case (fields r w' reads chunks)
  then show ?thesis
    using stream_loop_observed [of max_bytes cancellation read consume "[]" w 0 r w' reads chunks]
    by (auto simp: read_bounded_provider_stream_def split: sum.split)
qed

lemma read_body_exact:
  assumes "reads_bytes read rest" and "\<And>w. \<not> is_some_and (\<lambda>p. p w) cancellation"
    and "content_length = None \<or> content_length = Some (of_nat (length (rest w)))"
    and "length (rest w) < 2 ^ 64"
  shows "fst (read_bounded_provider_body content_length max_bytes cancellation read w) =
           (if max_bytes = 0 \<or> max_bytes < length (rest w) then Err invalid_response else Ok (rest w))"
proof -
  have quiet: "\<And>wo. \<not> is_some_and (\<lambda>p. p wo) (map_option (\<lambda>p (wo :: 'a \<times> byte list). p (fst wo)) cancellation)"
    using assms(2) by (cases cancellation) auto
  have "unat (of_nat (length (rest w)) :: u64) = length (rest w)"
    using assms(4) by (simp add: unat_of_nat)
  then show ?thesis
    using stream_loop_collects [OF assms(1) quiet, of 0 max_bytes w "[]"] assms(3)
    by (auto simp: read_bounded_provider_body_def read_bounded_provider_stream_def split: if_splits)
qed

text \<open>The buffered body reader returns exactly the body when it fits the limit and an error otherwise,
  however the transport cuts the body into reads.\<close>

lemma bounded_body_is_exact:
  assumes "reads_bytes read rest" and "\<And>w. \<not> is_some_and (\<lambda>p. p w) cancellation"
    and "content_length = None \<or> content_length = Some (of_nat (length (rest w)))"
    and "length (rest w) < 2 ^ 64"
  shows "fst (read_bounded_provider_body content_length max_bytes cancellation read w) =
           (if max_bytes = 0 \<or> max_bytes < length (rest w) then Err invalid_response else Ok (rest w))"
  by (rule read_body_exact [OF assms])

text \<open>A source that never gives more than three bytes at once.\<close>

definition drip :: "byte list read_fn" where
  "drip n w = (Ok (take (min n 3) w), drop (min n 3) w)"

lemma drip_reads: "reads_bytes drip id"
  by (auto simp: reads_bytes_def drip_def)

section \<open>What the line reader guarantees\<close>

lemma byte_unat: "n < 256 \<Longrightarrow> unat (of_nat n :: byte) = n"
  by (simp add: unat_of_nat)

lemma utf8_char_shape:
  assumes "c < 1114112"
  shows "map unat (utf8_char c) =
     (if c < 128 then [c]
      else if c < 2048 then [192 + c div 64, 128 + c mod 64]
      else if c < 65536 then [224 + c div 4096, 128 + c div 64 mod 64, 128 + c mod 64]
      else [240 + c div 262144, 128 + c div 4096 mod 64, 128 + c div 64 mod 64, 128 + c mod 64])"
proof -
  have small: "128 + k mod 64 < 256" for k :: nat
    using mod_less_divisor [of 64 k] by linarith
  have lead: "c < 2048 \<Longrightarrow> 192 + c div 64 < 256" "c < 65536 \<Longrightarrow> 224 + c div 4096 < 256" "240 + c div 262144 < 256"
    using assms by (simp_all add: less_mult_imp_div_less)
  show ?thesis
    unfolding utf8_char_def by (simp add: byte_unat [OF small] byte_unat lead del: of_nat_add)
qed

lemma scalar_bound: "is_scalar c \<Longrightarrow> c < 1114112"
  by (auto simp: is_scalar_def)

lemma decode_utf8_char:
  assumes "is_scalar c"
  shows "decode_scalar (utf8_char c) = c"
proof -
  have low: "c div 64 * 64 + c mod 64 = c" by simp
  have mid: "c div 4096 * 64 + c div 64 mod 64 = c div 64"
    using div_mult_mod_eq [of "c div 64" 64] by (simp add: div_mult2_eq [symmetric])
  have high: "c div 262144 * 64 + c div 4096 mod 64 = c div 4096"
    using div_mult_mod_eq [of "c div 4096" 64] by (simp add: div_mult2_eq [symmetric])
  have "c div 4096 * 4096 + (c div 64 mod 64) * 64 + c mod 64 = c"
    using low mid by linarith
  moreover have "c div 262144 * 262144 + (c div 4096 mod 64) * 4096 + (c div 64 mod 64) * 64 + c mod 64 = c"
    using low mid high by linarith
  ultimately show ?thesis
    using utf8_char_shape [OF scalar_bound [OF assms]] by (simp add: decode_scalar_def split: if_splits)
qed

lemma lead_width_utf8_char:
  assumes "is_scalar c"
  obtains b bs where "utf8_char c = b # bs" and "lead_width (unat b) = Suc (length bs)"
proof -
  have shape: "map unat (utf8_char c) = (if c < 128 then [c]
      else if c < 2048 then [192 + c div 64, 128 + c mod 64]
      else if c < 65536 then [224 + c div 4096, 128 + c div 64 mod 64, 128 + c mod 64]
      else [240 + c div 262144, 128 + c div 4096 mod 64, 128 + c div 64 mod 64, 128 + c mod 64])"
    by (rule utf8_char_shape [OF scalar_bound [OF assms]])
  then obtain b bs where b: "utf8_char c = b # bs" by (cases "utf8_char c") (auto split: if_splits)
  have "c < 2048 \<Longrightarrow> c div 64 < 32" "c < 65536 \<Longrightarrow> c div 4096 < 16"
    by (simp_all add: less_mult_imp_div_less)
  then have "lead_width (unat b) = Suc (length bs)"
    using shape b by (auto simp: lead_width_def dest!: arg_cong [of _ _ length] split: if_splits)
  then show ?thesis using b that by blast
qed

text \<open>Decoding accepts exactly the encodings of strings of scalar values and inverts them.\<close>

lemma from_utf8_encoded:
  assumes "\<forall>c \<in> set s. is_scalar c"
  shows "from_utf8 (utf8_bytes s) = Some s"
  using assms
proof (induction s)
  case (Cons c s)
  obtain b bs where "utf8_char c = b # bs" "lead_width (unat b) = Suc (length bs)"
    using lead_width_utf8_char [of c] Cons.prems by auto
  then show ?case using Cons decode_utf8_char [of c] by (simp add: Let_def)
qed simp

lemma from_utf8_decodes: "from_utf8 bs = Some s \<Longrightarrow> utf8_bytes s = bs \<and> (\<forall>c \<in> set s. is_scalar c)"
proof (induction bs arbitrary: s rule: from_utf8.induct)
  case (2 b bs)
  then show ?case
    by (auto simp: Let_def split: if_splits)
qed simp

text \<open>
  The contract of \<open>BufRead\<close> without a transport failure: \<open>fill_buf\<close> shows a part of what is still to come,
  empty only at the end, and \<open>consume\<close> drops as much of it as it is told.
\<close>

definition buffers_bytes :: "'w fill_fn \<Rightarrow> 'w consume_fn \<Rightarrow> ('w \<Rightarrow> byte list) \<Rightarrow> bool" where
  "buffers_bytes fill_buf consume rest \<longleftrightarrow>
     (\<forall>w. \<exists>bs tail w'. fill_buf w = (Ok bs, w') \<and> rest w = bs @ tail \<and> rest w' = rest w \<and>
        (bs = [] \<longrightarrow> tail = []) \<and> (\<forall>n \<le> length bs. rest (consume n w') = drop n (rest w')))"

lemma buffers_bytesE:
  assumes "buffers_bytes fill_buf consume rest"
  obtains bs tail w' where "fill_buf w = (Ok bs, w')" and "rest w = bs @ tail" and "rest w' = rest w"
    and "bs = [] \<Longrightarrow> tail = []" and "\<And>n. n \<le> length bs \<Longrightarrow> rest (consume n w') = drop n (rest w')"
  proof -
  from assms have "\<exists>bs tail w'. fill_buf w = (Ok bs, w') \<and> rest w = bs @ tail \<and> rest w' = rest w \<and>
        (bs = [] \<longrightarrow> tail = []) \<and> (\<forall>n \<le> length bs. rest (consume n w') = drop n (rest w'))"
    unfolding buffers_bytes_def by blast
  then show thesis using that by blast
qed

text \<open>The line a byte stream starts with, and what is left after it and its newline.\<close>

definition first_line :: "byte list \<Rightarrow> byte list" where
  "first_line bs = takeWhile (\<lambda>b. b \<noteq> 10) bs"

definition after_line :: "byte list \<Rightarrow> byte list" where
  "after_line bs = drop (Suc (length (first_line bs))) bs"

definition strip_cr :: "byte list \<Rightarrow> byte list" where
  "strip_cr l = (if l \<noteq> [] \<and> last l = 13 then butlast l else l)"

definition line_result :: "byte list \<Rightarrow> ProviderError + rust_string option" where
  "line_result l = (case from_utf8 (strip_cr l) of None \<Rightarrow> Err invalid_response | Some s \<Rightarrow> Ok (Some s))"

lemma position_newline:
  "position (\<lambda>b. b = 10) bs = Some n \<Longrightarrow>
     n < length bs \<and> take n bs = first_line bs \<and> n = length (first_line bs) \<and> first_line (bs @ tail) = first_line bs"
  "position (\<lambda>b. b = 10) bs = None \<Longrightarrow> first_line (bs @ tail) = bs @ first_line tail"
  by (induction bs arbitrary: n) (auto simp: first_line_def split: if_splits)

lemma finish_line_result:
  "finish_line self = (r, self') \<Longrightarrow>
     map_sum id Some r = line_result (line_pending self) \<and> self' = self\<lparr>line_pending := []\<rparr>"
  by (auto simp: finish_line_def line_result_def strip_cr_def Let_def split: option.splits if_splits)

lemma line_loop_reads:
  assumes buf: "buffers_bytes fill_buf consume rest" and quiet: "\<And>w. \<not> cancellation w"
    and "max_line_bytes self < 2 ^ 64" and "length (line_pending self) \<le> max_line_bytes self"
  shows "case line_loop fill_buf consume cancellation self of (r, self') \<Rightarrow>
     r = (if rest (reader self) = [] \<and> line_pending self = [] then Ok None
          else if max_line_bytes self < length (line_pending self @ first_line (rest (reader self)))
          then Err invalid_response
          else line_result (line_pending self @ first_line (rest (reader self)))) \<and>
     max_line_bytes self' = max_line_bytes self \<and>
     (length (line_pending self @ first_line (rest (reader self))) \<le> max_line_bytes self \<longrightarrow>
        rest (reader self') = after_line (rest (reader self)))"
  using assms(3,4)
proof (induction "max_line_bytes self - length (line_pending self)" arbitrary: self rule: less_induct)
  case less
  obtain bs tail w where fill: "fill_buf (reader self) = (Ok bs, w)" and rest: "rest (reader self) = bs @ tail"
    and keep: "rest w = rest (reader self)" and eof: "bs = [] \<Longrightarrow> tail = []"
    and drops: "\<And>n. n \<le> length bs \<Longrightarrow> rest (consume n w) = drop n (rest w)"
    by (rule buffers_bytesE [OF buf, of "reader self"]) blast
  consider (eof) "bs = []" | (newline) n where "bs \<noteq> []" "position (\<lambda>b. b = 10) bs = Some n"
    | (long) "bs \<noteq> []" "position (\<lambda>b. b = 10) bs = None" "max_line_bytes self < length (line_pending self) + length bs"
    | (partial) "bs \<noteq> []" "position (\<lambda>b. b = 10) bs = None" "length (line_pending self) + length bs \<le> max_line_bytes self"
    by force
  then show ?case
  proof cases
    case eof
    then show ?thesis
      using fill rest keep quiet \<open>bs = [] \<Longrightarrow> tail = []\<close>
        finish_line_result [of "self\<lparr>reader := w\<rparr>"] less.prems
      by (subst line_loop.simps) (auto simp: Let_def first_line_def after_line_def split: prod.splits)
  next
    case newline
    note n = position_newline(1) [OF newline(2), of tail]
    show ?thesis
      using n newline fill rest keep quiet drops [of "Suc n"] less.prems
        finish_line_result [of "self\<lparr>line_pending := line_pending self @ take n bs, reader := consume (n + 1) w\<rparr>"]
      by (subst line_loop.simps)
        (auto simp: Let_def is_none_or_def after_line_def usize_checked_add_def split: prod.splits)
  next
    case long
    then show ?thesis
      using fill rest keep quiet position_newline(2) [OF long(2), of tail] less.prems
      by (subst line_loop.simps) (auto simp: Let_def is_none_or_def usize_checked_add_def)
  next
    case partial
    let ?self = "self\<lparr>line_pending := line_pending self @ bs, reader := consume (length bs) w\<rparr>"
    have step: "line_loop fill_buf consume cancellation self = line_loop fill_buf consume cancellation ?self"
      using partial fill quiet less.prems
      by (subst line_loop.simps) (auto simp: Let_def is_none_or_def usize_checked_add_def)
    have next_rest: "rest (reader ?self) = tail" using drops [of "length bs"] keep rest by simp
    have line: "first_line (rest (reader self)) = bs @ first_line tail"
      using position_newline(2) [OF partial(2), of tail] rest by simp
    then have "after_line (rest (reader self)) = after_line tail" "rest (reader self) \<noteq> []"
      using partial(1) by (simp_all add: after_line_def rest)
    moreover have "max_line_bytes ?self - length (line_pending ?self) < max_line_bytes self - length (line_pending self)"
      using partial(1,3) by (cases bs) auto
    ultimately show ?thesis
      using less.hyps [of ?self] less.prems partial step next_rest line by (simp split: prod.splits)
  qed
qed

lemma next_line_reads:
  assumes "buffers_bytes fill_buf consume rest" and "\<And>w. \<not> cancellation w"
    and "0 < max_line_bytes self" and "max_line_bytes self < 2 ^ 64"
    and "next_line fill_buf consume cancellation self = (r, self')"
  shows "r = (if rest (reader self) = [] then Ok None
              else if max_line_bytes self < length (first_line (rest (reader self))) then Err invalid_response
              else line_result (first_line (rest (reader self))))"
    and "max_line_bytes self' = max_line_bytes self"
    and "length (first_line (rest (reader self))) \<le> max_line_bytes self \<Longrightarrow>
           rest (reader self') = after_line (rest (reader self))"
  using line_loop_reads [of fill_buf consume rest cancellation "self\<lparr>line_pending := []\<rparr>", OF assms(1,2)] assms(3-5)
  by (auto simp: next_line_def)

text \<open>The bytes of a character other than an ASCII one are all above 127.\<close>

lemma utf8_char_ascii:
  assumes "is_scalar c" and "b \<in> set (utf8_char c)" and "unat b < 128"
  shows "c = unat b"
proof -
  have "unat b \<in> set (map unat (utf8_char c))" using assms(2) by simp
  then show ?thesis
    using utf8_char_shape [OF scalar_bound [OF assms(1)]] assms(3) by (auto split: if_splits)
qed

definition framable :: "rust_string \<Rightarrow> bool" where
  "framable l \<longleftrightarrow> (\<forall>c \<in> set l. is_scalar c) \<and> 10 \<notin> set l \<and> (l \<noteq> [] \<longrightarrow> last l \<noteq> 13)"

lemma framable_bytes:
  assumes "framable l"
  shows "10 \<notin> set (utf8_bytes l)" and "strip_cr (utf8_bytes l) = utf8_bytes l"
proof -
  show "10 \<notin> set (utf8_bytes l)"
  proof
    assume "10 \<in> set (utf8_bytes l)"
    then obtain c where "c \<in> set l" "10 \<in> set (utf8_char c)" by (auto simp: utf8_bytes_def)
    then show False using utf8_char_ascii [of c 10] assms by (auto simp: framable_def)
  qed
  show "strip_cr (utf8_bytes l) = utf8_bytes l"
  proof (cases l rule: rev_cases)
    case (snoc s c)
    then have c: "is_scalar c" "c \<noteq> 13" using assms by (auto simp: framable_def)
    then obtain b bs where b: "utf8_char c = b # bs" using lead_width_utf8_char by blast
    then have "last (utf8_char c) \<noteq> 13"
      using utf8_char_ascii [OF c(1), of 13] c(2) last_in_set [of "utf8_char c"] by auto
    then show ?thesis using snoc b by (auto simp: strip_cr_def utf8_bytes_def)
  qed (simp add: strip_cr_def)
qed

text \<open>What a provider that speaks in lines sends.\<close>

definition frame_lines :: "rust_string list \<Rightarrow> byte list" where
  "frame_lines ls = concat (map (\<lambda>l. utf8_bytes l @ [10]) ls)"

lemma first_line_frame:
  assumes "framable l"
  shows "first_line (utf8_bytes l @ 10 # bs) = utf8_bytes l" and "after_line (utf8_bytes l @ 10 # bs) = bs"
proof -
  have "\<forall>b \<in> set (utf8_bytes l). b \<noteq> 10" using framable_bytes(1) [OF assms] by metis
  then show "first_line (utf8_bytes l @ 10 # bs) = utf8_bytes l"
    by (simp add: first_line_def takeWhile_append2)
  then show "after_line (utf8_bytes l @ 10 # bs) = bs" by (simp add: after_line_def)
qed

lemma line_result_framable: "framable l \<Longrightarrow> line_result (utf8_bytes l) = Ok (Some l)"
  by (simp add: line_result_def framable_bytes from_utf8_encoded framable_def)

lemma next_line_framed:
  assumes "buffers_bytes fill_buf consume rest" and "\<And>w. \<not> cancellation w"
    and "0 < max_line_bytes self" and "max_line_bytes self < 2 ^ 64"
    and "rest (reader self) = utf8_bytes l @ 10 # bs" and "framable l" and "utf8_len l \<le> max_line_bytes self"
  obtains self' where "next_line fill_buf consume cancellation self = (Ok (Some l), self')"
    and "rest (reader self') = bs" and "max_line_bytes self' = max_line_bytes self"
proof -
  obtain r self' where step: "next_line fill_buf consume cancellation self = (r, self')" by fastforce
  show thesis
    using next_line_reads [of fill_buf consume rest cancellation, OF assms(1-4) step] assms(5-7) step that
    by (simp add: first_line_frame line_result_framable length_utf8_bytes)
qed

abbreviation next_lines :: "'w fill_fn \<Rightarrow> 'w consume_fn \<Rightarrow> 'w probe \<Rightarrow> nat \<Rightarrow> 'w BoundedProviderLineReader
    \<Rightarrow> (ProviderError + rust_string option) list" where
  "next_lines fill_buf consume cancellation n self \<equiv>
     map snd (fst (run_ops (\<lambda>_. next_line fill_buf consume cancellation) (replicate n ()) self))"

lemma next_lines_framed:
  assumes "buffers_bytes fill_buf consume rest" and "\<And>w. \<not> cancellation w"
    and "0 < max_line_bytes self" and "max_line_bytes self < 2 ^ 64"
    and "rest (reader self) = frame_lines ls" and "\<forall>l \<in> set ls. framable l \<and> utf8_len l \<le> max_line_bytes self"
  shows "next_lines fill_buf consume cancellation (Suc (length ls)) self = map (Ok \<circ> Some) ls @ [Ok None]"
  using assms(3-6)
proof (induction ls arbitrary: self)
  case Nil
  obtain r self' where step: "next_line fill_buf consume cancellation self = (r, self')" by fastforce
  then show ?case
    using next_line_reads(1) [of fill_buf consume rest cancellation, OF assms(1,2) _ _ step] Nil by (simp add: frame_lines_def)
next
  case (Cons l ls)
  then have "rest (reader self) = utf8_bytes l @ 10 # frame_lines ls" by (simp add: frame_lines_def)
  then obtain self' where "next_line fill_buf consume cancellation self = (Ok (Some l), self')"
    "rest (reader self') = frame_lines ls" "max_line_bytes self' = max_line_bytes self"
    using next_line_framed [of fill_buf consume rest cancellation, OF assms(1,2) Cons.prems(1,2)] Cons.prems(4) by (metis list.set_intros(1))
  then show ?case using Cons.IH [of self'] Cons.prems by simp
qed

text \<open>C36. Lines that are sent framed by newlines are read back one by one, unchanged and in order, followed
  by the end of the stream, however the transport cuts the bytes into buffers.\<close>

theorem provider_lines_roundtrip:
  assumes "buffers_bytes fill_buf consume rest" and "\<And>w. \<not> cancellation w"
    and "0 < limit" and "limit < 2 ^ 64" and "rest w = frame_lines ls"
    and "\<forall>l \<in> set ls. framable l \<and> utf8_len l \<le> limit"
  shows "next_lines fill_buf consume cancellation (Suc (length ls)) (BoundedProviderLineReader_new w limit) =
           map (Ok \<circ> Some) ls @ [Ok None]"
  using assms by (intro next_lines_framed [where rest = rest]) (simp_all add: BoundedProviderLineReader_new_def)

text \<open>A buffer of two bytes.\<close>

definition drip_fill :: "byte list fill_fn" where
  "drip_fill w = (Ok (take 2 w), w)"

lemma drip_buffers: "buffers_bytes drip_fill drop id"
proof -
  have "\<exists>more. w = take 2 w @ more \<and> (take 2 w = [] \<longrightarrow> more = [])" for w :: "byte list"
    by (rule exI [of _ "drop 2 w"]) auto
  then show ?thesis by (auto simp: buffers_bytes_def drip_fill_def)
qed

theorem provider_lines_roundtrip_witness:
  "next_lines drip_fill drop (\<lambda>_. False) 3
     (BoundedProviderLineReader_new (frame_lines [lit ''ok'', [233, 8364, 128512]]) 9) =
     [Ok (Some (lit ''ok'')), Ok (Some [233, 8364, 128512]), Ok None]"
proof -
  have "framable (lit ''ok'')" "framable [233, 8364, 128512]"
    "utf8_len (lit ''ok'') \<le> 9" "utf8_len [233, 8364, 128512] \<le> 9"
    by (simp_all add: framable_def is_scalar_def lit_def utf8_len_def utf8_width_def)
  then show ?thesis
    using provider_lines_roundtrip [OF drip_buffers, of "\<lambda>_. False" 9 _ "[lit ''ok'', [233, 8364, 128512]]"]
    by (simp add: numeral_3_eq_3)
qed

section \<open>What the asynchronous client guarantees\<close>

text \<open>The world after a number of rounds without an answer.\<close>

fun after_polls :: "('w, 'r) poll_fn \<Rightarrow> nat \<Rightarrow> 'w \<Rightarrow> 'w" where
  "after_polls poll 0 w = w"
| "after_polls poll (Suc n) w = after_polls poll n (snd (poll w))"

text \<open>Some round gives an answer or ends with the cancellation visible.\<close>

definition settles :: "('w, 'r) poll_fn \<Rightarrow> 'w probe \<Rightarrow> nat \<Rightarrow> 'w \<Rightarrow> bool" where
  "settles poll cancellation n w \<longleftrightarrow>
     (let w' = after_polls poll n w in fst (poll w') \<noteq> None \<or> cancellation (snd (poll w')))"

lemma poll_until_returns: "settles poll cancellation n w \<Longrightarrow> poll_until poll cancellation w \<noteq> None"
proof (induction n arbitrary: w)
  case 0
  then show ?case
    by (subst poll_until.simps) (auto simp: settles_def Let_def split: prod.splits option.splits)
next
  case (Suc n)
  then have "settles poll cancellation n (snd (poll w))" by (simp add: settles_def)
  from Suc.IH [OF this] show ?case
    by (subst poll_until.simps) (auto split: prod.splits option.splits)
qed

lemma async_send_Some_iff: "async_send poll cancellation w \<noteq> None \<longleftrightarrow> cancellation w \<or> poll_until poll cancellation w \<noteq> None"
  by (auto simp: async_send_def split: option.splits)

lemma async_chunk_bounded:
  assumes "async_chunk poll cancellation limit w = Some (Ok c, w')"
  shows "\<not> cancellation w'" and "c = Some bytes \<Longrightarrow> length bytes \<le> limit"
  using assms by (auto simp: async_chunk_def split: if_splits option.splits sum.splits)

lemma async_body_loop_bounded:
  assumes "async_body_loop poll cancellation max_bytes body w = Some (Ok result, w')"
    and "length body \<le> max_bytes"
  shows "length result \<le> max_bytes \<and> \<not> cancellation w'"
proof -
  have "\<forall>out. r = (Ok out, w') \<longrightarrow> length body \<le> max_bytes \<longrightarrow> length out \<le> max_bytes \<and> \<not> cancellation w'"
    if "async_body_loop poll cancellation max_bytes body w = Some r" for r
  proof (rule async_body_loop.raw_induct [where P = "\<lambda>poll cancellation max_bytes body w r.
       \<forall>out. r = (Ok out, w') \<longrightarrow> length body \<le> max_bytes \<longrightarrow> length out \<le> max_bytes \<and> \<not> cancellation w'", OF _ that])
    fix f :: "('a, byte list option) poll_fn \<Rightarrow> 'a probe \<Rightarrow> nat \<Rightarrow> byte list \<Rightarrow> 'a
        \<Rightarrow> ((ProviderError + byte list) \<times> 'a) option"
      and poll :: "('a, byte list option) poll_fn" and cancellation max_bytes body w r
    assume IH: "\<And>poll cancellation max_bytes body w r. f poll cancellation max_bytes body w = Some r \<Longrightarrow>
        \<forall>out. r = (Ok out, w') \<longrightarrow> length body \<le> max_bytes \<longrightarrow> length out \<le> max_bytes \<and> \<not> cancellation w'"
      and eq: "(case async_chunk poll cancellation (usize_saturating_add (max_bytes - length body) 1) w of
        None \<Rightarrow> None
      | Some (Err e, w') \<Rightarrow> Some (Err e, w')
      | Some (Ok None, w') \<Rightarrow> Some (Ok body, w')
      | Some (Ok (Some chunk), w') \<Rightarrow>
          if length chunk > max_bytes - length body then Some (Err invalid_response, w')
          else f poll cancellation max_bytes (body @ chunk) w') = Some r"
    show "\<forall>out. r = (Ok out, w') \<longrightarrow> length body \<le> max_bytes \<longrightarrow> length out \<le> max_bytes \<and> \<not> cancellation w'"
      using eq by (auto split: option.splits sum.splits if_splits prod.splits
          dest: async_chunk_bounded(1) dest!: IH)
  qed
  then show ?thesis using assms by blast
qed

text \<open>A body that is read while the turn is revoked ends with the cancellation and nothing else.\<close>

lemma async_chunk_cancelled:
  "async_chunk poll cancellation limit w = Some (r, w') \<Longrightarrow> limit \<noteq> 0 \<Longrightarrow> cancellation w' \<Longrightarrow> r = Err cancelled"
  by (auto simp: async_chunk_def split: if_splits option.splits sum.splits)

lemma async_body_loop_cancelled:
  assumes "async_body_loop poll cancellation max_bytes body w = Some (r, w')" and "cancellation w'"
  shows "r = Err cancelled"
proof -
  have "\<forall>q w'. r = (q, w') \<longrightarrow> cancellation w' \<longrightarrow> q = Err cancelled"
    if "async_body_loop poll cancellation max_bytes body w = Some r" for r
  proof (rule async_body_loop.raw_induct [where P = "\<lambda>poll cancellation max_bytes body w r.
      \<forall>q w'. r = (q, w') \<longrightarrow> cancellation w' \<longrightarrow> q = Err cancelled", OF _ that])
    fix f :: "('a, byte list option) poll_fn \<Rightarrow> 'a probe \<Rightarrow> nat \<Rightarrow> byte list \<Rightarrow> 'a \<Rightarrow> ((ProviderError + byte list) \<times> 'a) option"
      and poll cancellation max_bytes body w r
    assume IH: "\<And>poll cancellation max_bytes body w r. f poll cancellation max_bytes body w = Some r \<Longrightarrow>
        \<forall>q w'. r = (q, w') \<longrightarrow> cancellation w' \<longrightarrow> q = Err cancelled"
      and eq: "(case async_chunk poll cancellation (usize_saturating_add (max_bytes - length body) 1) w of
        None \<Rightarrow> None
      | Some (Err e, w') \<Rightarrow> Some (Err e, w')
      | Some (Ok None, w') \<Rightarrow> Some (Ok body, w')
      | Some (Ok (Some chunk), w') \<Rightarrow>
          if length chunk > max_bytes - length body then Some (Err invalid_response, w')
          else f poll cancellation max_bytes (body @ chunk) w') = Some r"
    have pos: "usize_saturating_add (max_bytes - length body) 1 \<noteq> 0" using usize_saturating_add_pos by simp
    show "\<forall>q w'. r = (q, w') \<longrightarrow> cancellation w' \<longrightarrow> q = Err cancelled"
      using eq by (auto split: option.splits sum.splits if_splits prod.splits
          dest: async_chunk_cancelled [OF _ pos [unfolded One_nat_def]] dest!: IH)
  qed
  then show ?thesis using assms by blast
qed

lemma poll_until_unanswered:
  assumes "poll_until poll cancellation w = Some (r, w')" and never: "\<And>v. fst (poll v) = None"
  shows "cancellation w'"
proof -
  have "(\<forall>v. fst (poll v) = None) \<longrightarrow> cancellation (snd r)" if "poll_until poll cancellation w = Some r" for r
    by (rule poll_until.raw_induct
      [where P = "\<lambda>poll cancellation w r. (\<forall>v. fst (poll v) = None) \<longrightarrow> cancellation (snd r)", OF _ that])
      (auto split: prod.splits option.splits if_splits; metis fst_conv option.distinct(1))
  then show ?thesis using assms by force
qed



end
