(* ===== verification/VPR_Remote_Media.thy ===== *)
theory VPR_Remote_Media
  imports VPR_Provider_Http
begin

text \<open>
  Remote media operations of a visitor session: the client of the worker's operation endpoint
  (\<^verbatim>\<open>crates/vpr-provider-local-open-source/src/operation_client.rs\<close>) and the bridge from the owner's revocation
  to the worker's STOP protocol (\<^verbatim>\<open>crates/vpr-owner-lab/src/rt1_remote_media_revocation.rs\<close>).

  The worker is a remote service: what it answers to a request, and how its state \<open>'w\<close> changes, are parameters,
  and so is the JSON decoder. Response bodies go through the bounded reader of \<open>VPR_Provider_Http\<close>.

  The bridge is shared between the thread of the owner's revocation and those of the visitor's signaling. Its mutex
  \<open>stop_gate\<close> makes the body of every method one step, except that the owner's thread sets \<open>revoked\<close>
  before it takes the gate: that store is a step of its own (\<open>store_revoked\<close>), and it can also happen while
  \<open>submit_answer\<close> waits for the worker.
\<close>

section \<open>The operation client\<close>

datatype http_method = PUT | GET | POST | DELETE

datatype request_body = NoBody | GenerationBody u64 | AnswerBody rust_string

record http_request =
  req_method :: http_method
  req_base :: rust_string
  req_path :: "rust_string list"
  req_token :: rust_string
  req_body :: request_body

record 'b http_response =
  status :: nat
  declared_length :: "u64 option"
  body_state :: 'b

record CreateReply =
  create_operation_id :: rust_string
  create_session_id :: rust_string

record RemoteIceServer =
  ice_urls :: "rust_string list"
  ice_username :: "rust_string option"
  ice_credential :: "rust_string option"

record RemoteOffer =
  offer_kind :: rust_string
  offer_sdp :: rust_string
  offer_ice_servers :: "RemoteIceServer list"

record OfferReply =
  offer_reply_operation_id :: rust_string
  offer_reply_session_id :: rust_string
  offer_reply_kind :: rust_string
  offer_reply_sdp :: rust_string
  offer_reply_ice_servers :: "RemoteIceServer list"

record AnswerReply =
  answer_operation_id :: rust_string
  accepted :: bool

record CancelReply =
  cancel_operation_id :: rust_string
  cancel_session_id :: rust_string
  cancel_generation :: u64
  audio_stopped :: bool
  video_stopped :: bool

record OperationStatus =
  status_operation_id :: rust_string
  status_generation :: u64
  phase :: rust_string
  status_session_id :: "rust_string option"
  stop_confirmed :: bool

text \<open>The JSON decoder of every reply and the way a response body is read.\<close>

record 'b reply_codec =
  read_body :: "'b read_fn"
  parse_create :: "byte list \<Rightarrow> CreateReply option"
  parse_offer :: "byte list \<Rightarrow> OfferReply option"
  parse_answer :: "byte list \<Rightarrow> AnswerReply option"
  parse_cancel :: "byte list \<Rightarrow> CancelReply option"
  parse_status :: "byte list \<Rightarrow> OperationStatus option"

type_synonym ('w, 'b) http_send = "http_request \<Rightarrow> ('w, 'b http_response, unit) op"

record RemoteOperationClient =
  base :: rust_string
  token :: rust_string

definition denied :: ProviderError where
  "denied = \<lparr>provider_error_kind = ProviderErrorKind.Unavailable, provider_retryable = False\<rparr>"

definition is_success :: "nat \<Rightarrow> bool" where
  "is_success s \<longleftrightarrow> 200 \<le> s \<and> s < 300"

definition operation_id_byte :: "byte \<Rightarrow> bool" where
  "operation_id_byte b \<longleftrightarrow>
     48 \<le> b \<and> b \<le> 57 \<or> 65 \<le> b \<and> b \<le> 90 \<or> 97 \<le> b \<and> b \<le> 122 \<or> b = 45 \<or> b = 95"

definition valid_operation_id :: "rust_string \<Rightarrow> bool" where
  "valid_operation_id i \<longleftrightarrow> i \<noteq> [] \<and> utf8_len i \<le> 128 \<and> list_all operation_id_byte (utf8_bytes i)"

definition operation_url :: "rust_string \<Rightarrow> ProviderError + rust_string list" where
  "operation_url operation_id =
     (if \<not> valid_operation_id operation_id then Err denied
      else Ok [lit ''v1'', lit ''avatar'', lit ''operations'', operation_id])"

definition decode_json_response ::
  "'b reply_codec \<Rightarrow> (byte list \<Rightarrow> 'r option) \<Rightarrow> 'b http_response \<Rightarrow> ProviderError + 'r" where
  "decode_json_response codec parse response =
     (case fst (read_bounded_provider_body (declared_length response) MAX_PROVIDER_JSON_BODY_BYTES None
                  (read_body codec) (body_state response)) of
        Err e \<Rightarrow> Err e
      | Ok body \<Rightarrow> ok_or (parse body) invalid_response)"

text \<open>
  Every call sends one request and looks at one reply. \<open>extra\<close> are the path segments after the operation,
  \<open>good\<close> the accepted status codes and \<open>accept\<close> the checks of the decoded reply.
\<close>

definition exchange :: "RemoteOperationClient \<Rightarrow> ('w, 'b) http_send \<Rightarrow> 'b reply_codec
    \<Rightarrow> (byte list \<Rightarrow> 'r option) \<Rightarrow> http_method \<Rightarrow> rust_string \<Rightarrow> rust_string list \<Rightarrow> request_body
    \<Rightarrow> (nat \<Rightarrow> bool) \<Rightarrow> ('r \<Rightarrow> bool) \<Rightarrow> ('w, 'r, ProviderError) op" where
  "exchange self send codec parse method operation_id extra body good accept w =
     (case operation_url operation_id of
        Err e \<Rightarrow> (Err e, w)
      | Ok path \<Rightarrow>
     (case send \<lparr>req_method = method, req_base = base self, req_path = path @ extra, req_token = token self,
                  req_body = body\<rparr> w of
        (Err _, w') \<Rightarrow> (Err denied, w')
      | (Ok response, w') \<Rightarrow>
          if \<not> good (status response) then (Err denied, w')
          else case decode_json_response codec parse response of
            Err _ \<Rightarrow> (Err denied, w')
          | Ok reply \<Rightarrow> (if accept reply then Ok reply else Err denied, w')))"

definition create :: "RemoteOperationClient \<Rightarrow> ('w, 'b) http_send \<Rightarrow> 'b reply_codec \<Rightarrow> rust_string \<Rightarrow> u64
    \<Rightarrow> ('w, rust_string, ProviderError) op" where
  "create self send codec operation_id generation w =
     (if generation = 0 then (Err denied, w)
      else case exchange self send codec (parse_create codec) PUT operation_id [] (GenerationBody generation)
              is_success (\<lambda>reply. create_operation_id reply = operation_id \<and> create_session_id reply \<noteq> []) w of
        (r, w') \<Rightarrow> (map_sum id create_session_id r, w'))"

definition offer :: "RemoteOperationClient \<Rightarrow> ('w, 'b) http_send \<Rightarrow> 'b reply_codec \<Rightarrow> rust_string \<Rightarrow> rust_string
    \<Rightarrow> ('w, RemoteOffer, ProviderError) op" where
  "offer self send codec operation_id session_id w =
     (case exchange self send codec (parse_offer codec) GET operation_id [lit ''offer''] NoBody is_success
             (\<lambda>reply. offer_reply_operation_id reply = operation_id \<and> offer_reply_session_id reply = session_id \<and>
                offer_reply_kind reply = lit ''offer'' \<and> \<not> blank (offer_reply_sdp reply)) w of
        (r, w') \<Rightarrow>
          (map_sum id (\<lambda>reply. \<lparr>offer_kind = offer_reply_kind reply, offer_sdp = offer_reply_sdp reply,
                                offer_ice_servers = offer_reply_ice_servers reply\<rparr>) r, w'))"

definition answer :: "RemoteOperationClient \<Rightarrow> ('w, 'b) http_send \<Rightarrow> 'b reply_codec \<Rightarrow> rust_string \<Rightarrow> rust_string
    \<Rightarrow> ('w, unit, ProviderError) op" where
  "answer self send codec operation_id sdp w =
     (if blank sdp then (Err denied, w)
      else case exchange self send codec (parse_answer codec) POST operation_id [lit ''answer''] (AnswerBody sdp)
              (\<lambda>s. s = 200) (\<lambda>reply. answer_operation_id reply = operation_id \<and> accepted reply) w of
        (r, w') \<Rightarrow> (map_sum id (\<lambda>_. ()) r, w'))"

definition stop_receipt :: "rust_string \<Rightarrow> u64 \<Rightarrow> CancelReply \<Rightarrow> bool" where
  "stop_receipt operation_id generation reply \<longleftrightarrow>
     cancel_operation_id reply = operation_id \<and> cancel_generation reply = generation \<and>
     cancel_session_id reply \<noteq> [] \<and> audio_stopped reply \<and> video_stopped reply"

definition cancel_confirmed :: "RemoteOperationClient \<Rightarrow> ('w, 'b) http_send \<Rightarrow> 'b reply_codec \<Rightarrow> rust_string \<Rightarrow> u64
    \<Rightarrow> ('w, rust_string, ProviderError) op" where
  "cancel_confirmed self send codec operation_id generation w =
     (if generation = 0 then (Err denied, w)
      else case exchange self send codec (parse_cancel codec) DELETE operation_id [] (GenerationBody generation)
              (\<lambda>s. is_success s \<and> s \<noteq> 202) (stop_receipt operation_id generation) w of
        (r, w') \<Rightarrow> (map_sum id cancel_session_id r, w'))"

definition operation_status :: "RemoteOperationClient \<Rightarrow> ('w, 'b) http_send \<Rightarrow> 'b reply_codec \<Rightarrow> rust_string
    \<Rightarrow> ('w, OperationStatus, ProviderError) op" where
  "operation_status self send codec operation_id w =
     exchange self send codec (parse_status codec) GET operation_id [] NoBody is_success
       (\<lambda>state. status_operation_id state = operation_id \<and> status_generation state \<noteq> 0 \<and>
          phase state \<in> {lit ''creating'', lit ''active'', lit ''stopping'', lit ''stopped'', lit ''uncertain''} \<and>
          \<not> (stop_confirmed state \<and> (phase state \<noteq> lit ''stopped'' \<or> status_session_id state = None))) w"

section \<open>The revocation bridge\<close>

record Rt1RemoteMediaRevocation =
  worker :: RemoteOperationClient
  operation_id :: rust_string
  generation :: u64
  media_revoked :: bool
  confirmed :: bool
  created_session_id :: "rust_string option"
  confirmed_session_id :: "rust_string option"
  identity_conflict :: bool

definition Rt1RemoteMediaRevocation_new ::
  "RemoteOperationClient \<Rightarrow> rust_string \<Rightarrow> u64 \<Rightarrow> rust_string + Rt1RemoteMediaRevocation" where
  "Rt1RemoteMediaRevocation_new client i gen =
     (if gen = 0 \<or> \<not> valid_operation_id i then Err (lit ''invalid remote operation identity'')
      else Ok \<lparr>worker = client, operation_id = i, generation = gen, media_revoked = False, confirmed = False,
               created_session_id = None, confirmed_session_id = None, identity_conflict = False\<rparr>)"

type_synonym 'w media = "Rt1RemoteMediaRevocation \<times> 'w"

definition cancel_locked :: "('w, 'b) http_send \<Rightarrow> 'b reply_codec \<Rightarrow> ('w media, unit, rust_string) op" where
  "cancel_locked send codec = (\<lambda>(self, w).
     if identity_conflict self then (Err (lit ''RT1_REMOTE_SESSION_ID_CONFLICT''), (self, w))
     else if confirmed self then (Ok (), (self, w))
     else case cancel_confirmed (worker self) send codec (operation_id self) (generation self) w of
       (Err _, w') \<Rightarrow> (Err (lit ''RT1_REMOTE_MEDIA_STOP_UNCONFIRMED''), (self, w'))
     | (Ok stopped_session, w') \<Rightarrow>
         if is_some_and (\<lambda>created. created \<noteq> stopped_session) (created_session_id self)
         then (Err (lit ''RT1_REMOTE_MEDIA_STOP_IDENTITY_MISMATCH''),
               (self\<lparr>identity_conflict := True, confirmed := False\<rparr>, w'))
         else (Ok (), (self\<lparr>confirmed_session_id := Some stopped_session, confirmed := True\<rparr>, w')))"

definition record_created_session ::
  "('w, 'b) http_send \<Rightarrow> 'b reply_codec \<Rightarrow> rust_string \<Rightarrow> ('w media, unit, rust_string) op" where
  "record_created_session send codec session_id = (\<lambda>(self, w).
     if blank session_id then (Err (lit ''RT1_REMOTE_SESSION_ID_INVALID''), (self, w))
     else if identity_conflict self then (Err (lit ''RT1_REMOTE_SESSION_ID_CONFLICT''), (self, w))
     else if is_some_and (\<lambda>previous. previous \<noteq> session_id) (created_session_id self) \<or>
             is_some_and (\<lambda>conf. conf \<noteq> session_id) (confirmed_session_id self)
     then (Err (lit ''RT1_REMOTE_SESSION_ID_CONFLICT''),
           (self\<lparr>identity_conflict := True, media_revoked := True, confirmed := False\<rparr>, w))
     else let self = self\<lparr>created_session_id := Some session_id\<rparr>
          in if media_revoked self then
               (if confirmed self then (Err (lit ''RT1_VISITOR_REVOKED''), (self, w))
                else case cancel_locked send codec (self, w) of
                  (Err e, s) \<Rightarrow> (Err e, s)
                | (Ok _, s) \<Rightarrow> (Err (lit ''RT1_VISITOR_REVOKED''), s))
             else (Ok (), (self, w)))"

text \<open>The owner's revocation: the store before the gate, and the rest under it.\<close>

definition store_revoked :: "'w media \<Rightarrow> 'w media" where
  "store_revoked = (\<lambda>(self, w). (self\<lparr>media_revoked := True\<rparr>, w))"

definition revoke_under_gate :: "('w, 'b) http_send \<Rightarrow> 'b reply_codec \<Rightarrow> ('w media, unit, rust_string) op" where
  "revoke_under_gate send codec s = (if confirmed (fst s) then (Ok (), s) else cancel_locked send codec s)"

definition revoke_confirmed :: "('w, 'b) http_send \<Rightarrow> 'b reply_codec \<Rightarrow> ('w media, unit, rust_string) op" where
  "revoke_confirmed send codec s = revoke_under_gate send codec (store_revoked s)"

text \<open>\<open>owner_revokes\<close>: the owner's thread stores \<open>revoked\<close> while the worker is asked.\<close>

definition submit_answer ::
  "('w, 'b) http_send \<Rightarrow> 'b reply_codec \<Rightarrow> rust_string \<Rightarrow> bool \<Rightarrow> ('w media, unit, rust_string) op" where
  "submit_answer send codec sdp owner_revokes = (\<lambda>(self, w).
     if media_revoked self then (Err (lit ''RT1_VISITOR_REVOKED''), (self, w))
     else case answer (worker self) send codec (operation_id self) sdp w of
       (r, w') \<Rightarrow>
         let self = self\<lparr>media_revoked := owner_revokes\<rparr>
         in case r of
              Err _ \<Rightarrow>
                (case cancel_locked send codec (self\<lparr>media_revoked := True\<rparr>, w') of
                   (Err e, s) \<Rightarrow> (Err e, s)
                 | (Ok _, s) \<Rightarrow> (Err (lit ''RT1_REMOTE_ANSWER_UNCONFIRMED''), s))
            | Ok _ \<Rightarrow>
                if media_revoked self then
                  (case cancel_locked send codec (self, w') of
                     (Err e, s) \<Rightarrow> (Err e, s)
                   | (Ok _, s) \<Rightarrow> (Err (lit ''RT1_VISITOR_REVOKED''), s))
                else (Ok (), (self, w')))"

definition is_revoked :: "'w media \<Rightarrow> bool" where
  "is_revoked s = media_revoked (fst s)"

definition is_stop_confirmed :: "'w media \<Rightarrow> bool" where
  "is_stop_confirmed s = confirmed (fst s)"

section \<open>Histories\<close>

text \<open>
  The calls of all threads on one bridge. The owner's thread takes the gate only after its store, and nothing
  clears the flag, so that step needs a revoked bridge.
\<close>

datatype media_event = Created rust_string | OwnerStore | OwnerGate | Answered rust_string bool

fun media_op :: "('w, 'b) http_send \<Rightarrow> 'b reply_codec \<Rightarrow> media_event \<Rightarrow> ('w media, unit, rust_string) op" where
  "media_op send codec (Created i) s = record_created_session send codec i s"
| "media_op send codec OwnerStore s = (Ok (), store_revoked s)"
| "media_op send codec OwnerGate s = revoke_under_gate send codec s"
| "media_op send codec (Answered sdp owner_revokes) s = submit_answer send codec sdp owner_revokes s"

fun legal :: "('w, 'b) http_send \<Rightarrow> 'b reply_codec \<Rightarrow> media_event list \<Rightarrow> 'w media \<Rightarrow> bool" where
  "legal send codec [] s = True"
| "legal send codec (e # es) s \<longleftrightarrow> (e = OwnerGate \<longrightarrow> is_revoked s) \<and> legal send codec es (snd (media_op send codec e s))"

lemma media_run_invariant:
  assumes step: "\<And>e s. I s \<Longrightarrow> (e = OwnerGate \<Longrightarrow> is_revoked s) \<Longrightarrow> I (snd (media_op send codec e s))"
    and "legal send codec es s" and "I s"
  shows "I (final (media_op send codec) es s)"
  using assms(2,3) by (induction es arbitrary: s) (simp_all add: step)

text \<open>The exchanges with the worker, as a log beside its state.\<close>

type_synonym 'b exchange_log = "(http_request \<times> (unit + 'b http_response)) list"

definition logged_send :: "('w, 'b) http_send \<Rightarrow> ('w \<times> 'b exchange_log, 'b) http_send" where
  "logged_send send req = (\<lambda>(w, log). case send req w of (r, w') \<Rightarrow> (r, (w', log @ [(req, r)])))"

text \<open>An exchange that proves a stop: the worker's positive receipt for both senders of this very operation.\<close>

definition proves_stop :: "'b reply_codec \<Rightarrow> rust_string \<Rightarrow> u64 \<Rightarrow> rust_string
    \<Rightarrow> http_request \<times> (unit + 'b http_response) \<Rightarrow> bool" where
  "proves_stop codec i gen sid = (\<lambda>(req, answered).
     req_method req = DELETE \<and> req_body req = GenerationBody gen \<and>
     req_path req = [lit ''v1'', lit ''avatar'', lit ''operations'', i] \<and>
     (\<exists>response reply. answered = Ok response \<and> is_success (status response) \<and> status response \<noteq> 202 \<and>
        decode_json_response codec (parse_cancel codec) response = Ok reply \<and>
        stop_receipt i gen reply \<and> cancel_session_id reply = sid))"

lemma cancel_confirmed_logged:
  assumes "cancel_confirmed client (logged_send send) codec i gen (w, log) = (r, (w', log'))"
  shows "\<exists>new. log' = log @ new \<and> (\<forall>x \<in> set new. req_method (fst x) = DELETE) \<and>
           (\<forall>sid. r = Ok sid \<longrightarrow> (\<exists>x \<in> set new. proves_stop codec i gen sid x))"
proof -
  have "log' = log \<and> \<not> is_ok r \<or>
    (\<exists>x. log' = log @ [x] \<and> req_method (fst x) = DELETE \<and> (\<forall>sid. r = Ok sid \<longrightarrow> proves_stop codec i gen sid x))"
    using assms
    by (auto simp: cancel_confirmed_def exchange_def operation_url_def logged_send_def proves_stop_def
        split: if_splits prod.splits sum.splits dest!: sym [of "Inr _"])
  then show ?thesis by fastforce
qed

lemma answer_logged:
  assumes "answer client (logged_send send) codec i sdp (w, log) = (r, (w', log'))"
  shows "\<exists>new. log' = log @ new"
  using assms
  by (auto simp: answer_def exchange_def operation_url_def logged_send_def split: if_splits prod.splits sum.splits)

section \<open>The invariant of the bridge\<close>

definition media_inv :: "'b reply_codec \<Rightarrow> rust_string \<Rightarrow> u64 \<Rightarrow> ('w \<times> 'b exchange_log) media \<Rightarrow> bool" where
  "media_inv codec i gen = (\<lambda>(self, (w, log)).
     operation_id self = i \<and> generation self = gen \<and>
     (confirmed self \<longrightarrow> media_revoked self \<and> \<not> identity_conflict self \<and>
        (\<exists>sid. confirmed_session_id self = Some sid \<and> created_session_id self \<in> {None, Some sid} \<and>
           (\<exists>x \<in> set log. proves_stop codec i gen sid x))) \<and>
     (identity_conflict self \<longrightarrow> media_revoked self) \<and>
     (confirmed_session_id self \<noteq> None \<and> \<not> identity_conflict self \<longrightarrow> confirmed self))"

text \<open>What happens to a revoked bridge: it stays revoked, keeps a conflict, and sends nothing but STOP.\<close>

definition stays_revoked :: "('w \<times> 'b exchange_log) media \<Rightarrow> ('w \<times> 'b exchange_log) media \<Rightarrow> bool" where
  "stays_revoked s s' \<longleftrightarrow>
     is_revoked s' \<and> (identity_conflict (fst s) \<longrightarrow> identity_conflict (fst s')) \<and>
     (\<exists>new. snd (snd s') = snd (snd s) @ new \<and> (\<forall>x \<in> set new. req_method (fst x) = DELETE))"

lemma stays_revoked_refl: "is_revoked s \<Longrightarrow> stays_revoked s s"
  by (auto simp: stays_revoked_def)

lemma stays_revoked_trans: "stays_revoked s s' \<Longrightarrow> stays_revoked s' s'' \<Longrightarrow> stays_revoked s s''"
proof -
  assume a: "stays_revoked s s'" "stays_revoked s' s''"
  then obtain n1 n2 where "snd (snd s') = snd (snd s) @ n1" "\<forall>x \<in> set n1. req_method (fst x) = DELETE"
    "snd (snd s'') = snd (snd s') @ n2" "\<forall>x \<in> set n2. req_method (fst x) = DELETE"
    by (auto simp: stays_revoked_def)
  then have "snd (snd s'') = snd (snd s) @ (n1 @ n2)" "\<forall>x \<in> set (n1 @ n2). req_method (fst x) = DELETE" by auto
  then show ?thesis using a unfolding stays_revoked_def by blast
qed

lemma cancel_locked_step:
  assumes "cancel_locked (logged_send send) codec s = (r, s')" and "is_revoked s"
  shows "stays_revoked s s'" and "media_inv codec i gen s \<Longrightarrow> media_inv codec i gen s'"
    and "identity_conflict (fst s) \<Longrightarrow> \<not> is_ok r"
proof -
  obtain self w log where s: "s = (self, (w, log))" by (cases s) auto
  obtain r0 w' log' where c: "cancel_confirmed (worker self) (logged_send send) codec (operation_id self)
      (generation self) (w, log) = (r0, (w', log'))" by (metis prod.exhaust)
  obtain new where new: "log' = log @ new" "\<forall>x \<in> set new. req_method (fst x) = DELETE"
    "\<And>sid. r0 = Ok sid \<Longrightarrow> \<exists>x \<in> set new. proves_stop codec (operation_id self) (generation self) sid x"
    using cancel_confirmed_logged [OF c] by blast
  show "stays_revoked s s'"
    using assms new(1,2) by (auto simp: cancel_locked_def s c stays_revoked_def is_revoked_def split: if_splits sum.splits)
  show "media_inv codec i gen s'" if "media_inv codec i gen s"
    using assms that new
    by (auto simp: cancel_locked_def s c media_inv_def is_revoked_def is_some_and_def
        split: if_splits sum.splits option.splits)
  show "identity_conflict (fst s) \<Longrightarrow> \<not> is_ok r"
    using assms(1) by (auto simp: cancel_locked_def s)
qed

lemma record_created_step:
  assumes "record_created_session (logged_send send) codec sid s = (r, s')"
  shows "is_revoked s \<Longrightarrow> stays_revoked s s' \<and> \<not> is_ok r"
    and "media_inv codec i gen s \<Longrightarrow> media_inv codec i gen s'"
proof -
  obtain self w where s: "s = (self, w)" by (cases s)
  let ?bound = "(self\<lparr>created_session_id := Some sid\<rparr>, w)"
  obtain r0 s0 where c: "cancel_locked (logged_send send) codec ?bound = (r0, s0)" by (meson surj_pair)
  have keep: "is_revoked s \<Longrightarrow> stays_revoked s ?bound"
    by (auto simp: s stays_revoked_def is_revoked_def)
  have chain: "stays_revoked s s0" if "is_revoked s"
  proof -
    have "stays_revoked ?bound s0"
      using that by (intro cancel_locked_step(1) [OF c]) (simp add: s is_revoked_def)
    then show ?thesis by (rule stays_revoked_trans [OF keep [OF that]])
  qed
  show "is_revoked s \<Longrightarrow> stays_revoked s s' \<and> \<not> is_ok r"
    using assms chain keep
    by (auto simp: record_created_session_def s c Let_def is_revoked_def stays_revoked_def split: if_splits sum.splits)
  assume inv: "media_inv codec i gen s"
  consider (early) "s' = s" | (conflict) "s' = (self\<lparr>identity_conflict := True, media_revoked := True, confirmed := False\<rparr>, w)"
    | (bound) "s' = ?bound" "\<not> is_some_and (\<lambda>conf. conf \<noteq> sid) (confirmed_session_id self)"
    | (cancelled) "s' = s0" "\<not> is_some_and (\<lambda>conf. conf \<noteq> sid) (confirmed_session_id self)" "media_revoked self"
    using assms by (auto simp: record_created_session_def s c Let_def split: if_splits sum.splits)
  moreover have "media_inv codec i gen ?bound" if "\<not> is_some_and (\<lambda>conf. conf \<noteq> sid) (confirmed_session_id self)"
    using inv that by (auto simp: s media_inv_def is_some_and_def split: option.splits)
  ultimately show "media_inv codec i gen s'"
  proof cases
    case conflict
    then show ?thesis using inv by (auto simp: s media_inv_def)
  next
    case cancelled
    then show ?thesis
      using cancel_locked_step(2) [OF c] \<open>_ \<Longrightarrow> media_inv codec i gen ?bound\<close> by (simp add: is_revoked_def)
  qed (use inv in auto)
qed

lemma submit_answer_step:
  assumes "submit_answer (logged_send send) codec sdp owner_revokes s = (r, s')"
  shows "is_revoked s \<Longrightarrow> stays_revoked s s' \<and> \<not> is_ok r"
    and "media_inv codec i gen s \<Longrightarrow> media_inv codec i gen s'"
    and "is_ok r \<Longrightarrow> \<not> is_revoked s'"
proof -
  obtain self w log where s: "s = (self, (w, log))" by (cases s) auto
  show "is_revoked s \<Longrightarrow> stays_revoked s s' \<and> \<not> is_ok r"
    using assms by (auto simp: submit_answer_def s is_revoked_def stays_revoked_def)
  obtain r0 w' log' where a: "answer (worker self) (logged_send send) codec (operation_id self) sdp (w, log) = (r0, (w', log'))"
    by (metis prod.exhaust)
  let ?s = "\<lambda>b. (self\<lparr>media_revoked := b\<rparr>, (w', log'))"
  obtain r1 s1 where c: "cancel_locked (logged_send send) codec (?s True) = (r1, s1)" by (meson surj_pair)
  have cases: "is_revoked s \<and> s' = s \<or> s' = s1 \<or> s' = ?s False"
    using assms a c by (cases r0; cases r1; cases owner_revokes) (auto simp: submit_answer_def s Let_def is_revoked_def split: if_splits)
  show "is_ok r \<Longrightarrow> \<not> is_revoked s'"
    using assms a c by (cases r0; cases r1; cases owner_revokes) (auto simp: submit_answer_def s Let_def is_revoked_def split: if_splits)
  assume inv: "media_inv codec i gen s"
  show "media_inv codec i gen s'"
  proof (cases "media_revoked self")
    case True
    then show ?thesis using assms inv by (auto simp: submit_answer_def s)
  next
    case False
    then have "media_inv codec i gen (?s b)" for b
      using inv answer_logged [OF a] by (auto simp: s media_inv_def)
    then show ?thesis
      using cases False inv cancel_locked_step(2) [OF c] by (auto simp: is_revoked_def s)
  qed
qed

lemma media_op_step:
  assumes "e = OwnerGate \<Longrightarrow> is_revoked s" and "media_op (logged_send send) codec e s = (r, s')"
  shows "is_revoked s \<Longrightarrow> stays_revoked s s'" and "media_inv codec i gen s \<Longrightarrow> media_inv codec i gen s'"
    and "is_revoked s \<Longrightarrow> e \<notin> {OwnerStore, OwnerGate} \<Longrightarrow> \<not> is_ok r"
    and "media_inv codec i gen s \<Longrightarrow> identity_conflict (fst s) \<Longrightarrow> e \<noteq> OwnerStore \<Longrightarrow> \<not> is_ok r"
proof -
  have store: "stays_revoked s (store_revoked s)" if "is_revoked s" for s :: "('a \<times> 'b exchange_log) media"
    using that by (cases s) (auto simp: store_revoked_def stays_revoked_def is_revoked_def)
  have store_inv: "media_inv codec i gen s \<Longrightarrow> media_inv codec i gen (store_revoked s)"
    by (cases s) (auto simp: store_revoked_def media_inv_def)
  have gate: "is_revoked s" "revoke_under_gate (logged_send send) codec s = (r, s')" if "e = OwnerGate"
    using assms that by simp_all
  show rev: "is_revoked s \<Longrightarrow> stays_revoked s s'"
    using assms
    by (cases e) (auto simp: revoke_under_gate_def split: if_splits intro: store stays_revoked_refl
        dest: record_created_step(1) submit_answer_step(1) cancel_locked_step(1))
  show "media_inv codec i gen s \<Longrightarrow> media_inv codec i gen s'"
    using assms store_inv
    by (cases e) (auto simp: revoke_under_gate_def split: if_splits
        intro: record_created_step(2) submit_answer_step(2) cancel_locked_step(2))
  show "is_revoked s \<Longrightarrow> e \<notin> {OwnerStore, OwnerGate} \<Longrightarrow> \<not> is_ok r"
    using assms by (cases e) (auto dest: record_created_step(1) submit_answer_step(1))
  then show "media_inv codec i gen s \<Longrightarrow> identity_conflict (fst s) \<Longrightarrow> e \<noteq> OwnerStore \<Longrightarrow> \<not> is_ok r"
    using gate cancel_locked_step(3) [of send codec s r s']
    by (cases "e = OwnerGate") (auto simp: media_inv_def is_revoked_def revoke_under_gate_def split: prod.splits)
qed

lemma media_history:
  assumes "legal (logged_send send) codec es s" and "media_inv codec i gen s"
  shows "media_inv codec i gen (final (media_op (logged_send send) codec) es s)"
    and "is_revoked s \<Longrightarrow> stays_revoked s (final (media_op (logged_send send) codec) es s)"
    and "is_revoked s \<Longrightarrow> (e, r) \<in> set (fst (run_ops (media_op (logged_send send) codec) es s)) \<Longrightarrow>
           e \<notin> {OwnerStore, OwnerGate} \<Longrightarrow> \<not> is_ok r"
    and "identity_conflict (fst s) \<Longrightarrow> (e, r) \<in> set (fst (run_ops (media_op (logged_send send) codec) es s)) \<Longrightarrow>
           e \<noteq> OwnerStore \<Longrightarrow> \<not> is_ok r"
proof -
  let ?run = "run_ops (media_op (logged_send send) codec)"
  have "media_inv codec i gen (snd (?run es s)) \<and>
    (is_revoked s \<longrightarrow> stays_revoked s (snd (?run es s)) \<and>
       (\<forall>(e, r) \<in> set (fst (?run es s)). e \<notin> {OwnerStore, OwnerGate} \<longrightarrow> \<not> is_ok r) \<and>
       (identity_conflict (fst s) \<longrightarrow> (\<forall>(e, r) \<in> set (fst (?run es s)). e \<noteq> OwnerStore \<longrightarrow> \<not> is_ok r)))"
    using assms
  proof (induction es arbitrary: s)
    case Nil
    then show ?case by (simp add: stays_revoked_refl)
  next
    case (Cons e es)
    obtain r s' where step: "media_op (logged_send send) codec e s = (r, s')" by (meson surj_pair)
    have allowed: "e = OwnerGate \<Longrightarrow> is_revoked s" using Cons.prems(1) by simp
    note facts = media_op_step [OF allowed step]
    have inv: "media_inv codec i gen s'" by (rule facts(2) [OF _ Cons.prems(2)])
    have IH: "media_inv codec i gen (snd (?run es s')) \<and>
      (is_revoked s' \<longrightarrow> stays_revoked s' (snd (?run es s')) \<and>
         (\<forall>(e, r) \<in> set (fst (?run es s')). e \<notin> {OwnerStore, OwnerGate} \<longrightarrow> \<not> is_ok r) \<and>
         (identity_conflict (fst s') \<longrightarrow> (\<forall>(e, r) \<in> set (fst (?run es s')). e \<noteq> OwnerStore \<longrightarrow> \<not> is_ok r)))"
      using Cons.IH [OF _ inv] Cons.prems(1) step by simp
    show ?case
    proof (cases "is_revoked s")
      case True
      have st: "stays_revoked s s'" by (rule facts(1) [OF _ True])
      then have rest: "is_revoked s'" "identity_conflict (fst s) \<longrightarrow> identity_conflict (fst s')"
        by (auto simp: stays_revoked_def)
      have "e \<notin> {OwnerStore, OwnerGate} \<longrightarrow> \<not> is_ok r" using facts(3) True by blast
      moreover have "identity_conflict (fst s) \<longrightarrow> e \<noteq> OwnerStore \<longrightarrow> \<not> is_ok r"
        using facts(4) Cons.prems(2) by blast
      ultimately show ?thesis
        using IH rest step stays_revoked_trans [OF st] by simp
    qed (use IH step in simp)
  qed
  moreover have "identity_conflict (fst s) \<Longrightarrow> is_revoked s"
    using assms(2) by (auto simp: media_inv_def is_revoked_def)
  ultimately show "media_inv codec i gen (final (media_op (logged_send send) codec) es s)"
    "is_revoked s \<Longrightarrow> stays_revoked s (final (media_op (logged_send send) codec) es s)"
    "is_revoked s \<Longrightarrow> (e, r) \<in> set (fst (?run es s)) \<Longrightarrow> e \<notin> {OwnerStore, OwnerGate} \<Longrightarrow> \<not> is_ok r"
    "identity_conflict (fst s) \<Longrightarrow> (e, r) \<in> set (fst (?run es s)) \<Longrightarrow> e \<noteq> OwnerStore \<Longrightarrow> \<not> is_ok r"
    by blast+
qed

lemma new_media_inv:
  assumes "Rt1RemoteMediaRevocation_new client i gen = Ok self"
  shows "media_inv codec i gen (self, (w, []))"
  using assms by (auto simp: Rt1RemoteMediaRevocation_new_def media_inv_def split: if_splits)

text \<open>A worker that confirms every STOP and answers nothing else.\<close>

definition stopping_worker :: "(unit, byte list) http_send" where
  "stopping_worker req w =
     (if req_method req = DELETE then Ok \<lparr>status = 200, declared_length = None, body_state = [1]\<rparr> else Err (), w)"

definition sample_codec :: "byte list reply_codec" where
  "sample_codec =
     \<lparr>read_body = drip, parse_create = (\<lambda>_. None), parse_offer = (\<lambda>_. None), parse_answer = (\<lambda>_. None),
      parse_cancel = (\<lambda>bs. if bs = [1] then
        Some \<lparr>cancel_operation_id = lit ''op'', cancel_session_id = lit ''s1'', cancel_generation = 1,
              audio_stopped = True, video_stopped = True\<rparr> else None),
      parse_status = (\<lambda>_. None)\<rparr>"

definition sample_client :: RemoteOperationClient where
  "sample_client = \<lparr>base = lit ''https://worker'', token = lit ''t''\<rparr>"

definition sample_media :: Rt1RemoteMediaRevocation where
  "sample_media = \<lparr>worker = sample_client, operation_id = lit ''op'', generation = 1, media_revoked = False,
     confirmed = False, created_session_id = None, confirmed_session_id = None, identity_conflict = False\<rparr>"

lemma sample_operation_id: "valid_operation_id (lit ''op'')"
  by (simp add: valid_operation_id_def lit_def utf8_len_def utf8_width_def utf8_char_def operation_id_byte_def)

lemma sample_media_new: "Rt1RemoteMediaRevocation_new sample_client (lit ''op'') 1 = Ok sample_media"
  by (simp add: Rt1RemoteMediaRevocation_new_def sample_operation_id sample_media_def)

definition sample_receipt :: "http_request \<times> (unit + byte list http_response)" where
  "sample_receipt =
     (\<lparr>req_method = DELETE, req_base = lit ''https://worker'',
       req_path = [lit ''v1'', lit ''avatar'', lit ''operations'', lit ''op''], req_token = lit ''t'',
       req_body = GenerationBody 1\<rparr>,
      Ok \<lparr>status = 200, declared_length = None, body_state = [1]\<rparr>)"

lemma sample_stop:
  "cancel_confirmed sample_client (logged_send stopping_worker) sample_codec (lit ''op'') 1 ((), log) =
     (Ok (lit ''s1''), ((), log @ [sample_receipt]))"
proof -
  have "fst (read_bounded_provider_body None MAX_PROVIDER_JSON_BODY_BYTES None drip [1]) = Ok [1]"
    using read_body_exact [OF drip_reads, of None None "[1]" MAX_PROVIDER_JSON_BODY_BYTES]
    by (simp add: MAX_PROVIDER_JSON_BODY_BYTES_def)
  moreover have "lit ''s1'' \<noteq> []" by (simp add: lit_def)
  ultimately show ?thesis
    by (simp add: cancel_confirmed_def exchange_def operation_url_def sample_operation_id logged_send_def
        stopping_worker_def sample_client_def sample_codec_def decode_json_response_def stop_receipt_def
        sample_receipt_def is_success_def)
qed

lemma sample_stop_run:
  "cancel_locked (logged_send stopping_worker) sample_codec
     (sample_media\<lparr>created_session_id := Some (lit ''s1''), media_revoked := True\<rparr>, ((), [])) =
   (Ok (), (sample_media\<lparr>created_session_id := Some (lit ''s1''), media_revoked := True,
      confirmed_session_id := Some (lit ''s1''), confirmed := True\<rparr>, ((), [sample_receipt])))"
  using sample_stop [of "[]"] by (simp add: cancel_locked_def sample_media_def)

text \<open>A visitor's session is created, then the owner revokes and the worker confirms.\<close>

abbreviation sample_history :: "media_event list" where
  "sample_history \<equiv> [Created (lit ''s1''), OwnerStore, OwnerGate]"

lemma sample_created:
  "record_created_session (logged_send stopping_worker) sample_codec (lit ''s1'') (sample_media, ((), [])) =
     (Ok (), (sample_media\<lparr>created_session_id := Some (lit ''s1'')\<rparr>, ((), [])))"
  by (simp add: record_created_session_def sample_media_def blank_iff lit_def is_whitespace_def)

lemma sample_history_runs:
  "legal (logged_send stopping_worker) sample_codec sample_history (sample_media, ((), []))"
  "final (media_op (logged_send stopping_worker) sample_codec) sample_history (sample_media, ((), [])) =
     (sample_media\<lparr>created_session_id := Some (lit ''s1''), media_revoked := True,
        confirmed_session_id := Some (lit ''s1''), confirmed := True\<rparr>, ((), [sample_receipt]))"
proof -
  have "media_revoked sample_media = False" "confirmed sample_media = False" by (simp_all add: sample_media_def)
  then show "legal (logged_send stopping_worker) sample_codec sample_history (sample_media, ((), []))"
    "final (media_op (logged_send stopping_worker) sample_codec) sample_history (sample_media, ((), [])) =
     (sample_media\<lparr>created_session_id := Some (lit ''s1''), media_revoked := True,
        confirmed_session_id := Some (lit ''s1''), confirmed := True\<rparr>, ((), [sample_receipt]))"
    using sample_created sample_stop_run by (simp_all add: store_revoked_def is_revoked_def revoke_under_gate_def)
qed

text \<open>C34. A stop is reported as confirmed only if it is: over every interleaving of the owner's revocation with
  late CREATE replies and SDP answers, and whatever the worker answers, a bridge that reports a confirmed stop
  is revoked and has received a final positive answer to a STOP for its own operation and generation, with
  receipts for the audio and the video sender, from exactly the session it recorded and from no other session
  than the one it knows to have been created.\<close>

theorem stop_confirmation_truthful:
  assumes "Rt1RemoteMediaRevocation_new client i gen = Ok self"
    and "legal (logged_send send) codec es (self, (w, []))"
    and "final (media_op (logged_send send) codec) es (self, (w, [])) = (self', (w', log))"
    and "confirmed self'"
  shows "media_revoked self' \<and> \<not> identity_conflict self' \<and>
         (\<exists>sid. confirmed_session_id self' = Some sid \<and> created_session_id self' \<in> {None, Some sid} \<and>
            (\<exists>x \<in> set log. proves_stop codec i gen sid x))"
  using media_history(1) [OF assms(2) new_media_inv [OF assms(1)]] assms(3,4) by (simp add: media_inv_def)

theorem stop_confirmation_truthful_witness:
  "\<exists>x \<in> set [sample_receipt]. proves_stop sample_codec (lit ''op'') 1 (lit ''s1'') x"
  using stop_confirmation_truthful [OF sample_media_new sample_history_runs] by (simp add: sample_media_def)

text \<open>Revocation is final for the media of a visitor: after the owner's store, whatever the threads do and the
  worker answers, no late CREATE is accepted and no SDP answer is sent or reported as accepted, only STOP
  requests leave; and once two sessions claimed the operation, it never again reports success or a confirmed
  stop.\<close>

lemma revoked_media_is_final:
  assumes "Rt1RemoteMediaRevocation_new client i gen = Ok self"
    and "legal (logged_send send) codec (es @ fs) (self, (w, []))"
    and "final (media_op (logged_send send) codec) es (self, (w, [])) = s" and "is_revoked s"
    and "run_ops (media_op (logged_send send) codec) fs s = (results, s')"
  shows "is_revoked s' \<and>
         (\<exists>new. snd (snd s') = snd (snd s) @ new \<and> (\<forall>x \<in> set new. req_method (fst x) = DELETE)) \<and>
         (\<forall>(e, r) \<in> set results. e \<notin> {OwnerStore, OwnerGate} \<longrightarrow> \<not> is_ok r) \<and>
         (identity_conflict (fst s) \<longrightarrow>
            \<not> is_stop_confirmed s' \<and> (\<forall>(e, r) \<in> set results. e \<noteq> OwnerStore \<longrightarrow> \<not> is_ok r))"
proof -
  have legal: "legal (logged_send send) codec (es @ fs) t \<Longrightarrow>
      legal (logged_send send) codec es t \<and> legal (logged_send send) codec fs (final (media_op (logged_send send) codec) es t)" for t
    by (induction es arbitrary: t) auto
  have es: "legal (logged_send send) codec es (self, (w, []))" using legal [OF assms(2)] by simp
  have inv: "media_inv codec i gen s"
    using media_history(1) [OF es new_media_inv [OF assms(1)]] assms(3) by simp
  have fs: "legal (logged_send send) codec fs s" using legal [OF assms(2)] assms(3) by simp
  note run = media_history [OF fs inv]
  have "stays_revoked s s'" "media_inv codec i gen s'" using run(1,2) assms(4,5) by simp_all
  then show ?thesis
    using run(3,4) assms(4,5) by (fastforce simp: stays_revoked_def media_inv_def is_stop_confirmed_def)
qed

text \<open>After the stop a late second session appears, and then an SDP answer.\<close>

end
