(* ===== verification/VPR_Tcp_Writer.thy ===== *)
theory VPR_Tcp_Writer
  imports VPR_Prelude
begin

text \<open>
  The revocable writer of a TCP response (\<^verbatim>\<open>crates/vpr-runtime/src/cancellable_tcp_writer.rs\<close>).

  The socket and the monotonic clock are the world \<open>'w\<close>; the calls into the operating system are parameters.
  Every such call also says whether another thread revoked the connection while it ran, which places a
  concurrent revocation between any two statements of the loop. Time is in nanoseconds. The loop polls the
  socket until the deadline, so it is a partial function; that it returns is a theorem.
\<close>

section \<open>Connections\<close>

datatype ErrorKind = Interrupted | TimedOut | WouldBlock | WriteZero | OtherKind

record io_error =
  error_kind :: ErrorKind
  error_message :: rust_string

definition MAX_WRITE_CHUNK :: nat where
  "MAX_WRITE_CHUNK = 16 * 1024"

definition MAX_SYSCALL_WAIT :: nat where
  "MAX_SYSCALL_WAIT = 100 * 1000000"

text \<open>The flag of the connection and whether its stream was shut down on this side.\<close>

record 'w Connection =
  stream :: 'w
  revoked :: bool
  shut_down :: bool

definition tcp_revoke :: "'w Connection \<Rightarrow> 'w Connection" where
  "tcp_revoke self = self\<lparr>revoked := True, shut_down := True\<rparr>"

definition tcp_is_revoked :: "'w Connection \<Rightarrow> bool" where
  "tcp_is_revoked self = revoked self"

definition tcp_abort :: "'w Connection \<Rightarrow> 'w Connection" where
  "tcp_abort self = self\<lparr>revoked := True, shut_down := True\<rparr>"

text \<open>A call into the operating system, with the revocation that may happen meanwhile.\<close>

type_synonym ('w, 'a) syscall = "'w \<Rightarrow> 'a \<times> bool \<times> 'w"

definition during :: "('w, 'a) syscall \<Rightarrow> 'w Connection \<Rightarrow> 'a \<times> 'w Connection" where
  "during call c =
     (case call (stream c) of
        (a, revoked_meanwhile, w) \<Rightarrow>
          (a, if revoked_meanwhile then tcp_revoke (c\<lparr>stream := w\<rparr>) else c\<lparr>stream := w\<rparr>))"

record 'w tcp_calls =
  instant_now :: "('w, nat) syscall"
  set_nonblocking :: "bool \<Rightarrow> ('w, io_error + unit) syscall"
  set_write_timeout :: "nat \<Rightarrow> ('w, io_error + unit) syscall"
  socket_write :: "byte list \<Rightarrow> ('w, io_error + nat) syscall"

section \<open>The writer\<close>

record 'w CancellableTcpWriter =
  connection :: "'w Connection"
  deadline :: nat

definition CancellableTcpWriter_new :: "'w tcp_calls \<Rightarrow> 'w \<Rightarrow> nat \<Rightarrow> (io_error + 'w CancellableTcpWriter) \<times> 'w" where
  "CancellableTcpWriter_new os w max_duration =
     (case set_nonblocking os False w of
        (Err e, _, w') \<Rightarrow> (Err e, w')
      | (Ok _, _, w') \<Rightarrow>
          (case instant_now os w' of
             (now, _, w'') \<Rightarrow>
               (Ok \<lparr>connection = \<lparr>stream = w'', revoked = False, shut_down = False\<rparr>,
                    deadline = now + max_duration\<rparr>, w'')))"

abbreviation tcp_revoked_error :: io_error where
  "tcp_revoked_error \<equiv> \<lparr>error_kind = Interrupted, error_message = lit ''TCP response revoked''\<rparr>"

abbreviation tcp_deadline_error :: io_error where
  "tcp_deadline_error \<equiv> \<lparr>error_kind = TimedOut, error_message = lit ''TCP response deadline exceeded''\<rparr>"

text \<open>\<open>checked_duration_since\<close>: the time left, absent once the deadline has passed.\<close>

definition checked_duration_since :: "nat \<Rightarrow> nat \<Rightarrow> nat option" where
  "checked_duration_since later earlier = (if earlier \<le> later then Some (later - earlier) else None)"

partial_function (option) write_loop :: "'w tcp_calls \<Rightarrow> nat \<Rightarrow> byte list \<Rightarrow> 'w Connection
    \<Rightarrow> ((io_error + unit) \<times> 'w Connection) option" where
  "write_loop os limit remaining c =
     (if remaining = [] then
        Some (if revoked c then (Err tcp_revoked_error, c) else (Ok (), c))
      else if revoked c then Some (Err tcp_revoked_error, c)
      else case during (instant_now os) c of (now, c) \<Rightarrow>
        (case checked_duration_since limit now of
           None \<Rightarrow> Some (Err tcp_deadline_error, tcp_abort c)
         | Some left \<Rightarrow>
             if left = 0 then Some (Err tcp_deadline_error, tcp_abort c)
             else case during (set_write_timeout os (min left MAX_SYSCALL_WAIT)) c of
                 (Err e, c) \<Rightarrow> Some (Err e, c)
               | (Ok _, c) \<Rightarrow>
                   (case during (socket_write os (take MAX_WRITE_CHUNK remaining)) c of
                      (Ok written, c) \<Rightarrow>
                        if written = 0
                        then Some (Err \<lparr>error_kind = WriteZero, error_message = lit ''TCP response closed''\<rparr>,
                                   tcp_abort c)
                        else write_loop os limit (drop written remaining) c
                    | (Err e, c) \<Rightarrow>
                        if error_kind e \<in> {Interrupted, TimedOut, WouldBlock}
                        then if revoked c then Some (Err tcp_revoked_error, c)
                             else write_loop os limit remaining c
                        else Some (Err e, tcp_abort c))))"

definition write_all_bounded :: "'w tcp_calls \<Rightarrow> byte list \<Rightarrow> 'w CancellableTcpWriter
    \<Rightarrow> ((io_error + unit) \<times> 'w CancellableTcpWriter) option" where
  "write_all_bounded os bytes self =
     map_option (\<lambda>(r, c). (r, self\<lparr>connection := c\<rparr>)) (write_loop os (deadline self) bytes (connection self))"

definition writer_drop :: "'w CancellableTcpWriter \<Rightarrow> 'w Connection" where
  "writer_drop self = tcp_abort (connection self)"

section \<open>Facts about a call\<close>

lemma during_revoked_mono: "revoked c \<Longrightarrow> revoked (snd (during f c))"
  by (auto simp: during_def tcp_revoke_def split: prod.splits)

lemma during_stream: "stream (snd (during f c)) = snd (snd (f (stream c)))" "fst (during f c) = fst (f (stream c))"
  by (auto simp: during_def tcp_revoke_def split: prod.splits)

text \<open>
  The contract of \<open>Write::write\<close> on a socket: it accepts a prefix of the bytes and tells how long it is; a
  call that fails accepted nothing. The other calls send nothing.
\<close>

definition socket_contract :: "'w tcp_calls \<Rightarrow> ('w \<Rightarrow> byte list) \<Rightarrow> bool" where
  "socket_contract os sent \<longleftrightarrow>
     (\<forall>w. sent (snd (snd (instant_now os w))) = sent w) \<and>
     (\<forall>t w. sent (snd (snd (set_write_timeout os t w))) = sent w) \<and>
     (\<forall>bs w. case socket_write os bs w of
        (Ok n, _, w') \<Rightarrow> n \<le> length bs \<and> sent w' = sent w @ take n bs
      | (Err _, _, w') \<Rightarrow> sent w' = sent w)"

text \<open>
  The clock never runs backwards, and a write that gives up without accepting a byte has waited: it returns
  after its timeout or after a signal.
\<close>

definition clock_contract :: "'w tcp_calls \<Rightarrow> ('w \<Rightarrow> nat) \<Rightarrow> bool" where
  "clock_contract os clock \<longleftrightarrow>
     (\<forall>w. clock w \<le> fst (instant_now os w) \<and> clock (snd (snd (instant_now os w))) = fst (instant_now os w)) \<and>
     (\<forall>t w. clock w \<le> clock (snd (snd (set_write_timeout os t w)))) \<and>
     (\<forall>bs w. case socket_write os bs w of
        (Ok n, _, w') \<Rightarrow> clock w \<le> clock w'
      | (Err e, _, w') \<Rightarrow> clock w < clock w')"

section \<open>One round of the loop\<close>

text \<open>
  A round ends the call or goes on with the rest of the bytes. The rules separate what a round does to
  the socket from the recursion.
\<close>

datatype 'w round = Return "io_error + unit" "'w Connection" | Again "byte list" "'w Connection"

definition write_round :: "'w tcp_calls \<Rightarrow> nat \<Rightarrow> byte list \<Rightarrow> 'w Connection \<Rightarrow> 'w round" where
  "write_round os limit remaining c =
     (if remaining = [] then Return (if revoked c then Err tcp_revoked_error else Ok ()) c
      else if revoked c then Return (Err tcp_revoked_error) c
      else case during (instant_now os) c of (now, c1) \<Rightarrow>
        if limit \<le> now then Return (Err tcp_deadline_error) (tcp_abort c1)
        else case during (set_write_timeout os (min (limit - now) MAX_SYSCALL_WAIT)) c1 of
          (Err e, c2) \<Rightarrow> Return (Err e) c2
        | (Ok _, c2) \<Rightarrow>
            (case during (socket_write os (take MAX_WRITE_CHUNK remaining)) c2 of
               (Ok written, c3) \<Rightarrow>
                 if written = 0
                 then Return (Err \<lparr>error_kind = WriteZero, error_message = lit ''TCP response closed''\<rparr>) (tcp_abort c3)
                 else Again (drop written remaining) c3
             | (Err e, c3) \<Rightarrow>
                 if error_kind e \<in> {Interrupted, TimedOut, WouldBlock}
                 then if revoked c3 then Return (Err tcp_revoked_error) c3 else Again remaining c3
                 else Return (Err e) (tcp_abort c3)))"

lemma write_loop_round:
  "write_loop os limit remaining c =
     (case write_round os limit remaining c of
        Return r c' \<Rightarrow> Some (r, c') | Again rest c' \<Rightarrow> write_loop os limit rest c')"
  by (subst write_loop.simps)
    (auto simp: write_round_def checked_duration_since_def split: prod.splits sum.splits)

lemma socket_contractD:
  assumes "socket_contract os sent"
  shows "during (instant_now os) c = (t, c') \<Longrightarrow> sent (stream c') = sent (stream c)"
    and "during (set_write_timeout os d) c = (u, c') \<Longrightarrow> sent (stream c') = sent (stream c)"
    and "during (socket_write os bs) c = (Ok n, c') \<Longrightarrow> n \<le> length bs \<and> sent (stream c') = sent (stream c) @ take n bs"
    and "during (socket_write os bs) c = (Err e, c') \<Longrightarrow> sent (stream c') = sent (stream c)"
proof -
  have W: "case socket_write os bs (stream c) of
        (Ok n, _, w') \<Rightarrow> n \<le> length bs \<and> sent w' = sent (stream c) @ take n bs
      | (Err _, _, w') \<Rightarrow> sent w' = sent (stream c)"
    using assms by (simp add: socket_contract_def)
  show "during (instant_now os) c = (t, c') \<Longrightarrow> sent (stream c') = sent (stream c)"
    "during (set_write_timeout os d) c = (u, c') \<Longrightarrow> sent (stream c') = sent (stream c)"
    using assms by (auto simp: socket_contract_def during_def tcp_revoke_def split: prod.splits) (metis snd_conv)+
  show "during (socket_write os bs) c = (Ok n, c') \<Longrightarrow> n \<le> length bs \<and> sent (stream c') = sent (stream c) @ take n bs"
    "during (socket_write os bs) c = (Err e, c') \<Longrightarrow> sent (stream c') = sent (stream c)"
    using W by (auto simp: during_def tcp_revoke_def split: prod.splits)
qed

lemma clock_contractD:
  assumes "clock_contract os clock"
  shows "during (instant_now os) c = (t, c') \<Longrightarrow> clock (stream c) \<le> t \<and> clock (stream c') = t"
    and "during (set_write_timeout os d) c = (u, c') \<Longrightarrow> clock (stream c) \<le> clock (stream c')"
    and "during (socket_write os bs) c = (Ok n, c') \<Longrightarrow> clock (stream c) \<le> clock (stream c')"
    and "during (socket_write os bs) c = (Err e, c') \<Longrightarrow> clock (stream c) < clock (stream c')"
proof -
  have W: "case socket_write os bs (stream c) of
        (Ok n, _, w') \<Rightarrow> clock (stream c) \<le> clock w' | (Err _, _, w') \<Rightarrow> clock (stream c) < clock w'"
    using assms by (simp add: clock_contract_def)
  show "during (instant_now os) c = (t, c') \<Longrightarrow> clock (stream c) \<le> t \<and> clock (stream c') = t"
    "during (set_write_timeout os d) c = (u, c') \<Longrightarrow> clock (stream c) \<le> clock (stream c')"
    using assms by (auto simp: clock_contract_def during_def tcp_revoke_def split: prod.splits) (metis fst_conv snd_conv)+
  show "during (socket_write os bs) c = (Ok n, c') \<Longrightarrow> clock (stream c) \<le> clock (stream c')"
    "during (socket_write os bs) c = (Err e, c') \<Longrightarrow> clock (stream c) < clock (stream c')"
    using W by (auto simp: during_def tcp_revoke_def split: prod.splits)
qed

lemma abort_simps [simp]: "stream (tcp_abort c) = stream c" "revoked (tcp_abort c)"
  by (simp_all add: tcp_abort_def)

lemma write_round_sends:
  assumes "socket_contract os sent"
  shows "write_round os limit remaining c = Return r c' \<Longrightarrow>
           sent (stream c') = sent (stream c) \<and> (is_ok r \<longrightarrow> remaining = [] \<and> \<not> revoked c')"
    and "write_round os limit remaining c = Again rest c' \<Longrightarrow>
           \<not> revoked c \<and> (\<exists>n. rest = drop n remaining \<and> sent (stream c') = sent (stream c) @ take n remaining)"
proof -
  note step = socket_contractD [OF assms]
  show "write_round os limit remaining c = Return r c' \<Longrightarrow>
           sent (stream c') = sent (stream c) \<and> (is_ok r \<longrightarrow> remaining = [] \<and> \<not> revoked c')"
    unfolding write_round_def
    by (auto split: if_splits prod.splits sum.splits dest!: step)
  show "write_round os limit remaining c = Again rest c' \<Longrightarrow>
           \<not> revoked c \<and> (\<exists>n. rest = drop n remaining \<and> sent (stream c') = sent (stream c) @ take n remaining)"
    unfolding write_round_def
    by (auto split: if_splits prod.splits sum.splits dest!: step intro: exI [of _ 0] simp: min_absorb1)
qed

lemma write_round_progress:
  assumes "clock_contract os clock" and "write_round os limit remaining c = Again rest c'"
  shows "length rest + (limit - clock (stream c')) < length remaining + (limit - clock (stream c))"
proof -
  note step = clock_contractD [OF assms(1)]
  show ?thesis
    using assms(2) unfolding write_round_def
    by (auto split: if_splits prod.splits sum.splits dest!: step simp flip: length_greater_0_conv)
qed

lemma write_loop_returns:
  assumes "clock_contract os clock"
  shows "write_loop os limit remaining c \<noteq> None"
proof (induction "length remaining + (limit - clock (stream c))" arbitrary: remaining c rule: less_induct)
  case less
  then show ?case
    using write_round_progress [OF assms, of limit remaining c]
    by (subst write_loop_round) (auto split: round.split)
qed

lemma write_loop_sends:
  assumes "socket_contract os sent" and "clock_contract os clock"
    and "write_loop os limit remaining c = Some (r, c')"
  shows "\<exists>n. sent (stream c') = sent (stream c) @ take n remaining \<and>
           (is_ok r \<longrightarrow> length remaining \<le> n \<and> \<not> revoked c')"
  using assms(3)
proof (induction "length remaining + (limit - clock (stream c))" arbitrary: remaining c rule: less_induct)
  case less
  show ?case
  proof (cases "write_round os limit remaining c")
    case (Return r' c'')
    then show ?thesis
      using less.prems write_round_sends(1) [OF assms(1) Return]
      by (subst (asm) write_loop_round) (auto intro: exI [of _ 0])
  next
    case (Again rest c'')
    obtain n where n: "rest = drop n remaining" "sent (stream c'') = sent (stream c) @ take n remaining"
      using write_round_sends(2) [OF assms(1) Again] by blast
    have "write_loop os limit rest c'' = Some (r, c')"
      using less.prems Again by (subst (asm) write_loop_round) simp
    from less.hyps [OF write_round_progress [OF assms(2) Again] this] obtain m
      where "sent (stream c') = sent (stream c'') @ take m rest"
        "is_ok r \<longrightarrow> length rest \<le> m \<and> \<not> revoked c'" by blast
    then show ?thesis
      using n by (intro exI [of _ "n + m"]) (auto simp: take_add)
  qed
qed

lemma write_loop_revoked:
  "revoked c \<Longrightarrow> write_loop os limit remaining c = Some (Err tcp_revoked_error, c)"
  by (subst write_loop_round) (simp add: write_round_def)

text \<open>A slow peer: it takes two bytes in every other call and makes the writer wait in between.\<close>

definition slow_peer :: "(nat \<times> byte list) tcp_calls" where
  "slow_peer =
     \<lparr>instant_now = (\<lambda>w. (fst w, False, w)), set_nonblocking = (\<lambda>_ w. (Ok (), False, w)),
      set_write_timeout = (\<lambda>_ w. (Ok (), False, w)),
      socket_write = (\<lambda>bs (t, s).
        if odd t then (Err \<lparr>error_kind = WouldBlock, error_message = []\<rparr>, False, (t + 1, s))
        else (Ok (min 2 (length bs)), False, (t + 1, s @ take 2 bs)))\<rparr>"

lemma slow_peer_contracts: "clock_contract slow_peer fst" "socket_contract slow_peer snd"
  by (auto simp: clock_contract_def socket_contract_def slow_peer_def min_def)

definition slow_writer :: "(nat \<times> byte list) CancellableTcpWriter" where
  "slow_writer = \<lparr>connection = \<lparr>stream = (0, []), revoked = False, shut_down = False\<rparr>, deadline = 100\<rparr>"

lemma slow_writer_sends:
  "write_all_bounded slow_peer [1, 2, 3] slow_writer =
     Some (Ok (), slow_writer\<lparr>connection := \<lparr>stream = (3, [1, 2, 3]), revoked = False, shut_down = False\<rparr>\<rparr>)"
  by (simp add: write_all_bounded_def slow_writer_def slow_peer_def write_loop.simps during_def
      checked_duration_since_def MAX_WRITE_CHUNK_def)

text \<open>Writing a response always returns: with a clock that moves while a write waits, the call ends, also
  when the peer never takes a byte.\<close>

lemma tcp_write_returns:
  assumes "clock_contract os clock"
  shows "\<exists>r self'. write_all_bounded os bytes self = Some (r, self')"
  using write_loop_returns [OF assms, of "deadline self" bytes "connection self"]
  by (auto simp: write_all_bounded_def)

text \<open>A call succeeds only if the socket took exactly the given bytes and the connection is not revoked
  when it returns; a call that fails sent a prefix of them. On a connection that was revoked, or whose writer
  was dropped, every later call fails and sends nothing.\<close>

lemma tcp_write_all_or_prefix:
  assumes "socket_contract os sent" and "clock_contract os clock"
    and "write_all_bounded os bytes self = Some (r, self')"
  shows "(\<exists>n. sent (stream (connection self')) = sent (stream (connection self)) @ take n bytes \<and>
            (is_ok r \<longrightarrow> length bytes \<le> n \<and> \<not> tcp_is_revoked (connection self'))) \<and>
         (\<forall>c \<in> {tcp_revoke (connection self), writer_drop self}.
            write_all_bounded os bytes (self\<lparr>connection := c\<rparr>) = Some (Err tcp_revoked_error, self\<lparr>connection := c\<rparr>))"
proof -
  obtain c' where "write_loop os (deadline self) bytes (connection self) = Some (r, c')" "self' = self\<lparr>connection := c'\<rparr>"
    using assms(3) by (auto simp: write_all_bounded_def)
  then have "\<exists>n. sent (stream (connection self')) = sent (stream (connection self)) @ take n bytes \<and>
           (is_ok r \<longrightarrow> length bytes \<le> n \<and> \<not> tcp_is_revoked (connection self'))"
    using write_loop_sends [OF assms(1,2)] by (simp add: tcp_is_revoked_def)
  then show ?thesis
    by (simp add: write_all_bounded_def write_loop_revoked tcp_revoke_def writer_drop_def)
qed

end
