(* ===== verification/VPR_Golden.thy ===== *)
theory VPR_Golden
  imports VPR_Workspace VPR_Identity
begin

text \<open>
  Golden sets and the binding of evidence to one candidate
  (\<^verbatim>\<open>crates/vpr-evaluation/src/golden.rs\<close>, \<^verbatim>\<open>binding.rs\<close>, \<^verbatim>\<open>owner_golden.rs\<close>, \<^verbatim>\<open>live_provider.rs\<close>).

  A suite is a list of cases with expectations; observations of a run are indexed by case and judged. SHA-256
  and Unicode lower-casing (\<open>str::to_lowercase\<close>, a table of the Unicode standard) are parameters.
\<close>

section \<open>Suites and observations\<close>

definition RT0_GOLDEN_SCHEMA :: rust_string where
  "RT0_GOLDEN_SCHEMA = lit ''rt0-golden-0.1''"

datatype GoldenActor = Owner | Visitor

datatype GoldenExpectation =
    ResponseContainsAll "rust_string list"
  | OwnerAttribution bool
  | NoPrivateSentinels "rust_string list"
  | ReasonCode rust_string
  | UnplayedTailNotSpoken
  | PersonaIdentityStable

record GoldenCase =
  case_id :: rust_string
  actor :: GoldenActor
  prompt_ru :: rust_string
  expectations :: "GoldenExpectation list"

record GoldenSuite =
  suite_schema_version :: rust_string
  suite_id :: rust_string
  suite_cases :: "GoldenCase list"

datatype SourceEvidence = Owner | User | Document | Web | Tool | Model

datatype VerificationEvidence = Unverified | Corroborated | OwnerVerified | SourceVerified | Disputed

datatype DerivationEvidence = Direct | Remembered | Inferred | Summarized | Simulated

record AttributionEvidence =
  attribution_source :: SourceEvidence
  attribution_verification :: VerificationEvidence
  attribution_derivation :: DerivationEvidence

record GoldenObservation =
  obs_case_id :: rust_string
  response_text :: "rust_string option"
  owner_attribution :: "AttributionEvidence option"
  obs_reason_code :: "rust_string option"
  unplayed_tail_spoken :: "bool option"
  persona_id_before :: "rust_string option"
  persona_id_after :: "rust_string option"

datatype GoldenFailureCode =
    MissingObservation | MissingResponseText | MissingRequiredText | FalseOwnerAttribution
  | RequiredOwnerAttributionMissing | PrivateContextLeak | MissingReasonCode | WrongReasonCode
  | MissingSpokenCheckpoint | CancelledOutputMarkedSpoken | MissingPersonaIdentityEvidence
  | PersonaIdentityDrift

record GoldenCaseResult =
  result_case_id :: rust_string
  case_passed :: bool
  case_failures :: "GoldenFailureCode list"

record GoldenReport =
  report_schema_version :: rust_string
  report_suite_id :: rust_string
  report_total :: nat
  report_passed :: nat
  report_failed :: nat
  report_cases :: "GoldenCaseResult list"

datatype GoldenSuiteError =
    UnsupportedSchemaVersion | BlankSchemaVersion | BlankSuiteId | EmptySuite | BlankCaseId | DuplicateCaseId
  | BlankPrompt | EmptyExpectations | BlankExpectationValue | DuplicateObservation | UnknownObservationCase

section \<open>Validation of a suite\<close>

definition validate_expectation :: "GoldenExpectation \<Rightarrow> GoldenSuiteError + unit" where
  "validate_expectation e =
     (let valid = (case e of
          ResponseContainsAll tokens \<Rightarrow> tokens \<noteq> [] \<and> list_all (\<lambda>t. \<not> blank t) tokens
        | NoPrivateSentinels sentinels \<Rightarrow> sentinels \<noteq> [] \<and> list_all (\<lambda>t. \<not> blank t) sentinels
        | ReasonCode code \<Rightarrow> \<not> blank code
        | _ \<Rightarrow> True)
      in if valid then Ok () else Err BlankExpectationValue)"

text \<open>A loop that stops at the first error.\<close>

fun try_each :: "('a \<Rightarrow> 'e + unit) \<Rightarrow> 'a list \<Rightarrow> 'e + unit" where
  "try_each f [] = Ok ()"
| "try_each f (x # xs) = (case f x of Err e \<Rightarrow> Err e | Ok _ \<Rightarrow> try_each f xs)"

fun validate_cases :: "rust_string list \<Rightarrow> GoldenCase list \<Rightarrow> GoldenSuiteError + unit" where
  "validate_cases ids [] = Ok ()"
| "validate_cases ids (c # cs) =
     (if blank (case_id c) then Err BlankCaseId
      else if case_id c \<in> set ids then Err DuplicateCaseId
      else if blank (prompt_ru c) then Err BlankPrompt
      else if expectations c = [] then Err EmptyExpectations
      else case try_each validate_expectation (expectations c) of
             Err e \<Rightarrow> Err e | Ok _ \<Rightarrow> validate_cases (case_id c # ids) cs)"

definition validate_suite :: "GoldenSuite \<Rightarrow> GoldenSuiteError + unit" where
  "validate_suite suite =
     (if blank (suite_schema_version suite) then Err BlankSchemaVersion
      else if suite_schema_version suite \<noteq> RT0_GOLDEN_SCHEMA then Err UnsupportedSchemaVersion
      else if blank (suite_id suite) then Err BlankSuiteId
      else if suite_cases suite = [] then Err EmptySuite
      else validate_cases [] (suite_cases suite))"

fun index_loop :: "rust_string list \<Rightarrow> (rust_string \<Rightarrow> GoldenObservation option) \<Rightarrow> GoldenObservation list
    \<Rightarrow> GoldenSuiteError + (rust_string \<Rightarrow> GoldenObservation option)" where
  "index_loop valid_ids indexed [] = Ok indexed"
| "index_loop valid_ids indexed (obs # rest) =
     (if obs_case_id obs \<notin> set valid_ids then Err UnknownObservationCase
      else if indexed (obs_case_id obs) \<noteq> None then Err DuplicateObservation
      else index_loop valid_ids (indexed(obs_case_id obs \<mapsto> obs)) rest)"

definition index_observations :: "GoldenSuite \<Rightarrow> GoldenObservation list
    \<Rightarrow> GoldenSuiteError + (rust_string \<Rightarrow> GoldenObservation option)" where
  "index_observations suite observations =
     index_loop (map case_id (suite_cases suite)) (\<lambda>_. None) observations"

section \<open>Judging observations\<close>

fun SourceKind_from :: "SourceEvidence \<Rightarrow> SourceKind" where
  "SourceKind_from SourceEvidence.Owner = SourceKind.Owner"
| "SourceKind_from SourceEvidence.User = SourceKind.User"
| "SourceKind_from SourceEvidence.Document = SourceKind.Document"
| "SourceKind_from SourceEvidence.Web = SourceKind.Web"
| "SourceKind_from SourceEvidence.Tool = SourceKind.Tool"
| "SourceKind_from SourceEvidence.Model = SourceKind.Model"

fun VerificationState_from :: "VerificationEvidence \<Rightarrow> VerificationState" where
  "VerificationState_from VerificationEvidence.Unverified = VerificationState.Unverified"
| "VerificationState_from VerificationEvidence.Corroborated = VerificationState.Corroborated"
| "VerificationState_from VerificationEvidence.OwnerVerified = VerificationState.OwnerVerified"
| "VerificationState_from VerificationEvidence.SourceVerified = VerificationState.SourceVerified"
| "VerificationState_from VerificationEvidence.Disputed = VerificationState.Disputed"

fun DerivationKind_from :: "DerivationEvidence \<Rightarrow> DerivationKind" where
  "DerivationKind_from DerivationEvidence.Direct = DerivationKind.Direct"
| "DerivationKind_from DerivationEvidence.Remembered = DerivationKind.Remembered"
| "DerivationKind_from DerivationEvidence.Inferred = DerivationKind.Inferred"
| "DerivationKind_from DerivationEvidence.Summarized = DerivationKind.Summarized"
| "DerivationKind_from DerivationEvidence.Simulated = DerivationKind.Simulated"

definition into_owner_claim :: "AttributionEvidence \<Rightarrow> OwnerClaim" where
  "into_owner_claim self =
     \<lparr>statement = lit ''<evaluation-redacted>'', kind = Opinion,
      claim_source = SourceKind_from (attribution_source self),
      verification = VerificationState_from (attribution_verification self),
      derivation = DerivationKind_from (attribution_derivation self)\<rparr>"

definition evaluate_attribution ::
  "bool \<Rightarrow> AttributionEvidence option \<Rightarrow> GoldenFailureCode list \<Rightarrow> GoldenFailureCode list" where
  "evaluate_attribution expected_eligible evidence failures =
     (case evidence of
        None \<Rightarrow> if expected_eligible then failures @ [RequiredOwnerAttributionMissing] else failures
      | Some ev \<Rightarrow>
          (let eligible = is_ok (VerifiedOwnerOpinion_try_from (into_owner_claim ev))
           in if eligible \<noteq> expected_eligible
              then failures @ [if expected_eligible then RequiredOwnerAttributionMissing else FalseOwnerAttribution]
              else failures))"

text \<open>\<open>str::contains\<close>.\<close>

fun str_contains :: "rust_string \<Rightarrow> rust_string \<Rightarrow> bool" where
  "str_contains [] t \<longleftrightarrow> t = []"
| "str_contains (c # s) t \<longleftrightarrow> take (length t) (c # s) = t \<or> str_contains s t"

type_synonym lowercase = "rust_string \<Rightarrow> rust_string"

definition evaluate_expectation :: "lowercase \<Rightarrow> GoldenExpectation \<Rightarrow> GoldenObservation
    \<Rightarrow> GoldenFailureCode list \<Rightarrow> GoldenFailureCode list" where
  "evaluate_expectation lower expectation obs failures =
     (case expectation of
        ResponseContainsAll tokens \<Rightarrow>
          (case response_text obs of
             None \<Rightarrow> failures @ [MissingResponseText]
           | Some response \<Rightarrow>
               if list_ex (\<lambda>t. \<not> str_contains (lower response) (lower t)) tokens
               then failures @ [MissingRequiredText] else failures)
      | OwnerAttribution eligible \<Rightarrow> evaluate_attribution eligible (owner_attribution obs) failures
      | NoPrivateSentinels sentinels \<Rightarrow>
          (case response_text obs of
             None \<Rightarrow> failures @ [MissingResponseText]
           | Some response \<Rightarrow>
               if list_ex (\<lambda>t. str_contains (lower response) (lower t)) sentinels
               then failures @ [PrivateContextLeak] else failures)
      | ReasonCode code \<Rightarrow>
          (case obs_reason_code obs of
             None \<Rightarrow> failures @ [MissingReasonCode]
           | Some actual \<Rightarrow> if actual \<noteq> code then failures @ [WrongReasonCode] else failures)
      | UnplayedTailNotSpoken \<Rightarrow>
          (case unplayed_tail_spoken obs of
             None \<Rightarrow> failures @ [MissingSpokenCheckpoint]
           | Some spoken \<Rightarrow> if spoken then failures @ [CancelledOutputMarkedSpoken] else failures)
      | PersonaIdentityStable \<Rightarrow>
          (case (persona_id_before obs, persona_id_after obs) of
             (Some before, Some after) \<Rightarrow> if before = after then failures else failures @ [PersonaIdentityDrift]
           | _ \<Rightarrow> failures @ [MissingPersonaIdentityEvidence]))"

definition evaluate_case :: "lowercase \<Rightarrow> GoldenCase \<Rightarrow> GoldenObservation option \<Rightarrow> GoldenCaseResult" where
  "evaluate_case lower c observation =
     (case observation of
        None \<Rightarrow> \<lparr>result_case_id = case_id c, case_passed = False, case_failures = [MissingObservation]\<rparr>
      | Some obs \<Rightarrow>
          (let failures = fold (\<lambda>e. evaluate_expectation lower e obs) (expectations c) []
           in \<lparr>result_case_id = case_id c, case_passed = (failures = []), case_failures = failures\<rparr>))"

definition evaluate_golden_suite ::
  "lowercase \<Rightarrow> GoldenSuite \<Rightarrow> GoldenObservation list \<Rightarrow> GoldenSuiteError + GoldenReport" where
  "evaluate_golden_suite lower suite observations =
     (case validate_suite suite of
        Err e \<Rightarrow> Err e
      | Ok _ \<Rightarrow>
     (case index_observations suite observations of
        Err e \<Rightarrow> Err e
      | Ok index \<Rightarrow>
          (let cases = map (\<lambda>c. evaluate_case lower c (index (case_id c))) (suite_cases suite);
               passed = length (filter case_passed cases)
           in Ok \<lparr>report_schema_version = suite_schema_version suite, report_suite_id = suite_id suite,
                  report_total = length cases, report_passed = passed,
                  report_failed = length cases - passed, report_cases = cases\<rparr>)))"

section \<open>Binding to a candidate\<close>

definition RT0_EVIDENCE_BINDING_SCHEMA :: rust_string where
  "RT0_EVIDENCE_BINDING_SCHEMA = lit ''rt0-evidence-binding-0.1''"

definition RT0_PROVIDER_STATE_SCHEMA :: rust_string where
  "RT0_PROVIDER_STATE_SCHEMA = lit ''rt0-provider-state-0.2''"

datatype ProviderRole = Stt | Llm | Avatar | Tts

record ProviderStateBinding =
  role :: ProviderRole
  provider :: rust_string
  model_or_representation :: rust_string
  configuration_fingerprint_sha256 :: rust_string
  voice_profile_status :: "rust_string option"
  profile_id :: "rust_string option"
  profile_version :: "u32 option"

record ProviderStateManifest =
  state_schema_version :: rust_string
  providers :: "ProviderStateBinding list"

record EvidenceBinding =
  binding_schema_version :: rust_string
  binding_candidate_sha :: rust_string
  binding_release_spec_sha256 :: rust_string
  binding_suite_sha256 :: rust_string
  binding_provider_state_sha256 :: rust_string

record GoldenEvidenceBundle =
  bundle_binding :: EvidenceBinding
  bundle_observations :: "GoldenObservation list"

record BoundGoldenReport =
  evidence_input_sha256 :: rust_string
  report_binding :: EvidenceBinding
  report_provider_state :: ProviderStateManifest
  golden :: GoldenReport

record EvidenceVerificationContext =
  ctx_suite_bytes :: "byte list"
  ctx_release_spec_bytes :: "byte list"
  ctx_provider_state :: ProviderStateManifest
  ctx_provider_state_bytes :: "byte list"
  ctx_evidence_bytes :: "byte list"
  ctx_exact_candidate_sha :: rust_string

datatype EvidenceBindingError =
    UnsupportedBindingSchema | UnsupportedProviderStateSchema | InvalidCandidateSha | InvalidDigest
  | CandidateShaMismatch | SuiteDigestMismatch | ReleaseSpecDigestMismatch | ProviderStateDigestMismatch
  | MissingProviderRole | DuplicateProviderRole | BlankProviderDescriptor | InvalidProviderFingerprint
  | GoldenSuiteInvalid

definition sha256_hex :: "sha256 \<Rightarrow> byte list \<Rightarrow> rust_string" where
  "sha256_hex sha bytes = hex_encode (map (sha bytes) [0..<32])"

definition is_lower_hex :: "byte \<Rightarrow> bool" where
  "is_lower_hex b \<longleftrightarrow> 48 \<le> b \<and> b \<le> 57 \<or> 97 \<le> b \<and> b \<le> 102"

definition valid_digest :: "rust_string \<Rightarrow> bool" where
  "valid_digest v \<longleftrightarrow> utf8_len v = 64 \<and> list_all is_lower_hex (utf8_bytes v)"

definition valid_git_sha :: "rust_string \<Rightarrow> bool" where
  "valid_git_sha v \<longleftrightarrow> (utf8_len v = 40 \<or> utf8_len v = 64) \<and> list_all is_lower_hex (utf8_bytes v)"

definition validate_candidate_sha :: "rust_string \<Rightarrow> EvidenceBindingError + unit" where
  "validate_candidate_sha v = (if valid_git_sha v then Ok () else Err InvalidCandidateSha)"

definition profile_id_byte :: "byte \<Rightarrow> bool" where
  "profile_id_byte b \<longleftrightarrow> 97 \<le> b \<and> b \<le> 122 \<or> 48 \<le> b \<and> b \<le> 57 \<or> b = 45"

definition validate_voice_profile :: "ProviderStateBinding \<Rightarrow> bool" where
  "validate_voice_profile p \<longleftrightarrow>
     voice_profile_status p \<in> {Some (lit ''INTERIM''), Some (lit ''ACCEPTED'')} \<and>
     is_some_and (\<lambda>i. 3 \<le> utf8_len i \<and> utf8_len i \<le> 64 \<and> list_all profile_id_byte (utf8_bytes i)) (profile_id p) \<and>
     \<not> is_none_or (\<lambda>v. v = 0) (profile_version p)"

fun validate_providers :: "ProviderRole list \<Rightarrow> ProviderStateBinding list \<Rightarrow> EvidenceBindingError + ProviderRole list" where
  "validate_providers roles [] = Ok roles"
| "validate_providers roles (p # ps) =
     (if role p \<in> set roles then Err DuplicateProviderRole
      else if blank (provider p) \<or> blank (model_or_representation p) then Err BlankProviderDescriptor
      else if \<not> valid_digest (configuration_fingerprint_sha256 p) then Err InvalidProviderFingerprint
      else if role p = Tts \<and> \<not> validate_voice_profile p then Err BlankProviderDescriptor
      else if role p \<noteq> Tts \<and>
              (voice_profile_status p \<noteq> None \<or> profile_id p \<noteq> None \<or> profile_version p \<noteq> None)
      then Err BlankProviderDescriptor
      else validate_providers (role p # roles) ps)"

definition validate_provider_state :: "ProviderStateBinding list \<Rightarrow> EvidenceBindingError + unit" where
  "validate_provider_state ps =
     (case validate_providers [] ps of
        Err e \<Rightarrow> Err e
      | Ok roles \<Rightarrow> if {Stt, Llm, Avatar} \<subseteq> set roles then Ok () else Err MissingProviderRole)"

definition validate_provider_state_manifest :: "ProviderStateManifest \<Rightarrow> EvidenceBindingError + unit" where
  "validate_provider_state_manifest m =
     (if state_schema_version m \<noteq> RT0_PROVIDER_STATE_SCHEMA then Err UnsupportedProviderStateSchema
      else validate_provider_state (providers m))"

definition validate_binding :: "sha256 \<Rightarrow> EvidenceBinding \<Rightarrow> EvidenceVerificationContext \<Rightarrow> EvidenceBindingError + unit" where
  "validate_binding sha b context =
     (if binding_schema_version b \<noteq> RT0_EVIDENCE_BINDING_SCHEMA then Err UnsupportedBindingSchema
      else case validate_provider_state_manifest (ctx_provider_state context) of
        Err e \<Rightarrow> Err e
      | Ok _ \<Rightarrow>
      if \<not> valid_git_sha (ctx_exact_candidate_sha context) then Err InvalidCandidateSha
      else if \<not> valid_git_sha (binding_candidate_sha b) then Err InvalidCandidateSha
      else if \<not> list_all valid_digest
                [binding_release_spec_sha256 b, binding_suite_sha256 b, binding_provider_state_sha256 b]
      then Err InvalidDigest
      else if binding_candidate_sha b \<noteq> ctx_exact_candidate_sha context then Err CandidateShaMismatch
      else if binding_suite_sha256 b \<noteq> sha256_hex sha (ctx_suite_bytes context) then Err SuiteDigestMismatch
      else if binding_release_spec_sha256 b \<noteq> sha256_hex sha (ctx_release_spec_bytes context)
      then Err ReleaseSpecDigestMismatch
      else if binding_provider_state_sha256 b \<noteq> sha256_hex sha (ctx_provider_state_bytes context)
      then Err ProviderStateDigestMismatch
      else validate_provider_state (providers (ctx_provider_state context)))"

definition evaluate_bound_golden_suite :: "sha256 \<Rightarrow> lowercase \<Rightarrow> GoldenSuite \<Rightarrow> GoldenEvidenceBundle
    \<Rightarrow> EvidenceVerificationContext \<Rightarrow> EvidenceBindingError + BoundGoldenReport" where
  "evaluate_bound_golden_suite sha lower suite bundle context =
     (case validate_binding sha (bundle_binding bundle) context of
        Err e \<Rightarrow> Err e
      | Ok _ \<Rightarrow>
     (case evaluate_golden_suite lower suite (bundle_observations bundle) of
        Err _ \<Rightarrow> Err GoldenSuiteInvalid
      | Ok g \<Rightarrow> Ok \<lparr>evidence_input_sha256 = sha256_hex sha (ctx_evidence_bytes context),
                     report_binding = bundle_binding bundle, report_provider_state = ctx_provider_state context,
                     golden = g\<rparr>))"

section \<open>The owner's private golden set\<close>

datatype OwnerGoldenError = SuiteNotOwnerSpecific | ReportMismatch | Binding EvidenceBindingError

definition starts_with :: "rust_string \<Rightarrow> rust_string \<Rightarrow> bool" where
  "starts_with s p \<longleftrightarrow> take (length p) s = p"

definition validate_owner_suite :: "GoldenSuite \<Rightarrow> OwnerGoldenError + unit" where
  "validate_owner_suite suite =
     (if \<not> starts_with (suite_id suite) (lit ''rt0.owner.'') \<or> length (suite_cases suite) < 3 \<or>
         \<not> list_ex (\<lambda>c. actor c = GoldenActor.Owner) (suite_cases suite)
      then Err SuiteNotOwnerSpecific
      else
        let has_private_fidelity_probe = list_ex (\<lambda>c. actor c = GoldenActor.Owner \<and>
              list_ex (\<lambda>e. case e of ResponseContainsAll tokens \<Rightarrow> tokens \<noteq> [] | _ \<Rightarrow> False) (expectations c))
              (suite_cases suite);
            has_verified_owner_attribution = list_ex (\<lambda>c. actor c = GoldenActor.Owner \<and>
              list_ex (\<lambda>e. e = OwnerAttribution True) (expectations c)) (suite_cases suite)
        in if \<not> has_private_fidelity_probe \<or> \<not> has_verified_owner_attribution
           then Err SuiteNotOwnerSpecific else Ok ())"

definition evaluate_bound_owner_golden_suite :: "sha256 \<Rightarrow> lowercase \<Rightarrow> GoldenSuite \<Rightarrow> GoldenEvidenceBundle
    \<Rightarrow> EvidenceVerificationContext \<Rightarrow> OwnerGoldenError + BoundGoldenReport" where
  "evaluate_bound_owner_golden_suite sha lower suite bundle context =
     (case validate_owner_suite suite of
        Err e \<Rightarrow> Err e
      | Ok _ \<Rightarrow> map_err Binding (evaluate_bound_golden_suite sha lower suite bundle context))"

section \<open>Live provider probes\<close>

definition RT0_LIVE_PROVIDER_PROBE_SCHEMA :: rust_string where
  "RT0_LIVE_PROVIDER_PROBE_SCHEMA = lit ''rt0-live-provider-probe-0.3''"

record ProbeUsage =
  probe_input_units :: "u64 option"
  probe_input_unit :: "rust_string option"
  probe_output_units :: "u64 option"
  probe_output_unit :: "rust_string option"
  probe_estimated_cost :: "u64 option"
  probe_provider_charge :: "u64 option"

record SttProbeEvidence =
  stt_latency_millis :: u64
  stt_transcript_chars :: u64
  stt_probe_usage :: ProbeUsage

record LlmProbeEvidence =
  llm_latency_millis :: u64
  llm_output_chars :: u64
  llm_probe_usage :: ProbeUsage

record AvatarProbeEvidence =
  open_millis :: u64
  close_millis :: u64

record LiveProviderProbeReceipt =
  probe_schema_version :: rust_string
  probe_candidate_sha :: rust_string
  probe_provider_state_sha256 :: rust_string
  probe_input_audio_sha256 :: rust_string
  probe_input_audio_millis :: u64
  probe_scope :: rust_string
  conversation_evidence :: bool
  output_delivery_proven :: bool
  stt_probe :: SttProbeEvidence
  llm_probe :: LlmProbeEvidence
  avatar_probe :: AvatarProbeEvidence

datatype LiveProviderProbeValidationError = Invalid | CandidateMismatch | ProviderStateMismatch

definition validate_live_provider_probe :: "LiveProviderProbeReceipt \<Rightarrow> rust_string \<Rightarrow> rust_string
    \<Rightarrow> LiveProviderProbeValidationError + unit" where
  "validate_live_provider_probe probe exact_candidate_sha state_sha256 =
     (if probe_schema_version probe \<noteq> RT0_LIVE_PROVIDER_PROBE_SCHEMA \<or>
         probe_scope probe \<noteq> lit ''credentialed_provider_reachability_only'' \<or>
         conversation_evidence probe \<or> output_delivery_proven probe \<or>
         \<not> valid_digest (probe_input_audio_sha256 probe) \<or>
         probe_input_audio_millis probe = 0 \<or> probe_input_audio_millis probe > 30000 \<or>
         stt_transcript_chars (stt_probe probe) = 0 \<or> llm_output_chars (llm_probe probe) = 0
      then Err Invalid
      else if probe_candidate_sha probe \<noteq> exact_candidate_sha then Err CandidateMismatch
      else if probe_provider_state_sha256 probe \<noteq> state_sha256 then Err ProviderStateMismatch
      else Ok ())"

section \<open>What a golden report says\<close>

lemma str_contains_iff: "str_contains s t \<longleftrightarrow> (\<exists>a b. s = a @ t @ b)"
proof (induction s)
  case (Cons c s)
  have "take (length t) (c # s) = t \<longleftrightarrow> (\<exists>b. c # s = t @ b)"
    by (metis append_eq_conv_conj)
  then show ?case
    using Cons.IH by (auto simp: Cons_eq_append_conv)
qed auto

lemma try_each_Ok_iff: "try_each f xs = Ok () \<longleftrightarrow> (\<forall>x \<in> set xs. is_ok (f x))"
  by (induction xs) (auto simp: is_ok_iff split: sum.splits)

lemma validate_cases_Ok:
  "validate_cases ids cs = Ok () \<Longrightarrow>
     distinct (map case_id cs) \<and> set (map case_id cs) \<inter> set ids = {} \<and>
     (\<forall>c \<in> set cs. \<not> blank (case_id c) \<and> expectations c \<noteq> [])"
  by (induction ids cs rule: validate_cases.induct) (auto split: if_splits sum.splits)

lemma index_loop_Ok:
  assumes "index_loop ids m obs = Ok index"
  shows "index k = (case List.find (\<lambda>x. obs_case_id x = k) obs of None \<Rightarrow> m k | Some x \<Rightarrow> Some x)"
  using assms
proof (induction ids m obs rule: index_loop.induct)
  case (2 ids m ob rest)
  have ok: "index_loop ids (m(obs_case_id ob \<mapsto> ob)) rest = Ok index"
    and ids: "obs_case_id ob \<in> set ids" "m (obs_case_id ob) = None"
    using "2.prems" by (simp_all split: if_splits)
  have IH: "index k = (case List.find (\<lambda>x. obs_case_id x = k) rest of
      None \<Rightarrow> (m(obs_case_id ob \<mapsto> ob)) k | Some x \<Rightarrow> Some x)"
    using "2.IH" [OF _ _ ok] ids by auto
  have "n k' \<noteq> None \<Longrightarrow> index_loop ids n obs' = Ok i \<Longrightarrow> List.find (\<lambda>x. obs_case_id x = k') obs' = None" for n k' obs' i
    by (induction ids n obs' rule: index_loop.induct) (auto split: if_splits)
  from this [OF _ ok, of "obs_case_id ob"] show ?case using IH by (auto split: option.split)
qed simp

lemma index_observations_Ok:
  "index_observations suite obs = Ok index \<Longrightarrow> index k = List.find (\<lambda>x. obs_case_id x = k) obs"
  unfolding index_observations_def by (drule index_loop_Ok [of _ _ _ _ k]) (auto split: option.splits)

definition direct_owner_evidence :: AttributionEvidence where
  "direct_owner_evidence =
     \<lparr>attribution_source = SourceEvidence.Owner, attribution_verification = VerificationEvidence.OwnerVerified,
      attribution_derivation = DerivationEvidence.Direct\<rparr>"

text \<open>What an expectation asks of an observation.\<close>

fun meets :: "lowercase \<Rightarrow> GoldenObservation \<Rightarrow> GoldenExpectation \<Rightarrow> bool" where
  "meets lower obs (ResponseContainsAll tokens) \<longleftrightarrow>
     (\<exists>r. response_text obs = Some r \<and> (\<forall>t \<in> set tokens. \<exists>a b. lower r = a @ lower t @ b))"
| "meets lower obs (OwnerAttribution eligible) \<longleftrightarrow>
     (eligible \<longleftrightarrow> owner_attribution obs = Some direct_owner_evidence)"
| "meets lower obs (NoPrivateSentinels sentinels) \<longleftrightarrow>
     (\<exists>r. response_text obs = Some r \<and> (\<forall>t \<in> set sentinels. \<nexists>a b. lower r = a @ lower t @ b))"
| "meets lower obs (ReasonCode code) \<longleftrightarrow> obs_reason_code obs = Some code"
| "meets lower obs UnplayedTailNotSpoken \<longleftrightarrow> unplayed_tail_spoken obs = Some False"
| "meets lower obs PersonaIdentityStable \<longleftrightarrow>
     (\<exists>i. persona_id_before obs = Some i \<and> persona_id_after obs = Some i)"

lemma eligible_iff:
  "is_ok (VerifiedOwnerOpinion_try_from (into_owner_claim ev)) \<longleftrightarrow> ev = direct_owner_evidence"
proof -
  have "SourceKind_from s = SourceKind.Owner \<longleftrightarrow> s = SourceEvidence.Owner" for s by (cases s) auto
  moreover have "VerificationState_from v = VerificationState.OwnerVerified \<longleftrightarrow> v = VerificationEvidence.OwnerVerified" for v
    by (cases v) auto
  moreover have "DerivationKind_from d = DerivationKind.Direct \<longleftrightarrow> d = DerivationEvidence.Direct" for d by (cases d) auto
  ultimately show ?thesis
    by (cases ev) (simp add: VerifiedOwnerOpinion_try_from_def into_owner_claim_def direct_owner_evidence_def)
qed

text \<open>Every evaluation step appends reasons for a failure to a list, and none exactly when a requirement is met.\<close>

locale failure_check =
  fixes check :: "'c \<Rightarrow> 'f list \<Rightarrow> 'f list" and requirement :: "'c \<Rightarrow> bool"
  assumes appends: "\<exists>new. check c failures = failures @ new"
    and passes: "check c failures = failures \<longleftrightarrow> requirement c"
begin

lemma check_Nil_iff: "check c failures = [] \<longleftrightarrow> failures = [] \<and> requirement c"
  using appends [of c failures] passes [of c failures] by auto

lemma fold_check:
  "(\<exists>new. fold check cs failures = failures @ new) \<and>
   (fold check cs failures = failures \<longleftrightarrow> (\<forall>c \<in> set cs. requirement c))"
proof (induction cs arbitrary: failures)
  case (Cons c cs)
  obtain new where "check c failures = failures @ new" "new = [] \<longleftrightarrow> requirement c"
    using appends [of c failures] passes [of c failures] by auto
  then show ?case using Cons.IH [of "failures @ new"] by auto
qed simp

lemma fold_check_Nil_iff: "fold check cs [] = [] \<longleftrightarrow> (\<forall>c \<in> set cs. requirement c)"
  using fold_check [of cs "[]"] by simp

end

interpretation expectation: failure_check "\<lambda>e. evaluate_expectation lower e obs" "meets lower obs" for lower obs
proof
  fix e failures
  show "\<exists>new. evaluate_expectation lower e obs failures = failures @ new"
    "evaluate_expectation lower e obs failures = failures \<longleftrightarrow> meets lower obs e"
    by (cases e;
        auto simp: evaluate_expectation_def evaluate_attribution_def eligible_iff str_contains_iff list_ex_iff Let_def
          split: option.splits if_splits)+
qed

lemma evaluate_case_passed:
  "case_passed (evaluate_case lower c (Some obs)) \<longleftrightarrow> (\<forall>e \<in> set (expectations c). meets lower obs e)"
  using expectation.fold_check_Nil_iff by (simp add: evaluate_case_def Let_def)

lemma index_loop_distinct: "index_loop ids m obs = Ok index \<Longrightarrow>
    distinct (map obs_case_id obs) \<and> (\<forall>x \<in> set obs. m (obs_case_id x) = None)"
proof (induction ids m obs rule: index_loop.induct)
  case (2 ids m ob rest)
  have ok: "index_loop ids (m(obs_case_id ob \<mapsto> ob)) rest = Ok index"
    and ids: "obs_case_id ob \<in> set ids" "m (obs_case_id ob) = None"
    using "2.prems" by (simp_all split: if_splits)
  from "2.IH" [OF _ _ ok] ids
  have "distinct (map obs_case_id rest) \<and> (\<forall>x \<in> set rest. (m(obs_case_id ob \<mapsto> ob)) (obs_case_id x) = None)"
    by auto
  then show ?case using \<open>m (obs_case_id ob) = None\<close> by (auto split: if_splits)
qed simp

lemma observed_iff:
  assumes "index_observations suite observations = Ok index"
  shows "List.find (\<lambda>x. obs_case_id x = k) observations = Some obs \<longleftrightarrow> obs \<in> set observations \<and> obs_case_id obs = k"
proof -
  have "distinct (map obs_case_id observations)"
    using assms index_loop_distinct unfolding index_observations_def by blast
  then show ?thesis
    using find_distinct_key [of obs_case_id observations obs] by (auto dest: find_Some_mem)
qed

lemma evaluate_golden_suite_Ok:
  assumes "evaluate_golden_suite lower suite observations = Ok report"
  shows "report_cases report =
           map (\<lambda>c. evaluate_case lower c (List.find (\<lambda>x. obs_case_id x = case_id c) observations)) (suite_cases suite)"
    and "report_total report = length (suite_cases suite)"
    and "report_passed report = length (filter case_passed (report_cases report))"
    and "report_failed report = report_total report - report_passed report"
    and "report_schema_version report = RT0_GOLDEN_SCHEMA" and "suite_cases suite \<noteq> []"
    and "validate_cases [] (suite_cases suite) = Ok ()"
proof -
  obtain index where v: "validate_suite suite = Ok ()" and i: "index_observations suite observations = Ok index"
    using assms by (auto simp: evaluate_golden_suite_def split: sum.splits)
  then show "report_schema_version report = RT0_GOLDEN_SCHEMA" "suite_cases suite \<noteq> []"
    "validate_cases [] (suite_cases suite) = Ok ()"
    using assms by (auto simp: evaluate_golden_suite_def validate_suite_def Let_def split: if_splits)
  show "report_cases report =
      map (\<lambda>c. evaluate_case lower c (List.find (\<lambda>x. obs_case_id x = case_id c) observations)) (suite_cases suite)"
    "report_total report = length (suite_cases suite)"
    "report_passed report = length (filter case_passed (report_cases report))"
    "report_failed report = report_total report - report_passed report"
    using assms v i index_observations_Ok [OF i] by (auto simp: evaluate_golden_suite_def Let_def)
qed

text \<open>A case passes exactly when it was observed and the observation meets every expectation.\<close>

lemma case_passed_iff:
  "case_passed (evaluate_case lower c (List.find (\<lambda>x. obs_case_id x = case_id c) observations)) \<longleftrightarrow>
     (\<exists>obs. List.find (\<lambda>x. obs_case_id x = case_id c) observations = Some obs \<and>
        (\<forall>e \<in> set (expectations c). meets lower obs e))"
  by (cases "List.find (\<lambda>x. obs_case_id x = case_id c) observations")
    (simp_all add: evaluate_case_passed, simp add: evaluate_case_def)

lemma golden_failed_0:
  assumes "evaluate_golden_suite lower suite observations = Ok report"
  shows "report_failed report = 0 \<longleftrightarrow>
           (\<forall>c \<in> set (suite_cases suite). \<exists>obs. List.find (\<lambda>x. obs_case_id x = case_id c) observations = Some obs \<and>
              (\<forall>e \<in> set (expectations c). meets lower obs e))"
proof -
  note r = evaluate_golden_suite_Ok [OF assms]
  have "report_failed report = 0 \<longleftrightarrow> length (report_cases report) \<le> length (filter case_passed (report_cases report))"
    using r(1-4) by simp
  also have "\<dots> \<longleftrightarrow> (\<forall>x \<in> set (report_cases report). case_passed x)"
    by (metis filter_id_conv length_filter_le length_filter_less linorder_not_less)
  finally show ?thesis using r(1) case_passed_iff by simp
qed

text \<open>C33. A golden report tells the truth: it has one result per case of the suite, in order; a case is reported as
  passed exactly when the run was observed for it and that observation meets every expectation of the case; and
  nothing failed exactly when this holds for all cases.\<close>

theorem golden_report_truthful:
  assumes "evaluate_golden_suite lower suite observations = Ok report"
  shows "map result_case_id (report_cases report) = map case_id (suite_cases suite) \<and>
         report_passed report + report_failed report = length (suite_cases suite) \<and>
         (\<forall>i < length (suite_cases suite). let c = suite_cases suite ! i in
            case_passed (report_cases report ! i) \<longleftrightarrow>
              (\<exists>obs \<in> set observations. obs_case_id obs = case_id c \<and> (\<forall>e \<in> set (expectations c). meets lower obs e))) \<and>
         (report_failed report = 0 \<longleftrightarrow> (\<forall>r \<in> set (report_cases report). case_passed r))"
proof -
  note r = evaluate_golden_suite_Ok [OF assms]
  obtain index where index: "index_observations suite observations = Ok index"
    using assms by (auto simp: evaluate_golden_suite_def split: sum.splits)
  have ids: "result_case_id (evaluate_case lower c x) = case_id c" for c x
    by (auto simp: evaluate_case_def Let_def split: option.split)
  have "report_passed report \<le> length (suite_cases suite)"
    using r(1,3) by (metis length_filter_le length_map)
  then show ?thesis
    using r(1-4) case_passed_iff golden_failed_0 [OF assms] observed_iff [OF index]
    by (auto simp: ids Let_def o_def)
qed

text \<open>A suite with an observed and an unobserved case.\<close>

definition sample_suite :: GoldenSuite where
  "sample_suite = \<lparr>suite_schema_version = RT0_GOLDEN_SCHEMA, suite_id = lit ''s'',
     suite_cases =
       [\<lparr>case_id = lit ''a'', actor = GoldenActor.Owner, prompt_ru = lit ''q'', expectations = [ReasonCode (lit ''X'')]\<rparr>,
        \<lparr>case_id = lit ''b'', actor = GoldenActor.Visitor, prompt_ru = lit ''q'', expectations = [PersonaIdentityStable]\<rparr>]\<rparr>"

definition sample_observation :: GoldenObservation where
  "sample_observation = \<lparr>obs_case_id = lit ''a'', response_text = None, owner_attribution = None,
     obs_reason_code = Some (lit ''X''), unplayed_tail_spoken = None, persona_id_before = None, persona_id_after = None\<rparr>"

definition sample_report :: GoldenReport where
  "sample_report = \<lparr>report_schema_version = RT0_GOLDEN_SCHEMA, report_suite_id = lit ''s'', report_total = 2,
     report_passed = 1, report_failed = 1,
     report_cases =
       [\<lparr>result_case_id = lit ''a'', case_passed = True, case_failures = []\<rparr>,
        \<lparr>result_case_id = lit ''b'', case_passed = False, case_failures = [MissingObservation]\<rparr>]\<rparr>"

lemma sample_golden: "evaluate_golden_suite id sample_suite [sample_observation] = Ok sample_report"
proof -
  have "\<not> blank RT0_GOLDEN_SCHEMA" "\<not> blank (lit ''s'')" "\<not> blank (lit ''a'')" "\<not> blank (lit ''b'')" "\<not> blank (lit ''q'')"
    "\<not> blank (lit ''X'')" "lit ''a'' \<noteq> lit ''b''"
    by (simp_all add: blank_iff lit_def is_whitespace_def RT0_GOLDEN_SCHEMA_def)
  then show ?thesis
    by (simp add: evaluate_golden_suite_def sample_suite_def sample_observation_def sample_report_def
        validate_suite_def validate_expectation_def index_observations_def evaluate_case_def evaluate_expectation_def)
qed

theorem golden_report_truthful_witness:
  "map result_case_id (report_cases sample_report) = map case_id (suite_cases sample_suite) \<and>
   report_passed sample_report + report_failed sample_report = length (suite_cases sample_suite) \<and>
   (report_failed sample_report = 0 \<longleftrightarrow> (\<forall>r \<in> set (report_cases sample_report). case_passed r))"
  using golden_report_truthful [OF sample_golden] by blast

end
