(* ===== verification/VPR_Session_Evidence.thy ===== *)
theory VPR_Session_Evidence
  imports VPR_Golden
begin

text \<open>
  Evidence of owner lab sessions and its aggregation
  (\<^verbatim>\<open>crates/vpr-evaluation/src/session_types.rs\<close>, \<^verbatim>\<open>session_statistics.rs\<close>, \<^verbatim>\<open>session_evidence.rs\<close> with its
  modules).

  A snapshot of one session lists its text and voice attempts and the media events the browser observed. The
  aggregator validates every snapshot, collects latencies and costs, and summarises them by nearest-rank
  percentiles. It discards everything on the first error, so its steps return the new accumulator or the error.
  The JSON codec and SHA-256 are parameters.
\<close>

section \<open>Snapshots\<close>

record SessionUsageEvidence =
  usage_input_units :: "u64 option"
  usage_output_units :: "u64 option"
  usage_estimated_cost :: "u64 option"
  usage_provider_charge :: "u64 option"

datatype LabTextAttemptStatus = Pending | Completed | Failed

record LabTextAttemptEvidence =
  text_request_sequence :: u64
  text_turn_sequence :: "u64 option"
  text_output_sequence :: "u64 option"
  text_status :: LabTextAttemptStatus
  text_failure_code :: "rust_string option"
  text_first_meaningful_millis :: "u64 option"
  text_server_total_millis :: "u64 option"
  text_llm_usage :: "SessionUsageEvidence option"

definition RT0_OWNER_LAB_SESSION_EVIDENCE_SCHEMA :: rust_string where
  "RT0_OWNER_LAB_SESSION_EVIDENCE_SCHEMA = lit ''rt0-owner-lab-session-evidence-1.6''"

definition RT0_OWNER_LAB_SESSION_AGGREGATE_SCHEMA :: rust_string where
  "RT0_OWNER_LAB_SESSION_AGGREGATE_SCHEMA = lit ''rt0-owner-lab-session-aggregate-1.1''"

definition RT0_OWNER_LAB_MEDIA_EVIDENCE_SCOPE :: rust_string where
  "RT0_OWNER_LAB_MEDIA_EVIDENCE_SCOPE = lit ''browser_observed_media_plane_only''"

definition RT0_AV_SYNC_SAMPLES_PER_REQUEST :: u32 where
  "RT0_AV_SYNC_SAMPLES_PER_REQUEST = 3"

definition MAX_MEDIA_ELAPSED_MILLIS :: u64 where
  "MAX_MEDIA_ELAPSED_MILLIS = 300000"

datatype LabMediaEvidenceKind =
    VideoReady | BackendStartReady | TransportConnectStarted | TransportConnected | RemoteVideoTrackReceived
  | RemoteVideoAttached | EndToEndVideoReady | BackendCompleteReceived | ClientDeliverySent | AudioStarted
  | ProviderDataReceived | ProviderEventIgnored | ProviderUnknownChatEvent | ProviderUnknownVideoEvent
  | ProviderUnknownToolEvent | ProviderUnknownOtherEvent | ProviderVideoGenerationStarted
  | ProviderVideoGenerationDone | ProviderVideoGenerationFailed | ProviderInformationalEvent
  | ProviderEventParseFailed | ProviderPlaybackDoneReceived | PlaybackRecoveryTriggered
  | BrowserAudioTailObserved | PlaybackCompleted | InterruptionStopped | ReconnectRestored

definition requires_request_sequence :: "LabMediaEvidenceKind \<Rightarrow> bool" where
  "requires_request_sequence k \<longleftrightarrow>
     (case k of
        BackendCompleteReceived \<Rightarrow> True | ClientDeliverySent \<Rightarrow> True | AudioStarted \<Rightarrow> True
      | ProviderDataReceived \<Rightarrow> True | ProviderEventIgnored \<Rightarrow> True | ProviderUnknownChatEvent \<Rightarrow> True
      | ProviderUnknownVideoEvent \<Rightarrow> True | ProviderUnknownToolEvent \<Rightarrow> True
      | ProviderUnknownOtherEvent \<Rightarrow> True | ProviderVideoGenerationStarted \<Rightarrow> True
      | ProviderVideoGenerationDone \<Rightarrow> True | ProviderVideoGenerationFailed \<Rightarrow> True
      | ProviderInformationalEvent \<Rightarrow> True | ProviderEventParseFailed \<Rightarrow> True
      | ProviderPlaybackDoneReceived \<Rightarrow> True | PlaybackRecoveryTriggered \<Rightarrow> True
      | BrowserAudioTailObserved \<Rightarrow> True | PlaybackCompleted \<Rightarrow> True | InterruptionStopped \<Rightarrow> True
      | _ \<Rightarrow> False)"

datatype LabAvSyncReference = WebRtcEstimatedPlayoutTimestamp | HtmlMediaElementCurrentTime

record LabAvSyncEvidence =
  sync_request_sequence :: u64
  sample_sequence :: u32
  reference :: LabAvSyncReference
  absolute_offset_millis :: u64

datatype LabVoiceAttemptStatus = Pending | Completed | Failed

record LabVoiceAttemptEvidence =
  voice_request_sequence :: u64
  voice_turn_sequence :: "u64 option"
  voice_output_sequence :: "u64 option"
  canonical_playback_confirmed :: bool
  voice_status :: LabVoiceAttemptStatus
  voice_failure_code :: "rust_string option"
  stt_millis :: "u64 option"
  llm_millis :: "u64 option"
  llm_first_meaningful_millis :: "u64 option"
  voice_first_text_millis :: "u64 option"
  tts_first_pcm_millis :: "u64 option"
  echo_first_send_millis :: "u64 option"
  avatar_millis :: "u64 option"
  voice_server_total_millis :: "u64 option"
  stt_usage :: "SessionUsageEvidence option"
  voice_llm_usage :: "SessionUsageEvidence option"

record LabMediaEvidence =
  media_request_sequence :: "u64 option"
  media_kind :: LabMediaEvidenceKind
  elapsed_millis :: u64

datatype LabAvSyncTrackIssue =
    StatsUnavailable | TimestampUnavailable | SenderReportTimingUnavailable | AmbiguousStreams
  | NoUniqueActiveStream

record LabAvSyncDiagnostic =
  diag_request_sequence :: u64
  attempts :: u32
  audio_issue :: "LabAvSyncTrackIssue option"
  video_issue :: "LabAvSyncTrackIssue option"

datatype ParticipantRole = Owner | Visitor

record LabSessionEvidenceSnapshot =
  snap_schema_version :: rust_string
  snap_candidate_sha :: rust_string
  snap_provider_state_sha256 :: rust_string
  snap_scope :: rust_string
  session_sequence :: u64
  participant_role :: ParticipantRole
  snap_duration_millis :: u64
  snap_playback_proven :: bool
  snap_av_sync_proven :: bool
  text_attempts :: "LabTextAttemptEvidence list"
  voice_attempts :: "LabVoiceAttemptEvidence list"
  media_events :: "LabMediaEvidence list"
  av_sync_samples :: "LabAvSyncEvidence list"
  av_sync_diagnostics :: "LabAvSyncDiagnostic list"

datatype LabSessionAggregateError =
    EmptyInput | InvalidSnapshot | DuplicateSnapshot | IncompleteAttempt | InvalidMediaEvidence | Overflow

section \<open>Statistics\<close>

record LatencyDistributionMillis =
  samples :: u32
  p50 :: u64
  p95 :: u64

definition add_cost :: "u64 option \<Rightarrow> u64 option \<Rightarrow> LabSessionAggregateError + u64 option" where
  "add_cost total_cost value =
     (case (total_cost, value) of
        (Some current, Some v) \<Rightarrow>
          (case checked_add current v of None \<Rightarrow> Err Overflow | Some c \<Rightarrow> Ok (Some c))
      | _ \<Rightarrow> Ok None)"

definition usize_saturating_mul :: "nat \<Rightarrow> nat \<Rightarrow> nat" where
  "usize_saturating_mul a b = min (a * b) (2 ^ 64 - 1)"

definition div_ceil :: "nat \<Rightarrow> nat \<Rightarrow> nat" where
  "div_ceil a b = (if a mod b = 0 then a div b else a div b + 1)"

definition nearest_rank :: "u64 list \<Rightarrow> nat \<Rightarrow> u64" where
  "nearest_rank values percentile =
     (let rank = max (div_ceil (usize_saturating_mul (length values) percentile) 100) 1 in values ! (rank - 1))"

definition distribution :: "u64 list \<Rightarrow> LabSessionAggregateError + LatencyDistributionMillis option" where
  "distribution values =
     (if values = [] then Ok None
      else let sorted_values = sort values
           in if length sorted_values < 2 ^ 32
              then Ok (Some \<lparr>samples = of_nat (length sorted_values), p50 = nearest_rank sorted_values 50,
                             p95 = nearest_rank sorted_values 95\<rparr>)
              else Err Overflow)"

section \<open>The accumulator\<close>

record SessionAggregateAccumulator =
  acc_duration_millis :: u64
  acc_completed_text :: u32
  acc_failed_text :: u32
  acc_completed_voice :: u32
  acc_failed_voice :: u32
  acc_text_first_meaningful :: "u64 list"
  acc_playback_sessions :: u32
  acc_av_sync_sessions :: u32
  acc_av_sync :: "u64 list"
  acc_stt :: "u64 list"
  acc_llm :: "u64 list"
  acc_llm_first_meaningful :: "u64 list"
  acc_voice_first_text :: "u64 list"
  acc_avatar :: "u64 list"
  acc_server_total :: "u64 list"
  acc_audio :: "u64 list"
  acc_interruption :: "u64 list"
  acc_video :: "u64 list"
  acc_backend_start :: "u64 list"
  acc_transport_connect_started :: "u64 list"
  acc_transport_connected :: "u64 list"
  acc_remote_video_track_received :: "u64 list"
  acc_remote_video_attached :: "u64 list"
  acc_end_to_end_video :: "u64 list"
  acc_reconnect :: "u64 list"
  acc_estimated_cost :: "u64 option"
  acc_provider_charge :: "u64 option"
  acc_cost_initialized :: bool

definition accumulator_default :: SessionAggregateAccumulator where
  "accumulator_default =
     \<lparr>acc_duration_millis = 0, acc_completed_text = 0, acc_failed_text = 0, acc_completed_voice = 0,
      acc_failed_voice = 0, acc_text_first_meaningful = [], acc_playback_sessions = 0,
      acc_av_sync_sessions = 0, acc_av_sync = [], acc_stt = [], acc_llm = [], acc_llm_first_meaningful = [],
      acc_voice_first_text = [], acc_avatar = [], acc_server_total = [], acc_audio = [], acc_interruption = [],
      acc_video = [], acc_backend_start = [], acc_transport_connect_started = [], acc_transport_connected = [],
      acc_remote_video_track_received = [], acc_remote_video_attached = [], acc_end_to_end_video = [],
      acc_reconnect = [], acc_estimated_cost = None, acc_provider_charge = None, acc_cost_initialized = False\<rparr>"

type_synonym accumulate = "SessionAggregateAccumulator \<Rightarrow> LabSessionAggregateError + SessionAggregateAccumulator"

definition init_cost :: "SessionAggregateAccumulator \<Rightarrow> SessionAggregateAccumulator" where
  "init_cost a =
     (if acc_cost_initialized a then a
      else a\<lparr>acc_estimated_cost := Some 0, acc_provider_charge := Some 0, acc_cost_initialized := True\<rparr>)"

definition add_single_usage_cost :: "SessionUsageEvidence \<Rightarrow> accumulate" where
  "add_single_usage_cost usage a0 =
     (let a = init_cost a0
      in case add_cost (acc_estimated_cost a) (usage_estimated_cost usage) of
           Err e \<Rightarrow> Err e
         | Ok est \<Rightarrow>
        (case add_cost (acc_provider_charge a) (usage_provider_charge usage) of
           Err e \<Rightarrow> Err e
         | Ok charge \<Rightarrow> Ok (a\<lparr>acc_estimated_cost := est, acc_provider_charge := charge\<rparr>)))"

text \<open>Both estimates are added before both charges.\<close>

definition add_usage_costs :: "SessionUsageEvidence \<Rightarrow> SessionUsageEvidence \<Rightarrow> accumulate" where
  "add_usage_costs stt llm a0 =
     (let a = init_cost a0
      in case add_cost (acc_estimated_cost a) (usage_estimated_cost stt) of
           Err e \<Rightarrow> Err e
         | Ok est1 \<Rightarrow>
        (case add_cost est1 (usage_estimated_cost llm) of
           Err e \<Rightarrow> Err e
         | Ok est \<Rightarrow>
        (case add_cost (acc_provider_charge a) (usage_provider_charge stt) of
           Err e \<Rightarrow> Err e
         | Ok charge1 \<Rightarrow>
        (case add_cost charge1 (usage_provider_charge llm) of
           Err e \<Rightarrow> Err e
         | Ok charge \<Rightarrow> Ok (a\<lparr>acc_estimated_cost := est, acc_provider_charge := charge\<rparr>)))))"

definition consume_text_attempt :: "LabTextAttemptEvidence \<Rightarrow> accumulate" where
  "consume_text_attempt attempt a =
     (case text_status attempt of
        LabTextAttemptStatus.Pending \<Rightarrow> Err IncompleteAttempt
      | LabTextAttemptStatus.Failed \<Rightarrow>
          if is_none_or blank (text_failure_code attempt) \<or> text_turn_sequence attempt \<noteq> None \<or>
             text_output_sequence attempt \<noteq> None \<or> text_first_meaningful_millis attempt \<noteq> None \<or>
             text_server_total_millis attempt \<noteq> None \<or> text_llm_usage attempt \<noteq> None
          then Err InvalidSnapshot
          else (case checked_add (acc_failed_text a) 1 of
                  None \<Rightarrow> Err Overflow | Some n \<Rightarrow> Ok (a\<lparr>acc_failed_text := n\<rparr>))
      | LabTextAttemptStatus.Completed \<Rightarrow>
          (case (text_turn_sequence attempt, text_output_sequence attempt, text_first_meaningful_millis attempt,
                 text_server_total_millis attempt, text_llm_usage attempt) of
             (Some turn, Some output, Some first, Some total_ms, Some llm_usage) \<Rightarrow>
               if turn = 0 \<or> output = 0 \<or> first > total_ms \<or> text_failure_code attempt \<noteq> None
               then Err InvalidSnapshot
               else (case checked_add (acc_completed_text a) 1 of
                       None \<Rightarrow> Err Overflow
                     | Some n \<Rightarrow>
                         add_single_usage_cost llm_usage
                           (a\<lparr>acc_completed_text := n,
                              acc_text_first_meaningful := acc_text_first_meaningful a @ [first]\<rparr>))
           | _ \<Rightarrow> Err IncompleteAttempt))"

definition consume_failed_attempt :: "LabVoiceAttemptEvidence \<Rightarrow> accumulate" where
  "consume_failed_attempt attempt a =
     (if is_none_or blank (voice_failure_code attempt) \<or> voice_turn_sequence attempt \<noteq> None \<or>
         voice_output_sequence attempt \<noteq> None \<or> canonical_playback_confirmed attempt \<or>
         stt_millis attempt \<noteq> None \<or> llm_millis attempt \<noteq> None \<or> llm_first_meaningful_millis attempt \<noteq> None \<or>
         voice_first_text_millis attempt \<noteq> None \<or> avatar_millis attempt \<noteq> None \<or>
         voice_server_total_millis attempt \<noteq> None \<or> stt_usage attempt \<noteq> None \<or> voice_llm_usage attempt \<noteq> None
      then Err InvalidSnapshot
      else (case checked_add (acc_failed_voice a) 1 of
              None \<Rightarrow> Err Overflow | Some n \<Rightarrow> Ok (a\<lparr>acc_failed_voice := n\<rparr>)))"

definition consume_completed_attempt :: "LabVoiceAttemptEvidence \<Rightarrow> accumulate" where
  "consume_completed_attempt attempt a =
     (case (voice_turn_sequence attempt, voice_output_sequence attempt, stt_millis attempt, llm_millis attempt) of
        (Some turn, Some output, Some stt_ms, Some llm_ms) \<Rightarrow>
     (case (llm_first_meaningful_millis attempt, avatar_millis attempt, voice_server_total_millis attempt,
            stt_usage attempt, voice_llm_usage attempt) of
        (Some first_ms, Some avatar_ms, Some total_ms, Some stt_u, Some llm_u) \<Rightarrow>
          if turn = 0 \<or> output = 0 \<or> first_ms > llm_ms \<or> first_ms > total_ms \<or>
             is_some_and (\<lambda>ms. ms > total_ms \<or> ms < first_ms) (voice_first_text_millis attempt) \<or>
             voice_failure_code attempt \<noteq> None
          then Err InvalidSnapshot
          else (case checked_add (acc_completed_voice a) 1 of
                  None \<Rightarrow> Err Overflow
                | Some n \<Rightarrow>
                    add_usage_costs stt_u llm_u
                      (a\<lparr>acc_completed_voice := n, acc_stt := acc_stt a @ [stt_ms], acc_llm := acc_llm a @ [llm_ms],
                         acc_llm_first_meaningful := acc_llm_first_meaningful a @ [first_ms],
                         acc_voice_first_text := acc_voice_first_text a @
                           (case voice_first_text_millis attempt of None \<Rightarrow> [] | Some ms \<Rightarrow> [ms]),
                         acc_avatar := acc_avatar a @ [avatar_ms],
                         acc_server_total := acc_server_total a @ [total_ms]\<rparr>))
      | _ \<Rightarrow> Err IncompleteAttempt)
      | _ \<Rightarrow> Err IncompleteAttempt)"

definition consume_attempt :: "LabVoiceAttemptEvidence \<Rightarrow> accumulate" where
  "consume_attempt attempt a =
     (case voice_status attempt of
        LabVoiceAttemptStatus.Pending \<Rightarrow> Err IncompleteAttempt
      | LabVoiceAttemptStatus.Failed \<Rightarrow> consume_failed_attempt attempt a
      | LabVoiceAttemptStatus.Completed \<Rightarrow> consume_completed_attempt attempt a)"

fun text_loop :: "u64 set \<Rightarrow> LabTextAttemptEvidence list \<Rightarrow> accumulate" where
  "text_loop seen [] a = Ok a"
| "text_loop seen (x # xs) a =
     (if text_request_sequence x = 0 \<or> text_request_sequence x \<in> seen then Err InvalidSnapshot
      else case consume_text_attempt x a of
             Err e \<Rightarrow> Err e | Ok a' \<Rightarrow> text_loop (insert (text_request_sequence x) seen) xs a')"

type_synonym status_map = "u64 \<Rightarrow> LabVoiceAttemptStatus option"

fun voice_loop :: "status_map \<Rightarrow> LabVoiceAttemptEvidence list \<Rightarrow> SessionAggregateAccumulator
    \<Rightarrow> LabSessionAggregateError + (status_map \<times> SessionAggregateAccumulator)" where
  "voice_loop request_status [] a = Ok (request_status, a)"
| "voice_loop request_status (x # xs) a =
     (if voice_request_sequence x = 0 \<or> request_status (voice_request_sequence x) \<noteq> None then Err InvalidSnapshot
      else case consume_attempt x a of
             Err e \<Rightarrow> Err e
           | Ok a' \<Rightarrow> voice_loop (request_status(voice_request_sequence x \<mapsto> voice_status x)) xs a')"

section \<open>Media events and playback\<close>

definition requests_of :: "LabMediaEvidenceKind \<Rightarrow> LabSessionEvidenceSnapshot \<Rightarrow> u64 set" where
  "requests_of k snap =
     set (List.map_filter media_request_sequence (filter (\<lambda>e. media_kind e = k) (media_events snap)))"

definition collect_media :: "LabMediaEvidence \<Rightarrow> SessionAggregateAccumulator \<Rightarrow> SessionAggregateAccumulator" where
  "collect_media event a =
     (let ms = elapsed_millis event
      in case media_kind event of
           AudioStarted \<Rightarrow> a\<lparr>acc_audio := acc_audio a @ [ms]\<rparr>
         | InterruptionStopped \<Rightarrow> a\<lparr>acc_interruption := acc_interruption a @ [ms]\<rparr>
         | VideoReady \<Rightarrow> a\<lparr>acc_video := acc_video a @ [ms]\<rparr>
         | BackendStartReady \<Rightarrow> a\<lparr>acc_backend_start := acc_backend_start a @ [ms]\<rparr>
         | TransportConnectStarted \<Rightarrow> a\<lparr>acc_transport_connect_started := acc_transport_connect_started a @ [ms]\<rparr>
         | TransportConnected \<Rightarrow> a\<lparr>acc_transport_connected := acc_transport_connected a @ [ms]\<rparr>
         | RemoteVideoTrackReceived \<Rightarrow> a\<lparr>acc_remote_video_track_received := acc_remote_video_track_received a @ [ms]\<rparr>
         | RemoteVideoAttached \<Rightarrow> a\<lparr>acc_remote_video_attached := acc_remote_video_attached a @ [ms]\<rparr>
         | EndToEndVideoReady \<Rightarrow> a\<lparr>acc_end_to_end_video := acc_end_to_end_video a @ [ms]\<rparr>
         | ReconnectRestored \<Rightarrow> a\<lparr>acc_reconnect := acc_reconnect a @ [ms]\<rparr>
         | _ \<Rightarrow> a)"

fun media_loop :: "status_map \<Rightarrow> u64 set \<Rightarrow> (u64 option \<times> LabMediaEvidenceKind) set
    \<Rightarrow> LabMediaEvidence list \<Rightarrow> accumulate" where
  "media_loop request_status audio_requests unique [] a = Ok a"
| "media_loop request_status audio_requests unique (x # xs) a =
     (if elapsed_millis x > MAX_MEDIA_ELAPSED_MILLIS then Err InvalidMediaEvidence
      else if requires_request_sequence (media_kind x) \<noteq> (media_request_sequence x \<noteq> None) then Err InvalidMediaEvidence
      else if is_some_and (\<lambda>request. request_status request \<noteq> Some LabVoiceAttemptStatus.Completed \<or>
                media_kind x = InterruptionStopped \<and> request \<notin> audio_requests) (media_request_sequence x)
      then Err InvalidMediaEvidence
      else if media_kind x \<noteq> ReconnectRestored \<and> (media_request_sequence x, media_kind x) \<in> unique
      then Err InvalidMediaEvidence
      else media_loop request_status audio_requests
             (if media_kind x \<noteq> ReconnectRestored then insert (media_request_sequence x, media_kind x) unique else unique)
             xs (collect_media x a))"

definition validate_and_collect_media :: "LabSessionEvidenceSnapshot \<Rightarrow> status_map \<Rightarrow> accumulate" where
  "validate_and_collect_media snap request_status a =
     media_loop request_status (requests_of AudioStarted snap) {} (media_events snap) a"

record PlaybackAccounting =
  playback_requests :: "u64 set"
  audio_requests :: "u64 set"
  derived_playback :: bool

definition confirmed_requests :: "LabSessionEvidenceSnapshot \<Rightarrow> u64 set" where
  "confirmed_requests snap =
     set (map voice_request_sequence (filter canonical_playback_confirmed (voice_attempts snap)))"

definition completed_requests :: "LabSessionEvidenceSnapshot \<Rightarrow> u64 set" where
  "completed_requests snap =
     set (map voice_request_sequence
       (filter (\<lambda>x. voice_status x = LabVoiceAttemptStatus.Completed) (voice_attempts snap)))"

definition validate_playback_accounting ::
  "LabSessionEvidenceSnapshot \<Rightarrow> u64 set \<Rightarrow> LabSessionAggregateError + PlaybackAccounting" where
  "validate_playback_accounting snap completed =
     (let playback = confirmed_requests snap; audio = requests_of AudioStarted snap;
          playback_completed = requests_of PlaybackCompleted snap;
          interrupted = requests_of InterruptionStopped snap
      in if playback \<noteq> playback_completed \<or> \<not> playback \<subseteq> audio \<or> \<not> interrupted \<subseteq> audio \<or>
            playback \<inter> interrupted \<noteq> {}
         then Err InvalidSnapshot
         else Ok \<lparr>playback_requests = playback, audio_requests = audio,
                  derived_playback = (completed \<noteq> {} \<and> playback \<noteq> {} \<and> playback \<union> interrupted = completed)\<rparr>)"

section \<open>Audio and video synchronisation\<close>

record av_sync_state =
  sync_unique :: "(u64 \<times> u32) set"
  reference_by_request :: "u64 \<Rightarrow> LabAvSyncReference option"
  sequences_by_request :: "(u64 \<times> u32 set) list"
  sync_offsets :: "u64 list"

text \<open>\<open>entry(request).or_default().insert(sample)\<close>.\<close>

fun entry_insert :: "u64 \<Rightarrow> u32 \<Rightarrow> (u64 \<times> u32 set) list \<Rightarrow> (u64 \<times> u32 set) list" where
  "entry_insert r s [] = [(r, {s})]"
| "entry_insert r s ((k, v) # m) = (if k = r then (k, insert s v) # m else (k, v) # entry_insert r s m)"

fun av_sync_loop :: "status_map \<Rightarrow> u64 set \<Rightarrow> u64 set \<Rightarrow> LabAvSyncEvidence list \<Rightarrow> av_sync_state
    \<Rightarrow> LabSessionAggregateError + av_sync_state" where
  "av_sync_loop request_status audio playback [] st = Ok st"
| "av_sync_loop request_status audio playback (x # xs) st =
     (let r = sync_request_sequence x; s = sample_sequence x
      in if r = 0 \<or> \<not> (1 \<le> s \<and> s \<le> RT0_AV_SYNC_SAMPLES_PER_REQUEST) \<or>
            absolute_offset_millis x > MAX_MEDIA_ELAPSED_MILLIS \<or>
            request_status r \<noteq> Some LabVoiceAttemptStatus.Completed \<or> r \<notin> audio \<or> (r, s) \<in> sync_unique st
         then Err InvalidMediaEvidence
         else if is_some_and (\<lambda>ref. ref \<noteq> reference x) (reference_by_request st r) then Err InvalidMediaEvidence
         else if r \<in> playback \<and> reference x \<noteq> WebRtcEstimatedPlayoutTimestamp then Err InvalidMediaEvidence
         else av_sync_loop request_status audio playback xs
                \<lparr>sync_unique = insert (r, s) (sync_unique st),
                 reference_by_request = (reference_by_request st)(r \<mapsto> reference x),
                 sequences_by_request = entry_insert r s (sequences_by_request st),
                 sync_offsets = (if r \<in> playback then sync_offsets st @ [absolute_offset_millis x] else sync_offsets st)\<rparr>)"

definition validate_and_collect_av_sync :: "LabSessionEvidenceSnapshot \<Rightarrow> status_map \<Rightarrow> u64 set \<Rightarrow> u64 list
    \<Rightarrow> LabSessionAggregateError + (u64 set \<times> u64 list)" where
  "validate_and_collect_av_sync snap request_status playback offsets =
     (case av_sync_loop request_status (requests_of AudioStarted snap) playback (av_sync_samples snap)
             \<lparr>sync_unique = {}, reference_by_request = (\<lambda>_. None), sequences_by_request = [], sync_offsets = offsets\<rparr> of
        Err e \<Rightarrow> Err e
      | Ok st \<Rightarrow>
          Ok (set (map fst (filter (\<lambda>(r, seqs). r \<in> playback \<and> card seqs = unat RT0_AV_SYNC_SAMPLES_PER_REQUEST)
                (sequences_by_request st))), sync_offsets st))"

fun diagnostic_loop :: "status_map \<Rightarrow> u64 set \<Rightarrow> u64 set \<Rightarrow> u64 set \<Rightarrow> LabAvSyncDiagnostic list
    \<Rightarrow> LabSessionAggregateError + unit" where
  "diagnostic_loop request_status audio proven unique [] = Ok ()"
| "diagnostic_loop request_status audio proven unique (x # xs) =
     (let r = diag_request_sequence x
      in if r = 0 \<or> attempts x = 0 \<or> audio_issue x = None \<and> video_issue x = None \<or>
            request_status r \<noteq> Some LabVoiceAttemptStatus.Completed \<or> r \<notin> audio \<or> r \<in> proven \<or> r \<in> unique
         then Err InvalidMediaEvidence
         else diagnostic_loop request_status audio proven (insert r unique) xs)"

definition validate_av_sync_diagnostics :: "LabSessionEvidenceSnapshot \<Rightarrow> status_map \<Rightarrow> u64 set \<Rightarrow> u64 set
    \<Rightarrow> LabSessionAggregateError + unit" where
  "validate_av_sync_diagnostics snap request_status audio proven =
     diagnostic_loop request_status audio proven {} (av_sync_diagnostics snap)"

section \<open>Aggregation\<close>

definition validate_snapshot_header :: "LabSessionEvidenceSnapshot \<Rightarrow> LabSessionAggregateError + unit" where
  "validate_snapshot_header snap =
     (if snap_schema_version snap \<noteq> RT0_OWNER_LAB_SESSION_EVIDENCE_SCHEMA \<or>
         \<not> is_ok (validate_candidate_sha (snap_candidate_sha snap)) \<or>
         utf8_len (snap_provider_state_sha256 snap) \<noteq> 64 \<or>
         \<not> list_all is_lower_hex (utf8_bytes (snap_provider_state_sha256 snap)) \<or>
         snap_scope snap \<noteq> RT0_OWNER_LAB_MEDIA_EVIDENCE_SCOPE \<or>
         session_sequence snap = 0 \<or> snap_duration_millis snap = 0
      then Err InvalidSnapshot else Ok ())"

definition consume_snapshot :: "LabSessionEvidenceSnapshot \<Rightarrow> accumulate" where
  "consume_snapshot snap a0 =
     (case checked_add (acc_duration_millis a0) (snap_duration_millis snap) of
        None \<Rightarrow> Err Overflow
      | Some d \<Rightarrow>
     (case text_loop {} (text_attempts snap) (a0\<lparr>acc_duration_millis := d\<rparr>) of
        Err e \<Rightarrow> Err e
      | Ok a1 \<Rightarrow>
     (case voice_loop (\<lambda>_. None) (voice_attempts snap) a1 of
        Err e \<Rightarrow> Err e
      | Ok (request_status, a2) \<Rightarrow>
     (case validate_and_collect_media snap request_status a2 of
        Err e \<Rightarrow> Err e
      | Ok a3 \<Rightarrow>
     (case validate_playback_accounting snap (completed_requests snap) of
        Err e \<Rightarrow> Err e
      | Ok playback \<Rightarrow>
     (if snap_playback_proven snap \<noteq> derived_playback playback then Err InvalidSnapshot
      else case (if derived_playback playback then checked_add (acc_playback_sessions a3) 1
                 else Some (acc_playback_sessions a3)) of
        None \<Rightarrow> Err Overflow
      | Some n \<Rightarrow>
     (case validate_and_collect_av_sync snap request_status (playback_requests playback) (acc_av_sync a3) of
        Err e \<Rightarrow> Err e
      | Ok (av_sync_requests, offsets) \<Rightarrow>
     (case validate_av_sync_diagnostics snap request_status (audio_requests playback) av_sync_requests of
        Err e \<Rightarrow> Err e
      | Ok _ \<Rightarrow>
          (let derived_av_sync = (derived_playback playback \<and> av_sync_requests = playback_requests playback)
           in if snap_av_sync_proven snap \<noteq> derived_av_sync then Err InvalidSnapshot
              else case (if derived_av_sync then checked_add (acc_av_sync_sessions a3) 1
                         else Some (acc_av_sync_sessions a3)) of
                None \<Rightarrow> Err Overflow
              | Some m \<Rightarrow> Ok (a3\<lparr>acc_playback_sessions := n, acc_av_sync := offsets, acc_av_sync_sessions := m\<rparr>))))))))))"

record LabSessionEvidenceAggregate =
  agg_schema_version :: rust_string
  agg_source_schema_version :: rust_string
  agg_sessions :: u32
  agg_duration_millis :: u64
  agg_completed_text_attempts :: u32
  agg_failed_text_attempts :: u32
  agg_completed_voice_attempts :: u32
  agg_failed_voice_attempts :: u32
  agg_playback_proven :: bool
  agg_av_sync_proven :: bool
  agg_text_first_meaningful_response :: "LatencyDistributionMillis option"
  agg_av_sync_absolute_offset :: "LatencyDistributionMillis option"
  agg_stt_latency :: "LatencyDistributionMillis option"
  agg_llm_latency :: "LatencyDistributionMillis option"
  agg_llm_first_meaningful_response :: "LatencyDistributionMillis option"
  agg_voice_first_text_response :: "LatencyDistributionMillis option"
  agg_avatar_submit_latency :: "LatencyDistributionMillis option"
  agg_server_total_latency :: "LatencyDistributionMillis option"
  agg_first_meaningful_audio :: "LatencyDistributionMillis option"
  agg_interruption_stop :: "LatencyDistributionMillis option"
  agg_first_useful_video :: "LatencyDistributionMillis option"
  agg_backend_start_ready :: "LatencyDistributionMillis option"
  agg_transport_connect_started :: "LatencyDistributionMillis option"
  agg_transport_connected :: "LatencyDistributionMillis option"
  agg_remote_video_track_received :: "LatencyDistributionMillis option"
  agg_remote_video_attached :: "LatencyDistributionMillis option"
  agg_end_to_end_first_useful_video :: "LatencyDistributionMillis option"
  agg_recoverable_reconnect :: "LatencyDistributionMillis option"
  agg_estimated_cost :: "u64 option"
  agg_provider_charge :: "u64 option"

text \<open>The distributions are computed in the order of the fields; the first that fails gives the error.\<close>

fun try_map :: "('a \<Rightarrow> 'e + 'b) \<Rightarrow> 'a list \<Rightarrow> 'e + 'b list" where
  "try_map f [] = Ok []"
| "try_map f (x # xs) =
     (case f x of Err e \<Rightarrow> Err e | Ok y \<Rightarrow> (case try_map f xs of Err e \<Rightarrow> Err e | Ok ys \<Rightarrow> Ok (y # ys)))"

definition acc_lists :: "SessionAggregateAccumulator \<Rightarrow> u64 list list" where
  "acc_lists a =
     [acc_text_first_meaningful a, acc_av_sync a, acc_stt a, acc_llm a, acc_llm_first_meaningful a,
      acc_voice_first_text a, acc_avatar a, acc_server_total a, acc_audio a, acc_interruption a, acc_video a,
      acc_backend_start a, acc_transport_connect_started a, acc_transport_connected a,
      acc_remote_video_track_received a, acc_remote_video_attached a, acc_end_to_end_video a, acc_reconnect a]"

definition accumulator_finish ::
  "u32 \<Rightarrow> SessionAggregateAccumulator \<Rightarrow> LabSessionAggregateError + LabSessionEvidenceAggregate" where
  "accumulator_finish session_count a =
     (case try_map distribution (acc_lists a) of
        Err e \<Rightarrow> Err e
      | Ok d \<Rightarrow>
          Ok \<lparr>agg_schema_version = RT0_OWNER_LAB_SESSION_AGGREGATE_SCHEMA,
              agg_source_schema_version = RT0_OWNER_LAB_SESSION_EVIDENCE_SCHEMA,
              agg_sessions = session_count, agg_duration_millis = acc_duration_millis a,
              agg_completed_text_attempts = acc_completed_text a, agg_failed_text_attempts = acc_failed_text a,
              agg_completed_voice_attempts = acc_completed_voice a, agg_failed_voice_attempts = acc_failed_voice a,
              agg_playback_proven = (acc_completed_voice a > 0 \<and> acc_playback_sessions a = session_count),
              agg_av_sync_proven = (acc_completed_voice a > 0 \<and> acc_av_sync_sessions a = session_count),
              agg_text_first_meaningful_response = d ! 0, agg_av_sync_absolute_offset = d ! 1,
              agg_stt_latency = d ! 2, agg_llm_latency = d ! 3, agg_llm_first_meaningful_response = d ! 4,
              agg_voice_first_text_response = d ! 5, agg_avatar_submit_latency = d ! 6,
              agg_server_total_latency = d ! 7, agg_first_meaningful_audio = d ! 8, agg_interruption_stop = d ! 9,
              agg_first_useful_video = d ! 10, agg_backend_start_ready = d ! 11,
              agg_transport_connect_started = d ! 12, agg_transport_connected = d ! 13,
              agg_remote_video_track_received = d ! 14, agg_remote_video_attached = d ! 15,
              agg_end_to_end_first_useful_video = d ! 16, agg_recoverable_reconnect = d ! 17,
              agg_estimated_cost = acc_estimated_cost a, agg_provider_charge = acc_provider_charge a\<rparr>)"

fun aggregate_loop :: "sha256 \<Rightarrow> (LabSessionEvidenceSnapshot \<Rightarrow> byte list option) \<Rightarrow> u64 set \<Rightarrow> rust_string set
    \<Rightarrow> LabSessionEvidenceSnapshot list \<Rightarrow> accumulate" where
  "aggregate_loop sha encode sequences digests [] a = Ok a"
| "aggregate_loop sha encode sequences digests (x # xs) a =
     (case validate_snapshot_header x of
        Err e \<Rightarrow> Err e
      | Ok _ \<Rightarrow>
          if session_sequence x \<in> sequences then Err DuplicateSnapshot
          else (case encode x of
                  None \<Rightarrow> Err InvalidSnapshot
                | Some encoded \<Rightarrow>
                    if sha256_hex sha encoded \<in> digests then Err DuplicateSnapshot
                    else (case consume_snapshot x a of
                            Err e \<Rightarrow> Err e
                          | Ok a' \<Rightarrow> aggregate_loop sha encode (insert (session_sequence x) sequences)
                                       (insert (sha256_hex sha encoded) digests) xs a')))"

definition aggregate_owner_lab_session_evidence :: "sha256 \<Rightarrow> (LabSessionEvidenceSnapshot \<Rightarrow> byte list option)
    \<Rightarrow> LabSessionEvidenceSnapshot list \<Rightarrow> LabSessionAggregateError + LabSessionEvidenceAggregate" where
  "aggregate_owner_lab_session_evidence sha encode snapshots =
     (if snapshots = [] then Err EmptyInput
      else if length snapshots \<ge> 2 ^ 32 then Err Overflow
      else case aggregate_loop sha encode {} {} snapshots accumulator_default of
             Err e \<Rightarrow> Err e
           | Ok a \<Rightarrow> accumulator_finish (of_nat (length snapshots)) a)"

end
