(* ===== verification/VPR_Session_Aggregate.thy ===== *)
theory VPR_Session_Aggregate
  imports VPR_Session_Evidence "HOL-Library.Multiset"
begin

text \<open>
  What the aggregation of session evidence computes (\<^verbatim>\<open>crates/vpr-evaluation/src/session_evidence.rs\<close>,
  \<^verbatim>\<open>session_statistics.rs\<close>): the percentiles are nearest-rank percentiles of exactly the measured values, the counters
  and costs are exact sums, and the order of the snapshots does not matter.
\<close>

section \<open>Percentiles\<close>

lemma div_ceil_bounds:
  fixes a b :: nat
  assumes "0 < b"
  shows "a \<le> b * div_ceil a b" and "0 < a \<Longrightarrow> b * (div_ceil a b - 1) < a"
proof -
  have e: "b * (a div b) + a mod b = a" by simp
  have m: "a mod b < b" using assms by simp
  show "a \<le> b * div_ceil a b"
  proof (cases "a mod b = 0")
    case True
    then show ?thesis using e by (simp add: div_ceil_def)
  next
    case False
    have "a \<le> b * (a div b) + b" using e m by linarith
    then show ?thesis using False by (simp add: div_ceil_def)
  qed
  show "b * (div_ceil a b - 1) < a" if "0 < a"
  proof (cases "a mod b = 0")
    case True
    then have "0 < a div b" using e that by (cases "a div b") auto
    then have "b * (a div b - 1) < b * (a div b)" using assms by simp
    also have "\<dots> = a" using True e by simp
    finally show ?thesis using True by (simp add: div_ceil_def)
  next
    case False
    then have "b * (a div b) < a" using e by linarith
    then show ?thesis using False by (simp add: div_ceil_def)
  qed
qed

lemma sorted_count_le:
  fixes s :: "'a::linorder list"
  assumes "sorted s" and "i < length s"
  shows "i < length (filter (\<lambda>x. x \<le> s ! i) s)" and "length (filter (\<lambda>x. x < s ! i) s) \<le> i"
proof -
  have "\<forall>x \<in> set (take (Suc i) s). x \<le> s ! i"
    using sorted_nth_mono [OF assms(1)] assms(2) by (auto simp: in_set_conv_nth less_Suc_eq_le)
  then have "filter (\<lambda>x. x \<le> s ! i) (take (Suc i) s) = take (Suc i) s" by (simp add: filter_id_conv)
  moreover have split: "length (filter P s) = length (filter P (take n s)) + length (filter P (drop n s))" for P n
    by (metis append_take_drop_id filter_append length_append)
  ultimately show "i < length (filter (\<lambda>x. x \<le> s ! i) s)"
    using split [of "\<lambda>x. x \<le> s ! i" "Suc i"] assms(2) by (simp add: min_absorb2)
  have "\<forall>x \<in> set (drop i s). \<not> x < s ! i"
    using sorted_nth_mono [OF assms(1)] assms(2) by (auto simp: in_set_conv_nth not_less)
  then have "filter (\<lambda>x. x < s ! i) (drop i s) = []" by (simp add: filter_empty_conv)
  then show "length (filter (\<lambda>x. x < s ! i) s) \<le> i"
    using split [of "\<lambda>x. x < s ! i" i] length_filter_le [of "\<lambda>x. x < s ! i" "take i s"]
    by simp
qed

text \<open>The smallest value that at least the given percentage of the samples does not exceed.\<close>

definition is_percentile :: "nat \<Rightarrow> u64 list \<Rightarrow> u64 \<Rightarrow> bool" where
  "is_percentile q xs v \<longleftrightarrow>
     v \<in> set xs \<and> q * length xs \<le> 100 * length (filter (\<lambda>x. x \<le> v) xs) \<and>
     100 * length (filter (\<lambda>x. x < v) xs) < q * length xs"

lemma nearest_rank_percentile:
  assumes "xs \<noteq> []" and "length xs < 2 ^ 32" and "0 < q" and "q \<le> 100"
  shows "is_percentile q xs (nearest_rank (sort xs) q)"
proof -
  let ?n = "length xs"
  let ?k = "div_ceil (?n * q) 100"
  have "?n * q \<le> 2 ^ 32 * 100" using assms(2,4) by (intro mult_mono) auto
  then have sat: "usize_saturating_mul ?n q = ?n * q" by (simp add: usize_saturating_mul_def)
  have pos: "0 < ?n * q" using assms(1,3) by simp
  note b = div_ceil_bounds [of 100 "?n * q"]
  have k1: "1 \<le> ?k" using b(1) pos by (cases ?k) auto
  have "100 * (?k - 1) < ?n * 100" using b(2) pos assms(4) by (meson le_trans less_le_trans mult_le_mono2 zero_less_numeral)
  then have kn: "?k - 1 < ?n" by simp
  let ?v = "sort xs ! (?k - 1)"
  have nr: "nearest_rank (sort xs) q = ?v" using k1 by (simp add: nearest_rank_def sat Let_def)
  have flt: "length (filter P (sort xs)) = length (filter P xs)" for P by (simp add: filter_sort)
  have le: "?k \<le> length (filter (\<lambda>x. x \<le> ?v) xs)" and lt: "length (filter (\<lambda>x. x < ?v) xs) \<le> ?k - 1"
    using sorted_count_le [of "sort xs" "?k - 1"] kn k1 flt by simp_all
  have "q * ?n \<le> 100 * length (filter (\<lambda>x. x \<le> ?v) xs)" using b(1) le by (simp add: mult.commute)
  moreover have "100 * length (filter (\<lambda>x. x < ?v) xs) < q * ?n" using b(2) lt pos by (simp add: mult.commute)
  moreover have "?v \<in> set xs" using kn by (metis length_sort nth_mem set_sort)
  ultimately show ?thesis by (simp add: is_percentile_def nr)
qed

lemma percentile_mono:
  assumes "is_percentile q xs v" and "is_percentile q' xs v'" and "q \<le> q'"
  shows "v \<le> v'"
proof (rule ccontr)
  assume "\<not> v \<le> v'"
  then have "length (filter (\<lambda>x. x \<le> v') xs) \<le> length (filter (\<lambda>x. x < v) xs)"
    by (induction xs) auto
  moreover have "q * length xs \<le> q' * length xs" using assms(3) by simp
  ultimately show False using assms(1,2) unfolding is_percentile_def by linarith
qed

lemma distribution_Some:
  assumes "distribution xs = Ok (Some d)"
  shows "xs \<noteq> []" and "unat (samples d) = length xs" and "is_percentile 50 xs (p50 d)" and "is_percentile 95 xs (p95 d)"
    and "p50 d \<le> p95 d"
proof -
  have xs: "xs \<noteq> []" "length xs < 2 ^ 32"
    and d: "d = \<lparr>samples = of_nat (length xs), p50 = nearest_rank (sort xs) 50, p95 = nearest_rank (sort xs) 95\<rparr>"
    using assms by (auto simp: distribution_def Let_def split: if_splits)
  show "xs \<noteq> []" by (rule xs(1))
  show "unat (samples d) = length xs" using xs(2) by (simp add: d unat_of_nat)
  show p: "is_percentile 50 xs (p50 d)" "is_percentile 95 xs (p95 d)"
    using nearest_rank_percentile [OF xs] by (simp_all add: d)
  show "p50 d \<le> p95 d" by (rule percentile_mono [OF p]) simp
qed

lemma distribution_perm: "mset xs = mset ys \<Longrightarrow> distribution xs = distribution ys"
proof -
  assume m: "mset xs = mset ys"
  then have "sort xs = sort ys" by (metis properties_for_sort sorted_sort mset_sort)
  then show ?thesis using m by (auto simp: distribution_def)
qed

section \<open>What one snapshot contributes\<close>

definition measured :: "('a \<Rightarrow> u64 option) \<Rightarrow> 'a list \<Rightarrow> u64 list" where
  "measured f xs = List.map_filter f xs"

lemma measured_simps [simp]:
  "measured f [] = []" "measured f (x # xs) = (case f x of None \<Rightarrow> [] | Some v \<Rightarrow> [v]) @ measured f xs"
  "measured f (xs @ ys) = measured f xs @ measured f ys"
  by (simp_all add: measured_def List.map_filter_def split: option.split)

definition sync_offsets_of :: "LabSessionEvidenceSnapshot \<Rightarrow> u64 list" where
  "sync_offsets_of snap =
     map absolute_offset_millis
       (filter (\<lambda>x. sync_request_sequence x \<in> confirmed_requests snap) (av_sync_samples snap))"

abbreviation elapsed :: "LabMediaEvidenceKind \<Rightarrow> LabMediaEvidence list \<Rightarrow> u64 list" where
  "elapsed k es \<equiv> map elapsed_millis (filter (\<lambda>e. media_kind e = k) es)"

lemma collect_media_fold:
  "fold collect_media es a =
     a\<lparr>acc_audio := acc_audio a @ elapsed AudioStarted es,
       acc_interruption := acc_interruption a @ elapsed InterruptionStopped es,
       acc_video := acc_video a @ elapsed VideoReady es,
       acc_backend_start := acc_backend_start a @ elapsed BackendStartReady es,
       acc_transport_connect_started := acc_transport_connect_started a @ elapsed TransportConnectStarted es,
       acc_transport_connected := acc_transport_connected a @ elapsed TransportConnected es,
       acc_remote_video_track_received := acc_remote_video_track_received a @ elapsed RemoteVideoTrackReceived es,
       acc_remote_video_attached := acc_remote_video_attached a @ elapsed RemoteVideoAttached es,
       acc_end_to_end_video := acc_end_to_end_video a @ elapsed EndToEndVideoReady es,
       acc_reconnect := acc_reconnect a @ elapsed ReconnectRestored es\<rparr>"
proof (induction es arbitrary: a)
  case (Cons e es)
  then show ?case by (cases "media_kind e") (simp_all add: collect_media_def Let_def)
qed simp

lemma media_loop_Ok: "media_loop st audio unique es a = Ok a' \<Longrightarrow> a' = fold collect_media es a"
  by (induction st audio unique es a rule: media_loop.induct) (auto split: if_splits)

text \<open>Counters: the number of attempts in a state, as long as the 32-bit counter did not overflow.\<close>

definition counts :: "u32 \<Rightarrow> nat \<Rightarrow> u32 \<Rightarrow> bool" where
  "counts old n new \<longleftrightarrow> unat new = unat old + n"

lemma counts_refl [simp]: "counts c 0 c"
  by (simp add: counts_def)

lemma counts_step: "checked_add c 1 = Some c' \<Longrightarrow> counts c' n c'' \<Longrightarrow> counts c (Suc n) c''"
  by (auto simp: counts_def dest: checked_add_SomeD(2))

lemma counts_succ: "checked_add c 1 = Some c' \<Longrightarrow> counts c (Suc 0) c'"
  using counts_step [of c c' 0 c'] by simp

text \<open>Costs: unknown as soon as one usage has no cost, otherwise the exact sum.\<close>

definition cost_is :: "u64 option list \<Rightarrow> u64 option \<Rightarrow> bool" where
  "cost_is vs t \<longleftrightarrow>
     (if vs = [] \<or> None \<in> set vs then t = None
      else \<exists>s. t = Some s \<and> unat s = sum_list (map (unat \<circ> the) vs))"

definition cost_inv :: "SessionUsageEvidence list \<Rightarrow> SessionAggregateAccumulator \<Rightarrow> bool" where
  "cost_inv us a \<longleftrightarrow>
     (acc_cost_initialized a \<longleftrightarrow> us \<noteq> []) \<and> cost_is (map usage_estimated_cost us) (acc_estimated_cost a) \<and>
     cost_is (map usage_provider_charge us) (acc_provider_charge a)"

lemma add_cost_is:
  assumes "vs \<noteq> [] \<and> cost_is vs t \<or> vs = [] \<and> t = Some 0" and "add_cost t v = Ok t'"
  shows "cost_is (vs @ [v]) t'"
proof (cases "t = None \<or> v = None")
  case True
  then show ?thesis using assms by (auto simp: cost_is_def add_cost_def split: option.splits if_splits)
next
  case False
  then obtain c w where cw: "t = Some c" "v = Some w" by auto
  then obtain s where tv: "t = Some c" "v = Some w" "checked_add c w = Some s" "t' = Some s"
    using assms(2) by (cases "checked_add c w") (auto simp: add_cost_def)
  then show ?thesis
    using assms(1) checked_add_SomeD(2) [OF tv(3)] by (auto simp: cost_is_def split: if_splits)
qed

lemma init_cost_is:
  assumes "cost_inv us a"
  shows "us \<noteq> [] \<and> cost_is (map usage_estimated_cost us) (acc_estimated_cost (init_cost a)) \<or>
           us = [] \<and> acc_estimated_cost (init_cost a) = Some 0"
    and "us \<noteq> [] \<and> cost_is (map usage_provider_charge us) (acc_provider_charge (init_cost a)) \<or>
           us = [] \<and> acc_provider_charge (init_cost a) = Some 0"
    and "acc_cost_initialized (init_cost a)"
  using assms by (auto simp: cost_inv_def init_cost_def)

lemma add_single_usage_cost_inv:
  assumes "cost_inv us a" and "add_single_usage_cost u a = Ok a'"
  shows "cost_inv (us @ [u]) a'"
proof -
  obtain est charge where "add_cost (acc_estimated_cost (init_cost a)) (usage_estimated_cost u) = Ok est"
    "add_cost (acc_provider_charge (init_cost a)) (usage_provider_charge u) = Ok charge"
    "a' = (init_cost a)\<lparr>acc_estimated_cost := est, acc_provider_charge := charge\<rparr>"
    using assms(2) by (auto simp: add_single_usage_cost_def Let_def split: sum.splits)
  then show ?thesis
    using init_cost_is [OF assms(1)] add_cost_is [of "map usage_estimated_cost us"]
      add_cost_is [of "map usage_provider_charge us"]
    by (simp add: cost_inv_def)
qed

lemma add_usage_costs_inv:
  assumes "cost_inv us a" and "add_usage_costs s l a = Ok a'"
  shows "cost_inv (us @ [s, l]) a'"
proof -
  obtain e1 e2 c1 c2 where add: "add_cost (acc_estimated_cost (init_cost a)) (usage_estimated_cost s) = Ok e1"
    "add_cost e1 (usage_estimated_cost l) = Ok e2"
    "add_cost (acc_provider_charge (init_cost a)) (usage_provider_charge s) = Ok c1"
    "add_cost c1 (usage_provider_charge l) = Ok c2"
    "a' = (init_cost a)\<lparr>acc_estimated_cost := e2, acc_provider_charge := c2\<rparr>"
    using assms(2) by (auto simp: add_usage_costs_def Let_def split: sum.splits)
  note init = init_cost_is [OF assms(1)]
  have "cost_is (map usage_estimated_cost us @ [usage_estimated_cost s]) e1"
    by (rule add_cost_is [OF _ add(1)]) (use init(1) in simp)
  then have e: "cost_is ((map usage_estimated_cost us @ [usage_estimated_cost s]) @ [usage_estimated_cost l]) e2"
    by (intro add_cost_is [OF _ add(2)]) simp
  have "cost_is (map usage_provider_charge us @ [usage_provider_charge s]) c1"
    by (rule add_cost_is [OF _ add(3)]) (use init(2) in simp)
  then have c: "cost_is ((map usage_provider_charge us @ [usage_provider_charge s]) @ [usage_provider_charge l]) c2"
    by (intro add_cost_is [OF _ add(4)]) simp
  show ?thesis using e c init(3) by (simp add: cost_inv_def add(5))
qed

text \<open>The fields the cost functions change.\<close>

lemma cost_frame:
  "add_single_usage_cost u a = Ok a' \<Longrightarrow>
     \<exists>e c i. a' = a\<lparr>acc_estimated_cost := e, acc_provider_charge := c, acc_cost_initialized := i\<rparr>"
  "add_usage_costs s l a = Ok a' \<Longrightarrow>
     \<exists>e c i. a' = a\<lparr>acc_estimated_cost := e, acc_provider_charge := c, acc_cost_initialized := i\<rparr>"
proof -
  have i: "\<exists>i. (init_cost a)\<lparr>acc_estimated_cost := e, acc_provider_charge := c\<rparr> =
      a\<lparr>acc_estimated_cost := e, acc_provider_charge := c, acc_cost_initialized := i\<rparr>" for e c
    by (cases "acc_cost_initialized a") (auto simp: init_cost_def intro: exI [of _ True])
  show "add_single_usage_cost u a = Ok a' \<Longrightarrow>
     \<exists>e c i. a' = a\<lparr>acc_estimated_cost := e, acc_provider_charge := c, acc_cost_initialized := i\<rparr>"
    using i by (auto simp: add_single_usage_cost_def Let_def split: sum.splits) metis
  show "add_usage_costs s l a = Ok a' \<Longrightarrow>
     \<exists>e c i. a' = a\<lparr>acc_estimated_cost := e, acc_provider_charge := c, acc_cost_initialized := i\<rparr>"
    using i by (auto simp: add_usage_costs_def Let_def split: sum.splits) metis
qed

text \<open>The usages of the completed attempts, in the order their costs are added.\<close>

definition text_usages :: "LabTextAttemptEvidence list \<Rightarrow> SessionUsageEvidence list" where
  "text_usages xs =
     List.map_filter text_llm_usage (filter (\<lambda>x. text_status x = LabTextAttemptStatus.Completed) xs)"

definition voice_usages :: "LabVoiceAttemptEvidence list \<Rightarrow> SessionUsageEvidence list" where
  "voice_usages xs =
     concat (map (\<lambda>x. List.map_filter id [stt_usage x, voice_llm_usage x])
       (filter (\<lambda>x. voice_status x = LabVoiceAttemptStatus.Completed) xs))"

lemma usages_simps:
  "text_usages [] = []" "voice_usages [] = []"
  "text_usages (x # xs) =
     (if text_status x = LabTextAttemptStatus.Completed then (case text_llm_usage x of None \<Rightarrow> [] | Some u \<Rightarrow> [u]) else []) @
     text_usages xs"
  "voice_usages (y # ys) =
     (if voice_status y = LabVoiceAttemptStatus.Completed
      then (case stt_usage y of None \<Rightarrow> [] | Some u \<Rightarrow> [u]) @ (case voice_llm_usage y of None \<Rightarrow> [] | Some u \<Rightarrow> [u]) else []) @
     voice_usages ys"
  by (simp_all add: text_usages_def voice_usages_def List.map_filter_def split: option.split)

definition with_status :: "LabTextAttemptStatus \<Rightarrow> LabTextAttemptEvidence list \<Rightarrow> LabTextAttemptEvidence list" where
  "with_status st xs = filter (\<lambda>x. text_status x = st) xs"

text \<open>What a list of attempts does to the accumulator.\<close>

definition text_effect :: "LabTextAttemptEvidence list \<Rightarrow> SessionAggregateAccumulator
    \<Rightarrow> SessionAggregateAccumulator \<Rightarrow> bool" where
  "text_effect xs a a' \<longleftrightarrow>
     (\<exists>c f e p i. a' = a\<lparr>acc_completed_text := c, acc_failed_text := f,
        acc_text_first_meaningful := acc_text_first_meaningful a @
          measured text_first_meaningful_millis (with_status LabTextAttemptStatus.Completed xs),
        acc_estimated_cost := e, acc_provider_charge := p, acc_cost_initialized := i\<rparr> \<and>
      counts (acc_completed_text a) (length (with_status LabTextAttemptStatus.Completed xs)) c \<and>
      counts (acc_failed_text a) (length (with_status LabTextAttemptStatus.Failed xs)) f)"

lemma text_effect_Nil: "text_effect [] a a"
  unfolding text_effect_def
  by (intro exI [of _ "acc_completed_text a"] exI [of _ "acc_failed_text a"] exI [of _ "acc_estimated_cost a"]
      exI [of _ "acc_provider_charge a"] exI [of _ "acc_cost_initialized a"]) (simp add: with_status_def)

lemma counts_add: "counts c n c' \<Longrightarrow> counts c' m c'' \<Longrightarrow> counts c (n + m) c''"
  by (simp add: counts_def)

lemma text_effect_Cons:
  assumes "text_effect [x] a a'" and "text_effect xs a' a''"
  shows "text_effect (x # xs) a a''"
proof -
  have app: "with_status st (x # xs) = with_status st [x] @ with_status st xs" for st by (simp add: with_status_def)
  obtain c f e p i where 1: "a' = a\<lparr>acc_completed_text := c, acc_failed_text := f,
        acc_text_first_meaningful := acc_text_first_meaningful a @
          measured text_first_meaningful_millis (with_status LabTextAttemptStatus.Completed [x]),
        acc_estimated_cost := e, acc_provider_charge := p, acc_cost_initialized := i\<rparr>"
      "counts (acc_completed_text a) (length (with_status LabTextAttemptStatus.Completed [x])) c"
      "counts (acc_failed_text a) (length (with_status LabTextAttemptStatus.Failed [x])) f"
    using assms(1) unfolding text_effect_def by blast
  obtain c' f' e' p' i' where 2: "a'' = a'\<lparr>acc_completed_text := c', acc_failed_text := f',
        acc_text_first_meaningful := acc_text_first_meaningful a' @
          measured text_first_meaningful_millis (with_status LabTextAttemptStatus.Completed xs),
        acc_estimated_cost := e', acc_provider_charge := p', acc_cost_initialized := i'\<rparr>"
      "counts (acc_completed_text a') (length (with_status LabTextAttemptStatus.Completed xs)) c'"
      "counts (acc_failed_text a') (length (with_status LabTextAttemptStatus.Failed xs)) f'"
    using assms(2) unfolding text_effect_def by blast
  show ?thesis
    unfolding text_effect_def app
    using 1 2 counts_add [OF 1(2), of _ c'] counts_add [OF 1(3), of _ f']
    by (intro exI [of _ c'] exI [of _ f'] exI [of _ e'] exI [of _ p'] exI [of _ i']) simp
qed

lemma consume_text_Ok:
  assumes "consume_text_attempt x a = Ok a'"
  shows "text_effect [x] a a'"
    and "cost_inv us a \<Longrightarrow> cost_inv (us @ text_usages [x]) a'"
proof -
  show "text_effect [x] a a'"
  proof (cases "text_status x")
    case Completed
    then obtain n first u where n: "checked_add (acc_completed_text a) 1 = Some n"
      "text_first_meaningful_millis x = Some first"
      and add: "add_single_usage_cost u (a\<lparr>acc_completed_text := n,
        acc_text_first_meaningful := acc_text_first_meaningful a @ [first]\<rparr>) = Ok a'"
      using assms by (auto simp: consume_text_attempt_def split: option.splits if_splits)
    obtain e p i where "a' = (a\<lparr>acc_completed_text := n,
        acc_text_first_meaningful := acc_text_first_meaningful a @ [first]\<rparr>)
        \<lparr>acc_estimated_cost := e, acc_provider_charge := p, acc_cost_initialized := i\<rparr>"
      using cost_frame(1) [OF add] by blast
    then show ?thesis
      unfolding text_effect_def using n Completed counts_succ [OF n(1)]
      by (intro exI [of _ n] exI [of _ "acc_failed_text a"] exI [of _ e] exI [of _ p] exI [of _ i])
        (simp add: with_status_def)
  next
    case Failed
    then obtain n where n: "checked_add (acc_failed_text a) 1 = Some n" "a' = a\<lparr>acc_failed_text := n\<rparr>"
      using assms by (auto simp: consume_text_attempt_def split: option.splits if_splits)
    then show ?thesis
      unfolding text_effect_def using Failed counts_succ [OF n(1)]
      by (intro exI [of _ "acc_completed_text a"] exI [of _ n] exI [of _ "acc_estimated_cost a"]
          exI [of _ "acc_provider_charge a"] exI [of _ "acc_cost_initialized a"]) (simp add: with_status_def)
  qed (use assms in \<open>simp add: consume_text_attempt_def\<close>)
  show "cost_inv (us @ text_usages [x]) a'" if "cost_inv us a"
    using assms that
    by (auto simp: consume_text_attempt_def usages_simps cost_inv_def
        split: LabTextAttemptStatus.splits option.splits if_splits
        dest!: add_single_usage_cost_inv [where us = us, rotated])
qed

lemma text_loop_Ok:
  assumes "text_loop seen xs a = Ok a'"
  shows "text_effect xs a a'" and "cost_inv us a \<Longrightarrow> cost_inv (us @ text_usages xs) a'"
proof -
  have "text_effect xs a a' \<and> (\<forall>us. cost_inv us a \<longrightarrow> cost_inv (us @ text_usages xs) a')"
    using assms
  proof (induction seen xs a rule: text_loop.induct)
    case (1 seen a)
    then show ?case by (simp add: text_effect_Nil usages_simps)
  next
    case (2 seen x xs a)
    then obtain a1 where a1: "consume_text_attempt x a = Ok a1"
      "text_loop (insert (text_request_sequence x) seen) xs a1 = Ok a'"
      by (auto split: if_splits sum.splits)
    then have IH: "text_effect xs a1 a' \<and> (\<forall>us. cost_inv us a1 \<longrightarrow> cost_inv (us @ text_usages xs) a')"
      using 2 by (auto split: if_splits)
    have "text_usages (x # xs) = text_usages [x] @ text_usages xs" by (simp add: usages_simps)
    then show ?case
      using IH consume_text_Ok [OF a1(1)] text_effect_Cons by (metis append.assoc)
  qed
  then show "text_effect xs a a'" "cost_inv us a \<Longrightarrow> cost_inv (us @ text_usages xs) a'" by blast+
qed

definition voices_with :: "LabVoiceAttemptStatus \<Rightarrow> LabVoiceAttemptEvidence list \<Rightarrow> LabVoiceAttemptEvidence list" where
  "voices_with st xs = filter (\<lambda>x. voice_status x = st) xs"

definition voice_effect :: "LabVoiceAttemptEvidence list \<Rightarrow> SessionAggregateAccumulator
    \<Rightarrow> SessionAggregateAccumulator \<Rightarrow> bool" where
  "voice_effect xs a a' \<longleftrightarrow>
     (\<exists>c f e p i. a' = a\<lparr>acc_completed_voice := c, acc_failed_voice := f,
        acc_stt := acc_stt a @ measured stt_millis (voices_with LabVoiceAttemptStatus.Completed xs),
        acc_llm := acc_llm a @ measured llm_millis (voices_with LabVoiceAttemptStatus.Completed xs),
        acc_llm_first_meaningful := acc_llm_first_meaningful a @ measured llm_first_meaningful_millis (voices_with LabVoiceAttemptStatus.Completed xs),
        acc_voice_first_text := acc_voice_first_text a @ measured voice_first_text_millis (voices_with LabVoiceAttemptStatus.Completed xs),
        acc_avatar := acc_avatar a @ measured avatar_millis (voices_with LabVoiceAttemptStatus.Completed xs),
        acc_server_total := acc_server_total a @ measured voice_server_total_millis (voices_with LabVoiceAttemptStatus.Completed xs),
        acc_estimated_cost := e, acc_provider_charge := p, acc_cost_initialized := i\<rparr> \<and>
      counts (acc_completed_voice a) (length (voices_with LabVoiceAttemptStatus.Completed xs)) c \<and>
      counts (acc_failed_voice a) (length (voices_with LabVoiceAttemptStatus.Failed xs)) f)"

lemma voice_effect_Nil: "voice_effect [] a a"
  unfolding voice_effect_def
  by (intro exI [of _ "acc_completed_voice a"] exI [of _ "acc_failed_voice a"] exI [of _ "acc_estimated_cost a"]
      exI [of _ "acc_provider_charge a"] exI [of _ "acc_cost_initialized a"]) (simp add: voices_with_def)

lemma voice_effect_Cons:
  assumes "voice_effect [x] a a'" and "voice_effect xs a' a''"
  shows "voice_effect (x # xs) a a''"
proof -
  have app: "voices_with st (x # xs) = voices_with st [x] @ voices_with st xs" for st by (simp add: voices_with_def)
  obtain c f e p i where 1: "a' = a\<lparr>acc_completed_voice := c, acc_failed_voice := f,
        acc_stt := acc_stt a @ measured stt_millis (voices_with LabVoiceAttemptStatus.Completed [x]),
        acc_llm := acc_llm a @ measured llm_millis (voices_with LabVoiceAttemptStatus.Completed [x]),
        acc_llm_first_meaningful := acc_llm_first_meaningful a @ measured llm_first_meaningful_millis (voices_with LabVoiceAttemptStatus.Completed [x]),
        acc_voice_first_text := acc_voice_first_text a @ measured voice_first_text_millis (voices_with LabVoiceAttemptStatus.Completed [x]),
        acc_avatar := acc_avatar a @ measured avatar_millis (voices_with LabVoiceAttemptStatus.Completed [x]),
        acc_server_total := acc_server_total a @ measured voice_server_total_millis (voices_with LabVoiceAttemptStatus.Completed [x]),
        acc_estimated_cost := e, acc_provider_charge := p, acc_cost_initialized := i\<rparr>"
      "counts (acc_completed_voice a) (length (voices_with LabVoiceAttemptStatus.Completed [x])) c"
      "counts (acc_failed_voice a) (length (voices_with LabVoiceAttemptStatus.Failed [x])) f"
    using assms(1) unfolding voice_effect_def by blast
  obtain c' f' e' p' i' where 2: "a'' = a'\<lparr>acc_completed_voice := c', acc_failed_voice := f',
        acc_stt := acc_stt a' @ measured stt_millis (voices_with LabVoiceAttemptStatus.Completed xs),
        acc_llm := acc_llm a' @ measured llm_millis (voices_with LabVoiceAttemptStatus.Completed xs),
        acc_llm_first_meaningful := acc_llm_first_meaningful a' @ measured llm_first_meaningful_millis (voices_with LabVoiceAttemptStatus.Completed xs),
        acc_voice_first_text := acc_voice_first_text a' @ measured voice_first_text_millis (voices_with LabVoiceAttemptStatus.Completed xs),
        acc_avatar := acc_avatar a' @ measured avatar_millis (voices_with LabVoiceAttemptStatus.Completed xs),
        acc_server_total := acc_server_total a' @ measured voice_server_total_millis (voices_with LabVoiceAttemptStatus.Completed xs),
        acc_estimated_cost := e', acc_provider_charge := p', acc_cost_initialized := i'\<rparr>"
      "counts (acc_completed_voice a') (length (voices_with LabVoiceAttemptStatus.Completed xs)) c'"
      "counts (acc_failed_voice a') (length (voices_with LabVoiceAttemptStatus.Failed xs)) f'"
    using assms(2) unfolding voice_effect_def by blast
  show ?thesis
    unfolding voice_effect_def app
    using 1 2 counts_add [OF 1(2), of _ c'] counts_add [OF 1(3), of _ f']
    by (intro exI [of _ c'] exI [of _ f'] exI [of _ e'] exI [of _ p'] exI [of _ i']) simp
qed

lemma consume_completed_Ok:
  assumes "consume_completed_attempt x a = Ok a'" and "voice_status x = LabVoiceAttemptStatus.Completed"
  shows "voice_effect [x] a a'" and "cost_inv us a \<Longrightarrow> cost_inv (us @ voice_usages [x]) a'"
proof -
  obtain n stt_ms llm_ms first_ms avatar_ms total_ms s l where
    vals: "checked_add (acc_completed_voice a) 1 = Some n" "stt_millis x = Some stt_ms" "llm_millis x = Some llm_ms"
      "llm_first_meaningful_millis x = Some first_ms" "avatar_millis x = Some avatar_ms"
      "voice_server_total_millis x = Some total_ms" "stt_usage x = Some s" "voice_llm_usage x = Some l"
    and add: "add_usage_costs s l
      (a\<lparr>acc_completed_voice := n, acc_stt := acc_stt a @ [stt_ms], acc_llm := acc_llm a @ [llm_ms],
         acc_llm_first_meaningful := acc_llm_first_meaningful a @ [first_ms],
         acc_voice_first_text := acc_voice_first_text a @
           (case voice_first_text_millis x of None \<Rightarrow> [] | Some ms \<Rightarrow> [ms]),
         acc_avatar := acc_avatar a @ [avatar_ms], acc_server_total := acc_server_total a @ [total_ms]\<rparr>) = Ok a'"
    using assms(1) by (auto simp: consume_completed_attempt_def split: option.splits if_splits)
  have one: "voices_with LabVoiceAttemptStatus.Completed [x] = [x]" "voices_with LabVoiceAttemptStatus.Failed [x] = []"
    by (simp_all add: voices_with_def assms(2))
  obtain e p i where "a' = (a\<lparr>acc_completed_voice := n, acc_stt := acc_stt a @ [stt_ms], acc_llm := acc_llm a @ [llm_ms],
         acc_llm_first_meaningful := acc_llm_first_meaningful a @ [first_ms],
         acc_voice_first_text := acc_voice_first_text a @
           (case voice_first_text_millis x of None \<Rightarrow> [] | Some ms \<Rightarrow> [ms]),
         acc_avatar := acc_avatar a @ [avatar_ms], acc_server_total := acc_server_total a @ [total_ms]\<rparr>)
         \<lparr>acc_estimated_cost := e, acc_provider_charge := p, acc_cost_initialized := i\<rparr>"
    using cost_frame(2) [OF add] by blast
  then show "voice_effect [x] a a'"
    unfolding voice_effect_def one using vals counts_succ [OF vals(1)]
    by (intro exI [of _ n] exI [of _ "acc_failed_voice a"] exI [of _ e] exI [of _ p] exI [of _ i]) simp
  show "cost_inv (us @ voice_usages [x]) a'" if "cost_inv us a"
  proof -
    have "voice_usages [x] = [s, l]" using vals assms(2) by (simp add: usages_simps)
    moreover have "cost_inv us (a\<lparr>acc_completed_voice := n, acc_stt := acc_stt a @ [stt_ms], acc_llm := acc_llm a @ [llm_ms],
         acc_llm_first_meaningful := acc_llm_first_meaningful a @ [first_ms],
         acc_voice_first_text := acc_voice_first_text a @
           (case voice_first_text_millis x of None \<Rightarrow> [] | Some ms \<Rightarrow> [ms]),
         acc_avatar := acc_avatar a @ [avatar_ms], acc_server_total := acc_server_total a @ [total_ms]\<rparr>)"
      using that by (simp add: cost_inv_def)
    ultimately show ?thesis using add_usage_costs_inv [OF _ add] by simp
  qed
qed

lemma consume_attempt_Ok:
  assumes "consume_attempt x a = Ok a'"
  shows "voice_effect [x] a a'" and "cost_inv us a \<Longrightarrow> cost_inv (us @ voice_usages [x]) a'"
proof -
  have "voice_effect [x] a a' \<and> (\<forall>us. cost_inv us a \<longrightarrow> cost_inv (us @ voice_usages [x]) a')"
  proof (cases "voice_status x")
    case Completed
    then show ?thesis using assms consume_completed_Ok [of x a a'] by (auto simp: consume_attempt_def)
  next
    case Failed
    then obtain n where n: "checked_add (acc_failed_voice a) 1 = Some n" "a' = a\<lparr>acc_failed_voice := n\<rparr>"
      using assms by (auto simp: consume_attempt_def consume_failed_attempt_def split: option.splits if_splits)
    have "voices_with LabVoiceAttemptStatus.Completed [x] = []" "voices_with LabVoiceAttemptStatus.Failed [x] = [x]"
      "voice_usages [x] = []"
      by (simp_all add: voices_with_def usages_simps Failed)
    moreover from this have "voice_effect [x] a a'"
      unfolding voice_effect_def using n counts_succ [OF n(1)]
      by (intro exI [of _ "acc_completed_voice a"] exI [of _ n] exI [of _ "acc_estimated_cost a"]
          exI [of _ "acc_provider_charge a"] exI [of _ "acc_cost_initialized a"]) simp
    ultimately show ?thesis using n by (simp add: cost_inv_def)
  qed (use assms in \<open>simp add: consume_attempt_def\<close>)
  then show "voice_effect [x] a a'" "cost_inv us a \<Longrightarrow> cost_inv (us @ voice_usages [x]) a'" by blast+
qed

lemma voice_loop_Ok:
  assumes "voice_loop st xs a = Ok (st', a')"
  shows "voice_effect xs a a'" and "cost_inv us a \<Longrightarrow> cost_inv (us @ voice_usages xs) a'"
proof -
  have "voice_effect xs a a' \<and> (\<forall>us. cost_inv us a \<longrightarrow> cost_inv (us @ voice_usages xs) a')"
    using assms
  proof (induction xs arbitrary: st a)
    case Nil
    then show ?case by (simp add: voice_effect_Nil usages_simps)
  next
    case (Cons x xs)
    then obtain a1 where a1: "consume_attempt x a = Ok a1"
      "voice_loop (st(voice_request_sequence x \<mapsto> voice_status x)) xs a1 = Ok (st', a')"
      by (auto split: if_splits sum.splits)
    have "voice_usages (x # xs) = voice_usages [x] @ voice_usages xs" by (simp add: usages_simps)
    then show ?case
      using Cons.IH [OF a1(2)] consume_attempt_Ok [OF a1(1)] voice_effect_Cons by (metis append.assoc)
  qed
  then show "voice_effect xs a a'" "cost_inv us a \<Longrightarrow> cost_inv (us @ voice_usages xs) a'" by blast+
qed

lemma av_sync_loop_Ok:
  "av_sync_loop st audio playback xs s = Ok s' \<Longrightarrow>
     sync_offsets s' = sync_offsets s @
       map absolute_offset_millis (filter (\<lambda>x. sync_request_sequence x \<in> playback) xs)"
  by (induction st audio playback xs s rule: av_sync_loop.induct) (auto simp: Let_def split: if_splits)

lemma playback_accounting_Ok:
  assumes "validate_playback_accounting snap completed = Ok pb"
  shows "playback_requests pb = confirmed_requests snap"
  using assms by (auto simp: validate_playback_accounting_def Let_def split: if_splits)

section \<open>What the accumulator holds\<close>

text \<open>For every collected list, the values one snapshot contributes.\<close>

definition contributions :: "(LabSessionEvidenceSnapshot \<Rightarrow> u64 list) list" where
  "contributions =
     [\<lambda>s. measured text_first_meaningful_millis (with_status LabTextAttemptStatus.Completed (text_attempts s)),
      sync_offsets_of,
      \<lambda>s. measured stt_millis (voices_with LabVoiceAttemptStatus.Completed (voice_attempts s)),
      \<lambda>s. measured llm_millis (voices_with LabVoiceAttemptStatus.Completed (voice_attempts s)),
      \<lambda>s. measured llm_first_meaningful_millis (voices_with LabVoiceAttemptStatus.Completed (voice_attempts s)),
      \<lambda>s. measured voice_first_text_millis (voices_with LabVoiceAttemptStatus.Completed (voice_attempts s)),
      \<lambda>s. measured avatar_millis (voices_with LabVoiceAttemptStatus.Completed (voice_attempts s)),
      \<lambda>s. measured voice_server_total_millis (voices_with LabVoiceAttemptStatus.Completed (voice_attempts s)),
      \<lambda>s. elapsed AudioStarted (media_events s), \<lambda>s. elapsed InterruptionStopped (media_events s),
      \<lambda>s. elapsed VideoReady (media_events s), \<lambda>s. elapsed BackendStartReady (media_events s),
      \<lambda>s. elapsed TransportConnectStarted (media_events s), \<lambda>s. elapsed TransportConnected (media_events s),
      \<lambda>s. elapsed RemoteVideoTrackReceived (media_events s), \<lambda>s. elapsed RemoteVideoAttached (media_events s),
      \<lambda>s. elapsed EndToEndVideoReady (media_events s), \<lambda>s. elapsed ReconnectRestored (media_events s)]"

definition usages_of :: "LabSessionEvidenceSnapshot \<Rightarrow> SessionUsageEvidence list" where
  "usages_of s = text_usages (text_attempts s) @ voice_usages (voice_attempts s)"

definition total_of :: "('a \<Rightarrow> nat) \<Rightarrow> 'a list \<Rightarrow> nat" where
  "total_of f xs = sum_list (map f xs)"

lemma total_of_simps [simp]: "total_of f [] = 0" "total_of f (xs @ [x]) = total_of f xs + f x"
  by (simp_all add: total_of_def)

definition collected :: "LabSessionEvidenceSnapshot list \<Rightarrow> SessionAggregateAccumulator \<Rightarrow> bool" where
  "collected snaps a \<longleftrightarrow>
     unat (acc_duration_millis a) = total_of (unat \<circ> snap_duration_millis) snaps \<and>
     unat (acc_completed_text a) =
       total_of (\<lambda>s. length (with_status LabTextAttemptStatus.Completed (text_attempts s))) snaps \<and>
     unat (acc_failed_text a) = total_of (\<lambda>s. length (with_status LabTextAttemptStatus.Failed (text_attempts s))) snaps \<and>
     unat (acc_completed_voice a) =
       total_of (\<lambda>s. length (voices_with LabVoiceAttemptStatus.Completed (voice_attempts s))) snaps \<and>
     unat (acc_failed_voice a) =
       total_of (\<lambda>s. length (voices_with LabVoiceAttemptStatus.Failed (voice_attempts s))) snaps \<and>
     unat (acc_playback_sessions a) = total_of (\<lambda>s. of_bool (snap_playback_proven s)) snaps \<and>
     unat (acc_av_sync_sessions a) = total_of (\<lambda>s. of_bool (snap_av_sync_proven s)) snaps \<and>
     acc_lists a = map (\<lambda>f. concat (map f snaps)) contributions \<and>
     cost_inv (concat (map usages_of snaps)) a"

lemma collected_default: "collected [] accumulator_default"
  by (simp add: collected_def accumulator_default_def acc_lists_def contributions_def cost_inv_def cost_is_def)

text \<open>A flag counted in a 32-bit counter.\<close>

lemma counted_flag:
  "(if b then checked_add (n :: u32) 1 else Some n) = Some n' \<Longrightarrow> unat n' = unat n + of_bool b"
  by (auto dest: checked_add_SomeD(2) split: if_splits)

lemma consume_snapshot_cases:
  assumes "consume_snapshot snap a = Ok a'"
  obtains d a1 st a2 a3 n m where "checked_add (acc_duration_millis a) (snap_duration_millis snap) = Some d"
    and "text_loop {} (text_attempts snap) (a\<lparr>acc_duration_millis := d\<rparr>) = Ok a1"
    and "voice_loop (\<lambda>_. None) (voice_attempts snap) a1 = Ok (st, a2)"
    and "a3 = fold collect_media (media_events snap) a2"
    and "(if snap_playback_proven snap then checked_add (acc_playback_sessions a3) 1
          else Some (acc_playback_sessions a3)) = Some n"
    and "(if snap_av_sync_proven snap then checked_add (acc_av_sync_sessions a3) 1
          else Some (acc_av_sync_sessions a3)) = Some m"
    and "a' = a3\<lparr>acc_playback_sessions := n, acc_av_sync := acc_av_sync a3 @ sync_offsets_of snap,
                 acc_av_sync_sessions := m\<rparr>"
proof -
  obtain d where d: "checked_add (acc_duration_millis a) (snap_duration_millis snap) = Some d"
    using assms by (cases "checked_add (acc_duration_millis a) (snap_duration_millis snap)") (auto simp: consume_snapshot_def)
  obtain a1 where a1: "text_loop {} (text_attempts snap) (a\<lparr>acc_duration_millis := d\<rparr>) = Ok a1"
    using assms d
    by (cases "text_loop {} (text_attempts snap) (a\<lparr>acc_duration_millis := d\<rparr>)") (auto simp: consume_snapshot_def)
  obtain st a2 where a2: "voice_loop (\<lambda>_. None) (voice_attempts snap) a1 = Ok (st, a2)"
    using assms d a1
    by (cases "voice_loop (\<lambda>_. None) (voice_attempts snap) a1") (auto simp: consume_snapshot_def)
  obtain a3 where a3: "validate_and_collect_media snap st a2 = Ok a3"
    using assms d a1 a2 by (cases "validate_and_collect_media snap st a2") (auto simp: consume_snapshot_def)
  obtain pb where pb: "validate_playback_accounting snap (completed_requests snap) = Ok pb"
    using assms d a1 a2 a3
    by (cases "validate_playback_accounting snap (completed_requests snap)") (auto simp: consume_snapshot_def)
  have proven: "snap_playback_proven snap = derived_playback pb"
    using assms d a1 a2 a3 pb by (auto simp: consume_snapshot_def split: if_splits)
  obtain reqs offs where sync: "validate_and_collect_av_sync snap st (playback_requests pb) (acc_av_sync a3) = Ok (reqs, offs)"
    using assms d a1 a2 a3 pb
    by (auto simp: consume_snapshot_def split: if_splits option.splits sum.splits)
  have offs: "offs = acc_av_sync a3 @ sync_offsets_of snap"
    using sync playback_accounting_Ok [OF pb]
    by (auto simp: validate_and_collect_av_sync_def sync_offsets_of_def dest!: av_sync_loop_Ok split: sum.splits)
  have "\<exists>n m. (if snap_playback_proven snap then checked_add (acc_playback_sessions a3) 1
          else Some (acc_playback_sessions a3)) = Some n \<and>
      (if snap_av_sync_proven snap then checked_add (acc_av_sync_sessions a3) 1
          else Some (acc_av_sync_sessions a3)) = Some m \<and>
      a' = a3\<lparr>acc_playback_sessions := n, acc_av_sync := offs, acc_av_sync_sessions := m\<rparr>"
    using assms d a1 a2 a3 pb sync
    by (simp add: consume_snapshot_def Let_def split: if_splits option.splits sum.splits)
  then show thesis
    using that [OF d a1 a2] media_loop_Ok a3 offs unfolding validate_and_collect_media_def by blast
qed

lemma consume_snapshot_collects:
  assumes "consume_snapshot snap a = Ok a'" and "collected snaps a"
  shows "collected (snaps @ [snap]) a'"
proof -
  obtain d a1 st a2 a3 n m where d: "checked_add (acc_duration_millis a) (snap_duration_millis snap) = Some d"
    and t: "text_loop {} (text_attempts snap) (a\<lparr>acc_duration_millis := d\<rparr>) = Ok a1"
    and v: "voice_loop (\<lambda>_. None) (voice_attempts snap) a1 = Ok (st, a2)"
    and a3: "a3 = fold collect_media (media_events snap) a2"
    and n: "(if snap_playback_proven snap then checked_add (acc_playback_sessions a3) 1
          else Some (acc_playback_sessions a3)) = Some n"
    and m: "(if snap_av_sync_proven snap then checked_add (acc_av_sync_sessions a3) 1
          else Some (acc_av_sync_sessions a3)) = Some m"
    and a': "a' = a3\<lparr>acc_playback_sessions := n, acc_av_sync := acc_av_sync a3 @ sync_offsets_of snap,
                 acc_av_sync_sessions := m\<rparr>"
    by (rule consume_snapshot_cases [OF assms(1)])
  note old = assms(2) [unfolded collected_def]
  have "cost_inv (concat (map usages_of snaps)) (a\<lparr>acc_duration_millis := d\<rparr>)"
    using old by (simp add: cost_inv_def)
  from voice_loop_Ok(2) [OF v text_loop_Ok(2) [OF t this]]
  have cost: "cost_inv (concat (map usages_of (snaps @ [snap]))) a'"
    by (simp add: usages_of_def cost_inv_def a' a3 collect_media_fold)
  have te: "text_effect (text_attempts snap) (a\<lparr>acc_duration_millis := d\<rparr>) a1" by (rule text_loop_Ok(1) [OF t])
  have ve: "voice_effect (voice_attempts snap) a1 a2" by (rule voice_loop_Ok(1) [OF v])
  obtain c f e p i where a1: "a1 = (a\<lparr>acc_duration_millis := d\<rparr>)\<lparr>acc_completed_text := c, acc_failed_text := f,
      acc_text_first_meaningful := acc_text_first_meaningful a @
        measured text_first_meaningful_millis (with_status LabTextAttemptStatus.Completed (text_attempts snap)),
      acc_estimated_cost := e, acc_provider_charge := p, acc_cost_initialized := i\<rparr>"
    and cf: "counts (acc_completed_text a) (length (with_status LabTextAttemptStatus.Completed (text_attempts snap))) c"
      "counts (acc_failed_text a) (length (with_status LabTextAttemptStatus.Failed (text_attempts snap))) f"
    using te unfolding text_effect_def by auto
  obtain vc vf ve' vp vi where a2: "a2 = a1\<lparr>acc_completed_voice := vc, acc_failed_voice := vf,
      acc_stt := acc_stt a @ measured stt_millis (voices_with LabVoiceAttemptStatus.Completed (voice_attempts snap)),
      acc_llm := acc_llm a @ measured llm_millis (voices_with LabVoiceAttemptStatus.Completed (voice_attempts snap)),
      acc_llm_first_meaningful := acc_llm_first_meaningful a @
        measured llm_first_meaningful_millis (voices_with LabVoiceAttemptStatus.Completed (voice_attempts snap)),
      acc_voice_first_text := acc_voice_first_text a @
        measured voice_first_text_millis (voices_with LabVoiceAttemptStatus.Completed (voice_attempts snap)),
      acc_avatar := acc_avatar a @ measured avatar_millis (voices_with LabVoiceAttemptStatus.Completed (voice_attempts snap)),
      acc_server_total := acc_server_total a @
        measured voice_server_total_millis (voices_with LabVoiceAttemptStatus.Completed (voice_attempts snap)),
      acc_estimated_cost := ve', acc_provider_charge := vp, acc_cost_initialized := vi\<rparr>"
    and vcf: "counts (acc_completed_voice a) (length (voices_with LabVoiceAttemptStatus.Completed (voice_attempts snap))) vc"
      "counts (acc_failed_voice a) (length (voices_with LabVoiceAttemptStatus.Failed (voice_attempts snap))) vf"
    using ve unfolding voice_effect_def a1 by auto
  have old_lists: "acc_lists a = map (\<lambda>f. concat (map f snaps)) contributions" using old by blast
  then have lists: "acc_lists a' = map (\<lambda>f. concat (map f (snaps @ [snap]))) contributions"
    by (simp add: acc_lists_def contributions_def a' a3 collect_media_fold a2 a1)
  have "unat d = unat (acc_duration_millis a) + unat (snap_duration_millis snap)" by (rule checked_add_SomeD(2) [OF d])
  then show ?thesis
    using old cf vcf cost lists counted_flag [OF n] counted_flag [OF m]
    unfolding collected_def counts_def by (simp add: a' a3 collect_media_fold a2 a1)
qed

lemma aggregate_loop_collects:
  "aggregate_loop sha encode seqs digests xs a = Ok a' \<Longrightarrow> collected snaps a \<Longrightarrow> collected (snaps @ xs) a'"
proof (induction xs arbitrary: seqs digests a snaps)
  case (Cons x xs)
  then obtain a1 seqs' digests' where "consume_snapshot x a = Ok a1" "aggregate_loop sha encode seqs' digests' xs a1 = Ok a'"
    by (auto split: if_splits option.splits sum.splits)
  then show ?case using Cons.IH [of seqs' digests' a1 "snaps @ [x]"] consume_snapshot_collects Cons.prems(2) by simp
qed simp

lemma try_map_Ok: "try_map f xs = Ok ys \<Longrightarrow> list_all2 (\<lambda>x y. f x = Ok y) xs ys"
  by (induction xs arbitrary: ys) (auto split: sum.splits)

text \<open>The distributions of an aggregate, in the order of the accumulator's lists.\<close>

definition agg_lists :: "LabSessionEvidenceAggregate \<Rightarrow> LatencyDistributionMillis option list" where
  "agg_lists g =
     [agg_text_first_meaningful_response g, agg_av_sync_absolute_offset g, agg_stt_latency g, agg_llm_latency g,
      agg_llm_first_meaningful_response g, agg_voice_first_text_response g, agg_avatar_submit_latency g,
      agg_server_total_latency g, agg_first_meaningful_audio g, agg_interruption_stop g, agg_first_useful_video g,
      agg_backend_start_ready g, agg_transport_connect_started g, agg_transport_connected g,
      agg_remote_video_track_received g, agg_remote_video_attached g, agg_end_to_end_first_useful_video g,
      agg_recoverable_reconnect g]"

lemma finish_lists:
  assumes "accumulator_finish n a = Ok g"
  shows "list_all2 (\<lambda>xs d. distribution xs = Ok d) (acc_lists a) (agg_lists g)"
proof -
  obtain ds where ds: "try_map distribution (acc_lists a) = Ok ds"
    using assms by (auto simp: accumulator_finish_def split: sum.splits)
  have "length ds = 18"
    using list_all2_lengthD [OF try_map_Ok [OF ds]] by (simp add: acc_lists_def)
  moreover have idx: "[0..<18] = [0, 1, 2, 3, 4, 5, 6, 7, 8, 9, 10, 11, 12, 13, 14, 15, 16, 17]"
    by (simp add: upt_rec)
  have "agg_lists g = map ((!) ds) [0..<18]"
    using assms ds unfolding idx by (auto simp: accumulator_finish_def agg_lists_def)
  ultimately have "agg_lists g = ds" using map_nth [of ds] by simp
  then show ?thesis using try_map_Ok [OF ds] by simp
qed

section \<open>Aggregates\<close>

lemma aggregate_cases:
  assumes "aggregate_owner_lab_session_evidence sha encode snaps = Ok g"
  obtains a where "aggregate_loop sha encode {} {} snaps accumulator_default = Ok a" and "collected snaps a"
    and "accumulator_finish (of_nat (length snaps)) a = Ok g" and "snaps \<noteq> []"
    and "unat (of_nat (length snaps) :: u32) = length snaps"
proof -
  obtain a where a: "aggregate_loop sha encode {} {} snaps accumulator_default = Ok a"
    "accumulator_finish (of_nat (length snaps)) a = Ok g" "snaps \<noteq> []" "length snaps < 2 ^ 32"
    using assms by (auto simp: aggregate_owner_lab_session_evidence_def split: if_splits sum.splits)
  then show thesis
    using that aggregate_loop_collects [OF a(1) collected_default] by (simp add: unat_of_nat)
qed

lemma total_flags: "total_of (\<lambda>s. of_bool (P s)) xs = length xs \<longleftrightarrow> (\<forall>x \<in> set xs. P x)"
proof (induction xs rule: rev_induct)
  case (snoc x xs)
  have "total_of (\<lambda>s. of_bool (P s)) xs \<le> length xs"
    by (induction xs rule: rev_induct) auto
  then show ?case using snoc by auto
qed simp

lemma finish_fields:
  assumes "accumulator_finish n a = Ok g"
  shows "agg_sessions g = n" "agg_duration_millis g = acc_duration_millis a"
    "agg_completed_text_attempts g = acc_completed_text a" "agg_failed_text_attempts g = acc_failed_text a"
    "agg_completed_voice_attempts g = acc_completed_voice a" "agg_failed_voice_attempts g = acc_failed_voice a"
    "agg_playback_proven g \<longleftrightarrow> acc_completed_voice a > 0 \<and> acc_playback_sessions a = n"
    "agg_av_sync_proven g \<longleftrightarrow> acc_completed_voice a > 0 \<and> acc_av_sync_sessions a = n"
    "agg_estimated_cost g = acc_estimated_cost a" "agg_provider_charge g = acc_provider_charge a"
    "agg_schema_version g = RT0_OWNER_LAB_SESSION_AGGREGATE_SCHEMA"
    "agg_source_schema_version g = RT0_OWNER_LAB_SESSION_EVIDENCE_SCHEMA"
  using assms by (auto simp: accumulator_finish_def split: sum.splits)

text \<open>When a snapshot may claim that its playback is proven.\<close>

definition playback_accounted :: "LabSessionEvidenceSnapshot \<Rightarrow> bool" where
  "playback_accounted s \<longleftrightarrow>
     confirmed_requests s \<noteq> {} \<and> confirmed_requests s \<union> requests_of InterruptionStopped s = completed_requests s \<and>
     confirmed_requests s \<subseteq> requests_of AudioStarted s \<and> confirmed_requests s = requests_of PlaybackCompleted s \<and>
     confirmed_requests s \<inter> requests_of InterruptionStopped s = {}"

lemma consume_snapshot_playback:
  assumes "consume_snapshot s a = Ok a'"
  shows "snap_playback_proven s \<longleftrightarrow> playback_accounted s"
proof -
  obtain pb where pb: "validate_playback_accounting s (completed_requests s) = Ok pb"
    and eq: "snap_playback_proven s = derived_playback pb"
    using assms by (auto simp: consume_snapshot_def split: if_splits option.splits sum.splits)
  show ?thesis
    using pb unfolding eq by (auto simp: validate_playback_accounting_def playback_accounted_def Let_def split: if_splits)
qed

lemma aggregate_loop_playback:
  "aggregate_loop sha encode seqs digests xs a = Ok a' \<Longrightarrow> s \<in> set xs \<Longrightarrow> snap_playback_proven s \<longleftrightarrow> playback_accounted s"
proof (induction xs arbitrary: seqs digests a)
  case (Cons x xs)
  then obtain a1 seqs' digests' where "consume_snapshot x a = Ok a1" "aggregate_loop sha encode seqs' digests' xs a1 = Ok a'"
    by (auto split: if_splits option.splits sum.splits)
  then show ?case using Cons.IH Cons.prems(2) consume_snapshot_playback by auto
qed simp

text \<open>A reported distribution of measured values.\<close>

definition summarises :: "u64 list \<Rightarrow> LatencyDistributionMillis option \<Rightarrow> bool" where
  "summarises xs d \<longleftrightarrow>
     (case d of
        None \<Rightarrow> xs = []
      | Some d \<Rightarrow> unat (samples d) = length xs \<and> is_percentile 50 xs (p50 d) \<and> is_percentile 95 xs (p95 d) \<and>
                  0 < samples d \<and> p50 d \<le> p95 d)"

lemma distribution_summarises: "distribution xs = Ok d \<Longrightarrow> summarises xs d"
proof (cases d)
  case None
  then show "distribution xs = Ok d \<Longrightarrow> ?thesis" by (auto simp: summarises_def distribution_def Let_def split: if_splits)
next
  case (Some v)
  assume "distribution xs = Ok d"
  then have v: "distribution xs = Ok (Some v)" using Some by simp
  then have "0 < unat (samples v)" using distribution_Some(1,2) [OF v] by simp
  then have "0 < samples v" by (simp add: word_less_nat_alt)
  then show ?thesis using Some distribution_Some [OF v] by (simp add: summarises_def)
qed

lemma aggregate_summarises:
  assumes "aggregate_owner_lab_session_evidence sha encode snaps = Ok g"
  shows "list_all2 (\<lambda>f d. summarises (concat (map f snaps)) d) contributions (agg_lists g)"
proof (rule aggregate_cases [OF assms])
  fix a
  assume a: "collected snaps a" "accumulator_finish (of_nat (length snaps)) a = Ok g"
  have "list_all2 (\<lambda>xs d. distribution xs = Ok d) (map (\<lambda>f. concat (map f snaps)) contributions) (agg_lists g)"
    using finish_lists [OF a(2)] a(1) by (simp add: collected_def)
  then show ?thesis
    unfolding list_all2_map1 by (rule list_all2_mono) (rule distribution_summarises)
qed

text \<open>A session without conversation in which one connection was restored after 40 ms.\<close>

definition sample_snapshot :: LabSessionEvidenceSnapshot where
  "sample_snapshot =
     \<lparr>snap_schema_version = RT0_OWNER_LAB_SESSION_EVIDENCE_SCHEMA, snap_candidate_sha = replicate 40 48,
      snap_provider_state_sha256 = replicate 64 48, snap_scope = RT0_OWNER_LAB_MEDIA_EVIDENCE_SCOPE,
      session_sequence = 1, participant_role = ParticipantRole.Owner, snap_duration_millis = 1000,
      snap_playback_proven = False, snap_av_sync_proven = False, text_attempts = [], voice_attempts = [],
      media_events = [\<lparr>media_request_sequence = None, media_kind = ReconnectRestored, elapsed_millis = 40\<rparr>],
      av_sync_samples = [], av_sync_diagnostics = []\<rparr>"

lemma hex_digits: "utf8_len (replicate n 48) = n" "list_all is_lower_hex (utf8_bytes (replicate n 48))"
  by (induction n) (auto simp: utf8_len_def utf8_width_def utf8_char_def is_lower_hex_def)

lemma sample_header: "validate_snapshot_header sample_snapshot = Ok ()"
  by (simp add: validate_snapshot_header_def sample_snapshot_def validate_candidate_sha_def valid_git_sha_def hex_digits)

lemma sample_consumed:
  "consume_snapshot sample_snapshot accumulator_default =
     Ok (accumulator_default\<lparr>acc_duration_millis := 1000, acc_reconnect := [40]\<rparr>)"
  by (simp add: consume_snapshot_def sample_snapshot_def accumulator_default_def checked_add_def
      validate_and_collect_media_def validate_playback_accounting_def confirmed_requests_def requests_of_def
      completed_requests_def List.map_filter_def collect_media_def validate_and_collect_av_sync_def
      validate_av_sync_diagnostics_def MAX_MEDIA_ELAPSED_MILLIS_def requires_request_sequence_def)

lemma sample_aggregated:
  "\<exists>g. aggregate_owner_lab_session_evidence sha (\<lambda>_. Some []) [sample_snapshot] = Ok g"
proof -
  have "aggregate_loop sha (\<lambda>_. Some []) {} {} [sample_snapshot] accumulator_default =
      Ok (accumulator_default\<lparr>acc_duration_millis := 1000, acc_reconnect := [40]\<rparr>)"
    by (simp add: sample_header sample_consumed)
  then show ?thesis
    by (simp add: aggregate_owner_lab_session_evidence_def accumulator_finish_def
        acc_lists_def accumulator_default_def distribution_def Let_def)
qed



section \<open>The order of the snapshots\<close>

lemma total_of_perm: "mset xs = mset ys \<Longrightarrow> total_of f xs = total_of f ys"
  unfolding total_of_def by (metis mset_map sum_mset_sum_list)

lemma concat_perm: "mset xs = mset ys \<Longrightarrow> mset (concat (map f xs)) = mset (concat (map f ys))"
proof -
  have "mset (concat (map f zs)) = sum_mset (image_mset (\<lambda>z. mset (f z)) (mset zs))" for zs
    by (induction zs) auto
  then show "mset xs = mset ys \<Longrightarrow> ?thesis" by simp
qed

lemma cost_is_perm:
  assumes "mset us = mset vs" and "cost_is (map f us) s" and "cost_is (map f vs) t"
  shows "s = t"
proof -
  have set: "set us = set vs" using assms(1) by (metis set_mset_mset)
  have "sum_list (map (unat \<circ> the) (map f us)) = sum_list (map (unat \<circ> the) (map f vs))"
    using total_of_perm [OF assms(1), of "unat \<circ> the \<circ> f"] by (simp add: total_of_def o_assoc)
  moreover have "us = [] \<longleftrightarrow> vs = []" using set by auto
  ultimately show ?thesis
    using assms(2,3) set by (auto simp: cost_is_def word_unat_eq_iff split: if_splits)
qed

text \<open>The result does not depend on the order in which the sessions are given: two aggregations of the same
  sessions that both succeed are equal in every field.\<close>

lemma aggregate_order_irrelevant:
  assumes "mset snaps = mset snaps'"
    and "aggregate_owner_lab_session_evidence sha encode snaps = Ok g"
    and "aggregate_owner_lab_session_evidence sha encode snaps' = Ok g'"
  shows "g = g'"
proof (rule aggregate_cases [OF assms(2)], rule aggregate_cases [OF assms(3)])
  fix a a'
  assume a: "collected snaps a" "accumulator_finish (of_nat (length snaps)) a = Ok g"
    and a': "collected snaps' a'" "accumulator_finish (of_nat (length snaps')) a' = Ok g'"
  note f = finish_fields [OF a(2)] finish_fields [OF a'(2)]
  note perm = total_of_perm [OF assms(1)]
  have len: "length snaps = length snaps'" by (metis assms(1) size_mset)
  have costs: "acc_estimated_cost a = acc_estimated_cost a'" "acc_provider_charge a = acc_provider_charge a'"
    using cost_is_perm [OF concat_perm [OF assms(1)]] a(1) a'(1) unfolding collected_def cost_inv_def by blast+
  have counters: "acc_duration_millis a = acc_duration_millis a'" "acc_completed_text a = acc_completed_text a'"
    "acc_failed_text a = acc_failed_text a'" "acc_completed_voice a = acc_completed_voice a'"
    "acc_failed_voice a = acc_failed_voice a'" "acc_playback_sessions a = acc_playback_sessions a'"
    "acc_av_sync_sessions a = acc_av_sync_sessions a'"
    using a(1) a'(1) perm by (simp_all add: collected_def word_unat_eq_iff)
  have "list_all2 (\<lambda>xs ys. distribution xs = distribution ys) (acc_lists a) (acc_lists a')"
    using a(1) a'(1) distribution_perm [OF concat_perm [OF assms(1)]]
    by (simp add: collected_def list_all2_map1 list_all2_map2 list_all2_same)
  then have "agg_lists g = agg_lists g'"
    using finish_lists [OF a(2)] finish_lists [OF a'(2)]
    by (auto simp: list_all2_conv_all_nth intro!: nth_equalityI)
  then show "g = g'"
    using f costs counters len by (intro LabSessionEvidenceAggregate.equality) (simp_all add: agg_lists_def)
qed

lemma second_consumed:
  assumes "checked_add (acc_duration_millis a) 1000 = Some d"
  shows "consume_snapshot (sample_snapshot\<lparr>session_sequence := k\<rparr>) a =
           Ok (a\<lparr>acc_duration_millis := d, acc_reconnect := acc_reconnect a @ [40]\<rparr>)"
  using assms
  by (simp add: consume_snapshot_def sample_snapshot_def
      validate_and_collect_media_def validate_playback_accounting_def confirmed_requests_def requests_of_def
      completed_requests_def List.map_filter_def collect_media_def validate_and_collect_av_sync_def
      validate_av_sync_diagnostics_def MAX_MEDIA_ELAPSED_MILLIS_def requires_request_sequence_def)

definition toy_sha :: sha256 where
  "toy_sha bs i = hd bs"

definition toy_encode :: "LabSessionEvidenceSnapshot \<Rightarrow> byte list option" where
  "toy_encode s = Some [ucast (session_sequence s)]"

lemma toy_digests: "sha256_hex toy_sha [1] \<noteq> sha256_hex toy_sha [2]"
proof -
  have "take 2 (sha256_hex toy_sha [b]) = hex_byte b" for b
    by (simp add: sha256_hex_def hex_encode_def toy_sha_def hex_byte_def upt_conv_Cons)
  moreover have "hex_byte 1 \<noteq> hex_byte 2" by (simp add: hex_byte_def hex_digit_def)
  ultimately show ?thesis by metis
qed

lemma two_sessions_aggregated:
  assumes "(j, k) \<in> {(1, 2), (2, 1)}"
  shows "\<exists>g. aggregate_owner_lab_session_evidence toy_sha toy_encode
           [sample_snapshot\<lparr>session_sequence := j\<rparr>, sample_snapshot\<lparr>session_sequence := k\<rparr>] = Ok g"
proof -
  have h: "i \<noteq> 0 \<Longrightarrow> validate_snapshot_header (sample_snapshot\<lparr>session_sequence := i\<rparr>) = Ok ()" for i
    by (simp add: validate_snapshot_header_def sample_snapshot_def validate_candidate_sha_def valid_git_sha_def hex_digits)
  have "aggregate_loop toy_sha toy_encode {} {}
      [sample_snapshot\<lparr>session_sequence := j\<rparr>, sample_snapshot\<lparr>session_sequence := k\<rparr>] accumulator_default =
      Ok (accumulator_default\<lparr>acc_duration_millis := 2000, acc_reconnect := [40, 40]\<rparr>)"
    using assms toy_digests toy_digests [symmetric]
    by (auto simp: h toy_encode_def second_consumed [where d = 1000] second_consumed [where d = 2000]
        accumulator_default_def checked_add_def)
  then show ?thesis
    by (simp add: aggregate_owner_lab_session_evidence_def accumulator_finish_def
        acc_lists_def accumulator_default_def distribution_def Let_def)
qed

end
