(* ===== verification/VPR_Exit_Evidence.thy ===== *)
theory VPR_Exit_Evidence
  imports VPR_Session_Aggregate
begin

text \<open>
  The evidence of the RT0 exit gate (\<^verbatim>\<open>crates/vpr-evaluation/src/session_binding.rs\<close>, \<^verbatim>\<open>exit.rs\<close>, \<^verbatim>\<open>exit_context.rs\<close>,
  \<^verbatim>\<open>exit_validation.rs\<close>): session evidence is bound to one candidate and one provider state, and every claim about
  conversations, quality and cost is compared with what the raw session snapshots show. The JSON decoders, SHA-256,
  Unicode lower-casing and the bytes of the required golden suite are parameters.
\<close>

section \<open>Binding of session evidence\<close>

definition RT0_OWNER_LAB_SESSION_BINDING_SCHEMA :: rust_string where
  "RT0_OWNER_LAB_SESSION_BINDING_SCHEMA = lit ''rt0-owner-lab-session-aggregate-binding-0.8''"

definition RT0_LIVE_CONVERSATION_ATTEMPT_SCHEMA :: rust_string where
  "RT0_LIVE_CONVERSATION_ATTEMPT_SCHEMA = lit ''rt0-live-conversation-attempt-0.1''"

record BoundLabSessionEvidenceAggregate =
  bound_schema_version :: rust_string
  bound_candidate_sha :: rust_string
  bound_provider_state_sha256 :: rust_string
  snapshot_sha256 :: "rust_string list"
  aggregate :: LabSessionEvidenceAggregate

datatype LabSessionBindingError =
    EmptyInput | InvalidCandidateSha | InvalidProviderState | InvalidSnapshot | CandidateMismatch
  | ProviderStateMismatch | DuplicateArtifact | AggregateInvalid

record ConversationTurnBinding =
  audience :: ParticipantRole
  turn_input_audio_sha256 :: rust_string
  transcript_sha256 :: rust_string
  transcript_chars :: u64
  reply_sha256 :: rust_string
  reply_chars :: u64
  turn_locale :: rust_string

record ConversationAttemptBinding =
  attempt_schema_version :: rust_string
  attempt_candidate_sha :: rust_string
  attempt_provider_state_sha256 :: rust_string
  profile_input_sha256 :: rust_string
  persona_id_sha256 :: rust_string
  attempt_persona_version :: u64
  reviewed_claims :: nat
  owner_turn :: ConversationTurnBinding
  visitor_turn :: ConversationTurnBinding
  conversation_attempted :: bool
  provider_output_submitted :: bool

text \<open>The third-party code of the gate: the digest, lower-casing and the JSON codec.\<close>

record exit_env =
  env_sha :: sha256
  env_lower :: lowercase
  required_suite_bytes :: "byte list"
  parse_suite :: "byte list \<Rightarrow> GoldenSuite option"
  parse_manifest :: "byte list \<Rightarrow> ProviderStateManifest option"
  parse_snapshot :: "byte list \<Rightarrow> LabSessionEvidenceSnapshot option"
  encode_snapshot :: "LabSessionEvidenceSnapshot \<Rightarrow> byte list option"
  parse_conversation :: "byte list \<Rightarrow> ConversationAttemptBinding option"

fun bind_loop :: "exit_env \<Rightarrow> rust_string \<Rightarrow> rust_string \<Rightarrow> rust_string list \<Rightarrow> byte list list
    \<Rightarrow> LabSessionBindingError + (rust_string list \<times> LabSessionEvidenceSnapshot list)" where
  "bind_loop env candidate state_sha digests [] = Ok ([], [])"
| "bind_loop env candidate state_sha digests (bytes # rest) =
     (let digest = sha256_hex (env_sha env) bytes
      in if digest \<in> set digests then Err DuplicateArtifact
         else case parse_snapshot env bytes of
           None \<Rightarrow> Err InvalidSnapshot
         | Some snap \<Rightarrow>
             if snap_candidate_sha snap \<noteq> candidate then Err CandidateMismatch
             else if snap_provider_state_sha256 snap \<noteq> state_sha then Err ProviderStateMismatch
             else (case bind_loop env candidate state_sha (digest # digests) rest of
                     Err e \<Rightarrow> Err e
                   | Ok (ds, snaps) \<Rightarrow> Ok (digest # ds, snap # snaps)))"

definition bind_owner_lab_session_evidence :: "exit_env \<Rightarrow> byte list list \<Rightarrow> byte list \<Rightarrow> rust_string
    \<Rightarrow> LabSessionBindingError + BoundLabSessionEvidenceAggregate" where
  "bind_owner_lab_session_evidence env artifacts state_bytes candidate =
     (if artifacts = [] then Err EmptyInput
      else if \<not> valid_git_sha candidate then Err InvalidCandidateSha
      else case parse_manifest env state_bytes of
        None \<Rightarrow> Err InvalidProviderState
      | Some m \<Rightarrow>
          if state_schema_version m \<noteq> RT0_PROVIDER_STATE_SCHEMA \<or> \<not> is_ok (validate_provider_state (providers m))
          then Err InvalidProviderState
          else let state_sha = sha256_hex (env_sha env) state_bytes
               in case bind_loop env candidate state_sha [] artifacts of
                    Err e \<Rightarrow> Err e
                  | Ok (digests, snaps) \<Rightarrow>
                      (case aggregate_owner_lab_session_evidence (env_sha env) (encode_snapshot env) snaps of
                         Err _ \<Rightarrow> Err AggregateInvalid
                       | Ok g \<Rightarrow>
                           Ok \<lparr>bound_schema_version = RT0_OWNER_LAB_SESSION_BINDING_SCHEMA,
                               bound_candidate_sha = candidate, bound_provider_state_sha256 = state_sha,
                               snapshot_sha256 = digests, aggregate = g\<rparr>))"

section \<open>Exit evidence\<close>

definition RT0_EXIT_EVIDENCE_SCHEMA :: rust_string where
  "RT0_EXIT_EVIDENCE_SCHEMA = lit ''rt0-exit-evidence-0.7''"

definition RT0_EXIT_REPORT_SCHEMA :: rust_string where
  "RT0_EXIT_REPORT_SCHEMA = lit ''rt0-exit-report-0.7''"

datatype EvidenceOrigin = Real | Mock | Synthetic

datatype CheckStatus = Passed | Failed

datatype RecordStatus = Recorded | Missing | DeferredInterimVoice

record ArtifactCheckEvidence =
  check_status_of :: CheckStatus
  check_artifact_sha256 :: rust_string

record AutomatedEvidence =
  ci :: ArtifactCheckEvidence
  e2e :: ArtifactCheckEvidence

record ConversationEvidence =
  conv_origin :: EvidenceOrigin
  conv_role :: ParticipantRole
  russian :: CheckStatus
  voice :: CheckStatus
  video :: CheckStatus
  completed_turns :: u32
  interruption_exercised :: CheckStatus
  conv_artifact_sha256 :: rust_string

record ConversationPairEvidence =
  owner_conv :: ConversationEvidence
  visitor_conv :: ConversationEvidence

record QualityEvidence =
  quality_origin :: EvidenceOrigin
  text_first_meaningful_response :: LatencyDistributionMillis
  first_meaningful_audio :: LatencyDistributionMillis
  interruption_stop :: LatencyDistributionMillis
  first_useful_video :: LatencyDistributionMillis
  av_sync_absolute_offset :: LatencyDistributionMillis
  recoverable_reconnect :: LatencyDistributionMillis
  quality_artifact_sha256 :: rust_string

record CostEvidence =
  cost_origin :: EvidenceOrigin
  estimated_cost_covered_provider_roles :: "ProviderRole list"
  provider_charge_covered_provider_roles :: "ProviderRole list"
  measured_duration_millis :: u64
  cost_estimated_microunits :: "u64 option"
  cost_charge_microunits :: "u64 option"
  cost_artifact_sha256 :: rust_string

record PrivacyPermissionEvidence =
  privacy_origin :: EvidenceOrigin
  permission_suite :: CheckStatus
  accepted_private_context_leakage :: u32
  accepted_false_owner_attribution :: u32
  revocation :: CheckStatus
  egress_denial :: CheckStatus
  privacy_artifact_sha256 :: rust_string

record AcceptanceEvidence =
  acceptance_origin :: EvidenceOrigin
  owner_happy_path :: CheckStatus
  visitor_happy_path :: CheckStatus
  correction_path :: CheckStatus
  failure_recovery_path :: CheckStatus
  revoke_deny_path :: CheckStatus
  acceptance_artifact_sha256 :: rust_string

record HumanDimensions =
  voice_similarity :: RecordStatus
  voice_naturalness :: RecordStatus
  appearance_plausibility :: RecordStatus
  persona_similarity :: RecordStatus
  conversation_naturalness :: RecordStatus

record HumanEvaluationEvidence =
  human_origin :: EvidenceOrigin
  rubric_version :: rust_string
  reviewer_count :: u32
  owner_human_participant_verified :: CheckStatus
  visitor_distinct_non_owner_human_verified :: CheckStatus
  dimensions :: HumanDimensions
  usable_for_continuation :: CheckStatus
  human_artifact_sha256 :: rust_string

record KnownLimitationsEvidence =
  review_status :: CheckStatus
  document_sha256 :: rust_string

record Rt0ExitEvidence =
  exit_schema_version :: rust_string
  candidate_sha :: rust_string
  release_spec_sha256 :: rust_string
  golden_report_sha256 :: rust_string
  owner_golden_suite_sha256 :: rust_string
  owner_golden_evidence_sha256 :: rust_string
  owner_golden_report_sha256 :: rust_string
  provider_state_sha256 :: rust_string
  live_provider_probe_sha256 :: rust_string
  conversation_attempt_sha256 :: rust_string
  bound_session_aggregate_sha256 :: rust_string
  automated :: AutomatedEvidence
  conversations :: ConversationPairEvidence
  acceptance :: AcceptanceEvidence
  quality :: QualityEvidence
  cost :: CostEvidence
  privacy_permissions :: PrivacyPermissionEvidence
  human_evaluation :: HumanEvaluationEvidence
  known_limitations :: KnownLimitationsEvidence

datatype Rt0ExitFailureCode =
    GoldenSetNotPassed | OwnerGoldenSetNotPassed | CiNotPassed | E2eNotPassed | OwnerConversationNotReal
  | OwnerConversationIncomplete | OwnerInterruptionNotExercised | VisitorConversationNotReal
  | VisitorConversationIncomplete | AcceptanceEvidenceNotReal | AcceptanceMatrixIncomplete
  | QualityEvidenceNotReal | TextLatencyExceeded | AudioLatencyExceeded | InterruptionLatencyExceeded
  | VideoLatencyExceeded | AvSyncExceeded | ReconnectLatencyExceeded | CostEvidenceNotReal
  | CostProviderCoverageIncomplete | CostNotMeasured | PrivacyEvidenceNotReal | PermissionSuiteNotPassed
  | PrivateContextLeakageAccepted | FalseOwnerAttributionAccepted | RevocationNotVerified
  | EgressDenialNotVerified | HumanEvaluationNotReal | OwnerHumanParticipantNotVerified
  | VisitorDistinctNonOwnerHumanNotVerified | HumanEvaluationIncomplete | HumanEvaluationNotUsable
  | KnownLimitationsNotReviewed

datatype Rt0ExitEvidenceError =
    UnsupportedExitEvidenceSchema | InvalidCandidateSha | InvalidDigest | CandidateShaMismatch
  | ReleaseSpecDigestMismatch | GoldenReportDigestMismatch | OwnerGoldenDigestMismatch | OwnerGoldenInvalid
  | OwnerGoldenRecomputeMismatch | ProviderStateDigestMismatch | ProviderStateMismatch
  | LiveProviderProbeDigestMismatch | LiveProviderProbeInvalid | LiveProviderProbeCandidateMismatch
  | LiveProviderProbeProviderStateMismatch | RuntimeEvidenceDigestMismatch | RuntimeEvidenceInvalid
  | RuntimeEvidenceCandidateMismatch | RuntimeEvidenceProviderStateMismatch | GoldenEvidenceInvalid
  | GoldenReportRecomputeMismatch | GoldenReportInvalid | ParticipantRoleMismatch
  | InvalidLatencyDistribution | InvalidHumanRubric | InvalidArtifactDigest

record Rt0ExitReport =
  exit_report_schema_version :: rust_string
  exit_report_candidate_sha :: rust_string
  exit_report_release_spec_sha256 :: rust_string
  exit_report_provider_state_sha256 :: rust_string
  exit_report_golden_report_sha256 :: rust_string
  exit_report_owner_suite_sha256 :: rust_string
  exit_report_owner_report_sha256 :: rust_string
  exit_report_probe_sha256 :: rust_string
  exit_report_conversation_sha256 :: rust_string
  exit_report_aggregate_sha256 :: rust_string
  exit_evidence_input_sha256 :: rust_string
  ready :: bool
  failures :: "Rt0ExitFailureCode list"
  estimated_cost_per_minute_microunits :: "u64 option"
  provider_charge_per_minute_microunits :: "u64 option"

record OwnerGoldenVerificationContext =
  og_suite :: GoldenSuite
  og_suite_bytes :: "byte list"
  og_report :: BoundGoldenReport
  og_report_bytes :: "byte list"
  og_evidence_bundle :: GoldenEvidenceBundle
  og_evidence_bytes :: "byte list"

record Rt0ExitVerificationContext =
  exit_evidence_bytes :: "byte list"
  golden_report_bytes :: "byte list"
  golden_evidence_bundle :: GoldenEvidenceBundle
  golden_evidence_bytes :: "byte list"
  owner_golden :: OwnerGoldenVerificationContext
  provider_state :: ProviderStateManifest
  provider_state_bytes :: "byte list"
  live_provider_probe :: LiveProviderProbeReceipt
  live_provider_probe_bytes :: "byte list"
  conversation_attempt_bytes :: "byte list"
  bound_session_aggregate :: BoundLabSessionEvidenceAggregate
  bound_session_aggregate_bytes :: "byte list"
  session_snapshot_artifacts :: "byte list list"
  release_spec_bytes :: "byte list"
  exact_candidate_sha :: rust_string

section \<open>Distributions and aggregates\<close>

definition validate_distribution :: "LatencyDistributionMillis \<Rightarrow> Rt0ExitEvidenceError + unit" where
  "validate_distribution d = (if samples d = 0 \<or> p50 d > p95 d then Err InvalidLatencyDistribution else Ok ())"

definition quality_distributions :: "QualityEvidence \<Rightarrow> LatencyDistributionMillis list" where
  "quality_distributions q =
     [text_first_meaningful_response q, first_meaningful_audio q, interruption_stop q, first_useful_video q,
      av_sync_absolute_offset q, recoverable_reconnect q]"

definition validate_quality_latencies :: "QualityEvidence \<Rightarrow> Rt0ExitEvidenceError + unit" where
  "validate_quality_latencies q = try_each validate_distribution (quality_distributions q)"

definition bound_distributions :: "LabSessionEvidenceAggregate \<Rightarrow> LatencyDistributionMillis option list" where
  "bound_distributions g =
     [agg_text_first_meaningful_response g, agg_stt_latency g, agg_llm_latency g, agg_avatar_submit_latency g,
      agg_server_total_latency g, agg_av_sync_absolute_offset g, agg_first_meaningful_audio g,
      agg_interruption_stop g, agg_first_useful_video g, agg_recoverable_reconnect g]"

definition validate_bound_session_aggregate ::
  "BoundLabSessionEvidenceAggregate \<Rightarrow> rust_string \<Rightarrow> rust_string \<Rightarrow> Rt0ExitEvidenceError + unit" where
  "validate_bound_session_aggregate bound exact_candidate state_digest =
     (if bound_schema_version bound \<noteq> RT0_OWNER_LAB_SESSION_BINDING_SCHEMA \<or>
         \<not> valid_git_sha (bound_candidate_sha bound) \<or> \<not> valid_digest (bound_provider_state_sha256 bound) \<or>
         snapshot_sha256 bound = [] \<or>
         agg_schema_version (aggregate bound) \<noteq> RT0_OWNER_LAB_SESSION_AGGREGATE_SCHEMA \<or>
         agg_source_schema_version (aggregate bound) \<noteq> RT0_OWNER_LAB_SESSION_EVIDENCE_SCHEMA \<or>
         agg_sessions (aggregate bound) = 0 \<or>
         unat (agg_sessions (aggregate bound)) \<noteq> length (snapshot_sha256 bound)
      then Err RuntimeEvidenceInvalid
      else if bound_candidate_sha bound \<noteq> exact_candidate then Err RuntimeEvidenceCandidateMismatch
      else if bound_provider_state_sha256 bound \<noteq> state_digest then Err RuntimeEvidenceProviderStateMismatch
      else if \<not> list_all valid_digest (snapshot_sha256 bound) \<or> \<not> distinct (snapshot_sha256 bound)
      then Err RuntimeEvidenceInvalid
      else try_each validate_distribution (List.map_filter id (bound_distributions (aggregate bound))))"

section \<open>Conversations\<close>

definition valid_conversation_turn :: "ConversationTurnBinding \<Rightarrow> ParticipantRole \<Rightarrow> bool" where
  "valid_conversation_turn turn r \<longleftrightarrow>
     audience turn = r \<and> valid_digest (turn_input_audio_sha256 turn) \<and> valid_digest (transcript_sha256 turn) \<and>
     transcript_chars turn > 0 \<and> valid_digest (reply_sha256 turn) \<and> reply_chars turn > 0 \<and> \<not> blank (turn_locale turn)"

definition validate_conversation_attempt_binding ::
  "ConversationAttemptBinding \<Rightarrow> rust_string \<Rightarrow> rust_string \<Rightarrow> Rt0ExitEvidenceError + unit" where
  "validate_conversation_attempt_binding c exact_candidate state_digest =
     (if attempt_schema_version c \<noteq> RT0_LIVE_CONVERSATION_ATTEMPT_SCHEMA \<or>
         \<not> valid_git_sha (attempt_candidate_sha c) \<or> \<not> valid_digest (attempt_provider_state_sha256 c) \<or>
         \<not> valid_digest (profile_input_sha256 c) \<or> \<not> valid_digest (persona_id_sha256 c) \<or>
         attempt_persona_version c = 0 \<or> reviewed_claims c = 0 \<or>
         \<not> conversation_attempted c \<or> \<not> provider_output_submitted c \<or>
         \<not> valid_conversation_turn (owner_turn c) ParticipantRole.Owner \<or>
         \<not> valid_conversation_turn (visitor_turn c) ParticipantRole.Visitor
      then Err RuntimeEvidenceInvalid
      else if attempt_candidate_sha c \<noteq> exact_candidate then Err RuntimeEvidenceCandidateMismatch
      else if attempt_provider_state_sha256 c \<noteq> state_digest then Err RuntimeEvidenceProviderStateMismatch
      else Ok ())"

definition validate_rt0_conversation_attempt_artifact ::
  "exit_env \<Rightarrow> byte list \<Rightarrow> rust_string \<Rightarrow> rust_string \<Rightarrow> Rt0ExitEvidenceError + unit" where
  "validate_rt0_conversation_attempt_artifact env bytes exact_candidate state_digest =
     (case parse_conversation env bytes of
        None \<Rightarrow> Err RuntimeEvidenceInvalid
      | Some c \<Rightarrow> validate_conversation_attempt_binding c exact_candidate state_digest)"

definition parse_role_bound_snapshot ::
  "exit_env \<Rightarrow> rust_string \<Rightarrow> rust_string \<Rightarrow> byte list \<Rightarrow> Rt0ExitEvidenceError + LabSessionEvidenceSnapshot" where
  "parse_role_bound_snapshot env exact_candidate state_digest bytes =
     (case parse_snapshot env bytes of
        None \<Rightarrow> Err RuntimeEvidenceInvalid
      | Some snap \<Rightarrow>
          if snap_candidate_sha snap \<noteq> exact_candidate then Err RuntimeEvidenceCandidateMismatch
          else if snap_provider_state_sha256 snap \<noteq> state_digest then Err RuntimeEvidenceProviderStateMismatch
          else Ok snap)"

definition parse_role_bound_snapshots ::
  "exit_env \<Rightarrow> byte list list \<Rightarrow> rust_string \<Rightarrow> rust_string \<Rightarrow> Rt0ExitEvidenceError + LabSessionEvidenceSnapshot list" where
  "parse_role_bound_snapshots env artifacts exact_candidate state_digest =
     (if artifacts = [] then Err RuntimeEvidenceInvalid
      else try_map (parse_role_bound_snapshot env exact_candidate state_digest) artifacts)"

record RoleConversationProof =
  proof_completed_turns :: u32
  sessions_with_completed_turns :: u32
  playback_sessions :: u32
  video_sessions :: u32
  proof_interruption_exercised :: bool

definition proof_default :: RoleConversationProof where
  "proof_default = \<lparr>proof_completed_turns = 0, sessions_with_completed_turns = 0, playback_sessions = 0,
     video_sessions = 0, proof_interruption_exercised = False\<rparr>"

definition completed_count :: "LabSessionEvidenceSnapshot \<Rightarrow> nat" where
  "completed_count snap = length (filter (\<lambda>v. voice_status v = LabVoiceAttemptStatus.Completed) (voice_attempts snap))"

definition has_media :: "LabMediaEvidenceKind \<Rightarrow> LabSessionEvidenceSnapshot \<Rightarrow> bool" where
  "has_media k snap \<longleftrightarrow> list_ex (\<lambda>e. media_kind e = k) (media_events snap)"

definition prove_session :: "LabSessionEvidenceSnapshot \<Rightarrow> RoleConversationProof \<Rightarrow> RoleConversationProof option" where
  "prove_session snap p =
     (case checked_add (proof_completed_turns p) (of_nat (completed_count snap)) of
        None \<Rightarrow> None
      | Some turns \<Rightarrow>
     (case checked_add (sessions_with_completed_turns p) 1 of
        None \<Rightarrow> None
      | Some with_turns \<Rightarrow>
     (case (if snap_playback_proven snap then checked_add (playback_sessions p) 1 else Some (playback_sessions p)) of
        None \<Rightarrow> None
      | Some playback \<Rightarrow>
     (case (if has_media VideoReady snap then checked_add (video_sessions p) 1 else Some (video_sessions p)) of
        None \<Rightarrow> None
      | Some with_video \<Rightarrow>
          Some \<lparr>proof_completed_turns = turns, sessions_with_completed_turns = with_turns,
                playback_sessions = playback, video_sessions = with_video,
                proof_interruption_exercised =
                  (proof_interruption_exercised p \<or> has_media InterruptionStopped snap)\<rparr>))))"

fun proof_loop :: "LabSessionEvidenceSnapshot list \<Rightarrow> RoleConversationProof
    \<Rightarrow> Rt0ExitEvidenceError + RoleConversationProof" where
  "proof_loop [] p = Ok p"
| "proof_loop (snap # rest) p =
     (if snap_schema_version snap \<noteq> RT0_OWNER_LAB_SESSION_EVIDENCE_SCHEMA \<or>
         snap_scope snap \<noteq> RT0_OWNER_LAB_MEDIA_EVIDENCE_SCOPE \<or> session_sequence snap = 0
      then Err RuntimeEvidenceInvalid
      else if completed_count snap \<ge> 2 ^ 32 then Err RuntimeEvidenceInvalid
      else if completed_count snap = 0 then proof_loop rest p
      else case prove_session snap p of
             None \<Rightarrow> Err RuntimeEvidenceInvalid
           | Some p' \<Rightarrow> proof_loop rest p')"

definition derive_role_conversation_proof ::
  "LabSessionEvidenceSnapshot list \<Rightarrow> ParticipantRole \<Rightarrow> Rt0ExitEvidenceError + RoleConversationProof" where
  "derive_role_conversation_proof snaps r = proof_loop (filter (\<lambda>s. participant_role s = r) snaps) proof_default"

definition check_status :: "bool \<Rightarrow> CheckStatus" where
  "check_status passed = (if passed then Passed else Failed)"

definition to_ascii_lowercase :: "rust_string \<Rightarrow> rust_string" where
  "to_ascii_lowercase = map (\<lambda>c. if 65 \<le> c \<and> c \<le> 90 then c + 32 else c)"

definition is_russian_locale :: "rust_string \<Rightarrow> bool" where
  "is_russian_locale loc =
     (let normalized = to_ascii_lowercase (trim loc)
      in normalized = lit ''ru'' \<or> starts_with normalized (lit ''ru-'') \<or> starts_with normalized (lit ''ru_''))"

definition conversation_evidence_from ::
  "ConversationTurnBinding \<Rightarrow> ParticipantRole \<Rightarrow> RoleConversationProof \<Rightarrow> ConversationEvidence" where
  "conversation_evidence_from turn r p =
     \<lparr>conv_origin = Real, conv_role = r, russian = check_status (is_russian_locale (turn_locale turn)),
      voice = check_status (proof_completed_turns p > 0 \<and> playback_sessions p = sessions_with_completed_turns p),
      video = check_status (proof_completed_turns p > 0 \<and> video_sessions p = sessions_with_completed_turns p),
      completed_turns = proof_completed_turns p,
      interruption_exercised = check_status (proof_interruption_exercised p), conv_artifact_sha256 = []\<rparr>"

definition conversation_claim_matches ::
  "ConversationEvidence \<Rightarrow> ConversationTurnBinding \<Rightarrow> ParticipantRole \<Rightarrow> RoleConversationProof \<Rightarrow> bool" where
  "conversation_claim_matches claim turn r p =
     (let expected = conversation_evidence_from turn r p
      in conv_role claim = conv_role expected \<and> completed_turns claim = completed_turns expected \<and>
         russian claim = russian expected \<and> voice claim = voice expected \<and> video claim = video expected \<and>
         interruption_exercised claim = interruption_exercised expected)"

definition validate_rt0_conversation_evidence_binding ::
  "exit_env \<Rightarrow> Rt0ExitEvidence \<Rightarrow> byte list \<Rightarrow> byte list list \<Rightarrow> rust_string \<Rightarrow> rust_string
     \<Rightarrow> Rt0ExitEvidenceError + unit" where
  "validate_rt0_conversation_evidence_binding env evidence attempt_bytes artifacts exact_candidate state_digest =
     (if conv_role (owner_conv (conversations evidence)) \<noteq> ParticipantRole.Owner \<or>
         conv_role (visitor_conv (conversations evidence)) \<noteq> ParticipantRole.Visitor
      then Err ParticipantRoleMismatch
      else case parse_conversation env attempt_bytes of
        None \<Rightarrow> Err RuntimeEvidenceInvalid
      | Some c \<Rightarrow>
     (case validate_conversation_attempt_binding c exact_candidate state_digest of
        Err e \<Rightarrow> Err e
      | Ok _ \<Rightarrow>
     (case parse_role_bound_snapshots env artifacts exact_candidate state_digest of
        Err e \<Rightarrow> Err e
      | Ok snaps \<Rightarrow>
     (case derive_role_conversation_proof snaps ParticipantRole.Owner of
        Err e \<Rightarrow> Err e
      | Ok owner_proof \<Rightarrow>
     (case derive_role_conversation_proof snaps ParticipantRole.Visitor of
        Err e \<Rightarrow> Err e
      | Ok visitor_proof \<Rightarrow>
          if \<not> conversation_claim_matches (owner_conv (conversations evidence)) (owner_turn c) ParticipantRole.Owner owner_proof \<or>
             \<not> conversation_claim_matches (visitor_conv (conversations evidence)) (visitor_turn c) ParticipantRole.Visitor
                 visitor_proof
          then Err RuntimeEvidenceInvalid
          else Ok ())))))"

section \<open>Quality and cost\<close>

definition quality_evidence_from_aggregate :: "LabSessionEvidenceAggregate \<Rightarrow> Rt0ExitEvidenceError + QualityEvidence" where
  "quality_evidence_from_aggregate g =
     (case (agg_text_first_meaningful_response g, agg_first_meaningful_audio g, agg_interruption_stop g,
            agg_first_useful_video g, agg_av_sync_absolute_offset g, agg_recoverable_reconnect g) of
        (Some response, Some audio_latency, Some stop, Some useful_video, Some offset, Some reconnect) \<Rightarrow>
          if \<not> agg_av_sync_proven g then Err RuntimeEvidenceInvalid
          else (let q = \<lparr>quality_origin = Real, text_first_meaningful_response = response,
                         first_meaningful_audio = audio_latency, interruption_stop = stop,
                         first_useful_video = useful_video, av_sync_absolute_offset = offset,
                         recoverable_reconnect = reconnect, quality_artifact_sha256 = []\<rparr>
                in case validate_quality_latencies q of Err e \<Rightarrow> Err e | Ok _ \<Rightarrow> Ok q)
      | _ \<Rightarrow> Err RuntimeEvidenceInvalid)"

definition validate_session_quality_binding ::
  "Rt0ExitEvidence \<Rightarrow> LabSessionEvidenceAggregate \<Rightarrow> Rt0ExitEvidenceError + unit" where
  "validate_session_quality_binding evidence g =
     (case validate_quality_latencies (quality evidence) of
        Err e \<Rightarrow> Err e
      | Ok _ \<Rightarrow>
     (case quality_evidence_from_aggregate g of
        Err e \<Rightarrow> Err e
      | Ok expected \<Rightarrow>
          if quality_distributions (quality evidence) \<noteq> quality_distributions expected
          then Err RuntimeEvidenceInvalid else Ok ()))"

definition covers_runtime_usage_cost :: "ProviderRole list \<Rightarrow> bool" where
  "covers_runtime_usage_cost roles \<longleftrightarrow> Stt \<in> set roles \<and> Llm \<in> set roles"

definition validate_cost_lower_bound :: "u64 option \<Rightarrow> ProviderRole list \<Rightarrow> u64 option \<Rightarrow> Rt0ExitEvidenceError + unit" where
  "validate_cost_lower_bound claimed_total roles runtime_known_total =
     (if covers_runtime_usage_cost roles \<and>
         (case (claimed_total, runtime_known_total) of
            (Some claimed, Some runtime) \<Rightarrow> claimed < runtime | _ \<Rightarrow> False)
      then Err RuntimeEvidenceInvalid else Ok ())"

definition validate_session_cost_binding ::
  "Rt0ExitEvidence \<Rightarrow> LabSessionEvidenceAggregate \<Rightarrow> Rt0ExitEvidenceError + unit" where
  "validate_session_cost_binding evidence g =
     (if measured_duration_millis (cost evidence) \<noteq> agg_duration_millis g then Err RuntimeEvidenceInvalid
      else case validate_cost_lower_bound (cost_estimated_microunits (cost evidence))
                  (estimated_cost_covered_provider_roles (cost evidence)) (agg_estimated_cost g) of
        Err e \<Rightarrow> Err e
      | Ok _ \<Rightarrow> validate_cost_lower_bound (cost_charge_microunits (cost evidence))
                  (provider_charge_covered_provider_roles (cost evidence)) (agg_provider_charge g))"

section \<open>Runtime evidence\<close>

definition validate_runtime_evidence ::
  "exit_env \<Rightarrow> Rt0ExitEvidence \<Rightarrow> Rt0ExitVerificationContext \<Rightarrow> rust_string \<Rightarrow> Rt0ExitEvidenceError + unit" where
  "validate_runtime_evidence env evidence context state_digest =
     (if conversation_attempt_sha256 evidence \<noteq> sha256_hex (env_sha env) (conversation_attempt_bytes context) \<or>
         bound_session_aggregate_sha256 evidence \<noteq> sha256_hex (env_sha env) (bound_session_aggregate_bytes context)
      then Err RuntimeEvidenceDigestMismatch
      else case validate_rt0_conversation_evidence_binding env evidence (conversation_attempt_bytes context)
                  (session_snapshot_artifacts context) (exact_candidate_sha context) state_digest of
        Err e \<Rightarrow> Err e
      | Ok _ \<Rightarrow>
     (case validate_bound_session_aggregate (bound_session_aggregate context) (exact_candidate_sha context)
             state_digest of
        Err e \<Rightarrow> Err e
      | Ok _ \<Rightarrow>
     (case bind_owner_lab_session_evidence env (session_snapshot_artifacts context)
             (provider_state_bytes context) (exact_candidate_sha context) of
        Err _ \<Rightarrow> Err RuntimeEvidenceInvalid
      | Ok recomputed \<Rightarrow>
          if recomputed \<noteq> bound_session_aggregate context then Err RuntimeEvidenceInvalid
          else (case validate_session_quality_binding evidence (aggregate recomputed) of
                  Err e \<Rightarrow> Err e
                | Ok _ \<Rightarrow> validate_session_cost_binding evidence (aggregate recomputed)))))"

record Rt0RuntimeSupportingProjection =
  projected_conversations :: ConversationPairEvidence
  projected_quality :: QualityEvidence

definition derive_rt0_runtime_supporting_projection ::
  "exit_env \<Rightarrow> byte list \<Rightarrow> BoundLabSessionEvidenceAggregate \<Rightarrow> byte list list \<Rightarrow> byte list \<Rightarrow> rust_string
     \<Rightarrow> Rt0ExitEvidenceError + Rt0RuntimeSupportingProjection" where
  "derive_rt0_runtime_supporting_projection env attempt_bytes bound artifacts state_bytes exact_candidate =
     (let state_digest = sha256_hex (env_sha env) state_bytes
      in case parse_conversation env attempt_bytes of
        None \<Rightarrow> Err RuntimeEvidenceInvalid
      | Some c \<Rightarrow>
     (case validate_conversation_attempt_binding c exact_candidate state_digest of
        Err e \<Rightarrow> Err e
      | Ok _ \<Rightarrow>
     (case validate_bound_session_aggregate bound exact_candidate state_digest of
        Err e \<Rightarrow> Err e
      | Ok _ \<Rightarrow>
     (case bind_owner_lab_session_evidence env artifacts state_bytes exact_candidate of
        Err _ \<Rightarrow> Err RuntimeEvidenceInvalid
      | Ok recomputed \<Rightarrow>
     (if recomputed \<noteq> bound then Err RuntimeEvidenceInvalid
      else case parse_role_bound_snapshots env artifacts exact_candidate state_digest of
        Err e \<Rightarrow> Err e
      | Ok snaps \<Rightarrow>
     (case derive_role_conversation_proof snaps ParticipantRole.Owner of
        Err e \<Rightarrow> Err e
      | Ok owner_proof \<Rightarrow>
     (case derive_role_conversation_proof snaps ParticipantRole.Visitor of
        Err e \<Rightarrow> Err e
      | Ok visitor_proof \<Rightarrow>
     (case quality_evidence_from_aggregate (aggregate recomputed) of
        Err e \<Rightarrow> Err e
      | Ok q \<Rightarrow>
          Ok \<lparr>projected_conversations =
                \<lparr>owner_conv = conversation_evidence_from (owner_turn c) ParticipantRole.Owner owner_proof,
                 visitor_conv = conversation_evidence_from (visitor_turn c) ParticipantRole.Visitor visitor_proof\<rparr>,
              projected_quality = q\<rparr>))))))))"

end
