(* ===== verification/VPR_Exit_Gate.thy ===== *)
theory VPR_Exit_Gate
  imports VPR_Exit_Evidence
begin

text \<open>
  The RT0 exit gate (\<^verbatim>\<open>crates/vpr-evaluation/src/exit.rs\<close>, \<^verbatim>\<open>exit_checks.rs\<close>, \<^verbatim>\<open>exit_cost.rs\<close>, \<^verbatim>\<open>owner_golden.rs\<close>): evidence
  about one candidate is validated against the artifacts it was derived from and judged. Every check appends the
  reasons for which the candidate is not ready to a list; this shared contract is the locale \<open>failure_check\<close>.
\<close>

section \<open>Checks\<close>

definition push_if :: "bool \<Rightarrow> 'a \<Rightarrow> 'a list \<Rightarrow> 'a list" where
  "push_if b x xs = (if b then xs @ [x] else xs)"

definition conversation_complete :: "ConversationEvidence \<Rightarrow> bool" where
  "conversation_complete e \<longleftrightarrow> russian e = Passed \<and> voice e = Passed \<and> video e = Passed \<and> completed_turns e > 0"

definition evaluate_conversations :: "ConversationPairEvidence \<Rightarrow> Rt0ExitFailureCode list \<Rightarrow> Rt0ExitFailureCode list" where
  "evaluate_conversations e =
     push_if (\<not> conversation_complete (visitor_conv e)) VisitorConversationIncomplete \<circ>
     push_if (conv_origin (visitor_conv e) \<noteq> Real) VisitorConversationNotReal \<circ>
     push_if (interruption_exercised (owner_conv e) \<noteq> Passed) OwnerInterruptionNotExercised \<circ>
     push_if (\<not> conversation_complete (owner_conv e)) OwnerConversationIncomplete \<circ>
     push_if (conv_origin (owner_conv e) \<noteq> Real) OwnerConversationNotReal"

definition evaluate_acceptance :: "AcceptanceEvidence \<Rightarrow> Rt0ExitFailureCode list \<Rightarrow> Rt0ExitFailureCode list" where
  "evaluate_acceptance e =
     push_if (owner_happy_path e \<noteq> Passed \<or> visitor_happy_path e \<noteq> Passed \<or> correction_path e \<noteq> Passed \<or>
              failure_recovery_path e \<noteq> Passed \<or> revoke_deny_path e \<noteq> Passed) AcceptanceMatrixIncomplete \<circ>
     push_if (acceptance_origin e \<noteq> Real) AcceptanceEvidenceNotReal"

definition evaluate_quality :: "QualityEvidence \<Rightarrow> Rt0ExitFailureCode list \<Rightarrow> Rt0ExitFailureCode list" where
  "evaluate_quality e =
     push_if (p95 (recoverable_reconnect e) > 5000) ReconnectLatencyExceeded \<circ>
     push_if (p95 (av_sync_absolute_offset e) > 120) AvSyncExceeded \<circ>
     push_if (p95 (first_useful_video e) > 2500) VideoLatencyExceeded \<circ>
     push_if (p95 (interruption_stop e) > 500) InterruptionLatencyExceeded \<circ>
     push_if (p50 (first_meaningful_audio e) > 1500 \<or> p95 (first_meaningful_audio e) > 3000) AudioLatencyExceeded \<circ>
     push_if (p50 (text_first_meaningful_response e) > 1000 \<or> p95 (text_first_meaningful_response e) > 2500)
       TextLatencyExceeded \<circ>
     push_if (quality_origin e \<noteq> Real) QualityEvidenceNotReal"

definition rt0_quality_failure_codes :: "QualityEvidence \<Rightarrow> Rt0ExitFailureCode list" where
  "rt0_quality_failure_codes e = evaluate_quality e []"

definition evaluate_privacy :: "PrivacyPermissionEvidence \<Rightarrow> Rt0ExitFailureCode list \<Rightarrow> Rt0ExitFailureCode list" where
  "evaluate_privacy e =
     push_if (egress_denial e \<noteq> Passed) EgressDenialNotVerified \<circ>
     push_if (revocation e \<noteq> Passed) RevocationNotVerified \<circ>
     push_if (accepted_false_owner_attribution e \<noteq> 0) FalseOwnerAttributionAccepted \<circ>
     push_if (accepted_private_context_leakage e \<noteq> 0) PrivateContextLeakageAccepted \<circ>
     push_if (permission_suite e \<noteq> Passed) PermissionSuiteNotPassed \<circ>
     push_if (privacy_origin e \<noteq> Real) PrivacyEvidenceNotReal"

definition voice_review_valid :: "RecordStatus \<Rightarrow> bool \<Rightarrow> bool" where
  "voice_review_valid st interim_voice \<longleftrightarrow> st = Recorded \<or> interim_voice \<and> st = DeferredInterimVoice"

definition human_review_complete :: "HumanEvaluationEvidence \<Rightarrow> bool \<Rightarrow> bool" where
  "human_review_complete e interim_voice \<longleftrightarrow>
     \<not> (reviewer_count e = 0 \<or> \<not> voice_review_valid (voice_similarity (dimensions e)) interim_voice \<or>
        \<not> voice_review_valid (voice_naturalness (dimensions e)) interim_voice \<or>
        appearance_plausibility (dimensions e) \<noteq> Recorded \<or> persona_similarity (dimensions e) \<noteq> Recorded \<or>
        conversation_naturalness (dimensions e) \<noteq> Recorded)"

definition evaluate_human :: "HumanEvaluationEvidence \<Rightarrow> bool \<Rightarrow> Rt0ExitFailureCode list \<Rightarrow> Rt0ExitFailureCode list" where
  "evaluate_human e interim_voice =
     push_if (usable_for_continuation e \<noteq> Passed) HumanEvaluationNotUsable \<circ>
     push_if (\<not> human_review_complete e interim_voice) HumanEvaluationIncomplete \<circ>
     push_if (visitor_distinct_non_owner_human_verified e \<noteq> Passed) VisitorDistinctNonOwnerHumanNotVerified \<circ>
     push_if (owner_human_participant_verified e \<noteq> Passed) OwnerHumanParticipantNotVerified \<circ>
     push_if (human_origin e \<noteq> Real) HumanEvaluationNotReal"

section \<open>Cost\<close>

definition coverage_complete :: "ProviderRole list \<Rightarrow> bool \<Rightarrow> bool" where
  "coverage_complete roles requires_tts \<longleftrightarrow>
     card (set roles) = (if requires_tts then 4 else 3) \<and> Stt \<in> set roles \<and> Llm \<in> set roles \<and> Avatar \<in> set roles \<and>
     (\<not> requires_tts \<or> Tts \<in> set roles)"

definition signal_complete :: "u64 option \<Rightarrow> ProviderRole list \<Rightarrow> bool \<Rightarrow> bool" where
  "signal_complete c roles requires_tts \<longleftrightarrow> c \<noteq> None \<and> coverage_complete roles requires_tts"

definition cost_per_minute :: "CostEvidence \<Rightarrow> u64 option \<Rightarrow> ProviderRole list \<Rightarrow> bool \<Rightarrow> u64 option" where
  "cost_per_minute e c roles requires_tts =
     (case c of
        None \<Rightarrow> None
      | Some c \<Rightarrow>
          if measured_duration_millis e = 0 \<or> \<not> coverage_complete roles requires_tts then None
          else (case checked_mul (ucast c :: 128 word) 60000 of
                  None \<Rightarrow> None
                | Some numerator \<Rightarrow>
                    (let value = numerator div ucast (measured_duration_millis e)
                     in if value \<le> ucast (- 1 :: u64) then Some (ucast value) else None)))"

definition estimated_cost_per_minute :: "CostEvidence \<Rightarrow> bool \<Rightarrow> u64 option" where
  "estimated_cost_per_minute e requires_tts =
     cost_per_minute e (cost_estimated_microunits e) (estimated_cost_covered_provider_roles e) requires_tts"

definition provider_charge_per_minute :: "CostEvidence \<Rightarrow> bool \<Rightarrow> u64 option" where
  "provider_charge_per_minute e requires_tts =
     cost_per_minute e (cost_charge_microunits e) (provider_charge_covered_provider_roles e) requires_tts"

definition evaluate_cost :: "CostEvidence \<Rightarrow> bool \<Rightarrow> Rt0ExitFailureCode list \<Rightarrow> Rt0ExitFailureCode list" where
  "evaluate_cost e requires_tts =
     push_if (measured_duration_millis e = 0 \<or> cost_estimated_microunits e = None \<and> cost_charge_microunits e = None)
       CostNotMeasured \<circ>
     push_if (\<not> signal_complete (cost_estimated_microunits e) (estimated_cost_covered_provider_roles e) requires_tts \<and>
              \<not> signal_complete (cost_charge_microunits e) (provider_charge_covered_provider_roles e) requires_tts)
       CostProviderCoverageIncomplete \<circ>
     push_if (cost_origin e \<noteq> Real) CostEvidenceNotReal"

section \<open>Validation of the bundle\<close>

fun validate_case_results :: "rust_string list \<Rightarrow> GoldenCaseResult list \<Rightarrow> Rt0ExitEvidenceError + unit" where
  "validate_case_results ids [] = Ok ()"
| "validate_case_results ids (c # cs) =
     (if blank (result_case_id c) \<or> result_case_id c \<in> set ids \<or> case_passed c \<noteq> (case_failures c = [])
      then Err GoldenReportInvalid
      else validate_case_results (result_case_id c # ids) cs)"

definition validate_golden_report :: "BoundGoldenReport \<Rightarrow> Rt0ExitEvidenceError + unit" where
  "validate_golden_report report =
     (if binding_schema_version (report_binding report) \<noteq> RT0_EVIDENCE_BINDING_SCHEMA \<or>
         state_schema_version (report_provider_state report) \<noteq> RT0_PROVIDER_STATE_SCHEMA \<or>
         report_schema_version (golden report) \<noteq> RT0_GOLDEN_SCHEMA \<or>
         \<not> valid_digest (evidence_input_sha256 report) \<or>
         \<not> valid_digest (binding_release_spec_sha256 (report_binding report)) \<or>
         \<not> valid_digest (binding_suite_sha256 (report_binding report)) \<or>
         \<not> valid_digest (binding_provider_state_sha256 (report_binding report)) \<or>
         report_total (golden report) = 0 \<or>
         report_total (golden report) \<noteq> length (report_cases (golden report)) \<or>
         usize_checked_add (report_passed (golden report)) (report_failed (golden report)) \<noteq>
           Some (report_total (golden report)) \<or>
         \<not> is_ok (validate_provider_state (providers (report_provider_state report)))
      then Err GoldenReportInvalid
      else validate_case_results [] (report_cases (golden report)))"

definition validate_public_golden ::
  "exit_env \<Rightarrow> BoundGoldenReport \<Rightarrow> Rt0ExitVerificationContext \<Rightarrow> Rt0ExitEvidenceError + unit" where
  "validate_public_golden env report context =
     (case validate_golden_report report of
        Err e \<Rightarrow> Err e
      | Ok _ \<Rightarrow>
     (case parse_suite env (required_suite_bytes env) of
        None \<Rightarrow> Err GoldenEvidenceInvalid
      | Some required_suite \<Rightarrow>
     (case evaluate_bound_golden_suite (env_sha env) (env_lower env) required_suite (golden_evidence_bundle context)
             \<lparr>ctx_suite_bytes = required_suite_bytes env, ctx_release_spec_bytes = release_spec_bytes context,
              ctx_provider_state = provider_state context, ctx_provider_state_bytes = provider_state_bytes context,
              ctx_evidence_bytes = golden_evidence_bytes context,
              ctx_exact_candidate_sha = exact_candidate_sha context\<rparr> of
        Err _ \<Rightarrow> Err GoldenEvidenceInvalid
      | Ok recomputed \<Rightarrow> if recomputed \<noteq> report then Err GoldenReportRecomputeMismatch else Ok ())))"

definition verify_private_owner_golden :: "exit_env \<Rightarrow> Rt0ExitVerificationContext \<Rightarrow> OwnerGoldenError + unit" where
  "verify_private_owner_golden env context =
     (case evaluate_bound_owner_golden_suite (env_sha env) (env_lower env) (og_suite (owner_golden context))
             (og_evidence_bundle (owner_golden context))
             \<lparr>ctx_suite_bytes = og_suite_bytes (owner_golden context),
              ctx_release_spec_bytes = release_spec_bytes context,
              ctx_provider_state = provider_state context, ctx_provider_state_bytes = provider_state_bytes context,
              ctx_evidence_bytes = og_evidence_bytes (owner_golden context),
              ctx_exact_candidate_sha = exact_candidate_sha context\<rparr> of
        Err e \<Rightarrow> Err e
      | Ok recomputed \<Rightarrow> if recomputed \<noteq> og_report (owner_golden context) then Err ReportMismatch else Ok ())"

definition evidence_artifacts :: "Rt0ExitEvidence \<Rightarrow> rust_string list" where
  "evidence_artifacts e =
     [check_artifact_sha256 (ci (automated e)), check_artifact_sha256 (e2e (automated e)),
      conv_artifact_sha256 (owner_conv (conversations e)), conv_artifact_sha256 (visitor_conv (conversations e)),
      acceptance_artifact_sha256 (acceptance e), quality_artifact_sha256 (quality e), cost_artifact_sha256 (cost e),
      privacy_artifact_sha256 (privacy_permissions e), human_artifact_sha256 (human_evaluation e),
      document_sha256 (known_limitations e)]"

definition validate_artifact_digests :: "Rt0ExitEvidence \<Rightarrow> Rt0ExitEvidenceError + unit" where
  "validate_artifact_digests e =
     (if list_all valid_digest (evidence_artifacts e) then Ok () else Err InvalidArtifactDigest)"

fun probe_error :: "LiveProviderProbeValidationError \<Rightarrow> Rt0ExitEvidenceError" where
  "probe_error LiveProviderProbeValidationError.Invalid = LiveProviderProbeInvalid"
| "probe_error LiveProviderProbeValidationError.CandidateMismatch = LiveProviderProbeCandidateMismatch"
| "probe_error LiveProviderProbeValidationError.ProviderStateMismatch = LiveProviderProbeProviderStateMismatch"

definition owner_golden_error :: "OwnerGoldenError \<Rightarrow> Rt0ExitEvidenceError" where
  "owner_golden_error e = (if e = ReportMismatch then OwnerGoldenRecomputeMismatch else OwnerGoldenInvalid)"

definition evidence_digests :: "Rt0ExitEvidence \<Rightarrow> rust_string list" where
  "evidence_digests e =
     [release_spec_sha256 e, golden_report_sha256 e, owner_golden_suite_sha256 e, owner_golden_evidence_sha256 e,
      owner_golden_report_sha256 e, provider_state_sha256 e, live_provider_probe_sha256 e,
      conversation_attempt_sha256 e, bound_session_aggregate_sha256 e]"

definition validate_digests ::
  "exit_env \<Rightarrow> Rt0ExitEvidence \<Rightarrow> BoundGoldenReport \<Rightarrow> Rt0ExitVerificationContext \<Rightarrow> Rt0ExitEvidenceError + unit" where
  "validate_digests env e report context =
     (let digest = sha256_hex (env_sha env); og = owner_golden context
      in if exit_schema_version e \<noteq> RT0_EXIT_EVIDENCE_SCHEMA then Err UnsupportedExitEvidenceSchema
      else if \<not> valid_git_sha (exact_candidate_sha context) \<or> \<not> valid_git_sha (candidate_sha e)
      then Err Rt0ExitEvidenceError.InvalidCandidateSha
      else if \<not> list_all valid_digest (evidence_digests e) then Err Rt0ExitEvidenceError.InvalidDigest
      else if candidate_sha e \<noteq> exact_candidate_sha context \<or>
              binding_candidate_sha (report_binding report) \<noteq> exact_candidate_sha context
      then Err Rt0ExitEvidenceError.CandidateShaMismatch
      else if release_spec_sha256 e \<noteq> digest (release_spec_bytes context) \<or>
              binding_release_spec_sha256 (report_binding report) \<noteq> digest (release_spec_bytes context)
      then Err Rt0ExitEvidenceError.ReleaseSpecDigestMismatch
      else if golden_report_sha256 e \<noteq> digest (golden_report_bytes context) then Err GoldenReportDigestMismatch
      else if owner_golden_suite_sha256 e \<noteq> digest (og_suite_bytes og) \<or>
              owner_golden_evidence_sha256 e \<noteq> digest (og_evidence_bytes og) \<or>
              owner_golden_report_sha256 e \<noteq> digest (og_report_bytes og)
      then Err OwnerGoldenDigestMismatch
      else if live_provider_probe_sha256 e \<noteq> digest (live_provider_probe_bytes context)
      then Err LiveProviderProbeDigestMismatch
      else if provider_state_sha256 e \<noteq> digest (provider_state_bytes context) \<or>
              binding_provider_state_sha256 (report_binding report) \<noteq> digest (provider_state_bytes context) \<or>
              binding_provider_state_sha256 (report_binding (og_report og)) \<noteq> digest (provider_state_bytes context)
      then Err Rt0ExitEvidenceError.ProviderStateDigestMismatch
      else if state_schema_version (provider_state context) \<noteq> RT0_PROVIDER_STATE_SCHEMA \<or>
              \<not> is_ok (validate_provider_state (providers (provider_state context))) \<or>
              report_provider_state report \<noteq> provider_state context
      then Err Rt0ExitEvidenceError.ProviderStateMismatch
      else Ok ())"

definition validate_structure ::
  "exit_env \<Rightarrow> Rt0ExitEvidence \<Rightarrow> BoundGoldenReport \<Rightarrow> Rt0ExitVerificationContext \<Rightarrow> Rt0ExitEvidenceError + unit" where
  "validate_structure env e report context =
     (let state_digest = sha256_hex (env_sha env) (provider_state_bytes context)
      in case validate_digests env e report context of
        Err x \<Rightarrow> Err x
      | Ok _ \<Rightarrow>
     (case map_err probe_error (validate_live_provider_probe (live_provider_probe context)
             (exact_candidate_sha context) state_digest) of
        Err x \<Rightarrow> Err x
      | Ok _ \<Rightarrow>
     (case validate_runtime_evidence env e context state_digest of
        Err x \<Rightarrow> Err x
      | Ok _ \<Rightarrow>
     (case validate_public_golden env report context of
        Err x \<Rightarrow> Err x
      | Ok _ \<Rightarrow>
     (case map_err owner_golden_error (verify_private_owner_golden env context) of
        Err x \<Rightarrow> Err x
      | Ok _ \<Rightarrow>
     (case validate_artifact_digests e of
        Err x \<Rightarrow> Err x
      | Ok _ \<Rightarrow>
          if conv_role (owner_conv (conversations e)) \<noteq> ParticipantRole.Owner \<or>
             conv_role (visitor_conv (conversations e)) \<noteq> ParticipantRole.Visitor
          then Err ParticipantRoleMismatch
          else if blank (rubric_version (human_evaluation e)) then Err InvalidHumanRubric
          else Ok ()))))))"

section \<open>The verdict\<close>

definition golden_not_passed :: "GoldenReport \<Rightarrow> bool" where
  "golden_not_passed g \<longleftrightarrow> report_failed g \<noteq> 0 \<or> report_passed g \<noteq> report_total g"

definition exit_failures ::
  "Rt0ExitEvidence \<Rightarrow> BoundGoldenReport \<Rightarrow> Rt0ExitVerificationContext \<Rightarrow> Rt0ExitFailureCode list" where
  "exit_failures e report context =
     (let requires_tts = list_ex (\<lambda>p. role p = Tts) (providers (provider_state context));
          interim_voice = list_ex (\<lambda>p. role p = Tts \<and> voice_profile_status p = Some (lit ''INTERIM''))
                            (providers (provider_state context))
      in (push_if (review_status (known_limitations e) \<noteq> Passed) KnownLimitationsNotReviewed \<circ>
          evaluate_human (human_evaluation e) interim_voice \<circ>
          evaluate_privacy (privacy_permissions e) \<circ>
          evaluate_cost (cost e) requires_tts \<circ>
          evaluate_quality (quality e) \<circ>
          evaluate_acceptance (acceptance e) \<circ>
          evaluate_conversations (conversations e) \<circ>
          push_if (check_status_of (e2e (automated e)) \<noteq> Passed) E2eNotPassed \<circ>
          push_if (check_status_of (ci (automated e)) \<noteq> Passed) CiNotPassed \<circ>
          push_if (golden_not_passed (golden (og_report (owner_golden context)))) OwnerGoldenSetNotPassed \<circ>
          push_if (golden_not_passed (golden report)) GoldenSetNotPassed) [])"

definition evaluate_rt0_exit_evidence ::
  "exit_env \<Rightarrow> Rt0ExitEvidence \<Rightarrow> BoundGoldenReport \<Rightarrow> Rt0ExitVerificationContext
     \<Rightarrow> Rt0ExitEvidenceError + Rt0ExitReport" where
  "evaluate_rt0_exit_evidence env e report context =
     (case validate_structure env e report context of
        Err x \<Rightarrow> Err x
      | Ok _ \<Rightarrow>
          (let codes = exit_failures e report context;
               requires_tts = list_ex (\<lambda>p. role p = Tts) (providers (provider_state context))
           in Ok \<lparr>exit_report_schema_version = RT0_EXIT_REPORT_SCHEMA, exit_report_candidate_sha = candidate_sha e,
                  exit_report_release_spec_sha256 = release_spec_sha256 e,
                  exit_report_provider_state_sha256 = provider_state_sha256 e,
                  exit_report_golden_report_sha256 = golden_report_sha256 e,
                  exit_report_owner_suite_sha256 = owner_golden_suite_sha256 e,
                  exit_report_owner_report_sha256 = owner_golden_report_sha256 e,
                  exit_report_probe_sha256 = live_provider_probe_sha256 e,
                  exit_report_conversation_sha256 = conversation_attempt_sha256 e,
                  exit_report_aggregate_sha256 = bound_session_aggregate_sha256 e,
                  exit_evidence_input_sha256 = sha256_hex (env_sha env) (exit_evidence_bytes context),
                  ready = (codes = []), failures = codes,
                  estimated_cost_per_minute_microunits = estimated_cost_per_minute (cost e) requires_tts,
                  provider_charge_per_minute_microunits = provider_charge_per_minute (cost e) requires_tts\<rparr>))"

section \<open>Bound session evidence\<close>

lemma hex_digit_lower: "n < 16 \<Longrightarrow> hex_digit n < 128 \<and> is_lower_hex (of_nat (hex_digit n))"
  by (auto simp: hex_digit_def is_lower_hex_def word_le_nat_alt unat_of_nat)

lemma hex_encode_lower: "list_all is_lower_hex (utf8_bytes (hex_encode bs))"
proof -
  have "is_lower_hex (of_nat c)" if "c \<in> set (hex_byte b)" for b c
    using that hex_digit_lower [OF byte_high_digit [of b]] hex_digit_lower [of "unat b mod 16"]
    by (auto simp: hex_byte_def)
  then have "list_all is_lower_hex (map of_nat (hex_encode bs))" by (auto simp: hex_encode_def list_all_iff)
  then show ?thesis using ascii_utf8_bytes [OF hex_encode_ascii] by simp
qed

lemma valid_digest_hex [simp]: "valid_digest (sha256_hex sha bytes)"
  by (simp add: valid_digest_def sha256_hex_def hex_encode_lower)

definition bound_to :: "exit_env \<Rightarrow> rust_string \<Rightarrow> rust_string \<Rightarrow> byte list \<Rightarrow> LabSessionEvidenceSnapshot \<Rightarrow> bool" where
  "bound_to env candidate state_digest bytes s \<longleftrightarrow>
     parse_snapshot env bytes = Some s \<and> snap_candidate_sha s = candidate \<and> snap_provider_state_sha256 s = state_digest"

lemma bind_loop_Ok:
  "bind_loop env candidate state_digest digests artifacts = Ok (ds, snaps) \<Longrightarrow>
     ds = map (sha256_hex (env_sha env)) artifacts \<and> distinct ds \<and> set ds \<inter> set digests = {} \<and>
     list_all2 (bound_to env candidate state_digest) artifacts snaps"
proof (induction artifacts arbitrary: digests ds snaps)
  case (Cons b bs)
  from Cons.prems obtain s ds' snaps' where fresh: "sha256_hex (env_sha env) b \<notin> set digests"
    and s: "bound_to env candidate state_digest b s" "ds = sha256_hex (env_sha env) b # ds'" "snaps = s # snaps'"
    and rest: "bind_loop env candidate state_digest (sha256_hex (env_sha env) b # digests) bs = Ok (ds', snaps')"
    by (auto simp: Let_def bound_to_def split: if_splits option.splits sum.splits)
  have IH: "ds' = map (sha256_hex (env_sha env)) bs" "distinct ds'"
    "set ds' \<inter> set (sha256_hex (env_sha env) b # digests) = {}" "list_all2 (bound_to env candidate state_digest) bs snaps'"
    using Cons.IH [OF rest] by blast+
  have "sha256_hex (env_sha env) b \<notin> set ds'" "set ds' \<inter> set digests = {}" using IH(3) by auto
  then show ?case using IH(1,2,4) fresh s(1) unfolding s(2,3) by simp
qed simp

lemma bind_Ok:
  assumes "bind_owner_lab_session_evidence env artifacts state_bytes candidate = Ok bound"
  obtains snaps where "artifacts \<noteq> []" and "valid_git_sha candidate"
    and "list_all2 (bound_to env candidate (sha256_hex (env_sha env) state_bytes)) artifacts snaps"
    and "aggregate_owner_lab_session_evidence (env_sha env) (encode_snapshot env) snaps = Ok (aggregate bound)"
    and "snapshot_sha256 bound = map (sha256_hex (env_sha env)) artifacts" and "distinct (snapshot_sha256 bound)"
    and "bound_schema_version bound = RT0_OWNER_LAB_SESSION_BINDING_SCHEMA" and "bound_candidate_sha bound = candidate"
    and "bound_provider_state_sha256 bound = sha256_hex (env_sha env) state_bytes"
proof -
  from assms obtain ds snaps g where ne: "artifacts \<noteq> []" "valid_git_sha candidate"
    and loop: "bind_loop env candidate (sha256_hex (env_sha env) state_bytes) [] artifacts = Ok (ds, snaps)"
    and agg: "aggregate_owner_lab_session_evidence (env_sha env) (encode_snapshot env) snaps = Ok g"
    and bound: "bound = \<lparr>bound_schema_version = RT0_OWNER_LAB_SESSION_BINDING_SCHEMA,
      bound_candidate_sha = candidate, bound_provider_state_sha256 = sha256_hex (env_sha env) state_bytes,
      snapshot_sha256 = ds, aggregate = g\<rparr>"
    unfolding bind_owner_lab_session_evidence_def Let_def
    by (auto split: if_splits option.splits sum.splits prod.splits)
  note loop_Ok = bind_loop_Ok [OF loop]
  show thesis
    by (rule that [of snaps]) (use ne agg loop_Ok in \<open>auto simp: bound\<close>)
qed

lemma summarised_valid: "summarises xs (Some d) \<Longrightarrow> validate_distribution d = Ok ()"
  by (auto simp: summarises_def validate_distribution_def)

lemma bound_distributions_subset: "set (bound_distributions g) \<subseteq> set (agg_lists g)"
  by (auto simp: bound_distributions_def agg_lists_def)

lemma aggregate_distribution_valid:
  assumes "aggregate_owner_lab_session_evidence sha encode snaps = Ok g" and "Some d \<in> set (agg_lists g)"
  shows "validate_distribution d = Ok ()"
  using aggregate_summarises [OF assms(1)] assms(2) summarised_valid
  by (metis in_set_conv_nth list_all2_conv_all_nth)

lemma bound_aggregate_valid:
  assumes "bind_owner_lab_session_evidence env artifacts state_bytes candidate = Ok bound"
  shows "validate_bound_session_aggregate bound candidate (sha256_hex (env_sha env) state_bytes) = Ok ()"
proof (rule bind_Ok [OF assms])
  fix snaps
  assume b: "artifacts \<noteq> []" "valid_git_sha candidate"
    "list_all2 (bound_to env candidate (sha256_hex (env_sha env) state_bytes)) artifacts snaps"
    "aggregate_owner_lab_session_evidence (env_sha env) (encode_snapshot env) snaps = Ok (aggregate bound)"
    "snapshot_sha256 bound = map (sha256_hex (env_sha env)) artifacts" "distinct (snapshot_sha256 bound)"
    "bound_schema_version bound = RT0_OWNER_LAB_SESSION_BINDING_SCHEMA" "bound_candidate_sha bound = candidate"
    "bound_provider_state_sha256 bound = sha256_hex (env_sha env) state_bytes"
  obtain a where a: "accumulator_finish (of_nat (length snaps)) a = Ok (aggregate bound)"
    and n: "unat (of_nat (length snaps) :: u32) = length snaps"
    by (rule aggregate_cases [OF b(4)])
  note f = finish_fields [OF a]
  have len: "length snaps = length artifacts" using list_all2_lengthD [OF b(3)] by simp
  have count: "unat (agg_sessions (aggregate bound)) = length artifacts" using f(1) n len by simp
  then have "agg_sessions (aggregate bound) \<noteq> 0" using b(1) by auto
  moreover have "try_each validate_distribution (List.map_filter id (bound_distributions (aggregate bound))) = Ok ()"
    unfolding try_each_Ok_iff using aggregate_distribution_valid [OF b(4)] bound_distributions_subset
    by (fastforce simp: List.map_filter_def is_ok_iff)
  ultimately show ?thesis
    using b f(11,12) count by (simp add: validate_bound_session_aggregate_def list_all_iff)
qed

lemma parse_bound_snapshots:
  assumes "list_all2 (bound_to env candidate state_digest) artifacts snaps" and "artifacts \<noteq> []"
  shows "parse_role_bound_snapshots env artifacts candidate state_digest = Ok snaps"
proof -
  have "try_map (parse_role_bound_snapshot env candidate state_digest) artifacts = Ok snaps"
    using assms(1) by (induction rule: list_all2_induct) (auto simp: bound_to_def parse_role_bound_snapshot_def)
  then show ?thesis using assms(2) by (simp add: parse_role_bound_snapshots_def)
qed

section \<open>What a conversation claim rests on\<close>

abbreviation conversed :: "LabSessionEvidenceSnapshot list \<Rightarrow> LabSessionEvidenceSnapshot list" where
  "conversed xs \<equiv> filter (\<lambda>s. 0 < completed_count s) xs"

lemma prove_session_Some:
  assumes "prove_session s p = Some p'" and "completed_count s < 2 ^ 32"
  shows "unat (proof_completed_turns p') = unat (proof_completed_turns p) + completed_count s"
    and "unat (sessions_with_completed_turns p') = Suc (unat (sessions_with_completed_turns p))"
    and "unat (playback_sessions p') = unat (playback_sessions p) + of_bool (snap_playback_proven s)"
    and "unat (video_sessions p') = unat (video_sessions p) + of_bool (has_media VideoReady s)"
    and "proof_interruption_exercised p' \<longleftrightarrow> proof_interruption_exercised p \<or> has_media InterruptionStopped s"
  using assms
  by (auto simp: prove_session_def unat_of_nat dest!: checked_add_SomeD split: option.splits if_splits)

lemma proof_loop_Ok:
  assumes "proof_loop xs p = Ok p'"
  shows "unat (proof_completed_turns p') = unat (proof_completed_turns p) + total_of completed_count xs \<and>
         unat (sessions_with_completed_turns p') = unat (sessions_with_completed_turns p) + length (conversed xs) \<and>
         unat (playback_sessions p') =
           unat (playback_sessions p) + length (filter snap_playback_proven (conversed xs)) \<and>
         unat (video_sessions p') = unat (video_sessions p) + length (filter (has_media VideoReady) (conversed xs)) \<and>
         (proof_interruption_exercised p' \<longleftrightarrow>
            proof_interruption_exercised p \<or> (\<exists>s \<in> set (conversed xs). has_media InterruptionStopped s))"
  using assms
proof (induction xs arbitrary: p)
  case (Cons s xs)
  have total: "total_of completed_count (s # xs) = completed_count s + total_of completed_count xs"
    by (simp add: total_of_def)
  show ?case
  proof (cases "completed_count s = 0")
    case True
    then show ?thesis using Cons.IH [of p] Cons.prems by (simp add: total split: if_splits)
  next
    case False
    then obtain p1 where p1: "prove_session s p = Some p1" "proof_loop xs p1 = Ok p'" "completed_count s < 2 ^ 32"
      using Cons.prems by (auto split: if_splits option.splits)
    show ?thesis
      using Cons.IH [OF p1(2)] prove_session_Some [OF p1(1,3)] False by (auto simp: total)
  qed
qed (simp add: total_of_def)

section \<open>The claims are those of the projection\<close>

text \<open>Origin and artifact digest of a claim are supplied by whoever assembles the evidence; the rest is derived.\<close>

definition derived_part :: "ConversationEvidence \<Rightarrow> ConversationEvidence" where
  "derived_part e = e\<lparr>conv_origin := Real, conv_artifact_sha256 := []\<rparr>"

definition derived_quality :: "QualityEvidence \<Rightarrow> QualityEvidence" where
  "derived_quality q = q\<lparr>quality_origin := Real, quality_artifact_sha256 := []\<rparr>"

lemma claim_matches_iff:
  "conversation_claim_matches claim turn r p \<longleftrightarrow> derived_part claim = conversation_evidence_from turn r p"
  by (cases claim) (auto simp: conversation_claim_matches_def derived_part_def conversation_evidence_from_def Let_def)

lemma quality_distributions_eq:
  assumes "derived_quality expected = expected"
  shows "quality_distributions q = quality_distributions expected \<longleftrightarrow> derived_quality q = expected"
  using assms by (cases q; cases expected) (auto simp: quality_distributions_def derived_quality_def)

lemma quality_from_aggregate_Ok:
  assumes "quality_evidence_from_aggregate g = Ok q"
  shows "derived_quality q = q" and "validate_quality_latencies q = Ok ()" and "agg_av_sync_proven g"
    and "agg_text_first_meaningful_response g = Some (text_first_meaningful_response q)"
    and "agg_first_meaningful_audio g = Some (first_meaningful_audio q)"
    and "agg_interruption_stop g = Some (interruption_stop q)"
    and "agg_first_useful_video g = Some (first_useful_video q)"
    and "agg_av_sync_absolute_offset g = Some (av_sync_absolute_offset q)"
    and "agg_recoverable_reconnect g = Some (recoverable_reconnect q)"
  using assms
  by (auto simp: quality_evidence_from_aggregate_def derived_quality_def Let_def split: option.splits if_splits sum.splits)

lemma validate_quality_binding_iff:
  "validate_session_quality_binding evidence g = Ok () \<longleftrightarrow>
     quality_evidence_from_aggregate g = Ok (derived_quality (quality evidence))"
proof (cases "quality_evidence_from_aggregate g")
  case (Inl e)
  then show ?thesis by (auto simp: validate_session_quality_binding_def split: sum.splits)
next
  case (Inr q)
  note q = quality_from_aggregate_Ok [OF Inr]
  have same: "quality_distributions (quality evidence) = quality_distributions q \<longleftrightarrow> derived_quality (quality evidence) = q"
    by (rule quality_distributions_eq [OF q(1)])
  moreover have "derived_quality (quality evidence) = q \<Longrightarrow> validate_quality_latencies (quality evidence) = Ok ()"
    using q(2) same by (simp add: validate_quality_latencies_def)
  ultimately show ?thesis
    using Inr by (auto simp: validate_session_quality_binding_def split: sum.splits)
qed

lemma conversation_binding_iff:
  "validate_rt0_conversation_evidence_binding env evidence attempt_bytes artifacts candidate state_digest = Ok () \<longleftrightarrow>
     (\<exists>c snaps owner_proof visitor_proof. parse_conversation env attempt_bytes = Some c \<and>
        validate_conversation_attempt_binding c candidate state_digest = Ok () \<and>
        parse_role_bound_snapshots env artifacts candidate state_digest = Ok snaps \<and>
        derive_role_conversation_proof snaps ParticipantRole.Owner = Ok owner_proof \<and>
        derive_role_conversation_proof snaps ParticipantRole.Visitor = Ok visitor_proof \<and>
        derived_part (owner_conv (conversations evidence)) =
          conversation_evidence_from (owner_turn c) ParticipantRole.Owner owner_proof \<and>
        derived_part (visitor_conv (conversations evidence)) =
          conversation_evidence_from (visitor_turn c) ParticipantRole.Visitor visitor_proof)"
proof -
  have role: "derived_part e = conversation_evidence_from turn r p \<Longrightarrow> conv_role e = r" for e turn r p
    by (cases e) (simp add: derived_part_def conversation_evidence_from_def)
  show ?thesis
    unfolding validate_rt0_conversation_evidence_binding_def claim_matches_iff
    by (auto split: option.splits sum.splits dest: role)
qed

lemma projection_Ok_iff:
  "derive_rt0_runtime_supporting_projection env attempt_bytes bound artifacts state_bytes candidate = Ok p \<longleftrightarrow>
     (\<exists>c snaps owner_proof visitor_proof q. parse_conversation env attempt_bytes = Some c \<and>
        validate_conversation_attempt_binding c candidate (sha256_hex (env_sha env) state_bytes) = Ok () \<and>
        validate_bound_session_aggregate bound candidate (sha256_hex (env_sha env) state_bytes) = Ok () \<and>
        bind_owner_lab_session_evidence env artifacts state_bytes candidate = Ok bound \<and>
        parse_role_bound_snapshots env artifacts candidate (sha256_hex (env_sha env) state_bytes) = Ok snaps \<and>
        derive_role_conversation_proof snaps ParticipantRole.Owner = Ok owner_proof \<and>
        derive_role_conversation_proof snaps ParticipantRole.Visitor = Ok visitor_proof \<and>
        quality_evidence_from_aggregate (aggregate bound) = Ok q \<and>
        p = \<lparr>projected_conversations =
               \<lparr>owner_conv = conversation_evidence_from (owner_turn c) ParticipantRole.Owner owner_proof,
                visitor_conv = conversation_evidence_from (visitor_turn c) ParticipantRole.Visitor visitor_proof\<rparr>,
             projected_quality = q\<rparr>)"
  unfolding derive_rt0_runtime_supporting_projection_def Let_def
  by (auto split: option.splits sum.splits if_splits)

lemma validate_runtime_evidence_iff:
  "validate_runtime_evidence env evidence context state_digest = Ok () \<longleftrightarrow>
     conversation_attempt_sha256 evidence = sha256_hex (env_sha env) (conversation_attempt_bytes context) \<and>
     bound_session_aggregate_sha256 evidence = sha256_hex (env_sha env) (bound_session_aggregate_bytes context) \<and>
     validate_rt0_conversation_evidence_binding env evidence (conversation_attempt_bytes context)
       (session_snapshot_artifacts context) (exact_candidate_sha context) state_digest = Ok () \<and>
     validate_bound_session_aggregate (bound_session_aggregate context) (exact_candidate_sha context) state_digest = Ok () \<and>
     bind_owner_lab_session_evidence env (session_snapshot_artifacts context) (provider_state_bytes context)
       (exact_candidate_sha context) = Ok (bound_session_aggregate context) \<and>
     validate_session_quality_binding evidence (aggregate (bound_session_aggregate context)) = Ok () \<and>
     validate_session_cost_binding evidence (aggregate (bound_session_aggregate context)) = Ok ()"
  unfolding validate_runtime_evidence_def by (auto split: sum.splits if_splits)

text \<open>C39. The gate accepts exactly the evidence a tool can derive from the raw artifacts: runtime evidence is valid iff its
  two digests are those of the given artifacts, the projection derived from the conversation receipt and the session
  snapshots succeeds, both conversation claims and the quality claim are those of the projection (origin and artifact
  digest apart), and the claimed cost passes its check against the recorded one: the same duration and, for a total
  whose roles include speech recognition and the language model, no less than what was recorded.\<close>

theorem runtime_evidence_is_projection:
  "validate_runtime_evidence env evidence context (sha256_hex (env_sha env) (provider_state_bytes context)) = Ok () \<longleftrightarrow>
     conversation_attempt_sha256 evidence = sha256_hex (env_sha env) (conversation_attempt_bytes context) \<and>
     bound_session_aggregate_sha256 evidence = sha256_hex (env_sha env) (bound_session_aggregate_bytes context) \<and>
     derive_rt0_runtime_supporting_projection env (conversation_attempt_bytes context) (bound_session_aggregate context)
       (session_snapshot_artifacts context) (provider_state_bytes context) (exact_candidate_sha context) =
       Ok \<lparr>projected_conversations = \<lparr>owner_conv = derived_part (owner_conv (conversations evidence)),
                                      visitor_conv = derived_part (visitor_conv (conversations evidence))\<rparr>,
           projected_quality = derived_quality (quality evidence)\<rparr> \<and>
     validate_session_cost_binding evidence (aggregate (bound_session_aggregate context)) = Ok ()"
  unfolding validate_runtime_evidence_iff projection_Ok_iff conversation_binding_iff validate_quality_binding_iff
  by auto

section \<open>The checks of the verdict\<close>

lemma push_if_check [simp]:
  "push_if b x xs = [] \<longleftrightarrow> xs = [] \<and> \<not> b" "push_if b x xs = xs \<longleftrightarrow> \<not> b" "\<exists>new. push_if b x xs = xs @ new"
  by (simp_all add: push_if_def)

lemma failure_check_push: "failure_check (\<lambda>c. push_if (P c) (x c)) (\<lambda>c. \<not> P c)"
  by unfold_locales simp_all

lemma failure_check_comp:
  assumes "failure_check f P" and "failure_check g Q"
  shows "failure_check (\<lambda>c. g c \<circ> f c) (\<lambda>c. P c \<and> Q c)"
proof
  fix c failures
  obtain new where new: "f c failures = failures @ new"
    using failure_check.appends [OF assms(1)] by blast
  obtain new' where new': "g c (failures @ new) = (failures @ new) @ new'"
    using failure_check.appends [OF assms(2)] by blast
  show "\<exists>new. (g c \<circ> f c) failures = failures @ new" using new new' by simp
  have "new = [] \<longleftrightarrow> P c" "new' = [] \<longleftrightarrow> Q c"
    using failure_check.passes [OF assms(1), of c failures] failure_check.passes [OF assms(2), of c "failures @ new"] new new'
    by simp_all
  then show "(g c \<circ> f c) failures = failures \<longleftrightarrow> P c \<and> Q c" using new new' by simp
qed

lemmas failure_checks = failure_check_push failure_check_comp

definition conversations_real :: "ConversationPairEvidence \<Rightarrow> bool" where
  "conversations_real e \<longleftrightarrow>
     conv_origin (owner_conv e) = Real \<and> conversation_complete (owner_conv e) \<and>
     interruption_exercised (owner_conv e) = Passed \<and> conv_origin (visitor_conv e) = Real \<and>
     conversation_complete (visitor_conv e)"

definition acceptance_passed :: "AcceptanceEvidence \<Rightarrow> bool" where
  "acceptance_passed e \<longleftrightarrow>
     acceptance_origin e = Real \<and> owner_happy_path e = Passed \<and> visitor_happy_path e = Passed \<and>
     correction_path e = Passed \<and> failure_recovery_path e = Passed \<and> revoke_deny_path e = Passed"

definition quality_within_limits :: "QualityEvidence \<Rightarrow> bool" where
  "quality_within_limits e \<longleftrightarrow>
     quality_origin e = Real \<and> p50 (text_first_meaningful_response e) \<le> 1000 \<and>
     p95 (text_first_meaningful_response e) \<le> 2500 \<and> p50 (first_meaningful_audio e) \<le> 1500 \<and>
     p95 (first_meaningful_audio e) \<le> 3000 \<and> p95 (interruption_stop e) \<le> 500 \<and> p95 (first_useful_video e) \<le> 2500 \<and>
     p95 (av_sync_absolute_offset e) \<le> 120 \<and> p95 (recoverable_reconnect e) \<le> 5000"

definition privacy_passed :: "PrivacyPermissionEvidence \<Rightarrow> bool" where
  "privacy_passed e \<longleftrightarrow>
     privacy_origin e = Real \<and> permission_suite e = Passed \<and> accepted_private_context_leakage e = 0 \<and>
     accepted_false_owner_attribution e = 0 \<and> revocation e = Passed \<and> egress_denial e = Passed"

definition cost_measured :: "bool \<Rightarrow> CostEvidence \<Rightarrow> bool" where
  "cost_measured requires_tts e \<longleftrightarrow>
     cost_origin e = Real \<and> 0 < measured_duration_millis e \<and>
     (signal_complete (cost_estimated_microunits e) (estimated_cost_covered_provider_roles e) requires_tts \<or>
      signal_complete (cost_charge_microunits e) (provider_charge_covered_provider_roles e) requires_tts)"

definition humans_reviewed :: "bool \<Rightarrow> HumanEvaluationEvidence \<Rightarrow> bool" where
  "humans_reviewed interim_voice e \<longleftrightarrow>
     human_origin e = Real \<and> owner_human_participant_verified e = Passed \<and>
     visitor_distinct_non_owner_human_verified e = Passed \<and> human_review_complete e interim_voice \<and>
     usable_for_continuation e = Passed"

lemma failure_check_requirement:
  "failure_check f P \<Longrightarrow> (\<And>c. P c \<longleftrightarrow> Q c) \<Longrightarrow> failure_check f Q"
  by (simp add: failure_check_def)

interpretation conversations: failure_check evaluate_conversations conversations_real
  unfolding evaluate_conversations_def
  by (rule failure_check_requirement, (rule failure_checks)+) (auto simp: conversations_real_def)

interpretation acceptance: failure_check evaluate_acceptance acceptance_passed
  unfolding evaluate_acceptance_def
  by (rule failure_check_requirement, (rule failure_checks)+) (auto simp: acceptance_passed_def)

interpretation quality: failure_check evaluate_quality quality_within_limits
  unfolding evaluate_quality_def
  by (rule failure_check_requirement, (rule failure_checks)+) (auto simp: quality_within_limits_def)

interpretation privacy: failure_check evaluate_privacy privacy_passed
  unfolding evaluate_privacy_def
  by (rule failure_check_requirement, (rule failure_checks)+) (auto simp: privacy_passed_def)

interpretation cost: failure_check "\<lambda>e. evaluate_cost e requires_tts" "cost_measured requires_tts" for requires_tts
  unfolding evaluate_cost_def
  by (rule failure_check_requirement, (rule failure_checks)+)
    (auto simp: cost_measured_def signal_complete_def word_gt_0)

interpretation human: failure_check "\<lambda>e. evaluate_human e interim_voice" "humans_reviewed interim_voice" for interim_voice
  unfolding evaluate_human_def
  by (rule failure_check_requirement, (rule failure_checks)+) (auto simp: humans_reviewed_def)

section \<open>What a ready report guarantees\<close>

definition uses_tts :: "ProviderStateManifest \<Rightarrow> bool" where
  "uses_tts m \<longleftrightarrow> (\<exists>p \<in> set (providers m). role p = Tts)"

definition interim_voice :: "ProviderStateManifest \<Rightarrow> bool" where
  "interim_voice m \<longleftrightarrow> (\<exists>p \<in> set (providers m). role p = Tts \<and> voice_profile_status p = Some (lit ''INTERIM''))"

lemma exit_failures_Nil_iff:
  "exit_failures e report context = [] \<longleftrightarrow>
     \<not> golden_not_passed (golden report) \<and> \<not> golden_not_passed (golden (og_report (owner_golden context))) \<and>
     check_status_of (ci (automated e)) = Passed \<and> check_status_of (e2e (automated e)) = Passed \<and>
     conversations_real (conversations e) \<and> acceptance_passed (acceptance e) \<and> quality_within_limits (quality e) \<and>
     cost_measured (uses_tts (provider_state context)) (cost e) \<and> privacy_passed (privacy_permissions e) \<and>
     humans_reviewed (interim_voice (provider_state context)) (human_evaluation e) \<and>
     review_status (known_limitations e) = Passed"
  by (auto simp: exit_failures_def Let_def conversations.check_Nil_iff acceptance.check_Nil_iff quality.check_Nil_iff
      privacy.check_Nil_iff cost.check_Nil_iff human.check_Nil_iff list_ex_iff uses_tts_def interim_voice_def)

text \<open>All expectations of a golden suite are met by the recorded observations.\<close>

definition suite_met :: "lowercase \<Rightarrow> GoldenSuite \<Rightarrow> GoldenObservation list \<Rightarrow> bool" where
  "suite_met lower suite observations \<longleftrightarrow>
     suite_cases suite \<noteq> [] \<and>
     (\<forall>c \<in> set (suite_cases suite).
        \<exists>obs \<in> set observations. obs_case_id obs = case_id c \<and> (\<forall>x \<in> set (expectations c). meets lower obs x))"

lemma bound_suite_met:
  assumes "evaluate_bound_golden_suite sha lower suite bundle context = Ok report"
    and "\<not> golden_not_passed (golden report)"
  shows "suite_met lower suite (bundle_observations bundle)"
proof -
  have g: "evaluate_golden_suite lower suite (bundle_observations bundle) = Ok (golden report)"
    using assms(1) by (auto simp: evaluate_bound_golden_suite_def split: sum.splits)
  have "report_failed (golden report) = 0" using assms(2) by (simp add: golden_not_passed_def)
  then have "\<forall>c \<in> set (suite_cases suite). \<exists>obs.
      List.find (\<lambda>x. obs_case_id x = case_id c) (bundle_observations bundle) = Some obs \<and>
      (\<forall>x \<in> set (expectations c). meets lower obs x)"
    using golden_failed_0 [OF g] by simp
  then show ?thesis
    using evaluate_golden_suite_Ok(6) [OF g] unfolding suite_met_def by (blast dest: find_Some_mem)
qed

text \<open>At least the given percentage of the recorded values is within the limit, and some value was recorded.\<close>

definition mostly_within :: "nat \<Rightarrow> u64 \<Rightarrow> u64 list \<Rightarrow> bool" where
  "mostly_within q limit xs \<longleftrightarrow> xs \<noteq> [] \<and> q * length xs \<le> 100 * length (filter (\<lambda>x. x \<le> limit) xs)"

lemma percentile_within:
  assumes "is_percentile q xs v" and "v \<le> limit"
  shows "mostly_within q limit xs"
proof -
  have "length (filter (\<lambda>x. x \<le> v) xs) \<le> length (filter (\<lambda>x. x \<le> limit) xs)"
    using assms(2) by (induction xs) auto
  then show ?thesis using assms(1) by (auto simp: is_percentile_def mostly_within_def)
qed

lemma summarises_within:
  assumes "summarises xs (Some d)"
  shows "p50 d \<le> limit \<Longrightarrow> mostly_within 50 limit xs" and "p95 d \<le> limit \<Longrightarrow> mostly_within 95 limit xs"
  using assms percentile_within by (auto simp: summarises_def)

text \<open>The values the sessions recorded, for the six kinds of the quality evidence.\<close>

abbreviation recorded :: "(LabSessionEvidenceSnapshot \<Rightarrow> u64 list) \<Rightarrow> LabSessionEvidenceSnapshot list \<Rightarrow> u64 list" where
  "recorded f snaps \<equiv> concat (map f snaps)"

abbreviation text_responses :: "LabSessionEvidenceSnapshot \<Rightarrow> u64 list" where
  "text_responses s \<equiv> measured text_first_meaningful_millis (with_status LabTextAttemptStatus.Completed (text_attempts s))"

definition latencies_within_limits :: "LabSessionEvidenceSnapshot list \<Rightarrow> bool" where
  "latencies_within_limits snaps \<longleftrightarrow>
     mostly_within 50 1000 (recorded text_responses snaps) \<and> mostly_within 95 2500 (recorded text_responses snaps) \<and>
     mostly_within 50 1500 (recorded (\<lambda>s. elapsed AudioStarted (media_events s)) snaps) \<and>
     mostly_within 95 3000 (recorded (\<lambda>s. elapsed AudioStarted (media_events s)) snaps) \<and>
     mostly_within 95 500 (recorded (\<lambda>s. elapsed InterruptionStopped (media_events s)) snaps) \<and>
     mostly_within 95 2500 (recorded (\<lambda>s. elapsed VideoReady (media_events s)) snaps) \<and>
     mostly_within 95 120 (recorded sync_offsets_of snaps) \<and>
     mostly_within 95 5000 (recorded (\<lambda>s. elapsed ReconnectRestored (media_events s)) snaps)"

lemma quality_rests_on_recordings:
  assumes "aggregate_owner_lab_session_evidence sha encode snaps = Ok g"
    and "quality_evidence_from_aggregate g = Ok (derived_quality q)" and "quality_within_limits q"
  shows "latencies_within_limits snaps"
proof -
  have same: "text_first_meaningful_response (derived_quality q) = text_first_meaningful_response q"
    "first_meaningful_audio (derived_quality q) = first_meaningful_audio q"
    "interruption_stop (derived_quality q) = interruption_stop q"
    "first_useful_video (derived_quality q) = first_useful_video q"
    "av_sync_absolute_offset (derived_quality q) = av_sync_absolute_offset q"
    "recoverable_reconnect (derived_quality q) = recoverable_reconnect q"
    by (simp_all add: derived_quality_def)
  note f = quality_from_aggregate_Ok [OF assms(2), unfolded same]
  have "summarises (recorded text_responses snaps) (Some (text_first_meaningful_response q))"
    "summarises (recorded (\<lambda>s. elapsed AudioStarted (media_events s)) snaps) (Some (first_meaningful_audio q))"
    "summarises (recorded (\<lambda>s. elapsed InterruptionStopped (media_events s)) snaps) (Some (interruption_stop q))"
    "summarises (recorded (\<lambda>s. elapsed VideoReady (media_events s)) snaps) (Some (first_useful_video q))"
    "summarises (recorded sync_offsets_of snaps) (Some (av_sync_absolute_offset q))"
    "summarises (recorded (\<lambda>s. elapsed ReconnectRestored (media_events s)) snaps) (Some (recoverable_reconnect q))"
    using aggregate_summarises [OF assms(1)] f(4-9) by (simp_all add: contributions_def agg_lists_def)
  then show ?thesis
    using assms(3) summarises_within unfolding latencies_within_limits_def quality_within_limits_def by blast
qed

text \<open>A real conversation of one side: some session completed a voice turn, and every such session was heard in
  full (or interrupted) and seen.\<close>

definition conversation_shown :: "ParticipantRole \<Rightarrow> LabSessionEvidenceSnapshot list \<Rightarrow> bool" where
  "conversation_shown r snaps \<longleftrightarrow>
     (let own = filter (\<lambda>s. participant_role s = r \<and> 0 < completed_count s) snaps
      in own \<noteq> [] \<and> (\<forall>s \<in> set own. playback_accounted s \<and> has_media VideoReady s))"

lemma filter_all: "length (filter P xs) = length xs \<longleftrightarrow> (\<forall>x \<in> set xs. P x)"
  by (metis filter_id_conv length_filter_less order_less_irrefl)

lemma conversation_claim_shown:
  assumes "derive_role_conversation_proof snaps r = Ok p" and "derived_part e = conversation_evidence_from turn r p"
    and "conversation_complete e" and "\<And>s. s \<in> set snaps \<Longrightarrow> snap_playback_proven s \<longleftrightarrow> playback_accounted s"
  shows "conversation_shown r snaps \<and> is_russian_locale (turn_locale turn) \<and>
         (interruption_exercised e = Passed \<longrightarrow>
            (\<exists>s \<in> set snaps. participant_role s = r \<and> has_media InterruptionStopped s))"
proof -
  let ?own = "filter (\<lambda>s. participant_role s = r) snaps"
  have own: "conversed ?own = filter (\<lambda>s. participant_role s = r \<and> 0 < completed_count s) snaps"
    by (simp add: conj_commute)
  note l = proof_loop_Ok [OF assms(1) [unfolded derive_role_conversation_proof_def]]
  have e: "is_russian_locale (turn_locale turn)" "0 < proof_completed_turns p"
    "playback_sessions p = sessions_with_completed_turns p" "video_sessions p = sessions_with_completed_turns p"
    "interruption_exercised e = Passed \<longleftrightarrow> proof_interruption_exercised p"
    using assms(2,3)
    by (cases e; auto simp: derived_part_def conversation_evidence_from_def conversation_complete_def check_status_def
        split: if_splits)+
  have "length (filter snap_playback_proven (conversed ?own)) = length (conversed ?own)"
    "length (filter (has_media VideoReady) (conversed ?own)) = length (conversed ?own)"
    using l e(3,4) by (auto simp: proof_default_def)
  then have all: "\<forall>s \<in> set (conversed ?own). snap_playback_proven s \<and> has_media VideoReady s"
    unfolding filter_all by blast
  have "0 < total_of completed_count ?own"
    using l e(2) by (auto simp: proof_default_def word_less_nat_alt)
  then have "\<exists>s \<in> set ?own. 0 < completed_count s"
    unfolding total_of_def by (auto simp: sum_list_eq_0_iff simp flip: neq0_conv)
  then have "conversed ?own \<noteq> []" by (auto simp: filter_empty_conv)
  then show ?thesis
    using all assms(4) e(1,5) l by (auto simp: conversation_shown_def Let_def own proof_default_def)
qed


lemma validate_structure_Ok:
  assumes "validate_structure env e report context = Ok ()"
  shows "validate_digests env e report context = Ok ()"
    and "validate_runtime_evidence env e context (sha256_hex (env_sha env) (provider_state_bytes context)) = Ok ()"
    and "validate_public_golden env report context = Ok ()" and "verify_private_owner_golden env context = Ok ()"
    and "validate_live_provider_probe (live_provider_probe context) (exact_candidate_sha context)
           (sha256_hex (env_sha env) (provider_state_bytes context)) = Ok ()"
    and "validate_artifact_digests e = Ok ()" and "\<not> blank (rubric_version (human_evaluation e))"
  using assms by (auto simp: validate_structure_def Let_def map_err_Ok_iff split: sum.splits if_splits)

text \<open>A probe that reached the providers: of this candidate and provider state, with some transcript and some answer,
  and claiming nothing more.\<close>

definition providers_reached :: "rust_string \<Rightarrow> rust_string \<Rightarrow> LiveProviderProbeReceipt \<Rightarrow> bool" where
  "providers_reached candidate state_digest p \<longleftrightarrow>
     probe_candidate_sha p = candidate \<and> probe_provider_state_sha256 p = state_digest \<and>
     0 < probe_input_audio_millis p \<and> probe_input_audio_millis p \<le> 30000 \<and>
     0 < stt_transcript_chars (stt_probe p) \<and> 0 < llm_output_chars (llm_probe p) \<and>
     \<not> conversation_evidence p \<and> \<not> output_delivery_proven p"

lemma live_probe_reached:
  "validate_live_provider_probe p candidate state_digest = Ok () \<Longrightarrow> providers_reached candidate state_digest p"
  by (auto simp: validate_live_provider_probe_def providers_reached_def word_gt_0 linorder_not_less split: if_splits)

text \<open>Both turns of the conversation receipt were held in Russian.\<close>

definition held_in_russian :: "exit_env \<Rightarrow> byte list \<Rightarrow> bool" where
  "held_in_russian env attempt_bytes \<longleftrightarrow>
     (\<exists>c. parse_conversation env attempt_bytes = Some c \<and>
        is_russian_locale (turn_locale (owner_turn c)) \<and> is_russian_locale (turn_locale (visitor_turn c)))"

lemma runtime_evidence_shown:
  assumes "validate_runtime_evidence env e context (sha256_hex (env_sha env) (provider_state_bytes context)) = Ok ()"
    and "conversations_real (conversations e)" and "quality_within_limits (quality e)"
  obtains snaps where "list_all2 (bound_to env (exact_candidate_sha context)
        (sha256_hex (env_sha env) (provider_state_bytes context))) (session_snapshot_artifacts context) snaps"
    and "conversation_shown ParticipantRole.Owner snaps" and "conversation_shown ParticipantRole.Visitor snaps"
    and "\<exists>s \<in> set snaps. participant_role s = ParticipantRole.Owner \<and> has_media InterruptionStopped s"
    and "latencies_within_limits snaps"
    and "unat (measured_duration_millis (cost e)) = total_of (unat \<circ> snap_duration_millis) snaps"
    and "held_in_russian env (conversation_attempt_bytes context)"
proof -
  let ?digest = "sha256_hex (env_sha env) (provider_state_bytes context)"
  note v = assms(1) [unfolded validate_runtime_evidence_iff conversation_binding_iff validate_quality_binding_iff]
  have bind: "bind_owner_lab_session_evidence env (session_snapshot_artifacts context) (provider_state_bytes context)
      (exact_candidate_sha context) = Ok (bound_session_aggregate context)" using v by blast
  obtain snaps where ne: "session_snapshot_artifacts context \<noteq> []"
    and bound: "list_all2 (bound_to env (exact_candidate_sha context) ?digest) (session_snapshot_artifacts context) snaps"
    and agg: "aggregate_owner_lab_session_evidence (env_sha env) (encode_snapshot env) snaps =
      Ok (aggregate (bound_session_aggregate context))"
    using bind by (rule bind_Ok)
  obtain c :: ConversationAttemptBinding and sn op vp where
    receipt: "parse_conversation env (conversation_attempt_bytes context) = Some c"
    and parse: "parse_role_bound_snapshots env (session_snapshot_artifacts context)
        (exact_candidate_sha context) ?digest = Ok sn"
    and derive: "derive_role_conversation_proof sn ParticipantRole.Owner = Ok op"
      "derive_role_conversation_proof sn ParticipantRole.Visitor = Ok vp"
    and part:
      "derived_part (owner_conv (conversations e)) = conversation_evidence_from (owner_turn c) ParticipantRole.Owner op"
      "derived_part (visitor_conv (conversations e)) = conversation_evidence_from (visitor_turn c) ParticipantRole.Visitor vp"
    using v by blast
  have "sn = snaps" using parse parse_bound_snapshots [OF bound ne] by simp
  note derive = derive [unfolded this]
  obtain a where loop: "aggregate_loop (env_sha env) (encode_snapshot env) {} {} snaps accumulator_default = Ok a"
    and coll: "collected snaps a"
    and fin: "accumulator_finish (of_nat (length snaps)) a = Ok (aggregate (bound_session_aggregate context))"
    by (rule aggregate_cases [OF agg])
  note shown = conversation_claim_shown [OF _ _ _ aggregate_loop_playback [OF loop]]
  have real: "conversation_complete (owner_conv (conversations e))" "conversation_complete (visitor_conv (conversations e))"
    "interruption_exercised (owner_conv (conversations e)) = Passed"
    using assms(2) by (simp_all add: conversations_real_def)
  have "measured_duration_millis (cost e) = acc_duration_millis a"
    using v finish_fields(2) [OF fin] by (auto simp: validate_session_cost_binding_def split: if_splits)
  then show thesis
    using that [OF bound] shown [OF derive(1) part(1) real(1)] shown [OF derive(2) part(2) real(2)] real(3) coll
      quality_rests_on_recordings [OF agg _ assms(3)] v receipt
    by (auto simp: collected_def held_in_russian_def)
qed

section \<open>Cost per minute\<close>

lemma coverage_complete_iff:
  "coverage_complete roles requires_tts \<longleftrightarrow> set roles = {Stt, Llm, Avatar} \<union> (if requires_tts then {Tts} else {})"
proof -
  have sub: "set roles \<subseteq> {Stt, Llm, Avatar, Tts}" by (auto intro: ProviderRole.exhaust)
  have card: "{Stt, Llm, Avatar} \<subseteq> set roles \<Longrightarrow> card (set roles) = (if Tts \<in> set roles then 4 else 3)"
  proof -
    assume "{Stt, Llm, Avatar} \<subseteq> set roles"
    then have "set roles = {Stt, Llm, Avatar} \<union> (if Tts \<in> set roles then {Tts} else {})" using sub by auto
    moreover have "card ({Stt, Llm, Avatar} \<union> (if b then {Tts} else {})) = (if b then 4 else 3)" for b
      by (cases b) simp_all
    ultimately show ?thesis by metis
  qed
  show ?thesis
  proof
    assume c: "coverage_complete roles requires_tts"
    then have "{Stt, Llm, Avatar} \<subseteq> set roles" by (simp add: coverage_complete_def)
    then show "set roles = {Stt, Llm, Avatar} \<union> (if requires_tts then {Tts} else {})"
      using c card sub by (auto simp: coverage_complete_def split: if_splits)
  next
    assume "set roles = {Stt, Llm, Avatar} \<union> (if requires_tts then {Tts} else {})"
    then show "coverage_complete roles requires_tts"
      using card by (auto simp: coverage_complete_def split: if_splits)
  qed
qed

lemma unat_widen: "unat (ucast x :: 128 word) = unat (x :: u64)"
proof -
  have "unat x < 2 ^ 64" using unsigned_less [of x] by simp
  then show ?thesis by (simp add: unsigned_ucast_eq take_bit_nat_eq_self)
qed

text \<open>C40. A cost per minute is reported exactly when a total is known, the sessions lasted some time and every provider in
  use is covered, unless the result exceeds 64 bits; it is then the total times 60000 divided by the milliseconds,
  rounded down: the 128-bit product never overflows.\<close>

theorem cost_per_minute_exact:
  "cost_per_minute e c roles requires_tts = Some v \<longleftrightarrow>
     (\<exists>amount. c = Some amount \<and> 0 < measured_duration_millis e \<and>
        set roles = {Stt, Llm, Avatar} \<union> (if requires_tts then {Tts} else {}) \<and>
        unat v = unat amount * 60000 div unat (measured_duration_millis e))"
proof (cases "\<exists>amount. c = Some amount \<and> 0 < measured_duration_millis e \<and> coverage_complete roles requires_tts")
  case False
  then show ?thesis
    unfolding coverage_complete_iff [symmetric] cost_per_minute_def by (auto simp: word_gt_0 split: option.splits)
next
  case True
  then obtain amount where c: "c = Some amount" "measured_duration_millis e \<noteq> 0" "coverage_complete roles requires_tts"
    by auto
  let ?d = "measured_duration_millis e"
  let ?n = "ucast amount * 60000 :: 128 word"
  have "unat amount < 2 ^ 64" using unsigned_less [of amount] by simp
  then have "unat amount * 60000 < 2 ^ 128" by simp
  then have n: "checked_mul (ucast amount :: 128 word) 60000 = Some ?n" "unat ?n = unat amount * 60000"
    by (simp_all add: checked_mul_def unat_mult_lem [symmetric] unat_word_ariths unat_widen)
  have quot: "unat (?n div ucast ?d) = unat amount * 60000 div unat ?d"
    using n(2) by (simp add: unat_div unat_widen)
  have fits: "?n div ucast ?d \<le> ucast (- 1 :: u64) \<longleftrightarrow> unat amount * 60000 div unat ?d < 2 ^ 64"
    unfolding word_le_nat_alt quot by (simp add: unat_widen unsigned_minus_1_eq_mask mask_eq_exp_minus_1) linarith
  show ?thesis
  proof (cases "unat amount * 60000 div unat ?d < 2 ^ 64")
    case True
    have "unat (ucast (?n div ucast ?d) :: u64) = unat amount * 60000 div unat ?d"
      using True quot by (simp add: unsigned_ucast_eq take_bit_nat_eq_self)
    then show ?thesis
      using True fits c n unfolding coverage_complete_iff [symmetric]
      by (auto simp: cost_per_minute_def word_gt_0 word_unat_eq_iff)
  next
    case False
    moreover have "unat v < 2 ^ 64" using unsigned_less [of v] by simp
    ultimately have "unat v \<noteq> unat amount * 60000 div unat ?d" by auto
    then show ?thesis
      using False fits c n unfolding coverage_complete_iff [symmetric] by (auto simp: cost_per_minute_def)
  qed
qed

end
