(* ===== verification/VPR_Exit_Ready.thy ===== *)
theory VPR_Exit_Ready
  imports VPR_Exit_Gate
begin

text \<open>
  What the verdict of the exit gate says about a candidate, and a complete bundle of evidence for which the gate
  reports that the candidate is ready: two sessions with every kind of recording, a golden suite with its
  observations and a conversation receipt.
\<close>

section \<open>The verdict\<close>


section \<open>A candidate that is ready\<close>

definition no_usage :: SessionUsageEvidence where
  "no_usage = \<lparr>usage_input_units = None, usage_output_units = None, usage_estimated_cost = None, usage_provider_charge = None\<rparr>"

definition voice_attempt :: "u64 \<Rightarrow> bool \<Rightarrow> LabVoiceAttemptEvidence" where
  "voice_attempt n heard =
     \<lparr>voice_request_sequence = n, voice_turn_sequence = Some 1, voice_output_sequence = Some 1,
      canonical_playback_confirmed = heard, voice_status = LabVoiceAttemptStatus.Completed, voice_failure_code = None,
      stt_millis = Some 40, llm_millis = Some 40, llm_first_meaningful_millis = Some 40, voice_first_text_millis = None,
      tts_first_pcm_millis = None, echo_first_send_millis = None, avatar_millis = Some 40,
      voice_server_total_millis = Some 40, stt_usage = Some no_usage, voice_llm_usage = Some no_usage\<rparr>"

definition text_attempt :: LabTextAttemptEvidence where
  "text_attempt =
     \<lparr>text_request_sequence = 1, text_turn_sequence = Some 1, text_output_sequence = Some 1,
      text_status = LabTextAttemptStatus.Completed, text_failure_code = None, text_first_meaningful_millis = Some 40,
      text_server_total_millis = Some 40, text_llm_usage = Some no_usage\<rparr>"

abbreviation media_event :: "u64 option \<Rightarrow> LabMediaEvidenceKind \<Rightarrow> LabMediaEvidence" where
  "media_event n k \<equiv> \<lparr>media_request_sequence = n, media_kind = k, elapsed_millis = 40\<rparr>"

abbreviation sync_sample :: "u32 \<Rightarrow> LabAvSyncEvidence" where
  "sync_sample i \<equiv> \<lparr>sync_request_sequence = 1, sample_sequence = i, reference = WebRtcEstimatedPlayoutTimestamp,
     absolute_offset_millis = 40\<rparr>"

text \<open>One side's session: the first voice turn is heard to its end, the second is interrupted.\<close>

definition session_of :: "u64 \<Rightarrow> ParticipantRole \<Rightarrow> LabSessionEvidenceSnapshot" where
  "session_of n r =
     \<lparr>snap_schema_version = RT0_OWNER_LAB_SESSION_EVIDENCE_SCHEMA, snap_candidate_sha = replicate 40 48,
      snap_provider_state_sha256 = sha256_hex toy_sha [7], snap_scope = RT0_OWNER_LAB_MEDIA_EVIDENCE_SCOPE,
      session_sequence = n, participant_role = r, snap_duration_millis = 1000,
      snap_playback_proven = True, snap_av_sync_proven = True, text_attempts = [text_attempt],
      voice_attempts = [voice_attempt 1 True, voice_attempt 2 False],
      media_events = [media_event None VideoReady, media_event (Some 1) AudioStarted,
        media_event (Some 1) PlaybackCompleted, media_event (Some 2) AudioStarted,
        media_event (Some 2) InterruptionStopped, media_event None ReconnectRestored],
      av_sync_samples = [sync_sample 1, sync_sample 2, sync_sample 3], av_sync_diagnostics = []\<rparr>"

lemma session_fields [simp]:
  "snap_candidate_sha (session_of n r) = replicate 40 48" "snap_provider_state_sha256 (session_of n r) = sha256_hex toy_sha [7]"
  "snap_schema_version (session_of n r) = RT0_OWNER_LAB_SESSION_EVIDENCE_SCHEMA"
  "snap_scope (session_of n r) = RT0_OWNER_LAB_MEDIA_EVIDENCE_SCOPE" "session_sequence (session_of n r) = n"
  "participant_role (session_of n r) = r" "snap_playback_proven (session_of n r)" "completed_count (session_of n r) = 2"
  "has_media VideoReady (session_of n r)" "has_media InterruptionStopped (session_of n r)"
  by (simp_all add: session_of_def completed_count_def voice_attempt_def has_media_def)

lemma session_requests:
  "confirmed_requests (session_of n r) = {1}" "completed_requests (session_of n r) = {1, 2}"
  "requests_of AudioStarted (session_of n r) = {1, 2}" "requests_of PlaybackCompleted (session_of n r) = {1}"
  "requests_of InterruptionStopped (session_of n r) = {2}"
  by (auto simp: confirmed_requests_def completed_requests_def requests_of_def session_of_def voice_attempt_def
      List.map_filter_def)

lemma session_playback:
  "validate_playback_accounting (session_of n r) {1, 2} =
     Ok \<lparr>playback_requests = {1}, audio_requests = {1, 2}, derived_playback = True\<rparr>"
  by (simp add: validate_playback_accounting_def session_requests insert_commute)

lemma free_usage:
  "add_single_usage_cost no_usage a =
     Ok (a\<lparr>acc_estimated_cost := None, acc_provider_charge := None, acc_cost_initialized := True\<rparr>)"
  "add_usage_costs no_usage no_usage a =
     Ok (a\<lparr>acc_estimated_cost := None, acc_provider_charge := None, acc_cost_initialized := True\<rparr>)"
  by (cases a; simp add: add_single_usage_cost_def add_usage_costs_def init_cost_def add_cost_def no_usage_def Let_def
      split: option.split)+

lemma session_consumed:
  assumes "checked_add (acc_duration_millis a) 1000 = Some d" and "checked_add (acc_completed_text a) 1 = Some t"
    and "checked_add (acc_completed_voice a) 1 = Some v" and "checked_add v 1 = Some v'"
    and "checked_add (acc_playback_sessions a) 1 = Some p" and "checked_add (acc_av_sync_sessions a) 1 = Some m"
  shows "\<exists>a'. consume_snapshot (session_of n r) a = Ok a' \<and> acc_duration_millis a' = d \<and> acc_completed_text a' = t \<and>
    acc_completed_voice a' = v' \<and> acc_playback_sessions a' = p \<and> acc_av_sync_sessions a' = m \<and>
    acc_estimated_cost a' = None \<and> acc_provider_charge a' = None"
proof -
  have texts: "\<exists>a1. text_loop {} (text_attempts (session_of n r)) (a\<lparr>acc_duration_millis := d\<rparr>) = Ok a1 \<and>
      acc_duration_millis a1 = d \<and> acc_completed_text a1 = t \<and> acc_completed_voice a1 = acc_completed_voice a \<and>
      acc_playback_sessions a1 = acc_playback_sessions a \<and> acc_av_sync_sessions a1 = acc_av_sync_sessions a"
    using assms(2) by (simp add: session_of_def text_attempt_def consume_text_attempt_def free_usage)
  have voices: "\<exists>st a2. voice_loop (\<lambda>_. None) (voice_attempts (session_of n r)) a1 = Ok (st, a2) \<and>
      st 1 = Some LabVoiceAttemptStatus.Completed \<and> st 2 = Some LabVoiceAttemptStatus.Completed \<and>
      acc_duration_millis a2 = acc_duration_millis a1 \<and> acc_completed_text a2 = acc_completed_text a1 \<and>
      acc_completed_voice a2 = v' \<and> acc_playback_sessions a2 = acc_playback_sessions a1 \<and>
      acc_av_sync_sessions a2 = acc_av_sync_sessions a1 \<and> acc_estimated_cost a2 = None \<and> acc_provider_charge a2 = None" if "acc_completed_voice a1 = acc_completed_voice a" for a1
    using assms(3,4) that
    by (simp add: session_of_def voice_attempt_def consume_attempt_def consume_completed_attempt_def free_usage)
  have media: "\<exists>a3. validate_and_collect_media (session_of n r) st a2 = Ok a3 \<and>
      acc_duration_millis a3 = acc_duration_millis a2 \<and> acc_completed_text a3 = acc_completed_text a2 \<and>
      acc_completed_voice a3 = acc_completed_voice a2 \<and> acc_playback_sessions a3 = acc_playback_sessions a2 \<and>
      acc_av_sync_sessions a3 = acc_av_sync_sessions a2 \<and> acc_estimated_cost a3 = acc_estimated_cost a2 \<and>
      acc_provider_charge a3 = acc_provider_charge a2"
    if "st 1 = Some LabVoiceAttemptStatus.Completed" "st 2 = Some LabVoiceAttemptStatus.Completed" for st a2
    using that unfolding validate_and_collect_media_def session_requests
    by (simp add: session_of_def collect_media_def MAX_MEDIA_ELAPSED_MILLIS_def requires_request_sequence_def)
  have sync: "\<exists>offsets. validate_and_collect_av_sync (session_of n r) st {1} xs = Ok ({1}, offsets)"
    if "st 1 = Some LabVoiceAttemptStatus.Completed" for st xs
    using that unfolding validate_and_collect_av_sync_def session_requests
    by (simp add: session_of_def MAX_MEDIA_ELAPSED_MILLIS_def RT0_AV_SYNC_SAMPLES_PER_REQUEST_def)
  have diagnostics: "validate_av_sync_diagnostics (session_of n r) st xs ys = Ok ()" for st xs ys
    by (simp add: validate_av_sync_diagnostics_def session_of_def)
  have flags: "snap_playback_proven (session_of n r)" "snap_av_sync_proven (session_of n r)"
    "snap_duration_millis (session_of n r) = 1000"
    by (simp_all add: session_of_def)
  obtain a1 where a1: "text_loop {} (text_attempts (session_of n r)) (a\<lparr>acc_duration_millis := d\<rparr>) = Ok a1"
    "acc_duration_millis a1 = d" "acc_completed_text a1 = t" "acc_completed_voice a1 = acc_completed_voice a"
    "acc_playback_sessions a1 = acc_playback_sessions a" "acc_av_sync_sessions a1 = acc_av_sync_sessions a"
    using texts by blast
  obtain st a2 where a2: "voice_loop (\<lambda>_. None) (voice_attempts (session_of n r)) a1 = Ok (st, a2)"
    "st 1 = Some LabVoiceAttemptStatus.Completed" "st 2 = Some LabVoiceAttemptStatus.Completed"
    "acc_duration_millis a2 = acc_duration_millis a1" "acc_completed_text a2 = acc_completed_text a1"
    "acc_completed_voice a2 = v'" "acc_playback_sessions a2 = acc_playback_sessions a1"
    "acc_av_sync_sessions a2 = acc_av_sync_sessions a1" "acc_estimated_cost a2 = None" "acc_provider_charge a2 = None"
    using voices [OF a1(4)] by blast
  obtain a3 where a3: "validate_and_collect_media (session_of n r) st a2 = Ok a3"
    "acc_duration_millis a3 = acc_duration_millis a2" "acc_completed_text a3 = acc_completed_text a2"
    "acc_completed_voice a3 = acc_completed_voice a2" "acc_playback_sessions a3 = acc_playback_sessions a2"
    "acc_av_sync_sessions a3 = acc_av_sync_sessions a2" "acc_estimated_cost a3 = acc_estimated_cost a2"
    "acc_provider_charge a3 = acc_provider_charge a2"
    using media [of st a2] a2(2,3) by blast
  obtain offsets where offsets: "validate_and_collect_av_sync (session_of n r) st {1} (acc_av_sync a3) = Ok ({1}, offsets)"
    using sync [of st "acc_av_sync a3"] a2(2) by blast
  show ?thesis
    using assms a1 a2 a3 offsets
    by (simp add: consume_snapshot_def flags session_requests session_playback diagnostics)
qed

lemma session_header: "n \<noteq> 0 \<Longrightarrow> validate_snapshot_header (session_of n r) = Ok ()"
  using valid_digest_hex [of toy_sha "[7]"]
  by (simp add: validate_snapshot_header_def session_of_def validate_candidate_sha_def valid_git_sha_def hex_digits
      valid_digest_def)

abbreviation sample_sessions :: "LabSessionEvidenceSnapshot list" where
  "sample_sessions \<equiv> [session_of 1 ParticipantRole.Owner, session_of 2 ParticipantRole.Visitor]"

lemma try_map_total: "\<forall>x \<in> set xs. is_ok (f x) \<Longrightarrow> \<exists>ys. try_map f xs = Ok ys"
  by (induction xs) (auto simp: is_ok_iff)

lemma sessions_aggregated:
  "\<exists>g. aggregate_owner_lab_session_evidence toy_sha toy_encode sample_sessions = Ok g \<and> agg_av_sync_proven g \<and>
     agg_duration_millis g = 2000 \<and> agg_estimated_cost g = None \<and> agg_provider_charge g = None"
proof -
  obtain a1 where a1: "consume_snapshot (session_of 1 ParticipantRole.Owner) accumulator_default = Ok a1"
    "acc_duration_millis a1 = 1000" "acc_completed_text a1 = 1" "acc_completed_voice a1 = 2"
    "acc_playback_sessions a1 = 1" "acc_av_sync_sessions a1 = 1"
    using session_consumed [of accumulator_default 1000 1 1 2 1 1 1 ParticipantRole.Owner]
    by (auto simp: accumulator_default_def checked_add_def)
  obtain a2 where a2: "consume_snapshot (session_of 2 ParticipantRole.Visitor) a1 = Ok a2"
    "acc_duration_millis a2 = 2000" "acc_completed_text a2 = 2" "acc_completed_voice a2 = 4"
    "acc_playback_sessions a2 = 2" "acc_av_sync_sessions a2 = 2" "acc_estimated_cost a2 = None" "acc_provider_charge a2 = None"
    using session_consumed [of a1 2000 2 3 4 2 2 2 ParticipantRole.Visitor] a1(2-)
    by (auto simp: checked_add_def)
  have loop: "aggregate_loop toy_sha toy_encode {} {} sample_sessions accumulator_default = Ok a2"
    using a1(1) a2(1) toy_digests by (simp add: session_header toy_encode_def)
  have lists: "acc_lists a2 = map (\<lambda>f. concat (map f sample_sessions)) contributions"
    using aggregate_loop_collects [OF loop collected_default] by (simp add: collected_def)
  have "\<forall>xs \<in> set (acc_lists a2). length xs < 2 ^ 32"
    unfolding lists
    by (simp add: contributions_def session_of_def with_status_def voices_with_def text_attempt_def voice_attempt_def
        sync_offsets_of_def)
  then have "\<exists>ds. try_map distribution (acc_lists a2) = Ok ds"
    by (intro try_map_total) (auto simp: distribution_def Let_def)
  then obtain g where g: "accumulator_finish (of_nat (length sample_sessions)) a2 = Ok g"
    by (auto simp: accumulator_finish_def)
  then have "aggregate_owner_lab_session_evidence toy_sha toy_encode sample_sessions = Ok g"
    using loop by (simp add: aggregate_owner_lab_session_evidence_def)
  then show ?thesis using finish_fields [OF g] a2(2-) by auto
qed

definition sample_aggregate :: LabSessionEvidenceAggregate where
  "sample_aggregate = projr (aggregate_owner_lab_session_evidence toy_sha toy_encode sample_sessions)"

lemma sample_aggregate:
  "aggregate_owner_lab_session_evidence toy_sha toy_encode sample_sessions = Ok sample_aggregate"
  "agg_av_sync_proven sample_aggregate" "agg_duration_millis sample_aggregate = 2000"
  "agg_estimated_cost sample_aggregate = None" "agg_provider_charge sample_aggregate = None"
  using sessions_aggregated by (auto simp: sample_aggregate_def)

text \<open>Every recorded latency is 40 ms, so every percentile is.\<close>

definition constant_40 :: "LatencyDistributionMillis option \<Rightarrow> bool" where
  "constant_40 d \<longleftrightarrow> (\<exists>x. d = Some x \<and> validate_distribution x = Ok () \<and> p50 x = 40 \<and> p95 x = 40)"

lemma summarises_constant:
  assumes "summarises xs d" and "xs \<noteq> []" and "\<forall>x \<in> set xs. x = 40"
  shows "constant_40 d"
  using assms by (cases d) (auto simp: summarises_def constant_40_def is_percentile_def validate_distribution_def)

lemma sample_distributions:
  "constant_40 (agg_text_first_meaningful_response sample_aggregate)" "constant_40 (agg_first_meaningful_audio sample_aggregate)"
  "constant_40 (agg_interruption_stop sample_aggregate)" "constant_40 (agg_first_useful_video sample_aggregate)"
  "constant_40 (agg_av_sync_absolute_offset sample_aggregate)" "constant_40 (agg_recoverable_reconnect sample_aggregate)"
proof -
  note s = aggregate_summarises [OF sample_aggregate(1), unfolded contributions_def agg_lists_def]
  have offsets: "sync_offsets_of (session_of n r) = [40, 40, 40]" for n r
    unfolding sync_offsets_of_def session_requests by (simp add: session_of_def)
  have responses: "text_responses (session_of n r) = [40]" for n r
    by (simp add: session_of_def text_attempt_def with_status_def)
  have events: "elapsed AudioStarted (media_events (session_of n r)) = [40, 40]"
    "elapsed InterruptionStopped (media_events (session_of n r)) = [40]"
    "elapsed VideoReady (media_events (session_of n r)) = [40]"
    "elapsed ReconnectRestored (media_events (session_of n r)) = [40]" for n r
    by (simp_all add: session_of_def)
  show "constant_40 (agg_text_first_meaningful_response sample_aggregate)" "constant_40 (agg_first_meaningful_audio sample_aggregate)"
    "constant_40 (agg_interruption_stop sample_aggregate)" "constant_40 (agg_first_useful_video sample_aggregate)"
    "constant_40 (agg_av_sync_absolute_offset sample_aggregate)" "constant_40 (agg_recoverable_reconnect sample_aggregate)"
    using s by (auto simp: offsets responses events intro: summarises_constant)
qed

definition sample_quality :: QualityEvidence where
  "sample_quality = projr (quality_evidence_from_aggregate sample_aggregate)"

lemma sample_quality:
  "quality_evidence_from_aggregate sample_aggregate = Ok sample_quality" "quality_within_limits sample_quality"
proof -
  obtain x1 x2 x3 x4 x5 x6 where
    "agg_text_first_meaningful_response sample_aggregate = Some x1" "agg_first_meaningful_audio sample_aggregate = Some x2"
    "agg_interruption_stop sample_aggregate = Some x3" "agg_first_useful_video sample_aggregate = Some x4"
    "agg_av_sync_absolute_offset sample_aggregate = Some x5" "agg_recoverable_reconnect sample_aggregate = Some x6"
    "\<forall>x \<in> {x1, x2, x3, x4, x5, x6}. validate_distribution x = Ok () \<and> p50 x = 40 \<and> p95 x = 40"
    using sample_distributions unfolding constant_40_def by auto
  then show "quality_evidence_from_aggregate sample_aggregate = Ok sample_quality" "quality_within_limits sample_quality"
    by (simp_all add: sample_quality_def quality_evidence_from_aggregate_def sample_aggregate(2) Let_def
        validate_quality_latencies_def quality_distributions_def quality_within_limits_def)
qed

abbreviation digest_of :: "byte \<Rightarrow> rust_string" where
  "digest_of k \<equiv> sha256_hex toy_sha [k]"

definition ready_manifest :: ProviderStateManifest where
  "ready_manifest = \<lparr>state_schema_version = RT0_PROVIDER_STATE_SCHEMA,
     providers = map (\<lambda>r. \<lparr>role = r, provider = lit ''p'', model_or_representation = lit ''m'',
       configuration_fingerprint_sha256 = digest_of 0, voice_profile_status = None, profile_id = None,
       profile_version = None\<rparr>) [Stt, Llm, Avatar]\<rparr>"

lemma letters_not_blank: "\<not> blank (lit [c])" if "c \<in> {CHR ''p'', CHR ''m'', CHR ''a'', CHR ''b'', CHR ''c'', CHR ''q'', CHR ''x''}"
  using that by (auto simp: blank_iff lit_def is_whitespace_def)

lemma ready_manifest_valid:
  "validate_provider_state (providers ready_manifest) = Ok ()" "state_schema_version ready_manifest = RT0_PROVIDER_STATE_SCHEMA"
  by (simp_all add: validate_provider_state_def ready_manifest_def letters_not_blank)

definition ready_suite :: GoldenSuite where
  "ready_suite = \<lparr>suite_schema_version = RT0_GOLDEN_SCHEMA, suite_id = lit ''rt0.owner.x'',
     suite_cases = map (\<lambda>(i, ex). \<lparr>case_id = i, actor = GoldenActor.Owner, prompt_ru = lit ''q'', expectations = [ex]\<rparr>)
       [(lit ''a'', ResponseContainsAll [lit ''x'']), (lit ''b'', OwnerAttribution True), (lit ''c'', PersonaIdentityStable)]\<rparr>"

definition ready_observations :: "GoldenObservation list" where
  "ready_observations = map (\<lambda>i. \<lparr>obs_case_id = i, response_text = Some (lit ''x''),
     owner_attribution = Some direct_owner_evidence, obs_reason_code = None, unplayed_tail_spoken = None,
     persona_id_before = Some (lit ''p''), persona_id_after = Some (lit ''p'')\<rparr>) [lit ''a'', lit ''b'', lit ''c'']"

definition ready_golden :: GoldenReport where
  "ready_golden = \<lparr>report_schema_version = RT0_GOLDEN_SCHEMA, report_suite_id = lit ''rt0.owner.x'', report_total = 3,
     report_passed = 3, report_failed = 0,
     report_cases = map (\<lambda>i. \<lparr>result_case_id = i, case_passed = True, case_failures = []\<rparr>) [lit ''a'', lit ''b'', lit ''c'']\<rparr>"

lemma case_ids_differ:
  "lit ''a'' \<noteq> lit ''b''" "lit ''a'' \<noteq> lit ''c''" "lit ''b'' \<noteq> lit ''c''" "lit ''b'' \<noteq> lit ''a''" "lit ''c'' \<noteq> lit ''a''" "lit ''c'' \<noteq> lit ''b''"
  by (simp_all add: lit_def)

lemma ready_golden: "evaluate_golden_suite id ready_suite ready_observations = Ok ready_golden"
proof -
  have blanks: "\<not> blank RT0_GOLDEN_SCHEMA" "\<not> blank (lit ''rt0.owner.x'')"
    by (simp_all add: blank_iff lit_def is_whitespace_def RT0_GOLDEN_SCHEMA_def)
  have found: "str_contains (lit ''x'') (lit ''x'')" by (simp add: lit_def)
  show ?thesis
    by (simp add: evaluate_golden_suite_def ready_suite_def ready_observations_def ready_golden_def validate_suite_def
        validate_expectation_def index_observations_def evaluate_case_def evaluate_expectation_def evaluate_attribution_def
        eligible_iff blanks letters_not_blank case_ids_differ found)
qed

definition ready_binding :: EvidenceBinding where
  "ready_binding = \<lparr>binding_schema_version = RT0_EVIDENCE_BINDING_SCHEMA, binding_candidate_sha = replicate 40 48,
     binding_release_spec_sha256 = digest_of 8, binding_suite_sha256 = digest_of 5,
     binding_provider_state_sha256 = digest_of 7\<rparr>"

definition ready_report :: BoundGoldenReport where
  "ready_report = \<lparr>evidence_input_sha256 = digest_of 6, report_binding = ready_binding,
     report_provider_state = ready_manifest, golden = ready_golden\<rparr>"

definition ready_bundle :: GoldenEvidenceBundle where
  "ready_bundle = \<lparr>bundle_binding = ready_binding, bundle_observations = ready_observations\<rparr>"

abbreviation ready_golden_context :: EvidenceVerificationContext where
  "ready_golden_context \<equiv> \<lparr>ctx_suite_bytes = [5], ctx_release_spec_bytes = [8], ctx_provider_state = ready_manifest,
     ctx_provider_state_bytes = [7], ctx_evidence_bytes = [6], ctx_exact_candidate_sha = replicate 40 48\<rparr>"

lemma candidate_valid: "valid_git_sha (replicate 40 48)"
  by (simp add: valid_git_sha_def hex_digits)

lemma ready_bound_golden:
  "evaluate_bound_golden_suite toy_sha id ready_suite ready_bundle ready_golden_context = Ok ready_report"
  by (simp add: evaluate_bound_golden_suite_def ready_bundle_def validate_binding_def ready_binding_def ready_report_def
      validate_provider_state_manifest_def ready_manifest_valid candidate_valid ready_golden)

definition ready_turn :: "ParticipantRole \<Rightarrow> ConversationTurnBinding" where
  "ready_turn r = \<lparr>audience = r, turn_input_audio_sha256 = digest_of 0, transcript_sha256 = digest_of 0, transcript_chars = 1,
     reply_sha256 = digest_of 0, reply_chars = 1, turn_locale = lit ''ru''\<rparr>"

definition ready_attempt :: ConversationAttemptBinding where
  "ready_attempt = \<lparr>attempt_schema_version = RT0_LIVE_CONVERSATION_ATTEMPT_SCHEMA, attempt_candidate_sha = replicate 40 48,
     attempt_provider_state_sha256 = digest_of 7, profile_input_sha256 = digest_of 0, persona_id_sha256 = digest_of 0,
     attempt_persona_version = 1, reviewed_claims = 1, owner_turn = ready_turn ParticipantRole.Owner,
     visitor_turn = ready_turn ParticipantRole.Visitor, conversation_attempted = True, provider_output_submitted = True\<rparr>"

definition ready_env :: exit_env where
  "ready_env =
     \<lparr>env_sha = toy_sha, env_lower = id, required_suite_bytes = [5], parse_suite = (\<lambda>_. Some ready_suite),
      parse_manifest = (\<lambda>_. Some ready_manifest),
      parse_snapshot = (\<lambda>bs. if bs = [1] then Some (session_of 1 ParticipantRole.Owner)
                              else Some (session_of 2 ParticipantRole.Visitor)),
      encode_snapshot = toy_encode, parse_conversation = (\<lambda>_. Some ready_attempt)\<rparr>"

definition ready_bound :: BoundLabSessionEvidenceAggregate where
  "ready_bound = \<lparr>bound_schema_version = RT0_OWNER_LAB_SESSION_BINDING_SCHEMA, bound_candidate_sha = replicate 40 48,
     bound_provider_state_sha256 = digest_of 7, snapshot_sha256 = [digest_of 1, digest_of 2], aggregate = sample_aggregate\<rparr>"

lemma ready_bound: "bind_owner_lab_session_evidence ready_env [[1], [2]] [7] (replicate 40 48) = Ok ready_bound"
  by (simp add: bind_owner_lab_session_evidence_def candidate_valid ready_env_def ready_manifest_valid Let_def
      toy_digests toy_digests [symmetric] sample_aggregate(1) ready_bound_def)

definition ready_conversation :: "ParticipantRole \<Rightarrow> ConversationEvidence" where
  "ready_conversation r = \<lparr>conv_origin = Real, conv_role = r, russian = Passed, voice = Passed, video = Passed,
     completed_turns = 2, interruption_exercised = Passed, conv_artifact_sha256 = digest_of 0\<rparr>"

definition ready_evidence :: Rt0ExitEvidence where
  "ready_evidence =
     \<lparr>exit_schema_version = RT0_EXIT_EVIDENCE_SCHEMA, candidate_sha = replicate 40 48, release_spec_sha256 = digest_of 8,
      golden_report_sha256 = digest_of 9, owner_golden_suite_sha256 = digest_of 5,
      owner_golden_evidence_sha256 = digest_of 6, owner_golden_report_sha256 = digest_of 9,
      provider_state_sha256 = digest_of 7, live_provider_probe_sha256 = digest_of 10,
      conversation_attempt_sha256 = digest_of 11, bound_session_aggregate_sha256 = digest_of 12,
      automated = \<lparr>ci = \<lparr>check_status_of = Passed, check_artifact_sha256 = digest_of 0\<rparr>,
                   e2e = \<lparr>check_status_of = Passed, check_artifact_sha256 = digest_of 0\<rparr>\<rparr>,
      conversations = \<lparr>owner_conv = ready_conversation ParticipantRole.Owner,
                       visitor_conv = ready_conversation ParticipantRole.Visitor\<rparr>,
      acceptance = \<lparr>acceptance_origin = Real, owner_happy_path = Passed, visitor_happy_path = Passed,
                    correction_path = Passed, failure_recovery_path = Passed, revoke_deny_path = Passed,
                    acceptance_artifact_sha256 = digest_of 0\<rparr>,
      quality = sample_quality\<lparr>quality_artifact_sha256 := digest_of 0\<rparr>,
      cost = \<lparr>cost_origin = Real, estimated_cost_covered_provider_roles = [Stt, Llm, Avatar],
              provider_charge_covered_provider_roles = [], measured_duration_millis = 2000,
              cost_estimated_microunits = Some 5, cost_charge_microunits = None, cost_artifact_sha256 = digest_of 0\<rparr>,
      privacy_permissions = \<lparr>privacy_origin = Real, permission_suite = Passed, accepted_private_context_leakage = 0,
        accepted_false_owner_attribution = 0, revocation = Passed, egress_denial = Passed,
        privacy_artifact_sha256 = digest_of 0\<rparr>,
      human_evaluation = \<lparr>human_origin = Real, rubric_version = lit ''q'', reviewer_count = 1,
        owner_human_participant_verified = Passed, visitor_distinct_non_owner_human_verified = Passed,
        dimensions = \<lparr>voice_similarity = Recorded, voice_naturalness = Recorded, appearance_plausibility = Recorded,
          persona_similarity = Recorded, conversation_naturalness = Recorded\<rparr>,
        usable_for_continuation = Passed, human_artifact_sha256 = digest_of 0\<rparr>,
      known_limitations = \<lparr>review_status = Passed, document_sha256 = digest_of 0\<rparr>\<rparr>"

definition ready_probe :: LiveProviderProbeReceipt where
  "ready_probe =
     (let usage = \<lparr>probe_input_units = None, probe_input_unit = None, probe_output_units = None, probe_output_unit = None,
                   probe_estimated_cost = None, probe_provider_charge = None\<rparr>
      in \<lparr>probe_schema_version = RT0_LIVE_PROVIDER_PROBE_SCHEMA, probe_candidate_sha = replicate 40 48,
          probe_provider_state_sha256 = digest_of 7, probe_input_audio_sha256 = digest_of 0, probe_input_audio_millis = 1,
          probe_scope = lit ''credentialed_provider_reachability_only'', conversation_evidence = False,
          output_delivery_proven = False,
          stt_probe = \<lparr>stt_latency_millis = 1, stt_transcript_chars = 1, stt_probe_usage = usage\<rparr>,
          llm_probe = \<lparr>llm_latency_millis = 1, llm_output_chars = 1, llm_probe_usage = usage\<rparr>,
          avatar_probe = \<lparr>open_millis = 1, close_millis = 1\<rparr>\<rparr>)"

definition ready_context :: Rt0ExitVerificationContext where
  "ready_context =
     \<lparr>exit_evidence_bytes = [13], golden_report_bytes = [9], golden_evidence_bundle = ready_bundle,
      golden_evidence_bytes = [6],
      owner_golden = \<lparr>og_suite = ready_suite, og_suite_bytes = [5], og_report = ready_report, og_report_bytes = [9],
                      og_evidence_bundle = ready_bundle, og_evidence_bytes = [6]\<rparr>,
      provider_state = ready_manifest, provider_state_bytes = [7], live_provider_probe = ready_probe,
      live_provider_probe_bytes = [10], conversation_attempt_bytes = [11], bound_session_aggregate = ready_bound,
      bound_session_aggregate_bytes = [12], session_snapshot_artifacts = [[1], [2]], release_spec_bytes = [8],
      exact_candidate_sha = replicate 40 48\<rparr>"

lemma ready_env_simps [simp]:
  "env_sha ready_env = toy_sha" "env_lower ready_env = id" "required_suite_bytes ready_env = [5]"
  "parse_suite ready_env bs = Some ready_suite" "parse_conversation ready_env bs = Some ready_attempt"
  by (simp_all add: ready_env_def)

lemma ready_digests: "validate_digests ready_env ready_evidence ready_report ready_context = Ok ()"
  by (simp add: validate_digests_def ready_evidence_def ready_context_def ready_report_def ready_binding_def
      evidence_digests_def candidate_valid ready_manifest_valid)

lemma ready_probe: "validate_live_provider_probe ready_probe (replicate 40 48) (digest_of 7) = Ok ()"
  by (simp add: validate_live_provider_probe_def ready_probe_def Let_def)

lemma ready_conversations:
  "validate_rt0_conversation_evidence_binding ready_env ready_evidence [11] [[1], [2]] (replicate 40 48) (digest_of 7) = Ok ()"
proof -
  have attempt: "validate_conversation_attempt_binding ready_attempt (replicate 40 48) (digest_of 7) = Ok ()"
  proof -
    have "\<not> blank (lit ''ru'')" by (simp add: blank_iff lit_def is_whitespace_def)
    then show ?thesis
      by (simp add: validate_conversation_attempt_binding_def ready_attempt_def candidate_valid valid_conversation_turn_def
          ready_turn_def word_gt_0)
  qed
  have snaps: "parse_role_bound_snapshots ready_env [[1], [2]] (replicate 40 48) (digest_of 7) = Ok sample_sessions"
    by (simp add: parse_role_bound_snapshots_def parse_role_bound_snapshot_def ready_env_def)
  have proofs: "derive_role_conversation_proof sample_sessions r = Ok \<lparr>proof_completed_turns = 2,
      sessions_with_completed_turns = 1, playback_sessions = 1, video_sessions = 1, proof_interruption_exercised = True\<rparr>" for r
    by (cases r)
      (simp_all add: derive_role_conversation_proof_def prove_session_def proof_default_def checked_add_def)
  have turns: "owner_turn ready_attempt = ready_turn ParticipantRole.Owner"
    "visitor_turn ready_attempt = ready_turn ParticipantRole.Visitor"
    by (simp_all add: ready_attempt_def)
  have "is_russian_locale (lit ''ru'')"
    by (simp add: is_russian_locale_def trim_def lit_def is_whitespace_def to_ascii_lowercase_def Let_def)
  then have "derived_part (ready_conversation r) = conversation_evidence_from (ready_turn r) r \<lparr>proof_completed_turns = 2,
      sessions_with_completed_turns = 1, playback_sessions = 1, video_sessions = 1, proof_interruption_exercised = True\<rparr>" for r
    by (simp add: derived_part_def ready_conversation_def conversation_evidence_from_def ready_turn_def check_status_def
        word_gt_0)
  then show ?thesis
    unfolding conversation_binding_iff
    by (intro exI [of _ ready_attempt] exI [of _ sample_sessions] exI)
      (auto simp: attempt snaps proofs ready_evidence_def turns)
qed

lemma ready_runtime: "validate_runtime_evidence ready_env ready_evidence ready_context (digest_of 7) = Ok ()"
proof -
  have valid: "validate_bound_session_aggregate ready_bound (replicate 40 48) (digest_of 7) = Ok ()"
    using bound_aggregate_valid [OF ready_bound] by simp
  have agg: "aggregate ready_bound = sample_aggregate" by (simp add: ready_bound_def)
  have "derived_quality (quality ready_evidence) = sample_quality"
    using quality_from_aggregate_Ok(1) [OF sample_quality(1)] by (simp add: ready_evidence_def derived_quality_def)
  then have q: "validate_session_quality_binding ready_evidence sample_aggregate = Ok ()"
    by (simp add: validate_quality_binding_iff sample_quality(1))
  have c: "validate_session_cost_binding ready_evidence sample_aggregate = Ok ()"
    by (simp add: validate_session_cost_binding_def validate_cost_lower_bound_def sample_aggregate(3-5) ready_evidence_def)
  show ?thesis
    unfolding validate_runtime_evidence_iff
    using ready_conversations ready_bound valid q c agg by (simp add: ready_context_def) (simp add: ready_evidence_def)
qed

lemma ready_golden_checks:
  "validate_public_golden ready_env ready_report ready_context = Ok ()" "verify_private_owner_golden ready_env ready_context = Ok ()"
proof -
  have "validate_golden_report ready_report = Ok ()"
    by (simp add: validate_golden_report_def ready_report_def ready_binding_def ready_manifest_valid ready_golden_def
        letters_not_blank case_ids_differ usize_checked_add_def)
  then show "validate_public_golden ready_env ready_report ready_context = Ok ()"
    by (simp add: validate_public_golden_def ready_context_def ready_bound_golden)
  have "validate_owner_suite ready_suite = Ok ()"
    by (simp add: validate_owner_suite_def ready_suite_def starts_with_def lit_def)
  then show "verify_private_owner_golden ready_env ready_context = Ok ()"
    by (simp add: verify_private_owner_golden_def evaluate_bound_owner_golden_suite_def ready_context_def ready_bound_golden)
qed

lemma ready_structure: "validate_structure ready_env ready_evidence ready_report ready_context = Ok ()"
proof -
  have artifacts: "validate_artifact_digests ready_evidence = Ok ()"
    by (simp add: validate_artifact_digests_def evidence_artifacts_def ready_evidence_def ready_conversation_def)
  have rest: "conv_role (owner_conv (conversations ready_evidence)) = ParticipantRole.Owner"
    "conv_role (visitor_conv (conversations ready_evidence)) = ParticipantRole.Visitor"
    "\<not> blank (rubric_version (human_evaluation ready_evidence))"
    by (simp_all add: ready_evidence_def ready_conversation_def letters_not_blank)
  have given: "provider_state_bytes ready_context = [7]" "live_provider_probe ready_context = ready_probe"
    "exact_candidate_sha ready_context = replicate 40 48"
    by (simp_all add: ready_context_def)
  show ?thesis
    by (simp add: validate_structure_def ready_digests ready_probe ready_runtime ready_golden_checks artifacts rest given)
qed

lemma ready_verdict: "exit_failures ready_evidence ready_report ready_context = []"
proof -
  have "quality_within_limits (quality ready_evidence)"
    using sample_quality(2) by (simp add: quality_within_limits_def ready_evidence_def)
  moreover have "conversations_real (conversations ready_evidence)"
    by (simp add: conversations_real_def conversation_complete_def ready_evidence_def ready_conversation_def word_gt_0)
  moreover have "\<not> uses_tts ready_manifest" by (simp add: uses_tts_def ready_manifest_def)
  then have "cost_measured (uses_tts ready_manifest) (cost ready_evidence)"
    by (simp add: cost_measured_def signal_complete_def coverage_complete_iff ready_evidence_def word_gt_0)
  moreover have "humans_reviewed v (human_evaluation ready_evidence)" for v
    by (simp add: humans_reviewed_def human_review_complete_def voice_review_valid_def ready_evidence_def)
  moreover have "acceptance_passed (acceptance ready_evidence)" "privacy_passed (privacy_permissions ready_evidence)"
    by (simp_all add: acceptance_passed_def privacy_passed_def ready_evidence_def)
  ultimately show ?thesis
    unfolding exit_failures_Nil_iff
    by (simp add: ready_context_def ready_report_def golden_not_passed_def ready_golden_def)
      (simp add: ready_evidence_def)
qed


end
