(* ===== verification/VPR_Avatar.thy ===== *)
theory VPR_Avatar
  imports VPR_Delivery
begin

text \<open>
  Realtime avatars (\<^verbatim>\<open>crates/vpr-integration/src/avatar.rs\<close> and \<^verbatim>\<open>crates/vpr-runtime/src/avatar_runtime.rs\<close>,
  \<^verbatim>\<open>avatar_output_error.rs\<close>, \<^verbatim>\<open>audio_stage_timing.rs\<close>): handles on a provider's avatar session, signaling, speaking text
  and speech, client commands, interruption and cleanup.

  The avatar provider is code behind the trait \<open>RealtimeAvatarPort\<close>: a record of its methods. They run with no
  lock held, so each answers with its result, the outside world and the state other threads have left the session
  in by then. A speech provider pushes audio into a sealed sink while other threads run: it is a tree of
  interactions. \<open>others\<close> is what other threads do at the numbered pauses of a method, and \<open>instant\<close> reads the
  monotonic clock, in nanoseconds.
\<close>

section \<open>Contracts\<close>

record WebRtcSessionDescription =
  sdp_kind :: rust_string
  sdp :: rust_string

record WebRtcIceServer =
  urls :: "rust_string list"
  username :: "rust_string option"
  credential :: "rust_string option"

record WebRtcIceCandidate =
  candidate :: "rust_string option"
  sdp_mid :: "rust_string option"
  sdp_mline_index :: "u16 option"

datatype RealtimeAvatarTransport =
    WebRtc WebRtcSessionDescription "WebRtcIceServer list"
  | LiveKit rust_string rust_string

record RealtimeAvatarSession =
  provider_resource_id :: rust_string
  provider_session_id :: rust_string
  avatar_transport :: RealtimeAvatarTransport

datatype RealtimeAvatarCapability = TextInput | AudioUrlInput | AudioPcmInput | AudioPcmStreamInput | InterruptInput

datatype RealtimeAvatarClientRoute = WebRtcDataChannel rust_string | LiveKitTextTopic rust_string

record RealtimeAvatarClientControl =
  event_route :: "RealtimeAvatarClientRoute option"
  control_interrupt :: bool
  interrupt_requires_playback_id :: bool
  text_input :: bool

datatype RealtimeAvatarClientEvent =
    PlaybackStarted rust_string | PlaybackDone | VideoGenerationStarted | VideoGenerationDone | VideoGenerationFailed
  | Informational | UnknownChatEvent | UnknownVideoEvent | UnknownToolEvent | UnknownOtherEvent

record RealtimeAvatarClientCommand =
  command_route :: RealtimeAvatarClientRoute
  payload :: rust_string

record RealtimeAvatarCapabilities =
  supported :: "RealtimeAvatarCapability list"

definition RealtimeAvatarCapabilities_new :: "RealtimeAvatarCapability list \<Rightarrow> RealtimeAvatarCapabilities" where
  "RealtimeAvatarCapabilities_new cs =
     \<lparr>supported = fold (\<lambda>c acc. if c \<in> set acc then acc else acc @ [c]) cs []\<rparr>"

definition supports :: "RealtimeAvatarCapabilities \<Rightarrow> RealtimeAvatarCapability \<Rightarrow> bool" where
  "supports self c \<longleftrightarrow> c \<in> set (supported self)"

text \<open>The methods of a provider and of the streams it opens; a stream is named by a value of type \<open>'st\<close>, and a
  cancellation probe is what it answers in each state of the session.\<close>

type_synonym ('x, 'a) avatar_call = "(runtime \<Rightarrow> bool) \<Rightarrow> ('x \<times> runtime, 'a, ProviderError) op"

record ('x, 'st) RealtimeAvatarPort =
  descriptor :: ProviderDescriptor
  capabilities :: RealtimeAvatarCapabilities
  create_session :: "('x, RealtimeAvatarSession) avatar_call"
  port_submit_answer :: "RealtimeAvatarSession \<Rightarrow> WebRtcSessionDescription \<Rightarrow> ('x, unit) avatar_call"
  submit_ice_candidate :: "RealtimeAvatarSession \<Rightarrow> WebRtcIceCandidate \<Rightarrow> ('x, unit) avatar_call"
  speak_text :: "RealtimeAvatarSession \<Rightarrow> rust_string \<Rightarrow> ('x, unit) avatar_call"
  speak_pcm :: "RealtimeAvatarSession \<Rightarrow> byte list \<Rightarrow> u32 \<Rightarrow> u16 \<Rightarrow> ('x, unit) avatar_call"
  open_pcm_stream :: "RealtimeAvatarSession \<Rightarrow> u32 \<Rightarrow> u16 \<Rightarrow> ('x, 'st) avatar_call"
  push_pcm :: "'st \<Rightarrow> byte list \<Rightarrow> ('x, unit) avatar_call"
  finish_pcm :: "'st \<Rightarrow> ('x, unit) avatar_call"
  abort_pcm :: "'st \<Rightarrow> ('x \<times> runtime, unit, ProviderError) op"
  speak_audio_url :: "RealtimeAvatarSession \<Rightarrow> rust_string \<Rightarrow> ('x, unit) avatar_call"
  port_interrupt :: "RealtimeAvatarSession \<Rightarrow> ('x, unit) avatar_call"
  port_client_control :: "RealtimeAvatarSession \<Rightarrow> RealtimeAvatarClientControl option"
  parse_client_event :: "RealtimeAvatarSession \<Rightarrow> rust_string \<Rightarrow> ProviderError + RealtimeAvatarClientEvent option"
  prepare_client_text :: "RealtimeAvatarSession \<Rightarrow> rust_string \<Rightarrow> ('x, RealtimeAvatarClientCommand) avatar_call"
  prepare_client_interrupt ::
    "RealtimeAvatarSession \<Rightarrow> rust_string option \<Rightarrow> ('x, RealtimeAvatarClientCommand) avatar_call"
  close_session :: "RealtimeAvatarSession \<Rightarrow> ('x \<times> runtime, unit, ProviderError) op"

text \<open>The methods the trait gives a body: a provider that implements only the others has these.\<close>

definition provider_unavailable :: ProviderError where
  "provider_unavailable = \<lparr>provider_error_kind = ProviderErrorKind.Unavailable, provider_retryable = False\<rparr>"

definition RealtimeAvatarPort_defaults :: "('x, 'st) RealtimeAvatarPort \<Rightarrow> ('x, 'st) RealtimeAvatarPort" where
  "RealtimeAvatarPort_defaults port =
     port\<lparr>speak_pcm := \<lambda>_ _ _ _ _ w. (Err provider_unavailable, w),
          open_pcm_stream := \<lambda>_ _ _ _ w. (Err provider_unavailable, w),
          port_interrupt := \<lambda>_ _ w. (Err provider_unavailable, w),
          port_client_control := \<lambda>_. None,
          parse_client_event := \<lambda>_ _. Ok None,
          prepare_client_text := \<lambda>_ _ _ w. (Err provider_unavailable, w),
          prepare_client_interrupt := \<lambda>_ _ _ w. (Err provider_unavailable, w)\<rparr>"

section \<open>Speech providers\<close>

text \<open>What a speech provider does while it holds the sink: it pushes a chunk and sees the answer, looks at the
  cancellation probe, lets time pass while others run, or returns.\<close>

datatype 'x synthesis =
    Return "ProviderError + UsageEvidence"
  | Push audio_chunk "ProviderError + unit \<Rightarrow> 'x synthesis"
  | Probe "bool \<Rightarrow> 'x synthesis"
  | Pause "'x \<times> runtime \<Rightarrow> 'x \<times> runtime" "'x synthesis"

definition paused :: "('x \<times> runtime \<Rightarrow> 'x \<times> runtime) \<Rightarrow> ('k \<times> 'x) \<times> runtime \<Rightarrow> ('k \<times> 'x) \<times> runtime" where
  "paused f = (\<lambda>((k, x), s). case f (x, s) of (x', s') \<Rightarrow> ((k, x'), s'))"

primrec synthesize ::
  "(audio_chunk \<Rightarrow> (('k \<times> 'x) \<times> runtime, unit, ProviderError) op) \<Rightarrow> 'x synthesis
     \<Rightarrow> ('k \<times> 'x, UsageEvidence) provider_operation" where
  "synthesize push (Return r) c w = (r, w)"
| "synthesize push (Push chunk k) c w = (case push chunk w of (r, w') \<Rightarrow> synthesize push (k r) c w')"
| "synthesize push (Probe k) c w = synthesize push (k (ProviderCancellation_is_cancelled c (snd w))) c w"
| "synthesize push (Pause f k) c w = synthesize push k c (paused f w)"

record TtsRequest =
  tts_text :: rust_string
  locale_hint :: "rust_string option"

type_synonym 'x tts_port = "TtsRequest \<Rightarrow> 'x synthesis"

definition push_buffer :: "audio_chunk \<Rightarrow> ((GeneratedAudioBuffer \<times> 'x) \<times> runtime, unit, ProviderError) op" where
  "push_buffer chunk = (\<lambda>((audio, x), s). case push_generated_audio chunk audio of (r, audio') \<Rightarrow> (r, ((audio', x), s)))"

text \<open>The streaming sink's callback also uses the provider and the session: its state carries them.\<close>

definition push_streaming ::
  "('p \<times> ('x \<times> runtime)) pcm_receiver \<Rightarrow> audio_chunk
     \<Rightarrow> ((('p \<times> ('x \<times> runtime)) GeneratedAudioStreamingSink \<times> 'x) \<times> runtime, unit, ProviderError) op" where
  "push_streaming emit chunk = (\<lambda>((sink, x), s).
     (case stream_generated_audio emit chunk (sink\<lparr>emit_state := (fst (emit_state sink), (x, s))\<rparr>) of
        (r, sink') \<Rightarrow> (case snd (emit_state sink') of (x', s') \<Rightarrow> (r, ((sink', x'), s')))))"

section \<open>Errors and timings\<close>

datatype RealtimeAvatarOutputError = Runtime Rt0ReasonCode | Provider ProviderExecutionError

fun avatar_output_reason_code :: "RealtimeAvatarOutputError \<Rightarrow> Rt0ReasonCode" where
  "avatar_output_reason_code (RealtimeAvatarOutputError.Runtime reason) = reason"
| "avatar_output_reason_code (RealtimeAvatarOutputError.Provider error) = execution_reason_code error"

record RealtimeAudioStageTimings =
  first_pcm_millis :: u64
  first_echo_send_millis :: u64

definition elapsed_stage :: "nat \<Rightarrow> nat \<Rightarrow> u64" where
  "elapsed_stage started now = of_nat (min ((now - started) div 1000000) (2 ^ 64 - 1))"

section \<open>Handles\<close>

record RealtimeAvatarHandle =
  avatar_session_id :: SessionId
  avatar_provider :: ProviderDescriptor
  provider_session :: RealtimeAvatarSession
  client_control :: "RealtimeAvatarClientControl option"
  avatar_closed :: bool

text \<open>A stop handle is the provider and the session it may interrupt.\<close>

record ('x, 'st) RealtimeAvatarStopHandle =
  stop_provider :: "('x, 'st) RealtimeAvatarPort"
  stop_session :: RealtimeAvatarSession

definition backend_stop_handle ::
  "RealtimeAvatarHandle \<Rightarrow> ('x, 'st) RealtimeAvatarPort \<Rightarrow> ('x, 'st) RealtimeAvatarStopHandle option" where
  "backend_stop_handle self provider =
     (if avatar_closed self \<or>
         \<not> (case avatar_transport (provider_session self) of LiveKit _ _ \<Rightarrow> True | WebRtc _ _ \<Rightarrow> False) \<or>
         \<not> is_some_and (\<lambda>control. \<not> control_interrupt control \<and> \<not> text_input control) (client_control self)
      then None
      else Some \<lparr>stop_provider = provider, stop_session = provider_session self\<rparr>)"

text \<open>\<open>StopCleanup\<close> is a probe that is never cancelled.\<close>

definition StopCleanup :: "runtime \<Rightarrow> bool" where
  "StopCleanup s = False"

definition stop_handle_stop ::
  "('x, 'st) RealtimeAvatarStopHandle \<Rightarrow> ('x \<times> runtime, unit, ProviderExecutionError) op" where
  "stop_handle_stop self w =
     (case port_interrupt (stop_provider self) (stop_session self) StopCleanup w of
        (r, w') \<Rightarrow> (map_err ProviderExecutionError.Provider r, w'))"

section \<open>Permits\<close>

definition validate_avatar_handle ::
  "ActiveTurn \<Rightarrow> ('x, 'st) RealtimeAvatarPort \<Rightarrow> RealtimeAvatarHandle \<Rightarrow> ProviderExecutionError + unit" where
  "validate_avatar_handle self port handle =
     (if avatar_closed handle \<or> avatar_session_id handle \<noteq> at_session_id self \<or> avatar_provider handle \<noteq> descriptor port
      then Err (Denied InvalidTurnState) else Ok ())"

definition avatar_permit ::
  "(runtime \<Rightarrow> runtime) \<Rightarrow> ActiveTurn \<Rightarrow> (runtime, ProviderExecutionPermit, ProviderExecutionError) op" where
  "avatar_permit between self s =
     (case issue_provider_operation between self Avatar s of (r, s') \<Rightarrow> (map_err Denied r, s'))"

text \<open>The shapes the methods share: a validated handle; a permit that is held until the method returns; a call of the
  provider; a segment that is opened, and one that is recorded as sent. \<open>err\<close> is the error type of the method.\<close>

definition validated ::
  "ActiveTurn \<Rightarrow> ('x, 'st) RealtimeAvatarPort \<Rightarrow> RealtimeAvatarHandle \<Rightarrow> (ProviderExecutionError \<Rightarrow> 'e)
     \<Rightarrow> ('x \<times> runtime, 'a, 'e) op \<Rightarrow> ('x \<times> runtime, 'a, 'e) op" where
  "validated self port handle err body w =
     (case validate_avatar_handle self port handle of Err e \<Rightarrow> (Err (err e), w) | Ok _ \<Rightarrow> body w)"

definition with_permit ::
  "(runtime \<Rightarrow> runtime) \<Rightarrow> ActiveTurn \<Rightarrow> (ProviderExecutionError \<Rightarrow> 'e)
     \<Rightarrow> ((runtime \<Rightarrow> bool) \<Rightarrow> ('x \<times> runtime, 'a, 'e) op) \<Rightarrow> ('x \<times> runtime, 'a, 'e) op" where
  "with_permit between self err body = (\<lambda>(x, s).
     (case avatar_permit between self s of
        (Err e, s') \<Rightarrow> (Err (err e), (x, s'))
      | (Ok permit, s') \<Rightarrow>
          (case body (ProviderCancellation_is_cancelled (permit_cancellation permit)) (x, s') of
             (r, (x', s'')) \<Rightarrow> (r, (x', permit_drop permit s'')))))"

definition call_port ::
  "(ProviderExecutionError \<Rightarrow> 'e) \<Rightarrow> ('x, 'a) avatar_call \<Rightarrow> (runtime \<Rightarrow> bool) \<Rightarrow> ('x \<times> runtime, 'a, 'e) op" where
  "call_port err call probe w = (case call probe w of (r, w') \<Rightarrow> (map_err (err \<circ> ProviderExecutionError.Provider) r, w'))"

definition with_segment ::
  "(runtime \<Rightarrow> runtime) \<Rightarrow> ActiveTurn \<Rightarrow> (OutputDeliveryHandle \<Rightarrow> ('x \<times> runtime, 'a, RealtimeAvatarOutputError) op)
     \<Rightarrow> ('x \<times> runtime, 'a, RealtimeAvatarOutputError) op" where
  "with_segment between self body = (\<lambda>(x, s).
     (case begin_output_segment self (between s) of
        (Err e, s') \<Rightarrow> (Err (RealtimeAvatarOutputError.Runtime e), (x, s'))
      | (Ok i, s') \<Rightarrow> body \<lparr>handle_turn_id = snap_turn_id (at_snapshot self), handle_segment_id = i\<rparr> (x, s')))"

definition confirm_sent ::
  "ActiveTurn \<Rightarrow> OutputDeliveryHandle \<Rightarrow> ('x \<times> runtime, unit, RealtimeAvatarOutputError) op" where
  "confirm_sent self delivery = (\<lambda>(x, s).
     (case acknowledge_output_sent self delivery s of
        (r, s') \<Rightarrow> (map_err RealtimeAvatarOutputError.Runtime r, (x, s'))))"

section \<open>Opening and signaling\<close>

definition open_realtime_avatar ::
  "('x, 'st) RealtimeAvatarPort \<Rightarrow> (runtime \<Rightarrow> runtime) \<Rightarrow> ActiveTurn
     \<Rightarrow> ('x \<times> runtime, RealtimeAvatarHandle, ProviderExecutionError) op" where
  "open_realtime_avatar port between self =
     with_permit between self id (\<lambda>probe w.
       (case create_session port probe w of
          (Err e, w') \<Rightarrow> (Err (ProviderExecutionError.Provider e), w')
        | (Ok session, w') \<Rightarrow>
            (if probe (snd w') then
               (case close_session port session w' of (_, w'') \<Rightarrow> (Err (Denied TurnCancelled), w''))
             else (Ok \<lparr>avatar_session_id = at_session_id self, avatar_provider = descriptor port,
                       provider_session = session, client_control = port_client_control port session,
                       avatar_closed = False\<rparr>, w'))))"

definition submit_realtime_avatar_answer ::
  "('x, 'st) RealtimeAvatarPort \<Rightarrow> RealtimeAvatarHandle \<Rightarrow> WebRtcSessionDescription \<Rightarrow> (runtime \<Rightarrow> runtime) \<Rightarrow> ActiveTurn
     \<Rightarrow> ('x \<times> runtime, unit, ProviderExecutionError) op" where
  "submit_realtime_avatar_answer port handle answer between self =
     validated self port handle id
       (with_permit between self id (call_port id (port_submit_answer port (provider_session handle) answer)))"

definition submit_realtime_avatar_ice ::
  "('x, 'st) RealtimeAvatarPort \<Rightarrow> RealtimeAvatarHandle \<Rightarrow> WebRtcIceCandidate \<Rightarrow> (runtime \<Rightarrow> runtime) \<Rightarrow> ActiveTurn
     \<Rightarrow> ('x \<times> runtime, unit, ProviderExecutionError) op" where
  "submit_realtime_avatar_ice port handle cand between self =
     validated self port handle id
       (with_permit between self id (call_port id (submit_ice_candidate port (provider_session handle) cand)))"

section \<open>Speaking\<close>

definition speak_realtime_avatar_text ::
  "('x, 'st) RealtimeAvatarPort \<Rightarrow> RealtimeAvatarHandle \<Rightarrow> rust_string \<Rightarrow> (runtime \<Rightarrow> runtime) \<Rightarrow> ActiveTurn
     \<Rightarrow> ('x \<times> runtime, unit, ProviderExecutionError) op" where
  "speak_realtime_avatar_text port handle msg between self =
     validated self port handle id
       (with_permit between self id (call_port id (speak_text port (provider_session handle) msg)))"

text \<open>A segment whose content the provider accepts is recorded as sent; otherwise it stays as it is.\<close>

definition submit_segment ::
  "('x, unit) avatar_call \<Rightarrow> (runtime \<Rightarrow> runtime) \<Rightarrow> ActiveTurn \<Rightarrow> (runtime \<Rightarrow> bool)
     \<Rightarrow> ('x \<times> runtime, OutputDeliveryHandle, RealtimeAvatarOutputError) op" where
  "submit_segment call between self probe =
     with_segment between self (\<lambda>delivery w.
       (case call_port RealtimeAvatarOutputError.Provider call probe w of
          (Err e, w') \<Rightarrow> (Err e, w')
        | (Ok _, w') \<Rightarrow>
            (case confirm_sent self delivery w' of (Err e, w'') \<Rightarrow> (Err e, w'') | (Ok _, w'') \<Rightarrow> (Ok delivery, w''))))"

definition deliver_realtime_avatar_text ::
  "('x, 'st) RealtimeAvatarPort \<Rightarrow> RealtimeAvatarHandle \<Rightarrow> rust_string \<Rightarrow> (nat \<Rightarrow> runtime \<Rightarrow> runtime) \<Rightarrow> ActiveTurn
     \<Rightarrow> ('x \<times> runtime, OutputDeliveryHandle, RealtimeAvatarOutputError) op" where
  "deliver_realtime_avatar_text port handle msg others self =
     validated self port handle RealtimeAvatarOutputError.Provider
       (with_permit (others 0) self RealtimeAvatarOutputError.Provider
         (submit_segment (speak_text port (provider_session handle) msg) (others 1) self))"

definition invalid_avatar_audio :: ProviderExecutionError where
  "invalid_avatar_audio =
     ProviderExecutionError.Provider \<lparr>provider_error_kind = ProviderErrorKind.InvalidResponse, provider_retryable = False\<rparr>"

definition tts_request :: "rust_string \<Rightarrow> TtsRequest" where
  "tts_request msg = \<lparr>tts_text = msg, locale_hint = Some (lit ''ru'')\<rparr>"

definition authorized_realtime_pcm ::
  "'x tts_port \<Rightarrow> rust_string \<Rightarrow> (runtime \<Rightarrow> runtime) \<Rightarrow> ActiveTurn
     \<Rightarrow> ('x \<times> runtime, GeneratedAudioBuffer, ProviderExecutionError) op" where
  "authorized_realtime_pcm tts msg between self = (\<lambda>(x, s).
     (case execute_tts (\<lambda>request. synthesize push_buffer (tts request)) (tts_request msg) between self
             ((GeneratedAudioBuffer_default, x), s) of
        (Err e, ((_, x'), s')) \<Rightarrow> (Err e, (x', s'))
      | (Ok _, ((audio, x'), s')) \<Rightarrow>
          (if buffer_sample_format audio \<noteq> Some S16Le then (Err invalid_avatar_audio, (x', s'))
           else (Ok audio, (x', s')))))"

definition speak_buffer ::
  "('x, 'st) RealtimeAvatarPort \<Rightarrow> RealtimeAvatarHandle \<Rightarrow> GeneratedAudioBuffer \<Rightarrow> ('x, unit) avatar_call" where
  "speak_buffer port handle audio =
     speak_pcm port (provider_session handle) (buffer_pcm audio)
       (case buffer_sample_rate_hz audio of None \<Rightarrow> 0 | Some rate \<Rightarrow> rate)
       (case buffer_channels audio of None \<Rightarrow> 0 | Some channels \<Rightarrow> channels)"

definition speak_realtime_avatar_text_with_tts ::
  "'x tts_port \<Rightarrow> ('x, 'st) RealtimeAvatarPort \<Rightarrow> RealtimeAvatarHandle \<Rightarrow> rust_string \<Rightarrow> (nat \<Rightarrow> runtime \<Rightarrow> runtime)
     \<Rightarrow> ActiveTurn \<Rightarrow> ('x \<times> runtime, unit, ProviderExecutionError) op" where
  "speak_realtime_avatar_text_with_tts tts port handle msg others self =
     validated self port handle id (\<lambda>w.
       (case authorized_realtime_pcm tts msg (others 0) self w of
          (Err e, w') \<Rightarrow> (Err e, w')
        | (Ok audio, w') \<Rightarrow>
            with_permit (others 1) self id (call_port id (speak_buffer port handle audio)) w'))"

definition speak_realtime_avatar_audio_url ::
  "('x, 'st) RealtimeAvatarPort \<Rightarrow> RealtimeAvatarHandle \<Rightarrow> rust_string \<Rightarrow> (runtime \<Rightarrow> runtime) \<Rightarrow> ActiveTurn
     \<Rightarrow> ('x \<times> runtime, unit, ProviderExecutionError) op" where
  "speak_realtime_avatar_audio_url port handle audio_url between self =
     validated self port handle id
       (with_permit between self id (call_port id (speak_audio_url port (provider_session handle) audio_url)))"

section \<open>Streaming an utterance\<close>

text \<open>What the closure \<open>send\<close> captures by mutable reference.\<close>

record 'st pcm_stages =
  stage_first_pcm :: "u64 option"
  stage_first_echo :: "u64 option"
  published :: "'st option"

definition get_or_insert :: "'a option \<Rightarrow> 'a \<Rightarrow> 'a option" where
  "get_or_insert slot v = (case slot of None \<Rightarrow> Some v | Some u \<Rightarrow> Some u)"

definition send_pcm ::
  "('x, 'st) RealtimeAvatarPort \<Rightarrow> RealtimeAvatarHandle \<Rightarrow> ('x \<Rightarrow> nat) \<Rightarrow> nat \<Rightarrow> (runtime \<Rightarrow> bool)
     \<Rightarrow> ('st pcm_stages \<times> ('x \<times> runtime)) pcm_receiver" where
  "send_pcm port handle instant started probe pcm rate channels = (\<lambda>(st, w).
     (if probe (snd w) then (Err \<lparr>provider_error_kind = ProviderErrorKind.Cancelled, provider_retryable = False\<rparr>, (st, w))
      else (let st1 = st\<lparr>stage_first_pcm := get_or_insert (stage_first_pcm st) (elapsed_stage started (instant (fst w)))\<rparr>;
                opened = (case published st1 of
                            Some strm \<Rightarrow> (Ok strm, w)
                          | None \<Rightarrow> open_pcm_stream port (provider_session handle) rate channels probe w)
            in case opened of
                 (Err e, w1) \<Rightarrow> (Err e, (st1, w1))
               | (Ok strm, w1) \<Rightarrow>
                   (let st2 = st1\<lparr>published := Some strm\<rparr>
                    in case push_pcm port strm pcm probe w1 of
                         (Err e, w2) \<Rightarrow> (Err e, (st2, w2))
                       | (Ok _, w2) \<Rightarrow>
                           (Ok (), (st2\<lparr>stage_first_echo :=
                                      get_or_insert (stage_first_echo st2) (elapsed_stage started (instant (fst w2)))\<rparr>, w2))))))"

definition stages_none :: "'st pcm_stages" where
  "stages_none = \<lparr>stage_first_pcm = None, stage_first_echo = None, published = None\<rparr>"

definition abort_published ::
  "('x, 'st) RealtimeAvatarPort \<Rightarrow> 'st option \<Rightarrow> 'x \<times> runtime \<Rightarrow> 'x \<times> runtime" where
  "abort_published port strm w = (case strm of None \<Rightarrow> w | Some st \<Rightarrow> snd (abort_pcm port st w))"

text \<open>What happens to the utterance after the speech provider has returned.\<close>

definition conclude_utterance ::
  "('x, 'st) RealtimeAvatarPort \<Rightarrow> ActiveTurn \<Rightarrow> (runtime \<Rightarrow> bool) \<Rightarrow> OutputDeliveryHandle
     \<Rightarrow> ProviderExecutionError + UsageEvidence \<Rightarrow> nat \<Rightarrow> 'st pcm_stages
     \<Rightarrow> ('x \<times> runtime, OutputDeliveryHandle \<times> RealtimeAudioStageTimings, RealtimeAvatarOutputError) op" where
  "conclude_utterance port self probe delivery result received_bytes st w =
     (case result of
        Err error \<Rightarrow> (Err (RealtimeAvatarOutputError.Provider error), abort_published port (published st) w)
      | Ok _ \<Rightarrow>
          (if received_bytes = 0 then
             (Err (RealtimeAvatarOutputError.Provider invalid_avatar_audio), abort_published port (published st) w)
           else (case published st of
                   None \<Rightarrow> (Err (RealtimeAvatarOutputError.Provider invalid_avatar_audio), w)
                 | Some strm \<Rightarrow>
                     (case finish_pcm port strm probe w of
                        (Err error, w1) \<Rightarrow>
                          (Err (RealtimeAvatarOutputError.Provider (ProviderExecutionError.Provider error)),
                           snd (abort_pcm port strm w1))
                      | (Ok _, w1) \<Rightarrow>
                          (case confirm_sent self delivery w1 of
                             (Err e, w2) \<Rightarrow> (Err e, w2)
                           | (Ok _, w2) \<Rightarrow>
                               (case (stage_first_pcm st, stage_first_echo st) of
                                  (Some first_pcm, Some first_echo) \<Rightarrow>
                                    (Ok (delivery, \<lparr>first_pcm_millis = first_pcm, first_echo_send_millis = first_echo\<rparr>), w2)
                                | _ \<Rightarrow> (Err (RealtimeAvatarOutputError.Provider invalid_avatar_audio), w2)))))))"

text \<open>The speech provider speaks into the stream under a permit of its own, and the utterance is concluded.\<close>

definition utter_pcm ::
  "'x tts_port \<Rightarrow> ('x, 'st) RealtimeAvatarPort \<Rightarrow> RealtimeAvatarHandle \<Rightarrow> rust_string \<Rightarrow> ('x \<Rightarrow> nat) \<Rightarrow> nat
     \<Rightarrow> (runtime \<Rightarrow> runtime) \<Rightarrow> ActiveTurn \<Rightarrow> (runtime \<Rightarrow> bool) \<Rightarrow> OutputDeliveryHandle
     \<Rightarrow> ('x \<times> runtime, OutputDeliveryHandle \<times> RealtimeAudioStageTimings, RealtimeAvatarOutputError) op" where
  "utter_pcm tts port handle msg instant started between self probe delivery = (\<lambda>(x, s).
     (case execute_tts
             (\<lambda>request. synthesize (push_streaming (send_pcm port handle instant started probe)) (tts request))
             (tts_request msg) between self ((GeneratedAudioStreamingSink_new (stages_none, (x, s)), x), s) of
        (result, ((sink, x'), s')) \<Rightarrow>
          conclude_utterance port self probe delivery result (sink_bytes sink) (fst (emit_state sink)) (x', s')))"

definition stream_and_deliver_realtime_avatar_pcm ::
  "'x tts_port \<Rightarrow> ('x, 'st) RealtimeAvatarPort \<Rightarrow> RealtimeAvatarHandle \<Rightarrow> rust_string \<Rightarrow> ('x \<Rightarrow> nat)
     \<Rightarrow> (nat \<Rightarrow> runtime \<Rightarrow> runtime) \<Rightarrow> ActiveTurn
     \<Rightarrow> ('x \<times> runtime, OutputDeliveryHandle \<times> RealtimeAudioStageTimings, RealtimeAvatarOutputError) op" where
  "stream_and_deliver_realtime_avatar_pcm tts port handle msg instant others self w =
     validated self port handle RealtimeAvatarOutputError.Provider
       (with_permit (others 0) self RealtimeAvatarOutputError.Provider (\<lambda>probe.
          with_segment (others 1) self
            (utter_pcm tts port handle msg instant (instant (fst w)) (others 2) self probe)))
       w"

definition synthesize_and_deliver_realtime_avatar_audio_with_timings ::
  "'x tts_port \<Rightarrow> ('x, 'st) RealtimeAvatarPort \<Rightarrow> RealtimeAvatarHandle \<Rightarrow> rust_string \<Rightarrow> ('x \<Rightarrow> nat)
     \<Rightarrow> (nat \<Rightarrow> runtime \<Rightarrow> runtime) \<Rightarrow> ActiveTurn
     \<Rightarrow> ('x \<times> runtime, OutputDeliveryHandle \<times> RealtimeAudioStageTimings, RealtimeAvatarOutputError) op" where
  "synthesize_and_deliver_realtime_avatar_audio_with_timings tts port handle msg instant others self w0 =
     (if supports (capabilities port) AudioPcmStreamInput then
        stream_and_deliver_realtime_avatar_pcm tts port handle msg instant others self w0
      else validated self port handle RealtimeAvatarOutputError.Provider (\<lambda>w.
        (case authorized_realtime_pcm tts msg (others 0) self w of
           (Err e, w1) \<Rightarrow> (Err (RealtimeAvatarOutputError.Provider e), w1)
         | (Ok audio, w1) \<Rightarrow>
             (let first_pcm = elapsed_stage (instant (fst w0)) (instant (fst w1))
              in case with_permit (others 1) self RealtimeAvatarOutputError.Provider
                        (submit_segment (speak_buffer port handle audio) (others 2) self) w1 of
                   (Err e, w2) \<Rightarrow> (Err e, w2)
                 | (Ok delivery, w2) \<Rightarrow>
                     (Ok (delivery, \<lparr>first_pcm_millis = first_pcm,
                                    first_echo_send_millis = elapsed_stage (instant (fst w0)) (instant (fst w2))\<rparr>), w2)))) w0)"

definition synthesize_and_deliver_realtime_avatar_audio ::
  "'x tts_port \<Rightarrow> ('x, 'st) RealtimeAvatarPort \<Rightarrow> RealtimeAvatarHandle \<Rightarrow> rust_string \<Rightarrow> ('x \<Rightarrow> nat)
     \<Rightarrow> (nat \<Rightarrow> runtime \<Rightarrow> runtime) \<Rightarrow> ActiveTurn \<Rightarrow> ('x \<times> runtime, OutputDeliveryHandle, RealtimeAvatarOutputError) op" where
  "synthesize_and_deliver_realtime_avatar_audio tts port handle msg instant others self w =
     (case synthesize_and_deliver_realtime_avatar_audio_with_timings tts port handle msg instant others self w of
        (r, w') \<Rightarrow> (map_sum id fst r, w'))"

section \<open>Client commands and cleanup\<close>

definition parse_realtime_avatar_client_event ::
  "('x, 'st) RealtimeAvatarPort \<Rightarrow> RealtimeAvatarHandle \<Rightarrow> rust_string \<Rightarrow> ActiveTurn
     \<Rightarrow> ProviderExecutionError + RealtimeAvatarClientEvent option" where
  "parse_realtime_avatar_client_event port handle message self =
     (case validate_avatar_handle self port handle of
        Err e \<Rightarrow> Err e
      | Ok _ \<Rightarrow> map_err ProviderExecutionError.Provider (parse_client_event port (provider_session handle) message))"

definition prepare_realtime_avatar_client_interrupt ::
  "('x, 'st) RealtimeAvatarPort \<Rightarrow> RealtimeAvatarHandle \<Rightarrow> rust_string option \<Rightarrow> (runtime \<Rightarrow> runtime) \<Rightarrow> ActiveTurn
     \<Rightarrow> ('x \<times> runtime, RealtimeAvatarClientCommand, ProviderExecutionError) op" where
  "prepare_realtime_avatar_client_interrupt port handle playback_id between self =
     validated self port handle id (\<lambda>w.
       (if \<not> is_some_and control_interrupt (client_control handle) then
          (Err (ProviderExecutionError.Provider provider_unavailable), w)
        else with_permit between self id
               (call_port id (prepare_client_interrupt port (provider_session handle) playback_id)) w))"

definition prepare_realtime_avatar_client_text ::
  "('x, 'st) RealtimeAvatarPort \<Rightarrow> RealtimeAvatarHandle \<Rightarrow> rust_string \<Rightarrow> (nat \<Rightarrow> runtime \<Rightarrow> runtime) \<Rightarrow> ActiveTurn
     \<Rightarrow> ('x \<times> runtime, OutputDeliveryHandle \<times> RealtimeAvatarClientCommand, RealtimeAvatarOutputError) op" where
  "prepare_realtime_avatar_client_text port handle msg others self =
     validated self port handle RealtimeAvatarOutputError.Provider
       (with_permit (others 0) self RealtimeAvatarOutputError.Provider (\<lambda>probe.
          with_segment (others 1) self (\<lambda>delivery w.
            (case call_port RealtimeAvatarOutputError.Provider
                    (prepare_client_text port (provider_session handle) msg) probe w of
               (Err e, w') \<Rightarrow> (Err e, w')
             | (Ok command, w') \<Rightarrow> (Ok (delivery, command), w')))))"

definition interrupt_realtime_avatar ::
  "('x, 'st) RealtimeAvatarPort \<Rightarrow> RealtimeAvatarHandle \<Rightarrow> (runtime \<Rightarrow> runtime) \<Rightarrow> ActiveTurn
     \<Rightarrow> ('x \<times> runtime, unit, ProviderExecutionError) op" where
  "interrupt_realtime_avatar port handle between self =
     validated self port handle id
       (with_permit between self id (call_port id (port_interrupt port (provider_session handle))))"

definition close_realtime_avatar ::
  "('x, 'st) RealtimeAvatarPort \<Rightarrow> (RealtimeAvatarHandle \<times> ('x \<times> runtime), unit, ProviderExecutionError) op" where
  "close_realtime_avatar port = (\<lambda>(handle, w).
     (if avatar_session_id handle \<noteq> session_id (rt_session (snd w)) \<or> avatar_provider handle \<noteq> descriptor port then
        (Err (Denied InvalidTurnState), (handle, w))
      else if avatar_closed handle then (Ok (), (handle, w))
      else (case close_session port (provider_session handle) w of
              (Err e, w') \<Rightarrow> (Err (ProviderExecutionError.Provider e), (handle, w'))
            | (Ok _, w') \<Rightarrow> (Ok (), (handle\<lparr>avatar_closed := True\<rparr>, w')))))"

section \<open>Segments of an avatar\<close>

lemma reconcile_sent_Ok:
  "reconcile_sent e = (Ok u, e') \<Longrightarrow> fst (evidence_abs (evidence_state e')) \<in> {OutputCheckpoint.Sent, OutputCheckpoint.Played}"
  by (auto simp: reconcile_sent_def Let_def split: evidence_splits if_splits)

lemma reconciled_sent_reached:
  assumes "reconcile_output_sent i s = (Ok u, s')"
  shows "reached_checkpoint i s' \<in> {Some OutputCheckpoint.Sent, Some OutputCheckpoint.Played}"
proof -
  obtain g e' where g: "List.find (\<lambda>g. segment_id g = i) (output_segments s) = Some g"
      and e': "reconcile_sent (segment_evidence g) = (Ok u, e')"
    and s': "s' = s\<lparr>output_segments := update_first (\<lambda>g. segment_id g = i) (\<lambda>g. g\<lparr>segment_evidence := e'\<rparr>) (output_segments s)\<rparr>"
    using assms by (auto simp: reconcile_output_sent_def with_segment_mut_def split: option.splits prod.splits)
  have "segment_id g = i" using find_Some_mem [OF g] by simp
  then show ?thesis
    using reconcile_sent_Ok [OF e'] find_update_first_same [OF g, of "\<lambda>g. g\<lparr>segment_evidence := e'\<rparr>"]
    by (auto simp: reached_checkpoint_def s')
qed

lemma permit_drop_cells [simp]: "cells (permit_drop p s) = cells s"
  by (simp add: permit_drop_def ProviderEgressGuard_drop_def split: prod.splits)

lemma with_permit_cases:
  assumes "with_permit between self err body (x, s) = (r, (x', s'))"
  obtains (denied) e where "r = Err (err e)" "x' = x"
  | (granted) permit s1 s2 where
      "body (ProviderCancellation_is_cancelled (permit_cancellation permit)) (x, s1) = (r, (x', s2))"
      "s' = permit_drop permit s2" "avatar_permit between self s = (Ok permit, s1)"
  using assms by (auto simp: with_permit_def split: sum.splits prod.splits)

lemma confirm_sent_Ok:
  "confirm_sent self delivery (x, s) = (Ok u, (x', s')) \<Longrightarrow> x' = x \<and>
     reached_checkpoint (handle_segment_id delivery) (cells s' (at_state self)) \<in> {Some OutputCheckpoint.Sent, Some OutputCheckpoint.Played}"
  by (auto simp: confirm_sent_def acknowledge_output_sent_def on_turn_state_def split: sum.splits prod.splits
      dest: reconciled_sent_reached)

section \<open>Submitted segments\<close>

text \<open>The common part of speaking a text and of speaking a buffer: the segment follows the provider's answer, whatever
  other threads did to the turn while the provider was busy.\<close>

lemma submit_segment_outcome:
  assumes inv: "turn_state_inv (cells (between s) (at_state t))"
    and opened: "begin_output_segment t (between s) = (Ok i, s1)"
    and answer: "call probe (x, s1) = (r, (x', s2))"
    and others: "cells s2 (at_state t) = final turn_step ops (cells s1 (at_state t))"
  shows "case r of
      Inr _ \<Rightarrow> \<exists>s3. submit_segment call between t probe (x, s) =
          (Ok \<lparr>handle_turn_id = snap_turn_id (at_snapshot t), handle_segment_id = i\<rparr>, (x', s3)) \<and>
        reached_checkpoint i (cells s3 (at_state t)) \<in> {Some OutputCheckpoint.Sent, Some OutputCheckpoint.Played}
    | Inl e \<Rightarrow> submit_segment call between t probe (x, s) =
          (Err (RealtimeAvatarOutputError.Provider (ProviderExecutionError.Provider e)), (x', s2))"
proof (cases r)
  case (Inl e)
  then show ?thesis using opened answer by (simp add: submit_segment_def with_segment_def call_port_def)
next
  case (Inr u)
  obtain y where y: "ts_begin_output_segment (cells (between s) (at_state t)) = (Ok i, y)"
      and s1: "s1 = (between s)\<lparr>cells := (cells (between s))(at_state t := y)\<rparr>"
    using begin_output_segment_Ok [OF opened] by blast
  have "\<exists>g. List.find (\<lambda>g. segment_id g = i) (output_segments (cells s2 (at_state t))) = Some g \<and>
      1 \<le> checkpoint_rank (fst (evidence_abs (evidence_state (segment_evidence g))))"
    using opened_segment_found [OF inv y] others s1 by simp
  then obtain z where "reconcile_output_sent i (cells s2 (at_state t)) = (Ok (), z)"
      "reached_checkpoint i z \<in> {Some OutputCheckpoint.Sent, Some OutputCheckpoint.Played}"
    using sent_recorded by blast
  then show ?thesis
    using Inr opened answer
    by (auto simp: submit_segment_def with_segment_def call_port_def confirm_sent_def acknowledge_output_sent_def
        validate_delivery_handle_def on_turn_state_def)
qed

lemma avatar_permit_cells: "cells (snd (avatar_permit id t s)) = cells s"
  by (auto simp: avatar_permit_def issue_provider_operation_def issue_provider_permit_def begin_provider_egress_def
      split: prod.splits sum.splits if_splits option.splits)

lemma validate_avatar_handle_Ok_iff:
  "validate_avatar_handle self port handle = Ok u \<longleftrightarrow>
     \<not> avatar_closed handle \<and> avatar_session_id handle = at_session_id self \<and> avatar_provider handle = descriptor port"
  by (simp add: validate_avatar_handle_def)

section \<open>Samples\<close>

definition sample_avatar_session :: RealtimeAvatarSession where
  "sample_avatar_session = \<lparr>provider_resource_id = [1], provider_session_id = [2], avatar_transport = LiveKit [3] [4]\<rparr>"

text \<open>A provider that answers at once; its world counts its calls.\<close>

definition counted :: "'a \<Rightarrow> (nat \<times> runtime, 'a, ProviderError) op" where
  "counted v = (\<lambda>(n, s). (Ok v, (n + 1, s)))"

definition sample_avatar_port :: "(nat, nat) RealtimeAvatarPort" where
  "sample_avatar_port =
     \<lparr>descriptor = \<lparr>descriptor_provider = [1], descriptor_model = [2], descriptor_representation = None\<rparr>,
      capabilities = RealtimeAvatarCapabilities_new [TextInput, AudioPcmStreamInput],
      create_session = (\<lambda>_. counted sample_avatar_session),
      port_submit_answer = (\<lambda>_ _ _. counted ()), submit_ice_candidate = (\<lambda>_ _ _. counted ()),
      speak_text = (\<lambda>_ _ _. counted ()), speak_pcm = (\<lambda>_ _ _ _ _. counted ()),
      open_pcm_stream = (\<lambda>_ _ _ _. counted 7), push_pcm = (\<lambda>_ _ _. counted ()), finish_pcm = (\<lambda>_ _. counted ()),
      abort_pcm = (\<lambda>_. counted ()), speak_audio_url = (\<lambda>_ _ _. counted ()), port_interrupt = (\<lambda>_ _. counted ()),
      port_client_control = (\<lambda>_. None), parse_client_event = (\<lambda>_ _. Ok None),
      prepare_client_text = (\<lambda>_ _ _. counted \<lparr>command_route = LiveKitTextTopic [5], payload = [6]\<rparr>),
      prepare_client_interrupt = (\<lambda>_ _ _. counted \<lparr>command_route = LiveKitTextTopic [5], payload = [6]\<rparr>),
      close_session = (\<lambda>_. counted ())\<rparr>"

definition sample_avatar_handle :: RealtimeAvatarHandle where
  "sample_avatar_handle =
     \<lparr>avatar_session_id = at_session_id sample_turn, avatar_provider = descriptor sample_avatar_port,
      provider_session = sample_avatar_session, client_control = None, avatar_closed = False\<rparr>"

lemma sample_valid: "validate_avatar_handle sample_turn sample_avatar_port sample_avatar_handle = Ok ()"
  by (simp add: validate_avatar_handle_def sample_avatar_handle_def)

lemma sample_permit:
  "is_ok (fst (avatar_permit id sample_turn sample_outputting))"
  by code_simp

section \<open>Properties\<close>

text \<open>Text given to an avatar is recorded as sent exactly when the provider took it. With a handle of its own and a
  permit, once the segment is open and whatever other threads do to the turn while the provider is busy: if the
  provider accepts the text, the caller always gets the segment's handle and the segment is recorded as sent (or
  played); if the provider fails, the caller gets that failure and the segments of the turn stay as they are.\<close>

lemma avatar_text_follows_provider:
  assumes inv: "turn_state_inv (cells (others 1 s1) (at_state t))"
    and handle: "validate_avatar_handle t port handle = Ok ()"
    and permit: "avatar_permit (others 0) t s = (Ok permit, s1)"
    and opened: "begin_output_segment t (others 1 s1) = (Ok i, s2)"
    and answer: "speak_text port (provider_session handle) msg
        (ProviderCancellation_is_cancelled (permit_cancellation permit)) (x, s2) = (r, (x', s3))"
    and threads: "cells s3 (at_state t) = final turn_step ops (cells s2 (at_state t))"
  shows "case r of
      Ok _ \<Rightarrow> \<exists>s4. deliver_realtime_avatar_text port handle msg others t (x, s) =
          (Ok \<lparr>handle_turn_id = snap_turn_id (at_snapshot t), handle_segment_id = i\<rparr>, (x', s4)) \<and>
        reached_checkpoint i (cells s4 (at_state t)) \<in> {Some OutputCheckpoint.Sent, Some OutputCheckpoint.Played}
    | Err e \<Rightarrow> \<exists>s4. deliver_realtime_avatar_text port handle msg others t (x, s) =
          (Err (RealtimeAvatarOutputError.Provider (ProviderExecutionError.Provider e)), (x', s4)) \<and>
        cells s4 (at_state t) = cells s3 (at_state t)"
proof -
  let ?probe = "ProviderCancellation_is_cancelled (permit_cancellation permit)"
    and ?call = "speak_text port (provider_session handle) msg"
  have run: "deliver_realtime_avatar_text port handle msg others t (x, s) = (q, (x', permit_drop permit s4))"
    if "submit_segment ?call (others 1) t ?probe (x, s1) = (q, (x', s4))" for q s4
    using permit that handle by (simp add: deliver_realtime_avatar_text_def validated_def with_permit_def)
  show ?thesis
    using submit_segment_outcome [of "others 1" s1 t i s2 ?call ?probe x r x' s3 ops, OF inv opened answer threads] run
    by (fastforce split: sum.splits)
qed

text \<open>A closed avatar is silent for good. Once a handle has been closed, every operation of every turn on it, with any
  provider and in any later state, is refused without a permit being taken or the provider being asked; it yields no
  stop handle; and closing it again changes nothing. If the provider does not confirm the close, the handle is exactly
  what it was, so that the close can be repeated.\<close>

lemma closed_avatar_is_silent:
  assumes "close_realtime_avatar port (handle, w) = (r, (handle', w'))"
  shows "case r of
      Err _ \<Rightarrow> handle' = handle
    | Ok _ \<Rightarrow>
        submit_realtime_avatar_answer p handle' answer between t v = (Err (Denied InvalidTurnState), v) \<and>
        submit_realtime_avatar_ice p handle' cand between t v = (Err (Denied InvalidTurnState), v) \<and>
        speak_realtime_avatar_text p handle' msg between t v = (Err (Denied InvalidTurnState), v) \<and>
        speak_realtime_avatar_text_with_tts tts p handle' msg others t v = (Err (Denied InvalidTurnState), v) \<and>
        speak_realtime_avatar_audio_url p handle' msg between t v = (Err (Denied InvalidTurnState), v) \<and>
        deliver_realtime_avatar_text p handle' msg others t v =
          (Err (RealtimeAvatarOutputError.Provider (Denied InvalidTurnState)), v) \<and>
        synthesize_and_deliver_realtime_avatar_audio tts p handle' msg instant others t v =
          (Err (RealtimeAvatarOutputError.Provider (Denied InvalidTurnState)), v) \<and>
        prepare_realtime_avatar_client_text p handle' msg others t v =
          (Err (RealtimeAvatarOutputError.Provider (Denied InvalidTurnState)), v) \<and>
        prepare_realtime_avatar_client_interrupt p handle' playback between t v = (Err (Denied InvalidTurnState), v) \<and>
        interrupt_realtime_avatar p handle' between t v = (Err (Denied InvalidTurnState), v) \<and>
        parse_realtime_avatar_client_event p handle' msg t = Err (Denied InvalidTurnState) \<and>
        backend_stop_handle handle' p = None \<and>
        snd (close_realtime_avatar p (handle', v)) = (handle', v)"
proof (cases r)
  case (Inl e)
  then show ?thesis using assms by (auto simp: close_realtime_avatar_def split: if_splits sum.splits prod.splits)
next
  case (Inr u)
  have closed: "avatar_closed handle'"
    using assms Inr by (auto simp: close_realtime_avatar_def split: if_splits sum.splits prod.splits)
  then have "validate_avatar_handle t p handle' = Err (Denied InvalidTurnState)" by (simp add: validate_avatar_handle_def)
  then have refused: "validated t p handle' err body v = (Err (err (Denied InvalidTurnState)), v)"
      "parse_realtime_avatar_client_event p handle' msg t = Err (Denied InvalidTurnState)" for err body v
    by (simp_all add: validated_def parse_realtime_avatar_client_event_def)
  show ?thesis
    using Inr closed
    by (cases v) (simp add: refused submit_realtime_avatar_answer_def submit_realtime_avatar_ice_def
        speak_realtime_avatar_text_def speak_realtime_avatar_text_with_tts_def speak_realtime_avatar_audio_url_def
        deliver_realtime_avatar_text_def synthesize_and_deliver_realtime_avatar_audio_def
        synthesize_and_deliver_realtime_avatar_audio_with_timings_def stream_and_deliver_realtime_avatar_pcm_def
        prepare_realtime_avatar_client_text_def prepare_realtime_avatar_client_interrupt_def interrupt_realtime_avatar_def
        backend_stop_handle_def close_realtime_avatar_def)
qed

end
