(* ===== verification/VPR_Utterance.thy ===== *)
theory VPR_Utterance
  imports VPR_Avatar
begin

text \<open>
  The streamed utterance of \<^verbatim>\<open>crates/vpr-runtime/src/avatar_runtime.rs\<close>: \<open>stream_and_deliver_realtime_avatar_pcm\<close> with any
  avatar provider and any speech provider. The provider is wrapped so that its world carries the list of the calls on
  its streams; the invariant \<open>uttering\<close> relates that list to what the closure \<open>send\<close> holds and to the sink's count.
\<close>

section \<open>What a provider is asked to do\<close>

text \<open>Any provider, with the calls on its streams written down.\<close>

datatype 'st pcm_call = Opened 'st u32 u16 | Pushed 'st "byte list" bool | Finished 'st bool | Aborted 'st

definition logging ::
  "('e + 'a \<Rightarrow> 'l list) \<Rightarrow> ('x \<times> runtime, 'a, 'e) op \<Rightarrow> (('l list \<times> 'x) \<times> runtime, 'a, 'e) op" where
  "logging calls f = (\<lambda>((log, x), s). case f (x, s) of (r, (x', s')) \<Rightarrow> (r, ((log @ calls r, x'), s')))"

abbreviation silent :: "('x \<times> runtime, 'a, 'e) op \<Rightarrow> (('l list \<times> 'x) \<times> runtime, 'a, 'e) op" where
  "silent \<equiv> logging (\<lambda>_. [])"

definition recorded :: "('x, 'st) RealtimeAvatarPort \<Rightarrow> ('st pcm_call list \<times> 'x, 'st) RealtimeAvatarPort" where
  "recorded port =
     \<lparr>descriptor = descriptor port, capabilities = capabilities port,
      create_session = (\<lambda>probe. silent (create_session port probe)),
      port_submit_answer = (\<lambda>session answer probe. silent (port_submit_answer port session answer probe)),
      submit_ice_candidate = (\<lambda>session cand probe. silent (submit_ice_candidate port session cand probe)),
      speak_text = (\<lambda>session msg probe. silent (speak_text port session msg probe)),
      speak_pcm = (\<lambda>session pcm rate channels probe. silent (speak_pcm port session pcm rate channels probe)),
      open_pcm_stream = (\<lambda>session rate channels probe.
        logging (\<lambda>r. case r of Ok st \<Rightarrow> [Opened st rate channels] | Err _ \<Rightarrow> [])
          (open_pcm_stream port session rate channels probe)),
      push_pcm = (\<lambda>st pcm probe. logging (\<lambda>r. [Pushed st pcm (is_ok r)]) (push_pcm port st pcm probe)),
      finish_pcm = (\<lambda>st probe. logging (\<lambda>r. [Finished st (is_ok r)]) (finish_pcm port st probe)),
      abort_pcm = (\<lambda>st. logging (\<lambda>_. [Aborted st]) (abort_pcm port st)),
      speak_audio_url = (\<lambda>session url probe. silent (speak_audio_url port session url probe)),
      port_interrupt = (\<lambda>session probe. silent (port_interrupt port session probe)),
      port_client_control = port_client_control port,
      parse_client_event = parse_client_event port,
      prepare_client_text = (\<lambda>session msg probe. silent (prepare_client_text port session msg probe)),
      prepare_client_interrupt = (\<lambda>session playback probe. silent (prepare_client_interrupt port session playback probe)),
      close_session = (\<lambda>session. silent (close_session port session))\<rparr>"

primrec observed :: "'x synthesis \<Rightarrow> ('l \<times> 'x) synthesis" where
  "observed (Return r) = Return r"
| "observed (Push chunk k) = Push chunk (\<lambda>r. observed (k r))"
| "observed (Probe k) = Probe (\<lambda>b. observed (k b))"
| "observed (Pause f k) =
     Pause (\<lambda>((log, x), s). case f (x, s) of (x', s') \<Rightarrow> ((log, x'), s')) (observed k)"

text \<open>How the calls of an utterance go on: nothing, or one stream and the chunks it was given so far.\<close>

definition pushes :: "'st \<Rightarrow> (byte list \<times> bool) list \<Rightarrow> 'st pcm_call list" where
  "pushes st chunks = map (\<lambda>(pcm, accepted). Pushed st pcm accepted) chunks"

definition accepted_bytes :: "(byte list \<times> bool) list \<Rightarrow> nat" where
  "accepted_bytes chunks = sum_list (map (\<lambda>(pcm, accepted). if accepted then length pcm else 0) chunks)"

definition uttering :: "'st pcm_stages \<Rightarrow> nat \<Rightarrow> 'st pcm_call list \<Rightarrow> bool" where
  "uttering st bytes log \<longleftrightarrow>
     (case published st of
        None \<Rightarrow> log = [] \<and> bytes = 0
      | Some strm \<Rightarrow> (\<exists>rate channels chunks. log = Opened strm rate channels # pushes strm chunks \<and>
          bytes = accepted_bytes chunks) \<and> stage_first_pcm st \<noteq> None \<and> (0 < bytes \<longrightarrow> stage_first_echo st \<noteq> None))"

definition sink_uttering ::
  "('st pcm_stages \<times> 'y) GeneratedAudioStreamingSink \<times> ('st pcm_call list \<times> 'x) \<Rightarrow> bool" where
  "sink_uttering = (\<lambda>(sink, (log, x)). uttering (fst (emit_state sink)) (sink_bytes sink) log)"

lemma pushes_snoc: "pushes st chunks @ [Pushed st pcm b] = pushes st (chunks @ [(pcm, b)])"
  by (simp add: pushes_def)

lemma accepted_bytes_snoc: "accepted_bytes (chunks @ [(pcm, b)]) = accepted_bytes chunks + (if b then length pcm else 0)"
  by (simp add: accepted_bytes_def)

lemma get_or_insert_Some [simp]: "get_or_insert slot v \<noteq> None" "\<exists>u. get_or_insert slot v = Some u"
  by (simp_all add: get_or_insert_def split: option.splits)

lemma uttering_open:
  "uttering st bytes log \<Longrightarrow> published st = None \<Longrightarrow> published st' = Some strm \<Longrightarrow> stage_first_pcm st' \<noteq> None \<Longrightarrow>
     uttering st' bytes (log @ [Opened strm rate channels])"
  by (auto simp: uttering_def pushes_def accepted_bytes_def)

lemma uttering_push:
  assumes "uttering st bytes log" and "published st = Some strm" "published st' = Some strm" "stage_first_pcm st' \<noteq> None"
    and "accepted \<longrightarrow> stage_first_echo st' \<noteq> None" and "stage_first_echo st \<noteq> None \<longrightarrow> stage_first_echo st' \<noteq> None"
  shows "uttering st' (bytes + (if accepted then length pcm else 0)) (log @ [Pushed strm pcm accepted])"
proof -
  from assms(1,2) obtain rate channels chunks where log: "log = Opened strm rate channels # pushes strm chunks"
      and bytes: "bytes = accepted_bytes chunks" and echo: "0 < bytes \<longrightarrow> stage_first_echo st \<noteq> None"
    by (auto simp: uttering_def)
  have "log @ [Pushed strm pcm accepted] = Opened strm rate channels # pushes strm (chunks @ [(pcm, accepted)])"
    using log by (simp add: pushes_snoc)
  moreover have "bytes + (if accepted then length pcm else 0) = accepted_bytes (chunks @ [(pcm, accepted)])"
    using bytes by (simp add: accepted_bytes_snoc)
  ultimately show ?thesis using assms(3-6) echo by (auto simp: uttering_def)
qed

lemma uttering_cong:
  "uttering st bytes log \<Longrightarrow> published st' = published st \<Longrightarrow> stage_first_echo st' = stage_first_echo st \<Longrightarrow>
     (stage_first_pcm st \<noteq> None \<longrightarrow> stage_first_pcm st' \<noteq> None) \<Longrightarrow> uttering st' bytes log"
  by (simp add: uttering_def split: option.splits)

lemma recorded_stream_calls [simp]:
  "open_pcm_stream (recorded port) session rate channels probe =
     logging (\<lambda>r. case r of Ok st \<Rightarrow> [Opened st rate channels] | Err _ \<Rightarrow> []) (open_pcm_stream port session rate channels probe)"
  "push_pcm (recorded port) st pcm probe = logging (\<lambda>r. [Pushed st pcm (is_ok r)]) (push_pcm port st pcm probe)"
  "finish_pcm (recorded port) st probe = logging (\<lambda>r. [Finished st (is_ok r)]) (finish_pcm port st probe)"
  "abort_pcm (recorded port) st = logging (\<lambda>_. [Aborted st]) (abort_pcm port st)"
  "descriptor (recorded port) = descriptor port"
  by (simp_all add: recorded_def)

text \<open>The second half of \<open>send\<close>, once there is a stream.\<close>

lemma pushed_uttering:
  assumes inv: "uttering st bytes log" and pub: "published st = Some strm" and pcm: "stage_first_pcm st \<noteq> None"
    and run: "(case push_pcm (recorded port) strm pcm probe ((log, x), s) of
        (Err e, w2) \<Rightarrow> (Err e, (st, w2))
      | (Ok _, w2) \<Rightarrow> (Ok (), (st\<lparr>stage_first_echo := get_or_insert (stage_first_echo st) (time w2)\<rparr>, w2))) =
      (r, (st', ((log', x'), s')))"
  shows "uttering st' (bytes + (if is_ok r then length pcm else 0)) log'"
proof (cases "push_pcm port strm pcm probe (x, s)")
  case (fields q x2 s2)
  have log': "log' = log @ [Pushed strm pcm (is_ok r)]" and "is_ok r = is_ok q"
    and st': "st' = (if is_ok r then st\<lparr>stage_first_echo := get_or_insert (stage_first_echo st) (time ((log', x'), s'))\<rparr> else st)"
    using run fields by (auto simp: logging_def split: sum.splits)
  show ?thesis
    unfolding log' by (rule uttering_push [OF inv pub]) (use pub pcm in \<open>auto simp: st'\<close>)
qed

lemma send_pcm_uttering:
  assumes inv: "uttering st bytes log"
    and run: "send_pcm (recorded port) handle instant started probe pcm rate channels (st, ((log, x), s)) = (r, (st', ((log', x'), s')))"
  shows "uttering st' (bytes + (if is_ok r then length pcm else 0)) log'"
proof -
  let ?st1 = "st\<lparr>stage_first_pcm := get_or_insert (stage_first_pcm st) (elapsed_stage started (instant (log, x)))\<rparr>"
  have inv1: "uttering ?st1 bytes log" by (rule uttering_cong [OF inv]) simp_all
  show ?thesis
  proof (cases "probe s")
    case True
    then show ?thesis using inv run by (auto simp: send_pcm_def)
  next
    case live: False
    show ?thesis
    proof (cases "published st")
      case (Some strm)
      have inv2: "uttering (?st1\<lparr>published := Some strm\<rparr>) bytes log"
        by (rule uttering_cong [OF inv1]) (simp_all add: Some)
      show ?thesis
        by (rule pushed_uttering [OF inv2, where strm = strm and port = port and probe = probe and x = x and s = s
              and x' = x' and s' = s' and time = "\<lambda>w. elapsed_stage started (instant (fst w))"])
          (use live run Some in \<open>simp_all add: send_pcm_def Let_def\<close>)
    next
      case None
      then have none: "published ?st1 = None" by simp
      show ?thesis
      proof (cases "open_pcm_stream port (provider_session handle) rate channels probe (x, s)")
        case (fields q x1 s1)
        show ?thesis
        proof (cases q)
          case (Inl e)
          then show ?thesis
            using live run fields none inv1 by (auto simp: send_pcm_def Let_def logging_def)
        next
          case (Inr strm)
          have inv2: "uttering (?st1\<lparr>published := Some strm\<rparr>) bytes (log @ [Opened strm rate channels])"
            by (rule uttering_open [OF inv1 none]) simp_all
          show ?thesis
            by (rule pushed_uttering [OF inv2, where strm = strm and port = port and probe = probe and x = x1 and s = s1
                  and x' = x' and s' = s' and time = "\<lambda>w. elapsed_stage started (instant (fst w))"])
              (use live run fields None Inr in \<open>simp_all add: send_pcm_def Let_def logging_def\<close>)
        qed
      qed
    qed
  qed
qed

lemma push_streaming_uttering:
  assumes inv: "sink_uttering (fst w)" and run: "push_streaming (send_pcm (recorded port) handle instant started probe) chunk w = (r, w')"
  shows "sink_uttering (fst w')"
proof -
  obtain sink log x s where w: "w = ((sink, (log, x)), s)" by (cases w) auto
  let ?st = "fst (emit_state sink)"
  obtain q st' log' x' s' where send: "send_pcm (recorded port) handle instant started probe (chunk_pcm chunk)
      (chunk_sample_rate_hz chunk) (chunk_channels chunk) (?st, ((log, x), s)) = (q, (st', ((log', x'), s')))"
    by (metis surj_pair)
  have "uttering st' (sink_bytes sink + (if is_ok q then length (chunk_pcm chunk) else 0)) log'"
    using send_pcm_uttering [OF _ send] inv by (simp add: w sink_uttering_def)
  then show ?thesis
    using run send inv by (auto simp: w push_streaming_def stream_audio_eq sink_uttering_def split: if_splits sum.splits)
qed

lemma synthesize_uttering:
  "sink_uttering (fst w) \<Longrightarrow>
     sink_uttering (fst (snd (synthesize (push_streaming (send_pcm (recorded port) handle instant started probe)) (observed t) c w)))"
proof (induction t arbitrary: w)
  case (Push chunk k)
  then show ?case by (auto dest: push_streaming_uttering split: prod.splits)
next
  case (Pause f k)
  have "sink_uttering (fst (paused (\<lambda>((log, x), s). case f (x, s) of (x', s') \<Rightarrow> ((log, x'), s')) w))"
    using Pause.prems by (auto simp: sink_uttering_def paused_def split: prod.splits)
  then show ?case using Pause.IH by simp
qed simp_all

text \<open>A call under a permit keeps what the call keeps, as long as it is not about the runtime itself.\<close>

lemma provider_call_preserves:
  assumes run: "provider_call between self operation call (x, s) = (r, w)"
    and start: "P x" and call: "\<And>c s' q w'. call c (x, s') = (q, w') \<Longrightarrow> P (fst w')"
  shows "P (fst w)"
  using run start call
  by (auto simp: provider_call_def dispatch_def split: if_splits sum.splits prod.splits)

lemma execute_tts_uttering:
  assumes "execute_tts (\<lambda>request. synthesize (push_streaming (send_pcm (recorded port) handle instant started probe))
             (observed (tts request))) req between self ((GeneratedAudioStreamingSink_new (stages_none, y), ([], x)), s) =
           (r, ((sink, (log, x')), s'))"
  shows "uttering (fst (emit_state sink)) (sink_bytes sink) log"
proof -
  let ?start = "(GeneratedAudioStreamingSink_new (stages_none, y), ([], x))"
  have start: "sink_uttering ?start"
    by (simp add: sink_uttering_def GeneratedAudioStreamingSink_new_def stages_none_def uttering_def)
  have "sink_uttering (fst w)"
    if "synthesize (push_streaming (send_pcm (recorded port) handle instant started probe)) (observed t) c (?start, s0) = (q, w)"
    for t c s0 q w
    using synthesize_uttering [of "(?start, s0)" port handle instant started probe t c] start that by simp
  then have "sink_uttering (fst ((sink, (log, x')), s'))"
    using provider_call_preserves [OF assms [unfolded execute_tts_def], of sink_uttering] start by blast
  then show ?thesis by (simp add: sink_uttering_def)
qed

section \<open>Outcomes\<close>

text \<open>What a finished utterance looks like to the provider and in the session.\<close>

definition utterance_sent :: "ActiveTurn \<Rightarrow> OutputDeliveryHandle \<Rightarrow> 'st pcm_call list \<Rightarrow> runtime \<Rightarrow> bool" where
  "utterance_sent self delivery log s \<longleftrightarrow>
     (\<exists>strm rate channels chunks. log = Opened strm rate channels # pushes strm chunks @ [Finished strm True] \<and>
        0 < accepted_bytes chunks) \<and>
     reached_checkpoint (handle_segment_id delivery) (cells s (at_state self)) \<in>
       {Some OutputCheckpoint.Sent, Some OutputCheckpoint.Played}"

definition utterance_withdrawn :: "RealtimeAvatarOutputError \<Rightarrow> 'st pcm_call list \<Rightarrow> bool" where
  "utterance_withdrawn e log \<longleftrightarrow>
     log = [] \<or>
     (\<exists>strm rate channels chunks.
        log = Opened strm rate channels # pushes strm chunks @ [Aborted strm] \<or>
        log = Opened strm rate channels # pushes strm chunks @ [Finished strm False, Aborted strm] \<or>
        log = Opened strm rate channels # pushes strm chunks @ [Finished strm True] \<and> 0 < accepted_bytes chunks \<and>
          (\<exists>reason. e = RealtimeAvatarOutputError.Runtime reason))"

lemma abort_published_withdrawn:
  assumes "uttering st bytes log"
  shows "\<exists>log' x' s'. abort_published (recorded port) (published st) ((log, x), s) = ((log', x'), s') \<and>
    utterance_withdrawn e log'"
proof (cases "published st")
  case None
  then show ?thesis using assms by (simp add: abort_published_def uttering_def utterance_withdrawn_def)
next
  case (Some strm)
  then show ?thesis
    using assms by (cases "abort_pcm port strm (x, s)")
      (auto simp: abort_published_def uttering_def utterance_withdrawn_def logging_def)
qed

lemma conclude_utterance_outcome:
  assumes inv: "uttering st bytes log"
    and run: "conclude_utterance (recorded port) self probe delivery result bytes st ((log, x), s) = (r, ((log', x'), s'))"
  shows "case r of Ok v \<Rightarrow> fst v = delivery \<and> utterance_sent self delivery log' s' | Err e \<Rightarrow> utterance_withdrawn e log'"
proof (cases "is_ok result \<and> 0 < bytes")
  case False
  then show ?thesis
    using run abort_published_withdrawn [OF inv, of port x s]
    by (cases result) (auto simp: conclude_utterance_def)
next
  case True
  then obtain strm rate channels chunks first_pcm first_echo where log: "log = Opened strm rate channels # pushes strm chunks"
      "bytes = accepted_bytes chunks" and st: "published st = Some strm" "stage_first_pcm st = Some first_pcm"
      "stage_first_echo st = Some first_echo"
    using inv by (auto simp: uttering_def split: option.splits)
  show ?thesis
  proof (cases "finish_pcm port strm probe (x, s)")
    case (fields q x1 s1)
    show ?thesis
    proof (cases q)
      case (Inl e)
      then have "log' = Opened strm rate channels # pushes strm chunks @ [Finished strm False, Aborted strm] \<and> \<not> is_ok r"
        using True run fields st log
        by (cases "abort_pcm port strm (x1, s1)") (auto simp: conclude_utterance_def logging_def is_ok_iff)
      then show ?thesis unfolding utterance_withdrawn_def by (cases r) auto
    next
      case (Inr u)
      obtain c l2 x2 s2 where c: "confirm_sent self delivery ((log @ [Finished strm True], x1), s1) = (c, ((l2, x2), s2))"
        by (metis surj_pair)
      have l2: "l2 = log @ [Finished strm True]" using c by (auto simp: confirm_sent_def split: prod.splits)
      have reason: "\<exists>reason. e = RealtimeAvatarOutputError.Runtime reason" if "c = Err e" for e
        using c that by (auto simp: confirm_sent_def map_err_def split: prod.splits sum.splits)
      show ?thesis
        using True run fields st log Inr c l2 reason confirm_sent_Ok [of self delivery "(log @ [Finished strm True], x1)" s1]
        by (cases c) (auto simp: conclude_utterance_def logging_def utterance_withdrawn_def utterance_sent_def is_ok_iff, blast+)
    qed
  qed
qed

abbreviation utterance_settled ::
  "ActiveTurn \<Rightarrow> RealtimeAvatarOutputError + OutputDeliveryHandle \<times> RealtimeAudioStageTimings \<Rightarrow> 'st pcm_call list \<Rightarrow> runtime \<Rightarrow> bool" where
  "utterance_settled self r log s \<equiv>
     (case r of Inr v \<Rightarrow> utterance_sent self (fst v) log s | Inl e \<Rightarrow> utterance_withdrawn e log)"

lemma utterance_nothing [simp]: "utterance_withdrawn e []"
  by (simp add: utterance_withdrawn_def)

lemma utterance_permit_drop [simp]: "utterance_sent self d log (permit_drop p s) = utterance_sent self d log s"
  by (simp add: utterance_sent_def)

lemma utter_pcm_settled:
  assumes "utter_pcm (\<lambda>request. observed (tts request)) (recorded port) handle msg instant started between self probe delivery
             (([], x), s) = (r, ((log, x'), s'))"
  shows "utterance_settled self r log s'"
proof -
  obtain result sink l1 x1 s1 where tts: "execute_tts (\<lambda>request. synthesize
        (push_streaming (send_pcm (recorded port) handle instant started probe)) (observed (tts request)))
        (tts_request msg) between self ((GeneratedAudioStreamingSink_new (stages_none, (([], x), s)), ([], x)), s) =
      (result, ((sink, (l1, x1)), s1))"
    by (metis surj_pair)
  show ?thesis
    using conclude_utterance_outcome [OF execute_tts_uttering [OF tts]] assms tts
    by (fastforce simp: utter_pcm_def split: sum.splits)
qed

lemma with_segment_settled:
  assumes run: "with_segment between self body (([], x), s) = (r, ((log, x'), s'))"
    and body: "\<And>delivery s1. body delivery (([], x), s1) = (r, ((log, x'), s')) \<Longrightarrow> utterance_settled self r log s'"
  shows "utterance_settled self r log s'"
proof (cases "begin_output_segment self (between s)")
  case (Pair q s1)
  show ?thesis
  proof (cases q)
    case (Inl e)
    then show ?thesis using run Pair by (auto simp: with_segment_def)
  next
    case (Inr i)
    show ?thesis by (rule body) (use run Pair Inr in \<open>simp add: with_segment_def\<close>)
  qed
qed

section \<open>A sample utterance\<close>

definition sample_speech :: "nat tts_port" where
  "sample_speech request =
     Push \<lparr>chunk_pcm = [1, 2], chunk_sample_rate_hz = 16000, chunk_channels = 1, chunk_sample_format = S16Le\<rparr>
       (\<lambda>_. Return (Ok \<lparr>input_units = None, input_unit = None, output_units = None, output_unit = None, estimated_cost_microunits = None,
         provider_charge_microunits = None\<rparr>))"

lemma sample_utterance:
  "case stream_and_deliver_realtime_avatar_pcm (\<lambda>request. observed (sample_speech request)) (recorded sample_avatar_port)
      sample_avatar_handle [] snd (\<lambda>_. id) sample_turn (([], 0), sample_outputting) of
     (r, ((log, _), _)) \<Rightarrow> is_ok r \<and> log = [Opened 7 16000 1, Pushed 7 [1, 2] True, Finished 7 True]"
  by code_simp

section \<open>Properties\<close>


end
