(* ===== verification/VPR_Btree.thy ===== *)
theory VPR_Btree
  imports VPR_Prelude
begin

text \<open>
  The ordered maps of the owner lab, \<open>BTreeMap\<close> of the standard library with \<open>u64\<close> keys: an association list whose
  keys ascend, so that \<open>values()\<close> goes through it in the order of the keys; \<open>get\<close> is \<open>map_of\<close>.
\<close>

section \<open>Operations\<close>

type_synonym 'v btree = "(u64 \<times> 'v) list"

fun btree_insert :: "u64 \<Rightarrow> 'v \<Rightarrow> 'v btree \<Rightarrow> 'v btree" where
  "btree_insert k v [] = [(k, v)]"
| "btree_insert k v ((k', v') # m) =
     (if k < k' then (k, v) # (k', v') # m else if k = k' then (k, v) # m else (k', v') # btree_insert k v m)"

definition btree_modify :: "u64 \<Rightarrow> ('v \<Rightarrow> 'v) \<Rightarrow> 'v btree \<Rightarrow> 'v btree" where
  "btree_modify k f m = map (\<lambda>(k', v). (k', if k' = k then f v else v)) m"

section \<open>Laws\<close>

abbreviation btree_wf :: "'v btree \<Rightarrow> bool" where
  "btree_wf m \<equiv> sorted_wrt (<) (map fst m)"

lemma btree_wf_distinct: "btree_wf m \<Longrightarrow> distinct (map fst m)"
  by (simp add: strict_sorted_iff)

lemma btree_get_iff: "btree_wf m \<Longrightarrow> map_of m k = Some v \<longleftrightarrow> (k, v) \<in> set m"
  by (simp add: btree_wf_distinct map_of_eq_Some_iff)

lemma btree_insert_new:
  "map_of m k = None \<Longrightarrow> set (btree_insert k v m) = insert (k, v) (set m) \<and> length (btree_insert k v m) = Suc (length m)"
  by (induction k v m rule: btree_insert.induct) (auto split: if_splits)

lemma btree_insert_wf: "btree_wf m \<Longrightarrow> btree_wf (btree_insert k v m)"
proof (induction k v m rule: btree_insert.induct)
  case (2 k v k' v' m)
  have "set (map fst (btree_insert k v m)) \<subseteq> insert k (set (map fst m))" for m :: "'a btree"
    by (induction k v m rule: btree_insert.induct) auto
  then show ?case using 2 by (auto simp: not_less_iff_gr_or_eq; fastforce)
qed simp

lemma btree_modify_simps [simp]:
  "map fst (btree_modify k f m) = map fst m" "length (btree_modify k f m) = length m"
  by (simp_all add: btree_modify_def comp_def case_prod_beta)

lemma btree_modify_mem:
  "(k', v') \<in> set (btree_modify k f m) \<longleftrightarrow> (\<exists>v. (k', v) \<in> set m \<and> v' = (if k' = k then f v else v))"
  by (force simp: btree_modify_def image_iff)

lemma btree_modify_all:
  assumes wf: "btree_wf m" and get: "map_of m k = Some a" and all: "\<forall>(k, a) \<in> set m. P k a" and new: "P k (f a)"
  shows "\<forall>(k, a) \<in> set (btree_modify k f m). P k a"
proof -
  have "P k' v'" if "(k', v') \<in> set (btree_modify k f m)" for k' v'
  proof -
    obtain v where v: "(k', v) \<in> set m" "v' = (if k' = k then f v else v)" using \<open>_ \<in> _\<close> by (auto simp: btree_modify_mem)
    then show ?thesis using all new get btree_get_iff [OF wf, of k' v] by (cases "k' = k") auto
  qed
  then show ?thesis by blast
qed

lemma btree_modify_get: "map_of (btree_modify k f m) q = map_option (if q = k then f else id) (map_of m q)"
  by (induction m) (auto simp: btree_modify_def)

lemma btree_insert_get: "map_of (btree_insert k v m) q = (if q = k then Some v else map_of m q)"
  by (induction k v m rule: btree_insert.induct) auto

end
