(* ===== verification/VPR_Evidence_Recorder.thy ===== *)
theory VPR_Evidence_Recorder
  imports VPR_Session_Aggregate VPR_Btree
begin

text \<open>
  The owner lab's recorder of session evidence (\<^verbatim>\<open>crates/vpr-owner-lab/src/evidence.rs\<close> and its modules): the text and
  voice attempts of one session, the media events and synchronisation samples the browser reports, and the snapshot
  that the evaluation aggregates (\<open>VPR_Session_Evidence\<close>).

  The maps are ordered (\<open>VPR_Btree\<close>), so their values come in the order of their keys. \<open>now\<close> is a reading of the monotonic clock in
  nanoseconds. Of the results of a turn only what the recorder reads is listed.
\<close>

section \<open>Inputs\<close>

datatype LabEvidenceError = InvalidInput | InvalidState | DuplicateEvidence | CapacityExceeded

fun evidence_error_code :: "LabEvidenceError \<Rightarrow> rust_string" where
  "evidence_error_code LabEvidenceError.InvalidInput = lit ''INVALID_INPUT''"
| "evidence_error_code LabEvidenceError.InvalidState = lit ''INVALID_STATE_TRANSITION''"
| "evidence_error_code LabEvidenceError.DuplicateEvidence = lit ''DUPLICATE_EVIDENCE''"
| "evidence_error_code LabEvidenceError.CapacityExceeded = lit ''EVIDENCE_SESSION_CAPACITY_EXCEEDED''"

record LabMediaEvidenceInput =
  min_session_sequence :: u64
  min_request_sequence :: "u64 option"
  min_kind :: LabMediaEvidenceKind
  min_elapsed_millis :: u64

record LabAvSyncEvidenceInput =
  sin_session_sequence :: u64
  sin_request_sequence :: u64
  sin_sample_sequence :: u32
  sin_reference :: LabAvSyncReference
  sin_absolute_offset_millis :: u64

record LabAvSyncDiagnosticInput =
  din_session_sequence :: u64
  din_request_sequence :: u64
  din_attempts :: u32
  din_audio_issue :: "LabAvSyncTrackIssue option"
  din_video_issue :: "LabAvSyncTrackIssue option"

record LabTextResult =
  tr_turn_sequence :: u64
  tr_output_sequence :: u64
  tr_first_meaningful_response_millis :: u64
  tr_total_millis :: u64
  tr_llm_usage :: SessionUsageEvidence

record LabVoiceSegment =
  vs_turn_sequence :: u64
  vs_output_sequence :: u64

record LabVoiceResult =
  vr_turn_sequence :: u64
  vr_output_sequence :: u64
  vr_stt_millis :: u64
  vr_llm_millis :: u64
  vr_llm_first_meaningful_millis :: u64
  vr_voice_first_text_millis :: u64
  vr_avatar_millis :: u64
  vr_tts_first_pcm_millis :: "u64 option"
  vr_echo_first_send_millis :: "u64 option"
  vr_total_millis :: u64
  vr_stt_usage :: SessionUsageEvidence
  vr_llm_usage :: SessionUsageEvidence

section \<open>The recorder\<close>

definition RT0_OWNER_LAB_MAX_SESSION_ATTEMPTS :: nat where
  "RT0_OWNER_LAB_MAX_SESSION_ATTEMPTS = 256"

definition RT0_OWNER_LAB_MAX_MEDIA_EVENTS :: nat where
  "RT0_OWNER_LAB_MAX_MEDIA_EVENTS = 1024"

definition RT0_OWNER_LAB_MAX_AV_SYNC_SAMPLES :: nat where
  "RT0_OWNER_LAB_MAX_AV_SYNC_SAMPLES = RT0_OWNER_LAB_MAX_SESSION_ATTEMPTS * unat RT0_AV_SYNC_SAMPLES_PER_REQUEST"

record LabSessionEvidenceRecorder =
  rec_candidate_sha :: rust_string
  rec_provider_state_sha256 :: rust_string
  rec_session :: "u64 option"
  rec_role :: "ParticipantRole option"
  rec_sealed :: bool
  rec_started :: "nat option"
  rec_sealed_duration :: "u64 option"
  rec_text :: "LabTextAttemptEvidence btree"
  rec_voice :: "LabVoiceAttemptEvidence btree"
  rec_media :: "LabMediaEvidence list"
  rec_samples :: "LabAvSyncEvidence list"
  rec_diagnostics :: "LabAvSyncDiagnostic list"

definition recorder_default :: LabSessionEvidenceRecorder where
  "recorder_default =
     \<lparr>rec_candidate_sha = [], rec_provider_state_sha256 = [], rec_session = None, rec_role = None, rec_sealed = False,
      rec_started = None, rec_sealed_duration = None, rec_text = [], rec_voice = [], rec_media = [], rec_samples = [],
      rec_diagnostics = []\<rparr>"

type_synonym 'a recording = "(LabSessionEvidenceRecorder, 'a, LabEvidenceError) op"

definition session_elapsed_millis :: "nat \<Rightarrow> nat \<Rightarrow> u64" where
  "session_elapsed_millis started now = max (of_nat (min ((now - started) div 1000000) (2 ^ 64 - 1))) 1"

definition bind_provenance :: "rust_string \<Rightarrow> rust_string \<Rightarrow> unit recording" where
  "bind_provenance candidate_sha provider_state_sha256 self =
     (if rec_session self \<noteq> None then (Err InvalidState, self)
      else if \<not> is_ok (validate_candidate_sha candidate_sha) \<or> utf8_len provider_state_sha256 \<noteq> 64 \<or>
              \<not> list_all is_lower_hex (utf8_bytes provider_state_sha256)
      then (Err InvalidInput, self)
      else (Ok (), self\<lparr>rec_candidate_sha := candidate_sha, rec_provider_state_sha256 := provider_state_sha256\<rparr>))"

definition begin_session :: "u64 \<Rightarrow> ParticipantRole \<Rightarrow> nat \<Rightarrow> unit recording" where
  "begin_session sequence prole now self =
     (if sequence = 0 then (Err InvalidInput, self)
      else (Ok (), self\<lparr>rec_session := Some sequence, rec_role := Some prole, rec_sealed := False,
                        rec_started := Some now, rec_sealed_duration := None, rec_text := [], rec_voice := [],
                        rec_media := [], rec_samples := [], rec_diagnostics := []\<rparr>))"

definition seal_session :: "nat \<Rightarrow> LabSessionEvidenceRecorder \<Rightarrow> LabSessionEvidenceRecorder" where
  "seal_session now self =
     (if rec_session self \<noteq> None \<and> \<not> rec_sealed self
      then self\<lparr>rec_sealed_duration := map_option (\<lambda>started. session_elapsed_millis started now) (rec_started self),
                rec_sealed := True\<rparr>
      else self)"

definition session_attempt_count :: "LabSessionEvidenceRecorder \<Rightarrow> nat" where
  "session_attempt_count self = min (length (rec_text self) + length (rec_voice self)) (2 ^ 64 - 1)"

section \<open>Text attempts\<close>

definition begin_text_request :: "u64 \<Rightarrow> unit recording" where
  "begin_text_request request self =
     (if rec_session self = None \<or> rec_sealed self then (Err InvalidState, self)
      else if request = 0 then (Err InvalidInput, self)
      else if map_of (rec_text self) request \<noteq> None then (Err DuplicateEvidence, self)
      else if session_attempt_count self \<ge> RT0_OWNER_LAB_MAX_SESSION_ATTEMPTS then (Err CapacityExceeded, self)
      else (Ok (), self\<lparr>rec_text := btree_insert request
             \<lparr>text_request_sequence = request, text_turn_sequence = None, text_output_sequence = None,
              text_status = LabTextAttemptStatus.Pending, text_failure_code = None,
              text_first_meaningful_millis = None, text_server_total_millis = None, text_llm_usage = None\<rparr>
             (rec_text self)\<rparr>))"

definition complete_text_request :: "u64 \<Rightarrow> LabTextResult \<Rightarrow> unit recording" where
  "complete_text_request request result self =
     (case map_of (rec_text self) request of
        None \<Rightarrow> (Err InvalidState, self)
      | Some attempt \<Rightarrow>
          (if text_status attempt \<noteq> LabTextAttemptStatus.Pending then (Err DuplicateEvidence, self)
           else if tr_turn_sequence result = 0 \<or> tr_output_sequence result = 0 \<or>
                   tr_first_meaningful_response_millis result > MAX_MEDIA_ELAPSED_MILLIS \<or>
                   tr_total_millis result > MAX_MEDIA_ELAPSED_MILLIS \<or>
                   tr_first_meaningful_response_millis result > tr_total_millis result
           then (Err InvalidInput, self)
           else (Ok (), self\<lparr>rec_text := btree_modify request (\<lambda>attempt.
                  attempt\<lparr>text_turn_sequence := Some (tr_turn_sequence result),
                          text_output_sequence := Some (tr_output_sequence result),
                          text_status := LabTextAttemptStatus.Completed,
                          text_first_meaningful_millis := Some (tr_first_meaningful_response_millis result),
                          text_server_total_millis := Some (tr_total_millis result),
                          text_llm_usage := Some (tr_llm_usage result)\<rparr>) (rec_text self)\<rparr>)))"

definition fail_text_request :: "u64 \<Rightarrow> rust_string \<Rightarrow> unit recording" where
  "fail_text_request request failure_code self =
     (case map_of (rec_text self) request of
        None \<Rightarrow> (Err InvalidState, self)
      | Some attempt \<Rightarrow>
          (if text_status attempt \<noteq> LabTextAttemptStatus.Pending \<or> blank failure_code then (Err DuplicateEvidence, self)
           else (Ok (), self\<lparr>rec_text := btree_modify request (\<lambda>attempt.
                  attempt\<lparr>text_status := LabTextAttemptStatus.Failed, text_failure_code := Some failure_code\<rparr>)
                  (rec_text self)\<rparr>)))"

section \<open>Voice attempts\<close>

definition begin_voice_request :: "u64 \<Rightarrow> unit recording" where
  "begin_voice_request request self =
     (if rec_session self = None \<or> rec_sealed self then (Err InvalidState, self)
      else if request = 0 then (Err InvalidInput, self)
      else if map_of (rec_voice self) request \<noteq> None then (Err DuplicateEvidence, self)
      else if session_attempt_count self \<ge> RT0_OWNER_LAB_MAX_SESSION_ATTEMPTS then (Err CapacityExceeded, self)
      else (Ok (), self\<lparr>rec_voice := btree_insert request
             \<lparr>voice_request_sequence = request, voice_turn_sequence = None, voice_output_sequence = None,
              canonical_playback_confirmed = False, voice_status = LabVoiceAttemptStatus.Pending,
              voice_failure_code = None, stt_millis = None, llm_millis = None, llm_first_meaningful_millis = None,
              voice_first_text_millis = None, tts_first_pcm_millis = None, echo_first_send_millis = None,
              avatar_millis = None, voice_server_total_millis = None, stt_usage = None, voice_llm_usage = None\<rparr>
             (rec_voice self)\<rparr>))"

definition bind_voice_segment :: "u64 \<Rightarrow> LabVoiceSegment \<Rightarrow> unit recording" where
  "bind_voice_segment request segment self =
     (if vs_turn_sequence segment = 0 \<or> vs_output_sequence segment = 0 then (Err InvalidInput, self)
      else (case map_of (rec_voice self) request of
              None \<Rightarrow> (Err InvalidState, self)
            | Some attempt \<Rightarrow>
                (if voice_status attempt \<noteq> LabVoiceAttemptStatus.Pending then (Err InvalidState, self)
                 else (case (voice_turn_sequence attempt, voice_output_sequence attempt) of
                         (None, None) \<Rightarrow>
                           (Ok (), self\<lparr>rec_voice := btree_modify request (\<lambda>attempt.
                             attempt\<lparr>voice_turn_sequence := Some (vs_turn_sequence segment),
                                     voice_output_sequence := Some (vs_output_sequence segment)\<rparr>) (rec_voice self)\<rparr>)
                       | (Some turn, Some _) \<Rightarrow>
                           (if turn = vs_turn_sequence segment then (Ok (), self) else (Err InvalidState, self))
                       | _ \<Rightarrow> (Err InvalidState, self)))))"

definition voice_result_malformed :: "LabVoiceAttemptEvidence \<Rightarrow> LabVoiceResult \<Rightarrow> bool" where
  "voice_result_malformed attempt result \<longleftrightarrow>
     vr_turn_sequence result = 0 \<or> vr_output_sequence result = 0 \<or>
     (case (voice_turn_sequence attempt, voice_output_sequence attempt) of
        (Some turn, Some output) \<Rightarrow> turn \<noteq> vr_turn_sequence result \<or> output \<noteq> vr_output_sequence result
      | _ \<Rightarrow> False) \<or>
     vr_stt_millis result > MAX_MEDIA_ELAPSED_MILLIS \<or> vr_llm_millis result > MAX_MEDIA_ELAPSED_MILLIS \<or>
     vr_llm_first_meaningful_millis result > vr_llm_millis result \<or>
     vr_avatar_millis result > MAX_MEDIA_ELAPSED_MILLIS \<or>
     is_some_and (\<lambda>ms. ms > vr_avatar_millis result) (vr_tts_first_pcm_millis result) \<or>
     is_some_and (\<lambda>ms. ms > vr_avatar_millis result) (vr_echo_first_send_millis result) \<or>
     (case (vr_tts_first_pcm_millis result, vr_echo_first_send_millis result) of
        (Some first, Some sent) \<Rightarrow> first > sent | _ \<Rightarrow> False) \<or>
     (vr_tts_first_pcm_millis result \<noteq> None) \<noteq> (vr_echo_first_send_millis result \<noteq> None) \<or>
     vr_total_millis result > MAX_MEDIA_ELAPSED_MILLIS \<or> vr_voice_first_text_millis result > vr_total_millis result"

definition complete_voice_request :: "u64 \<Rightarrow> LabVoiceResult \<Rightarrow> unit recording" where
  "complete_voice_request request result self =
     (case map_of (rec_voice self) request of
        None \<Rightarrow> (Err InvalidState, self)
      | Some attempt \<Rightarrow>
          (if voice_status attempt \<noteq> LabVoiceAttemptStatus.Pending then (Err DuplicateEvidence, self)
           else if voice_result_malformed attempt result then (Err InvalidInput, self)
           else (Ok (), self\<lparr>rec_voice := btree_modify request (\<lambda>attempt.
                  attempt\<lparr>voice_turn_sequence := Some (vr_turn_sequence result),
                          voice_output_sequence := Some (vr_output_sequence result),
                          voice_status := LabVoiceAttemptStatus.Completed,
                          stt_millis := Some (vr_stt_millis result), llm_millis := Some (vr_llm_millis result),
                          llm_first_meaningful_millis := Some (vr_llm_first_meaningful_millis result),
                          voice_first_text_millis := Some (vr_voice_first_text_millis result),
                          avatar_millis := Some (vr_avatar_millis result),
                          tts_first_pcm_millis := vr_tts_first_pcm_millis result,
                          echo_first_send_millis := vr_echo_first_send_millis result,
                          voice_server_total_millis := Some (vr_total_millis result),
                          stt_usage := Some (vr_stt_usage result), voice_llm_usage := Some (vr_llm_usage result)\<rparr>)
                  (rec_voice self)\<rparr>)))"

definition fail_voice_request :: "u64 \<Rightarrow> rust_string \<Rightarrow> unit recording" where
  "fail_voice_request request failure_code self =
     (case map_of (rec_voice self) request of
        None \<Rightarrow> (Err InvalidState, self)
      | Some attempt \<Rightarrow>
          (if voice_status attempt \<noteq> LabVoiceAttemptStatus.Pending \<or> blank failure_code then (Err DuplicateEvidence, self)
           else (Ok (), self\<lparr>rec_voice := btree_modify request (\<lambda>attempt.
                  attempt\<lparr>voice_status := LabVoiceAttemptStatus.Failed, voice_failure_code := Some failure_code\<rparr>)
                  (rec_voice self)\<rparr>)))"

section \<open>Media\<close>

definition validate_media :: "LabMediaEvidenceInput \<Rightarrow> LabSessionEvidenceRecorder \<Rightarrow> LabEvidenceError + unit" where
  "validate_media input self =
     (if rec_session self \<noteq> Some (min_session_sequence input) \<or> rec_sealed self then Err InvalidState
      else if min_elapsed_millis input > MAX_MEDIA_ELAPSED_MILLIS then Err InvalidInput
      else if requires_request_sequence (min_kind input) \<noteq> (min_request_sequence input \<noteq> None) then Err InvalidInput
      else if is_some_and (\<lambda>request. map_of (rec_voice self) request = None) (min_request_sequence input)
      then Err InvalidState
      else if list_ex (\<lambda>event. media_kind event = min_kind input \<and>
                media_request_sequence event = min_request_sequence input \<and> min_kind input \<noteq> ReconnectRestored)
              (rec_media self)
      then Err DuplicateEvidence
      else if length (rec_media self) \<ge> RT0_OWNER_LAB_MAX_MEDIA_EVENTS then Err CapacityExceeded
      else Ok ())"

definition push_media :: "LabMediaEvidenceInput \<Rightarrow> LabSessionEvidenceRecorder \<Rightarrow> LabSessionEvidenceRecorder" where
  "push_media input self =
     self\<lparr>rec_media := rec_media self @
       [\<lparr>media_request_sequence = min_request_sequence input, media_kind = min_kind input,
         elapsed_millis = min_elapsed_millis input\<rparr>]\<rparr>"

definition record_media :: "LabMediaEvidenceInput \<Rightarrow> unit recording" where
  "record_media input self =
     (if min_kind input = PlaybackCompleted then (Err InvalidState, self)
      else (case validate_media input self of
              Err e \<Rightarrow> (Err e, self)
            | Ok _ \<Rightarrow> (Ok (), push_media input self)))"

definition completed_playback_binding :: "u64 \<Rightarrow> LabSessionEvidenceRecorder \<Rightarrow> LabEvidenceError + u64 \<times> u64" where
  "completed_playback_binding request self =
     (if rec_sealed self then Err InvalidState
      else (case map_of (rec_voice self) request of
              None \<Rightarrow> Err InvalidState
            | Some attempt \<Rightarrow>
                (if voice_status attempt = LabVoiceAttemptStatus.Failed then Err InvalidState
                 else (case (voice_turn_sequence attempt, voice_output_sequence attempt) of
                         (Some turn, Some output) \<Rightarrow>
                           (if turn > 0 \<and> output > 0 then Ok (turn, output) else Err InvalidState)
                       | _ \<Rightarrow> Err InvalidState))))"

definition prepare_canonical_playback ::
  "LabMediaEvidenceInput \<Rightarrow> LabSessionEvidenceRecorder \<Rightarrow> LabEvidenceError + u64 \<times> u64" where
  "prepare_canonical_playback input self =
     (if min_kind input \<noteq> PlaybackCompleted then Err InvalidInput
      else (case validate_media input self of
              Err e \<Rightarrow> Err e
            | Ok _ \<Rightarrow>
                (case min_request_sequence input of
                   None \<Rightarrow> Err InvalidInput
                 | Some request \<Rightarrow> completed_playback_binding request self)))"

definition record_canonical_playback :: "LabMediaEvidenceInput \<Rightarrow> u64 \<Rightarrow> u64 \<Rightarrow> unit recording" where
  "record_canonical_playback input turn output self =
     (if min_kind input \<noteq> PlaybackCompleted then (Err InvalidInput, self)
      else (case validate_media input self of
              Err e \<Rightarrow> (Err e, self)
            | Ok _ \<Rightarrow>
                (case min_request_sequence input of
                   None \<Rightarrow> (Err InvalidInput, self)
                 | Some request \<Rightarrow>
                     (case completed_playback_binding request self of
                        Err e \<Rightarrow> (Err e, self)
                      | Ok binding \<Rightarrow>
                          (if binding \<noteq> (turn, output) then (Err InvalidState, self)
                           else (case map_of (rec_voice self) request of
                                   None \<Rightarrow> (Err InvalidState, self)
                                 | Some _ \<Rightarrow>
                                     (Ok (), push_media input (self\<lparr>rec_voice := btree_modify request
                                        (\<lambda>attempt. attempt\<lparr>canonical_playback_confirmed := True\<rparr>)
                                        (rec_voice self)\<rparr>))))))))"

section \<open>Synchronisation of audio and video\<close>

definition audio_started :: "u64 \<Rightarrow> LabSessionEvidenceRecorder \<Rightarrow> bool" where
  "audio_started request self \<longleftrightarrow>
     list_ex (\<lambda>event. media_request_sequence event = Some request \<and> media_kind event = AudioStarted) (rec_media self)"

definition sampled :: "u64 \<Rightarrow> u32 \<Rightarrow> LabSessionEvidenceRecorder \<Rightarrow> bool" where
  "sampled request sequence self \<longleftrightarrow>
     list_ex (\<lambda>s. sync_request_sequence s = request \<and> sample_sequence s = sequence) (rec_samples self)"

definition complete_samples :: "u64 \<Rightarrow> LabSessionEvidenceRecorder \<Rightarrow> bool" where
  "complete_samples request self \<longleftrightarrow>
     list_all (\<lambda>n. sampled request (of_nat n) self) [1..<unat RT0_AV_SYNC_SAMPLES_PER_REQUEST + 1]"

definition diagnosed :: "u64 \<Rightarrow> LabSessionEvidenceRecorder \<Rightarrow> bool" where
  "diagnosed request self \<longleftrightarrow> list_ex (\<lambda>d. diag_request_sequence d = request) (rec_diagnostics self)"

definition record_av_sync :: "LabAvSyncEvidenceInput \<Rightarrow> unit recording" where
  "record_av_sync input self =
     (let request = sin_request_sequence input; sequence = sin_sample_sequence input
      in if rec_session self \<noteq> Some (sin_session_sequence input) \<or> rec_sealed self then (Err InvalidState, self)
         else if request = 0 \<or> \<not> (1 \<le> sequence \<and> sequence \<le> RT0_AV_SYNC_SAMPLES_PER_REQUEST) \<or>
                 sin_absolute_offset_millis input > MAX_MEDIA_ELAPSED_MILLIS
         then (Err InvalidInput, self)
         else (case map_of (rec_voice self) request of
                 None \<Rightarrow> (Err InvalidState, self)
               | Some attempt \<Rightarrow>
                   (if voice_status attempt = LabVoiceAttemptStatus.Failed \<or> \<not> audio_started request self
                    then (Err InvalidState, self)
                    else if diagnosed request self then (Err InvalidState, self)
                    else if sampled request sequence self then (Err DuplicateEvidence, self)
                    else if length (rec_samples self) \<ge> RT0_OWNER_LAB_MAX_AV_SYNC_SAMPLES
                    then (Err CapacityExceeded, self)
                    else (Ok (), self\<lparr>rec_samples := rec_samples self @
                           [\<lparr>sync_request_sequence = request, sample_sequence = sequence,
                             reference = sin_reference input,
                             absolute_offset_millis = sin_absolute_offset_millis input\<rparr>]\<rparr>))))"

definition record_av_sync_diagnostic :: "LabAvSyncDiagnosticInput \<Rightarrow> unit recording" where
  "record_av_sync_diagnostic input self =
     (let request = din_request_sequence input
      in if rec_session self \<noteq> Some (din_session_sequence input) \<or> rec_sealed self then (Err InvalidState, self)
         else if request = 0 \<or> din_attempts input = 0 \<or> din_audio_issue input = None \<and> din_video_issue input = None
         then (Err InvalidInput, self)
         else (case map_of (rec_voice self) request of
                 None \<Rightarrow> (Err InvalidState, self)
               | Some attempt \<Rightarrow>
                   (if voice_status attempt = LabVoiceAttemptStatus.Failed \<or> \<not> audio_started request self
                    then (Err InvalidState, self)
                    else if complete_samples request self then (Err InvalidState, self)
                    else if diagnosed request self then (Err DuplicateEvidence, self)
                    else if length (rec_diagnostics self) \<ge> RT0_OWNER_LAB_MAX_SESSION_ATTEMPTS
                    then (Err CapacityExceeded, self)
                    else (Ok (), self\<lparr>rec_diagnostics := rec_diagnostics self @
                           [\<lparr>diag_request_sequence = request, attempts = din_attempts input,
                             audio_issue = din_audio_issue input, video_issue = din_video_issue input\<rparr>]\<rparr>))))"

section \<open>Snapshots\<close>

definition completed_attempts :: "LabSessionEvidenceRecorder \<Rightarrow> LabVoiceAttemptEvidence list" where
  "completed_attempts self =
     filter (\<lambda>attempt. voice_status attempt = LabVoiceAttemptStatus.Completed) (map snd (rec_voice self))"

definition interrupted_requests :: "LabSessionEvidenceRecorder \<Rightarrow> u64 set" where
  "interrupted_requests self =
     set (List.map_filter media_request_sequence
       (filter (\<lambda>event. media_kind event = InterruptionStopped) (rec_media self)))"

definition recorder_playback_proven :: "LabSessionEvidenceRecorder \<Rightarrow> bool" where
  "recorder_playback_proven self \<longleftrightarrow>
     completed_attempts self \<noteq> [] \<and> list_ex canonical_playback_confirmed (completed_attempts self) \<and>
     list_all (\<lambda>attempt. canonical_playback_confirmed attempt \<or>
         voice_request_sequence attempt \<in> interrupted_requests self) (completed_attempts self)"

definition recorder_av_sync_proven :: "LabSessionEvidenceRecorder \<Rightarrow> bool" where
  "recorder_av_sync_proven self \<longleftrightarrow>
     recorder_playback_proven self \<and>
     list_all (\<lambda>attempt. complete_samples (voice_request_sequence attempt) self)
       (filter canonical_playback_confirmed (completed_attempts self))"

definition recorder_snapshot :: "nat \<Rightarrow> LabSessionEvidenceRecorder \<Rightarrow> LabEvidenceError + LabSessionEvidenceSnapshot" where
  "recorder_snapshot now self =
     (case (rec_session self, rec_role self,
            (case rec_sealed_duration self of
               Some d \<Rightarrow> Some d
             | None \<Rightarrow> map_option (\<lambda>started. session_elapsed_millis started now) (rec_started self))) of
        (Some sequence, Some prole, Some duration) \<Rightarrow>
          Ok \<lparr>snap_schema_version = RT0_OWNER_LAB_SESSION_EVIDENCE_SCHEMA, snap_candidate_sha = rec_candidate_sha self,
              snap_provider_state_sha256 = rec_provider_state_sha256 self,
              snap_scope = RT0_OWNER_LAB_MEDIA_EVIDENCE_SCOPE, session_sequence = sequence, participant_role = prole,
              snap_duration_millis = duration, snap_playback_proven = recorder_playback_proven self,
              snap_av_sync_proven = recorder_av_sync_proven self,
              text_attempts = map snd (rec_text self), voice_attempts = map snd (rec_voice self),
              media_events = rec_media self, av_sync_samples = rec_samples self,
              av_sync_diagnostics = rec_diagnostics self\<rparr>
      | _ \<Rightarrow> Err InvalidState)"

section \<open>Histories\<close>

datatype recorder_call =
    BindProvenance rust_string rust_string
  | BeginSession u64 ParticipantRole nat
  | SealSession nat
  | BeginText u64
  | CompleteText u64 LabTextResult
  | FailText u64 rust_string
  | BeginVoice u64
  | BindSegment u64 LabVoiceSegment
  | CompleteVoice u64 LabVoiceResult
  | FailVoice u64 rust_string
  | CanonicalPlayback LabMediaEvidenceInput u64 u64
  | Media LabMediaEvidenceInput
  | AvSync LabAvSyncEvidenceInput
  | AvSyncDiagnostic LabAvSyncDiagnosticInput

fun recorder_step :: "recorder_call \<Rightarrow> unit recording" where
  "recorder_step (BindProvenance c p) r = bind_provenance c p r"
| "recorder_step (BeginSession n prole now) r = begin_session n prole now r"
| "recorder_step (SealSession now) r = (Ok (), seal_session now r)"
| "recorder_step (BeginText n) r = begin_text_request n r"
| "recorder_step (CompleteText n result) r = complete_text_request n result r"
| "recorder_step (FailText n code) r = fail_text_request n code r"
| "recorder_step (BeginVoice n) r = begin_voice_request n r"
| "recorder_step (BindSegment n segment) r = bind_voice_segment n segment r"
| "recorder_step (CompleteVoice n result) r = complete_voice_request n result r"
| "recorder_step (FailVoice n code) r = fail_voice_request n code r"
| "recorder_step (CanonicalPlayback input turn output) r = record_canonical_playback input turn output r"
| "recorder_step (Media input) r = record_media input r"
| "recorder_step (AvSync input) r = record_av_sync input r"
| "recorder_step (AvSyncDiagnostic input) r = record_av_sync_diagnostic input r"

end
