(* ===== verification/VPR_Recorded_Sessions.thy ===== *)
theory VPR_Recorded_Sessions
  imports VPR_Evidence_Recorder
begin

text \<open>
  What the recorder of session evidence guarantees over every history of calls: the invariant of its records, how
  attempts go on, and that a sealed session is final.
\<close>

section \<open>Well-formed records\<close>

definition text_ok :: "u64 \<Rightarrow> LabTextAttemptEvidence \<Rightarrow> bool" where
  "text_ok k a \<longleftrightarrow> text_request_sequence a = k \<and> k \<noteq> 0 \<and>
     (case text_status a of
        LabTextAttemptStatus.Completed \<Rightarrow>
          text_failure_code a = None \<and> text_llm_usage a \<noteq> None \<and>
          (\<exists>turn output first total_ms. text_turn_sequence a = Some turn \<and> turn \<noteq> 0 \<and>
             text_output_sequence a = Some output \<and> output \<noteq> 0 \<and>
             text_first_meaningful_millis a = Some first \<and> text_server_total_millis a = Some total_ms \<and>
             first \<le> total_ms \<and> total_ms \<le> MAX_MEDIA_ELAPSED_MILLIS)
      | st \<Rightarrow>
          (if st = LabTextAttemptStatus.Failed then is_some_and (\<lambda>code. \<not> blank code) (text_failure_code a)
           else text_failure_code a = None) \<and>
          text_turn_sequence a = None \<and> text_output_sequence a = None \<and> text_first_meaningful_millis a = None \<and>
          text_server_total_millis a = None \<and> text_llm_usage a = None)"

definition voice_ok :: "u64 \<Rightarrow> LabVoiceAttemptEvidence \<Rightarrow> bool" where
  "voice_ok k a \<longleftrightarrow> voice_request_sequence a = k \<and> k \<noteq> 0 \<and>
     (voice_turn_sequence a = None \<longleftrightarrow> voice_output_sequence a = None) \<and>
     voice_turn_sequence a \<noteq> Some 0 \<and> voice_output_sequence a \<noteq> Some 0 \<and>
     (canonical_playback_confirmed a \<longrightarrow> voice_turn_sequence a \<noteq> None) \<and>
     (case voice_status a of
        LabVoiceAttemptStatus.Completed \<Rightarrow>
          voice_failure_code a = None \<and> voice_turn_sequence a \<noteq> None \<and> stt_usage a \<noteq> None \<and> voice_llm_usage a \<noteq> None \<and>
          (\<exists>stt llm first text avatar total_ms. stt_millis a = Some stt \<and> stt \<le> MAX_MEDIA_ELAPSED_MILLIS \<and>
             llm_millis a = Some llm \<and> llm \<le> MAX_MEDIA_ELAPSED_MILLIS \<and>
             llm_first_meaningful_millis a = Some first \<and> first \<le> llm \<and>
             avatar_millis a = Some avatar \<and> avatar \<le> MAX_MEDIA_ELAPSED_MILLIS \<and>
             voice_server_total_millis a = Some total_ms \<and> total_ms \<le> MAX_MEDIA_ELAPSED_MILLIS \<and>
             voice_first_text_millis a = Some text \<and> text \<le> total_ms)
      | st \<Rightarrow>
          (if st = LabVoiceAttemptStatus.Failed then is_some_and (\<lambda>code. \<not> blank code) (voice_failure_code a)
           else voice_failure_code a = None) \<and>
          stt_millis a = None \<and> llm_millis a = None \<and> llm_first_meaningful_millis a = None \<and>
          voice_first_text_millis a = None \<and> tts_first_pcm_millis a = None \<and> echo_first_send_millis a = None \<and>
          avatar_millis a = None \<and> voice_server_total_millis a = None \<and> stt_usage a = None \<and> voice_llm_usage a = None)"

definition keys :: "'v btree \<Rightarrow> u64 set" where
  "keys m = fst ` set m"

definition confirmed :: "LabVoiceAttemptEvidence btree \<Rightarrow> u64 set" where
  "confirmed m = {k. \<exists>a. (k, a) \<in> set m \<and> canonical_playback_confirmed a}"

definition seen :: "LabMediaEvidenceKind \<Rightarrow> LabMediaEvidence list \<Rightarrow> u64 set" where
  "seen k media = {q. \<exists>e \<in> set media. media_request_sequence e = Some q \<and> media_kind e = k}"

definition attempts_inv :: "LabTextAttemptEvidence btree \<Rightarrow> LabVoiceAttemptEvidence btree \<Rightarrow> bool" where
  "attempts_inv text voice \<longleftrightarrow>
     btree_wf text \<and> btree_wf voice \<and> (\<forall>(k, a) \<in> set text. text_ok k a) \<and> (\<forall>(k, a) \<in> set voice. voice_ok k a) \<and>
     length text + length voice \<le> RT0_OWNER_LAB_MAX_SESSION_ATTEMPTS"

definition media_inv :: "u64 set \<Rightarrow> u64 set \<Rightarrow> LabMediaEvidence list \<Rightarrow> bool" where
  "media_inv K C media \<longleftrightarrow>
     length media \<le> RT0_OWNER_LAB_MAX_MEDIA_EVENTS \<and>
     (\<forall>e \<in> set media. elapsed_millis e \<le> MAX_MEDIA_ELAPSED_MILLIS \<and>
        (requires_request_sequence (media_kind e) \<longleftrightarrow> media_request_sequence e \<noteq> None) \<and>
        (\<forall>q. media_request_sequence e = Some q \<longrightarrow> q \<in> K)) \<and>
     distinct (map (\<lambda>e. (media_request_sequence e, media_kind e)) (filter (\<lambda>e. media_kind e \<noteq> ReconnectRestored) media)) \<and>
     C = seen PlaybackCompleted media"

definition samples_inv :: "u64 set \<Rightarrow> LabAvSyncEvidence list \<Rightarrow> bool" where
  "samples_inv audio sync \<longleftrightarrow>
     length sync \<le> RT0_OWNER_LAB_MAX_AV_SYNC_SAMPLES \<and>
     (\<forall>s \<in> set sync. sync_request_sequence s \<noteq> 0 \<and> sync_request_sequence s \<in> audio \<and> 1 \<le> sample_sequence s \<and>
        sample_sequence s \<le> RT0_AV_SYNC_SAMPLES_PER_REQUEST \<and> absolute_offset_millis s \<le> MAX_MEDIA_ELAPSED_MILLIS) \<and>
     distinct (map (\<lambda>s. (sync_request_sequence s, sample_sequence s)) sync)"

definition diagnostics_inv :: "u64 set \<Rightarrow> LabAvSyncDiagnostic list \<Rightarrow> bool" where
  "diagnostics_inv audio diags \<longleftrightarrow>
     length diags \<le> RT0_OWNER_LAB_MAX_SESSION_ATTEMPTS \<and>
     (\<forall>d \<in> set diags. diag_request_sequence d \<noteq> 0 \<and> diag_request_sequence d \<in> audio \<and> attempts d \<noteq> 0 \<and>
        (audio_issue d \<noteq> None \<or> video_issue d \<noteq> None)) \<and>
     distinct (map diag_request_sequence diags)"

definition session_inv :: "LabSessionEvidenceRecorder \<Rightarrow> bool" where
  "session_inv r \<longleftrightarrow>
     (case rec_session r of
        None \<Rightarrow> rec_text r = [] \<and> rec_voice r = [] \<and> rec_media r = [] \<and> rec_samples r = [] \<and> rec_diagnostics r = [] \<and>
          \<not> rec_sealed r
      | Some n \<Rightarrow> n \<noteq> 0 \<and> rec_role r \<noteq> None \<and> rec_started r \<noteq> None) \<and>
     (rec_sealed r \<longleftrightarrow> rec_sealed_duration r \<noteq> None) \<and> rec_sealed_duration r \<noteq> Some 0 \<and>
     (rec_candidate_sha r = [] \<and> rec_provider_state_sha256 r = [] \<or>
      is_ok (validate_candidate_sha (rec_candidate_sha r)) \<and> utf8_len (rec_provider_state_sha256 r) = 64 \<and>
      list_all is_lower_hex (utf8_bytes (rec_provider_state_sha256 r)))"

definition recorder_inv :: "LabSessionEvidenceRecorder \<Rightarrow> bool" where
  "recorder_inv r \<longleftrightarrow>
     session_inv r \<and> attempts_inv (rec_text r) (rec_voice r) \<and>
     media_inv (keys (rec_voice r)) (confirmed (rec_voice r)) (rec_media r) \<and>
     samples_inv (seen AudioStarted (rec_media r)) (rec_samples r) \<and>
     diagnostics_inv (seen AudioStarted (rec_media r)) (rec_diagnostics r) \<and>
     (\<forall>d \<in> set (rec_diagnostics r). \<not> complete_samples (diag_request_sequence d) r)"

section \<open>How the operations change the parts\<close>

lemma attempts_insert:
  assumes "attempts_inv t v" and "length t + length v < RT0_OWNER_LAB_MAX_SESSION_ATTEMPTS"
  shows "map_of t k = None \<Longrightarrow> text_ok k a \<Longrightarrow> attempts_inv (btree_insert k a t) v"
    and "map_of v k = None \<Longrightarrow> voice_ok k b \<Longrightarrow> attempts_inv t (btree_insert k b v)"
  using assms btree_insert_new [of t k a] btree_insert_new [of v k b]
  by (auto simp: attempts_inv_def btree_insert_wf)

lemma attempts_modify:
  assumes "attempts_inv t v"
  shows "map_of t k = Some a \<Longrightarrow> text_ok k (f a) \<Longrightarrow> attempts_inv (btree_modify k f t) v"
    and "map_of v k = Some b \<Longrightarrow> voice_ok k (g b) \<Longrightarrow> attempts_inv t (btree_modify k g v)"
  using assms btree_modify_all [of t k a text_ok f] btree_modify_all [of v k b voice_ok g]
  by (auto simp: attempts_inv_def)

lemma attempt_ok:
  assumes "attempts_inv t v"
  shows "map_of t k = Some a \<Longrightarrow> text_ok k a" and "map_of v k = Some b \<Longrightarrow> voice_ok k b"
  using assms by (auto simp: attempts_inv_def btree_get_iff)

lemma keys_simps [simp]:
  "keys (btree_modify k f m) = keys m"
  "map_of m k = None \<Longrightarrow> keys (btree_insert k v m) = insert k (keys m)"
  using btree_insert_new [of m k v] by (simp_all add: keys_def flip: set_map)

lemma keys_iff: "k \<in> keys m \<longleftrightarrow> map_of m k \<noteq> None"
  by (simp add: keys_def map_of_eq_None_iff)

lemma confirmed_insert:
  "map_of m k = None \<Longrightarrow> \<not> canonical_playback_confirmed a \<Longrightarrow> confirmed (btree_insert k a m) = confirmed m"
  using btree_insert_new [of m k a] by (auto simp: confirmed_def)

lemma confirmed_simps:
  "confirmed [] = {}"
  "confirmed ((k, a) # m) = (if canonical_playback_confirmed a then insert k (confirmed m) else confirmed m)"
  by (auto simp: confirmed_def)

lemma confirmed_modify:
  assumes "\<And>a. canonical_playback_confirmed (f a) = canonical_playback_confirmed a"
  shows "confirmed (btree_modify k f m) = confirmed m"
  by (induction m) (auto simp: btree_modify_def confirmed_simps assms split: if_splits)

lemma confirmed_confirm:
  assumes "map_of m k = Some a"
  shows "confirmed (btree_modify k (\<lambda>a. a\<lparr>canonical_playback_confirmed := True\<rparr>) m) = insert k (confirmed m)"
proof (intro set_eqI)
  fix q
  show "q \<in> confirmed (btree_modify k (\<lambda>a. a\<lparr>canonical_playback_confirmed := True\<rparr>) m) \<longleftrightarrow> q \<in> insert k (confirmed m)"
  proof (cases "q = k")
    case True
    have "(k, a\<lparr>canonical_playback_confirmed := True\<rparr>) \<in>
        set (btree_modify k (\<lambda>a. a\<lparr>canonical_playback_confirmed := True\<rparr>) m)"
      using map_of_SomeD [OF assms] by (auto simp: btree_modify_mem)
    then show ?thesis using True by (auto simp: confirmed_def intro!: exI)
  qed (simp add: confirmed_def btree_modify_mem)
qed

lemma media_inv_mono: "media_inv K C media \<Longrightarrow> K \<subseteq> K' \<Longrightarrow> media_inv K' C media"
  by (auto simp: media_inv_def)

lemma seen_append: "seen k (media @ [e]) = seen k media \<union>
    (if media_kind e = k then (case media_request_sequence e of None \<Rightarrow> {} | Some q \<Rightarrow> {q}) else {})"
  by (auto simp: seen_def split: option.splits)

lemma sync_inv_mono:
  "samples_inv audio sync \<Longrightarrow> audio \<subseteq> audio' \<Longrightarrow> samples_inv audio' sync"
  "diagnostics_inv audio diags \<Longrightarrow> audio \<subseteq> audio' \<Longrightarrow> diagnostics_inv audio' diags"
  by (auto simp: samples_inv_def diagnostics_inv_def)

lemma audio_started_iff: "audio_started q r \<longleftrightarrow> q \<in> seen AudioStarted (rec_media r)"
  by (auto simp: audio_started_def seen_def list_ex_iff)

lemma complete_samples_cong [simp]:
  "complete_samples q (r\<lparr>rec_text := t\<rparr>) = complete_samples q r"
  "complete_samples q (r\<lparr>rec_voice := v\<rparr>) = complete_samples q r"
  "complete_samples q (r\<lparr>rec_media := m\<rparr>) = complete_samples q r"
  "complete_samples q (r\<lparr>rec_diagnostics := d\<rparr>) = complete_samples q r"
  by (simp_all add: complete_samples_def sampled_def)

lemma session_inv_frame [simp]:
  "rec_session r \<noteq> None \<Longrightarrow> session_inv (r\<lparr>rec_text := t\<rparr>) = session_inv r"
  "rec_session r \<noteq> None \<Longrightarrow> session_inv (r\<lparr>rec_voice := v\<rparr>) = session_inv r"
  "rec_session r \<noteq> None \<Longrightarrow> session_inv (r\<lparr>rec_media := m\<rparr>) = session_inv r"
  "rec_session r \<noteq> None \<Longrightarrow> session_inv (r\<lparr>rec_samples := sm\<rparr>) = session_inv r"
  "rec_session r \<noteq> None \<Longrightarrow> session_inv (r\<lparr>rec_diagnostics := d\<rparr>) = session_inv r"
  by (auto simp: session_inv_def)

lemma session_of_attempt:
  "session_inv r \<Longrightarrow> map_of (rec_text r) k = Some a \<Longrightarrow> rec_session r \<noteq> None"
  "session_inv r \<Longrightarrow> map_of (rec_voice r) k = Some b \<Longrightarrow> rec_session r \<noteq> None"
  by (auto simp: session_inv_def split: option.splits)

lemma count_below: "session_attempt_count r < RT0_OWNER_LAB_MAX_SESSION_ATTEMPTS \<Longrightarrow>
    length (rec_text r) + length (rec_voice r) < RT0_OWNER_LAB_MAX_SESSION_ATTEMPTS"
  by (simp add: session_attempt_count_def RT0_OWNER_LAB_MAX_SESSION_ATTEMPTS_def)

text \<open>A change of the text or the voice attempts, of the media and of what depends on them.\<close>

lemma recorder_inv_text:
  "recorder_inv r \<Longrightarrow> rec_session r \<noteq> None \<Longrightarrow> attempts_inv t (rec_voice r) \<Longrightarrow> recorder_inv (r\<lparr>rec_text := t\<rparr>)"
  by (simp add: recorder_inv_def)

lemma recorder_inv_voice:
  assumes "recorder_inv r" and "rec_session r \<noteq> None" and "attempts_inv (rec_text r) v"
    and "keys (rec_voice r) \<subseteq> keys v" and "confirmed v = confirmed (rec_voice r)"
  shows "recorder_inv (r\<lparr>rec_voice := v\<rparr>)"
  using assms media_inv_mono [OF _ assms(4)] by (simp add: recorder_inv_def)

lemma validate_media_Ok:
  "validate_media input r = Ok u \<longleftrightarrow>
     rec_session r = Some (min_session_sequence input) \<and> \<not> rec_sealed r \<and>
     min_elapsed_millis input \<le> MAX_MEDIA_ELAPSED_MILLIS \<and>
     (requires_request_sequence (min_kind input) \<longleftrightarrow> min_request_sequence input \<noteq> None) \<and>
     (\<forall>q. min_request_sequence input = Some q \<longrightarrow> q \<in> keys (rec_voice r)) \<and>
     (min_kind input \<noteq> ReconnectRestored \<longrightarrow>
        \<not> (\<exists>e \<in> set (rec_media r). media_kind e = min_kind input \<and> media_request_sequence e = min_request_sequence input)) \<and>
     length (rec_media r) < RT0_OWNER_LAB_MAX_MEDIA_EVENTS"
  by (cases "min_request_sequence input")
    (auto simp: validate_media_def keys_iff list_ex_iff not_le not_less split: if_splits)

lemma media_inv_snoc:
  assumes inv: "media_inv K C media" and "length media < RT0_OWNER_LAB_MAX_MEDIA_EVENTS"
    and "elapsed_millis e \<le> MAX_MEDIA_ELAPSED_MILLIS"
    and "requires_request_sequence (media_kind e) \<longleftrightarrow> media_request_sequence e \<noteq> None"
    and "\<And>q. media_request_sequence e = Some q \<Longrightarrow> q \<in> K"
    and new: "media_kind e \<noteq> ReconnectRestored \<longrightarrow>
      \<not> (\<exists>x \<in> set media. media_kind x = media_kind e \<and> media_request_sequence x = media_request_sequence e)"
  shows "media_inv K (C \<union> (if media_kind e = PlaybackCompleted
      then (case media_request_sequence e of None \<Rightarrow> {} | Some q \<Rightarrow> {q}) else {})) (media @ [e])"
proof -
  let ?f = "\<lambda>e. (media_request_sequence e, media_kind e)" and ?l = "filter (\<lambda>e. media_kind e \<noteq> ReconnectRestored) media"
  have "media_kind e \<noteq> ReconnectRestored \<Longrightarrow> ?f e \<notin> set (map ?f ?l)" using new by auto
  then have "distinct (map ?f (filter (\<lambda>e. media_kind e \<noteq> ReconnectRestored) (media @ [e])))"
    using inv by (auto simp: media_inv_def simp del: set_map)
  then show ?thesis using assms(1-5) unfolding media_inv_def seen_append by auto
qed

lemma recorder_inv_media:
  assumes inv: "recorder_inv r" and ok: "validate_media input r = Ok u" and v: "attempts_inv (rec_text r) v"
    and keys: "keys v = keys (rec_voice r)"
    and confirmed: "confirmed v = confirmed (rec_voice r) \<union>
      (if min_kind input = PlaybackCompleted then (case min_request_sequence input of None \<Rightarrow> {} | Some q \<Rightarrow> {q}) else {})"
  shows "recorder_inv (push_media input (r\<lparr>rec_voice := v\<rparr>))"
proof -
  let ?e = "\<lparr>media_request_sequence = min_request_sequence input, media_kind = min_kind input,
    elapsed_millis = min_elapsed_millis input\<rparr>"
  have audio: "seen AudioStarted (rec_media r) \<subseteq> seen AudioStarted (rec_media r @ [?e])" by (simp add: seen_append)
  have "media_inv (keys v) (confirmed v) (rec_media r @ [?e])"
    using inv ok media_inv_snoc [of "keys (rec_voice r)" "confirmed (rec_voice r)" "rec_media r" ?e]
    by (cases "min_kind input = PlaybackCompleted") (simp_all add: recorder_inv_def keys confirmed validate_media_Ok)
  then show ?thesis
    using inv v ok sync_inv_mono(1) [OF _ audio] sync_inv_mono(2) [OF _ audio]
    by (simp add: recorder_inv_def push_media_def validate_media_Ok)
qed

section \<open>Every call keeps the invariant\<close>

lemma provenance_inv: "recorder_inv r \<Longrightarrow> recorder_inv (snd (bind_provenance c p r))"
  by (auto simp: recorder_inv_def bind_provenance_def session_inv_def complete_samples_def sampled_def split: option.splits)

lemma empty_inv:
  "attempts_inv [] []" "media_inv (keys []) (confirmed []) []" "samples_inv {} []" "diagnostics_inv {} []"
  "seen k [] = {}"
  by (simp_all add: attempts_inv_def media_inv_def samples_inv_def diagnostics_inv_def confirmed_def seen_def)

lemma begin_session_inv: "recorder_inv r \<Longrightarrow> recorder_inv (snd (begin_session n p now r))"
  by (auto simp: recorder_inv_def begin_session_def session_inv_def empty_inv split: option.splits)

lemma session_elapsed_positive: "session_elapsed_millis started now \<noteq> 0"
proof -
  have "(1 :: u64) \<le> session_elapsed_millis started now" by (simp add: session_elapsed_millis_def)
  then show ?thesis by (auto simp: word_le_nat_alt)
qed

lemma seal_session_inv: "recorder_inv r \<Longrightarrow> recorder_inv (seal_session now r)"
  by (auto simp: recorder_inv_def seal_session_def session_inv_def complete_samples_def sampled_def session_elapsed_positive
      split: option.splits)

lemma begin_text_inv: "recorder_inv r \<Longrightarrow> recorder_inv (snd (begin_text_request k r))"
  by (auto simp: begin_text_request_def not_le text_ok_def recorder_inv_def intro!: recorder_inv_text attempts_insert(1) count_below)

lemma text_modify_inv:
  assumes "recorder_inv r" and "map_of (rec_text r) k = Some a" and "text_ok k a \<Longrightarrow> text_ok k (f a)"
  shows "recorder_inv (r\<lparr>rec_text := btree_modify k f (rec_text r)\<rparr>)"
proof -
  have i: "session_inv r" "attempts_inv (rec_text r) (rec_voice r)" using assms(1) by (auto simp: recorder_inv_def)
  show ?thesis
    by (rule recorder_inv_text [OF assms(1) session_of_attempt(1) [OF i(1) assms(2)]])
      (rule attempts_modify(1) [OF i(2) assms(2)], rule assms(3), rule attempt_ok(1) [OF i(2) assms(2)])
qed

lemma voice_modify_inv:
  assumes "recorder_inv r" and "map_of (rec_voice r) k = Some a" and "voice_ok k a \<Longrightarrow> voice_ok k (f a)"
    and "\<And>a. canonical_playback_confirmed (f a) = canonical_playback_confirmed a"
  shows "recorder_inv (r\<lparr>rec_voice := btree_modify k f (rec_voice r)\<rparr>)"
proof -
  have i: "session_inv r" "attempts_inv (rec_text r) (rec_voice r)" using assms(1) by (auto simp: recorder_inv_def)
  have "attempts_inv (rec_text r) (btree_modify k f (rec_voice r))"
    by (rule attempts_modify(2) [OF i(2) assms(2)], rule assms(3), rule attempt_ok(2) [OF i(2) assms(2)])
  then show ?thesis
    by (rule recorder_inv_voice [OF assms(1) session_of_attempt(2) [OF i(1) assms(2)]])
      (simp_all add: confirmed_modify assms(4))
qed

lemma complete_text_inv: "recorder_inv r \<Longrightarrow> recorder_inv (snd (complete_text_request k result r))"
  by (auto simp: complete_text_request_def not_less text_ok_def intro!: text_modify_inv split: option.splits)

lemma fail_text_inv: "recorder_inv r \<Longrightarrow> recorder_inv (snd (fail_text_request k code r))"
  by (auto simp: fail_text_request_def text_ok_def intro!: text_modify_inv split: option.splits)

lemma begin_voice_inv: "recorder_inv r \<Longrightarrow> recorder_inv (snd (begin_voice_request k r))"
  by (auto simp: begin_voice_request_def not_le voice_ok_def recorder_inv_def confirmed_insert
      intro!: recorder_inv_voice attempts_insert(2) count_below media_inv_mono [OF _ subset_insertI])

lemma bind_segment_inv: "recorder_inv r \<Longrightarrow> recorder_inv (snd (bind_voice_segment k seg r))"
  by (auto simp: bind_voice_segment_def voice_ok_def intro!: voice_modify_inv split: option.splits)

lemma complete_voice_inv: "recorder_inv r \<Longrightarrow> recorder_inv (snd (complete_voice_request k result r))"
  by (auto simp: complete_voice_request_def voice_result_malformed_def not_less voice_ok_def intro!: voice_modify_inv
      split: option.splits)

lemma fail_voice_inv: "recorder_inv r \<Longrightarrow> recorder_inv (snd (fail_voice_request k code r))"
  by (auto simp: fail_voice_request_def voice_ok_def intro!: voice_modify_inv split: option.splits)

lemma record_media_inv: "recorder_inv r \<Longrightarrow> recorder_inv (snd (record_media input r))"
  using recorder_inv_media [of r input "()" "rec_voice r"]
  by (auto simp: record_media_def recorder_inv_def [of r] split: sum.splits)

lemma binding_Ok:
  "completed_playback_binding k r = Ok (turn, output) \<Longrightarrow>
     \<exists>a. map_of (rec_voice r) k = Some a \<and> voice_turn_sequence a = Some turn \<and> voice_output_sequence a = Some output"
  by (auto simp: completed_playback_binding_def split: option.splits if_splits)

lemma canonical_playback_inv:
  assumes inv: "recorder_inv r" shows "recorder_inv (snd (record_canonical_playback input turn output r))"
proof (cases "fst (record_canonical_playback input turn output r)")
  case (Inl e)
  then show ?thesis
    using inv by (auto simp: record_canonical_playback_def split: if_splits sum.splits option.splits)
next
  case (Inr u)
  then obtain k where k0: "min_kind input = PlaybackCompleted" "validate_media input r = Ok ()"
      "min_request_sequence input = Some k" "completed_playback_binding k r = Ok (turn, output)"
      and run: "snd (record_canonical_playback input turn output r) = push_media input
        (r\<lparr>rec_voice := btree_modify k (\<lambda>a. a\<lparr>canonical_playback_confirmed := True\<rparr>) (rec_voice r)\<rparr>)"
    by (auto simp: record_canonical_playback_def split: if_splits sum.splits option.splits)
  from binding_Ok [OF k0(4)] obtain a where k: "min_kind input = PlaybackCompleted" "validate_media input r = Ok ()"
      "min_request_sequence input = Some k" "map_of (rec_voice r) k = Some a" "voice_turn_sequence a = Some turn"
      "voice_output_sequence a = Some output"
    using k0 by blast
  have att: "attempts_inv (rec_text r) (rec_voice r)" using inv by (simp add: recorder_inv_def)
  have "attempts_inv (rec_text r) (btree_modify k (\<lambda>a. a\<lparr>canonical_playback_confirmed := True\<rparr>) (rec_voice r))"
    using attempt_ok(2) [OF att k(4)] k(5,6)
    by (intro attempts_modify(2) [OF att k(4)]) (cases "voice_status a", auto simp: voice_ok_def)
  then show ?thesis
    unfolding run
    by (rule recorder_inv_media [OF inv k(2)]) (simp_all add: confirmed_confirm [OF k(4)] k(1,3))
qed

lemma complete_samples_iff:
  "complete_samples q r \<longleftrightarrow> sampled q 1 r \<and> sampled q 2 r \<and> sampled q 3 r"
proof -
  have "[1..<unat RT0_AV_SYNC_SAMPLES_PER_REQUEST + 1] = [1, 2, 3]"
    by (simp add: RT0_AV_SYNC_SAMPLES_PER_REQUEST_def upt_conv_Cons)
  then show ?thesis by (simp add: complete_samples_def)
qed

lemma record_av_sync_cases:
  assumes "record_av_sync input r = (x, r')"
  obtains (refused) e where "x = Err e" "r' = r"
  | (recorded) "x = Ok ()" "rec_session r = Some (sin_session_sequence input)" "sin_request_sequence input \<noteq> 0" "1 \<le> sin_sample_sequence input"
      "sin_sample_sequence input \<le> RT0_AV_SYNC_SAMPLES_PER_REQUEST"
      "\<not> sin_absolute_offset_millis input > MAX_MEDIA_ELAPSED_MILLIS"
      "audio_started (sin_request_sequence input) r" "\<not> diagnosed (sin_request_sequence input) r"
      "\<not> sampled (sin_request_sequence input) (sin_sample_sequence input) r"
      "\<not> length (rec_samples r) \<ge> RT0_OWNER_LAB_MAX_AV_SYNC_SAMPLES"
      "r' = r\<lparr>rec_samples := rec_samples r @
        [\<lparr>sync_request_sequence = sin_request_sequence input, sample_sequence = sin_sample_sequence input,
          reference = sin_reference input, absolute_offset_millis = sin_absolute_offset_millis input\<rparr>]\<rparr>"
  apply (insert assms, unfold record_av_sync_def Let_def)
  by ((split if_split_asm, elim Pair_inject, blast) | (split option.split_asm, elim Pair_inject, blast))+
    (elim Pair_inject, blast)

lemma record_av_sync_inv:
  assumes inv: "recorder_inv r" shows "recorder_inv (snd (record_av_sync input r))"
proof (cases "record_av_sync input r")
  case run: (Pair x r')
  then show ?thesis
  proof (cases rule: record_av_sync_cases)
    case recorded
    let ?s = "\<lparr>sync_request_sequence = sin_request_sequence input, sample_sequence = sin_sample_sequence input,
      reference = sin_reference input, absolute_offset_millis = sin_absolute_offset_millis input\<rparr>"
    have "samples_inv (seen AudioStarted (rec_media r)) (rec_samples r @ [?s])"
      using inv recorded(3-7,9,10) unfolding recorder_inv_def samples_inv_def sampled_def audio_started_iff list_ex_iff not_less not_le by auto
    moreover have "\<not> complete_samples (diag_request_sequence d) (r\<lparr>rec_samples := rec_samples r @ [?s]\<rparr>)"
      if "d \<in> set (rec_diagnostics r)" for d
    proof -
      have "diag_request_sequence d \<noteq> sin_request_sequence input" using that recorded(8) by (auto simp: diagnosed_def list_ex_iff)
      then show ?thesis using inv that by (auto simp: recorder_inv_def complete_samples_iff sampled_def)
    qed
    ultimately show ?thesis using inv recorded(2,11) run by (simp add: recorder_inv_def)
  qed (use inv run in simp)
qed

lemma record_diagnostic_cases:
  assumes "record_av_sync_diagnostic input r = (x, r')"
  obtains (refused) e where "x = Err e" "r' = r"
  | (recorded) "x = Ok ()" "rec_session r = Some (din_session_sequence input)" "din_request_sequence input \<noteq> 0" "din_attempts input \<noteq> 0"
      "\<not> (din_audio_issue input = None \<and> din_video_issue input = None)"
      "audio_started (din_request_sequence input) r" "\<not> complete_samples (din_request_sequence input) r"
      "\<not> diagnosed (din_request_sequence input) r" "\<not> length (rec_diagnostics r) \<ge> RT0_OWNER_LAB_MAX_SESSION_ATTEMPTS"
      "r' = r\<lparr>rec_diagnostics := rec_diagnostics r @
        [\<lparr>diag_request_sequence = din_request_sequence input, attempts = din_attempts input,
          audio_issue = din_audio_issue input, video_issue = din_video_issue input\<rparr>]\<rparr>"
  apply (insert assms, unfold record_av_sync_diagnostic_def Let_def)
  by ((split if_split_asm, elim Pair_inject, blast) | (split option.split_asm, elim Pair_inject, blast))+
    (elim Pair_inject, blast)

lemma record_diagnostic_inv:
  assumes inv: "recorder_inv r" shows "recorder_inv (snd (record_av_sync_diagnostic input r))"
proof (cases "record_av_sync_diagnostic input r")
  case run: (Pair x r')
  then show ?thesis
  proof (cases rule: record_diagnostic_cases)
    case recorded
    let ?d = "\<lparr>diag_request_sequence = din_request_sequence input, attempts = din_attempts input,
      audio_issue = din_audio_issue input, video_issue = din_video_issue input\<rparr>"
    have "diagnostics_inv (seen AudioStarted (rec_media r)) (rec_diagnostics r @ [?d])"
      using inv recorded(3-6,8,9)
      unfolding recorder_inv_def diagnostics_inv_def diagnosed_def audio_started_iff list_ex_iff not_le by auto
    then show ?thesis using inv recorded(2,7,10) run by (simp add: recorder_inv_def)
  qed (use inv run in simp)
qed

lemmas recorder_step_inv =
  provenance_inv begin_session_inv seal_session_inv begin_text_inv complete_text_inv fail_text_inv begin_voice_inv
  bind_segment_inv complete_voice_inv fail_voice_inv canonical_playback_inv record_media_inv record_av_sync_inv
  record_diagnostic_inv

lemma recorder_history_inv: "recorder_inv (final recorder_step calls recorder_default)"
proof (rule run_ops_invariant)
  show "recorder_inv (snd (recorder_step c r))" if "recorder_inv r" for c r
    using that by (cases c) (simp_all add: recorder_step_inv)
  show "recorder_inv recorder_default"
    by (simp add: recorder_inv_def recorder_default_def session_inv_def empty_inv)
qed

section \<open>How attempts go on\<close>

fun begins_session :: "recorder_call \<Rightarrow> bool" where
  "begins_session (BeginSession _ _ _) = True"
| "begins_session _ = False"

definition voice_progress :: "LabVoiceAttemptEvidence \<Rightarrow> LabVoiceAttemptEvidence \<Rightarrow> bool" where
  "voice_progress a a' \<longleftrightarrow>
     (voice_turn_sequence a \<noteq> None \<longrightarrow> voice_turn_sequence a' \<noteq> None) \<and>
     (voice_status a = LabVoiceAttemptStatus.Failed \<longrightarrow> a' = a)"

lemma voice_progress_refl [simp]: "voice_progress a a"
  by (simp add: voice_progress_def)

lemma voice_progress_trans: "voice_progress a b \<Longrightarrow> voice_progress b c \<Longrightarrow> voice_progress a c"
  by (auto simp: voice_progress_def)

lemma modify_progress:
  assumes "map_of (rec_voice r) k = Some a" and "map_of (rec_voice r) q = Some b"
    and "voice_status b \<noteq> LabVoiceAttemptStatus.Failed"
    and "\<And>b. voice_turn_sequence b \<noteq> None \<Longrightarrow> voice_turn_sequence (f b) \<noteq> None"
  shows "\<exists>a'. map_of (btree_modify q f (rec_voice r)) k = Some a' \<and> voice_progress a a'"
  using assms by (auto simp: btree_modify_get voice_progress_def)

lemma voice_step_progress:
  assumes get: "map_of (rec_voice r) k = Some a" and other: "\<not> begins_session c"
  shows "\<exists>a'. map_of (rec_voice (snd (recorder_step c r))) k = Some a' \<and> voice_progress a a'"
proof -
  have same: "\<exists>a'. map_of (rec_voice r) k = Some a' \<and> voice_progress a a'" using get by auto
  note modify = modify_progress [OF get]
  show ?thesis
  proof (cases c)
    case (BeginVoice n)
    then show ?thesis using get by (auto simp: begin_voice_request_def btree_insert_get)
  next
    case (BindSegment n seg)
    then show ?thesis using same by (auto simp: bind_voice_segment_def intro!: modify split: option.splits)
  next
    case (CompleteVoice n result)
    then show ?thesis using same by (auto simp: complete_voice_request_def intro!: modify split: option.splits)
  next
    case (FailVoice n code)
    then show ?thesis using same by (auto simp: fail_voice_request_def intro!: modify split: option.splits)
  next
    case (CanonicalPlayback input turn out)
    then show ?thesis
      using same by (auto simp: record_canonical_playback_def push_media_def completed_playback_binding_def intro!: modify
          split: sum.splits option.splits if_splits)
  next
    case (AvSync input)
    then show ?thesis using get by (cases "record_av_sync input r") (auto elim: record_av_sync_cases)
  next
    case (AvSyncDiagnostic input)
    then show ?thesis using get by (cases "record_av_sync_diagnostic input r") (auto elim: record_diagnostic_cases)
  qed (use get other in \<open>auto simp: bind_provenance_def seal_session_def begin_text_request_def complete_text_request_def
      fail_text_request_def record_media_def push_media_def split: option.splits sum.splits\<close>)
qed

lemma voice_run_progress:
  "map_of (rec_voice r) k = Some a \<Longrightarrow> \<forall>c \<in> set calls. \<not> begins_session c \<Longrightarrow>
     \<exists>a'. map_of (rec_voice (final recorder_step calls r)) k = Some a' \<and> voice_progress a a'"
proof (induction calls arbitrary: r a)
  case (Cons c calls)
  obtain b where b: "map_of (rec_voice (snd (recorder_step c r))) k = Some b" "voice_progress a b"
    using voice_step_progress [OF Cons.prems(1)] Cons.prems(2) by auto
  then show ?case using Cons.IH [OF b(1)] Cons.prems(2) voice_progress_trans [OF b(2)] by auto
qed auto

section \<open>Sealed sessions\<close>

definition sealed_same :: "LabSessionEvidenceRecorder \<Rightarrow> LabSessionEvidenceRecorder \<Rightarrow> bool" where
  "sealed_same r r' \<longleftrightarrow>
     rec_sealed r' \<and> rec_session r' = rec_session r \<and> rec_candidate_sha r' = rec_candidate_sha r \<and>
     rec_provider_state_sha256 r' = rec_provider_state_sha256 r \<and> rec_sealed_duration r' = rec_sealed_duration r \<and>
     map fst (rec_text r') = map fst (rec_text r) \<and> map fst (rec_voice r') = map fst (rec_voice r) \<and>
     rec_media r' = rec_media r \<and> rec_samples r' = rec_samples r \<and> rec_diagnostics r' = rec_diagnostics r \<and>
     (\<forall>k a. map_of (rec_text r) k = Some a \<and> text_status a \<noteq> LabTextAttemptStatus.Pending \<longrightarrow> map_of (rec_text r') k = Some a) \<and>
     (\<forall>k a. map_of (rec_voice r) k = Some a \<and> voice_status a \<noteq> LabVoiceAttemptStatus.Pending \<longrightarrow> map_of (rec_voice r') k = Some a)"

lemma sealed_same_refl: "rec_sealed r \<Longrightarrow> sealed_same r r"
  by (simp add: sealed_same_def)

lemma sealed_same_trans: "sealed_same r s \<Longrightarrow> sealed_same s t \<Longrightarrow> sealed_same r t"
  by (simp add: sealed_same_def)

lemma sealed_modify:
  assumes "rec_sealed r"
  shows "map_of (rec_text r) k = Some a \<Longrightarrow> text_status a = LabTextAttemptStatus.Pending \<Longrightarrow>
      sealed_same r (r\<lparr>rec_text := btree_modify k f (rec_text r)\<rparr>)"
    and "map_of (rec_voice r) k = Some b \<Longrightarrow> voice_status b = LabVoiceAttemptStatus.Pending \<Longrightarrow>
      sealed_same r (r\<lparr>rec_voice := btree_modify k g (rec_voice r)\<rparr>)"
  using assms by (auto simp: sealed_same_def btree_modify_get)

lemma sealed_step:
  assumes sealed: "rec_sealed r" and session: "rec_session r \<noteq> None" and other: "\<not> begins_session c"
  shows "sealed_same r (snd (recorder_step c r))"
proof -
  note same = sealed_same_refl [OF sealed]
  note modify = sealed_modify [OF sealed]
  show ?thesis
  proof (cases c)
    case (CompleteText n result)
    then show ?thesis using same by (auto simp: complete_text_request_def intro!: modify(1) split: option.splits)
  next
    case (FailText n code)
    then show ?thesis using same by (auto simp: fail_text_request_def intro!: modify(1) split: option.splits)
  next
    case (BindSegment n seg)
    then show ?thesis using same by (auto simp: bind_voice_segment_def intro!: modify(2) split: option.splits)
  next
    case (CompleteVoice n result)
    then show ?thesis using same by (auto simp: complete_voice_request_def intro!: modify(2) split: option.splits)
  next
    case (FailVoice n code)
    then show ?thesis using same by (auto simp: fail_voice_request_def intro!: modify(2) split: option.splits)
  qed (use same sealed session other in \<open>simp_all add: bind_provenance_def seal_session_def begin_text_request_def
      begin_voice_request_def record_canonical_playback_def record_media_def validate_media_def record_av_sync_def
      record_av_sync_diagnostic_def\<close>)
qed

lemma sealed_run:
  "rec_sealed r \<Longrightarrow> rec_session r \<noteq> None \<Longrightarrow> \<forall>c \<in> set calls. \<not> begins_session c \<Longrightarrow>
     sealed_same r (final recorder_step calls r)"
proof (induction calls arbitrary: r)
  case (Cons c calls)
  have step: "sealed_same r (snd (recorder_step c r))" using sealed_step Cons.prems by simp
  moreover from this have "rec_sealed (snd (recorder_step c r))" "rec_session (snd (recorder_step c r)) \<noteq> None"
    using Cons.prems(2) by (simp_all add: sealed_same_def)
  ultimately show ?case using sealed_same_trans [OF step] Cons.IH Cons.prems(3) by simp
qed (simp add: sealed_same_refl)

section \<open>Properties\<close>

text \<open>C27. Every record of a session is well formed. Over every history of calls on the recorder, accepted or refused:
  at most 256 attempts, 1024 media events, 768 synchronisation samples and 256 diagnostics; attempts are ordered by
  their non-zero request and carry exactly the fields of their status within their limits; every media event and
  sample belongs to a registered attempt, none is recorded twice, samples and diagnostics only after audio started;
  and playback of an attempt is confirmed exactly when a completed playback was recorded for it.\<close>

theorem recorder_well_formed: "recorder_inv (final recorder_step calls recorder_default)"
  by (rule recorder_history_inv)

text \<open>C28. A sealed session is final. After a session was sealed, whatever is called except the start of the next session:
  it stays sealed with the same number, provenance and duration, no attempt, media event, sample or diagnostic is
  added or removed, and attempts that had ended stay exactly as they were. Only requests still under way can end.\<close>

theorem sealed_session_is_final:
  assumes reach: "r = final recorder_step past recorder_default" and sealed: "rec_sealed r"
    and calls: "\<forall>c \<in> set calls. \<not> begins_session c" and r': "r' = final recorder_step calls r"
  shows "rec_sealed r' \<and> rec_session r' = rec_session r \<and> rec_candidate_sha r' = rec_candidate_sha r \<and>
    rec_provider_state_sha256 r' = rec_provider_state_sha256 r \<and> rec_sealed_duration r' = rec_sealed_duration r \<and>
    map fst (rec_text r') = map fst (rec_text r) \<and> map fst (rec_voice r') = map fst (rec_voice r) \<and>
    rec_media r' = rec_media r \<and> rec_samples r' = rec_samples r \<and> rec_diagnostics r' = rec_diagnostics r \<and>
    (\<forall>k a. map_of (rec_text r) k = Some a \<and> text_status a \<noteq> LabTextAttemptStatus.Pending \<longrightarrow> map_of (rec_text r') k = Some a) \<and>
    (\<forall>k a. map_of (rec_voice r) k = Some a \<and> voice_status a \<noteq> LabVoiceAttemptStatus.Pending \<longrightarrow> map_of (rec_voice r') k = Some a)"
proof -
  have "session_inv r" using recorder_history_inv [of past] by (simp add: reach recorder_inv_def)
  then have "rec_session r \<noteq> None" using sealed by (auto simp: session_inv_def split: option.splits)
  then show ?thesis using sealed_run [OF sealed _ calls] by (simp add: r' sealed_same_def)
qed

theorem sealed_session_is_final_witness:
  "rec_sealed (final recorder_step [BeginText 1, FailText 1 [97]]
     (final recorder_step [BeginSession 1 Owner 0, BeginText 1, SealSession 5] recorder_default))"
  using sealed_session_is_final [OF refl _ _ refl, of "[BeginSession 1 Owner 0, BeginText 1, SealSession 5]"
      "[BeginText 1, FailText 1 [97]]"]
  by (simp add: begin_session_def recorder_default_def begin_text_request_def seal_session_def session_attempt_count_def
      RT0_OWNER_LAB_MAX_SESSION_ATTEMPTS_def)

end
