(* ===== verification/VPR_Recorded_Evaluation.thy ===== *)
theory VPR_Recorded_Evaluation
  imports VPR_Recorded_Sessions
begin

text \<open>
  How the snapshots of the owner lab's recorder fare in the evaluation's aggregator: on which claims the two agree,
  which sessions are always usable, and which session is lost.
\<close>

section \<open>Snapshots of the recorder\<close>

definition completed :: "LabVoiceAttemptEvidence btree \<Rightarrow> u64 set" where
  "completed m = {k. \<exists>a. (k, a) \<in> set m \<and> voice_status a = LabVoiceAttemptStatus.Completed}"

lemma recorder_snapshot_Ok:
  assumes "recorder_snapshot now r = Ok snap"
  shows "voice_attempts snap = map snd (rec_voice r)" "text_attempts snap = map snd (rec_text r)"
    "media_events snap = rec_media r" "av_sync_samples snap = rec_samples r" "av_sync_diagnostics snap = rec_diagnostics r"
    "snap_playback_proven snap = recorder_playback_proven r" "snap_av_sync_proven snap = recorder_av_sync_proven r"
    "snap_schema_version snap = RT0_OWNER_LAB_SESSION_EVIDENCE_SCHEMA" "snap_scope snap = RT0_OWNER_LAB_MEDIA_EVIDENCE_SCOPE"
    "snap_candidate_sha snap = rec_candidate_sha r" "snap_provider_state_sha256 snap = rec_provider_state_sha256 r"
    "rec_session r = Some (session_sequence snap)"
    "snap_duration_millis snap = (case rec_sealed_duration r of Some d \<Rightarrow> d
       | None \<Rightarrow> session_elapsed_millis (the (rec_started r)) now)"
  using assms by (auto simp: recorder_snapshot_def split: option.splits)

lemma map_filter_seen:
  "set (List.map_filter media_request_sequence (filter (\<lambda>e. media_kind e = k) media)) = seen k media"
  by (force simp: seen_def List.map_filter_def image_iff)

lemma requests_of_seen: "media_events snap = media \<Longrightarrow> requests_of k snap = seen k media"
  by (simp add: requests_of_def map_filter_seen)

lemma interrupted_seen: "interrupted_requests r = seen InterruptionStopped (rec_media r)"
  by (simp add: interrupted_requests_def map_filter_seen)

lemma voice_keys:
  assumes "attempts_inv t v"
  shows "(k, a) \<in> set v \<Longrightarrow> voice_request_sequence a = k"
  using assms by (auto simp: attempts_inv_def voice_ok_def)

lemma confirmed_requests_eq:
  assumes "attempts_inv t v" and "voice_attempts snap = map snd v"
  shows "confirmed_requests snap = confirmed v" and "completed_requests snap = completed v"
  using voice_keys [OF assms(1)] assms(2)
  by (force simp: confirmed_requests_def confirmed_def completed_requests_def completed_def)+

lemma voice_sets:
  assumes "attempts_inv t v"
  shows "k \<in> completed v \<longleftrightarrow> (\<exists>a. map_of v k = Some a \<and> voice_status a = LabVoiceAttemptStatus.Completed)"
    and "k \<in> confirmed v \<longleftrightarrow> (\<exists>a. map_of v k = Some a \<and> canonical_playback_confirmed a)"
    and "map_of v k = Some a \<Longrightarrow> voice_request_sequence a = k"
    and "a \<in> set (filter (\<lambda>a. voice_status a = LabVoiceAttemptStatus.Completed) (map snd v)) \<longleftrightarrow>
      (\<exists>k. map_of v k = Some a) \<and> voice_status a = LabVoiceAttemptStatus.Completed"
proof -
  have wf: "btree_wf v" using assms by (simp add: attempts_inv_def)
  note get = btree_get_iff [OF wf]
  show "k \<in> completed v \<longleftrightarrow> (\<exists>a. map_of v k = Some a \<and> voice_status a = LabVoiceAttemptStatus.Completed)"
      "k \<in> confirmed v \<longleftrightarrow> (\<exists>a. map_of v k = Some a \<and> canonical_playback_confirmed a)"
    by (simp_all add: completed_def confirmed_def get)
  show "map_of v k = Some a \<Longrightarrow> voice_request_sequence a = k" using voice_keys [OF assms] by (simp add: get)
  show "a \<in> set (filter (\<lambda>a. voice_status a = LabVoiceAttemptStatus.Completed) (map snd v)) \<longleftrightarrow>
      (\<exists>k. map_of v k = Some a) \<and> voice_status a = LabVoiceAttemptStatus.Completed"
    by (force simp: get)
qed

lemma playback_proven_iff:
  assumes "attempts_inv t (rec_voice r)"
  shows "recorder_playback_proven r \<longleftrightarrow> completed (rec_voice r) \<inter> confirmed (rec_voice r) \<noteq> {} \<and>
    completed (rec_voice r) \<subseteq> confirmed (rec_voice r) \<union> interrupted_requests r"
proof -
  let ?v = "rec_voice r"
  note sets = voice_sets [OF assms]
  have "list_ex canonical_playback_confirmed (completed_attempts r) \<longleftrightarrow>
      (\<exists>k. k \<in> completed ?v \<and> k \<in> confirmed ?v)"
    unfolding list_ex_iff completed_attempts_def sets(1,2,4) Bex_def by auto
  moreover have "list_all (\<lambda>a. canonical_playback_confirmed a \<or> voice_request_sequence a \<in> interrupted_requests r)
      (completed_attempts r) \<longleftrightarrow> (\<forall>k. k \<in> completed ?v \<longrightarrow> k \<in> confirmed ?v \<or> k \<in> interrupted_requests r)"
    unfolding list_all_iff completed_attempts_def sets(1,2,4) Ball_def by (auto simp: sets(3))
  ultimately show ?thesis by (auto simp: recorder_playback_proven_def)
qed

lemma av_sync_proven_iff:
  assumes "attempts_inv t (rec_voice r)"
  shows "recorder_av_sync_proven r \<longleftrightarrow> recorder_playback_proven r \<and>
    (\<forall>q \<in> completed (rec_voice r) \<inter> confirmed (rec_voice r). complete_samples q r)"
proof -
  note sets = voice_sets [OF assms]
  have "list_all (\<lambda>a. complete_samples (voice_request_sequence a) r)
      (filter canonical_playback_confirmed (completed_attempts r)) \<longleftrightarrow>
    (\<forall>q. q \<in> completed (rec_voice r) \<and> q \<in> confirmed (rec_voice r) \<longrightarrow> complete_samples q r)"
    unfolding list_all_iff set_filter [of canonical_playback_confirmed] completed_attempts_def mem_Collect_eq sets(1,2,4) Ball_def
    by (auto simp: sets(3))
  then show ?thesis by (auto simp: recorder_av_sync_proven_def)
qed

section \<open>The evaluator's loops\<close>

lemma voice_loop_status:
  "voice_loop m xs a = Ok (m', a') \<Longrightarrow>
     (\<forall>x \<in> set xs. m' (voice_request_sequence x) = Some (voice_status x)) \<and>
     (\<forall>q. q \<notin> voice_request_sequence ` set xs \<longrightarrow> m' q = m q) \<and> (\<forall>q. m q \<noteq> None \<longrightarrow> m' q = m q)"
proof (induction xs arbitrary: m a)
  case (Cons x xs)
  from Cons.prems obtain a1 where new: "m (voice_request_sequence x) = None"
      and rest: "voice_loop (m(voice_request_sequence x \<mapsto> voice_status x)) xs a1 = Ok (m', a')"
    by (auto split: if_splits sum.splits)
  show ?case using Cons.IH [OF rest] new by (auto split: if_splits)
qed simp

lemma voice_loop_consumed: "voice_loop m xs a = Ok b \<Longrightarrow> x \<in> set xs \<Longrightarrow> \<exists>c d. consume_attempt x c = Ok d"
  by (induction xs arbitrary: m a) (auto split: if_splits sum.splits)

lemma media_loop_completed:
  "media_loop st audio unique xs a = Ok b \<Longrightarrow> x \<in> set xs \<Longrightarrow> media_request_sequence x = Some q \<Longrightarrow>
     st q = Some LabVoiceAttemptStatus.Completed"
  by (induction xs arbitrary: unique a) (auto split: if_splits)

lemma aggregate_loop_consumed:
  "aggregate_loop sha encode sequences digests xs a = Ok b \<Longrightarrow> x \<in> set xs \<Longrightarrow> \<exists>c d. consume_snapshot x c = Ok d"
  by (induction xs arbitrary: sequences digests a) (auto split: if_splits sum.splits option.splits)

text \<open>The samples of a request, as the evaluator collects them.\<close>

definition samples_of :: "LabAvSyncEvidence list \<Rightarrow> u64 \<Rightarrow> u32 set" where
  "samples_of xs q = {n. \<exists>s \<in> set xs. sync_request_sequence s = q \<and> sample_sequence s = n}"

definition grouped :: "(u64 \<times> u32 set) list \<Rightarrow> (u64 \<Rightarrow> u32 set) \<Rightarrow> bool" where
  "grouped m f \<longleftrightarrow> distinct (map fst m) \<and> (\<forall>q. map_of m q = (if f q = {} then None else Some (f q)))"

lemma entry_insert_keys: "set (map fst (entry_insert q n m)) = insert q (set (map fst m))"
  by (induction m rule: entry_insert.induct [of _ q n, simplified]) auto

lemma entry_insert_get: "map_of (entry_insert q n m) q' =
    (if q' = q then Some (insert n (case map_of m q of None \<Rightarrow> {} | Some v \<Rightarrow> v)) else map_of m q')"
  by (induction m) auto

lemma entry_insert_distinct: "distinct (map fst m) \<Longrightarrow> distinct (map fst (entry_insert q n m))"
  by (induction m) (auto simp: entry_insert_keys simp del: set_map)

lemma grouped_insert: "grouped m f \<Longrightarrow> grouped (entry_insert q n m) (f(q := insert n (f q)))"
  by (auto simp: grouped_def entry_insert_distinct entry_insert_get)

lemma av_sync_loop_grouped:
  "av_sync_loop st audio playback xs s = Ok s' \<Longrightarrow> grouped (sequences_by_request s) f \<Longrightarrow>
     grouped (sequences_by_request s') (\<lambda>q. f q \<union> samples_of xs q)"
proof (induction xs arbitrary: s f)
  case Nil
  then show ?case by (simp add: samples_of_def)
next
  case (Cons x xs)
  let ?q = "sync_request_sequence x" and ?n = "sample_sequence x"
  from Cons.prems(1) obtain s1 where s1: "av_sync_loop st audio playback xs s1 = Ok s'"
      "sequences_by_request s1 = entry_insert ?q ?n (sequences_by_request s)"
    by (auto simp: Let_def split: if_splits)
  have eq: "(\<lambda>q. (f(?q := insert ?n (f ?q))) q \<union> samples_of xs q) = (\<lambda>q. f q \<union> samples_of (x # xs) q)"
    by (rule ext) (auto simp: samples_of_def)
  have "grouped (sequences_by_request s1) (f(?q := insert ?n (f ?q)))"
    unfolding s1(2) by (rule grouped_insert [OF Cons.prems(2)])
  from Cons.IH [OF s1(1) this] show ?case unfolding eq .
qed

lemma grouped_mem: "grouped m f \<Longrightarrow> (q, v) \<in> set m \<longleftrightarrow> f q \<noteq> {} \<and> v = f q"
  by (auto simp: grouped_def simp flip: map_of_eq_Some_iff)

lemma complete_card:
  assumes "samples_inv audio (rec_samples r)"
  shows "card (samples_of (rec_samples r) q) = unat RT0_AV_SYNC_SAMPLES_PER_REQUEST \<longleftrightarrow> complete_samples q r"
proof -
  let ?S = "samples_of (rec_samples r) q"
  have range: "n \<in> {1, 2, 3}" if "1 \<le> n" "n \<le> 3" for n :: u32
  proof -
    have "unat n = 1 \<or> unat n = 2 \<or> unat n = 3" using that by (auto simp: word_le_nat_alt)
    then show ?thesis by (auto simp: word_unat_eq_iff)
  qed
  define T :: "u32 set" where "T = {1, 2, 3}"
  have sub: "?S \<subseteq> T"
  proof
    fix n assume "n \<in> ?S"
    then show "n \<in> T"
      using assms range by (auto simp: samples_inv_def samples_of_def RT0_AV_SYNC_SAMPLES_PER_REQUEST_def T_def simp del: insert_iff)
  qed
  have T: "finite T" "card T = 3" by (simp_all add: T_def)
  have "card ?S = 3 \<longleftrightarrow> ?S = T" using card_subset_eq [OF T(1) sub] T(2) by metis
  also have "\<dots> \<longleftrightarrow> 1 \<in> ?S \<and> 2 \<in> ?S \<and> 3 \<in> ?S" using sub unfolding T_def by blast
  also have "\<dots> \<longleftrightarrow> complete_samples q r"
    unfolding complete_samples_iff by (simp add: sampled_def samples_of_def list_ex_iff)
  finally show ?thesis by (simp add: RT0_AV_SYNC_SAMPLES_PER_REQUEST_def)
qed

lemma failed_with_turn_refused:
  "voice_status x = LabVoiceAttemptStatus.Failed \<Longrightarrow> voice_turn_sequence x \<noteq> None \<Longrightarrow> consume_attempt x c \<noteq> Ok d"
  by (auto simp: consume_attempt_def consume_failed_attempt_def)

lemma consume_snapshot_voice:
  "consume_snapshot snap a = Ok b \<Longrightarrow> \<exists>m c d. voice_loop (\<lambda>_. None) (voice_attempts snap) c = Ok (m, d)"
  by (auto simp: consume_snapshot_def Let_def split: option.splits sum.splits)

lemma collected_sync:
  assumes "validate_and_collect_av_sync snap request_status playback offsets = Ok (sync_requests, offsets')"
    and "\<And>q. card (samples_of (av_sync_samples snap) q) = unat RT0_AV_SYNC_SAMPLES_PER_REQUEST \<longleftrightarrow> P q"
  shows "sync_requests = {q \<in> playback. P q}"
proof -
  obtain st where st: "av_sync_loop request_status (requests_of AudioStarted snap) playback (av_sync_samples snap)
        \<lparr>sync_unique = {}, reference_by_request = (\<lambda>_. None), sequences_by_request = [], sync_offsets = offsets\<rparr> = Ok st"
      and reqs: "sync_requests = set (map fst (filter (\<lambda>(r, seqs). r \<in> playback \<and>
        card seqs = unat RT0_AV_SYNC_SAMPLES_PER_REQUEST) (sequences_by_request st)))"
    using assms(1) by (auto simp: validate_and_collect_av_sync_def split: sum.splits)
  have "grouped (sequences_by_request st) (\<lambda>q. {} \<union> samples_of (av_sync_samples snap) q)"
    by (rule av_sync_loop_grouped [OF st]) (simp add: grouped_def)
  then have g: "(q, v) \<in> set (sequences_by_request st) \<longleftrightarrow>
      samples_of (av_sync_samples snap) q \<noteq> {} \<and> v = samples_of (av_sync_samples snap) q" for q v
    by (simp add: grouped_mem)
  have "q \<in> sync_requests \<longleftrightarrow> q \<in> playback \<and> samples_of (av_sync_samples snap) q \<noteq> {} \<and>
      card (samples_of (av_sync_samples snap) q) = unat RT0_AV_SYNC_SAMPLES_PER_REQUEST" for q
    unfolding reqs by (force simp: g)
  moreover have "samples_of (av_sync_samples snap) q \<noteq> {}"
    if "card (samples_of (av_sync_samples snap) q) = unat RT0_AV_SYNC_SAMPLES_PER_REQUEST" for q
    using that by (auto simp: RT0_AV_SYNC_SAMPLES_PER_REQUEST_def)
  ultimately show ?thesis using assms(2) by blast
qed

text \<open>A session with one spoken turn that was played and measured.\<close>

definition sample_usage :: SessionUsageEvidence where
  "sample_usage = \<lparr>usage_input_units = None, usage_output_units = None, usage_estimated_cost = None, usage_provider_charge = None\<rparr>"

definition sample_recording :: "recorder_call list" where
  "sample_recording =
     [BeginSession 1 Owner 0, BeginVoice 1,
      Media \<lparr>min_session_sequence = 1, min_request_sequence = Some 1, min_kind = AudioStarted, min_elapsed_millis = 9\<rparr>,
      CompleteVoice 1 \<lparr>vr_turn_sequence = 1, vr_output_sequence = 1, vr_stt_millis = 1, vr_llm_millis = 2,
        vr_llm_first_meaningful_millis = 1, vr_voice_first_text_millis = 2, vr_avatar_millis = 3,
        vr_tts_first_pcm_millis = None, vr_echo_first_send_millis = None, vr_total_millis = 9,
        vr_stt_usage = sample_usage, vr_llm_usage = sample_usage\<rparr>,
      CanonicalPlayback \<lparr>min_session_sequence = 1, min_request_sequence = Some 1, min_kind = PlaybackCompleted,
        min_elapsed_millis = 20\<rparr> 1 1] @
     map (\<lambda>n. AvSync \<lparr>sin_session_sequence = 1, sin_request_sequence = 1, sin_sample_sequence = n,
        sin_reference = WebRtcEstimatedPlayoutTimestamp, sin_absolute_offset_millis = 5\<rparr>) [1, 2, 3]"

definition sample_spoken :: LabSessionEvidenceRecorder where
  "sample_spoken =
     \<lparr>rec_candidate_sha = [], rec_provider_state_sha256 = [], rec_session = Some 1, rec_role = Some Owner,
      rec_sealed = False, rec_started = Some 0, rec_sealed_duration = None, rec_text = [],
      rec_voice = [(1, \<lparr>voice_request_sequence = 1, voice_turn_sequence = Some 1, voice_output_sequence = Some 1,
         canonical_playback_confirmed = True, voice_status = LabVoiceAttemptStatus.Completed, voice_failure_code = None,
         stt_millis = Some 1, llm_millis = Some 2, llm_first_meaningful_millis = Some 1, voice_first_text_millis = Some 2,
         tts_first_pcm_millis = None, echo_first_send_millis = None, avatar_millis = Some 3,
         voice_server_total_millis = Some 9, stt_usage = Some sample_usage, voice_llm_usage = Some sample_usage\<rparr>)],
      rec_media = [\<lparr>media_request_sequence = Some 1, media_kind = AudioStarted, elapsed_millis = 9\<rparr>,
         \<lparr>media_request_sequence = Some 1, media_kind = PlaybackCompleted, elapsed_millis = 20\<rparr>],
      rec_samples = map (\<lambda>n. \<lparr>sync_request_sequence = 1, sample_sequence = n,
         reference = WebRtcEstimatedPlayoutTimestamp, absolute_offset_millis = 5\<rparr>) [1, 2, 3],
      rec_diagnostics = []\<rparr>"

lemma sample_recorded: "final recorder_step sample_recording recorder_default = sample_spoken"
  by (simp add: sample_recording_def recorder_default_def begin_session_def begin_voice_request_def
      session_attempt_count_def RT0_OWNER_LAB_MAX_SESSION_ATTEMPTS_def record_media_def validate_media_def push_media_def
      requires_request_sequence_def complete_voice_request_def voice_result_malformed_def MAX_MEDIA_ELAPSED_MILLIS_def
      btree_modify_def record_canonical_playback_def completed_playback_binding_def record_av_sync_def
      RT0_OWNER_LAB_MAX_MEDIA_EVENTS_def RT0_OWNER_LAB_MAX_AV_SYNC_SAMPLES_def RT0_AV_SYNC_SAMPLES_PER_REQUEST_def
      audio_started_def sampled_def diagnosed_def sample_spoken_def)

lemma spoken_session_consumed:
  assumes "voice_attempts snap = map snd (rec_voice sample_spoken)" "media_events snap = rec_media sample_spoken"
    "av_sync_samples snap = rec_samples sample_spoken" "text_attempts snap = []" "av_sync_diagnostics snap = []"
    "snap_playback_proven snap" "snap_av_sync_proven snap"
  shows "\<exists>acc'. consume_snapshot snap accumulator_default = Ok acc'"
proof -
  let ?st = "[1 \<mapsto> LabVoiceAttemptStatus.Completed]"
  obtain d where d: "checked_add (acc_duration_millis accumulator_default) (snap_duration_millis snap) = Some d"
    using unsigned_less [of "snap_duration_millis snap", where ?'a = nat] by (simp add: accumulator_default_def checked_add_def)
  obtain a2 where v: "voice_loop (\<lambda>_. None) (voice_attempts snap) (accumulator_default\<lparr>acc_duration_millis := d\<rparr>) = Ok (?st, a2)"
      "acc_playback_sessions a2 = 0" "acc_av_sync_sessions a2 = 0"
    by (simp add: assms(1) sample_spoken_def consume_attempt_def consume_completed_attempt_def add_usage_costs_def Let_def
        init_cost_def add_cost_def sample_usage_def accumulator_default_def checked_add_def)
  obtain a3 where m: "validate_and_collect_media snap ?st a2 = Ok a3"
      "acc_playback_sessions a3 = 0" "acc_av_sync_sessions a3 = 0"
    by (simp add: validate_and_collect_media_def assms(2) sample_spoken_def MAX_MEDIA_ELAPSED_MILLIS_def
        requires_request_sequence_def collect_media_def v(2,3))
  obtain p where p: "validate_playback_accounting snap (completed_requests snap) = Ok p" "playback_requests p = {1}"
      "derived_playback p"
    by (simp add: validate_playback_accounting_def Let_def confirmed_requests_def completed_requests_def requests_of_def
        assms(1,2) sample_spoken_def List.map_filter_def)
  obtain offs where sync: "validate_and_collect_av_sync snap ?st {1} (acc_av_sync a3) = Ok ({1}, offs)"
    by (simp add: validate_and_collect_av_sync_def requests_of_def assms(2,3) sample_spoken_def List.map_filter_def Let_def
        RT0_AV_SYNC_SAMPLES_PER_REQUEST_def MAX_MEDIA_ELAPSED_MILLIS_def)
  have one: "checked_add (0 :: u32) 1 = Some 1" by (simp add: checked_add_def)
  show ?thesis
    using v(1) m p sync by (simp add: consume_snapshot_def d assms(4-7) validate_av_sync_diagnostics_def one)
qed

section \<open>Sessions of text turns\<close>

lemma add_cost_error: "add_cost t v = Err e \<Longrightarrow> e = Overflow"
  by (auto simp: add_cost_def split: option.splits)

lemma text_ok_key: "text_ok k x \<Longrightarrow> text_request_sequence x = k"
  by (simp add: text_ok_def)

lemma consume_text_error:
  assumes "consume_text_attempt x a = Err e" and "text_ok k x" and "text_status x \<noteq> LabTextAttemptStatus.Pending"
  shows "e = Overflow"
proof (cases "text_status x")
  case Completed
  then show ?thesis
    using assms by (auto simp: consume_text_attempt_def text_ok_def add_single_usage_cost_def Let_def
        dest: add_cost_error split: option.splits sum.splits if_splits)
next
  case Failed
  then show ?thesis
    using assms by (cases "text_failure_code x") (auto simp: consume_text_attempt_def text_ok_def split: option.splits if_splits)
qed (use assms in simp)

lemma text_loop_error:
  assumes "text_loop seen0 xs a = Err e"
    and "\<forall>x \<in> set xs. text_ok (text_request_sequence x) x \<and> text_status x \<noteq> LabTextAttemptStatus.Pending"
    and "distinct (map text_request_sequence xs)" and "seen0 \<inter> text_request_sequence ` set xs = {}"
  shows "e = Overflow"
  using assms
proof (induction xs arbitrary: seen0 a)
  case (Cons x xs)
  show ?case
  proof (cases "consume_text_attempt x a")
    case (Inl e')
    then show ?thesis using Cons.prems consume_text_error [OF Inl] by (auto simp: text_ok_def)
  next
    case (Inr a')
    then show ?thesis
      using Cons.prems by (intro Cons.IH [of "insert (text_request_sequence x) seen0" a']) (auto simp: text_ok_def)
  qed
qed simp

lemma media_loop_total:
  assumes "\<forall>e \<in> set xs. elapsed_millis e \<le> MAX_MEDIA_ELAPSED_MILLIS \<and> media_request_sequence e = None \<and>
      \<not> requires_request_sequence (media_kind e)"
    and "distinct (map (\<lambda>e. (media_request_sequence e, media_kind e)) (filter (\<lambda>e. media_kind e \<noteq> ReconnectRestored) xs))"
    and "\<forall>e \<in> set xs. media_kind e \<noteq> ReconnectRestored \<longrightarrow> (media_request_sequence e, media_kind e) \<notin> unique"
  shows "\<exists>b. media_loop st audio unique xs a = Ok b"
  using assms
proof (induction xs arbitrary: unique a)
  case (Cons x xs)
  have "\<exists>b. media_loop st audio (if media_kind x \<noteq> ReconnectRestored
      then insert (media_request_sequence x, media_kind x) unique else unique) xs (collect_media x a) = Ok b"
    by (rule Cons.IH) (use Cons.prems in \<open>auto simp: image_iff split: if_splits\<close>)
  then show ?case using Cons.prems(1,3) by (auto simp: not_less [symmetric])
qed simp

lemma silent_session_accepted:
  assumes inv: "recorder_inv r" and snap: "recorder_snapshot now r = Ok snap" and none: "rec_voice r = []"
    and ended: "\<forall>x \<in> set (text_attempts snap). text_status x \<noteq> LabTextAttemptStatus.Pending"
    and fail: "consume_snapshot snap a = Err e"
  shows "e = Overflow"
proof -
  note s = recorder_snapshot_Ok [OF snap]
  have med: "media_inv {} {} (rec_media r)" and smp: "samples_inv (seen AudioStarted (rec_media r)) (rec_samples r)"
    and dia: "diagnostics_inv (seen AudioStarted (rec_media r)) (rec_diagnostics r)"
    and att: "attempts_inv (rec_text r) []" using inv by (simp_all add: recorder_inv_def none keys_def confirmed_def)
  have ev: "media_request_sequence x = None" if "x \<in> set (rec_media r)" for x
    using med that by (cases "media_request_sequence x") (auto simp: media_inv_def)
  then have no: "seen k (rec_media r) = {}" for k by (auto simp: seen_def)
  have empty: "rec_samples r = []" "rec_diagnostics r = []"
    using smp dia by (auto simp: no samples_inv_def diagnostics_inv_def)
  have req: "requests_of k snap = {}" for k using requests_of_seen [OF s(3)] no by simp
  have "\<exists>b. media_loop st audio {} (rec_media r) a2 = Ok b" for st audio a2
    by (rule media_loop_total) (use med ev in \<open>auto simp: media_inv_def\<close>)
  then have b: "validate_and_collect_media snap st a2 \<noteq> Err e'" for st a2 e'
    unfolding validate_and_collect_media_def s(3) by (metis sum.distinct(1))
  have texts: "e' = Overflow" if "text_loop {} (text_attempts snap) a' = Err e'" for a' e'
  proof (rule text_loop_error [OF that])
    have keys: "map text_request_sequence (map snd (rec_text r)) = map fst (rec_text r)"
      using att by (auto simp: attempts_inv_def text_ok_def)
    then show "distinct (map text_request_sequence (text_attempts snap))"
      using att btree_wf_distinct [of "rec_text r"] by (simp add: s(2) attempts_inv_def del: map_map)
    show "\<forall>x \<in> set (text_attempts snap). text_ok (text_request_sequence x) x \<and> text_status x \<noteq> LabTextAttemptStatus.Pending"
      using att ended text_ok_key by (force simp: s(2) attempts_inv_def)
  qed simp
  have claims: "\<not> snap_playback_proven snap" "\<not> snap_av_sync_proven snap"
    by (simp_all add: s(6,7) recorder_av_sync_proven_def recorder_playback_proven_def completed_attempts_def none)
  show ?thesis
    using fail texts claims
    by (auto simp: consume_snapshot_def Let_def b s(1,4,5) none empty req validate_playback_accounting_def
        confirmed_requests_def completed_requests_def validate_and_collect_av_sync_def validate_av_sync_diagnostics_def
        split: option.splits sum.splits)
qed

text \<open>Once the evaluator has accepted the attempts, the media events, the playback accounting and the samples of a
  snapshot, its own conclusions are the recorder's claims.\<close>

lemma claims_are_derived:
  assumes snap: "recorder_snapshot now (final recorder_step calls recorder_default) = Ok snap"
    and voice: "voice_loop (\<lambda>_. None) (voice_attempts snap) a1 = Ok (request_status, a2)"
    and media: "validate_and_collect_media snap request_status a2 = Ok a3"
    and playback: "validate_playback_accounting snap (completed_requests snap) = Ok p"
    and sync: "validate_and_collect_av_sync snap request_status (playback_requests p) offsets = Ok (sync_requests, offsets')"
  shows "snap_playback_proven snap = derived_playback p \<and>
    snap_av_sync_proven snap = (derived_playback p \<and> sync_requests = playback_requests p)"
proof -
  let ?r = "final recorder_step calls recorder_default"
  let ?v = "rec_voice ?r" and ?m = "rec_media ?r"
  have inv: "recorder_inv ?r" by (rule recorder_history_inv)
  then have att: "attempts_inv (rec_text ?r) ?v" and med: "media_inv (keys ?v) (confirmed ?v) ?m"
    and smp: "samples_inv (seen AudioStarted ?m) (rec_samples ?r)" by (simp_all add: recorder_inv_def)
  note s = recorder_snapshot_Ok [OF snap]
  note eqs = confirmed_requests_eq [OF att s(1)] requests_of_seen [OF s(3)]
  have sub: "q \<in> completed ?v" if "q \<in> seen k ?m" for q k
  proof -
    have status: "request_status q = Some LabVoiceAttemptStatus.Completed"
      using that media media_loop_completed by (fastforce simp: seen_def validate_and_collect_media_def s(3))
    have "q \<in> voice_request_sequence ` set (voice_attempts snap)"
      using status voice_loop_status [OF voice] by (metis option.distinct(1))
    then obtain x where x: "x \<in> set (voice_attempts snap)" "voice_request_sequence x = q" by blast
    then have "voice_status x = LabVoiceAttemptStatus.Completed" using status voice_loop_status [OF voice] by auto
    with x show ?thesis using s(1) voice_keys [OF att] by (fastforce simp: completed_def)
  qed
  have conf: "confirmed ?v = seen PlaybackCompleted ?m" using med by (simp add: media_inv_def)
  have p: "playback_requests p = confirmed ?v"
      "derived_playback p \<longleftrightarrow> completed ?v \<noteq> {} \<and> confirmed ?v \<noteq> {} \<and> confirmed ?v \<union> seen InterruptionStopped ?m = completed ?v"
    using playback by (auto simp: validate_playback_accounting_def Let_def eqs split: if_splits)
  have proven: "recorder_playback_proven ?r \<longleftrightarrow> derived_playback p"
    unfolding playback_proven_iff [OF att] interrupted_seen p(2) conf using sub by blast
  have "sync_requests = {q \<in> confirmed ?v. complete_samples q ?r}"
    using collected_sync [OF sync, of "\<lambda>q. complete_samples q ?r"] complete_card [OF smp] by (simp add: p(1) s(4))
  then show ?thesis
    using proven sub by (auto simp: s(6,7) av_sync_proven_iff [OF att] p(1) conf)
qed

text \<open>What the evaluator goes through when it accepts a snapshot with some values of the two claims.\<close>

lemma consumed_stages:
  assumes "consume_snapshot (snap\<lparr>snap_playback_proven := playback, snap_av_sync_proven := sync\<rparr>) acc = Ok acc'"
  obtains a1 st a2 a3 p reqs offs where "voice_loop (\<lambda>_. None) (voice_attempts snap) a1 = Ok (st, a2)"
    and "validate_and_collect_media snap st a2 = Ok a3"
    and "validate_playback_accounting snap (completed_requests snap) = Ok p"
    and "validate_and_collect_av_sync snap st (playback_requests p) (acc_av_sync a3) = Ok (reqs, offs)"
    and "playback = derived_playback p" "sync = (derived_playback p \<and> reqs = playback_requests p)"
proof -
  let ?s = "snap\<lparr>snap_playback_proven := playback, snap_av_sync_proven := sync\<rparr>"
  have sets: "requests_of k ?s = requests_of k snap" "confirmed_requests ?s = confirmed_requests snap"
      "completed_requests ?s = completed_requests snap" for k
    by (simp_all add: requests_of_def confirmed_requests_def completed_requests_def)
  have "validate_and_collect_media ?s st a = validate_and_collect_media snap st a"
      "validate_playback_accounting ?s c = validate_playback_accounting snap c"
      "validate_and_collect_av_sync ?s st pl os = validate_and_collect_av_sync snap st pl os" for st a c pl os
    by (simp_all add: validate_and_collect_media_def validate_playback_accounting_def validate_and_collect_av_sync_def sets
        cong: sum.case_cong)
  then show thesis
    using assms that by (auto simp: consume_snapshot_def sets Let_def split: option.splits sum.splits if_splits)
qed

section \<open>Properties\<close>

text \<open>C25. The recorder and the evaluator agree on what a session proves: for every snapshot of every history, the recorder's
  two claims are the only ones with which the evaluator could accept it. If the evaluator accepts the snapshot with
  any values in place of the claims that canonical playback and audio-video synchronisation are proven, these are the
  recorder's own, so that it accepts the snapshot as it was taken, with the same result, and playback is claimed
  exactly when the attempts and media events account for it. No snapshot is therefore refused because of its claims.\<close>

theorem recorder_and_evaluator_agree:
  assumes snap: "recorder_snapshot now (final recorder_step calls recorder_default) = Ok snap"
    and accepted: "consume_snapshot (snap\<lparr>snap_playback_proven := playback, snap_av_sync_proven := sync\<rparr>) acc = Ok acc'"
  shows "playback = snap_playback_proven snap \<and> sync = snap_av_sync_proven snap \<and> consume_snapshot snap acc = Ok acc' \<and>
    (snap_playback_proven snap \<longleftrightarrow> playback_accounted snap)"
proof -
  let ?s = "snap\<lparr>snap_playback_proven := playback, snap_av_sync_proven := sync\<rparr>"
  obtain a1 st a2 a3 p reqs offs where v: "voice_loop (\<lambda>_. None) (voice_attempts snap) a1 = Ok (st, a2)"
    and m: "validate_and_collect_media snap st a2 = Ok a3"
    and pb: "validate_playback_accounting snap (completed_requests snap) = Ok p"
    and av: "validate_and_collect_av_sync snap st (playback_requests p) (acc_av_sync a3) = Ok (reqs, offs)"
    and claims: "playback = derived_playback p" "sync = (derived_playback p \<and> reqs = playback_requests p)"
    using accepted by (rule consumed_stages)
  have same: "playback = snap_playback_proven snap" "sync = snap_av_sync_proven snap"
    using claims_are_derived [OF snap v m pb av] claims by simp_all
  then have "?s = snap" by simp
  then have ok: "consume_snapshot snap acc = Ok acc'" using accepted by simp
  from same ok consume_snapshot_playback [OF ok] show ?thesis by simp
qed

theorem recorder_and_evaluator_agree_witness:
  "\<exists>snap acc'. recorder_snapshot 0 (final recorder_step sample_recording recorder_default) = Ok snap \<and>
     consume_snapshot (snap\<lparr>snap_playback_proven := True, snap_av_sync_proven := True\<rparr>) accumulator_default = Ok acc' \<and>
     consume_snapshot snap accumulator_default = Ok acc' \<and> snap_playback_proven snap \<and> snap_av_sync_proven snap"
proof -
  obtain snap where snap: "recorder_snapshot 0 (final recorder_step sample_recording recorder_default) = Ok snap"
    by (auto simp: sample_recorded recorder_snapshot_def sample_spoken_def)
  note s = recorder_snapshot_Ok [OF snap, unfolded sample_recorded]
  obtain acc' where ok: "consume_snapshot (snap\<lparr>snap_playback_proven := True, snap_av_sync_proven := True\<rparr>) accumulator_default = Ok acc'"
    using spoken_session_consumed [of "snap\<lparr>snap_playback_proven := True, snap_av_sync_proven := True\<rparr>"] s
    by (auto simp: sample_spoken_def)
  show ?thesis using recorder_and_evaluator_agree [OF snap ok] snap ok by blast
qed

text \<open>C26. A streamed voice turn that fails spoils the evidence of its session. Once a segment of its speech has been bound
  to a voice request, a failure of that request leaves the binding in the failed attempt, and the evaluator refuses
  failed attempts that carry one: whatever else happens in the session, the evaluator accepts none of its later
  snapshots and no aggregation that contains one of them.\<close>

theorem streamed_failure_spoils_session:
  assumes bound: "fst (bind_voice_segment k seg r) = Ok ()"
    and during: "\<forall>c \<in> set calls. \<not> begins_session c"
    and failed: "fst (fail_voice_request k code (final recorder_step calls (snd (bind_voice_segment k seg r)))) = Ok ()"
    and after: "\<forall>c \<in> set later. \<not> begins_session c"
    and snap: "recorder_snapshot now (final recorder_step later
      (snd (fail_voice_request k code (final recorder_step calls (snd (bind_voice_segment k seg r)))))) = Ok snap"
  shows "\<not> is_ok (consume_snapshot snap acc) \<and>
    (snap \<in> set snapshots \<longrightarrow> \<not> is_ok (aggregate_owner_lab_session_evidence sha encode snapshots))"
proof -
  let ?r1 = "snd (bind_voice_segment k seg r)"
  let ?r2 = "final recorder_step calls ?r1"
  let ?r3 = "snd (fail_voice_request k code ?r2)"
  obtain a where a: "map_of (rec_voice ?r1) k = Some a" "voice_turn_sequence a \<noteq> None"
    using bound by (auto simp: bind_voice_segment_def btree_modify_get split: if_splits option.splits)
  obtain b where b: "map_of (rec_voice ?r2) k = Some b" "voice_turn_sequence b \<noteq> None"
    using voice_run_progress [OF a(1) during] a(2) by (auto simp: voice_progress_def)
  obtain c where c: "map_of (rec_voice ?r3) k = Some c" "voice_turn_sequence c \<noteq> None"
      "voice_status c = LabVoiceAttemptStatus.Failed"
    using failed b by (auto simp: fail_voice_request_def btree_modify_get split: if_splits option.splits)
  have "map_of (rec_voice (final recorder_step later ?r3)) k = Some c"
    using voice_run_progress [OF c(1) after] c(3) by (auto simp: voice_progress_def)
  then have "c \<in> set (voice_attempts snap)" using recorder_snapshot_Ok(1) [OF snap] by (force dest: map_of_SomeD)
  then have none: "consume_snapshot snap x \<noteq> Ok y" for x y
    using consume_snapshot_voice voice_loop_consumed failed_with_turn_refused [OF c(3,2)] by metis
  have "\<not> is_ok (aggregate_owner_lab_session_evidence sha encode snapshots)" if "snap \<in> set snapshots"
    using none aggregate_loop_consumed that
    by (fastforce simp: aggregate_owner_lab_session_evidence_def is_ok_iff split: if_splits sum.splits)
  then show ?thesis using none by (auto simp: is_ok_iff)
qed

theorem streamed_failure_spoils_session_witness:
  "\<exists>snap. recorder_snapshot 0 (snd (fail_voice_request 1 (lit ''PROVIDER_TIMEOUT'') (snd (bind_voice_segment 1
      \<lparr>vs_turn_sequence = 1, vs_output_sequence = 1\<rparr> (snd (begin_voice_request 1
        (snd (begin_session 1 Owner 0 recorder_default)))))))) = Ok snap \<and>
    \<not> is_ok (consume_snapshot snap accumulator_default)"
proof -
  let ?seg = "\<lparr>vs_turn_sequence = 1, vs_output_sequence = 1\<rparr>"
  let ?r = "snd (begin_voice_request 1 (snd (begin_session 1 Owner 0 recorder_default)))"
  have bound: "fst (bind_voice_segment 1 ?seg ?r) = Ok ()" by code_simp
  have failed: "fst (fail_voice_request 1 (lit ''PROVIDER_TIMEOUT'')
      (final recorder_step [] (snd (bind_voice_segment 1 ?seg ?r)))) = Ok ()" by code_simp
  have "is_ok (recorder_snapshot 0 (snd (fail_voice_request 1 (lit ''PROVIDER_TIMEOUT'') (snd (bind_voice_segment 1 ?seg ?r)))))"
    by code_simp
  then obtain snap where snap: "recorder_snapshot 0 (final recorder_step [] (snd (fail_voice_request 1 (lit ''PROVIDER_TIMEOUT'')
      (final recorder_step [] (snd (bind_voice_segment 1 ?seg ?r)))))) = Ok snap"
    by (auto simp: is_ok_iff)
  then show ?thesis using streamed_failure_spoils_session [OF bound _ failed _ snap, of accumulator_default] by simp
qed

text \<open>The evidence of text turns is always usable. If a session has no voice attempts and every text request has ended,
  then its snapshot, taken from a recorder that is bound to a candidate, has a valid header and can only be refused
  because a counter or a cost of the aggregation overflows, whatever media events were recorded around it.\<close>

lemma text_session_is_usable:
  assumes snap: "recorder_snapshot now (final recorder_step calls recorder_default) = Ok snap"
    and "snap_candidate_sha snap \<noteq> []" and "voice_attempts snap = []"
    and "\<forall>x \<in> set (text_attempts snap). text_status x \<noteq> LabTextAttemptStatus.Pending"
  shows "validate_snapshot_header snap = Ok () \<and> consume_snapshot snap acc \<in> range Inr \<union> {Err Overflow}"
proof -
  let ?r = "final recorder_step calls recorder_default"
  have inv: "recorder_inv ?r" by (rule recorder_history_inv)
  then have ses: "session_inv ?r" by (simp add: recorder_inv_def)
  note s = recorder_snapshot_Ok [OF snap]
  have duration: "snap_duration_millis snap \<noteq> 0"
    using ses by (auto simp: s(13) session_inv_def session_elapsed_positive split: option.splits)
  have "validate_snapshot_header snap = Ok ()"
    using ses assms(2) duration by (auto simp: validate_snapshot_header_def s(8-12) session_inv_def)
  moreover have "e = Overflow" if "consume_snapshot snap acc = Err e" for e
    using silent_session_accepted [OF inv snap _ assms(4) that] assms(3) s(1) by simp
  ultimately show ?thesis by (cases "consume_snapshot snap acc") auto
qed

end
