(* ===== verification/VPR_Phrases.thy ===== *)
theory VPR_Phrases
  imports VPR_Runtime
begin

text \<open>
  The phrases a streamed reply is spoken in (\<^verbatim>\<open>crates/vpr-owner-lab/src/state/voice_phrase.rs\<close>) and the
  thread that cuts a reply into them (\<open>produce\<close> of \<^verbatim>\<open>crates/vpr-owner-lab/src/state/voice.rs\<close>).
  A string is the list of its characters, so a boundary, which the code keeps as the byte offset of a
  character boundary, is the number of characters before it. The loop of \<open>push\<close> terminates because a
  boundary is never at the front; the loop of \<open>produce\<close> runs as long as the provider streams and takes
  fuel.
\<close>

section \<open>The phrase buffer\<close>

definition FIRST_CLAUSE_MIN_CHARS :: nat where "FIRST_CLAUSE_MIN_CHARS = 12"
definition NEXT_CLAUSE_MIN_CHARS :: nat where "NEXT_CLAUSE_MIN_CHARS = 48"
definition FIRST_PHRASE_SOFT_LIMIT_CHARS :: nat where "FIRST_PHRASE_SOFT_LIMIT_CHARS = 24"
definition NEXT_PHRASE_SOFT_LIMIT_CHARS :: nat where "NEXT_PHRASE_SOFT_LIMIT_CHARS = 96"

lemmas phrase_limits = FIRST_CLAUSE_MIN_CHARS_def NEXT_CLAUSE_MIN_CHARS_def
  FIRST_PHRASE_SOFT_LIMIT_CHARS_def NEXT_PHRASE_SOFT_LIMIT_CHARS_def

record RealtimePhraseBuffer =
  pending :: rust_string
  emitted_any :: bool

definition RealtimePhraseBuffer_default :: RealtimePhraseBuffer where
  "RealtimePhraseBuffer_default = \<lparr>pending = [], emitted_any = False\<rparr>"

definition is_ascii_digit :: "nat \<Rightarrow> bool" where
  "is_ascii_digit c \<longleftrightarrow> 48 \<le> c \<and> c \<le> 57"

text \<open>The characters \<open>. ! ?\<close>, the ellipsis and the line feed; \<open>, ; :\<close> and the em dash.\<close>

definition sentence_mark :: "nat \<Rightarrow> bool" where
  "sentence_mark c \<longleftrightarrow> c \<in> {46, 33, 63, 8230, 10}"

definition clause_mark :: "nat \<Rightarrow> bool" where
  "clause_mark c \<longleftrightarrow> c \<in> {44, 59, 58, 8212}"

fun sentence_boundary :: "nat option \<Rightarrow> nat \<Rightarrow> rust_string \<Rightarrow> nat option" where
  "sentence_boundary previous index [] = None"
| "sentence_boundary previous index (ch # rest) =
     (if sentence_mark ch \<and>
         \<not> (ch = 46 \<and> is_some_and is_ascii_digit previous \<and>
            is_none_or is_ascii_digit (case rest of [] \<Rightarrow> None | c # _ \<Rightarrow> Some c))
      then Some (index + 1)
      else sentence_boundary (Some ch) (index + 1) rest)"

fun clause_boundary :: "nat \<Rightarrow> nat \<Rightarrow> rust_string \<Rightarrow> nat option" where
  "clause_boundary clause_min index [] = None"
| "clause_boundary clause_min index (ch # rest) =
     (let chars_seen = index + 1
      in if clause_min \<le> chars_seen \<and> clause_mark ch then Some (index + 1)
         else clause_boundary clause_min chars_seen rest)"

fun whitespace_boundary :: "nat \<Rightarrow> nat \<Rightarrow> nat option \<Rightarrow> rust_string \<Rightarrow> nat option" where
  "whitespace_boundary limit index found [] = found"
| "whitespace_boundary limit index found (ch # rest) =
     (let chars_seen = index + 1;
          found' = if is_whitespace ch then Some (index + 1) else found
      in if limit \<le> chars_seen then found' else whitespace_boundary limit chars_seen found' rest)"

definition next_boundary :: "RealtimePhraseBuffer \<Rightarrow> nat option" where
  "next_boundary self =
     (case sentence_boundary None 0 (pending self) of
        Some boundary \<Rightarrow> Some boundary
      | None \<Rightarrow>
          (let clause_min = if emitted_any self then NEXT_CLAUSE_MIN_CHARS else FIRST_CLAUSE_MIN_CHARS
           in case clause_boundary clause_min 0 (pending self) of
                Some boundary \<Rightarrow> Some boundary
              | None \<Rightarrow>
                  (let limit = if emitted_any self then NEXT_PHRASE_SOFT_LIMIT_CHARS
                               else FIRST_PHRASE_SOFT_LIMIT_CHARS
                   in if length (pending self) < limit then None
                      else whitespace_boundary limit 0 None (pending self))))"

text \<open>What each search finds: the character before the cut and where it lies.\<close>

lemma sentence_boundary_Some:
  "sentence_boundary previous index s = Some b \<Longrightarrow>
     \<exists>p c q. s = p @ c # q \<and> b = index + length p + 1 \<and> sentence_mark c \<and>
       (c = 46 \<longrightarrow> is_some_and is_ascii_digit (if p = [] then previous else Some (last p)) \<longrightarrow>
          q \<noteq> [] \<and> \<not> is_ascii_digit (hd q))"
proof (induction previous index s rule: sentence_boundary.induct)
  case (2 previous index ch rest)
  show ?case
  proof (cases "sentence_mark ch \<and> \<not> (ch = 46 \<and> is_some_and is_ascii_digit previous \<and>
      is_none_or is_ascii_digit (case rest of [] \<Rightarrow> None | c # _ \<Rightarrow> Some c))")
    case True
    with 2(2) have "b = index + 1" by auto
    moreover have "ch = 46 \<longrightarrow> is_some_and is_ascii_digit previous \<longrightarrow> rest \<noteq> [] \<and> \<not> is_ascii_digit (hd rest)"
      using True by (auto split: list.splits)
    ultimately show ?thesis using True by (intro exI [of _ "[]"] exI [of _ ch] exI [of _ rest]) simp
  next
    case False
    with 2(2) have "sentence_boundary (Some ch) (index + 1) rest = Some b" by (simp split: if_splits)
    from 2(1) [OF False this] obtain p c q where pcq: "rest = p @ c # q" "b = index + 1 + length p + 1"
        "sentence_mark c"
        "c = 46 \<longrightarrow> is_some_and is_ascii_digit (if p = [] then Some ch else Some (last p)) \<longrightarrow>
           q \<noteq> [] \<and> \<not> is_ascii_digit (hd q)"
      by blast
    then show ?thesis by (intro exI [of _ "ch # p"] exI [of _ c] exI [of _ q]) auto
  qed
qed simp

lemma clause_boundary_Some:
  "clause_boundary m index s = Some b \<Longrightarrow>
     \<exists>p c q. s = p @ c # q \<and> b = index + length p + 1 \<and> clause_mark c \<and> m \<le> b"
proof (induction m index s rule: clause_boundary.induct)
  case (2 m index ch rest)
  show ?case
  proof (cases "m \<le> index + 1 \<and> clause_mark ch")
    case True
    with 2(2) have "b = index + 1" by simp
    with True show ?thesis by (intro exI [of _ "[]"] exI [of _ ch] exI [of _ rest]) simp
  next
    case False
    with 2(2) have "clause_boundary m (index + 1) rest = Some b" by (simp split: if_splits)
    from 2(1) [OF refl False this] obtain p c q
      where "rest = p @ c # q" "b = index + 1 + length p + 1" "clause_mark c" "m \<le> b"
      by blast
    then show ?thesis by (intro exI [of _ "ch # p"] exI [of _ c] exI [of _ q]) simp
  qed
qed simp

lemma whitespace_boundary_Some:
  "whitespace_boundary limit index found s = Some b \<Longrightarrow>
     found = Some b \<or>
     (\<exists>p c q. s = p @ c # q \<and> b = index + length p + 1 \<and> is_whitespace c \<and> (index < limit \<longrightarrow> b \<le> limit))"
proof (induction limit index found s rule: whitespace_boundary.induct)
  case (2 limit index found ch rest)
  let ?found = "if is_whitespace ch then Some (index + 1) else found"
  have here: "?found = Some b \<Longrightarrow> found = Some b \<or>
     (\<exists>p c q. ch # rest = p @ c # q \<and> b = index + length p + 1 \<and> is_whitespace c \<and> (index < limit \<longrightarrow> b \<le> limit))"
    by (auto split: if_splits intro: exI [of _ "[]"])
  show ?case
  proof (cases "limit \<le> index + 1")
    case True
    with 2(2) have "?found = Some b" by (simp add: Let_def split: if_splits)
    then show ?thesis by (rule here)
  next
    case False
    with 2(2) have "whitespace_boundary limit (index + 1) ?found rest = Some b" by (simp add: Let_def)
    from 2(1) [OF refl refl False this] consider "?found = Some b"
      | p c q where "rest = p @ c # q" "b = index + 1 + length p + 1" "is_whitespace c"
          "index + 1 < limit \<longrightarrow> b \<le> limit" by blast
    then show ?thesis
    proof cases
      case 1
      then show ?thesis by (rule here)
    next
      case 2
      with False show ?thesis by (intro disjI2 exI [of _ "ch # p"] exI [of _ c] exI [of _ q]) simp
    qed
  qed
qed simp

text \<open>A cut is always behind a mark or a space; behind a point after a digit only when a character that
  is no digit has already followed.\<close>

lemma next_boundary_Some:
  assumes "next_boundary self = Some b"
  obtains p c q where "pending self = p @ c # q" "b = length p + 1"
    "sentence_mark c \<or> clause_mark c \<or> is_whitespace c"
    "c = 46 \<Longrightarrow> p \<noteq> [] \<Longrightarrow> is_ascii_digit (last p) \<Longrightarrow> q \<noteq> [] \<and> \<not> is_ascii_digit (hd q)"
proof -
  consider "sentence_boundary None 0 (pending self) = Some b"
    | m where "clause_boundary m 0 (pending self) = Some b"
    | l where "whitespace_boundary l 0 None (pending self) = Some b"
    using assms by (auto simp: next_boundary_def Let_def split: option.splits if_splits)
  then show thesis
  proof cases
    case 1
    from sentence_boundary_Some [OF this] obtain p c q where "pending self = p @ c # q" "b = length p + 1"
        "sentence_mark c" "c = 46 \<longrightarrow> is_some_and is_ascii_digit (if p = [] then None else Some (last p)) \<longrightarrow>
          q \<noteq> [] \<and> \<not> is_ascii_digit (hd q)" by auto
    then show thesis by (intro that [of p c q]) auto
  next
    case 2
    from clause_boundary_Some [OF this] obtain p c q where "pending self = p @ c # q" "b = length p + 1"
        "clause_mark c" by auto
    then show thesis by (intro that [of p c q]) (auto simp: clause_mark_def)
  next
    case 3
    from whitespace_boundary_Some [OF this] obtain p c q where "pending self = p @ c # q" "b = length p + 1"
        "is_whitespace c" by auto
    then show thesis by (intro that [of p c q]) (auto simp: is_whitespace_def)
  qed
qed

lemma next_boundary_bounds:
  "next_boundary self = Some b \<Longrightarrow> 0 < b \<and> b \<le> length (pending self)"
  by (erule next_boundary_Some) simp

text \<open>So a date or a decimal number is never cut at its point, also not when the digits that follow have not
  arrived yet.\<close>

lemma numbers_not_cut:
  assumes "next_boundary self = Some b" and "2 \<le> b" and "pending self ! (b - 1) = 46"
    and "is_ascii_digit (pending self ! (b - 2))"
  shows "b < length (pending self) \<and> \<not> is_ascii_digit (pending self ! b)"
  using assms(1)
proof (rule next_boundary_Some)
  fix p c q
  assume split: "pending self = p @ c # q" "b = length p + 1"
    and point: "c = 46 \<Longrightarrow> p \<noteq> [] \<Longrightarrow> is_ascii_digit (last p) \<Longrightarrow> q \<noteq> [] \<and> \<not> is_ascii_digit (hd q)"
  have "p \<noteq> []" "c = 46" using assms(2,3) split by auto
  moreover have "last p = pending self ! (b - 2)" using \<open>p \<noteq> []\<close> split by (simp add: last_conv_nth nth_append)
  ultimately have "q \<noteq> []" "\<not> is_ascii_digit (hd q)" using point assms(4) by auto
  then show ?thesis using split by (simp add: nth_append hd_conv_nth)
qed

function push_phrases :: "rust_string list \<Rightarrow> RealtimePhraseBuffer \<Rightarrow> rust_string list \<times> RealtimePhraseBuffer" where
  "push_phrases emitted self =
     (case next_boundary self of
        None \<Rightarrow> (emitted, self)
      | Some boundary \<Rightarrow>
          (let phrase = take boundary (pending self);
               self' = self\<lparr>pending := drop boundary (pending self)\<rparr>
           in if \<not> blank phrase then push_phrases (emitted @ [trim phrase]) (self'\<lparr>emitted_any := True\<rparr>)
              else push_phrases emitted self'))"
  by pat_completeness auto

termination
  by (relation "measure (length \<circ> pending \<circ> snd)") (auto dest: next_boundary_bounds)

declare push_phrases.simps [simp del]

definition RealtimePhraseBuffer_push :: "rust_string \<Rightarrow> RealtimePhraseBuffer \<Rightarrow> rust_string list \<times> RealtimePhraseBuffer" where
  "RealtimePhraseBuffer_push chunk self = push_phrases [] (self\<lparr>pending := pending self @ chunk\<rparr>)"

definition RealtimePhraseBuffer_finish :: "RealtimePhraseBuffer \<Rightarrow> rust_string option \<times> RealtimePhraseBuffer" where
  "RealtimePhraseBuffer_finish self =
     (let phrase = trim (pending self)
      in (if phrase \<noteq> [] then Some phrase else None, self\<lparr>pending := []\<rparr>))"

section \<open>The producer\<close>

text \<open>
  The receiver of the bounded channel may be gone, which makes \<open>send\<close> fail: \<open>accepts n\<close> says whether
  the send of the \<open>n\<close>-th event succeeds. \<open>elapsed n\<close> is what the clock shows after \<open>n\<close> chunks.
\<close>

datatype LlmEvent =
    Phrase rust_string
  | Finished rust_string UsageEvidence u64 "u64 option"
  | Failed ProviderExecutionError

fun send_events :: "(nat \<Rightarrow> bool) \<Rightarrow> LlmEvent list \<Rightarrow> LlmEvent list \<Rightarrow> bool \<times> LlmEvent list" where
  "send_events accepts sent [] = (True, sent)"
| "send_events accepts sent (event # events) =
     (if accepts (length sent) then send_events accepts (sent @ [event]) events else (False, sent))"

record producer =
  reply :: rust_string
  first_meaningful :: "u64 option"
  phrases :: RealtimePhraseBuffer
  sent_events :: "LlmEvent list"

definition producer_new :: producer where
  "producer_new = \<lparr>reply = [], first_meaningful = None, phrases = RealtimePhraseBuffer_default, sent_events = []\<rparr>"

text \<open>One chunk; the verdict is whether the receiver is still there.\<close>

definition produce_chunk :: "(nat \<Rightarrow> bool) \<Rightarrow> u64 \<Rightarrow> rust_string \<Rightarrow> producer \<Rightarrow> bool \<times> producer" where
  "produce_chunk accepts now chunk p =
     (let first = if first_meaningful p = None \<and> \<not> blank chunk then Some now else first_meaningful p;
          (cut, buffer) = RealtimePhraseBuffer_push chunk (phrases p);
          (alive, sent) = send_events accepts (sent_events p) (map Phrase cut)
      in (alive, \<lparr>reply = reply p @ chunk, first_meaningful = first, phrases = buffer, sent_events = sent\<rparr>))"

text \<open>What follows the last chunk.\<close>

definition produce_end :: "(nat \<Rightarrow> bool) \<Rightarrow> u64 \<Rightarrow> UsageEvidence \<Rightarrow> producer \<Rightarrow> LlmEvent list" where
  "produce_end accepts now usage p =
     (let rest = (case fst (RealtimePhraseBuffer_finish (phrases p)) of None \<Rightarrow> [] | Some phrase \<Rightarrow> [phrase])
      in snd (send_events accepts (sent_events p)
           (map Phrase rest @ [Finished (reply p) usage now (first_meaningful p)])))"

fun produce_loop ::
  "nat \<Rightarrow> ('st, rust_string option) provider_operation \<Rightarrow> ('st \<Rightarrow> UsageEvidence) \<Rightarrow> (nat \<Rightarrow> u64) \<Rightarrow> (nat \<Rightarrow> bool)
     \<Rightarrow> nat \<Rightarrow> producer \<Rightarrow> 'st AuthorizedStream \<times> runtime \<Rightarrow> LlmEvent list option \<times> ('st AuthorizedStream \<times> runtime)" where
  "produce_loop 0 stream_next_chunk stream_usage elapsed accepts n p w = (None, w)"
| "produce_loop (Suc fuel) stream_next_chunk stream_usage elapsed accepts n p w =
     (case next_chunk stream_next_chunk w of
        (Inl error, w') \<Rightarrow> (Some (snd (send_events accepts (sent_events p) [Failed error])), w')
      | (Inr None, w') \<Rightarrow> (Some (produce_end accepts (elapsed n) (stream_usage (stream (fst w'))) p), w')
      | (Inr (Some chunk), w') \<Rightarrow>
          (case produce_chunk accepts (elapsed n) chunk p of
             (False, p') \<Rightarrow> (Some (sent_events p'), w')
           | (True, p') \<Rightarrow> produce_loop fuel stream_next_chunk stream_usage elapsed accepts (n + 1) p' w'))"

text \<open>The thread itself; the stream is dropped on return and gives its permit back.\<close>

definition produce ::
  "nat \<Rightarrow> ('req \<Rightarrow> (unit, 'st) provider_operation) \<Rightarrow> ('st, rust_string option) provider_operation
     \<Rightarrow> ('st \<Rightarrow> UsageEvidence) \<Rightarrow> (nat \<Rightarrow> u64) \<Rightarrow> (nat \<Rightarrow> bool) \<Rightarrow> 'req \<Rightarrow> (runtime \<Rightarrow> runtime) \<Rightarrow> ActiveTurn
     \<Rightarrow> runtime \<Rightarrow> LlmEvent list option \<times> runtime" where
  "produce fuel port_open_stream stream_next_chunk stream_usage elapsed accepts request between turn s =
     (case open_llm_stream port_open_stream request between turn s of
        (Inl error, s') \<Rightarrow> (Some (snd (send_events accepts [] [Failed error])), s')
      | (Inr opened, s') \<Rightarrow>
          (case produce_loop fuel stream_next_chunk stream_usage elapsed accepts 0 producer_new (opened, s') of
             (r, (closed, s'')) \<Rightarrow> (r, permit_drop (stream_permit closed) s'')))"

section \<open>What the phrases say\<close>

text \<open>The text without its white space, and a phrase as the buffer hands it out.\<close>

definition spoken :: "rust_string \<Rightarrow> rust_string" where
  "spoken s = filter (\<lambda>c. \<not> is_whitespace c) s"

definition well_cut :: "rust_string \<Rightarrow> bool" where
  "well_cut p \<longleftrightarrow> p \<noteq> [] \<and> \<not> is_whitespace (hd p) \<and> \<not> is_whitespace (last p)"

lemma spoken_simps [simp]: "spoken [] = []" "spoken (s @ t) = spoken s @ spoken t"
  by (simp_all add: spoken_def)

lemma filter_dropWhile_neg: "filter (\<lambda>c. \<not> P c) (dropWhile P s) = filter (\<lambda>c. \<not> P c) s"
  by (induction s) auto

lemma spoken_trim [simp]: "spoken (trim s) = spoken s"
  by (simp add: spoken_def trim_def filter_dropWhile_neg flip: rev_filter)

lemma spoken_blank: "blank s \<Longrightarrow> spoken s = []"
  by (simp add: spoken_def blank_iff filter_empty_conv)

lemma well_cut_trim:
  assumes "trim s \<noteq> []"
  shows "well_cut (trim s)"
proof -
  let ?d = "dropWhile is_whitespace s" let ?t = "dropWhile is_whitespace (rev ?d)"
  have t: "?t \<noteq> []" and trim: "trim s = rev ?t" using assms by (simp_all add: trim_def)
  then have "\<not> is_whitespace (hd ?t)" by (metis hd_dropWhile)
  moreover have "?d \<noteq> []" using t by (metis dropWhile.simps(1) rev.simps(1))
  moreover have "hd (rev ?t) = hd ?d"
  proof -
    have "rev ?d = takeWhile is_whitespace (rev ?d) @ ?t" by simp
    then have "?d = rev ?t @ rev (takeWhile is_whitespace (rev ?d))" by (metis rev_append rev_rev_ident)
    then show ?thesis using t by (metis hd_append2 rev_is_Nil_conv)
  qed
  ultimately show ?thesis using t trim by (simp add: well_cut_def hd_dropWhile last_rev)
qed

lemma push_phrases_spec:
  assumes "push_phrases emitted self = (ps, self')" and "\<forall>p \<in> set emitted. well_cut p"
  shows "spoken (concat ps @ pending self') = spoken (concat emitted @ pending self) \<and>
    (\<forall>p \<in> set ps. well_cut p) \<and> next_boundary self' = None"
  using assms
proof (induction emitted self arbitrary: ps self' rule: push_phrases.induct)
  case (1 emitted self)
  show ?case
  proof (cases "next_boundary self")
    case None
    with 1(3,4) show ?thesis by (simp add: push_phrases.simps)
  next
    case (Some b)
    let ?phrase = "take b (pending self)"
    have split: "spoken (pending self) = spoken ?phrase @ spoken (drop b (pending self))"
      by (metis append_take_drop_id spoken_simps(2))
    show ?thesis
    proof (cases "blank ?phrase")
      case True
      with Some 1(3) have "push_phrases emitted (self\<lparr>pending := drop b (pending self)\<rparr>) = (ps, self')"
        by (subst (asm) push_phrases.simps) (simp add: Let_def)
      from 1(2) [OF Some refl refl _ this 1(4)] True show ?thesis by (simp add: split spoken_blank)
    next
      case False
      then have "well_cut (trim ?phrase)" by (intro well_cut_trim) (simp add: blank_def)
      with 1(4) have well: "\<forall>p \<in> set (emitted @ [trim ?phrase]). well_cut p" by simp
      from False Some 1(3) have
        "push_phrases (emitted @ [trim ?phrase]) (self\<lparr>pending := drop b (pending self), emitted_any := True\<rparr>) = (ps, self')"
        by (subst (asm) push_phrases.simps) (simp add: Let_def)
      from 1(1) [OF Some refl refl False this well] show ?thesis by (simp add: split)
    qed
  qed
qed

lemma push_spec:
  assumes "RealtimePhraseBuffer_push chunk self = (ps, self')"
  shows "spoken (concat ps) @ spoken (pending self') = spoken (pending self) @ spoken chunk"
    "\<forall>p \<in> set ps. well_cut p" "next_boundary self' = None"
  using push_phrases_spec [of "[]" "self\<lparr>pending := pending self @ chunk\<rparr>" ps self'] assms
  by (simp_all add: RealtimePhraseBuffer_push_def)

lemma finish_spec:
  "fst (RealtimePhraseBuffer_finish self) = Some p \<Longrightarrow> well_cut p \<and> spoken p = spoken (pending self)"
  "fst (RealtimePhraseBuffer_finish self) = None \<Longrightarrow> spoken (pending self) = []"
  using well_cut_trim [of "pending self"] spoken_blank [of "pending self"]
  by (auto simp: RealtimePhraseBuffer_finish_def blank_def Let_def split: if_splits)

text \<open>The events of a producer are the phrases of what it has read, in order.\<close>

definition producer_inv :: "producer \<Rightarrow> bool" where
  "producer_inv p \<longleftrightarrow>
     (\<exists>ps. sent_events p = map Phrase ps \<and> list_all well_cut ps \<and>
        spoken (concat ps) @ spoken (pending (phrases p)) = spoken (reply p))"

lemma producer_new_inv: "producer_inv producer_new"
  by (auto simp: producer_inv_def producer_new_def RealtimePhraseBuffer_default_def intro: exI [of _ "[]"])

lemma send_events_accepted:
  "(\<And>n. accepts n) \<Longrightarrow> send_events accepts sent events = (True, sent @ events)"
  by (induction events arbitrary: sent) auto

lemma send_events_prefix:
  "send_events accepts sent events = (alive, sent') \<Longrightarrow>
     \<exists>k \<le> length events. sent' = sent @ take k events \<and> (alive \<longrightarrow> k = length events)"
proof (induction events arbitrary: sent)
  case (Cons e events)
  show ?case
  proof (cases "accepts (length sent)")
    case True
    with Cons obtain k where "k \<le> length events" "sent' = (sent @ [e]) @ take k events" "alive \<longrightarrow> k = length events"
      by fastforce
    then show ?thesis by (intro exI [of _ "Suc k"]) simp
  next
    case False
    with Cons(2) show ?thesis by (intro exI [of _ 0]) auto
  qed
qed simp

lemma produce_chunk_inv:
  assumes "producer_inv p" and "produce_chunk accepts now chunk p = (True, p')"
  shows "producer_inv p'" "reply p' = reply p @ chunk"
proof -
  obtain ps where ps: "sent_events p = map Phrase ps" "list_all well_cut ps"
      "spoken (concat ps) @ spoken (pending (phrases p)) = spoken (reply p)"
    using assms(1) by (auto simp: producer_inv_def)
  obtain qs buffer where push: "RealtimePhraseBuffer_push chunk (phrases p) = (qs, buffer)" by fastforce
  obtain alive sent where send: "send_events accepts (sent_events p) (map Phrase qs) = (alive, sent)" by fastforce
  have p': "alive" "reply p' = reply p @ chunk" "phrases p' = buffer" "sent_events p' = sent"
    using assms(2) push send by (auto simp: produce_chunk_def Let_def)
  have "sent = map Phrase (ps @ qs)" using send_events_prefix [OF send] p'(1) ps(1) by auto
  moreover have "list_all well_cut (ps @ qs)" using ps(2) push_spec(2) [OF push] by (auto simp: list_all_iff)
  moreover have "spoken (concat (ps @ qs)) @ spoken (pending buffer) = spoken (reply p @ chunk)"
    using push_spec(1) [OF push] ps(3) by simp
  ultimately show "producer_inv p'" unfolding producer_inv_def p'(2-4) by (intro exI [of _ "ps @ qs"] conjI)
  show "reply p' = reply p @ chunk" by (fact p'(2))
qed

text \<open>A provider stream that yields the given chunks and then ends.\<close>

inductive streams ::
  "('st, rust_string option) provider_operation \<Rightarrow> rust_string list \<Rightarrow> 'st AuthorizedStream \<times> runtime
     \<Rightarrow> 'st AuthorizedStream \<times> runtime \<Rightarrow> bool" for stream_next_chunk where
  stream_ends: "next_chunk stream_next_chunk w = (Inr None, w') \<Longrightarrow> streams stream_next_chunk [] w w'"
| stream_yields: "next_chunk stream_next_chunk w = (Inr (Some chunk), w') \<Longrightarrow>
    streams stream_next_chunk chunks w' w'' \<Longrightarrow> streams stream_next_chunk (chunk # chunks) w w''"

lemma produce_chunk_accepted:
  "(\<And>n. accepts n) \<Longrightarrow> \<exists>p'. produce_chunk accepts now chunk p = (True, p')"
  by (simp add: produce_chunk_def Let_def send_events_accepted split: prod.splits)

lemma produce_end_accepted:
  assumes "producer_inv p" and "\<And>n. accepts n"
  shows "\<exists>ps. produce_end accepts now usage p = map Phrase ps @ [Finished (reply p) usage now (first_meaningful p)] \<and>
    list_all well_cut ps \<and> spoken (concat ps) = spoken (reply p)"
proof -
  obtain ps where ps: "sent_events p = map Phrase ps" "list_all well_cut ps"
      "spoken (concat ps) @ spoken (pending (phrases p)) = spoken (reply p)"
    using assms(1) by (auto simp: producer_inv_def)
  show ?thesis
  proof (cases "fst (RealtimePhraseBuffer_finish (phrases p))")
    case None
    with ps finish_spec(2) [OF None] show ?thesis
      by (intro exI [of _ ps]) (simp add: produce_end_def send_events_accepted assms(2))
  next
    case (Some phrase)
    with ps finish_spec(1) [OF Some] show ?thesis
      by (intro exI [of _ "ps @ [phrase]"]) (simp add: produce_end_def send_events_accepted assms(2))
  qed
qed

lemma produce_loop_total:
  assumes "streams stream_next_chunk chunks w w'" and "producer_inv p" and "length chunks < fuel"
    and accepts: "\<And>n. accepts n"
  shows "\<exists>ps now first. produce_loop fuel stream_next_chunk stream_usage elapsed accepts n p w =
      (Some (map Phrase ps @ [Finished (reply p @ concat chunks) (stream_usage (stream (fst w'))) now first]), w') \<and>
    list_all well_cut ps \<and> spoken (concat ps) = spoken (reply p @ concat chunks)"
  using assms(1-3)
proof (induction chunks w w' arbitrary: p fuel n rule: streams.induct)
  case (stream_ends w w')
  then obtain f where fuel: "fuel = Suc f" by (cases fuel) auto
  obtain ps where "produce_end accepts (elapsed n) (stream_usage (stream (fst w'))) p =
        map Phrase ps @ [Finished (reply p) (stream_usage (stream (fst w'))) (elapsed n) (first_meaningful p)]"
      "list_all well_cut ps" "spoken (concat ps) = spoken (reply p)"
    using produce_end_accepted [OF stream_ends(2), of accepts] accepts by blast
  then show ?case using stream_ends(1)
    by (intro exI [of _ ps] exI [of _ "elapsed n"] exI [of _ "first_meaningful p"]) (simp add: fuel)
next
  case (stream_yields w chunk w' chunks w'')
  then obtain f where fuel: "fuel = Suc f" "length chunks < f" by (cases fuel) auto
  obtain p' where p': "produce_chunk accepts (elapsed n) chunk p = (True, p')"
    using produce_chunk_accepted [of accepts, OF accepts] by blast
  note inv = produce_chunk_inv [OF stream_yields(4) p']
  from stream_yields(3) [OF inv(1) fuel(2), of "n + 1"] stream_yields(1) p' inv(2)
  show ?case by (simp add: fuel(1))
qed

text \<open>A provider that streams two chunks, for the concrete instance.\<close>

definition sample_chunks :: "rust_string list" where
  "sample_chunks = [lit ''Hi. Th'', lit ''ere '']"

definition sample_llm_usage :: UsageEvidence where
  "sample_llm_usage = \<lparr>input_units = None, input_unit = None, output_units = None, output_unit = None,
     estimated_cost_microunits = None, provider_charge_microunits = None\<rparr>"

definition sample_open_stream :: "unit \<Rightarrow> (unit, rust_string list) provider_operation" where
  "sample_open_stream request c w = (Inr sample_chunks, w)"

definition sample_next_chunk :: "(rust_string list, rust_string option) provider_operation" where
  "sample_next_chunk c w =
     (case w of ([], s) \<Rightarrow> (Inr None, ([], s)) | (chunk # rest, s) \<Rightarrow> (Inr (Some chunk), (rest, s)))"

definition sample_opening :: "(runtime, rust_string list AuthorizedStream, ProviderExecutionError) op" where
  "sample_opening s = open_llm_stream sample_open_stream () id sample_turn s"

definition sample_opened :: "rust_string list AuthorizedStream" where
  "sample_opened = projr (fst (sample_opening sample_outputting))"

definition sample_streaming :: runtime where
  "sample_streaming = snd (sample_opening sample_outputting)"

lemma sample_opens:
  "open_llm_stream sample_open_stream () id sample_turn sample_outputting = (Inr sample_opened, sample_streaming)"
proof -
  have "\<not> isl (fst (sample_opening sample_outputting))" by code_simp
  then show ?thesis
    by (cases "sample_opening sample_outputting")
      (auto simp: sample_opened_def sample_streaming_def simp flip: sample_opening_def)
qed

lemma sample_streams:
  assumes "\<not> ProviderCancellation_is_cancelled (permit_cancellation (stream_permit o')) s"
  shows "streams sample_next_chunk (stream o') (o', s) (o'\<lparr>stream := []\<rparr>, s)"
  using assms
proof (induction "stream o'" arbitrary: o')
  case Nil
  have "next_chunk sample_next_chunk (o', s) = (Inr None, (o'\<lparr>stream := []\<rparr>, s))"
    using Nil(2) by (simp add: next_chunk_def on_stream_def dispatch_def sample_next_chunk_def flip: Nil(1))
  then show ?case unfolding Nil(1) [symmetric] by (rule stream_ends)
next
  case (Cons chunk rest)
  have "next_chunk sample_next_chunk (o', s) = (Inr (Some chunk), (o'\<lparr>stream := rest\<rparr>, s))"
    using Cons(3) by (simp add: next_chunk_def on_stream_def dispatch_def sample_next_chunk_def flip: Cons(2))
  moreover have "streams sample_next_chunk rest (o'\<lparr>stream := rest\<rparr>, s) (o'\<lparr>stream := []\<rparr>, s)"
    using Cons(1) [of "o'\<lparr>stream := rest\<rparr>"] Cons(3) by simp
  ultimately show ?case unfolding Cons(2) [symmetric] by (rule stream_yields)
qed

text \<open>C29. The thread that streams a reply. When the provider's stream ends after finitely many chunks and
  nobody has hung up, the thread comes to an end, has queued the phrases and then exactly one closing
  event that carries the whole reply, and the phrases spell that reply: in order, with nothing lost or
  said twice but white space, none of them empty or padded. The stream's permit is given back.\<close>

theorem streamed_phrases_spell_reply:
  assumes "open_llm_stream port_open_stream request between turn s = (Inr opened, s')"
    and "streams stream_next_chunk chunks (opened, s') (closed, s'')"
    and "\<forall>n. accepts n" and "length chunks < fuel"
  shows "\<exists>ps now first.
    produce fuel port_open_stream stream_next_chunk stream_usage elapsed accepts request between turn s =
      (Some (map Phrase ps @ [Finished (concat chunks) (stream_usage (stream closed)) now first]),
       permit_drop (stream_permit closed) s'') \<and>
    list_all well_cut ps \<and> spoken (concat ps) = spoken (concat chunks)"
proof -
  obtain ps now first where
    "produce_loop fuel stream_next_chunk stream_usage elapsed accepts 0 producer_new (opened, s') =
       (Some (map Phrase ps @ [Finished (concat chunks) (stream_usage (stream closed)) now first]), (closed, s''))"
    and "list_all well_cut ps" "spoken (concat ps) = spoken (concat chunks)"
    using produce_loop_total [OF assms(2) producer_new_inv assms(4), of accepts stream_usage elapsed 0] assms(3)
    by (auto simp: producer_new_def)
  then show ?thesis by (intro exI [of _ ps] exI [of _ now] exI [of _ first]) (simp add: produce_def assms(1))
qed

theorem streamed_phrases_spell_reply_witness:
  "\<exists>ps now first.
    produce 3 sample_open_stream sample_next_chunk (\<lambda>_. sample_llm_usage) (\<lambda>n. of_nat n) (\<lambda>n. True) () id sample_turn
        sample_outputting =
      (Some (map Phrase ps @ [Finished (lit ''Hi. There '') sample_llm_usage now first]),
       permit_drop (stream_permit sample_opened) sample_streaming) \<and>
    list_all well_cut ps \<and> spoken (concat ps) = lit ''Hi.There''"
proof -
  have "\<not> ProviderCancellation_is_cancelled (permit_cancellation (stream_permit sample_opened)) sample_streaming"
    by code_simp
  moreover have "stream sample_opened = sample_chunks" by code_simp
  ultimately have "streams sample_next_chunk sample_chunks (sample_opened, sample_streaming)
      (sample_opened\<lparr>stream := []\<rparr>, sample_streaming)"
    using sample_streams [of sample_opened sample_streaming] by simp
  moreover have "concat sample_chunks = lit ''Hi. There ''" "spoken (lit ''Hi. There '') = lit ''Hi.There''"
      "length sample_chunks < 3"
    by code_simp+
  ultimately show ?thesis
    using streamed_phrases_spell_reply [OF sample_opens, of sample_next_chunk sample_chunks
        "sample_opened\<lparr>stream := []\<rparr>" sample_streaming "\<lambda>n. True" 3 "\<lambda>_. sample_llm_usage" "\<lambda>n. of_nat n"]
    by simp
qed

end
