(* ===== verification/VPR_Voice_Playback.thy ===== *)
theory VPR_Voice_Playback
  imports VPR_Delivery VPR_Btree
begin

text \<open>
  The registry that ties what a browser reports about played audio to the segments the runtime has issued
  (\<^verbatim>\<open>crates/vpr-owner-lab/src/state/voice_playback.rs\<close>), and how a failing voice turn is ended
  (\<open>terminalize_failed_turn\<close> of \<^verbatim>\<open>state/voice.rs\<close>, errors of \<^verbatim>\<open>state.rs\<close>). Every operation of the registry
  holds its lock; the turn's own lock is taken call by call, and \<open>between\<close> is what other threads do to the
  session in the pauses.
\<close>

section \<open>Errors\<close>

datatype LabError =
    EgressDisabled
  | ConsentRequired
  | InvalidInput
  | SpeechNotRecognized
  | InvalidState
  | Runtime Rt0ReasonCode
  | Provider Rt0ReasonCode
  | PersistenceFailed
  | Internal

fun map_provider_execution :: "ProviderExecutionError \<Rightarrow> LabError" where
  "map_provider_execution (ProviderExecutionError.Denied reason) = LabError.Runtime (reason_code reason)"
| "map_provider_execution (ProviderExecutionError.Provider provider) =
     LabError.Provider (provider_reason_code (provider_error_kind provider))"

definition terminalize_failed_turn ::
  "(runtime \<Rightarrow> runtime) \<Rightarrow> (runtime \<Rightarrow> runtime) \<Rightarrow> ActiveTurn \<Rightarrow> LabError \<Rightarrow> runtime \<Rightarrow> LabError \<times> runtime" where
  "terminalize_failed_turn between after turn error s =
     (let state = ts_state (cells s (at_state turn))
      in if state = Processing \<or> state = Outputting then
           (case turn_fail turn (between s) of
              (Ok _, s1) \<Rightarrow> (error, s1)
            | (Err reason, s1) \<Rightarrow>
                (let s2 = after s1
                 in (if ts_state (cells s2 (at_state turn)) = TurnState.Cancelled
                     then LabError.Runtime Rt0ReasonCode.TurnCancelled else LabError.Runtime reason, s2)))
         else if state = TurnState.Cancelled then (LabError.Runtime Rt0ReasonCode.TurnCancelled, s)
         else (error, s))"

definition terminalize_provider_error ::
  "(runtime \<Rightarrow> runtime) \<Rightarrow> (runtime \<Rightarrow> runtime) \<Rightarrow> ActiveTurn \<Rightarrow> ProviderExecutionError \<Rightarrow> runtime \<Rightarrow> LabError \<times> runtime" where
  "terminalize_provider_error between after turn error s =
     terminalize_failed_turn between after turn (map_provider_execution error) s"

section \<open>The registry\<close>

record PendingVoicePlayback =
  playback_turn :: ActiveTurn
  deliveries :: "OutputDeliveryHandle btree"

type_synonym LabVoicePlaybackRegistry = "PendingVoicePlayback btree"

definition playback_clear :: "LabVoicePlaybackRegistry \<Rightarrow> LabVoicePlaybackRegistry" where
  "playback_clear self = []"

definition handle_sequence :: "OutputDeliveryHandle \<Rightarrow> u64" where
  "handle_sequence delivery = OutputSegmentId_get (handle_segment_id delivery)"

definition register_delivery ::
  "u64 \<Rightarrow> ActiveTurn \<Rightarrow> OutputDeliveryHandle \<Rightarrow> (LabVoicePlaybackRegistry, u64, LabError) op" where
  "register_delivery evidence_turn_sequence turn delivery self =
     (let sequence = handle_sequence delivery
      in case map_of self evidence_turn_sequence of
           Some entry \<Rightarrow>
             (if snap_turn_id (at_snapshot (playback_turn entry)) \<noteq> snap_turn_id (at_snapshot turn) \<or>
                 map_of (deliveries entry) sequence \<noteq> None
              then (Err InvalidState, self)
              else (Ok sequence, btree_modify evidence_turn_sequence
                      (\<lambda>entry. entry\<lparr>deliveries := btree_insert sequence delivery (deliveries entry)\<rparr>) self))
         | None \<Rightarrow>
             (Ok sequence, btree_insert evidence_turn_sequence
                \<lparr>playback_turn = turn, deliveries = btree_insert sequence delivery []\<rparr> self))"

definition registered :: "LabVoicePlaybackRegistry \<Rightarrow> u64 \<Rightarrow> u64 \<Rightarrow> (ActiveTurn \<times> OutputDeliveryHandle) option" where
  "registered self evidence_turn_sequence evidence_output_sequence =
     Option.bind (map_of self evidence_turn_sequence) (\<lambda>entry.
       map_option (Pair (playback_turn entry)) (map_of (deliveries entry) evidence_output_sequence))"

definition acknowledge_voice_delivery_sent ::
  "LabVoicePlaybackRegistry \<Rightarrow> u64 \<Rightarrow> u64 \<Rightarrow> (runtime, unit, LabError) op" where
  "acknowledge_voice_delivery_sent self evidence_turn_sequence evidence_output_sequence s =
     (case registered self evidence_turn_sequence evidence_output_sequence of
        None \<Rightarrow> (Err InvalidState, s)
      | Some (turn, delivery) \<Rightarrow>
          (case acknowledge_output_sent turn delivery s of (r, s') \<Rightarrow> (map_err LabError.Runtime r, s')))"

definition acknowledge_voice_playback ::
  "LabVoicePlaybackRegistry \<Rightarrow> u64 \<Rightarrow> u64 \<Rightarrow> (runtime, unit, LabError) op" where
  "acknowledge_voice_playback self evidence_turn_sequence evidence_output_sequence s =
     (case registered self evidence_turn_sequence evidence_output_sequence of
        None \<Rightarrow> (Err InvalidState, s)
      | Some (turn, delivery) \<Rightarrow>
          (case acknowledge_output_played turn delivery s of (r, s') \<Rightarrow> (map_err LabError.Runtime r, s')))"

fun acknowledge_all_played ::
  "(u64 \<Rightarrow> runtime \<Rightarrow> runtime) \<Rightarrow> ActiveTurn \<Rightarrow> OutputDeliveryHandle btree \<Rightarrow> (runtime, unit, LabError) op" where
  "acknowledge_all_played between turn [] s = (Ok (), s)"
| "acknowledge_all_played between turn ((sequence, delivery) # rest) s =
     (case acknowledge_output_played turn delivery (between sequence s) of
        (Inl e, s') \<Rightarrow> (Err (LabError.Runtime e), s')
      | (Inr _, s') \<Rightarrow> acknowledge_all_played between turn rest s')"

definition acknowledge_voice_playback_complete ::
  "(u64 \<Rightarrow> runtime \<Rightarrow> runtime) \<Rightarrow> LabVoicePlaybackRegistry \<Rightarrow> u64 \<Rightarrow> u64 \<Rightarrow> (runtime, unit, LabError) op" where
  "acknowledge_voice_playback_complete between self evidence_turn_sequence first_output_sequence s =
     (case map_of self evidence_turn_sequence of
        None \<Rightarrow> (Err InvalidState, s)
      | Some entry \<Rightarrow>
          (if map_of (deliveries entry) first_output_sequence = None \<or> deliveries entry = []
           then (Err InvalidState, s)
           else acknowledge_all_played between (playback_turn entry) (deliveries entry) s))"

section \<open>Registration\<close>

text \<open>A handle is found under its own sequence; a later registration, accepted or refused, moves none.\<close>

lemma register_delivery_keeps:
  "registered self k q = Some x \<Longrightarrow> registered (snd (register_delivery n turn d self)) k q = Some x"
  by (auto simp: register_delivery_def registered_def btree_modify_get btree_insert_get Let_def
      bind_eq_Some_conv split: option.splits)

lemma register_delivery_Err: "register_delivery n turn d self = (Err e, self') \<Longrightarrow> self' = self \<and> e = InvalidState"
  by (auto simp: register_delivery_def Let_def split: option.splits if_splits)

lemma register_delivery_Ok:
  assumes "register_delivery n turn d self = (Ok q, self')"
  shows "q = handle_sequence d" "registered self n q = None"
    "\<exists>t. registered self' n q = Some (t, d) \<and> snap_turn_id (at_snapshot t) = snap_turn_id (at_snapshot turn)"
  using assms
  by (auto simp: register_delivery_def registered_def btree_modify_get btree_insert_get Let_def
      bind_eq_None_conv split: option.splits if_splits)

section \<open>Acknowledgements\<close>

text \<open>How far a segment got, as a number; it only grows.\<close>

definition reached_rank :: "OutputSegmentId \<Rightarrow> TurnMutableState \<Rightarrow> nat" where
  "reached_rank i x = (case reached_checkpoint i x of None \<Rightarrow> 0 | Some c \<Rightarrow> checkpoint_rank c)"

lemma reached_rank_le3: "reached_rank i x \<le> 3"
proof -
  have "checkpoint_rank c \<le> 3" for c by (cases c) auto
  then show ?thesis by (simp add: reached_rank_def split: option.splits)
qed

lemma reached_rank_found:
  "1 \<le> reached_rank i x \<Longrightarrow>
     \<exists>g. List.find (\<lambda>g. segment_id g = i) (output_segments x) = Some g \<and>
       reached_rank i x = checkpoint_rank (fst (evidence_abs (evidence_state (segment_evidence g))))"
  by (auto simp: reached_rank_def reached_checkpoint_def split: option.splits)

lemma reached_rank_progress:
  assumes "turn_state_inv x" "turn_state_inv y" "segments_progress x y"
  shows "reached_rank i x \<le> reached_rank i y"
proof (cases "1 \<le> reached_rank i x")
  case True
  then obtain g where g: "List.find (\<lambda>g. segment_id g = i) (output_segments x) = Some g"
      "reached_rank i x = checkpoint_rank (fst (evidence_abs (evidence_state (segment_evidence g))))"
    using reached_rank_found by blast
  then obtain k where k: "k < length (output_segments x)" "output_segments x ! k = g" "segment_id g = i"
    using find_Some_mem [OF g(1)] by (auto simp: in_set_conv_nth)
  have y: "k < length (output_segments y)" "segment_progress g (output_segments y ! k)"
    using segments_progress_nth [OF assms(3) k(1)] k(2) by auto
  then have "List.find (\<lambda>g. segment_id g = i) (output_segments y) = Some (output_segments y ! k)"
    using find_segment [OF assms(2) y(1), of i] k(3) by (simp add: segment_progress_def)
  then show ?thesis using y(2) g(2) by (simp add: reached_rank_def reached_checkpoint_def segment_progress_def)
qed simp

lemma reconcile_played_sent:
  "2 \<le> checkpoint_rank (fst (evidence_abs (evidence_state e))) \<Longrightarrow>
     \<exists>e'. reconcile_played e = (Ok (), e') \<and> fst (evidence_abs (evidence_state e')) = OutputCheckpoint.Played"
  by (auto simp: reconcile_played_def Let_def split: evidence_splits)

lemma played_recorded:
  assumes "2 \<le> reached_rank i x"
  shows "\<exists>x'. reconcile_output_played i x = (Ok (), x') \<and> reached_rank i x' = 3"
proof -
  obtain g where g: "List.find (\<lambda>g. segment_id g = i) (output_segments x) = Some g"
      "2 \<le> checkpoint_rank (fst (evidence_abs (evidence_state (segment_evidence g))))"
    using reached_rank_found [of i x] assms by auto
  obtain e' where e': "reconcile_played (segment_evidence g) = (Ok (), e')"
      "fst (evidence_abs (evidence_state e')) = OutputCheckpoint.Played"
    using reconcile_played_sent [OF g(2)] by blast
  have "segment_id g = i" using find_Some_mem [OF g(1)] by simp
  then show ?thesis
    using g(1) e' find_update_first_same [OF g(1), of "\<lambda>g. g\<lparr>segment_evidence := e'\<rparr>"]
    by (auto simp: reconcile_output_played_def with_segment_mut_def reached_rank_def reached_checkpoint_def)
qed

text \<open>What other threads can do to a turn: any calls of its operations.\<close>

definition turn_calls :: "ActiveTurn \<Rightarrow> runtime \<Rightarrow> runtime \<Rightarrow> bool" where
  "turn_calls turn s s' \<longleftrightarrow> (\<exists>ops. cells s' (at_state turn) = final turn_step ops (cells s (at_state turn)))"

lemma turn_calls_keep:
  assumes "turn_calls turn s s'" and "turn_state_inv (cells s (at_state turn))"
  shows "turn_state_inv (cells s' (at_state turn))"
    "reached_rank i (cells s (at_state turn)) \<le> reached_rank i (cells s' (at_state turn))"
  using assms turn_run reached_rank_progress by (auto simp: turn_calls_def)

lemma acknowledge_played_sent:
  assumes "turn_state_inv (cells s (at_state turn))" and "handle_turn_id d = snap_turn_id (at_snapshot turn)"
    and "2 \<le> reached_rank (handle_segment_id d) (cells s (at_state turn))"
  obtains s' where "acknowledge_output_played turn d s = (Ok (), s')" "turn_calls turn s s'"
    "reached_rank (handle_segment_id d) (cells s' (at_state turn)) = 3"
proof -
  let ?i = "handle_segment_id d"
  obtain x where x: "reconcile_output_played ?i (cells s (at_state turn)) = (Ok (), x)" "reached_rank ?i x = 3"
    using played_recorded [OF assms(3)] by blast
  let ?s = "s\<lparr>cells := (cells s)(at_state turn := x)\<rparr>"
  have "acknowledge_output_played turn d s = (Ok (), ?s)"
    using x(1) assms(2) by (simp add: acknowledge_output_played_def validate_delivery_handle_def on_turn_state_def)
  moreover have "turn_calls turn s ?s"
    unfolding turn_calls_def using x(1) by (intro exI [of _ "[SegmentPlayed ?i]"]) simp
  ultimately show thesis using that x(2) by simp
qed

lemma acknowledge_all_sent:
  assumes "turn_state_inv (cells s (at_state turn))" and "\<forall>q s. turn_calls turn s (between q s)"
    and "\<forall>(q, d) \<in> set ds. handle_turn_id d = snap_turn_id (at_snapshot turn) \<and>
      2 \<le> reached_rank (handle_segment_id d) (cells s (at_state turn))"
  shows "\<exists>s'. acknowledge_all_played between turn ds s = (Ok (), s') \<and>
    (\<forall>i. reached_rank i (cells s (at_state turn)) \<le> reached_rank i (cells s' (at_state turn))) \<and>
    (\<forall>(q, d) \<in> set ds. reached_rank (handle_segment_id d) (cells s' (at_state turn)) = 3)"
  using assms(1,3)
proof (induction ds arbitrary: s)
  case (Cons qd ds)
  obtain q d where qd: "qd = (q, d)" by fastforce
  note calls = turn_calls_keep [OF assms(2) [rule_format, of s q] Cons(2)]
  have "2 \<le> reached_rank (handle_segment_id d) (cells (between q s) (at_state turn))"
    using Cons(3) calls(2) [of "handle_segment_id d"] qd by auto
  then obtain s1 where s1: "acknowledge_output_played turn d (between q s) = (Ok (), s1)" "turn_calls turn (between q s) s1"
      "reached_rank (handle_segment_id d) (cells s1 (at_state turn)) = 3"
    using acknowledge_played_sent [OF calls(1), of d] Cons(3) qd by auto
  note keep = turn_calls_keep [OF s1(2) calls(1)]
  have grows: "reached_rank i (cells s (at_state turn)) \<le> reached_rank i (cells s1 (at_state turn))" for i
    using calls(2) keep(2) order_trans by blast
  have "2 \<le> reached_rank i (cells s1 (at_state turn))" if "2 \<le> reached_rank i (cells s (at_state turn))" for i
    using that grows [of i] by simp
  then have "\<forall>(q, d) \<in> set ds. handle_turn_id d = snap_turn_id (at_snapshot turn) \<and>
      2 \<le> reached_rank (handle_segment_id d) (cells s1 (at_state turn))"
    using Cons(3) by auto
  from Cons(1) [OF keep(1) this] obtain s2 where s2: "acknowledge_all_played between turn ds s1 = (Ok (), s2)"
      "\<And>i. reached_rank i (cells s1 (at_state turn)) \<le> reached_rank i (cells s2 (at_state turn))"
      "\<forall>(q, d) \<in> set ds. reached_rank (handle_segment_id d) (cells s2 (at_state turn)) = 3" by blast
  moreover have "reached_rank (handle_segment_id d) (cells s2 (at_state turn)) = 3"
    using s1(3) s2(2) [of "handle_segment_id d"] reached_rank_le3 [of "handle_segment_id d"] by (simp add: le_antisym)
  moreover have "\<forall>i. reached_rank i (cells s (at_state turn)) \<le> reached_rank i (cells s2 (at_state turn))"
    using grows s2(2) order_trans by blast
  ultimately show ?case by (simp add: qd s1(1))
qed simp

lemma reached_rank_3: "reached_rank i x = 3 \<longleftrightarrow> reached_checkpoint i x = Some OutputCheckpoint.Played"
  by (auto simp: reached_rank_def split: option.splits elim: checkpoint_rank.elims)

lemma reached_rank_2:
  "2 \<le> reached_rank i x \<longleftrightarrow> reached_checkpoint i x \<in> {Some OutputCheckpoint.Sent, Some OutputCheckpoint.Played}"
proof -
  have "2 \<le> checkpoint_rank c \<longleftrightarrow> c = OutputCheckpoint.Sent \<or> c = OutputCheckpoint.Played" for c by (cases c) auto
  then show ?thesis by (auto simp: reached_rank_def split: option.splits)
qed

section \<open>Properties\<close>

text \<open>C30. The end of a queue of phrases. When every segment registered for a turn has been sent, the report that
  the queue has finished is always accepted under the sequence of any of its segments, whatever other threads do to
  the turn in the meantime, cancelling it included, and afterwards every single registered segment counts as played.
  Under an output sequence that was never registered for the turn it is refused and changes nothing.\<close>

theorem playback_complete_covers_queue:
  assumes entry: "map_of registry n = Some entry"
    and inv: "turn_state_inv (cells s (at_state (playback_turn entry)))"
    and others: "\<forall>q s. turn_calls (playback_turn entry) s (between q s)"
    and sent: "\<forall>(q, d) \<in> set (deliveries entry).
      handle_turn_id d = snap_turn_id (at_snapshot (playback_turn entry)) \<and>
      reached_checkpoint (handle_segment_id d) (cells s (at_state (playback_turn entry)))
        \<in> {Some OutputCheckpoint.Sent, Some OutputCheckpoint.Played}"
  shows "if first_sequence \<in> fst ` set (deliveries entry) then
      (\<exists>s'. acknowledge_voice_playback_complete between registry n first_sequence s = (Ok (), s') \<and>
        (\<forall>(q, d) \<in> set (deliveries entry).
           reached_checkpoint (handle_segment_id d) (cells s' (at_state (playback_turn entry))) =
             Some OutputCheckpoint.Played))
    else acknowledge_voice_playback_complete between registry n first_sequence s = (Err InvalidState, s)"
proof (cases "first_sequence \<in> fst ` set (deliveries entry)")
  case True
  then have "map_of (deliveries entry) first_sequence \<noteq> None" "deliveries entry \<noteq> []"
    by (auto simp: map_of_eq_None_iff)
  then have "acknowledge_voice_playback_complete between registry n first_sequence s =
      acknowledge_all_played between (playback_turn entry) (deliveries entry) s"
    by (auto simp: acknowledge_voice_playback_complete_def entry)
  with True acknowledge_all_sent [OF inv others, of "deliveries entry"] sent
  show ?thesis by (auto simp: reached_rank_2 reached_rank_3)
next
  case False
  then have "map_of (deliveries entry) first_sequence = None" by (simp add: map_of_eq_None_iff)
  with False show ?thesis by (simp add: acknowledge_voice_playback_complete_def entry)
qed

definition sample_sent :: runtime where
  "sample_sent = snd (deliver_text (\<lambda>_ _ s. (Ok (), s)) [] sample_turn sample_outputting)"

definition sample_registry :: LabVoicePlaybackRegistry where
  "sample_registry = snd (register_delivery 7 sample_turn
     \<lparr>handle_turn_id = TurnId [], handle_segment_id = OutputSegmentId 1\<rparr> [])"

theorem playback_complete_covers_queue_witness:
  "(\<exists>s'. acknowledge_voice_playback_complete (\<lambda>_. id) sample_registry 7 1 sample_sent = (Ok (), s') \<and>
     reached_checkpoint (OutputSegmentId 1) (cells s' 0) = Some OutputCheckpoint.Played) \<and>
   acknowledge_voice_playback_complete (\<lambda>_. id) sample_registry 7 2 sample_sent = (Err InvalidState, sample_sent)"
proof -
  have registry: "sample_registry = [(7, \<lparr>playback_turn = sample_turn,
      deliveries = [(1, \<lparr>handle_turn_id = TurnId [], handle_segment_id = OutputSegmentId 1\<rparr>)]\<rparr>)]"
    by (simp add: sample_registry_def register_delivery_def handle_sequence_def Let_def)
  have calls: "\<forall>q s. turn_calls sample_turn s (id s)"
    by (auto simp: turn_calls_def intro: exI [of _ "[]"])
  have state: "turn_state_inv (cells sample_sent 0)"
      "reached_checkpoint (OutputSegmentId 1) (cells sample_sent 0) = Some OutputCheckpoint.Sent"
      "snap_turn_id (at_snapshot sample_turn) = TurnId []"
    by code_simp+
  show ?thesis
    using playback_complete_covers_queue [of sample_registry 7 _ sample_sent "\<lambda>_. id" 1]
      playback_complete_covers_queue [of sample_registry 7 _ sample_sent "\<lambda>_. id" 2] calls state
    by (simp add: registry sample_outputting_state)
qed

end
