(* ===== verification/VPR_Voice_Input.thy ===== *)
theory VPR_Voice_Input
  imports VPR_Voice_Playback
begin

text \<open>
  The microphone side of a voice turn: speech recognition behind a stream, or behind one buffered request when the
  provider has no stream (\<^verbatim>\<open>crates/vpr-owner-lab/src/state/voice_stt.rs\<close>), and the bounded input the browser writes to
  (\<^verbatim>\<open>state/voice_input.rs\<close>). The methods of the provider and of its stream are arguments; \<open>between\<close> and \<open>after\<close> are
  what other threads do in the pauses of \<open>terminalize_failed_turn\<close>. The loop that waits for the last recognition
  event takes fuel, since the stream decides when it ends.
\<close>

section \<open>Recognition\<close>

definition STT_STREAM_CHUNK_BYTES :: nat where "STT_STREAM_CHUNK_BYTES = 640"

datatype 'st VoiceSttMode = Streaming "'st AuthorizedStream" | Buffered "byte list"

record 'st VoiceSttInput =
  vsi_request :: SttStreamRequest
  vsi_mode :: "'st VoiceSttMode"

record SttRequest =
  stt_audio :: AudioInput
  sttr_locale_hint :: "rust_string option"

definition VoiceSttInput_open ::
  "(SttStreamRequest \<Rightarrow> (unit, 'st) provider_operation) \<Rightarrow> (runtime \<Rightarrow> runtime) \<Rightarrow> (runtime \<Rightarrow> runtime) \<Rightarrow> (runtime \<Rightarrow> runtime)
     \<Rightarrow> ActiveTurn \<Rightarrow> SttStreamRequest \<Rightarrow> (runtime, 'st VoiceSttInput, LabError) op" where
  "VoiceSttInput_open stt_open issuing between after turn request s =
     (case open_stt_stream stt_open request issuing turn s of
        (Ok opened, s') \<Rightarrow> (Ok \<lparr>vsi_request = request, vsi_mode = Streaming opened\<rparr>, s')
      | (Err error, s') \<Rightarrow>
          (if (case error of
                 ProviderExecutionError.Provider e \<Rightarrow> provider_error_kind e = ProviderErrorKind.Unavailable \<and> \<not> provider_retryable e
               | ProviderExecutionError.Denied _ \<Rightarrow> False)
           then (Ok \<lparr>vsi_request = request, vsi_mode = Buffered []\<rparr>, s')
           else (case terminalize_provider_error between after turn error s' of (e, s'') \<Rightarrow> (Err e, s''))))"

text \<open>\<open>slice::chunks\<close>.\<close>

fun chunks_of :: "nat \<Rightarrow> 'a list \<Rightarrow> 'a list list" where
  "chunks_of n xs = (if xs = [] \<or> n = 0 then [] else take n xs # chunks_of n (drop n xs))"

declare chunks_of.simps [simp del]

fun push_stream_chunks ::
  "(byte list \<Rightarrow> ('st, unit) provider_operation) \<Rightarrow> (runtime \<Rightarrow> runtime) \<Rightarrow> (runtime \<Rightarrow> runtime) \<Rightarrow> ActiveTurn
     \<Rightarrow> byte list list \<Rightarrow> ('st AuthorizedStream \<times> runtime, unit, LabError) op" where
  "push_stream_chunks stream_push between after turn [] w = (Ok (), w)"
| "push_stream_chunks stream_push between after turn (chunk # rest) w =
     (case push_audio stream_push chunk w of
        (Inl error, (st, s)) \<Rightarrow>
          (case terminalize_provider_error between after turn error s of (e, s') \<Rightarrow> (Err e, (st, s')))
      | (Inr _, w') \<Rightarrow> push_stream_chunks stream_push between after turn rest w')"

definition VoiceSttInput_push_audio ::
  "(byte list \<Rightarrow> ('st, unit) provider_operation) \<Rightarrow> (runtime \<Rightarrow> runtime) \<Rightarrow> (runtime \<Rightarrow> runtime) \<Rightarrow> ActiveTurn
     \<Rightarrow> byte list \<Rightarrow> ('st VoiceSttInput \<times> runtime, unit, LabError) op" where
  "VoiceSttInput_push_audio stream_push between after turn pcm = (\<lambda>(self, s).
     (if \<not> is_well_formed_chunk (vsi_request self) pcm then
        (case terminalize_failed_turn between after turn InvalidInput s of (e, s') \<Rightarrow> (Err e, (self, s')))
      else (case vsi_mode self of
              Streaming opened \<Rightarrow>
                (case push_stream_chunks stream_push between after turn (chunks_of STT_STREAM_CHUNK_BYTES pcm) (opened, s) of
                   (r, (opened', s')) \<Rightarrow> (r, (self\<lparr>vsi_mode := Streaming opened'\<rparr>, s')))
            | Buffered buffer \<Rightarrow> (Ok (), (self\<lparr>vsi_mode := Buffered (buffer @ pcm)\<rparr>, s)))))"

definition final_transcript :: "Transcript option \<Rightarrow> SttStreamEvent \<Rightarrow> Transcript option" where
  "final_transcript found event =
     (case event of
        Final transcript \<Rightarrow> (if \<not> blank (transcript_text transcript) then Some transcript else found)
      | Interim _ \<Rightarrow> found)"

fun final_events ::
  "nat \<Rightarrow> ('st, SttStreamEvent option) provider_operation \<Rightarrow> (runtime \<Rightarrow> runtime) \<Rightarrow> (runtime \<Rightarrow> runtime) \<Rightarrow> ActiveTurn
     \<Rightarrow> Transcript option \<Rightarrow> 'st AuthorizedStream \<times> runtime
     \<Rightarrow> (LabError + Transcript option) option \<times> ('st AuthorizedStream \<times> runtime)" where
  "final_events 0 stream_next between after turn found w = (None, w)"
| "final_events (Suc fuel) stream_next between after turn found w =
     (case next_event stream_next w of
        (Inl error, (st, s)) \<Rightarrow>
          (case terminalize_provider_error between after turn error s of (e, s') \<Rightarrow> (Some (Err e), (st, s')))
      | (Inr None, w') \<Rightarrow> (Some (Ok found), w')
      | (Inr (Some event), w') \<Rightarrow>
          final_events fuel stream_next between after turn (final_transcript found event) w')"

text \<open>\<open>finish\<close> consumes the input, so a stream is dropped on return and gives its permit back.\<close>

definition finish_streaming ::
  "nat \<Rightarrow> ('st, unit) provider_operation \<Rightarrow> ('st, SttStreamEvent option) provider_operation \<Rightarrow> ('st \<Rightarrow> UsageEvidence)
     \<Rightarrow> (runtime \<Rightarrow> runtime) \<Rightarrow> (runtime \<Rightarrow> runtime) \<Rightarrow> ActiveTurn \<Rightarrow> 'st AuthorizedStream \<Rightarrow> runtime
     \<Rightarrow> (LabError + Transcript \<times> UsageEvidence) option \<times> runtime" where
  "finish_streaming fuel stream_finish stream_next stream_usage between after turn opened s =
     (case finish_input stream_finish (opened, s) of
        (Err error, (st, s1)) \<Rightarrow>
          (case terminalize_provider_error between after turn error s1 of
             (e, s2) \<Rightarrow> (Some (Err e), permit_drop (stream_permit st) s2))
      | (Ok _, w) \<Rightarrow>
          (case final_events fuel stream_next between after turn None w of
             (None, (st, s1)) \<Rightarrow> (None, s1)
           | (Some (Inl e), (st, s1)) \<Rightarrow> (Some (Err e), permit_drop (stream_permit st) s1)
           | (Some (Inr None), (st, s1)) \<Rightarrow>
               (case terminalize_failed_turn between after turn SpeechNotRecognized s1 of
                  (e, s2) \<Rightarrow> (Some (Err e), permit_drop (stream_permit st) s2))
           | (Some (Inr (Some transcript)), (st, s1)) \<Rightarrow>
               (Some (Ok (transcript, stream_usage (stream st))), permit_drop (stream_permit st) s1)))"

definition VoiceSttInput_finish ::
  "nat \<Rightarrow> ('st, unit) provider_operation \<Rightarrow> ('st, SttStreamEvent option) provider_operation \<Rightarrow> ('st \<Rightarrow> UsageEvidence)
     \<Rightarrow> (SttRequest \<Rightarrow> (unit, Transcript \<times> UsageEvidence) provider_operation) \<Rightarrow> (runtime \<Rightarrow> runtime) \<Rightarrow> (runtime \<Rightarrow> runtime)
     \<Rightarrow> (runtime \<Rightarrow> runtime) \<Rightarrow> ActiveTurn \<Rightarrow> 'st VoiceSttInput \<Rightarrow> runtime
     \<Rightarrow> (LabError + Transcript \<times> UsageEvidence) option \<times> runtime" where
  "VoiceSttInput_finish fuel stream_finish stream_next stream_usage stt_transcribe issuing between after turn self s =
     (case vsi_mode self of
        Streaming opened \<Rightarrow> finish_streaming fuel stream_finish stream_next stream_usage between after turn opened s
      | Buffered pcm \<Rightarrow>
          (let audio = \<lparr>input_pcm = pcm, input_sample_rate_hz = stt_sample_rate_hz (vsi_request self),
                        input_channels = stt_channels (vsi_request self),
                        input_sample_format = stt_sample_format (vsi_request self)\<rparr>
           in case execute_stt stt_transcribe \<lparr>stt_audio = audio, sttr_locale_hint = stt_locale_hint (vsi_request self)\<rparr>
                     issuing turn ((), s) of
                (Err error, (_, s1)) \<Rightarrow>
                  (case terminalize_provider_error between after turn error s1 of (e, s2) \<Rightarrow> (Some (Err e), s2))
              | (Ok r, (_, s1)) \<Rightarrow> (Some (Ok r), s1)))"

text \<open>A whole recording at once.\<close>

definition transcribe_voice_audio ::
  "nat \<Rightarrow> (SttStreamRequest \<Rightarrow> (unit, 'st) provider_operation) \<Rightarrow> (byte list \<Rightarrow> ('st, unit) provider_operation)
     \<Rightarrow> ('st, unit) provider_operation \<Rightarrow> ('st, SttStreamEvent option) provider_operation \<Rightarrow> ('st \<Rightarrow> UsageEvidence)
     \<Rightarrow> (SttRequest \<Rightarrow> (unit, Transcript \<times> UsageEvidence) provider_operation) \<Rightarrow> (runtime \<Rightarrow> runtime) \<Rightarrow> (runtime \<Rightarrow> runtime)
     \<Rightarrow> (runtime \<Rightarrow> runtime) \<Rightarrow> ActiveTurn \<Rightarrow> AudioInput \<Rightarrow> runtime
     \<Rightarrow> (LabError + Transcript \<times> UsageEvidence) option \<times> runtime" where
  "transcribe_voice_audio fuel stt_open stream_push stream_finish stream_next stream_usage stt_transcribe
       issuing between after turn audio s =
     (let request = \<lparr>stt_sample_rate_hz = input_sample_rate_hz audio, stt_channels = input_channels audio,
                     stt_sample_format = input_sample_format audio, stt_locale_hint = Some (lit ''ru-RU'')\<rparr>
      in case VoiceSttInput_open stt_open issuing between after turn request s of
           (Err e, s1) \<Rightarrow> (Some (Err e), s1)
         | (Ok input, s1) \<Rightarrow>
             (case VoiceSttInput_push_audio stream_push between after turn (input_pcm audio) (input, s1) of
                (Err e, (input', s2)) \<Rightarrow>
                  (Some (Err e), case vsi_mode input' of Streaming opened \<Rightarrow> permit_drop (stream_permit opened) s2
                                 | Buffered _ \<Rightarrow> s2)
              | (Ok _, (input', s2)) \<Rightarrow>
                  VoiceSttInput_finish fuel stream_finish stream_next stream_usage stt_transcribe issuing between after
                    turn input' s2))"

section \<open>The microphone input\<close>

definition MAX_VOICE_BYTES :: nat where "MAX_VOICE_BYTES = 16000 * 2 * 30"

record 'st LabVoiceInput =
  lvi_turn :: ActiveTurn
  lvi_evidence_turn_sequence :: u64
  lvi_stt_input :: "'st VoiceSttInput"
  received_bytes :: nat

definition LabVoiceInput_push_audio ::
  "(byte list \<Rightarrow> ('st, unit) provider_operation) \<Rightarrow> (runtime \<Rightarrow> runtime) \<Rightarrow> (runtime \<Rightarrow> runtime)
     \<Rightarrow> byte list \<Rightarrow> ('st LabVoiceInput \<times> runtime, unit, LabError) op" where
  "LabVoiceInput_push_audio stream_push between after pcm = (\<lambda>(self, s).
     (let refuse = (case terminalize_failed_turn between after (lvi_turn self) InvalidInput s of
                      (e, s') \<Rightarrow> (Err e, (self, s')))
      in case usize_checked_add (received_bytes self) (length pcm) of
           None \<Rightarrow> refuse
         | Some next_bytes \<Rightarrow>
             (if MAX_VOICE_BYTES < next_bytes then refuse
              else (case VoiceSttInput_push_audio stream_push between after (lvi_turn self) pcm (lvi_stt_input self, s) of
                      (Err e, (stt, s')) \<Rightarrow> (Err e, (self\<lparr>lvi_stt_input := stt\<rparr>, s'))
                    | (Ok _, (stt, s')) \<Rightarrow>
                        (Ok (), (self\<lparr>lvi_stt_input := stt, received_bytes := next_bytes\<rparr>, s'))))))"

definition LabVoiceInput_abort ::
  "(runtime \<Rightarrow> runtime) \<Rightarrow> (runtime \<Rightarrow> runtime) \<Rightarrow> LabError \<Rightarrow> 'st LabVoiceInput \<Rightarrow> runtime \<Rightarrow> LabError \<times> runtime" where
  "LabVoiceInput_abort between after error self s = terminalize_failed_turn between after (lvi_turn self) error s"

section \<open>Chunks\<close>

lemma chunks_of_concat: "0 < n \<Longrightarrow> concat (chunks_of n xs) = xs"
proof (induction n xs rule: chunks_of.induct)
  case (1 n xs)
  then show ?case by (subst chunks_of.simps) auto
qed

lemma chunks_of_length: "\<forall>c \<in> set (chunks_of n xs). c \<noteq> [] \<and> length c \<le> n"
proof (induction n xs rule: chunks_of.induct)
  case (1 n xs)
  then show ?case by (subst chunks_of.simps) auto
qed

section \<open>What the microphone input keeps\<close>

lemma push_audio_keeps:
  assumes "VoiceSttInput_push_audio f b a t pcm (stt, s) = (r, (stt', s'))"
  shows "vsi_request stt' = vsi_request stt"
    and "vsi_mode stt = Buffered buffer \<Longrightarrow> vsi_mode stt' = Buffered (if r = Ok () then buffer @ pcm else buffer)"
  using assms by (auto simp: VoiceSttInput_push_audio_def split: if_splits VoiceSttMode.splits prod.splits)

definition voice_input_inv :: "bool \<Rightarrow> 'st LabVoiceInput \<Rightarrow> byte list \<Rightarrow> bool" where
  "voice_input_inv buffered self heard \<longleftrightarrow>
     received_bytes self = length heard \<and> length heard \<le> MAX_VOICE_BYTES \<and>
     (case vsi_mode (lvi_stt_input self) of Streaming _ \<Rightarrow> \<not> buffered | Buffered buffer \<Rightarrow> buffered \<and> buffer = heard)"

lemma voice_input_step:
  assumes "voice_input_inv buffered self heard" and "LabVoiceInput_push_audio f b a pcm (self, s) = (r, (self', s'))"
  shows "voice_input_inv buffered self' (if r = Ok () then heard @ pcm else heard)"
proof (cases "MAX_VOICE_BYTES < received_bytes self + length pcm")
  case True
  then show ?thesis using assms
    by (auto simp: LabVoiceInput_push_audio_def usize_checked_add_def Let_def split: if_splits prod.splits)
next
  case False
  then have add: "usize_checked_add (received_bytes self) (length pcm) = Some (received_bytes self + length pcm)"
    by (simp add: MAX_VOICE_BYTES_def)
  obtain r' stt s1 where push: "VoiceSttInput_push_audio f b a (lvi_turn self) pcm (lvi_stt_input self, s) = (r', (stt, s1))"
    by (metis prod_cases3)
  have r: "r = r'" "lvi_stt_input self' = stt"
      "received_bytes self' = (if r = Ok () then received_bytes self + length pcm else received_bytes self)"
    using assms(2) False add push by (cases r'; force simp: LabVoiceInput_push_audio_def Let_def)+
  have mode: "vsi_mode stt = Buffered (if r = Ok () then heard @ pcm else heard)"
    if "vsi_mode (lvi_stt_input self) = Buffered heard"
    using push_audio_keeps(2) [OF push that] r(1) by simp
  have streaming: "\<exists>x'. vsi_mode stt = Streaming x'" if "vsi_mode (lvi_stt_input self) = Streaming x" for x
    using push that by (auto simp: VoiceSttInput_push_audio_def split: if_splits prod.splits)
  show ?thesis
    using assms(1) r False mode streaming
    by (cases "vsi_mode (lvi_stt_input self)") (auto simp: voice_input_inv_def)
qed

lemma voice_input_run:
  assumes "voice_input_inv buffered self heard"
  shows "voice_input_inv buffered (fst (final (LabVoiceInput_push_audio f b a) pcms (self, s)))
    (heard @ concat (successes (fst (run_ops (LabVoiceInput_push_audio f b a) pcms (self, s)))))"
  using assms
proof (induction pcms arbitrary: self s heard)
  case (Cons pcm pcms)
  obtain r self' s' where push: "LabVoiceInput_push_audio f b a pcm (self, s) = (r, (self', s'))" by (metis prod_cases3)
  from Cons(1) [OF voice_input_step [OF Cons(2) push], of s'] push
  show ?case by (cases r) auto
qed simp

text \<open>The microphone is bounded. Whatever the browser writes, in whatever pieces, and however often it goes on
  after a refusal: the input counts exactly the bytes of the pieces it has accepted, which are never more than the
  thirty seconds of the limit, and when the provider has no stream the audio to be recognised is exactly those pieces
  in the order they came.\<close>

lemma microphone_input_bounded:
  assumes "received_bytes self = 0"
    and "vsi_mode (lvi_stt_input self) = (if buffered then Buffered [] else Streaming opened)"
  shows "case run_ops (LabVoiceInput_push_audio stream_push between after) pcms (self, s) of (results, (self', s')) \<Rightarrow>
    received_bytes self' = length (concat (successes results)) \<and> received_bytes self' \<le> 960000 \<and>
    (buffered \<longrightarrow> vsi_mode (lvi_stt_input self') = Buffered (concat (successes results)))"
proof -
  have "voice_input_inv buffered self []" using assms by (simp add: voice_input_inv_def)
  from voice_input_run [OF this, of stream_push between after pcms s] show ?thesis
    by (auto simp: voice_input_inv_def MAX_VOICE_BYTES_def split: prod.splits VoiceSttMode.splits)
qed

section \<open>The last transcript\<close>

text \<open>A recognition stream that yields the given events and then ends.\<close>

inductive recognises ::
  "('st, SttStreamEvent option) provider_operation \<Rightarrow> SttStreamEvent list \<Rightarrow> 'st AuthorizedStream \<times> runtime
     \<Rightarrow> 'st AuthorizedStream \<times> runtime \<Rightarrow> bool" for stream_next where
  recognition_ends: "next_event stream_next w = (Inr None, w') \<Longrightarrow> recognises stream_next [] w w'"
| recognition_yields: "next_event stream_next w = (Inr (Some event), w') \<Longrightarrow>
    recognises stream_next events w' w'' \<Longrightarrow> recognises stream_next (event # events) w w''"

definition usable_finals :: "SttStreamEvent list \<Rightarrow> Transcript list" where
  "usable_finals events = filter (\<lambda>t. \<not> blank (transcript_text t)) (map stt_event_transcript (filter stt_event_is_final events))"

definition last_usable :: "Transcript option \<Rightarrow> SttStreamEvent list \<Rightarrow> Transcript option" where
  "last_usable found events = (if usable_finals events = [] then found else Some (last (usable_finals events)))"

lemma last_usable_Cons: "last_usable (final_transcript found event) events = last_usable found (event # events)"
  by (cases event) (auto simp: last_usable_def usable_finals_def final_transcript_def)

lemma final_events_total:
  assumes "recognises stream_next events w w'" and "length events < fuel"
  shows "final_events fuel stream_next between after turn found w = (Some (Ok (last_usable found events)), w')"
  using assms
proof (induction events w w' arbitrary: found fuel rule: recognises.induct)
  case (recognition_ends w w')
  then obtain f where "fuel = Suc f" by (cases fuel) auto
  with recognition_ends show ?case by (simp add: last_usable_def usable_finals_def)
next
  case (recognition_yields w event w' events w'')
  then obtain f where "fuel = Suc f" "length events < f" by (cases fuel) auto
  with recognition_yields(1,3) show ?case by (simp add: last_usable_Cons)
qed

section \<open>Properties\<close>

text \<open>C31. What is recognised. When the recognition stream ends after finitely many events, finishing the input
  always comes to an end: it answers with the last final transcript that is not blank, whatever interim or empty ones
  follow it, and the stream's usage; when there is none, the turn is ended as unrecognised speech, not as a failure of
  the provider. Either way the stream's permit is given back.\<close>

theorem last_final_transcript_wins:
  assumes mode: "vsi_mode self = Streaming opened"
    and finished: "finish_input stream_finish (opened, s) = (Ok (), w)"
    and events: "recognises stream_next events w (closed, s')" and fuel: "length events < fuel"
  shows "VoiceSttInput_finish fuel stream_finish stream_next stream_usage stt_transcribe issuing between after turn self s =
    (if usable_finals events = [] then
       map_prod (Some \<circ> Err) (permit_drop (stream_permit closed))
         (terminalize_failed_turn between after turn SpeechNotRecognized s')
     else (Some (Ok (last (usable_finals events), stream_usage (stream closed))), permit_drop (stream_permit closed) s'))"
  using final_events_total [OF events fuel, of between after turn None]
  by (auto simp: VoiceSttInput_finish_def mode finish_streaming_def finished last_usable_def split: prod.splits)

definition sample_request :: SttStreamRequest where
  "sample_request = \<lparr>stt_sample_rate_hz = 16000, stt_channels = 1, stt_sample_format = S16Le, stt_locale_hint = None\<rparr>"

definition sample_events :: "SttStreamEvent list" where
  "sample_events = [Final \<lparr>transcript_text = lit ''yes'', transcript_locale = lit ''en''\<rparr>,
     Final \<lparr>transcript_text = lit '' '', transcript_locale = lit ''en''\<rparr>]"

definition sample_stt_usage :: UsageEvidence where
  "sample_stt_usage = \<lparr>input_units = Some 2, input_unit = None, output_units = None, output_unit = None,
     estimated_cost_microunits = None, provider_charge_microunits = None\<rparr>"

definition sample_next_event :: "(SttStreamEvent list, SttStreamEvent option) provider_operation" where
  "sample_next_event c w =
     (case w of ([], s) \<Rightarrow> (Inr None, ([], s)) | (event # rest, s) \<Rightarrow> (Inr (Some event), (rest, s)))"

definition sample_recognition :: "SttStreamEvent list AuthorizedStream" where
  "sample_recognition = \<lparr>stream = sample_events, stream_permit =
     \<lparr>permit_cancellation = projr (issue_checks sample_turn (ProviderOperation_required_scope Llm) Biometric sample_outputting),
      active_egress = False\<rparr>\<rparr>"

lemma sample_recognises:
  assumes "\<not> ProviderCancellation_is_cancelled (permit_cancellation (stream_permit o')) s"
  shows "recognises sample_next_event (stream o') (o', s) (o'\<lparr>stream := []\<rparr>, s)"
  using assms
proof (induction "stream o'" arbitrary: o')
  case Nil
  have "next_event sample_next_event (o', s) = (Inr None, (o'\<lparr>stream := []\<rparr>, s))"
    using Nil(2) by (simp add: next_event_def on_stream_def dispatch_def sample_next_event_def flip: Nil(1))
  then show ?case unfolding Nil(1) [symmetric] by (rule recognition_ends)
next
  case (Cons event rest)
  have "next_event sample_next_event (o', s) = (Inr (Some event), (o'\<lparr>stream := rest\<rparr>, s))"
    using Cons(3) by (simp add: next_event_def on_stream_def dispatch_def sample_next_event_def flip: Cons(2))
  moreover have "recognises sample_next_event rest (o'\<lparr>stream := rest\<rparr>, s) (o'\<lparr>stream := []\<rparr>, s)"
    using Cons(1) [of "o'\<lparr>stream := rest\<rparr>"] Cons(3) by simp
  ultimately show ?case unfolding Cons(2) [symmetric] by (rule recognition_yields)
qed

theorem last_final_transcript_wins_witness:
  "VoiceSttInput_finish 3 (\<lambda>_ w. (Ok (), w)) sample_next_event (\<lambda>_. sample_stt_usage) (\<lambda>_ _ w. (Err \<lparr>provider_error_kind = ProviderErrorKind.Unavailable, provider_retryable = False\<rparr>, w)) id id id sample_turn
      \<lparr>vsi_request = sample_request, vsi_mode = Streaming sample_recognition\<rparr> sample_outputting =
    (Some (Ok (\<lparr>transcript_text = lit ''yes'', transcript_locale = lit ''en''\<rparr>, sample_stt_usage)), sample_outputting)"
proof -
  have live: "\<not> ProviderCancellation_is_cancelled (permit_cancellation (stream_permit sample_recognition)) sample_outputting"
    by code_simp
  have "stream sample_recognition = sample_events" by (simp add: sample_recognition_def)
  with sample_recognises [OF live] have
    "recognises sample_next_event sample_events (sample_recognition, sample_outputting)
       (sample_recognition\<lparr>stream := []\<rparr>, sample_outputting)" by simp
  moreover have "finish_input (\<lambda>_ w. (Ok (), w)) (sample_recognition, sample_outputting) =
      (Ok (), (sample_recognition, sample_outputting))"
    using live by (simp add: finish_input_def on_stream_def dispatch_def)
  moreover have "usable_finals sample_events = [\<lparr>transcript_text = lit ''yes'', transcript_locale = lit ''en''\<rparr>]"
      "length sample_events < 3"
    by code_simp+
  moreover have "permit_drop (stream_permit sample_recognition) sample_outputting = sample_outputting"
    by (simp add: permit_drop_def sample_recognition_def)
  ultimately show ?thesis
    using last_final_transcript_wins [of "\<lparr>vsi_request = sample_request, vsi_mode = Streaming sample_recognition\<rparr>"
        sample_recognition "\<lambda>_ w. (Ok (), w)" sample_outputting "(sample_recognition, sample_outputting)"
        sample_next_event sample_events "sample_recognition\<lparr>stream := []\<rparr>" sample_outputting 3]
    by simp
qed

end
