(* ===== verification/Spec2Isabelle.thy ===== *)
theory Spec2Isabelle
  imports VPR_Preparation VPR_Publication VPR_Capture VPR_World VPR_Store_Races VPR_Visitor VPR_Remote_Media VPR_Tcp_Writer VPR_Exit_Ready VPR_Utterance VPR_Recorded_Evaluation VPR_Phrases VPR_Voice_Input
begin

text \<open>
  \<^bold>\<open>Verification of the Virtual Persona Runtime.\<close>

  The program lets an owner build a digital Persona of themselves from verified statements, publish it,
  and hold realtime sessions with it through external providers (language model, speech recognition,
  speech synthesis, avatar). Its core is the Rust workspace under \<^verbatim>\<open>crates/\<close>. This library models
  that core as HOL functions, one per method, in the order of the source, and proves the properties the
  comments, names and tests of the code promise.

  \<^bold>\<open>Parts of the program and the theories that model them.\<close>

  \<^item> \<open>VPR_Prelude\<close>: Rust's \<open>Result\<close>, checked arithmetic on \<open>u16\<close>/\<open>u32\<close>/\<open>u64\<close> words and on \<open>usize\<close>,
    strings as lists of Unicode scalar values with their UTF-8 length, \<open>iter_mut().find\<close>, and histories of
    fallible calls (\<open>run_ops\<close>, \<open>final\<close>). A method with \<open>&mut self\<close> is an \<open>op\<close>: it returns its result and the
    new state, so that what an error leaves behind is part of every statement.
  \<^item> \<open>VPR_Ids\<close>, \<open>VPR_Identity\<close> (\<^verbatim>\<open>vpr-domain\<close>: \<^verbatim>\<open>ids.rs\<close>, \<^verbatim>\<open>persona.rs\<close>, \<^verbatim>\<open>claim.rs\<close>, \<^verbatim>\<open>reason.rs\<close>): canonical
    identifiers, the four counters, Persona identity, claims and their provenance, reason codes.
  \<^item> \<open>VPR_Lifecycle\<close> (\<^verbatim>\<open>session.rs\<close>): the state machines of sessions, turns and delivery evidence.
  \<^item> \<open>VPR_Profile\<close> (\<^verbatim>\<open>profile.rs\<close>): claim records with append-only history, review, correction, transactional
    correction with rollback, restoration from persisted history.
  \<^item> \<open>VPR_Preparation\<close> (\<^verbatim>\<open>preparation.rs\<close>): modality readiness and preparation jobs.
  \<^item> \<open>VPR_Policy\<close>, \<open>VPR_Publication\<close> (\<^verbatim>\<open>vpr-policy\<close>): authority layers, egress decision, authorization epochs;
    publication lifecycle, visitor permits, durable snapshots.
  \<^item> \<open>VPR_Capture\<close> (\<^verbatim>\<open>vpr-capture\<close>): interview plans and the guided owner interview.
  \<^item> \<open>VPR_Integration\<close> (\<^verbatim>\<open>vpr-integration\<close>: \<^verbatim>\<open>lib.rs\<close>, \<^verbatim>\<open>llm.rs\<close>, \<^verbatim>\<open>stt.rs\<close>, \<^verbatim>\<open>transport.rs\<close>): the values of the provider
    and transport contracts and the bounded sinks for generated output.
  \<^item> \<open>VPR_Timeline\<close>, \<open>VPR_Turn_State\<close> (\<^verbatim>\<open>vpr-runtime\<close>: \<^verbatim>\<open>media_timeline.rs\<close>, \<^verbatim>\<open>turn_state.rs\<close>, \<^verbatim>\<open>output.rs\<close>): the media
    timeline and what sits behind one turn's lock.
  \<^item> \<open>VPR_Authority\<close> (\<^verbatim>\<open>authority.rs\<close>, \<^verbatim>\<open>execution_gate.rs\<close>, \<^verbatim>\<open>cancellation.rs\<close>, \<^verbatim>\<open>provider.rs\<close>, \<^verbatim>\<open>error.rs\<close>): the state
    threads share, the authorization and egress policy controllers, admission and dispatch of provider
    operations.
  \<^item> \<open>VPR_Runtime\<close>, \<open>VPR_Delivery\<close> (\<^verbatim>\<open>session.rs\<close>, \<^verbatim>\<open>turn.rs\<close>, \<^verbatim>\<open>delivery.rs\<close>, \<^verbatim>\<open>media_delivery.rs\<close>): sessions, turns, provider
    operations, output delivery.
  \<^item> \<open>VPR_Avatar\<close>, \<open>VPR_Utterance\<close> (\<^verbatim>\<open>vpr-integration\<close>: \<^verbatim>\<open>avatar.rs\<close>; \<^verbatim>\<open>avatar_runtime.rs\<close>, \<^verbatim>\<open>avatar_output_error.rs\<close>,
    \<^verbatim>\<open>audio_stage_timing.rs\<close>): avatar sessions behind a provider, what is spoken through them, and the streamed
    utterance with any avatar and any speech provider. A speech provider is a finite tree of interactions with the
    sink, so synthesis always returns.
  \<^item> \<open>VPR_World\<close>: all interleavings of the above within one session.
  \<^item> \<open>VPR_Owner_Context\<close> (\<^verbatim>\<open>vpr-owner-lab\<close>: \<^verbatim>\<open>owner_context.rs\<close>): the reviewed owner context, its durable form and
    corrections that are committed before they are visible.
  \<^item> \<open>VPR_Workspace\<close> (\<^verbatim>\<open>rt1_workspace.rs\<close>): the owner's workspace record, its tokens and publication.
  \<^item> \<open>VPR_Persona_Store\<close> (\<^verbatim>\<open>persona_file_io.rs\<close>, \<^verbatim>\<open>persona_persistence.rs\<close>, \<^verbatim>\<open>rt1_workspace_service.rs\<close>): the store file,
    its atomic replacement and migration, and the service operations as transactions on it. Here every operation
    runs whole; \<open>VPR_Store_Races\<close> takes the reads and the commits of the same operations as separate steps.
  \<^item> \<open>VPR_Visitor\<close> (\<^verbatim>\<open>rt1_visitor_session.rs\<close>, \<^verbatim>\<open>rt1_visitor_session_manager.rs\<close>, \<^verbatim>\<open>rt1_visitor_egress.rs\<close>,
    \<^verbatim>\<open>rt1_owner_controller.rs\<close>, \<^verbatim>\<open>rt1_startup.rs\<close>): the visitor registry, owner commands and recovery at start-up.
  \<^item> \<open>VPR_Provider_Http\<close> (\<^verbatim>\<open>vpr-integration\<close>: \<^verbatim>\<open>provider_http.rs\<close>, \<^verbatim>\<open>provider_http_async.rs\<close>): the bounded readers of provider
    bodies, streams and lines, and requests that poll for cancellation.
  \<^item> \<open>VPR_Tcp_Writer\<close> (\<^verbatim>\<open>vpr-runtime\<close>: \<^verbatim>\<open>cancellable_tcp_writer.rs\<close>): the response writer with revocation and deadline.
  \<^item> \<open>VPR_Remote_Media\<close> (\<^verbatim>\<open>vpr-provider-local-open-source\<close>: \<^verbatim>\<open>operation_client.rs\<close>; \<^verbatim>\<open>vpr-owner-lab\<close>:
    \<^verbatim>\<open>rt1_remote_media_revocation.rs\<close>): the client of one remote media operation and its confirmed stop.
  \<^item> \<open>VPR_Golden\<close> (\<^verbatim>\<open>vpr-evaluation\<close>: \<^verbatim>\<open>golden.rs\<close>, \<^verbatim>\<open>binding.rs\<close>, \<^verbatim>\<open>owner_golden.rs\<close>, \<^verbatim>\<open>live_provider.rs\<close>): golden suites,
    their evaluation and the binding of evidence to one candidate.
  \<^item> \<open>VPR_Session_Evidence\<close>, \<open>VPR_Session_Aggregate\<close> (\<^verbatim>\<open>session_types.rs\<close>, \<^verbatim>\<open>session_statistics.rs\<close>, \<^verbatim>\<open>session_evidence.rs\<close>
    and its submodules): snapshots of lab sessions and their aggregation; the definitions and their theorems.
  \<^item> \<open>VPR_Exit_Evidence\<close>, \<open>VPR_Exit_Gate\<close>, \<open>VPR_Exit_Ready\<close> (\<^verbatim>\<open>session_binding.rs\<close>, \<^verbatim>\<open>exit.rs\<close>, \<^verbatim>\<open>exit_validation.rs\<close>,
    \<^verbatim>\<open>exit_checks.rs\<close>, \<^verbatim>\<open>exit_cost.rs\<close>, \<^verbatim>\<open>exit_context.rs\<close>): the evidence of the RT0 exit gate, its validation against the
    raw artifacts, the verdict, and a bundle for which the verdict is ready.
  \<^item> \<open>VPR_Evidence_Recorder\<close>, \<open>VPR_Recorded_Sessions\<close>, \<open>VPR_Recorded_Evaluation\<close> (\<^verbatim>\<open>vpr-owner-lab\<close>: \<^verbatim>\<open>evidence.rs\<close> with its
    modules): the recorder of session evidence, what it guarantees over every history of calls, and how its snapshots
    fare in the aggregator of \<open>VPR_Session_Evidence\<close>: the two agree on what a session proves, sessions of text turns
    are always usable, and a streamed voice turn that fails spoils its session.
  \<^item> \<open>VPR_Phrases\<close>, \<open>VPR_Voice_Playback\<close>, \<open>VPR_Voice_Input\<close> (\<^verbatim>\<open>vpr-owner-lab\<close>: \<^verbatim>\<open>state/voice_phrase.rs\<close>, \<^verbatim>\<open>state/voice.rs\<close>,
    \<^verbatim>\<open>state/voice_playback.rs\<close>, \<^verbatim>\<open>state/voice_stt.rs\<close>, \<^verbatim>\<open>state/voice_input.rs\<close>): the phrases a streamed reply is spoken in and
    the thread that cuts them, the registry of played segments, and the microphone with speech recognition.
    \<open>VPR_Btree\<close> holds the ordered maps of the owner lab.

  \<^bold>\<open>Interfaces.\<close> What one part relies on in another is a locale, interpreted on the model's own definitions:
  \<open>lease_epochs\<close> and its extension \<open>lease_authority\<close> (an accepted lease dies with the first successful change of
  its epoch) for the authorization state, the publication and the workspace record; \<open>label_codec\<close> (reading a
  printed label gives the value back) for the four labels of the owner context; \<open>bounded_sink\<close> for the audio, video and text sinks;
  \<open>bound_turn_registry\<close> (a turn that still runs is bound to the current key) for the authorization and the
  egress policy controller; \<open>failure_check\<close> (a check appends failures exactly when a requirement is not met) for the
  golden expectations and the six checks of the exit gate; a lifecycle locale for the domain's state machines.

  \<^bold>\<open>Concurrency.\<close> Threads share a session's state through \<open>Arc\<close>, \<open>Mutex\<close>, \<open>RwLock\<close> and atomic flags. The record
  \<open>runtime\<close> holds that state, with a bit for each lock that can be poisoned. A method that holds the
  session gate is one step. Where the code releases it (between the checks and the admission of a permit,
  during provider and transport calls, while waiting for quiescence) the definitions take what other
  threads do as an argument, and the theorems quantify over every interleaving of \<open>world_step\<close>. Two methods
  that hold the gate for reading at the same time are taken one after the other: between their
  statements they only share a turn's own mutex and flags that go from running to cancelled. The owner lab's
  critical sections (the workspace transaction, the visitor registry's mutex, one visitor's egress state) are steps in
  the same way, and a reference to a visitor that was looked up is used in later steps. Saving a reviewed Persona takes
  no lock: in \<open>VPR_Persona_Store\<close> and \<open>VPR_Visitor\<close> each durable operation, also a save, runs from its read to its
  commit before the next begins; \<open>VPR_Store_Races\<close> lets every save read and commit at any two moments, also around
  the read and the commit of a transaction, and says what remains true: the store always holds a valid record of the
  same Persona, and it goes back only when a commit replaces a record its writer had not read, which takes a save.
  A lost correction and an undone pause are shown as such schedules. The first packet of a turn takes the lock of the
  media timeline twice, and both steps are separate there.

  \<^bold>\<open>Parameters.\<close> Providers and the transport are traits implemented by adapters to external services; they are
  arguments of the definitions and may answer anything. So are SHA-256, the random generator, the JSON codec of the
  store (a hypothesis says that it reads back what it wrote), the answers of the file system, of sockets and of the
  remote media worker, and Unicode lower-casing. The clock is a component of the state that changes
  arbitrarily, also backwards.

  \<^bold>\<open>Recursion and bounds.\<close> Only \<open>produce_loop\<close> and \<open>final_events\<close> use fuel, one unit for each chunk or event of a
  provider's stream; their theorems say that one more than the stream yields is enough. Most loops of the source run over lists and are structural
  recursions; \<open>stream_loop\<close>, \<open>line_loop\<close>, \<open>from_utf8\<close> and \<open>push_phrases\<close> have a termination proof by what is left of their text. The loops that wait
  for the outside (\<open>poll_until\<close>, \<open>async_body_loop\<close>, \<open>write_loop\<close>) are partial functions, for which separate theorems
  say when they return. Integers keep their width; \<open>checked_*\<close> arithmetic returns no value on overflow as
  in the source, and \<open>usize\<close> is a natural number whose checked operations fail from \<open>2 ^ 64\<close> on.

  \<^bold>\<open>What the groups of lemmas show.\<close> Per component: a well-formedness invariant that every operation keeps over
  every history of calls, refused calls included; the behaviour of each operation on every branch; round trips
  of durable data; and, for sessions, that a provider operation only starts and only succeeds while it is
  authorized, that revocation is final for the turns it meets, that delivery evidence follows the transport
  and is never lost, and that media stamps are ordered. For the outer parts: what is read from a provider is
  bounded and exact, writing to a peer ends, a reported stop of remote media was confirmed by the worker, and
  the reports and the verdict of the evaluation rest exactly on what was recorded.

  \<^bold>\<open>Not modelled.\<close> Formatting (\<open>Debug\<close>, \<open>Display\<close>) and serde encodings; key stores and process
  start-up; the provider adapters' protocols; the rest of the owner lab (HTTP surface, engine, capture of voice references), the
  assembly of evidence files, the evaluation and live-proof binaries, and the browser UI.
\<close>

end
